(* ===== verification/Prelude.thy ===== *)
theory Prelude
  imports
    Main
    "HOL-Library.Char_ord"
    "HOL-Library.List_Lexorder"
    "HOL-Library.Product_Lexorder"
    "HOL-Library.Multiset"
    "HOL-Library.Sublist"
begin

section \<open>Prelude: Python computations in HOL\<close>

text \<open>
  What the component theories share.
  \<^item> The result monad \<open>'e + 'a\<close> of pure code that raises (\<open>Inl\<close> is the exception).
  \<^item> The state monad \<open>('e, 's, 'a) py\<close> of methods that mutate \<open>self\<close> and may raise: an exception
    keeps the state reached so far, as it does in Python.  A database transaction
    (\<open>with connection as db:\<close>) is the combinator \<open>atomically\<close>, which undoes the writes to the
    database when the block raises and leaves everything else as it is.
  \<^item> weakest preconditions \<open>pwp view m Q E d\<close> over a part of the state, with a normal and an exceptional
    postcondition, and \<open>within R m\<close>, what a run may do to the state.
  \<^item> The locale \<open>evolution\<close>: a reflexive and transitive relation between the states before and
    after, shown to hold for whole programs by going through their combinators.
  \<^item> Python's \<open>str\<close> as \<open>string\<close>: a character is a code point below 256.  The lexicographic order
    of \<open>List_Lexorder\<close> is Python's order on \<open>str\<close>, and \<open>Product_Lexorder\<close> its order on tuples.
\<close>

named_theorems py_defs \<open>definitions of the monad's combinators\<close>
named_theorems pwp_rules \<open>syntax-directed rules for weakest preconditions\<close>

subsection \<open>The result monad\<close>

definition ebind :: "'e + 'a \<Rightarrow> ('a \<Rightarrow> 'e + 'b) \<Rightarrow> 'e + 'b" where
  "ebind m f = (case m of Inl e \<Rightarrow> Inl e | Inr x \<Rightarrow> f x)"

definition check :: "bool \<Rightarrow> 'e \<Rightarrow> 'e + unit" where
  "check b e = (if b then Inr () else Inl e)"

fun emap :: "('a \<Rightarrow> 'e + 'b) \<Rightarrow> 'a list \<Rightarrow> 'e + 'b list" where
  "emap f [] = Inr []"
| "emap f (x # xs) = ebind (f x) (\<lambda>y. ebind (emap f xs) (\<lambda>ys. Inr (y # ys)))"

lemma ebind_simps [simp]:
  "ebind (Inl e) f = Inl e"
  "ebind (Inr x) f = f x"
  by (simp_all add: ebind_def)

lemma ebind_Inr_iff: "ebind m f = Inr y \<longleftrightarrow> (\<exists>x. m = Inr x \<and> f x = Inr y)"
  by (cases m) simp_all

lemma ebind_Inl_iff: "ebind m f = Inl e \<longleftrightarrow> m = Inl e \<or> (\<exists>x. m = Inr x \<and> f x = Inl e)"
  by (cases m) simp_all

lemma check_simps [simp]:
  "check True e = Inr ()"
  "check False e = Inl e"
  by (simp_all add: check_def)

lemma check_Inr_iff [simp]: "check b e = Inr u \<longleftrightarrow> b"
  by (simp add: check_def)

lemma check_Inl_iff [simp]: "check b e = Inl e' \<longleftrightarrow> \<not> b \<and> e' = e"
  by (auto simp: check_def)

lemma emap_Inr_iff: "emap f xs = Inr ys \<longleftrightarrow> list_all2 (\<lambda>x y. f x = Inr y) xs ys"
proof (induction xs arbitrary: ys)
  case Nil
  then show ?case by auto
next
  case (Cons x xs)
  then show ?case by (cases ys) (auto simp: ebind_Inr_iff)
qed

lemma emap_Inl_iff: "(\<exists>e. emap f xs = Inl e) \<longleftrightarrow> (\<exists>x \<in> set xs. \<exists>e. f x = Inl e)"
proof (induction xs)
  case Nil
  then show ?case by simp
next
  case (Cons x xs)
  then show ?case by (cases "f x"; cases "emap f xs") auto
qed

lemma emap_length: "emap f xs = Inr ys \<Longrightarrow> length ys = length xs"
  by (auto simp: emap_Inr_iff dest: list_all2_lengthD)

lemma emap_set:
  assumes "emap f xs = Inr ys" and "y \<in> set ys"
  obtains x where "x \<in> set xs" and "f x = Inr y"
proof -
  from assms(1) have len: "length xs = length ys" and all: "\<forall>i < length xs. f (xs ! i) = Inr (ys ! i)"
    by (auto simp: emap_Inr_iff list_all2_conv_all_nth)
  from assms(2) obtain i where "i < length ys" and "y = ys ! i"
    by (auto simp: in_set_conv_nth)
  with len all that [of "xs ! i"] show ?thesis by simp
qed

lemma emap_all:
  assumes "emap f xs = Inr ys" and "\<And>x y. x \<in> set xs \<Longrightarrow> f x = Inr y \<Longrightarrow> P y"
  shows "\<forall>y \<in> set ys. P y"
  using assms by (blast elim: emap_set)

subsection \<open>The state monad with exceptions\<close>

type_synonym ('e, 's, 'a) py = "'s \<Rightarrow> ('e + 'a) \<times> 's"

definition ret :: "'a \<Rightarrow> ('e, 's, 'a) py" where
  [py_defs]: "ret x s = (Inr x, s)"

definition raise :: "'e \<Rightarrow> ('e, 's, 'a) py" where
  [py_defs]: "raise e s = (Inl e, s)"

definition bind :: "('e, 's, 'a) py \<Rightarrow> ('a \<Rightarrow> ('e, 's, 'b) py) \<Rightarrow> ('e, 's, 'b) py" where
  [py_defs]: "bind m f s = (case m s of (Inl e, t) \<Rightarrow> (Inl e, t) | (Inr x, t) \<Rightarrow> f x t)"

text \<open>\<open>andthen m n\<close> is the statement sequence \<open>m; n\<close>.\<close>

definition andthen :: "('e, 's, 'a) py \<Rightarrow> ('e, 's, 'b) py \<Rightarrow> ('e, 's, 'b) py" where
  [py_defs]: "andthen m n = bind m (\<lambda>_. n)"

text \<open>\<open>try_except m h\<close> is \<open>try: m except Exception as exc: h(exc)\<close>.\<close>

definition try_except :: "('e, 's, 'a) py \<Rightarrow> ('e \<Rightarrow> ('e, 's, 'a) py) \<Rightarrow> ('e, 's, 'a) py" where
  [py_defs]: "try_except m h s = (case m s of (Inl e, t) \<Rightarrow> h e t | (Inr x, t) \<Rightarrow> (Inr x, t))"

definition gets :: "('s \<Rightarrow> 'a) \<Rightarrow> ('e, 's, 'a) py" where
  [py_defs]: "gets f s = (Inr (f s), s)"

definition modify :: "('s \<Rightarrow> 's) \<Rightarrow> ('e, 's, unit) py" where
  [py_defs]: "modify f s = (Inr (), f s)"

definition require :: "bool \<Rightarrow> 'e \<Rightarrow> ('e, 's, unit) py" where
  [py_defs]: "require b e = (if b then ret () else raise e)"

definition lift_result :: "'e + 'a \<Rightarrow> ('e, 's, 'a) py" where
  [py_defs]: "lift_result r s = (r, s)"

text \<open>
  \<open>atomically get put m\<close> is \<open>with connection as db: m\<close> for the database that \<open>get\<close> reads and
  \<open>put\<close> writes: when \<open>m\<close> raises, the database is what it was before the block.
\<close>

definition atomically ::
  "('s \<Rightarrow> 'd) \<Rightarrow> ('d \<Rightarrow> 's \<Rightarrow> 's) \<Rightarrow> ('e, 's, 'a) py \<Rightarrow> ('e, 's, 'a) py" where
  [py_defs]: "atomically get put m s =
     (case m s of (Inl e, t) \<Rightarrow> (Inl e, put (get s) t) | (Inr x, t) \<Rightarrow> (Inr x, t))"

text \<open>\<open>zoom get put m\<close> runs a method of an object held in a field of the state.\<close>

definition zoom :: "('s \<Rightarrow> 't) \<Rightarrow> ('t \<Rightarrow> 's \<Rightarrow> 's) \<Rightarrow> ('e, 't, 'a) py \<Rightarrow> ('e, 's, 'a) py" where
  [py_defs]: "zoom get put m s = (case m (get s) of (r, t) \<Rightarrow> (r, put t s))"

lemma bind_ret [simp]: "bind (ret x) f = f x"
  by (rule ext) (simp add: py_defs)

lemma bind_raise [simp]: "bind (raise e) f = raise e"
  by (rule ext) (simp add: py_defs)

lemma bind_assoc: "bind (bind m f) g = bind m (\<lambda>x. bind (f x) g)"
  by (rule ext) (simp add: py_defs split: prod.splits sum.splits)

lemma bind_Inr_iff:
  "bind m f s = (Inr y, t) \<longleftrightarrow> (\<exists>x u. m s = (Inr x, u) \<and> f x u = (Inr y, t))"
  by (auto simp: bind_def split: prod.splits sum.splits)

lemma bind_Inl_iff:
  "bind m f s = (Inl e, t) \<longleftrightarrow>
     m s = (Inl e, t) \<or> (\<exists>x u. m s = (Inr x, u) \<and> f x u = (Inl e, t))"
  by (auto simp: bind_def split: prod.splits sum.splits)

lemma andthen_Inr_iff:
  "andthen m n s = (Inr y, t) \<longleftrightarrow> (\<exists>x u. m s = (Inr x, u) \<and> n u = (Inr y, t))"
  by (simp add: andthen_def bind_Inr_iff)

lemma andthen_Inl_iff:
  "andthen m n s = (Inl e, t) \<longleftrightarrow>
     m s = (Inl e, t) \<or> (\<exists>x u. m s = (Inr x, u) \<and> n u = (Inl e, t))"
  by (simp add: andthen_def bind_Inl_iff)

lemma require_Inr_iff [simp]: "require b e s = (Inr u, t) \<longleftrightarrow> b \<and> t = s"
  by (auto simp: py_defs)

lemma require_Inl_iff [simp]: "require b e s = (Inl e', t) \<longleftrightarrow> \<not> b \<and> e' = e \<and> t = s"
  by (auto simp: py_defs)

lemma atomically_Inr_iff: "atomically get put m s = (Inr x, t) \<longleftrightarrow> m s = (Inr x, t)"
  by (auto simp: atomically_def split: prod.splits sum.splits)

lemma atomically_Inl_iff:
  "atomically get put m s = (Inl e, t) \<longleftrightarrow> (\<exists>u. m s = (Inl e, u) \<and> t = put (get s) u)"
  by (auto simp: atomically_def split: prod.splits sum.splits)

lemmas run_iffs = bind_Inr_iff bind_Inl_iff andthen_Inr_iff andthen_Inl_iff
  atomically_Inr_iff atomically_Inl_iff

subsection \<open>Weakest preconditions over a part of the state\<close>

text \<open>
  \<open>pwp view m Q E d\<close>: every run of \<open>m\<close> from a state whose part \<open>view\<close> is \<open>d\<close> (a database, say),
  whatever the rest of the state, ends with a part that satisfies \<open>Q\<close> with the result or, when it
  raises, \<open>E\<close>.  The rules work backwards over the program text.
\<close>

definition pwp ::
  "('s \<Rightarrow> 'd) \<Rightarrow> ('e, 's, 'a) py \<Rightarrow> ('a \<Rightarrow> 'd \<Rightarrow> bool) \<Rightarrow> ('e \<Rightarrow> 'd \<Rightarrow> bool) \<Rightarrow> 'd \<Rightarrow> bool" where
  "pwp view m Q E d \<longleftrightarrow> (\<forall>s. view s = d \<longrightarrow>
     (case m s of (Inr x, t) \<Rightarrow> Q x (view t) | (Inl e, t) \<Rightarrow> E e (view t)))"

lemma pwpI:
  "(\<And>s x t. view s = d \<Longrightarrow> m s = (Inr x, t) \<Longrightarrow> Q x (view t)) \<Longrightarrow>
   (\<And>s e t. view s = d \<Longrightarrow> m s = (Inl e, t) \<Longrightarrow> E e (view t)) \<Longrightarrow> pwp view m Q E d"
  by (auto simp: pwp_def split: prod.splits sum.splits)

lemma pwp_Inr: "pwp view m Q E (view s) \<Longrightarrow> m s = (Inr x, t) \<Longrightarrow> Q x (view t)"
  by (auto simp: pwp_def dest!: spec [of _ s])

lemma pwp_Inl: "pwp view m Q E (view s) \<Longrightarrow> m s = (Inl e, t) \<Longrightarrow> E e (view t)"
  by (auto simp: pwp_def dest!: spec [of _ s])

lemma pwp_conseq:
  "pwp view m Q E d \<Longrightarrow> (\<And>x d. Q x d \<Longrightarrow> Q' x d) \<Longrightarrow> (\<And>e d. E e d \<Longrightarrow> E' e d) \<Longrightarrow> pwp view m Q' E' d"
  by (auto simp: pwp_def split: prod.splits sum.splits)

lemma pwp_snd: "pwp view m (\<lambda>_. P) (\<lambda>_. P) (view s) \<Longrightarrow> P (view (snd (m s)))"
  by (cases "m s"; cases "fst (m s)") (auto dest: pwp_Inr [of view m] pwp_Inl [of view m])

lemma pwp_bind [pwp_rules]: "pwp view m (\<lambda>x. pwp view (f x) Q E) E d \<Longrightarrow> pwp view (bind m f) Q E d"
  by (rule pwpI)
    (auto simp: run_iffs dest: pwp_Inr [of view m _ E] pwp_Inl [of view m _ E] intro: pwp_Inr pwp_Inl)

lemma pwp_andthen [pwp_rules]: "pwp view m (\<lambda>_. pwp view n Q E) E d \<Longrightarrow> pwp view (andthen m n) Q E d"
  unfolding andthen_def by (rule pwp_bind)

lemma pwp_ret [pwp_rules]: "Q x d \<Longrightarrow> pwp view (ret x) Q E d"
  by (simp add: pwp_def py_defs)

lemma pwp_raise [pwp_rules]: "E e d \<Longrightarrow> pwp view (raise e) Q E d"
  by (simp add: pwp_def py_defs)

lemma pwp_require [pwp_rules]:
  "(b \<Longrightarrow> Q () d) \<Longrightarrow> (\<not> b \<Longrightarrow> E e d) \<Longrightarrow> pwp view (require b e) Q E d"
  by (simp add: pwp_def py_defs)

lemma pwp_lift_result [pwp_rules]:
  "(\<And>x. r = Inr x \<Longrightarrow> Q x d) \<Longrightarrow> (\<And>e. r = Inl e \<Longrightarrow> E e d) \<Longrightarrow> pwp view (lift_result r) Q E d"
  by (cases r) (simp_all add: pwp_def py_defs)

lemma pwp_gets: "(\<And>x. Q x d) \<Longrightarrow> pwp view (gets f) Q E d"
  by (simp add: pwp_def py_defs)

lemma pwp_try_except [pwp_rules]:
  "pwp view m Q (\<lambda>e. pwp view (h e) Q E) d \<Longrightarrow> pwp view (try_except m h) Q E d"
  by (rule pwpI; simp add: try_except_def split: prod.splits sum.splits)
    (auto dest: pwp_Inr [of view m Q] pwp_Inl [of view m Q] intro: pwp_Inr pwp_Inl)

lemma pwp_If [pwp_rules]:
  "(b \<Longrightarrow> pwp view m Q E d) \<Longrightarrow> (\<not> b \<Longrightarrow> pwp view n Q E d) \<Longrightarrow> pwp view (if b then m else n) Q E d"
  by simp

lemma pwp_case_option [pwp_rules]:
  "(x = None \<Longrightarrow> pwp view m Q E d) \<Longrightarrow> (\<And>y. x = Some y \<Longrightarrow> pwp view (f y) Q E d) \<Longrightarrow>
   pwp view (case x of None \<Rightarrow> m | Some y \<Rightarrow> f y) Q E d"
  by (cases x) simp_all

lemma pwp_case_prod [pwp_rules]:
  "(\<And>a b. x = (a, b) \<Longrightarrow> pwp view (f a b) Q E d) \<Longrightarrow> pwp view (case x of (a, b) \<Rightarrow> f a b) Q E d"
  by (cases x) simp

lemma pwp_Let [pwp_rules]: "pwp view (f v) Q E d \<Longrightarrow> pwp view (let x = v in f x) Q E d"
  by simp

lemma pwp_atomically:
  "(\<And>d s. view (put d s) = d) \<Longrightarrow> pwp view m Q (\<lambda>e _. E e d) d \<Longrightarrow> pwp view (atomically view put m) Q E d"
  by (rule pwpI) (auto simp: run_iffs dest: pwp_Inr [of view m Q] pwp_Inl [of view m Q])

lemma pwp_zoom:
  "(\<And>t s. view (put t s) = view s) \<Longrightarrow> (\<And>x. Q x d) \<Longrightarrow> (\<And>e. E e d) \<Longrightarrow> pwp view (zoom get put m) Q E d"
  by (auto simp: pwp_def zoom_def split: prod.splits sum.splits)

subsection \<open>Evolution: what a run may do to the state\<close>

text \<open>
  \<open>within R m\<close>: every run of \<open>m\<close>, also one that raises, takes a state \<open>s\<close> to a state \<open>t\<close> with
  \<open>R s t\<close>.
\<close>

definition within :: "('s \<Rightarrow> 's \<Rightarrow> bool) \<Rightarrow> ('e, 's, 'a) py \<Rightarrow> bool" where
  "within R m \<longleftrightarrow> (\<forall>s. R s (snd (m s)))"

lemma withinI: "(\<And>s. R s (snd (m s))) \<Longrightarrow> within R m"
  by (simp add: within_def)

lemma withinD: "within R m \<Longrightarrow> m s = (r, t) \<Longrightarrow> R s t"
  by (auto simp: within_def dest: spec [of _ s])

locale evolution =
  fixes R :: "'s \<Rightarrow> 's \<Rightarrow> bool"
  assumes refl: "R s s"
    and trans: "R s t \<Longrightarrow> R t u \<Longrightarrow> R s u"
begin

lemma ret: "within R (ret x)"
  by (simp add: within_def py_defs refl)

lemma raise: "within R (raise e)"
  by (simp add: within_def py_defs refl)

lemma gets: "within R (gets f)"
  by (simp add: within_def py_defs refl)

lemma require: "within R (require b e)"
  by (simp add: within_def py_defs refl)

lemma lift_result: "within R (lift_result r)"
  by (simp add: within_def py_defs refl)

lemma modify: "(\<And>s. R s (f s)) \<Longrightarrow> within R (modify f)"
  by (simp add: within_def py_defs)

lemma bind:
  assumes "within R m" and "\<And>x. within R (f x)"
  shows "within R (bind m f)"
proof (rule withinI)
  fix s
  show "R s (snd (bind m f s))"
  proof (cases "m s")
    case (Pair r t)
    from assms(1) Pair have st: "R s t" by (rule withinD)
    show ?thesis
    proof (cases r)
      case (Inl e)
      with Pair st show ?thesis by (simp add: bind_def)
    next
      case (Inr x)
      from assms(2) [of x] have "R t (snd (f x t))" by (simp add: within_def)
      with Pair Inr st show ?thesis by (simp add: bind_def trans)
    qed
  qed
qed

lemma andthen: "within R m \<Longrightarrow> within R n \<Longrightarrow> within R (andthen m n)"
  unfolding andthen_def by (rule bind)

lemma try_except:
  assumes "within R m" and "\<And>e. within R (h e)"
  shows "within R (try_except m h)"
proof (rule withinI)
  fix s
  show "R s (snd (try_except m h s))"
  proof (cases "m s")
    case (Pair r t)
    from assms(1) Pair have st: "R s t" by (rule withinD)
    show ?thesis
    proof (cases r)
      case (Inl e)
      from assms(2) [of e] have "R t (snd (h e t))" by (simp add: within_def)
      with Pair Inl st show ?thesis by (simp add: try_except_def trans)
    next
      case (Inr x)
      with Pair st show ?thesis by (simp add: try_except_def)
    qed
  qed
qed

lemma if_then_else: "within R m \<Longrightarrow> within R n \<Longrightarrow> within R (if b then m else n)"
  by simp

lemma case_option:
  "within R m \<Longrightarrow> (\<And>y. within R (f y)) \<Longrightarrow>
     within R (case x of None \<Rightarrow> m | Some y \<Rightarrow> f y)"
  by (cases x) simp_all

lemmas rules = ret raise gets require lift_result bind andthen try_except
  if_then_else case_option

end

subsection \<open>Python strings\<close>

definition code :: "char \<Rightarrow> nat" where
  "code c = of_char c"

definition chr_of :: "nat \<Rightarrow> char" where
  "chr_of n = char_of n"

lemma chr_of_code [simp]: "chr_of (code c) = c"
  by (simp add: chr_of_def code_def)

lemma code_chr_of [simp]: "n < 256 \<Longrightarrow> code (chr_of n) = n"
  by (simp add: chr_of_def code_def of_char_of)

lemma code_less_256 [simp]: "code c < 256"
  by (simp add: code_def)

lemma code_inject [simp]: "code c = code d \<longleftrightarrow> c = d"
  by (simp add: code_def)

text \<open>\<open>str.isspace\<close> on code points below 256, and \<open>str.strip()\<close>.\<close>

definition is_space :: "char \<Rightarrow> bool" where
  "is_space c \<longleftrightarrow> code c \<in> {9, 10, 11, 12, 13, 28, 29, 30, 31, 32, 133, 160}"

definition py_strip :: "string \<Rightarrow> string" where
  "py_strip s = rev (dropWhile is_space (rev (dropWhile is_space s)))"

text \<open>\<open>str.lower()\<close> on code points below 256.\<close>

definition lower_char :: "char \<Rightarrow> char" where
  "lower_char c =
     (if 65 \<le> code c \<and> code c \<le> 90 \<or> 192 \<le> code c \<and> code c \<le> 222 \<and> code c \<noteq> 215
      then chr_of (code c + 32) else c)"

definition py_lower :: "string \<Rightarrow> string" where
  "py_lower s = map lower_char s"

definition digit_char :: "nat \<Rightarrow> char" where
  "digit_char n = chr_of (48 + n)"

text \<open>\<open>str(n)\<close> for integers.\<close>

fun nat_str :: "nat \<Rightarrow> string" where
  "nat_str n = (if n < 10 then [digit_char n] else nat_str (n div 10) @ [digit_char (n mod 10)])"

declare nat_str.simps [simp del]

definition int_str :: "int \<Rightarrow> string" where
  "int_str i = (if i < 0 then CHR ''-'' # nat_str (nat (- i)) else nat_str (nat i))"

text \<open>\<open>str.join\<close>.\<close>

fun py_join :: "string \<Rightarrow> string list \<Rightarrow> string" where
  "py_join sep [] = []"
| "py_join sep [x] = x"
| "py_join sep (x # y # ys) = x @ sep @ py_join sep (y # ys)"

subsection \<open>Python collections\<close>

text \<open>
  \<open>len(xs) != len(set(xs))\<close> holds exactly when \<open>xs\<close> has a repeated element.
\<close>

definition has_duplicates :: "'a list \<Rightarrow> bool" where
  "has_duplicates xs \<longleftrightarrow> length xs \<noteq> card (set xs)"

lemma has_duplicates_iff [simp]: "has_duplicates xs \<longleftrightarrow> \<not> distinct xs"
  by (metis card_distinct distinct_card has_duplicates_def)

text \<open>
  A dict in insertion order: writing an existing key keeps its place, a new key goes last.
\<close>

fun dict_set :: "'k \<Rightarrow> 'v \<Rightarrow> ('k \<times> 'v) list \<Rightarrow> ('k \<times> 'v) list" where
  "dict_set k v [] = [(k, v)]"
| "dict_set k v ((k', v') # d) = (if k = k' then (k, v) # d else (k', v') # dict_set k v d)"

lemma map_of_dict_set [simp]: "map_of (dict_set k v d) = (map_of d)(k \<mapsto> v)"
  by (induction d) (auto simp: fun_eq_iff)

lemma keys_dict_set: "fst ` set (dict_set k v d) = insert k (fst ` set d)"
proof (induction d)
  case Nil
  then show ?case by simp
next
  case (Cons a d)
  then show ?case by (cases a) auto
qed

lemma distinct_dict_set: "distinct (map fst d) \<Longrightarrow> distinct (map fst (dict_set k v d))"
proof (induction d)
  case Nil
  then show ?case by simp
next
  case (Cons a d)
  then show ?case by (cases a) (auto simp: keys_dict_set)
qed

text \<open>\<open>sorted(xs, key=f)\<close> is stable: \<open>sort_key\<close>.  It does not depend on the order of the input
  when the keys are distinct.\<close>

lemma sort_key_perm_unique:
  fixes f :: "'a \<Rightarrow> 'k::linorder"
  assumes "mset xs = mset ys" and "inj_on f (set xs)"
  shows "sort_key f xs = sort_key f ys"
proof -
  have "sorted (map f (sort_key f ys))" by simp
  moreover have "mset (sort_key f ys) = mset xs" using assms(1) by simp
  ultimately show ?thesis
    using properties_for_sort_key [of "sort_key f ys" xs f] assms(2)
    by (metis (no_types, lifting) assms(1) mset_eq_setD mset_sort sort_key_inj_key_eq
        sorted_sort_key)
qed

lemma filter_perm: "mset xs = mset ys \<Longrightarrow> mset (filter P xs) = mset (filter P ys)"
  by simp

end
