(* ===== verification/Json.thy ===== *)
theory Json
  imports Prelude
begin

section \<open>JSON values, their canonical bytes, and reading them back\<close>

text \<open>
  The program names everything by hashes of canonical JSON and keeps plans, details and snapshots
  as JSON columns.  This theory models what it uses of the \<open>json\<close> module: \<open>json.dumps\<close> with
  \<open>sort_keys=True\<close> and the separators \<open>(",", ":")\<close>, with \<open>ensure_ascii\<close> off (\<open>canonical_bytes\<close> of
  \<^verbatim>\<open>ecpa_model.py\<close>) and on (\<open>_json\<close> of \<^verbatim>\<open>exposure_gate.py\<close>), and \<open>json.loads\<close> on UTF-8
  text.  Strings hold the characters up to U+00FF; a number with a fraction or an exponent is not a
  value of the model.  Python's
  \<open>hashlib.sha256(b).hexdigest()\<close> is a parameter of the definitions that use it.  The main
  result is the round trip \<open>json_loads_canonical_bytes\<close>, and with it that equal bytes mean equal
  values.
\<close>

datatype json =
    JNull
  | JBool bool
  | JInt int
  | JStr string
  | JArr "json list"
  | JObj "(string \<times> json) list"

text \<open>A dict has one value per key.\<close>

fun json_wf :: "json \<Rightarrow> bool" where
  "json_wf (JArr vs) = list_all json_wf vs"
| "json_wf (JObj kvs) = (distinct (map fst kvs) \<and> list_all (\<lambda>kv. json_wf (snd kv)) kvs)"
| "json_wf _ = True"

text \<open>\<open>sort_keys=True\<close>: the keys of every object in order.\<close>

fun jsort :: "json \<Rightarrow> json" where
  "jsort (JArr vs) = JArr (map jsort vs)"
| "jsort (JObj kvs) = JObj (sort_key fst (map (\<lambda>kv. (fst kv, jsort (snd kv))) kvs))"
| "jsort v = v"

subsection \<open>Writing\<close>

definition hex_digit :: "nat \<Rightarrow> char" where
  "hex_digit n = (if n < 10 then chr_of (48 + n) else chr_of (87 + n))"

definition esc_char :: "bool \<Rightarrow> char \<Rightarrow> string" where
  "esc_char ensure_ascii c =
     (if c = CHR 34 then [CHR 92, CHR 34]
      else if c = CHR 92 then [CHR 92, CHR 92]
      else if code c = 10 then [CHR 92, CHR ''n'']
      else if code c = 13 then [CHR 92, CHR ''r'']
      else if code c = 9 then [CHR 92, CHR ''t'']
      else if code c = 12 then [CHR 92, CHR ''f'']
      else if code c = 8 then [CHR 92, CHR ''b'']
      else if code c < 32 \<or> ensure_ascii \<and> 127 \<le> code c
        then [CHR 92, CHR ''u'', CHR ''0'', CHR ''0'',
              hex_digit (code c div 16), hex_digit (code c mod 16)]
      else [c])"

definition quote :: "bool \<Rightarrow> string \<Rightarrow> string" where
  "quote ea s = [CHR 34] @ concat (map (esc_char ea) s) @ [CHR 34]"

fun jprint :: "bool \<Rightarrow> json \<Rightarrow> string" where
  "jprint ea JNull = ''null''"
| "jprint ea (JBool b) = (if b then ''true'' else ''false'')"
| "jprint ea (JInt i) = int_str i"
| "jprint ea (JStr s) = quote ea s"
| "jprint ea (JArr vs) = ''['' @ py_join '','' (map (jprint ea) vs) @ '']''"
| "jprint ea (JObj kvs) =
     ''{'' @ py_join '','' (map (\<lambda>kv. quote ea (fst kv) @ '':'' @ jprint ea (snd kv)) kvs) @ ''}''"

definition json_dumps :: "bool \<Rightarrow> json \<Rightarrow> string" where
  "json_dumps ensure_ascii v = jprint ensure_ascii (jsort v)"

definition utf8_char :: "char \<Rightarrow> string" where
  "utf8_char c =
     (if code c < 128 then [c]
      else [chr_of (192 + code c div 64), chr_of (128 + code c mod 64)])"

definition utf8_encode :: "string \<Rightarrow> string" where
  "utf8_encode s = concat (map utf8_char s)"

definition canonical_bytes :: "json \<Rightarrow> string" where
  "canonical_bytes v = utf8_encode (json_dumps False v)"

subsection \<open>Reading\<close>

fun utf8_decode :: "string \<Rightarrow> string option" where
  "utf8_decode [] = Some []"
| "utf8_decode (c # s) =
     (if code c < 128 then map_option (Cons c) (utf8_decode s)
      else (case s of
              [] \<Rightarrow> None
            | d # t \<Rightarrow>
                if 194 \<le> code c \<and> code c \<le> 195 \<and> 128 \<le> code d \<and> code d \<le> 191
                then map_option (Cons (chr_of ((code c - 192) * 64 + (code d - 128)))) (utf8_decode t)
                else None))"

definition hex_value :: "char \<Rightarrow> nat option" where
  "hex_value c =
     (if 48 \<le> code c \<and> code c \<le> 57 then Some (code c - 48)
      else if 97 \<le> code c \<and> code c \<le> 102 then Some (code c - 87)
      else if 65 \<le> code c \<and> code c \<le> 70 then Some (code c - 55)
      else None)"

definition simple_escape :: "char \<Rightarrow> char option" where
  "simple_escape e =
     (if e = CHR 34 then Some (CHR 34)
      else if e = CHR 92 then Some (CHR 92)
      else if e = CHR ''/'' then Some (CHR ''/'')
      else if e = CHR ''n'' then Some (chr_of 10)
      else if e = CHR ''r'' then Some (chr_of 13)
      else if e = CHR ''t'' then Some (chr_of 9)
      else if e = CHR ''f'' then Some (chr_of 12)
      else if e = CHR ''b'' then Some (chr_of 8)
      else None)"

text \<open>The escape after a backslash: the character it stands for and what follows.\<close>

definition escape :: "string \<Rightarrow> (char \<times> string) option" where
  "escape s =
     (case s of
        [] \<Rightarrow> None
      | e # r \<Rightarrow>
          if e = CHR ''u'' then
            (case r of
               a # b # h # l # r' \<Rightarrow>
                 (case (hex_value a, hex_value b, hex_value h, hex_value l) of
                    (Some 0, Some 0, Some x, Some y) \<Rightarrow> Some (chr_of (x * 16 + y), r')
                  | _ \<Rightarrow> None)
             | _ \<Rightarrow> None)
          else map_option (\<lambda>c. (c, r)) (simple_escape e))"

lemma escape_shorter: "escape s = Some (c, r) \<Longrightarrow> length r < length s"
  by (auto simp: escape_def split: list.splits option.splits if_splits nat.splits)

function pstr :: "string \<Rightarrow> (string \<times> string) option" where
  "pstr [] = None"
| "pstr (c # s) =
     (if c = CHR 34 then Some ([], s)
      else if c = CHR 92 then
        (case escape s of
           None \<Rightarrow> None
         | Some (d, r) \<Rightarrow> map_option (\<lambda>(t, r'). (d # t, r')) (pstr r))
      else if code c < 32 then None
      else map_option (\<lambda>(t, r'). (c # t, r')) (pstr s))"
  by pat_completeness auto
termination
  by (relation "measure length") (auto dest: escape_shorter)

definition is_digit :: "char \<Rightarrow> bool" where
  "is_digit c \<longleftrightarrow> 48 \<le> code c \<and> code c \<le> 57"

fun pdigits :: "nat \<Rightarrow> string \<Rightarrow> nat \<times> string" where
  "pdigits n [] = (n, [])"
| "pdigits n (c # s) = (if is_digit c then pdigits (n * 10 + (code c - 48)) s else (n, c # s))"

text \<open>\<open>0|[1-9][0-9]*\<close>\<close>

definition pnat :: "string \<Rightarrow> (nat \<times> string) option" where
  "pnat s =
     (case s of
        [] \<Rightarrow> None
      | c # r \<Rightarrow>
          if c = CHR ''0'' then Some (0, r)
          else if is_digit c then Some (pdigits 0 s)
          else None)"

definition pint :: "string \<Rightarrow> (int \<times> string) option" where
  "pint s =
     (case s of
        [] \<Rightarrow> None
      | c # r \<Rightarrow>
          if c = CHR ''-'' then map_option (\<lambda>(n, t). (- int n, t)) (pnat r)
          else map_option (\<lambda>(n, t). (int n, t)) (pnat s))"

definition dict_of :: "('k \<times> 'v) list \<Rightarrow> ('k \<times> 'v) list" where
  "dict_of kvs = fold (\<lambda>kv. dict_set (fst kv) (snd kv)) kvs []"

text \<open>
  The scanner of \<open>json.loads\<close>: white space between the tokens is skipped, \<open>bad\<close> is the error for text
  that is not JSON, and \<open>hook\<close> is \<open>object_pairs_hook\<close>, called at the end of every object.  Fuel bounds
  the nesting and the number of items; \<open>loads_text\<close> gives more than twice the length, and more fuel
  never changes the result (\<open>pval_fuel\<close>).
\<close>

definition is_ws :: "char \<Rightarrow> bool" where
  "is_ws c \<longleftrightarrow> code c \<in> {9, 10, 13, 32}"

definition skip_ws :: "string \<Rightarrow> string" where
  "skip_ws s = dropWhile is_ws s"

definition demand :: "'e \<Rightarrow> 'a option \<Rightarrow> 'e + 'a" where
  "demand e x = (case x of None \<Rightarrow> Inl e | Some y \<Rightarrow> Inr y)"

fun pval :: "'e \<Rightarrow> ((string \<times> json) list \<Rightarrow> 'e + json) \<Rightarrow> nat \<Rightarrow> string \<Rightarrow> 'e + json \<times> string"
  and parr :: "'e \<Rightarrow> ((string \<times> json) list \<Rightarrow> 'e + json) \<Rightarrow> nat \<Rightarrow> string \<Rightarrow> 'e + json list \<times> string"
  and pobj :: "'e \<Rightarrow> ((string \<times> json) list \<Rightarrow> 'e + json) \<Rightarrow> nat \<Rightarrow> string \<Rightarrow> 'e + (string \<times> json) list \<times> string" where
  "pval bad hook 0 s = Inl bad"
| "pval bad hook (Suc f) s =
     (case skip_ws s of
        [] \<Rightarrow> Inl bad
      | c # r \<Rightarrow>
          if c = CHR 34 then ebind (demand bad (pstr r)) (\<lambda>(t, r'). Inr (JStr t, r'))
          else if c = CHR ''['' then
            (if take 1 (skip_ws r) = '']'' then Inr (JArr [], tl (skip_ws r))
             else ebind (parr bad hook f r) (\<lambda>(vs, r'). Inr (JArr vs, r')))
          else if c = CHR ''{'' then
            (if take 1 (skip_ws r) = ''}'' then ebind (hook []) (\<lambda>v. Inr (v, tl (skip_ws r)))
             else ebind (pobj bad hook f r) (\<lambda>(kvs, r'). ebind (hook kvs) (\<lambda>v. Inr (v, r'))))
          else if take 4 (c # r) = ''null'' then Inr (JNull, drop 4 (c # r))
          else if take 4 (c # r) = ''true'' then Inr (JBool True, drop 4 (c # r))
          else if take 5 (c # r) = ''false'' then Inr (JBool False, drop 5 (c # r))
          else ebind (demand bad (pint (c # r))) (\<lambda>(i, r'). Inr (JInt i, r')))"
| "parr bad hook 0 s = Inl bad"
| "parr bad hook (Suc f) s =
     ebind (pval bad hook f s) (\<lambda>(v, r).
     case skip_ws r of
       [] \<Rightarrow> Inl bad
     | c # r' \<Rightarrow>
         if c = CHR '']'' then Inr ([v], r')
         else if c = CHR '','' then ebind (parr bad hook f r') (\<lambda>(vs, t). Inr (v # vs, t))
         else Inl bad)"
| "pobj bad hook 0 s = Inl bad"
| "pobj bad hook (Suc f) s =
     (case skip_ws s of
        [] \<Rightarrow> Inl bad
      | q # s' \<Rightarrow>
          if q \<noteq> CHR 34 then Inl bad
          else ebind (demand bad (pstr s')) (\<lambda>(k, r).
            case skip_ws r of
              [] \<Rightarrow> Inl bad
            | c # r1 \<Rightarrow>
                if c \<noteq> CHR '':'' then Inl bad
                else ebind (pval bad hook f r1) (\<lambda>(v, r2).
                  case skip_ws r2 of
                    [] \<Rightarrow> Inl bad
                  | d # r3 \<Rightarrow>
                      if d = CHR ''}'' then Inr ([(k, v)], r3)
                      else if d = CHR '','' then ebind (pobj bad hook f r3) (\<lambda>(kvs, t). Inr ((k, v) # kvs, t))
                      else Inl bad)))"

definition loads_text :: "'e \<Rightarrow> ((string \<times> json) list \<Rightarrow> 'e + json) \<Rightarrow> string \<Rightarrow> 'e + json" where
  "loads_text bad hook s =
     ebind (pval bad hook (Suc (2 * length s)) s) (\<lambda>(v, r). if skip_ws r = [] then Inr v else Inl bad)"

text \<open>Without a hook the last of several values of a key counts.\<close>

definition json_loads :: "string \<Rightarrow> json option" where
  "json_loads b = (case utf8_decode b of
     None \<Rightarrow> None
   | Some s \<Rightarrow> (case loads_text () (\<lambda>kvs. Inr (JObj (dict_of kvs))) s of Inl _ \<Rightarrow> None | Inr v \<Rightarrow> Some v))"

subsection \<open>Enough fuel\<close>

lemma skip_ws_length: "length (skip_ws s) \<le> length s"
  by (simp add: skip_ws_def length_dropWhile_le)

lemma pstr_shorter: "pstr s = Some (t, r) \<Longrightarrow> length r < length s"
  by (induction s arbitrary: t r rule: pstr.induct)
     (fastforce split: if_splits option.splits dest: escape_shorter)+

lemma pdigits_length: "pdigits n s = (m, r) \<Longrightarrow> length r \<le> length s"
  by (induction n s rule: pdigits.induct) (auto split: if_splits)

lemma pnat_shorter: "pnat s = Some (n, r) \<Longrightarrow> length r < length s"
  by (auto simp: pnat_def split: list.splits if_splits dest: pdigits_length)

lemma pint_shorter: "pint s = Some (n, r) \<Longrightarrow> length r < length s"
  by (auto simp: pint_def split: list.splits if_splits dest: pnat_shorter)

lemma demand_simps [simp]: "demand e None = Inl e" "demand e (Some x) = Inr x"
  by (simp_all add: demand_def)

lemma demand_Inr_iff: "demand e x = Inr y \<longleftrightarrow> x = Some y"
  by (simp add: demand_def split: option.splits)

lemma skip_ws_Cons_length: "skip_ws s = c # r \<Longrightarrow> length r < length s"
  using skip_ws_length [of s] by simp

lemma tl_skip_ws_length: "length (tl (skip_ws s)) \<le> length s"
  using skip_ws_length [of s] by simp

definition shortens :: "(string \<Rightarrow> 'e + 'a \<times> string) \<Rightarrow> bool" where
  "shortens p \<longleftrightarrow> (\<forall>s x r. p s = Inr (x, r) \<longrightarrow> length r < length s)"

lemma shortensD: "shortens p \<Longrightarrow> p s = Inr (x, r) \<Longrightarrow> length r < length s"
  by (simp add: shortens_def)

lemma pval_shortens:
  assumes "shortens (parr bad hook f)" and "shortens (pobj bad hook f)"
  shows "shortens (pval bad hook (Suc f))"
  unfolding shortens_def
proof (intro allI impI)
  fix s v r
  assume eq: "pval bad hook (Suc f) s = Inr (v, r)"
  then obtain c t where Cons: "skip_ws s = c # t" by (cases "skip_ws s") simp_all
  note t = skip_ws_Cons_length [OF Cons]
  let ?rest = "if take 4 (c # t) = ''null'' then Inr (JNull, drop 4 (c # t))
    else if take 4 (c # t) = ''true'' then Inr (JBool True, drop 4 (c # t))
    else if take 5 (c # t) = ''false'' then Inr (JBool False, drop 5 (c # t))
    else ebind (demand bad (pint (c # t))) (\<lambda>(i, r'). Inr (JInt i, r'))"
  consider "c = CHR 34" | "c = CHR ''[''" | "c = CHR ''{''" | "c \<notin> {CHR 34, CHR ''['', CHR ''{''}" by auto
  then have "length r \<le> length t"
  proof cases
    case 1
    with eq Cons have "ebind (demand bad (pstr t)) (\<lambda>(u, r'). Inr (JStr u, r')) = Inr (v, r)" by simp
    then show ?thesis by (auto simp: ebind_Inr_iff demand_Inr_iff dest: pstr_shorter)
  next
    case 2
    with eq Cons have "(if take 1 (skip_ws t) = '']'' then Inr (JArr [], tl (skip_ws t))
        else ebind (parr bad hook f t) (\<lambda>(vs, r'). Inr (JArr vs, r'))) = Inr (v, r)" by simp
    with tl_skip_ws_length [of t] show ?thesis
      by (auto simp: ebind_Inr_iff split: if_splits dest!: shortensD [OF assms(1)])
  next
    case 3
    with eq Cons have "(if take 1 (skip_ws t) = ''}'' then ebind (hook []) (\<lambda>v. Inr (v, tl (skip_ws t)))
        else ebind (pobj bad hook f t) (\<lambda>(kvs, r'). ebind (hook kvs) (\<lambda>v. Inr (v, r')))) = Inr (v, r)" by simp
    with tl_skip_ws_length [of t] show ?thesis
      by (auto simp: ebind_Inr_iff split: if_splits dest!: shortensD [OF assms(2)])
  next
    case 4
    with eq Cons have "?rest = Inr (v, r)" by simp
    then show ?thesis
      by (auto simp: ebind_Inr_iff demand_Inr_iff split: if_splits dest: pint_shorter)
  qed
  with t show "length r < length s" by simp
qed

lemma parr_Inr:
  assumes "parr bad hook (Suc f) s = Inr (vs, r)"
  obtains v r1 c r2 where "pval bad hook f s = Inr (v, r1)" "skip_ws r1 = c # r2"
    "c = CHR '']'' \<and> vs = [v] \<and> r = r2 \<or> c = CHR '','' \<and> (\<exists>ws. vs = v # ws \<and> parr bad hook f r2 = Inr (ws, r))"
proof -
  from assms obtain v r1 where v: "pval bad hook f s = Inr (v, r1)"
    unfolding parr.simps ebind_Inr_iff by auto
  with assms obtain c r2 where c: "skip_ws r1 = c # r2" by (cases "skip_ws r1") simp_all
  consider "c = CHR '']''" | "c = CHR '',''" | "c \<notin> {CHR '']'', CHR '',''}" by auto
  then show thesis
  proof cases
    case 2
    with assms v c have "ebind (parr bad hook f r2) (\<lambda>(vs, t). Inr (v # vs, t)) = Inr (vs, r)" by simp
    then show thesis using v c 2 by (intro that [of v r1 c r2]) (auto simp: ebind_Inr_iff)
  qed (use assms v c in \<open>auto intro: that\<close>)
qed

lemma pobj_Inr:
  assumes "pobj bad hook (Suc f) s = Inr (kvs, r)"
  obtains s' k r1 r2 v r3 c r4 where "skip_ws s = CHR 34 # s'" "pstr s' = Some (k, r1)" "skip_ws r1 = CHR '':'' # r2"
    "pval bad hook f r2 = Inr (v, r3)" "skip_ws r3 = c # r4"
    "c = CHR ''}'' \<and> kvs = [(k, v)] \<and> r = r4 \<or> c = CHR '','' \<and> (\<exists>ws. kvs = (k, v) # ws \<and> pobj bad hook f r4 = Inr (ws, r))"
proof -
  from assms obtain q s' where "skip_ws s = q # s'" by (cases "skip_ws s") simp_all
  with assms have s': "skip_ws s = CHR 34 # s'" by (cases "q = CHR 34") simp_all
  with assms obtain k r1 where k: "pstr s' = Some (k, r1)" by (cases "pstr s'") auto
  with assms s' obtain d r2 where "skip_ws r1 = d # r2" by (cases "skip_ws r1") simp_all
  with assms s' k have r2: "skip_ws r1 = CHR '':'' # r2" by (cases "d = CHR '':''") simp_all
  with assms s' k obtain v r3 where v: "pval bad hook f r2 = Inr (v, r3)" by (cases "pval bad hook f r2") auto
  with assms s' k r2 obtain c r4 where c: "skip_ws r3 = c # r4" by (cases "skip_ws r3") simp_all
  consider "c = CHR ''}''" | "c = CHR '',''" | "c \<notin> {CHR ''}'', CHR '',''}" by auto
  then show thesis
  proof cases
    case 1
    with assms s' k r2 v c show thesis by (intro that [of s' k r1 r2 v r3 c r4]) simp_all
  next
    case 2
    with assms s' k r2 v c have "ebind (pobj bad hook f r4) (\<lambda>(kvs, t). Inr ((k, v) # kvs, t)) = Inr (kvs, r)" by simp
    then show thesis using 2 s' k r2 v c by (intro that [of s' k r1 r2 v r3 c r4]) (auto simp: ebind_Inr_iff)
  next
    case 3
    with assms s' k r2 v c show thesis by simp
  qed
qed

lemma parr_shortens:
  assumes "shortens (pval bad hook f)" and "shortens (parr bad hook f)"
  shows "shortens (parr bad hook (Suc f))"
  unfolding shortens_def
proof (intro allI impI)
  fix s vs r
  assume "parr bad hook (Suc f) s = Inr (vs, r)"
  then obtain v r1 c r2 where p: "pval bad hook f s = Inr (v, r1)" "skip_ws r1 = c # r2"
    "c = CHR '']'' \<and> vs = [v] \<and> r = r2 \<or> c = CHR '','' \<and> (\<exists>ws. vs = v # ws \<and> parr bad hook f r2 = Inr (ws, r))" by (rule parr_Inr)
  then have "length r \<le> length r2" by (auto dest!: shortensD [OF assms(2)])
  with shortensD [OF assms(1) p(1)] skip_ws_Cons_length [OF p(2)] show "length r < length s" by simp
qed

lemma pobj_shortens:
  assumes "shortens (pval bad hook f)" and "shortens (pobj bad hook f)"
  shows "shortens (pobj bad hook (Suc f))"
  unfolding shortens_def
proof (intro allI impI)
  fix s kvs r
  assume "pobj bad hook (Suc f) s = Inr (kvs, r)"
  then obtain s' k r1 r2 v r3 c r4 where p: "skip_ws s = CHR 34 # s'" "pstr s' = Some (k, r1)"
    "skip_ws r1 = CHR '':'' # r2" "pval bad hook f r2 = Inr (v, r3)" "skip_ws r3 = c # r4"
    "c = CHR ''}'' \<and> kvs = [(k, v)] \<and> r = r4 \<or> c = CHR '','' \<and> (\<exists>ws. kvs = (k, v) # ws \<and> pobj bad hook f r4 = Inr (ws, r))" by (rule pobj_Inr)
  then have "length r \<le> length r4" by (auto dest!: shortensD [OF assms(2)])
  with skip_ws_Cons_length [OF p(1)] pstr_shorter [OF p(2)] skip_ws_Cons_length [OF p(3)]
    shortensD [OF assms(1) p(4)] skip_ws_Cons_length [OF p(5)]
  show "length r < length s" by simp
qed

lemma scan_shortens:
  "shortens (pval bad hook f) \<and> shortens (parr bad hook f) \<and> shortens (pobj bad hook f)"
proof (induction f)
  case 0
  then show ?case by (simp add: shortens_def)
next
  case (Suc f)
  then show ?case by (blast intro: pval_shortens parr_shortens pobj_shortens)
qed

subsection \<open>Values that are read have distinct keys\<close>

definition yields :: "('a \<Rightarrow> bool) \<Rightarrow> (string \<Rightarrow> 'e + 'a \<times> string) \<Rightarrow> bool" where
  "yields P p \<longleftrightarrow> (\<forall>s x r. p s = Inr (x, r) \<longrightarrow> P x)"

lemma yieldsD: "yields P p \<Longrightarrow> p s = Inr (x, r) \<Longrightarrow> P x"
  by (auto simp: yields_def)

text \<open>A hook that makes values without repeated keys from such values.\<close>

definition makes_wf :: "((string \<times> json) list \<Rightarrow> 'e + json) \<Rightarrow> bool" where
  "makes_wf hook \<longleftrightarrow> (\<forall>kvs v. list_all (\<lambda>kv. json_wf (snd kv)) kvs \<longrightarrow> hook kvs = Inr v \<longrightarrow> json_wf v)"

lemma pval_yields:
  assumes "makes_wf hook" "yields (list_all json_wf) (parr bad hook f)"
    "yields (list_all (\<lambda>kv. json_wf (snd kv))) (pobj bad hook f)"
  shows "yields json_wf (pval bad hook (Suc f))"
  unfolding yields_def
proof (intro allI impI)
  fix s v r
  assume eq: "pval bad hook (Suc f) s = Inr (v, r)"
  then obtain c t where Cons: "skip_ws s = c # t" by (cases "skip_ws s") simp_all
  let ?rest = "if take 4 (c # t) = ''null'' then Inr (JNull, drop 4 (c # t))
    else if take 4 (c # t) = ''true'' then Inr (JBool True, drop 4 (c # t))
    else if take 5 (c # t) = ''false'' then Inr (JBool False, drop 5 (c # t))
    else ebind (demand bad (pint (c # t))) (\<lambda>(i, r'). Inr (JInt i, r'))"
  consider "c = CHR 34" | "c = CHR ''[''" | "c = CHR ''{''" | "c \<notin> {CHR 34, CHR ''['', CHR ''{''}" by auto
  then show "json_wf v"
  proof cases
    case 1
    with eq Cons have "ebind (demand bad (pstr t)) (\<lambda>(u, r'). Inr (JStr u, r')) = Inr (v, r)" by simp
    then show ?thesis by (auto simp: ebind_Inr_iff)
  next
    case 2
    with eq Cons have "(if take 1 (skip_ws t) = '']'' then Inr (JArr [], tl (skip_ws t))
        else ebind (parr bad hook f t) (\<lambda>(vs, r'). Inr (JArr vs, r'))) = Inr (v, r)" by simp
    then show ?thesis by (auto simp: ebind_Inr_iff split: if_splits dest!: yieldsD [OF assms(2)])
  next
    case 3
    with eq Cons have "(if take 1 (skip_ws t) = ''}'' then ebind (hook []) (\<lambda>v. Inr (v, tl (skip_ws t)))
        else ebind (pobj bad hook f t) (\<lambda>(kvs, r'). ebind (hook kvs) (\<lambda>v. Inr (v, r')))) = Inr (v, r)" by simp
    then obtain kvs where kvs: "hook kvs = Inr v" "kvs = [] \<or> (\<exists>r'. pobj bad hook f t = Inr (kvs, r'))"
      by (auto simp: ebind_Inr_iff split: if_splits)
    then have "list_all (\<lambda>kv. json_wf (snd kv)) kvs" by (auto dest!: yieldsD [OF assms(3)])
    with kvs(1) show ?thesis using assms(1) by (auto simp: makes_wf_def)
  next
    case 4
    with eq Cons have "?rest = Inr (v, r)" by simp
    then show ?thesis by (auto simp: ebind_Inr_iff split: if_splits)
  qed
qed

lemma parr_yields:
  assumes "yields json_wf (pval bad hook f)" "yields (list_all json_wf) (parr bad hook f)"
  shows "yields (list_all json_wf) (parr bad hook (Suc f))"
  unfolding yields_def
proof (intro allI impI)
  fix s vs r
  assume "parr bad hook (Suc f) s = Inr (vs, r)"
  then show "list_all json_wf vs"
    by (rule parr_Inr) (auto dest!: yieldsD [OF assms(1)] yieldsD [OF assms(2)])
qed

lemma pobj_yields:
  assumes "yields json_wf (pval bad hook f)" "yields (list_all (\<lambda>kv. json_wf (snd kv))) (pobj bad hook f)"
  shows "yields (list_all (\<lambda>kv. json_wf (snd kv))) (pobj bad hook (Suc f))"
  unfolding yields_def
proof (intro allI impI)
  fix s kvs r
  assume "pobj bad hook (Suc f) s = Inr (kvs, r)"
  then show "list_all (\<lambda>kv. json_wf (snd kv)) kvs"
    by (rule pobj_Inr) (auto dest!: yieldsD [OF assms(1)] yieldsD [OF assms(2)])
qed

lemma scan_yields:
  assumes "makes_wf hook"
  shows "yields json_wf (pval bad hook f) \<and> yields (list_all json_wf) (parr bad hook f)
     \<and> yields (list_all (\<lambda>kv. json_wf (snd kv))) (pobj bad hook f)"
proof (induction f)
  case 0
  then show ?case by (simp add: yields_def)
next
  case (Suc f)
  then show ?case by (blast intro: assms pval_yields parr_yields pobj_yields)
qed

lemma loads_text_wf: "makes_wf hook \<Longrightarrow> loads_text bad hook s = Inr v \<Longrightarrow> json_wf v"
  using scan_yields [THEN conjunct1, of hook bad "Suc (2 * length s)"]
  by (auto simp: loads_text_def ebind_Inr_iff split: if_splits simp del: pval.simps dest: yieldsD)

subsection \<open>More fuel\<close>

definition enough :: "nat \<Rightarrow> (nat \<Rightarrow> string \<Rightarrow> 'a) \<Rightarrow> nat \<Rightarrow> bool" where
  "enough k p f \<longleftrightarrow> (\<forall>s. 2 * length s + k < f \<longrightarrow> p (Suc f) s = p f s)"

lemma enoughD: "enough k p f \<Longrightarrow> 2 * length s + k < f \<Longrightarrow> p (Suc f) s = p f s"
  by (simp add: enough_def)

lemma pval_enough:
  assumes "enough 1 (parr bad hook) f" and "enough 1 (pobj bad hook) f"
  shows "enough 0 (pval bad hook) (Suc f)"
  unfolding enough_def
proof (intro allI impI)
  fix s :: string
  assume len: "2 * length s + 0 < Suc f"
  show "pval bad hook (Suc (Suc f)) s = pval bad hook (Suc f) s"
  proof (cases "skip_ws s")
    case (Cons c t)
    with skip_ws_Cons_length [OF Cons] len have "2 * length t + 1 < f" by simp
    with Cons enoughD [OF assms(1)] enoughD [OF assms(2)] show ?thesis
      by (simp del: parr.simps pobj.simps)
  qed simp
qed

lemma parr_enough:
  assumes "enough 0 (pval bad hook) f" and "enough 1 (parr bad hook) f"
  shows "enough 1 (parr bad hook) (Suc f)"
  unfolding enough_def
proof (intro allI impI)
  fix s :: string
  assume len: "2 * length s + 1 < Suc f"
  then have v: "pval bad hook (Suc f) s = pval bad hook f s" by (simp add: enoughD [OF assms(1)] del: pval.simps)
  have "parr bad hook (Suc f) r2 = parr bad hook f r2"
    if "pval bad hook f s = Inr (v, r1)" "skip_ws r1 = c # r2" for v r1 c r2
    using len shortensD [OF scan_shortens [THEN conjunct1] that(1)] skip_ws_Cons_length [OF that(2)]
    by (simp add: enoughD [OF assms(2)] del: parr.simps)
  then show "parr bad hook (Suc (Suc f)) s = parr bad hook (Suc f) s"
    unfolding parr.simps(2) [of bad hook "Suc f"] parr.simps(2) [of bad hook f s] v
    by (cases "pval bad hook f s") (auto split: list.split simp del: parr.simps)
qed

lemma pobj_enough:
  assumes "enough 0 (pval bad hook) f" and "enough 1 (pobj bad hook) f"
  shows "enough 1 (pobj bad hook) (Suc f)"
  unfolding enough_def
proof (intro allI impI)
  fix s :: string
  assume len: "2 * length s + 1 < Suc f"
  have v: "pval bad hook (Suc f) r2 = pval bad hook f r2"
    and "\<And>v r3 d r4. pval bad hook f r2 = Inr (v, r3) \<Longrightarrow> skip_ws r3 = d # r4 \<Longrightarrow>
      pobj bad hook (Suc f) r4 = pobj bad hook f r4"
    if p: "skip_ws s = q # s'" "pstr s' = Some (k, r1)" "skip_ws r1 = c # r2" for q s' k r1 c r2
  proof -
    from len skip_ws_Cons_length [OF p(1)] pstr_shorter [OF p(2)] skip_ws_Cons_length [OF p(3)]
    have r2: "2 * length r2 + 0 < f" and r2': "2 * length r2 + 1 < f" by simp_all
    then show "pval bad hook (Suc f) r2 = pval bad hook f r2" by (simp add: enoughD [OF assms(1)] del: pval.simps)
    show "pobj bad hook (Suc f) r4 = pobj bad hook f r4"
      if "pval bad hook f r2 = Inr (v, r3)" "skip_ws r3 = d # r4" for v r3 d r4
      using r2' shortensD [OF scan_shortens [THEN conjunct1] that(1)] skip_ws_Cons_length [OF that(2)]
      by (simp add: enoughD [OF assms(2)] del: pobj.simps)
  qed
  then show "pobj bad hook (Suc (Suc f)) s = pobj bad hook (Suc f) s"
    unfolding pobj.simps(2) [of bad hook "Suc f"] pobj.simps(2) [of bad hook f s]
    by (auto simp: ebind_def demand_def split: list.split option.split sum.split simp del: pobj.simps pval.simps)
qed

lemma scan_enough:
  "enough 0 (pval bad hook) f \<and> enough 1 (parr bad hook) f \<and> enough 1 (pobj bad hook) f"
proof (induction f)
  case 0
  then show ?case by (simp add: enough_def)
next
  case (Suc f)
  then show ?case by (blast intro: pval_enough parr_enough pobj_enough)
qed

lemma pval_fuel: "2 * length s < f \<Longrightarrow> pval bad hook (f + n) s = pval bad hook f s"
proof (induction n)
  case (Suc n)
  with enoughD [OF scan_enough [THEN conjunct1], of s "f + n" bad hook] show ?case by (simp del: pval.simps)
qed simp

subsection \<open>The round trip\<close>

lemma utf8_decode_char: "utf8_decode (utf8_char c @ s) = map_option (Cons c) (utf8_decode s)"
proof (cases "code c < 128")
  case True
  then show ?thesis by (simp add: utf8_char_def)
next
  case False
  have lt: "code c < 256" by simp
  have "2 \<le> code c div 64" using False by (simp add: less_eq_div_iff_mult_less_eq)
  moreover have "code c div 64 < 4" using lt by (simp add: less_mult_imp_div_less)
  ultimately have hi: "code c div 64 = 2 \<or> code c div 64 = 3" by linarith
  have "code c mod 64 < 64" by simp
  then have lo: "code c mod 64 \<le> 63" by linarith
  have eq: "code c div 64 * 64 + code c mod 64 = code c" by simp
  from hi show ?thesis
  proof
    assume h: "code c div 64 = 2"
    with eq have "128 + code c mod 64 = code c" by simp
    moreover from this lo have "code c \<le> 191" by linarith
    ultimately have "chr_of (128 + code c mod 64) = c \<and> code c \<le> 191" by simp
    with False lo h show ?thesis by (simp add: utf8_char_def)
  next
    assume h: "code c div 64 = 3"
    with eq have "192 + code c mod 64 = code c" by simp
    then have "chr_of (192 + code c mod 64) = c" by simp
    with False lo h show ?thesis by (simp add: utf8_char_def)
  qed
qed

lemma utf8_decode_encode [simp]: "utf8_decode (utf8_encode s) = Some s"
  by (induction s) (simp_all add: utf8_encode_def utf8_decode_char)

lemma hex_value_digit: "n < 16 \<Longrightarrow> hex_value (hex_digit n) = Some n"
  by (cases "n < 10") (auto simp: hex_digit_def hex_value_def)

lemma hex_value_zero: "hex_value (CHR ''0'') = Some 0"
  by (simp add: hex_value_def code_def)

lemma pstr_plain:
  "c \<noteq> CHR 34 \<Longrightarrow> c \<noteq> CHR 92 \<Longrightarrow> 32 \<le> code c \<Longrightarrow>
     pstr (c # s) = map_option (\<lambda>(t, r'). (c # t, r')) (pstr s)"
  by simp

lemma pstr_escaped:
  "escape s = Some (d, r) \<Longrightarrow>
     pstr (CHR 92 # s) = map_option (\<lambda>(t, r'). (d # t, r')) (pstr r)"
  by simp

lemma escape_hex:
  "escape (CHR ''u'' # CHR ''0'' # CHR ''0'' # hex_digit (code c div 16) # hex_digit (code c mod 16) # s)
     = Some (c, s)"
proof -
  have "code c div 16 < 16" using code_less_256 [of c] by (simp add: less_mult_imp_div_less)
  moreover have "code c mod 16 < 16" by simp
  moreover have "chr_of (code c div 16 * 16 + code c mod 16) = c" by simp
  ultimately show ?thesis by (simp add: escape_def hex_value_digit hex_value_zero)
qed

lemma escape_simple:
  "escape (CHR 34 # s) = Some (CHR 34, s)"
  "escape (CHR 92 # s) = Some (CHR 92, s)"
  "escape (CHR ''n'' # s) = Some (chr_of 10, s)"
  "escape (CHR ''r'' # s) = Some (chr_of 13, s)"
  "escape (CHR ''t'' # s) = Some (chr_of 9, s)"
  "escape (CHR ''f'' # s) = Some (chr_of 12, s)"
  "escape (CHR ''b'' # s) = Some (chr_of 8, s)"
  by (simp_all add: escape_def simple_escape_def)

lemma code_eqD: "code c = n \<Longrightarrow> c = chr_of n"
  by (metis chr_of_code)

lemma escape_control:
  assumes "(code c, e) \<in> {(10, CHR ''n''), (13, CHR ''r''), (9, CHR ''t''), (12, CHR ''f''), (8, CHR ''b'')}"
  shows "esc_char ea c = [CHR 92, e]" and "escape (e # s) = Some (c, s)"
proof -
  from assms have "c \<noteq> CHR 34" "c \<noteq> CHR 92" by (auto simp: code_def)
  with assms show "esc_char ea c = [CHR 92, e]" by (auto simp: esc_char_def)
  from assms have "escape (e # s) = Some (chr_of (code c), s)" by (auto simp: escape_simple simp del: chr_of_code)
  then show "escape (e # s) = Some (c, s)" by simp
qed

lemma pstr_esc_char:
  "pstr (esc_char ea c @ s) = map_option (\<lambda>(t, r'). (c # t, r')) (pstr s)"
proof -
  consider (q) "c = CHR 34" | (b) "c = CHR 92"
    | (ctl) e where "(code c, e) \<in>
        {(10, CHR ''n''), (13, CHR ''r''), (9, CHR ''t''), (12, CHR ''f''), (8, CHR ''b'')}"
    | (hex) "c \<noteq> CHR 34" "c \<noteq> CHR 92" "code c \<notin> {8, 9, 10, 12, 13}"
        "code c < 32 \<or> ea \<and> 127 \<le> code c"
    | (plain) "c \<noteq> CHR 34" "c \<noteq> CHR 92" "\<not> (code c < 32 \<or> ea \<and> 127 \<le> code c)"
    by auto
  then show ?thesis
  proof cases
    case q
    then show ?thesis
      by (simp add: esc_char_def pstr_escaped [OF escape_simple(1)] del: pstr.simps)
  next
    case b
    then show ?thesis
      by (simp add: esc_char_def pstr_escaped [OF escape_simple(2)] del: pstr.simps)
  next
    case ctl
    then show ?thesis
      by (simp add: escape_control(1) [OF ctl] pstr_escaped [OF escape_control(2) [OF ctl]]
          del: pstr.simps)
  next
    case hex
    then have "esc_char ea c = CHR 92 # [CHR ''u'', CHR ''0'', CHR ''0'',
        hex_digit (code c div 16), hex_digit (code c mod 16)]"
      by (simp add: esc_char_def)
    then show ?thesis by (simp add: pstr_escaped [OF escape_hex] del: pstr.simps)
  next
    case plain
    then have "esc_char ea c = [c]" by (auto simp: esc_char_def)
    with plain show ?thesis by simp
  qed
qed

lemma pstr_quoted:
  "pstr (concat (map (esc_char ea) s) @ CHR 34 # r) = Some (s, r)"
proof (induction s)
  case Nil
  then show ?case by simp
next
  case (Cons c s)
  then show ?case by (simp add: pstr_esc_char del: pstr.simps)
qed

lemma is_digit_digit_char [simp]: "n < 10 \<Longrightarrow> is_digit (digit_char n)"
  by (simp add: is_digit_def digit_char_def)

lemma code_digit_char [simp]: "n < 10 \<Longrightarrow> code (digit_char n) = 48 + n"
  by (simp add: digit_char_def)

lemma pdigits_nat_str:
  "pdigits a (nat_str n @ r) = pdigits (a * 10 ^ length (nat_str n) + n) r"
proof (induction n arbitrary: a r rule: nat_str.induct)
  case (1 n)
  show ?case
  proof (cases "n < 10")
    case True
    then show ?thesis by (simp add: nat_str.simps [of n])
  next
    case False
    have "pdigits a (nat_str n @ r)
        = pdigits (a * 10 ^ length (nat_str (n div 10)) + n div 10) (digit_char (n mod 10) # r)"
      using 1 [OF False] False by (simp add: nat_str.simps [of n])
    also have "\<dots> = pdigits ((a * 10 ^ length (nat_str (n div 10)) + n div 10) * 10 + n mod 10) r"
      by simp
    also have "(a * 10 ^ length (nat_str (n div 10)) + n div 10) * 10 + n mod 10
        = a * 10 ^ length (nat_str n) + n"
      using False by (simp add: nat_str.simps [of n] algebra_simps)
    finally show ?thesis .
  qed
qed

lemma digit_char_0 [simp]: "digit_char 0 = CHR ''0''"
  by (rule code_inject [THEN iffD1]) (simp add: digit_char_def, simp add: code_def)

definition no_digit :: "string \<Rightarrow> bool" where
  "no_digit r \<longleftrightarrow> (case r of [] \<Rightarrow> True | c # _ \<Rightarrow> \<not> is_digit c)"

lemma pdigits_stop: "no_digit r \<Longrightarrow> pdigits n r = (n, r)"
  by (cases r) (simp_all add: no_digit_def)

text \<open>The first digit is \<open>0\<close> only for zero.\<close>

lemma nat_str_head:
  obtains c t where "nat_str n = c # t" and "is_digit c" and "c = CHR ''0'' \<longleftrightarrow> n = 0"
proof (induction n arbitrary: thesis rule: nat_str.induct)
  case (1 n)
  show ?case
  proof (cases "n < 10")
    case True
    have "digit_char n = CHR ''0'' \<longleftrightarrow> n = 0"
    proof
      assume "digit_char n = CHR ''0''"
      then have "code (digit_char n) = 48" by (simp add: code_def)
      with True show "n = 0" by simp
    qed simp
    with True show ?thesis by (intro "1.prems" [of "digit_char n" "[]"]) (simp_all add: nat_str.simps [of n])
  next
    case False
    obtain c t where "nat_str (n div 10) = c # t" "is_digit c" "c = CHR ''0'' \<longleftrightarrow> n div 10 = 0"
      by (rule "1.IH" [OF False])
    with False show ?thesis
      by (intro "1.prems" [of c "t @ [digit_char (n mod 10)]"]) (simp_all add: nat_str.simps [of n])
  qed
qed

lemma pnat_nat_str: "no_digit r \<Longrightarrow> pnat (nat_str n @ r) = Some (n, r)"
proof -
  assume r: "no_digit r"
  obtain c t where h: "nat_str n = c # t" "is_digit c" "c = CHR ''0'' \<longleftrightarrow> n = 0"
    by (rule nat_str_head)
  show ?thesis
  proof (cases "n = 0")
    case True
    then have "nat_str n = [CHR ''0'']" by (simp add: nat_str.simps)
    then show ?thesis using True by (simp add: pnat_def)
  next
    case False
    have "pdigits 0 (nat_str n @ r) = (n, r)" by (simp add: pdigits_nat_str pdigits_stop r)
    with h False show ?thesis by (simp add: pnat_def)
  qed
qed

lemma pint_int_str: "no_digit r \<Longrightarrow> pint (int_str i @ r) = Some (i, r)"
proof (cases "i < 0")
  case True
  assume "no_digit r"
  with True show ?thesis by (simp add: pint_def int_str_def pnat_nat_str)
next
  case False
  assume r: "no_digit r"
  obtain c t where h: "nat_str (nat i) = c # t" "is_digit c" by (rule nat_str_head)
  then have "c \<noteq> CHR ''-''" by (auto simp: is_digit_def code_def)
  with h(1) have "pint (nat_str (nat i) @ r)
      = map_option (\<lambda>(n, t). (int n, t)) (pnat (nat_str (nat i) @ r))"
    by (simp add: pint_def)
  with False r show ?thesis by (simp add: int_str_def pnat_nat_str)
qed

lemma int_str_head:
  obtains c t where "int_str i = c # t" and "is_digit c \<or> c = CHR ''-''"
  by (metis int_str_def nat_str_head)

text \<open>The first character tells the kinds of value apart.\<close>

lemma skip_ws_Cons [simp]: "\<not> is_ws c \<Longrightarrow> skip_ws (c # s) = c # s"
  by (simp add: skip_ws_def)

lemma skip_ws_Nil [simp]: "skip_ws [] = []"
  by (simp add: skip_ws_def)

lemma is_ws_simps [simp]:
  "\<not> is_ws (CHR 34)" "\<not> is_ws (CHR ''['')" "\<not> is_ws (CHR '']'')" "\<not> is_ws (CHR ''{'')" "\<not> is_ws (CHR ''}'')"
  "\<not> is_ws (CHR '','')" "\<not> is_ws (CHR '':'')" "\<not> is_ws (CHR ''n'')" "\<not> is_ws (CHR ''t'')" "\<not> is_ws (CHR ''f'')"
  "\<not> is_ws (CHR ''-'')"
  by (simp_all add: is_ws_def code_def)

lemma is_ws_digit [simp]: "is_digit c \<Longrightarrow> \<not> is_ws c"
  by (auto simp: is_ws_def is_digit_def)

lemma pval_int:
  assumes "no_digit r"
  shows "pval bad hook (Suc f) (int_str i @ r) = Inr (JInt i, r)"
proof -
  obtain c t where h: "int_str i = c # t" "is_digit c \<or> c = CHR ''-''"
    by (rule int_str_head)
  have "c \<noteq> CHR 34" "c \<noteq> CHR ''[''" "c \<noteq> CHR ''{''" "c \<noteq> CHR ''n''" "c \<noteq> CHR ''t''" "c \<noteq> CHR ''f''" "\<not> is_ws c"
    using h(2) by (auto simp: is_digit_def code_def is_ws_def)
  with h(1) pint_int_str [OF assms, of i] show ?thesis by simp
qed

lemma dict_of_distinct_aux:
  "distinct (map fst (d @ kvs)) \<Longrightarrow>
     fold (\<lambda>kv. dict_set (fst kv) (snd kv)) kvs d = d @ kvs"
proof (induction kvs arbitrary: d)
  case Nil
  then show ?case by simp
next
  case (Cons kv kvs)
  have new: "k \<notin> fst ` set e \<Longrightarrow> dict_set k v e = e @ [(k, v)]" for k :: 'a and v :: 'b and e
    by (induction k v e rule: dict_set.induct) auto
  from Cons.prems have "dict_set (fst kv) (snd kv) d = d @ [kv]" by (simp add: new)
  with Cons.prems Cons.IH [of "d @ [kv]"] show ?case by simp
qed

lemma dict_of_distinct: "distinct (map fst kvs) \<Longrightarrow> dict_of kvs = kvs"
  using dict_of_distinct_aux [of "[]" kvs] by (simp add: dict_of_def)


lemma no_digit_simps [simp]:
  "no_digit []"
  "no_digit (CHR '','' # r)"
  "no_digit (CHR '']'' # r)"
  "no_digit (CHR ''}'' # r)"
  by (simp_all add: no_digit_def is_digit_def code_def)

lemma jprint_head:
  obtains c t where "jprint ea v = c # t" and "c \<noteq> CHR '']''" and "c \<noteq> CHR ''}''" and "\<not> is_ws c"
proof (cases v)
  case (JInt i)
  obtain c t where "int_str i = c # t" "is_digit c \<or> c = CHR ''-''" by (rule int_str_head)
  with JInt show ?thesis by (intro that [of c t]) (auto simp: is_digit_def code_def is_ws_def)
next
  case (JBool b)
  then show ?thesis by (cases b) (auto intro: that)
qed (auto simp: quote_def intro: that)

text \<open>
  Enough fuel for a value is more than the length of its text; \<open>r\<close> is what follows it.
\<close>

text \<open>
  \<open>reads_as\<close>: the printed value is read as its image under \<open>norm\<close>; with the identity, it is read back.
\<close>

definition reads_as ::
  "'e \<Rightarrow> ((string \<times> json) list \<Rightarrow> 'e + json) \<Rightarrow> (json \<Rightarrow> json) \<Rightarrow> bool \<Rightarrow> json \<Rightarrow> bool" where
  "reads_as bad hook norm ea v \<longleftrightarrow>
     (\<forall>f r. length (jprint ea v) < f \<longrightarrow> no_digit r \<longrightarrow> pval bad hook f (jprint ea v @ r) = Inr (norm v, r))"

definition reads_back :: "'e \<Rightarrow> ((string \<times> json) list \<Rightarrow> 'e + json) \<Rightarrow> bool \<Rightarrow> json \<Rightarrow> bool" where
  "reads_back bad hook ea v \<longleftrightarrow>
     (\<forall>f r. length (jprint ea v) < f \<longrightarrow> no_digit r \<longrightarrow> pval bad hook f (jprint ea v @ r) = Inr (v, r))"

text \<open>A hook that keeps objects without repeated keys.\<close>

definition keeps_dicts :: "((string \<times> json) list \<Rightarrow> 'e + json) \<Rightarrow> bool" where
  "keeps_dicts hook \<longleftrightarrow> (\<forall>kvs. distinct (map fst kvs) \<longrightarrow> hook kvs = Inr (JObj kvs))"

lemma reads_asD:
  "reads_as bad hook norm ea v \<Longrightarrow> length (jprint ea v) < f \<Longrightarrow> no_digit r \<Longrightarrow>
     pval bad hook f (jprint ea v @ r) = Inr (norm v, r)"
  by (simp add: reads_as_def)

lemma reads_backD:
  "reads_back bad hook ea v \<Longrightarrow> length (jprint ea v) < f \<Longrightarrow> no_digit r \<Longrightarrow>
     pval bad hook f (jprint ea v @ r) = Inr (v, r)"
  by (simp add: reads_back_def)

lemma parr_reads_as:
  assumes "vs \<noteq> []" and "\<forall>v \<in> set vs. reads_as bad hook norm ea v"
    and "length (py_join '','' (map (jprint ea) vs)) + 1 < f"
  shows "parr bad hook f (py_join '','' (map (jprint ea) vs) @ CHR '']'' # r) = Inr (map norm vs, r)"
  using assms
proof (induction vs arbitrary: f)
  case Nil
  then show ?case by simp
next
  case (Cons v vs)
  then obtain g where f: "f = Suc g" by (cases f) auto
  have v: "reads_as bad hook norm ea v" using Cons.prems by simp
  show ?case
  proof (cases vs)
    case Nil
    with Cons.prems f show ?thesis by (simp add: reads_asD [OF v])
  next
    case (Cons w ws)
    with Cons.prems f have "length (jprint ea v) < g"
      and "length (py_join '','' (map (jprint ea) vs)) + 1 < g" by auto
    with Cons.IH [of g] Cons.prems Cons f show ?thesis by (simp add: reads_asD [OF v])
  qed
qed

lemma pobj_reads_as:
  assumes "kvs \<noteq> []" and "\<forall>kv \<in> set kvs. reads_as bad hook norm ea (snd kv)"
    and "length (py_join '','' (map (\<lambda>kv. quote ea (fst kv) @ '':'' @ jprint ea (snd kv)) kvs)) + 1 < f"
  shows "pobj bad hook f (py_join '','' (map (\<lambda>kv. quote ea (fst kv) @ '':'' @ jprint ea (snd kv)) kvs) @ CHR ''}'' # r)
    = Inr (map (\<lambda>kv. (fst kv, norm (snd kv))) kvs, r)"
  using assms
proof (induction kvs arbitrary: f)
  case Nil
  then show ?case by simp
next
  case (Cons kv kvs)
  then obtain g where f: "f = Suc g" by (cases f) auto
  have v: "reads_as bad hook norm ea (snd kv)" using Cons.prems by simp
  show ?case
  proof (cases kvs)
    case Nil
    with Cons.prems f show ?thesis
      by (simp add: quote_def pstr_quoted reads_asD [OF v] del: pstr.simps)
  next
    case (Cons w ws)
    with Cons.prems f have "length (jprint ea (snd kv)) < g"
      and "length (py_join '','' (map (\<lambda>kv. quote ea (fst kv) @ '':'' @ jprint ea (snd kv)) kvs)) + 1 < g"
      by auto
    with Cons.IH [of g] Cons.prems Cons f show ?thesis
      by (simp add: quote_def pstr_quoted reads_asD [OF v] del: pstr.simps)
  qed
qed

lemma pval_jprint_as:
  assumes "\<And>vs. P (JArr vs) \<Longrightarrow> list_all P vs \<and> norm (JArr vs) = JArr (map norm vs)"
    and "\<And>kvs. P (JObj kvs) \<Longrightarrow> list_all (\<lambda>kv. P (snd kv)) kvs \<and>
      hook (map (\<lambda>kv. (fst kv, norm (snd kv))) kvs) = Inr (norm (JObj kvs))"
    and "\<And>s. norm (JStr s) = JStr s" and "\<And>i. norm (JInt i) = JInt i"
    and "norm JNull = JNull" and "\<And>b. norm (JBool b) = JBool b" and "P v"
  shows "reads_as bad hook norm ea v"
  using assms(7)
proof (induction v)
  case (JArr vs)
  show ?case unfolding reads_as_def
  proof (intro allI impI)
    fix f r
    assume len: "length (jprint ea (JArr vs)) < f" and r: "no_digit r"
    then obtain g where f: "f = Suc g" by (cases f) auto
    show "pval bad hook f (jprint ea (JArr vs) @ r) = Inr (norm (JArr vs), r)"
    proof (cases vs)
      case Nil
      with f assms(1) [OF JArr.prems] show ?thesis by simp
    next
      case (Cons w ws)
      obtain c t where h: "jprint ea w = c # t" "c \<noteq> CHR '']''" "\<not> is_ws c" by (rule jprint_head)
      have all: "\<forall>v \<in> set vs. reads_as bad hook norm ea v" using JArr assms(1) [OF JArr.prems] by (simp add: list_all_iff)
      have "take 1 (skip_ws (py_join '','' (map (jprint ea) vs) @ '']'' @ r)) \<noteq> '']''"
        using Cons h by (cases ws) simp_all
      with parr_reads_as [of vs bad hook norm ea g r] all Cons len f assms(1) [OF JArr.prems] show ?thesis by simp
    qed
  qed
next
  case (JObj kvs)
  show ?case unfolding reads_as_def
  proof (intro allI impI)
    fix f r
    assume len: "length (jprint ea (JObj kvs)) < f" and r: "no_digit r"
    then obtain g where f: "f = Suc g" by (cases f) auto
    have all: "\<forall>kv \<in> set kvs. reads_as bad hook norm ea (snd kv)"
      using JObj assms(2) [OF JObj.prems] by (fastforce simp: list_all_iff)
    have d: "hook (map (\<lambda>kv. (fst kv, norm (snd kv))) kvs) = Inr (norm (JObj kvs))" using assms(2) [OF JObj.prems] by simp
    show "pval bad hook f (jprint ea (JObj kvs) @ r) = Inr (norm (JObj kvs), r)"
    proof (cases kvs)
      case Nil
      with f d show ?thesis by simp
    next
      case (Cons w ws)
      have "take 1 (skip_ws (py_join '','' (map (\<lambda>kv. quote ea (fst kv) @ '':'' @ jprint ea (snd kv)) kvs) @ ''}'' @ r))
          \<noteq> ''}''"
        using Cons by (cases ws) (simp_all add: quote_def)
      with pobj_reads_as [of kvs bad hook norm ea g r] all Cons len f d show ?thesis by simp
    qed
  qed
next
  case (JStr s)
  have "pval bad hook (Suc g) (jprint ea (JStr s) @ r) = Inr (JStr s, r)" for g r
    by (simp add: quote_def pstr_quoted del: pstr.simps)
  then show ?case by (auto simp: reads_as_def assms(3-6) simp del: pval.simps jprint.simps elim!: less_natE)
next
  case (JInt i)
  show ?case
    by (auto simp: reads_as_def assms(4) pval_int simp del: pval.simps elim!: less_natE)
next
  case JNull
  have "pval bad hook (Suc g) (jprint ea JNull @ r) = Inr (JNull, r)" for g r
    by simp
  then show ?case by (auto simp: reads_as_def assms(3-6) simp del: pval.simps jprint.simps elim!: less_natE)
next
  case (JBool b)
  have "pval bad hook (Suc g) (jprint ea (JBool b) @ r) = Inr (JBool b, r)" for g r
    by (cases b) simp_all
  then show ?case by (auto simp: reads_as_def assms(3-6) simp del: pval.simps jprint.simps elim!: less_natE)
qed
lemma reads_back_as: "reads_back bad hook ea v = reads_as bad hook (\<lambda>v. v) ea v"
  by (simp add: reads_back_def reads_as_def)

lemma pval_jprint: "keeps_dicts hook \<Longrightarrow> json_wf v \<Longrightarrow> reads_back bad hook ea v"
  unfolding reads_back_as by (rule pval_jprint_as [where P = json_wf]) (simp_all add: keeps_dicts_def)

lemma loads_text_jprint: "keeps_dicts hook \<Longrightarrow> json_wf v \<Longrightarrow> loads_text bad hook (jprint ea v) = Inr v"
  using reads_backD [OF pval_jprint, of hook v ea "Suc (2 * length (jprint ea v))" "[]"]
  by (simp add: loads_text_def del: pval.simps)

lemma keeps_dict_of: "keeps_dicts (\<lambda>kvs. Inr (JObj (dict_of kvs)))"
  by (simp add: keeps_dicts_def dict_of_distinct)

lemma json_wf_jsort [simp]: "json_wf (jsort v) = json_wf v"
proof (induction v)
  case (JObj kvs)
  have "mset (map fst (sort_key fst (map (\<lambda>kv. (fst kv, jsort (snd kv))) kvs))) = mset (map fst kvs)"
    by (simp add: image_mset.compositionality comp_def)
  then have "distinct (map fst (sort_key fst (map (\<lambda>kv. (fst kv, jsort (snd kv))) kvs)))
      = distinct (map fst kvs)"
    by (rule mset_eq_imp_distinct_iff)
  moreover have "list_all (\<lambda>kv. json_wf (snd kv)) (sort_key fst (map (\<lambda>kv. (fst kv, jsort (snd kv))) kvs))
      = list_all (\<lambda>kv. json_wf (snd kv)) kvs"
    using JObj by (fastforce simp: list_all_iff)
  ultimately show ?case by simp
qed (simp_all add: list_all_iff)

theorem json_loads_dumps:
  "json_wf v \<Longrightarrow> json_loads (utf8_encode (json_dumps ea v)) = Some (jsort v)"
  by (simp add: json_loads_def json_dumps_def loads_text_jprint [OF keeps_dict_of])

text \<open>The value of any printed text: every object becomes a dict, the last value of a key winning.\<close>

fun dict_json :: "json \<Rightarrow> json" where
  "dict_json (JArr vs) = JArr (map dict_json vs)"
| "dict_json (JObj kvs) = JObj (dict_of (map (\<lambda>kv. (fst kv, dict_json (snd kv))) kvs))"
| "dict_json v = v"

lemma json_loads_dumps_any: "json_loads (utf8_encode (json_dumps ea v)) = Some (dict_json (jsort v))"
proof -
  let ?hook = "\<lambda>kvs. Inr (JObj (dict_of kvs)) :: unit + json" and ?t = "jprint ea (jsort v)"
  have "reads_as () ?hook dict_json ea (jsort v)"
    by (rule pval_jprint_as [where P = "\<lambda>_. True"]) (simp_all add: list_all_iff)
  then have "pval () ?hook (Suc (2 * length ?t)) (?t @ []) = Inr (dict_json (jsort v), [])"
    by (rule reads_asD) simp_all
  then show ?thesis by (simp add: json_loads_def json_dumps_def loads_text_def del: pval.simps)
qed

lemma map_of_sort_key:
  "distinct (map fst kvs) \<Longrightarrow> map_of (sort_key fst kvs) = map_of kvs"
  by (rule map_of_inject_set [THEN iffD2]) (auto simp: distinct_map inj_on_def)

lemma map_of_dict_json:
  assumes "distinct (map fst kvs)"
  shows "\<exists>kvs'. dict_json (jsort (JObj kvs)) = JObj kvs' \<and>
    (\<forall>k. map_of kvs' k = map_option (\<lambda>v. dict_json (jsort v)) (map_of kvs k))"
proof -
  let ?s = "sort_key fst (map (\<lambda>kv. (fst kv, jsort (snd kv))) kvs)"
  have "mset (map fst ?s) = mset (map fst kvs)"
    by (simp add: image_mset.compositionality comp_def)
  then have d: "distinct (map fst ?s)"
    using assms mset_eq_imp_distinct_iff by blast
  then have "dict_of (map (\<lambda>kv. (fst kv, dict_json (snd kv))) ?s) = map (\<lambda>kv. (fst kv, dict_json (snd kv))) ?s"
    by (intro dict_of_distinct) (simp add: comp_def)
  moreover have "map_of ?s = map_of (map (\<lambda>kv. (fst kv, jsort (snd kv))) kvs)"
    using assms by (intro map_of_sort_key) (simp add: comp_def)
  moreover have img: "map_of (map (\<lambda>kv. (fst kv, g (snd kv))) xs) k = map_option g (map_of xs k)"
    for g :: "json \<Rightarrow> json" and xs k
    by (induction xs) auto
  ultimately show ?thesis by (simp add: img [of dict_json] img [of jsort] option.map_comp comp_def)
qed

corollary json_loads_canonical_bytes [simp]:
  "json_wf v \<Longrightarrow> json_loads (canonical_bytes v) = Some (jsort v)"
  by (simp add: canonical_bytes_def json_loads_dumps)

corollary canonical_bytes_eq_iff:
  "json_wf v \<Longrightarrow> json_wf w \<Longrightarrow> canonical_bytes v = canonical_bytes w \<longleftrightarrow> jsort v = jsort w"
  by (metis json_loads_canonical_bytes option.inject canonical_bytes_def json_dumps_def)

subsection \<open>Sorted keys\<close>

lemma jsort_idem [simp]: "jsort (jsort v) = jsort v"
proof (induction v)
  case (JObj kvs)
  have "map (\<lambda>kv. (fst kv, jsort (snd kv))) (sort_key fst (map (\<lambda>kv. (fst kv, jsort (snd kv))) kvs))
      = sort_key fst (map (\<lambda>kv. (fst kv, jsort (snd kv))) kvs)"
    by (rule map_idI) (use JObj in force)
  then show ?case by (simp add: sort_key_id_if_sorted)
qed (simp_all cong: map_cong)

lemma canonical_bytes_cong: "jsort v = jsort w \<Longrightarrow> canonical_bytes v = canonical_bytes w"
  by (simp add: canonical_bytes_def json_dumps_def)

definition sorted_pairs :: "(string \<times> json) list \<Rightarrow> (string \<times> json) list" where
  "sorted_pairs d = sort_key fst (map (\<lambda>kv. (fst kv, jsort (snd kv))) d)"

lemma jsort_JObj: "jsort (JObj d) = JObj (sorted_pairs d)"
  by (simp add: sorted_pairs_def)

lemma map_of_sorted_pairs: "distinct (map fst d) \<Longrightarrow> map_of (sorted_pairs d) k = map_option jsort (map_of d k)"
proof -
  assume "distinct (map fst d)"
  then have "map_of (sorted_pairs d) = map_of (map (\<lambda>kv. (fst kv, jsort (snd kv))) d)"
    unfolding sorted_pairs_def by (intro map_of_sort_key) (simp add: comp_def)
  moreover have "map_of (map (\<lambda>kv. (fst kv, jsort (snd kv))) d) k = map_option jsort (map_of d k)"
    by (induction d) auto
  ultimately show ?thesis by simp
qed

lemma keys_sorted_pairs [simp]: "fst ` set (sorted_pairs d) = fst ` set d"
  by (auto simp: sorted_pairs_def image_image)

lemma distinct_sorted_pairs [simp]: "distinct (map fst (sorted_pairs d)) = distinct (map fst d)"
proof -
  have "mset (map fst (sorted_pairs d)) = mset (map fst d)"
    by (simp add: sorted_pairs_def image_mset.compositionality comp_def)
  then show ?thesis by (rule mset_eq_imp_distinct_iff)
qed

lemma distinct_of_keys: "distinct (map f xs) \<Longrightarrow> distinct xs"
  by (simp add: distinct_map)

text \<open>Two dicts with the same entries up to the order of keys inside them.\<close>

lemma jsort_dict_eq:
  assumes "distinct (map fst d)" "distinct (map fst e)"
    and "\<And>k. map_option jsort (map_of d k) = map_option jsort (map_of e k)"
  shows "jsort (JObj d) = jsort (JObj e)"
proof -
  let ?f = "\<lambda>d :: (string \<times> json) list. map (\<lambda>kv. (fst kv, jsort (snd kv))) d"
  have dist: "distinct (map fst (?f d))" "distinct (map fst (?f e))" using assms(1,2) by (simp_all add: comp_def)
  have lookup: "map_of (?f d) k = map_option jsort (map_of d k)" for d :: "(string \<times> json) list" and k
    by (induction d) auto
  have "map_of (?f d) = map_of (?f e)" using assms(3) by (intro ext) (simp add: lookup)
  then have "set (?f d) = set (?f e)" using map_of_inject_set [OF dist] by simp
  then have "mset (?f d) = mset (?f e)"
    using set_eq_iff_mset_eq_distinct [OF distinct_of_keys [OF dist(1)] distinct_of_keys [OF dist(2)]] by blast
  then have "sort_key fst (?f d) = sort_key fst (?f e)"
    using dist(1) [unfolded distinct_map [of fst]] by (intro sort_key_perm_unique) blast+
  then show ?thesis by simp
qed

lemma dict_determined:
  assumes "distinct (map fst d)" "distinct (map fst e)" "set (map fst d) = set (map fst e)"
    and "list_all (\<lambda>(k, v). map_option jsort (map_of d k) = Some (jsort v)) e"
  shows "jsort (JObj d) = jsort (JObj e)"
proof (rule jsort_dict_eq [OF assms(1,2)])
  fix k
  show "map_option jsort (map_of d k) = map_option jsort (map_of e k)"
  proof (cases "map_of e k")
    case None
    then have "k \<notin> fst ` set d" using assms(3) by (simp add: map_of_eq_None_iff)
    then have "map_of d k = None" by (simp add: map_of_eq_None_iff)
    with None show ?thesis by simp
  next
    case (Some v)
    with assms(4) map_of_SomeD [OF Some] show ?thesis by (auto simp: list_all_iff)
  qed
qed

subsection \<open>Values with sorted keys\<close>

definition canonical_json :: "json \<Rightarrow> bool" where
  "canonical_json v \<longleftrightarrow> json_wf v \<and> jsort v = v"

lemma canonical_json_jsort: "json_wf v \<Longrightarrow> canonical_json (jsort v)"
  by (simp add: canonical_json_def)

lemma canonical_items: "canonical_json (JArr vs) \<Longrightarrow> v \<in> set vs \<Longrightarrow> canonical_json v"
  by (auto simp: canonical_json_def list_all_iff map_eq_conv [where g = "\<lambda>x. x", simplified])

lemma canonical_field:
  assumes "canonical_json (JObj d)" and "map_of d k = Some v"
  shows "canonical_json v"
proof -
  have d: "distinct (map fst d)" and wf: "json_wf v"
    using assms map_of_SomeD [OF assms(2)] by (auto simp: canonical_json_def list_all_iff)
  have "sorted_pairs d = d" using assms(1) by (simp add: canonical_json_def jsort_JObj del: jsort.simps(2))
  with map_of_sorted_pairs [OF d, of k] assms(2) wf show ?thesis by (simp add: canonical_json_def)
qed

lemma dict_eq_iff:
  assumes "canonical_json (JObj d)" and "distinct (map fst e)"
  shows "JObj d = jsort (JObj e) \<longleftrightarrow>
     set (map fst d) = set (map fst e) \<and> list_all (\<lambda>(k, v). map_of d k = Some (jsort v)) e"
proof
  have d: "distinct (map fst d)" using assms(1) by (simp add: canonical_json_def)
  assume "JObj d = jsort (JObj e)"
  then have "d = sorted_pairs e" by (simp add: jsort_JObj del: jsort.simps(2))
  then show "set (map fst d) = set (map fst e) \<and> list_all (\<lambda>(k, v). map_of d k = Some (jsort v)) e"
    using assms(2) by (auto simp: list_all_iff map_of_sorted_pairs)
next
  have d: "distinct (map fst d)" using assms(1) by (simp add: canonical_json_def)
  assume eq: "set (map fst d) = set (map fst e) \<and> list_all (\<lambda>(k, v). map_of d k = Some (jsort v)) e"
  have "jsort (JObj d) = jsort (JObj e)"
    by (rule dict_determined [OF d assms(2)]) (use eq in \<open>auto simp: list_all_iff\<close>)
  then show "JObj d = jsort (JObj e)" using assms(1) by (simp only: canonical_json_def)
qed

text \<open>A canonical line: the bytes of a value and a newline.\<close>

lemma skip_ws_newline [simp]: "skip_ws [CHR 10] = []"
  by (simp add: skip_ws_def is_ws_def code_def)

lemma utf8_decode_newline: "utf8_decode (utf8_encode s @ [CHR 10]) = Some (s @ [CHR 10])"
proof -
  have "utf8_encode s @ [CHR 10] = utf8_encode (s @ [CHR 10])" by (simp add: utf8_encode_def utf8_char_def code_def)
  then show ?thesis by simp
qed

lemma json_loads_dumps_line:
  assumes "json_wf v"
  shows "json_loads (utf8_encode (json_dumps ea v) @ [CHR 10]) = Some (jsort v)"
proof -
  let ?hook = "\<lambda>kvs. Inr (JObj (dict_of kvs)) :: unit + json" and ?t = "jprint ea (jsort v)"
  have "no_digit [CHR 10]" by (simp add: no_digit_def is_digit_def code_def)
  then have "pval () ?hook (Suc (2 * length (?t @ [CHR 10]))) (?t @ [CHR 10]) = Inr (jsort v, [CHR 10])"
    using assms by (intro reads_backD pval_jprint keeps_dict_of) simp_all
  then have "loads_text () ?hook (?t @ [CHR 10]) = Inr (jsort v)" unfolding loads_text_def by simp
  then show ?thesis by (simp add: json_loads_def json_dumps_def utf8_decode_newline)
qed

lemma json_loads_line: "json_wf v \<Longrightarrow> json_loads (canonical_bytes v @ [CHR 10]) = Some (jsort v)"
  unfolding canonical_bytes_def by (rule json_loads_dumps_line)

lemma makes_wf_dict_of: "makes_wf (\<lambda>kvs. Inr (JObj (dict_of kvs)) :: 'e + json)"
proof -
  have "distinct (map fst (fold (\<lambda>kv. dict_set (fst kv) (snd kv)) kvs d))
      \<and> list_all (\<lambda>kv. json_wf (snd kv)) (fold (\<lambda>kv. dict_set (fst kv) (snd kv)) kvs d)"
    if "distinct (map fst d)" "list_all (\<lambda>kv. json_wf (snd kv)) d" "list_all (\<lambda>kv. json_wf (snd kv)) kvs"
    for kvs d :: "(string \<times> json) list"
    using that
  proof (induction kvs arbitrary: d)
    case (Cons kv kvs)
    have "list_all (\<lambda>kv. json_wf (snd kv)) (dict_set k v d)" if "json_wf v" for k v
      using Cons.prems(2) that by (induction k v d rule: dict_set.induct) auto
    with Cons show ?case by (simp add: distinct_dict_set)
  qed simp
  from this [of "[]"] show ?thesis by (auto simp: makes_wf_def dict_of_def)
qed

lemma json_loads_wf: "json_loads b = Some v \<Longrightarrow> json_wf v"
  by (auto simp: json_loads_def split: option.splits sum.splits dest: loads_text_wf [OF makes_wf_dict_of])

text \<open>Written JSON has no control characters, so a record is one line.\<close>

definition printable :: "string \<Rightarrow> bool" where
  "printable s \<longleftrightarrow> (\<forall>c \<in> set s. 32 \<le> code c)"

lemma printable_simps [simp]:
  "printable []" "printable (c # s) \<longleftrightarrow> 32 \<le> code c \<and> printable s" "printable (s @ t) \<longleftrightarrow> printable s \<and> printable t"
  by (auto simp: printable_def)

lemma printable_hex: "n < 16 \<Longrightarrow> 32 \<le> code (hex_digit n)"
  by (simp add: hex_digit_def)

lemma printable_esc: "printable (esc_char ea c)"
  by (auto simp: esc_char_def printable_hex code_def [of "CHR 92"] code_def [of "CHR 34"] code_def [of "CHR ''n''"]
    code_def [of "CHR ''r''"] code_def [of "CHR ''t''"] code_def [of "CHR ''f''"] code_def [of "CHR ''b''"]
    code_def [of "CHR ''u''"] code_def [of "CHR ''0''"] less_mult_imp_div_less)

lemma printable_quote: "printable (quote ea s)"
  using printable_esc by (induction s) (auto simp: quote_def code_def [of "CHR 34"])

lemma printable_nat_str: "printable (nat_str n)"
proof (induction n rule: nat_str.induct)
  case (1 n)
  then show ?case by (cases "n < 10") (simp_all add: nat_str.simps [of n])
qed

lemma printable_join: "printable sep \<Longrightarrow> list_all printable xs \<Longrightarrow> printable (py_join sep xs)"
  by (induction sep xs rule: py_join.induct) simp_all

lemma printable_jprint: "printable (jprint ea v)"
proof (induction v)
  case (JArr vs)
  then show ?case by (auto simp: code_def intro!: printable_join simp: list_all_iff)
next
  case (JObj kvs)
  then have "list_all printable (map (\<lambda>kv. quote ea (fst kv) @ '':'' @ jprint ea (snd kv)) kvs)"
    by (auto simp: list_all_iff printable_quote code_def)
  then show ?case by (auto simp: code_def intro!: printable_join)
qed (auto simp: printable_quote int_str_def printable_nat_str code_def)

lemma printable_utf8: "printable s \<Longrightarrow> printable (utf8_encode s)"
proof (induction s)
  case (Cons c s)
  have "code c div 64 \<le> 3" using code_less_256 [of c] less_mult_imp_div_less [of "code c" 4 64] by simp
  then have "32 \<le> code (chr_of (192 + code c div 64))" "32 \<le> code (chr_of (128 + code c mod 64))" by simp_all
  with Cons show ?case by (simp add: utf8_encode_def utf8_char_def)
qed (simp add: utf8_encode_def)

end
