(* ===== verification/ECPA_Model.thy ===== *)
theory ECPA_Model
  imports Json
begin

section \<open>The ECPA 0.1 contract model (\<^verbatim>\<open>ecpa_model.py\<close>)\<close>

text \<open>
  The data classes of the contract (identities, claims, obligations, attestations, plans) with
  their JSON form and content ids, and \<open>ReferenceModel\<close>: the logical model of one activation with
  its append-only evidence store.  A frozen data class is a record; the two-letter prefix of a
  field names its class.  \<open>sha\<close> is \<open>hashlib.sha256(b).hexdigest()\<close>.  The methods of
  \<open>ReferenceModel\<close> are \<open>rm_resolve\<close>, \<open>rm_make_plan\<close>, \<open>rm_prepare\<close>, \<open>rm_launch\<close>, \<open>rm_attest\<close>,
  \<open>rm_evidence_complete\<close>, \<open>rm_commit\<close>, \<open>rm_external_lease_lost\<close>, \<open>rm_rollback\<close> and
  \<open>rm_recover_after_crash\<close> over the record \<open>ref_model\<close>.
\<close>

subsection \<open>States, error codes, exceptions\<close>

datatype state =
    Intent | Resolved | Planned | Preparing | Prepared | Launching | Observing | CommitReady
  | Effective | Degraded | Reconcile | Rollback | RolledBack | FailedSafe | SafetyUnknown

fun state_value :: "state \<Rightarrow> string" where
  "state_value Intent = ''Intent''"
| "state_value Resolved = ''Resolved''"
| "state_value Planned = ''Planned''"
| "state_value Preparing = ''Preparing''"
| "state_value Prepared = ''Prepared''"
| "state_value Launching = ''Launching''"
| "state_value Observing = ''Observing''"
| "state_value CommitReady = ''CommitReady''"
| "state_value Effective = ''Effective''"
| "state_value Degraded = ''Degraded''"
| "state_value Reconcile = ''Reconcile''"
| "state_value Rollback = ''Rollback''"
| "state_value RolledBack = ''RolledBack''"
| "state_value FailedSafe = ''FailedSafe''"
| "state_value SafetyUnknown = ''SafetyUnknown''"

datatype error_code =
    UNKNOWN_RESOURCE | AMBIGUOUS_RESOURCE | RESOURCE_CONFLICT | INCOMPATIBLE_HOST
  | MISSING_PROCESS_EVIDENCE | STALE_EVIDENCE | REPLAYED_NONCE | CAS_MISMATCH
  | EXTERNAL_LEASE_INVALID | AUTHORITY_VIOLATION | INVALID_TRANSITION | ROLLBACK_FAILED

fun error_code_value :: "error_code \<Rightarrow> string" where
  "error_code_value UNKNOWN_RESOURCE = ''UNKNOWN_RESOURCE''"
| "error_code_value AMBIGUOUS_RESOURCE = ''AMBIGUOUS_RESOURCE''"
| "error_code_value RESOURCE_CONFLICT = ''RESOURCE_CONFLICT''"
| "error_code_value INCOMPATIBLE_HOST = ''INCOMPATIBLE_HOST''"
| "error_code_value MISSING_PROCESS_EVIDENCE = ''MISSING_PROCESS_EVIDENCE''"
| "error_code_value STALE_EVIDENCE = ''STALE_EVIDENCE''"
| "error_code_value REPLAYED_NONCE = ''REPLAYED_NONCE''"
| "error_code_value CAS_MISMATCH = ''CAS_MISMATCH''"
| "error_code_value EXTERNAL_LEASE_INVALID = ''EXTERNAL_LEASE_INVALID''"
| "error_code_value AUTHORITY_VIOLATION = ''AUTHORITY_VIOLATION''"
| "error_code_value INVALID_TRANSITION = ''INVALID_TRANSITION''"
| "error_code_value ROLLBACK_FAILED = ''ROLLBACK_FAILED''"

text \<open>
  The exceptions of the modelled code: the classes it defines, and the ones of the language and
  of \<open>sqlite3\<close> it can let out.  \<open>exn_str\<close> is \<open>str(exc)\<close>; of an \<open>AttestationError\<close> only the code is kept.
\<close>

datatype py_exn =
    ContractError error_code string
  | GateError string
  | InjectedCrash string
  | RuntimeError string
  | IntegrityError string
  | AssertionError
  | KeyError string
  | TypeError string
  | AttributeError string
  | JSONDecodeError
  | AttestationError string

fun exn_str :: "py_exn \<Rightarrow> string" where
  "exn_str (ContractError c d) = error_code_value c @ '': '' @ d"
| "exn_str (GateError d) = d"
| "exn_str (InjectedCrash d) = d"
| "exn_str (RuntimeError d) = d"
| "exn_str (IntegrityError d) = d"
| "exn_str AssertionError = []"
| "exn_str (KeyError k) = [CHR 39] @ k @ [CHR 39]"
| "exn_str (TypeError d) = d"
| "exn_str (AttributeError d) = d"
| "exn_str JSONDecodeError = ''Expecting value''"
| "exn_str (AttestationError c) = c"

subsection \<open>Content ids\<close>

definition content_id :: "(string \<Rightarrow> string) \<Rightarrow> string \<Rightarrow> json \<Rightarrow> string" where
  "content_id sha pre v = pre @ '':sha256:'' @ sha (canonical_bytes v)"

definition canonical_uri :: "string \<Rightarrow> string \<Rightarrow> py_exn + string" where
  "canonical_uri v kind =
     (let pre = ''urn:ecpa:'' @ kind @ '':''
      in if \<not> prefix pre v \<or> py_lower v \<noteq> v \<or> CHR '' '' \<in> set v
         then Inl (ContractError UNKNOWN_RESOURCE v) else Inr v)"

subsection \<open>The data classes\<close>

record plugin_identity =
  pi_namespace :: string
  pi_name :: string
  pi_version :: string
  pi_artifact_sha256 :: string

record host_compatibility =
  hc_runtime :: string
  hc_version :: string
  hc_provider :: string
  hc_abi :: string

record process_identity =
  pr_host :: string
  pr_role :: string
  pr_ordinal :: int
  pr_start_id :: string
  pr_epoch :: int

record resource_claim =
  rc_uri :: string
  rc_owner :: string
  rc_mode :: string

record evidence_obligation =
  ob_id :: string
  ob_role :: string
  ob_event :: string
  ob_required_ordinals :: "int list"

record attestation =
  at_plan_id :: string
  at_launch_id :: string
  at_process :: process_identity
  at_obligation_id :: string
  at_event :: string
  at_nonce :: string
  at_issued_at :: int
  at_expires_at :: int
  at_artifact_id :: string
  at_authority :: string
  at_issuer :: string
  at_kid :: string
  at_observed_at :: int
  at_evidence_digest :: string
  at_artifact_digest :: string

record predecessor_snapshot =
  ps_generation :: int
  ps_plan_id :: "string option"
  ps_rendered_inputs :: "(string \<times> json) list"

record plan =
  pl_plugins :: "plugin_identity list"
  pl_host :: host_compatibility
  pl_claims :: "resource_claim list"
  pl_obligations :: "evidence_obligation list"
  pl_predecessor :: predecessor_snapshot
  pl_fallback_proven :: bool

text \<open>\<open>dataclasses.asdict\<close>: the fields in the order of the class.\<close>

definition jopt :: "string option \<Rightarrow> json" where
  "jopt x = (case x of None \<Rightarrow> JNull | Some s \<Rightarrow> JStr s)"

definition plugin_dict :: "plugin_identity \<Rightarrow> json" where
  "plugin_dict p = JObj [
     (''namespace'', JStr (pi_namespace p)), (''name'', JStr (pi_name p)),
     (''version'', JStr (pi_version p)), (''artifact_sha256'', JStr (pi_artifact_sha256 p))]"

definition host_dict :: "host_compatibility \<Rightarrow> json" where
  "host_dict h = JObj [
     (''runtime'', JStr (hc_runtime h)), (''version'', JStr (hc_version h)),
     (''provider'', JStr (hc_provider h)), (''abi'', JStr (hc_abi h))]"

definition process_dict :: "process_identity \<Rightarrow> json" where
  "process_dict p = JObj [
     (''host'', JStr (pr_host p)), (''role'', JStr (pr_role p)), (''ordinal'', JInt (pr_ordinal p)),
     (''start_id'', JStr (pr_start_id p)), (''epoch'', JInt (pr_epoch p))]"

definition claim_dict :: "resource_claim \<Rightarrow> json" where
  "claim_dict c = JObj [
     (''uri'', JStr (rc_uri c)), (''owner'', JStr (rc_owner c)), (''mode'', JStr (rc_mode c))]"

definition obligation_dict :: "evidence_obligation \<Rightarrow> json" where
  "obligation_dict b = JObj [
     (''obligation_id'', JStr (ob_id b)), (''role'', JStr (ob_role b)), (''event'', JStr (ob_event b)),
     (''required_ordinals'', JArr (map JInt (ob_required_ordinals b)))]"

definition attestation_dict :: "attestation \<Rightarrow> json" where
  "attestation_dict a = JObj [
     (''plan_id'', JStr (at_plan_id a)), (''launch_id'', JStr (at_launch_id a)),
     (''process'', process_dict (at_process a)), (''obligation_id'', JStr (at_obligation_id a)),
     (''event'', JStr (at_event a)), (''nonce'', JStr (at_nonce a)),
     (''issued_at'', JInt (at_issued_at a)), (''expires_at'', JInt (at_expires_at a)),
     (''artifact_id'', JStr (at_artifact_id a)), (''authority'', JStr (at_authority a)),
     (''issuer'', JStr (at_issuer a)), (''kid'', JStr (at_kid a)),
     (''observed_at'', JInt (at_observed_at a)), (''evidence_digest'', JStr (at_evidence_digest a)),
     (''artifact_digest'', JStr (at_artifact_digest a))]"

definition predecessor_dict :: "predecessor_snapshot \<Rightarrow> json" where
  "predecessor_dict s = JObj [
     (''generation'', JInt (ps_generation s)), (''plan_id'', jopt (ps_plan_id s)),
     (''rendered_inputs'', JObj (ps_rendered_inputs s))]"

definition plan_dict :: "plan \<Rightarrow> json" where
  "plan_dict p = JObj [
     (''plugins'', JArr (map plugin_dict (pl_plugins p))), (''host'', host_dict (pl_host p)),
     (''claims'', JArr (map claim_dict (pl_claims p))),
     (''obligations'', JArr (map obligation_dict (pl_obligations p))),
     (''predecessor'', predecessor_dict (pl_predecessor p)),
     (''fallback_proven'', JBool (pl_fallback_proven p))]"

definition plugin_id :: "(string \<Rightarrow> string) \<Rightarrow> plugin_identity \<Rightarrow> string" where
  "plugin_id sha p = content_id sha ''plugin'' (plugin_dict p)"

definition plan_id :: "(string \<Rightarrow> string) \<Rightarrow> plan \<Rightarrow> string" where
  "plan_id sha p = content_id sha ''plan'' (plan_dict p)"

definition process_key :: "process_identity \<Rightarrow> string" where
  "process_key p = py_join ''/''
     [pr_host p, pr_role p, int_str (pr_ordinal p), pr_start_id p, int_str (pr_epoch p)]"

subsection \<open>The evidence store\<close>

record store_record =
  sr_sequence :: int
  sr_kind :: string
  sr_payload :: json

definition store_append :: "string \<Rightarrow> json \<Rightarrow> store_record list \<Rightarrow> store_record list" where
  "store_append kind payload rs =
     rs @ [\<lparr>sr_sequence = int (length rs), sr_kind = kind, sr_payload = payload\<rparr>]"

subsection \<open>\<open>ReferenceModel\<close>\<close>

record ref_model =
  rm_state :: state
  rm_generation :: int
  rm_store :: "store_record list"
  rm_plan :: "plan option"
  rm_launch_id :: "string option"
  rm_inventory :: "process_identity list"
  rm_nonces :: "string set"
  rm_accepted :: "attestation list"

type_synonym 'a rm = "(py_exn, ref_model, 'a) py"

definition rm_init :: "int \<Rightarrow> ref_model" where
  "rm_init generation = \<lparr>rm_state = Intent, rm_generation = generation, rm_store = [],
     rm_plan = None, rm_launch_id = None, rm_inventory = [], rm_nonces = {}, rm_accepted = []\<rparr>"

definition rm_set_state :: "state \<Rightarrow> unit rm" where
  "rm_set_state st = modify (\<lambda>m. m\<lparr>rm_state := st\<rparr>)"

definition rm_append :: "string \<Rightarrow> json \<Rightarrow> unit rm" where
  "rm_append kind payload = modify (\<lambda>m. m\<lparr>rm_store := store_append kind payload (rm_store m)\<rparr>)"

text \<open>\<open>repr\<close> of a list of state values, as the error text shows it.\<close>

definition states_repr :: "state list \<Rightarrow> string" where
  "states_repr ss =
     ''['' @ py_join '', '' (map (\<lambda>s. [CHR 39] @ state_value s @ [CHR 39]) ss) @ '']''"

definition rm_require :: "state list \<Rightarrow> unit rm" where
  "rm_require states = bind (gets rm_state) (\<lambda>st.
     require (st \<in> set states)
       (ContractError INVALID_TRANSITION (state_value st @ '' not in '' @ states_repr states)))"

text \<open>\<open>assert self.plan\<close>\<close>

definition rm_assert_plan :: "plan rm" where
  "rm_assert_plan = bind (gets rm_plan) (\<lambda>p.
     case p of None \<Rightarrow> raise AssertionError | Some pl \<Rightarrow> ret pl)"

definition rm_resolve :: "string list \<Rightarrow> string \<Rightarrow> unit rm" where
  "rm_resolve registrations expected_namespace =
     andthen (rm_require [Intent])
    (let matches = filter (\<lambda>x. x = expected_namespace) registrations in
     andthen (require (matches \<noteq> []) (ContractError UNKNOWN_RESOURCE expected_namespace))
    (andthen (require (length matches = 1) (ContractError AMBIGUOUS_RESOURCE expected_namespace))
    (rm_set_state Resolved)))"

text \<open>The loop of \<open>make_plan\<close>: one claim against the dict \<open>normalized\<close> of the claims so far.\<close>

definition claim_conflict :: "resource_claim \<Rightarrow> resource_claim \<Rightarrow> bool" where
  "claim_conflict prior claim \<longleftrightarrow>
     (rc_mode prior = ''exclusive'' \<or> rc_mode claim = ''exclusive'') \<and> rc_owner prior \<noteq> rc_owner claim"

definition normalize_claim ::
  "(string \<times> resource_claim) list \<Rightarrow> resource_claim \<Rightarrow> py_exn + (string \<times> resource_claim) list" where
  "normalize_claim normalized claim =
     ebind (canonical_uri (rc_uri claim) ''resource'') (\<lambda>uri.
       case map_of normalized uri of
         None \<Rightarrow> Inr (dict_set uri claim normalized)
       | Some prior \<Rightarrow>
           if claim_conflict prior claim
           then Inl (ContractError RESOURCE_CONFLICT
                  (uri @ '': '' @ rc_owner prior @ '' vs '' @ rc_owner claim))
           else Inr (dict_set uri claim normalized))"

fun normalize_claims ::
  "(string \<times> resource_claim) list \<Rightarrow> resource_claim list \<Rightarrow> py_exn + (string \<times> resource_claim) list" where
  "normalize_claims normalized [] = Inr normalized"
| "normalize_claims normalized (claim # claims) =
     ebind (normalize_claim normalized claim) (\<lambda>n. normalize_claims n claims)"

definition rm_make_plan ::
  "(string \<Rightarrow> string) \<Rightarrow> plugin_identity list \<Rightarrow> host_compatibility \<Rightarrow> resource_claim list \<Rightarrow>
   evidence_obligation list \<Rightarrow> predecessor_snapshot \<Rightarrow> bool \<Rightarrow> plan rm" where
  "rm_make_plan sha plugins host claims obligations predecessor fallback_proven =
     andthen (rm_require [Resolved])
    (bind (lift_result (normalize_claims [] claims)) (\<lambda>normalized.
     let p = \<lparr>pl_plugins = plugins, pl_host = host, pl_claims = map snd normalized,
              pl_obligations = obligations, pl_predecessor = predecessor,
              pl_fallback_proven = fallback_proven\<rparr> in
     andthen (modify (\<lambda>m. m\<lparr>rm_plan := Some p\<rparr>))
    (andthen (rm_append ''plan'' (JObj [(''plan_id'', JStr (plan_id sha p))]))
    (andthen (rm_set_state Planned)
    (ret p)))))"

definition rm_prepare :: "(string \<Rightarrow> string) \<Rightarrow> unit rm" where
  "rm_prepare sha =
     andthen (rm_require [Planned])
    (bind rm_assert_plan (\<lambda>p.
     andthen (rm_set_state Preparing)
    (andthen (rm_append ''wal'' (JObj [(''operation'', JStr ''prepare''), (''plan_id'', JStr (plan_id sha p))]))
    (andthen (rm_append ''receipt'' (JObj [(''operation'', JStr ''prepare''), (''plan_id'', JStr (plan_id sha p))]))
    (rm_set_state Prepared)))))"

definition rm_launch :: "string \<Rightarrow> process_identity list \<Rightarrow> unit rm" where
  "rm_launch launch_id inventory =
     andthen (rm_require [Prepared])
    (bind rm_assert_plan (\<lambda>_.
     andthen (rm_set_state Launching)
    (andthen (modify (\<lambda>m. m\<lparr>rm_launch_id := Some launch_id\<rparr>))
    (andthen (modify (\<lambda>m. m\<lparr>rm_inventory := inventory\<rparr>))
    (andthen (rm_append ''wal'' (JObj [(''operation'', JStr ''launch''), (''launch_id'', JStr launch_id)]))
    (andthen (rm_append ''receipt'' (JObj [(''operation'', JStr ''launch''), (''launch_id'', JStr launch_id)]))
    (rm_set_state Observing)))))))"

definition rm_attest :: "(string \<Rightarrow> string) \<Rightarrow> attestation \<Rightarrow> int \<Rightarrow> unit rm" where
  "rm_attest sha item now =
     andthen (rm_require [Observing, Reconcile])
    (bind rm_assert_plan (\<lambda>p.
     andthen (require (at_authority item = ''host-runtime'')
       (ContractError AUTHORITY_VIOLATION (at_authority item)))
    (bind (gets rm_launch_id) (\<lambda>launch_id.
     andthen (require
       (\<not> (at_plan_id item \<noteq> plan_id sha p
          \<or> at_artifact_id item \<notin> plugin_id sha ` set (pl_plugins p)
          \<or> Some (at_launch_id item) \<noteq> launch_id
          \<or> at_expires_at item < now
          \<or> now < at_issued_at item))
       (ContractError STALE_EVIDENCE (at_nonce item)))
    (bind (gets rm_nonces) (\<lambda>nonces.
     andthen (require (at_nonce item \<notin> nonces) (ContractError REPLAYED_NONCE (at_nonce item)))
    (bind (gets rm_inventory) (\<lambda>inventory.
     andthen (require (process_key (at_process item) \<in> process_key ` set inventory)
       (ContractError STALE_EVIDENCE (process_key (at_process item))))
    (andthen (modify (\<lambda>m. m\<lparr>rm_nonces := insert (at_nonce item) (rm_nonces m)\<rparr>))
    (andthen (modify (\<lambda>m. m\<lparr>rm_accepted := rm_accepted m @ [item]\<rparr>))
    (rm_append ''attestation'' (attestation_dict item))))))))))))"

text \<open>The dict comprehension \<open>{p.ordinal: p ...}\<close>: of two processes with one ordinal the later stays.\<close>

definition processes_of :: "process_identity list \<Rightarrow> string \<Rightarrow> int \<rightharpoonup> process_identity" where
  "processes_of inventory role =
     map_of (rev (map (\<lambda>p. (pr_ordinal p, p)) (filter (\<lambda>p. pr_role p = role) inventory)))"

definition obligation_met ::
  "process_identity list \<Rightarrow> attestation list \<Rightarrow> evidence_obligation \<Rightarrow> bool" where
  "obligation_met inventory accepted b =
     (let processes = processes_of inventory (ob_role b);
          expected = set (map (\<lambda>n. (ob_role b, n, pr_epoch (the (processes n)))) (ob_required_ordinals b));
          observed = set (map (\<lambda>a. (pr_role (at_process a), pr_ordinal (at_process a), pr_epoch (at_process a)))
            (filter (\<lambda>a. at_obligation_id a = ob_id b \<and> at_event a = ob_event b) accepted))
      in list_all (\<lambda>n. processes n \<noteq> None) (ob_required_ordinals b) \<and> expected = observed)"

definition evidence_complete :: "ref_model \<Rightarrow> plan \<Rightarrow> bool" where
  "evidence_complete m p =
     list_all (obligation_met (rm_inventory m) (rm_accepted m)) (pl_obligations p)"

definition rm_evidence_complete :: "bool rm" where
  "rm_evidence_complete = bind rm_assert_plan (\<lambda>p. gets (\<lambda>m. evidence_complete m p))"

definition rm_commit :: "int \<Rightarrow> int rm" where
  "rm_commit expected_generation =
     andthen (rm_require [Observing])
    (bind rm_assert_plan (\<lambda>p.
     bind (gets rm_generation) (\<lambda>generation.
     andthen (require
       (\<not> (expected_generation \<noteq> generation \<or> ps_generation (pl_predecessor p) \<noteq> generation))
       (ContractError CAS_MISMATCH
         (''expected '' @ int_str expected_generation @ '', current '' @ int_str generation)))
    (bind rm_evidence_complete (\<lambda>complete.
     andthen (require complete
       (ContractError MISSING_PROCESS_EVIDENCE ''all-required-process coverage failed''))
    (andthen (rm_set_state CommitReady)
    (andthen (rm_append ''wal'' (JObj [(''operation'', JStr ''commit''), (''from'', JInt generation)]))
    (andthen (modify (\<lambda>m. m\<lparr>rm_generation := rm_generation m + 1\<rparr>))
    (bind (gets rm_generation) (\<lambda>g.
     andthen (rm_append ''receipt'' (JObj [(''operation'', JStr ''commit''), (''generation'', JInt g)]))
    (andthen (rm_set_state Effective)
    (ret g))))))))))))"

definition rm_rollback :: "string \<Rightarrow> bool \<Rightarrow> unit rm" where
  "rm_rollback reason succeeds =
     bind rm_assert_plan (\<lambda>p.
     andthen (rm_set_state Rollback)
    (andthen (rm_append ''wal'' (JObj [(''operation'', JStr ''rollback''), (''reason'', JStr reason),
       (''predecessor'', predecessor_dict (pl_predecessor p))]))
    (if \<not> succeeds then
       andthen (rm_append ''receipt'' (JObj [(''operation'', JStr ''rollback''), (''success'', JBool False)]))
      (andthen (rm_set_state FailedSafe)
      (raise (ContractError ROLLBACK_FAILED reason)))
     else
       andthen (rm_append ''receipt'' (JObj [(''operation'', JStr ''rollback''), (''conditional'', JBool True)]))
      (rm_set_state RolledBack))))"

definition rm_external_lease_lost :: "unit rm" where
  "rm_external_lease_lost =
     bind rm_assert_plan (\<lambda>p.
     andthen (rm_set_state Degraded)
    (if pl_fallback_proven p then rm_set_state Reconcile
     else rm_rollback ''external lease invalid'' True))"

definition rm_recover_after_crash :: "unit rm" where
  "rm_recover_after_crash =
     andthen (modify (\<lambda>m. m\<lparr>rm_accepted := []\<rparr>))
    (andthen (rm_set_state Reconcile)
    (bind (gets rm_launch_id) (\<lambda>l.
     rm_append ''reobserve-required'' (JObj [(''launch_id'', jopt l)]))))"

subsection \<open>What every method keeps\<close>

lemmas rm_basic_defs = rm_set_state_def rm_append_def rm_require_def rm_assert_plan_def
  rm_evidence_complete_def

lemmas rm_op_defs = rm_resolve_def rm_make_plan_def rm_prepare_def rm_launch_def rm_attest_def
  rm_commit_def rm_rollback_def rm_external_lease_lost_def rm_recover_after_crash_def

text \<open>
  The store only grows at its end, the generation never falls and a used nonce stays used.
\<close>

definition rm_grows :: "ref_model \<Rightarrow> ref_model \<Rightarrow> bool" where
  "rm_grows m n \<longleftrightarrow> prefix (rm_store m) (rm_store n) \<and> rm_generation m \<le> rm_generation n
     \<and> rm_nonces m \<subseteq> rm_nonces n"

interpretation rm_growth: evolution rm_grows
  by unfold_locales (auto simp: rm_grows_def)

lemma rm_grows_modify [intro]:
  "within rm_grows (rm_set_state st)"
  "within rm_grows (rm_append k v)"
  "within rm_grows (modify (\<lambda>m. m\<lparr>rm_plan := p\<rparr>))"
  "within rm_grows (modify (\<lambda>m. m\<lparr>rm_launch_id := l\<rparr>))"
  "within rm_grows (modify (\<lambda>m. m\<lparr>rm_inventory := procs\<rparr>))"
  "within rm_grows (modify (\<lambda>m. m\<lparr>rm_accepted := f m\<rparr>))"
  "within rm_grows (modify (\<lambda>m. m\<lparr>rm_nonces := insert n (rm_nonces m)\<rparr>))"
  "within rm_grows (modify (\<lambda>m. m\<lparr>rm_generation := rm_generation m + 1\<rparr>))"
  by (auto simp: rm_basic_defs rm_grows_def store_append_def intro!: rm_growth.modify)

lemma rm_grows_basic [intro]:
  "within rm_grows (rm_require ss)"
  "within rm_grows rm_assert_plan"
  "within rm_grows rm_evidence_complete"
  unfolding rm_require_def rm_assert_plan_def rm_evidence_complete_def
  by (intro rm_growth.rules)+

lemmas rm_growth_rules = rm_growth.rules rm_grows_modify rm_grows_basic

lemma rm_ops_grow:
  "within rm_grows (rm_resolve rs ns)"
  "within rm_grows (rm_make_plan sha ps h cs bs pre fb)"
  "within rm_grows (rm_prepare sha)"
  "within rm_grows (rm_launch l procs)"
  "within rm_grows (rm_attest sha item now)"
  "within rm_grows (rm_commit g)"
  "within rm_grows (rm_rollback reason ok)"
  "within rm_grows rm_external_lease_lost"
  "within rm_grows rm_recover_after_crash"
  unfolding rm_op_defs Let_def by (intro rm_growth_rules)+

subsection \<open>Reachable models\<close>

inductive rm_step :: "(string \<Rightarrow> string) \<Rightarrow> ref_model \<Rightarrow> ref_model \<Rightarrow> bool" for sha where
  resolve: "rm_resolve rs ns m = (r, n) \<Longrightarrow> rm_step sha m n"
| make_plan: "rm_make_plan sha ps h cs bs pre fb m = (r, n) \<Longrightarrow> rm_step sha m n"
| prepare: "rm_prepare sha m = (r, n) \<Longrightarrow> rm_step sha m n"
| launch: "rm_launch l procs m = (r, n) \<Longrightarrow> rm_step sha m n"
| attest: "rm_attest sha item now m = (r, n) \<Longrightarrow> rm_step sha m n"
| commit: "rm_commit g m = (r, n) \<Longrightarrow> rm_step sha m n"
| rollback: "rm_rollback reason ok m = (r, n) \<Longrightarrow> rm_step sha m n"
| external_lease_lost: "rm_external_lease_lost m = (r, n) \<Longrightarrow> rm_step sha m n"
| recover_after_crash: "rm_recover_after_crash m = (r, n) \<Longrightarrow> rm_step sha m n"

inductive rm_reachable :: "(string \<Rightarrow> string) \<Rightarrow> int \<Rightarrow> ref_model \<Rightarrow> bool" for sha g0 where
  init: "rm_reachable sha g0 (rm_init g0)"
| step: "rm_reachable sha g0 m \<Longrightarrow> rm_step sha m n \<Longrightarrow> rm_reachable sha g0 n"

lemma rm_step_grows: "rm_step sha m n \<Longrightarrow> rm_grows m n"
  by (induction rule: rm_step.induct) (rule withinD [OF rm_ops_grow(1)] withinD [OF rm_ops_grow(2)]
      withinD [OF rm_ops_grow(3)] withinD [OF rm_ops_grow(4)] withinD [OF rm_ops_grow(5)]
      withinD [OF rm_ops_grow(6)] withinD [OF rm_ops_grow(7)] withinD [OF rm_ops_grow(8)]
      withinD [OF rm_ops_grow(9)], assumption)+

text \<open>One run of each method: the state it leaves, by outcome.\<close>

lemma rm_resolve_cases:
  "rm_resolve rs ns m = (r, n) \<Longrightarrow>
     n = m \<or> rm_state m = Intent \<and> n = m\<lparr>rm_state := Resolved\<rparr>"
  by (auto simp: rm_op_defs rm_basic_defs py_defs Let_def split: if_splits)

lemma rm_make_plan_cases:
  "rm_make_plan sha ps h cs bs pre fb m = (r, n) \<Longrightarrow>
     n = m \<or> (\<exists>p. rm_state m = Resolved \<and>
       n = m\<lparr>rm_plan := Some p, rm_store :=
         store_append ''plan'' (JObj [(''plan_id'', JStr (plan_id sha p))]) (rm_store m),
         rm_state := Planned\<rparr>)"
  by (auto simp: rm_op_defs rm_basic_defs py_defs Let_def split: if_splits sum.splits)

lemma rm_prepare_cases:
  "rm_prepare sha m = (r, n) \<Longrightarrow>
     n = m \<or> (\<exists>v. rm_state m = Planned \<and>
       n = m\<lparr>rm_store := store_append ''receipt'' v (store_append ''wal'' v (rm_store m)),
         rm_state := Prepared\<rparr>)"
  by (auto simp: rm_op_defs rm_basic_defs py_defs split: if_splits option.splits)

lemma rm_launch_cases:
  "rm_launch l procs m = (r, n) \<Longrightarrow>
     n = m \<or> (\<exists>v. rm_state m = Prepared \<and>
       n = m\<lparr>rm_launch_id := Some l, rm_inventory := procs, rm_store :=
         store_append ''receipt'' v (store_append ''wal'' v (rm_store m)), rm_state := Observing\<rparr>)"
  by (auto simp: rm_op_defs rm_basic_defs py_defs split: if_splits option.splits)

text \<open>What the model has checked of an attestation it takes.\<close>

definition attest_ok ::
  "(string \<Rightarrow> string) \<Rightarrow> plan \<Rightarrow> string option \<Rightarrow> process_identity list \<Rightarrow> attestation \<Rightarrow> bool" where
  "attest_ok sha p launch_id inventory a \<longleftrightarrow>
     at_authority a = ''host-runtime'' \<and> at_plan_id a = plan_id sha p \<and>
     at_artifact_id a \<in> plugin_id sha ` set (pl_plugins p) \<and>
     Some (at_launch_id a) = launch_id \<and> process_key (at_process a) \<in> process_key ` set inventory"

lemma rm_attest_cases:
  "rm_attest sha item now m = (r, n) \<Longrightarrow>
     n = m \<or> (\<exists>p. rm_state m \<in> {Observing, Reconcile} \<and> rm_plan m = Some p \<and>
       attest_ok sha p (rm_launch_id m) (rm_inventory m) item \<and> at_nonce item \<notin> rm_nonces m \<and>
       at_issued_at item \<le> now \<and> now \<le> at_expires_at item \<and> r = Inr () \<and>
       n = m\<lparr>rm_nonces := insert (at_nonce item) (rm_nonces m), rm_accepted := rm_accepted m @ [item],
         rm_store := store_append ''attestation'' (attestation_dict item) (rm_store m)\<rparr>)"
  by (auto simp: rm_op_defs rm_basic_defs py_defs attest_ok_def not_less
      split: if_splits option.splits)

definition commit_ok :: "int \<Rightarrow> ref_model \<Rightarrow> plan \<Rightarrow> bool" where
  "commit_ok g m p \<longleftrightarrow> rm_state m = Observing \<and> rm_plan m = Some p \<and> g = rm_generation m \<and>
     ps_generation (pl_predecessor p) = g \<and> evidence_complete m p"

definition committed :: "ref_model \<Rightarrow> ref_model" where
  "committed m = m\<lparr>rm_generation := rm_generation m + 1, rm_store :=
     store_append ''receipt''
       (JObj [(''operation'', JStr ''commit''), (''generation'', JInt (rm_generation m + 1))])
       (store_append ''wal''
         (JObj [(''operation'', JStr ''commit''), (''from'', JInt (rm_generation m))]) (rm_store m)),
     rm_state := Effective\<rparr>"

lemma rm_commit_ok: "commit_ok g m p \<Longrightarrow> rm_commit g m = (Inr (g + 1), committed m)"
  by (auto simp: rm_op_defs rm_basic_defs py_defs commit_ok_def committed_def evidence_complete_def)

lemma rm_commit_fails:
  "\<nexists>p. commit_ok g m p \<Longrightarrow> \<exists>e. rm_commit g m = (Inl e, m)"
  by (auto simp: rm_op_defs rm_basic_defs py_defs commit_ok_def split: option.splits)

lemma rm_commit_cases:
  "rm_commit g m = (r, n) \<Longrightarrow>
     n = m \<or> (\<exists>p. commit_ok g m p \<and> r = Inr (g + 1) \<and> n = committed m)"
  using rm_commit_ok rm_commit_fails [of g m] by (cases "\<exists>p. commit_ok g m p") auto

lemma rm_rollback_cases:
  "rm_rollback reason ok m = (r, n) \<Longrightarrow>
     n = m \<or> (\<exists>v w. n = m\<lparr>rm_store :=
       store_append ''receipt'' v (store_append ''wal'' w (rm_store m)),
       rm_state := (if ok then RolledBack else FailedSafe)\<rparr>)"
  by (auto simp: rm_op_defs rm_basic_defs py_defs split: if_splits option.splits)

lemma rm_external_lease_lost_cases:
  "rm_external_lease_lost m = (r, n) \<Longrightarrow>
     n = m \<or> n = m\<lparr>rm_state := Reconcile\<rparr> \<or>
     (\<exists>v w. n = m\<lparr>rm_store :=
       store_append ''receipt'' v (store_append ''wal'' w (rm_store m)), rm_state := RolledBack\<rparr>)"
  by (auto simp: rm_op_defs rm_basic_defs py_defs split: if_splits option.splits)

lemma rm_recover_after_crash_eq:
  "rm_recover_after_crash m = (r, n) \<Longrightarrow>
     n = m\<lparr>rm_accepted := [], rm_state := Reconcile, rm_store :=
       store_append ''reobserve-required'' (JObj [(''launch_id'', jopt (rm_launch_id m))]) (rm_store m)\<rparr>"
  by (auto simp: rm_op_defs rm_basic_defs py_defs)

lemmas rm_cases = rm_resolve_cases rm_make_plan_cases rm_prepare_cases rm_launch_cases
  rm_attest_cases rm_commit_cases rm_rollback_cases rm_external_lease_lost_cases
  rm_recover_after_crash_eq

subsection \<open>The invariant of a run\<close>

text \<open>The nonces of the attestations in the store, oldest first.\<close>

definition payload_nonce :: "json \<Rightarrow> string list" where
  "payload_nonce v =
     (case v of JObj kvs \<Rightarrow> (case map_of kvs ''nonce'' of Some (JStr n) \<Rightarrow> [n] | _ \<Rightarrow> []) | _ \<Rightarrow> [])"

definition attested_nonces :: "store_record list \<Rightarrow> string list" where
  "attested_nonces rs = concat (map (\<lambda>r. if sr_kind r = ''attestation'' then payload_nonce (sr_payload r) else []) rs)"

definition numbered :: "store_record list \<Rightarrow> bool" where
  "numbered rs \<longleftrightarrow> map sr_sequence rs = map int [0..<length rs]"

lemma numbered_append [simp]: "numbered rs \<Longrightarrow> numbered (store_append k v rs)"
  by (simp add: numbered_def store_append_def)

lemma attested_nonces_append [simp]:
  "attested_nonces (store_append ''attestation'' (attestation_dict a) rs) = attested_nonces rs @ [at_nonce a]"
  "k \<noteq> ''attestation'' \<Longrightarrow> attested_nonces (store_append k v rs) = attested_nonces rs"
  by (simp_all add: attested_nonces_def store_append_def payload_nonce_def attestation_dict_def)

definition before_launch :: "state set" where
  "before_launch = {Intent, Resolved, Planned, Preparing, Prepared}"

definition after_reconcile :: "state set" where
  "after_reconcile = {Reconcile, RolledBack, FailedSafe}"

text \<open>
  Before the launch nothing is accepted.  What is accepted was checked against the plan, launch
  and inventory the model still has.  An effective model still has its complete evidence.  The
  generation moves once, and only a model that is effective or past it has moved it.
\<close>

definition rm_inv :: "(string \<Rightarrow> string) \<Rightarrow> int \<Rightarrow> ref_model \<Rightarrow> bool" where
  "rm_inv sha g0 m \<longleftrightarrow>
     numbered (rm_store m) \<and>
     distinct (attested_nonces (rm_store m)) \<and> set (attested_nonces (rm_store m)) = rm_nonces m \<and>
     rm_state m \<in> before_launch \<union> {Observing, Effective} \<union> after_reconcile \<and>
     (rm_state m \<in> before_launch \<longrightarrow> rm_accepted m = []) \<and>
     (\<forall>a \<in> set (rm_accepted m). \<exists>p. rm_plan m = Some p \<and>
        attest_ok sha p (rm_launch_id m) (rm_inventory m) a) \<and>
     (rm_state m = Effective \<longrightarrow> (\<exists>p. rm_plan m = Some p \<and> evidence_complete m p)) \<and>
     (rm_state m = Effective \<longrightarrow> rm_generation m = g0 + 1) \<and>
     (rm_state m \<in> before_launch \<union> {Observing} \<longrightarrow> rm_generation m = g0) \<and>
     rm_generation m \<in> {g0, g0 + 1}"

lemma rm_inv_init: "rm_inv sha g0 (rm_init g0)"
  by (simp add: rm_inv_def rm_init_def numbered_def attested_nonces_def before_launch_def)

lemmas rm_inv_simps = rm_inv_def before_launch_def after_reconcile_def evidence_complete_def

lemma rm_inv_step:
  assumes "rm_step sha m n" and inv: "rm_inv sha g0 m"
  shows "rm_inv sha g0 n"
  using assms(1)
proof cases
  case resolve
  from rm_resolve_cases [OF this] inv show ?thesis
    by (elim disjE conjE) (simp_all add: rm_inv_simps)
next
  case make_plan
  from rm_make_plan_cases [OF this] inv show ?thesis
    by (elim disjE exE conjE) (simp_all add: rm_inv_simps)
next
  case prepare
  from rm_prepare_cases [OF this] inv show ?thesis
    by (elim disjE exE conjE) (simp_all add: rm_inv_simps)
next
  case launch
  from rm_launch_cases [OF this] inv show ?thesis
    by (elim disjE exE conjE) (simp_all add: rm_inv_simps)
next
  case attest
  from rm_attest_cases [OF this] inv show ?thesis
    by (elim disjE exE conjE insertE emptyE) (simp_all add: rm_inv_simps)
next
  case commit
  from rm_commit_cases [OF this] inv show ?thesis
    by (elim disjE exE conjE) (simp_all add: rm_inv_simps commit_ok_def committed_def)
next
  case rollback
  from rm_rollback_cases [OF this] inv show ?thesis
    by (elim disjE exE conjE) (simp_all add: rm_inv_simps)
next
  case external_lease_lost
  from rm_external_lease_lost_cases [OF this] inv show ?thesis
    by (elim disjE exE conjE) (simp_all add: rm_inv_simps)
next
  case recover_after_crash
  from rm_recover_after_crash_eq [OF this] inv show ?thesis
    by (simp add: rm_inv_simps)
qed

lemma rm_reachable_inv: "rm_reachable sha g0 m \<Longrightarrow> rm_inv sha g0 m"
  by (induction rule: rm_reachable.induct) (auto intro: rm_inv_init rm_inv_step)

lemma rm_step_after_reconcile:
  assumes "rm_step sha m n" and "rm_state m \<in> after_reconcile"
  shows "rm_state n \<in> after_reconcile"
  using assms
  by cases (auto dest!: rm_cases simp: after_reconcile_def commit_ok_def split: if_splits)

text \<open>An obligation that is met has an accepted attestation from every process it requires.\<close>

lemma obligation_met_attested:
  assumes "obligation_met procs acc b" and "n \<in> set (ob_required_ordinals b)"
  obtains a p where "a \<in> set acc" and "at_obligation_id a = ob_id b" and "at_event a = ob_event b"
    and "processes_of procs (ob_role b) n = Some p" and "pr_role (at_process a) = ob_role b"
    and "pr_ordinal (at_process a) = n" and "pr_epoch (at_process a) = pr_epoch p"
proof -
  let ?ps = "processes_of procs (ob_role b)"
  from assms obtain p where p: "?ps n = Some p"
    by (auto simp: obligation_met_def Let_def list_all_iff)
  have "(ob_role b, n, pr_epoch (the (?ps n))) \<in>
      set (map (\<lambda>n. (ob_role b, n, pr_epoch (the (?ps n)))) (ob_required_ordinals b))"
    using assms(2) by simp
  with assms(1) p have "(ob_role b, n, pr_epoch p) \<in>
      set (map (\<lambda>a. (pr_role (at_process a), pr_ordinal (at_process a), pr_epoch (at_process a)))
        (filter (\<lambda>a. at_obligation_id a = ob_id b \<and> at_event a = ob_event b) acc))"
    by (simp add: obligation_met_def Let_def)
  with p that show ?thesis by auto
qed

lemma processes_of_Some:
  "processes_of procs role n = Some p \<Longrightarrow> p \<in> set procs \<and> pr_role p = role \<and> pr_ordinal p = n"
  by (auto simp: processes_of_def dest!: map_of_SomeD)

subsection \<open>Claims of \<open>make_plan\<close>\<close>

text \<open>The claim that \<open>normalized\<close> holds for a URI after a list of claims: the last one.\<close>

definition latest_claim :: "string \<Rightarrow> resource_claim list \<Rightarrow> resource_claim option" where
  "latest_claim u cs = map_of (rev (map (\<lambda>c. (rc_uri c, c)) cs)) u"

lemma latest_claim_snoc: "latest_claim u (cs @ [c]) = (if rc_uri c = u then Some c else latest_claim u cs)"
  by (simp add: latest_claim_def)

lemma canonical_uri_Inr: "canonical_uri v k = Inr u \<Longrightarrow> u = v"
  by (simp add: canonical_uri_def Let_def split: if_splits)

definition claim_admitted :: "resource_claim list \<Rightarrow> resource_claim \<Rightarrow> bool" where
  "claim_admitted earlier c \<longleftrightarrow>
     canonical_uri (rc_uri c) ''resource'' = Inr (rc_uri c) \<and>
     (\<forall>prior. latest_claim (rc_uri c) earlier = Some prior \<longrightarrow> \<not> claim_conflict prior c)"

lemma normalize_claim_iff:
  assumes "\<And>u. map_of d u = latest_claim u earlier"
  shows "normalize_claim d c = Inr d' \<longleftrightarrow> claim_admitted earlier c \<and> d' = dict_set (rc_uri c) c d"
  using assms
  by (auto simp: normalize_claim_def claim_admitted_def ebind_Inr_iff split: option.splits
      dest: canonical_uri_Inr)

lemma normalize_claims_iff:
  assumes "\<And>u. map_of d u = latest_claim u earlier"
  shows "normalize_claims d cs = Inr d' \<longleftrightarrow>
    (\<forall>i < length cs. claim_admitted (earlier @ take i cs) (cs ! i)) \<and>
    d' = fold (\<lambda>c. dict_set (rc_uri c) c) cs d"
  using assms
proof (induction cs arbitrary: d earlier)
  case Nil
  then show ?case by auto
next
  case (Cons c cs)
  have step: "map_of (dict_set (rc_uri c) c d) u = latest_claim u (earlier @ [c])" for u
    using Cons.prems by (simp add: latest_claim_snoc)
  have "normalize_claims d (c # cs) = Inr d' \<longleftrightarrow>
      claim_admitted earlier c \<and> normalize_claims (dict_set (rc_uri c) c d) cs = Inr d'"
    by (auto simp: ebind_Inr_iff normalize_claim_iff [OF Cons.prems])
  also have "\<dots> \<longleftrightarrow> claim_admitted earlier c \<and>
      (\<forall>i < length cs. claim_admitted (earlier @ take (Suc i) (c # cs)) ((c # cs) ! Suc i)) \<and>
      d' = fold (\<lambda>c. dict_set (rc_uri c) c) (c # cs) d"
    using Cons.IH [OF step] by simp
  also have "\<dots> \<longleftrightarrow> (\<forall>i < length (c # cs). claim_admitted (earlier @ take i (c # cs)) ((c # cs) ! i)) \<and>
      d' = fold (\<lambda>c. dict_set (rc_uri c) c) (c # cs) d"
    by (simp add: All_less_Suc2)
  finally show ?case .
qed

lemma distinct_fold_dict_set:
  "distinct (map fst d) \<Longrightarrow> distinct (map fst (fold (\<lambda>c. dict_set (rc_uri c) c) cs d))"
  by (induction cs arbitrary: d) (simp_all add: distinct_dict_set)

lemma map_of_fold_dict_set:
  "map_of (fold (\<lambda>c. dict_set (rc_uri c) c) cs []) u = latest_claim u cs"
  by (induction cs rule: rev_induct) (simp_all add: latest_claim_def)

subsection \<open>Properties\<close>

text \<open>
  \<open>ReferenceModel.commit\<close> returns exactly when the model is observing a plan whose predecessor is
  the current and the expected generation and every obligation has its evidence; it then returns
  the next generation, is effective and has logged intent and receipt.  In every other case it
  raises and leaves the model as it was.
\<close>

theorem reference_commit:
  "(\<exists>p. commit_ok g m p) \<and> rm_commit g m = (Inr (g + 1), committed m)
   \<or> (\<nexists>p. commit_ok g m p) \<and> (\<exists>e. rm_commit g m = (Inl e, m))"
  using rm_commit_ok rm_commit_fails by blast

text \<open>
  No evidence amplification: when a model reached by any sequence of calls is effective, its
  generation has moved by exactly one, and for every obligation of its plan and every required
  ordinal it has accepted an attestation of that obligation's event, issued under host authority
  for this plan, launch and artifact set, from the process of that role, ordinal and epoch in the
  inventory.
\<close>

theorem reference_effective_has_evidence:
  assumes "rm_reachable sha g0 m" and "rm_state m = Effective"
  shows "rm_generation m = g0 + 1 \<and>
    (\<exists>p. rm_plan m = Some p \<and>
      (\<forall>b \<in> set (pl_obligations p). \<forall>n \<in> set (ob_required_ordinals b).
        \<exists>a \<in> set (rm_accepted m). \<exists>q \<in> set (rm_inventory m).
          attest_ok sha p (rm_launch_id m) (rm_inventory m) a \<and>
          at_obligation_id a = ob_id b \<and> at_event a = ob_event b \<and>
          pr_role q = ob_role b \<and> pr_ordinal q = n \<and>
          pr_role (at_process a) = ob_role b \<and> pr_ordinal (at_process a) = n \<and>
          pr_epoch (at_process a) = pr_epoch q))"
proof -
  from assms(1) have inv: "rm_inv sha g0 m" by (rule rm_reachable_inv)
  with assms(2) obtain p where p: "rm_plan m = Some p" and c: "evidence_complete m p"
    and g: "rm_generation m = g0 + 1"
    by (auto simp: rm_inv_def)
  from inv p have ok: "\<forall>a \<in> set (rm_accepted m). attest_ok sha p (rm_launch_id m) (rm_inventory m) a"
    by (auto simp: rm_inv_def)
  have "\<exists>a \<in> set (rm_accepted m). \<exists>q \<in> set (rm_inventory m).
      attest_ok sha p (rm_launch_id m) (rm_inventory m) a \<and>
      at_obligation_id a = ob_id b \<and> at_event a = ob_event b \<and>
      pr_role q = ob_role b \<and> pr_ordinal q = n \<and>
      pr_role (at_process a) = ob_role b \<and> pr_ordinal (at_process a) = n \<and>
      pr_epoch (at_process a) = pr_epoch q"
    if "b \<in> set (pl_obligations p)" "n \<in> set (ob_required_ordinals b)" for b n
  proof -
    have "obligation_met (rm_inventory m) (rm_accepted m) b"
      using c that(1) by (auto simp: evidence_complete_def list_all_iff)
    from this that(2) show ?thesis
      by (rule obligation_met_attested) (use ok processes_of_Some in fastforce)
  qed
  with p g show ?thesis by blast
qed

text \<open>
  Replay protection lasts across crashes: in every reachable model the nonces of all
  attestations ever logged are pairwise different, the model rejects each of them, and
  the log is numbered without gaps.
\<close>

theorem reference_nonce_used_once:
  assumes "rm_reachable sha g0 m"
  shows "distinct (attested_nonces (rm_store m)) \<and> numbered (rm_store m) \<and>
    (at_nonce item \<in> set (attested_nonces (rm_store m)) \<longrightarrow> rm_attest sha item now m \<noteq> (Inr (), n))"
proof -
  from assms have inv: "rm_inv sha g0 m" by (rule rm_reachable_inv)
  have "rm_attest sha item now m \<noteq> (Inr (), n)" if "at_nonce item \<in> rm_nonces m"
    using that by (auto simp: rm_attest_def rm_basic_defs py_defs split: option.splits)
  with inv show ?thesis by (simp add: rm_inv_def)
qed

text \<open>
  Reconciliation is final in the reference model: from \<open>Reconcile\<close> (entered by
  \<open>recover_after_crash\<close> or a lost lease with a proven fallback) no sequence of calls makes the model
  observing or effective again, although attestations are still accepted.
\<close>

theorem reference_reconcile_never_effective:
  assumes "(rm_step sha)\<^sup>*\<^sup>* m n" and "rm_state m = Reconcile"
  shows "rm_state n \<in> {Reconcile, RolledBack, FailedSafe}"
proof -
  from assms(2) have "rm_state m \<in> after_reconcile" by (simp add: after_reconcile_def)
  with assms(1) have "rm_state n \<in> after_reconcile"
    by (induction rule: rtranclp_induct) (auto intro: rm_step_after_reconcile)
  then show ?thesis by (simp add: after_reconcile_def)
qed

text \<open>
  What \<open>make_plan\<close> checks of its claims: it succeeds exactly when every claim has a canonical
  resource URI and does not conflict with the latest earlier claim on the same URI, and the plan
  then holds one claim per URI, the last one given.
\<close>

theorem make_plan_claims:
  "normalize_claims [] cs = Inr d \<longleftrightarrow>
     (\<forall>i < length cs. claim_admitted (take i cs) (cs ! i)) \<and>
     d = fold (\<lambda>c. dict_set (rc_uri c) c) cs [] \<and>
     distinct (map fst d) \<and> (\<forall>u. map_of d u = latest_claim u cs)"
  using normalize_claims_iff [of "[]" "[]" cs d]
  by (auto simp: latest_claim_def [of _ "[]"] distinct_fold_dict_set map_of_fold_dict_set)

text \<open>
  The check is too weak: an owner's own weaker claim replaces its exclusive claim, so that
  another owner's claim on the same resource is then accepted, although it conflicts with the
  exclusive claim.
\<close>

theorem make_plan_misses_exclusive_claim:
  "let u = ''urn:ecpa:resource:gpu'';
       a1 = \<lparr>rc_uri = u, rc_owner = ''a'', rc_mode = ''exclusive''\<rparr>;
       a2 = \<lparr>rc_uri = u, rc_owner = ''a'', rc_mode = ''shared-read''\<rparr>;
       b = \<lparr>rc_uri = u, rc_owner = ''b'', rc_mode = ''shared-read''\<rparr>
   in claim_conflict a1 b \<and> normalize_claims [] [a1, a2, b] = Inr [(u, b)] \<and>
      (\<exists>e. normalize_claims [] [a1, b] = Inl e)"
  by (simp add: claim_conflict_def normalize_claim_def canonical_uri_def py_lower_def lower_char_def
      code_def)

subsection \<open>A run that becomes effective\<close>

definition ex_sha :: "string \<Rightarrow> string" where
  "ex_sha b = ''00''"

definition ex_hash :: string where
  "ex_hash = replicate 64 (CHR ''0'')"

definition ex_plugin :: plugin_identity where
  "ex_plugin = \<lparr>pi_namespace = ''org'', pi_name = ''kv'', pi_version = ''1.0'', pi_artifact_sha256 = ex_hash\<rparr>"

definition ex_process :: process_identity where
  "ex_process = \<lparr>pr_host = ''h'', pr_role = ''worker'', pr_ordinal = 0, pr_start_id = ''s1'', pr_epoch = 1\<rparr>"

definition ex_obligation :: evidence_obligation where
  "ex_obligation = \<lparr>ob_id = ''ob'', ob_role = ''worker'', ob_event = ''loaded'', ob_required_ordinals = [0]\<rparr>"

definition ex_predecessor :: predecessor_snapshot where
  "ex_predecessor = \<lparr>ps_generation = 0, ps_plan_id = None, ps_rendered_inputs = []\<rparr>"

definition ex_host :: host_compatibility where
  "ex_host = \<lparr>hc_runtime = ''vllm'', hc_version = ''1'', hc_provider = ''p'', hc_abi = ''x''\<rparr>"

definition ex_plan :: plan where
  "ex_plan = \<lparr>pl_plugins = [ex_plugin], pl_host = ex_host, pl_claims = [],
     pl_obligations = [ex_obligation], pl_predecessor = ex_predecessor, pl_fallback_proven = False\<rparr>"

definition ex_attestation :: attestation where
  "ex_attestation = \<lparr>at_plan_id = ''plan:sha256:00'', at_launch_id = ''l1'', at_process = ex_process,
     at_obligation_id = ''ob'', at_event = ''loaded'', at_nonce = ''n1'', at_issued_at = 5,
     at_expires_at = 65, at_artifact_id = ''plugin:sha256:00'', at_authority = ''host-runtime'',
     at_issuer = ''host'', at_kid = ''k1'', at_observed_at = 0, at_evidence_digest = ''sha256:'' @ ex_hash,
     at_artifact_digest = ''sha256:'' @ ex_hash\<rparr>"

definition ex_planned :: ref_model where
  "ex_planned = (rm_init 0)\<lparr>rm_state := Planned, rm_plan := Some ex_plan,
     rm_store := store_append ''plan'' (JObj [(''plan_id'', JStr ''plan:sha256:00'')]) []\<rparr>"

definition ex_prepared :: ref_model where
  "ex_prepared = (let v = JObj [(''operation'', JStr ''prepare''), (''plan_id'', JStr ''plan:sha256:00'')]
     in ex_planned\<lparr>rm_state := Prepared,
       rm_store := store_append ''receipt'' v (store_append ''wal'' v (rm_store ex_planned))\<rparr>)"

definition ex_launched :: ref_model where
  "ex_launched = (let v = JObj [(''operation'', JStr ''launch''), (''launch_id'', JStr ''l1'')]
     in ex_prepared\<lparr>rm_state := Observing, rm_launch_id := Some ''l1'', rm_inventory := [ex_process],
       rm_store := store_append ''receipt'' v (store_append ''wal'' v (rm_store ex_prepared))\<rparr>)"

definition ex_observing :: ref_model where
  "ex_observing = ex_launched\<lparr>rm_nonces := {''n1''}, rm_accepted := [ex_attestation],
     rm_store := store_append ''attestation'' (attestation_dict ex_attestation) (rm_store ex_launched)\<rparr>"

lemma ex_ids: "plan_id ex_sha p = ''plan:sha256:00''" "plugin_id ex_sha q = ''plugin:sha256:00''"
  by (simp_all add: plan_id_def plugin_id_def content_id_def ex_sha_def)

lemmas ex_defs = ex_plugin_def ex_process_def ex_obligation_def ex_predecessor_def ex_host_def
  ex_attestation_def ex_ids

lemmas ex_run_defs = rm_op_defs rm_basic_defs py_defs rm_init_def Let_def ex_ids

lemma ex_run:
  "rm_resolve [''org''] ''org'' (rm_init 0) = (Inr (), (rm_init 0)\<lparr>rm_state := Resolved\<rparr>)"
  "rm_make_plan ex_sha [ex_plugin] ex_host [] [ex_obligation] ex_predecessor False
     ((rm_init 0)\<lparr>rm_state := Resolved\<rparr>) = (Inr ex_plan, ex_planned)"
  "rm_prepare ex_sha ex_planned = (Inr (), ex_prepared)"
  "rm_launch ''l1'' [ex_process] ex_prepared = (Inr (), ex_launched)"
  "rm_attest ex_sha ex_attestation 10 ex_launched = (Inr (), ex_observing)"
  subgoal by (simp add: ex_run_defs)
  subgoal by (simp add: ex_run_defs ex_planned_def ex_plan_def)
  subgoal by (simp add: ex_run_defs ex_planned_def ex_prepared_def)
  subgoal by (simp add: ex_run_defs ex_planned_def ex_prepared_def ex_launched_def)
  subgoal
    by (simp add: ex_run_defs ex_planned_def ex_prepared_def ex_launched_def ex_observing_def
        ex_attestation_def ex_plan_def)
  done

lemma ex_observing_reachable: "rm_reachable ex_sha 0 ex_observing"
proof -
  note start = rm_reachable.init [of ex_sha 0]
  note r1 = rm_reachable.step [OF start rm_step.resolve [OF ex_run(1)]]
  note r2 = rm_reachable.step [OF r1 rm_step.make_plan [OF ex_run(2)]]
  note r3 = rm_reachable.step [OF r2 rm_step.prepare [OF ex_run(3)]]
  note r4 = rm_reachable.step [OF r3 rm_step.launch [OF ex_run(4)]]
  show ?thesis by (rule rm_reachable.step [OF r4 rm_step.attest [OF ex_run(5)]])
qed

lemma ex_observing_commit: "commit_ok 0 ex_observing ex_plan"
  by (simp add: ex_observing_def ex_launched_def ex_prepared_def ex_planned_def ex_plan_def ex_defs
      commit_ok_def rm_init_def evidence_complete_def obligation_met_def processes_of_def Let_def)

theorem reference_effective_has_evidence_witness:
  "rm_reachable ex_sha 0 (committed ex_observing) \<and> rm_state (committed ex_observing) = Effective \<and>
   rm_generation (committed ex_observing) = 1 \<and> rm_plan (committed ex_observing) = Some ex_plan"
proof -
  have r: "rm_reachable ex_sha 0 (committed ex_observing)"
    using ex_observing_reachable rm_step.commit [OF rm_commit_ok [OF ex_observing_commit]]
    by (rule rm_reachable.step)
  moreover have e: "rm_state (committed ex_observing) = Effective"
    by (simp add: committed_def)
  moreover from reference_effective_has_evidence [OF r e]
  have "rm_generation (committed ex_observing) = 1" by simp
  moreover have "rm_plan (committed ex_observing) = Some ex_plan"
    using ex_observing_commit by (simp add: committed_def commit_ok_def)
  ultimately show ?thesis by simp
qed

theorem reference_nonce_used_once_witness:
  "rm_reachable ex_sha 0 ex_observing \<and>
   at_nonce ex_attestation \<in> set (attested_nonces (rm_store ex_observing)) \<and>
   rm_attest ex_sha ex_attestation 10 ex_observing \<noteq> (Inr (), ex_observing)"
proof -
  have "at_nonce ex_attestation \<in> set (attested_nonces (rm_store ex_observing))"
    by (simp add: ex_observing_def)
  with reference_nonce_used_once [OF ex_observing_reachable, of ex_attestation 10 ex_observing]
  show ?thesis using ex_observing_reachable by simp
qed

theorem reference_reconcile_never_effective_witness:
  "rm_state (snd (rm_recover_after_crash (rm_init 0))) = Reconcile \<and>
   rm_state (snd (rm_recover_after_crash (rm_init 0))) \<in> {Reconcile, RolledBack, FailedSafe}"
proof -
  have r: "rm_state (snd (rm_recover_after_crash (rm_init 0))) = Reconcile"
    by (simp add: rm_recover_after_crash_def rm_basic_defs py_defs)
  with reference_reconcile_never_effective [of ex_sha, OF rtranclp.rtrancl_refl r]
  show ?thesis by simp
qed

theorem make_plan_claims_witness:
  "let c = \<lparr>rc_uri = ''urn:ecpa:resource:gpu'', rc_owner = ''a'', rc_mode = ''exclusive''\<rparr>
   in normalize_claims [] [c] = Inr [(rc_uri c, c)] \<and> claim_admitted [] c"
proof -
  let ?c = "\<lparr>rc_uri = ''urn:ecpa:resource:gpu'', rc_owner = ''a'', rc_mode = ''exclusive''\<rparr>"
  have "normalize_claims [] [?c] = Inr [(rc_uri ?c, ?c)]"
    by (simp add: normalize_claim_def canonical_uri_def py_lower_def lower_char_def code_def)
  with make_plan_claims [of "[?c]" "[(rc_uri ?c, ?c)]"] show ?thesis by (simp add: Let_def)
qed

end
