(* ===== verification/Gate_Base.thy ===== *)
theory Gate_Base
  imports ECPA_Model
begin

section \<open>The exposure gate: data, traffic authority, database (\<^verbatim>\<open>exposure_gate.py\<close>)\<close>

text \<open>
  \<open>ReferenceExposureGate\<close>: the durable gate that decides which generation of a deployment may take
  traffic.  Its SQLite database is the record \<open>gate_db\<close> (the singleton row of \<open>gate_state\<close>, the
  append-only tables \<open>gate_transition\<close>, \<open>admission\<close>, \<open>admission_event\<close>), a method is a computation
  over \<open>'e gate\<close>, and \<open>with self.connection as db:\<close> is \<open>gate_txn\<close>.  JSON columns hold the bytes
  that \<open>_json\<close> writes.  Rows are never deleted, so the autoincrement key of a new row is one
  more than the number of rows.  The traffic authority is behind the protocol
  \<open>TrafficAuthorityAdapter\<close>: a record \<open>'e adapter\<close> of its methods over a state \<open>'e\<close> of its own, an
  argument of every gate method; \<open>DeterministicTrafficAdapter\<close> is the instance \<open>det_adapter\<close>.
  The clock is a function from the number of calls made to it to the time it returns.
  A number that the code converts by \<open>int()\<close> is a JSON number here, and a snapshot that it copies by
  \<open>dict()\<close> a JSON object; any other value raises \<open>TypeError\<close>.
\<close>

subsection \<open>Data\<close>

datatype gate_state =
    PREDECESSOR_OPEN | CANDIDATE_STAGED | CANDIDATE_CLOSED | OPENING | CANDIDATE_OPEN | DRAINING
  | ROLLED_BACK | FAILED_SAFE | SAFETY_UNKNOWN

fun gate_state_value :: "gate_state \<Rightarrow> string" where
  "gate_state_value PREDECESSOR_OPEN = ''PREDECESSOR_OPEN''"
| "gate_state_value CANDIDATE_STAGED = ''CANDIDATE_STAGED''"
| "gate_state_value CANDIDATE_CLOSED = ''CANDIDATE_CLOSED''"
| "gate_state_value OPENING = ''OPENING''"
| "gate_state_value CANDIDATE_OPEN = ''CANDIDATE_OPEN''"
| "gate_state_value DRAINING = ''DRAINING''"
| "gate_state_value ROLLED_BACK = ''ROLLED_BACK''"
| "gate_state_value FAILED_SAFE = ''FAILED_SAFE''"
| "gate_state_value SAFETY_UNKNOWN = ''SAFETY_UNKNOWN''"

datatype rollback_class = RC_RESTORED_STRONG | RC_BEHAVIORAL | RC_FAILED_SAFE | RC_SAFETY_UNKNOWN

fun rollback_class_value :: "rollback_class \<Rightarrow> string" where
  "rollback_class_value RC_RESTORED_STRONG = ''RESTORED_STRONG''"
| "rollback_class_value RC_BEHAVIORAL = ''BEHAVIORAL''"
| "rollback_class_value RC_FAILED_SAFE = ''FAILED_SAFE''"
| "rollback_class_value RC_SAFETY_UNKNOWN = ''SAFETY_UNKNOWN''"

record admission_request =
  rq_request_id :: string
  rq_admitted_at :: int

record admission_result =
  rs_finished_at :: int
  rs_result :: "string option"
  rs_abort :: "string option"

record route_state =
  rt_generation :: "int option"
  rt_fence :: string
  rt_snapshot :: json

record lease_grant =
  lg_holder :: string
  lg_fencing_token :: int
  lg_expires_at :: int

record open_proof =
  op_plan_id :: string
  op_generation :: int
  op_evidence_count :: int
  op_evidence_digest :: string
  op_coverage_digest :: string
  op_lease :: lease_grant
  op_candidate_digest :: string

record behavioral_oracle =
  bo_equivalent :: bool
  bo_observations_digest :: string
  bo_oracle :: string

record fail_close_result =
  fc_classification :: rollback_class
  fc_actual_route :: "route_state option"
  fc_error :: "string option"

definition jint_opt :: "int option \<Rightarrow> json" where
  "jint_opt x = (case x of None \<Rightarrow> JNull | Some i \<Rightarrow> JInt i)"

definition route_dict :: "route_state \<Rightarrow> json" where
  "route_dict r = JObj [(''generation'', jint_opt (rt_generation r)), (''fence'', JStr (rt_fence r)),
     (''snapshot'', rt_snapshot r)]"

definition route_opt_dict :: "route_state option \<Rightarrow> json" where
  "route_opt_dict r = (case r of None \<Rightarrow> JNull | Some x \<Rightarrow> route_dict x)"

definition lease_dict :: "lease_grant \<Rightarrow> json" where
  "lease_dict l = JObj [(''holder'', JStr (lg_holder l)), (''fencing_token'', JInt (lg_fencing_token l)),
     (''expires_at'', JInt (lg_expires_at l))]"

definition proof_fields :: "open_proof \<Rightarrow> (string \<times> json) list" where
  "proof_fields p = [(''plan_id'', JStr (op_plan_id p)), (''generation'', JInt (op_generation p)),
     (''evidence_count'', JInt (op_evidence_count p)),
     (''evidence_digest'', JStr (op_evidence_digest p)),
     (''coverage_digest'', JStr (op_coverage_digest p)), (''lease'', lease_dict (op_lease p)),
     (''candidate_digest'', JStr (op_candidate_digest p))]"

definition oracle_dict :: "behavioral_oracle option \<Rightarrow> json" where
  "oracle_dict b = (case b of None \<Rightarrow> JNull
     | Some x \<Rightarrow> JObj [(''equivalent'', JBool (bo_equivalent x)),
         (''observations_digest'', JStr (bo_observations_digest x)), (''oracle'', JStr (bo_oracle x))])"

text \<open>\<open>_json\<close> and \<open>_digest\<close>.\<close>

definition gate_json :: "json \<Rightarrow> string" where
  "gate_json v = utf8_encode (json_dumps True v)"

definition gate_digest :: "(string \<Rightarrow> string) \<Rightarrow> json \<Rightarrow> string" where
  "gate_digest sha v = ''sha256:'' @ sha (gate_json v)"

definition proof_digest :: "(string \<Rightarrow> string) \<Rightarrow> open_proof \<Rightarrow> string" where
  "proof_digest sha p = gate_digest sha (JObj (proof_fields p))"

text \<open>\<open>sha256:[0-9a-f]{64}\Z\<close>, matched in full.\<close>

definition is_sha256 :: "string \<Rightarrow> bool" where
  "is_sha256 s \<longleftrightarrow> prefix ''sha256:'' s \<and> length s = 71 \<and>
     list_all (\<lambda>c. 48 \<le> code c \<and> code c \<le> 57 \<or> 97 \<le> code c \<and> code c \<le> 102) (drop 7 s)"

text \<open>
  Python's \<open>==\<close> on JSON values: dicts as sets of pairs, and \<open>True == 1\<close>, \<open>False == 0\<close>.
\<close>

fun eq_norm :: "json \<Rightarrow> json" where
  "eq_norm (JArr vs) = JArr (map eq_norm vs)"
| "eq_norm (JObj kvs) = JObj (sort_key fst (map (\<lambda>kv. (fst kv, eq_norm (snd kv))) kvs))"
| "eq_norm (JBool b) = JInt (if b then 1 else 0)"
| "eq_norm v = v"

definition py_eq :: "json \<Rightarrow> json \<Rightarrow> bool" where
  "py_eq v w \<longleftrightarrow> eq_norm v = eq_norm w"

lemma py_eq_refl [simp]: "py_eq v v"
  by (simp add: py_eq_def)

lemma py_eq_sym: "py_eq v w \<longleftrightarrow> py_eq w v"
  by (auto simp: py_eq_def)

lemma eq_norm_jsort: "json_wf v \<Longrightarrow> eq_norm (jsort v) = eq_norm v"
proof (induction v)
  case (JArr vs)
  then show ?case by (simp add: list_all_iff)
next
  case (JObj kvs)
  let ?g = "\<lambda>kv. (fst kv, eq_norm (snd kv))"
  have "map ?g (map (\<lambda>kv. (fst kv, jsort (snd kv))) kvs) = map ?g kvs" using JObj by (auto simp: list_all_iff)
  moreover have "mset (map ?g (sorted_pairs kvs)) = mset (map ?g (map (\<lambda>kv. (fst kv, jsort (snd kv))) kvs))"
    unfolding sorted_pairs_def mset_map mset_sort ..
  ultimately have "mset (map ?g (sorted_pairs kvs)) = mset (map ?g kvs)" by metis
  moreover have "inj_on fst (set (map ?g (sorted_pairs kvs)))"
  proof -
    have "distinct (map fst (map ?g (sorted_pairs kvs)))" using JObj.prems by (simp add: comp_def)
    then show ?thesis unfolding distinct_map by simp
  qed
  ultimately have "sort_key fst (map ?g (sorted_pairs kvs)) = sort_key fst (map ?g kvs)" by (rule sort_key_perm_unique)
  then show ?case unfolding jsort_JObj eq_norm.simps by (rule arg_cong)
qed simp_all

text \<open>\<open>value["key"]\<close>\<close>

definition json_item :: "string \<Rightarrow> json \<Rightarrow> py_exn + json" where
  "json_item k v =
     (case v of
        JObj kvs \<Rightarrow> (case map_of kvs k of None \<Rightarrow> Inl (KeyError k) | Some x \<Rightarrow> Inr x)
      | _ \<Rightarrow> Inl (TypeError ''not subscriptable by a string''))"

text \<open>\<open>d.get(key)\<close>\<close>

definition json_get :: "string \<Rightarrow> json \<Rightarrow> py_exn + json" where
  "json_get k v = (case v of JObj kvs \<Rightarrow> Inr (case map_of kvs k of None \<Rightarrow> JNull | Some x \<Rightarrow> x)
     | _ \<Rightarrow> Inl (AttributeError ''get''))"

definition json_int :: "json \<Rightarrow> py_exn + int" where
  "json_int v = (case v of JInt i \<Rightarrow> Inr i | JBool b \<Rightarrow> Inr (if b then 1 else 0)
     | _ \<Rightarrow> Inl (TypeError ''int() argument''))"

definition json_str :: "json \<Rightarrow> py_exn + string" where
  "json_str v = (case v of JStr s \<Rightarrow> Inr s | _ \<Rightarrow> Inl (TypeError ''str expected''))"

definition json_read :: "string \<Rightarrow> py_exn + json" where
  "json_read b = (case json_loads b of None \<Rightarrow> Inl JSONDecodeError | Some v \<Rightarrow> Inr v)"

text \<open>\<open>LeaseGrant(**d)\<close>\<close>

definition lease_of_json :: "json \<Rightarrow> py_exn + lease_grant" where
  "lease_of_json v =
     ebind (ebind (json_item ''holder'' v) json_str) (\<lambda>h.
     ebind (ebind (json_item ''fencing_token'' v) json_int) (\<lambda>t.
     ebind (ebind (json_item ''expires_at'' v) json_int) (\<lambda>e.
     Inr \<lparr>lg_holder = h, lg_fencing_token = t, lg_expires_at = e\<rparr>)))"

subsection \<open>The traffic authority\<close>

record 'e adapter =
  ad_authority :: "'e \<Rightarrow> lease_grant"
  ad_behavioral_restore :: "'e \<Rightarrow> bool"
  ad_close :: "int \<Rightarrow> (py_exn, 'e, unit) py"
  ad_open :: "int \<Rightarrow> string \<Rightarrow> json \<Rightarrow> lease_grant \<Rightarrow> int \<Rightarrow> (py_exn, 'e, unit) py"
  ad_close_all :: "(py_exn, 'e, unit) py"
  ad_restore :: "int \<Rightarrow> string \<Rightarrow> json \<Rightarrow> (py_exn, 'e, route_state) py"
  ad_lease_valid :: "lease_grant \<Rightarrow> int \<Rightarrow> (py_exn, 'e, bool) py"
  ad_query_route :: "(py_exn, 'e, route_state) py"

text \<open>\<open>DeterministicTrafficAdapter\<close>\<close>

record det_traffic =
  dt_route :: route_state
  dt_authority :: lease_grant
  dt_faults :: "string set"
  dt_behavioral_restore :: bool
  dt_rollback_fails :: bool

definition fence_of :: "int \<Rightarrow> string" where
  "fence_of generation = ''fence-'' @ int_str generation"

definition closed_route :: route_state where
  "closed_route = \<lparr>rt_generation = None, rt_fence = ''closed'', rt_snapshot = JNull\<rparr>"

definition det_init ::
  "int \<Rightarrow> json \<Rightarrow> lease_grant option \<Rightarrow> string set \<Rightarrow> bool \<Rightarrow> bool \<Rightarrow> det_traffic" where
  "det_init predecessor_generation predecessor_snapshot authority faults behavioral_restore rollback_fails =
     \<lparr>dt_route = \<lparr>rt_generation = Some predecessor_generation, rt_fence = fence_of predecessor_generation,
                  rt_snapshot = predecessor_snapshot\<rparr>,
      dt_authority = (case authority of Some l \<Rightarrow> l
        | None \<Rightarrow> \<lparr>lg_holder = ''manager'', lg_fencing_token = 1, lg_expires_at = 2 ^ 62\<rparr>),
      dt_faults = faults, dt_behavioral_restore = behavioral_restore,
      dt_rollback_fails = rollback_fails\<rparr>"

definition det_hit :: "string \<Rightarrow> (py_exn, det_traffic, unit) py" where
  "det_hit point = bind (gets dt_faults) (\<lambda>faults.
     if point \<in> faults
     then andthen (modify (\<lambda>t. t\<lparr>dt_faults := faults - {point}\<rparr>)) (raise (InjectedCrash point))
     else ret ())"

definition det_close :: "int \<Rightarrow> (py_exn, det_traffic, unit) py" where
  "det_close generation = det_hit ''close''"

definition det_open ::
  "int \<Rightarrow> string \<Rightarrow> json \<Rightarrow> lease_grant \<Rightarrow> int \<Rightarrow> (py_exn, det_traffic, unit) py" where
  "det_open generation fence snapshot grant now =
     andthen (det_hit ''open.before'')
    (bind (gets dt_authority) (\<lambda>current.
     andthen (require (\<not> (current \<noteq> grant \<or> lg_expires_at grant < now))
       (GateError ''lease changed or expired before traffic open''))
    (andthen (modify (\<lambda>t. t\<lparr>dt_route :=
       \<lparr>rt_generation = Some generation, rt_fence = fence, rt_snapshot = snapshot\<rparr>\<rparr>))
    (det_hit ''open.after''))))"

definition det_close_all :: "(py_exn, det_traffic, unit) py" where
  "det_close_all =
     andthen (det_hit ''close_all'') (modify (\<lambda>t. t\<lparr>dt_route := closed_route\<rparr>))"

definition det_restore :: "int \<Rightarrow> string \<Rightarrow> json \<Rightarrow> (py_exn, det_traffic, route_state) py" where
  "det_restore generation fence snapshot =
     bind (gets dt_rollback_fails) (\<lambda>fails.
     andthen (require (\<not> fails) (GateError ''rollback failed''))
    (bind (case snapshot of JObj kvs \<Rightarrow> ret (JObj kvs) | _ \<Rightarrow> raise (TypeError ''not a mapping'')) (\<lambda>copy.
     bind (gets dt_behavioral_restore) (\<lambda>behavioral.
     let restored = (if behavioral then JObj [(''behaviorally_equivalent'', JBool True)] else copy) in
     andthen (modify (\<lambda>t. t\<lparr>dt_route :=
       \<lparr>rt_generation = Some generation, rt_fence = fence, rt_snapshot = restored\<rparr>\<rparr>))
    (gets dt_route)))))"

definition det_lease_valid :: "lease_grant \<Rightarrow> int \<Rightarrow> (py_exn, det_traffic, bool) py" where
  "det_lease_valid grant now = gets (\<lambda>t. dt_authority t = grant \<and> now \<le> lg_expires_at grant)"

definition det_query_route :: "(py_exn, det_traffic, route_state) py" where
  "det_query_route = andthen (det_hit ''route.query'') (gets dt_route)"

definition det_adapter :: "det_traffic adapter" where
  "det_adapter = \<lparr>ad_authority = dt_authority, ad_behavioral_restore = dt_behavioral_restore,
     ad_close = det_close, ad_open = det_open, ad_close_all = det_close_all,
     ad_restore = det_restore, ad_lease_valid = det_lease_valid, ad_query_route = det_query_route\<rparr>"

subsection \<open>The database and the gate object\<close>

record gate_row =
  gs_state :: gate_state
  gs_predecessor_generation :: int
  gs_candidate_generation :: int
  gs_predecessor_json :: string
  gs_candidate_json :: string
  gs_route_generation :: "int option"
  gs_route_fence :: string
  gs_lease_json :: string
  gs_transition_seq :: int
  gs_revision :: int
  gs_schema_version :: int
  gs_proof_digest :: "string option"
  gs_candidate_digest :: string
  gs_observed_candidate_digest :: "string option"
  gs_predecessor_digest :: string
  gs_observed_predecessor_digest :: "string option"

record transition_row =
  tr_seq :: int
  tr_generation :: int
  tr_kind :: string
  tr_operation :: string
  tr_operation_id :: string
  tr_from_state :: "gate_state option"
  tr_to_state :: "gate_state option"
  tr_fence :: "string option"
  tr_at :: int
  tr_detail_json :: string

record admission_row =
  am_request_id :: string
  am_route_epoch :: string
  am_chosen_generation :: int
  am_admitted_at :: int
  am_finished_at :: "int option"
  am_result :: "string option"
  am_abort :: "string option"
  am_transition_seq :: int

record event_row =
  ae_seq :: int
  ae_request_id :: string
  ae_kind :: string
  ae_chosen_generation :: int
  ae_route_epoch :: string
  ae_at :: int
  ae_transition_seq :: int
  ae_detail_json :: string

record gate_db =
  gd_row :: "gate_row option"
  gd_transitions :: "transition_row list"
  gd_admissions :: "admission_row list"
  gd_events :: "event_row list"

record 'e gate =
  g_db :: gate_db
  g_traffic :: 'e
  g_authority :: "lease_grant option"
  g_faults :: "string set"
  g_clock :: "nat \<Rightarrow> int"
  g_ticks :: nat

type_synonym ('e, 'a) gm = "(py_exn, 'e gate, 'a) py"

definition gate_init ::
  "'e \<Rightarrow> (nat \<Rightarrow> int) \<Rightarrow> lease_grant option \<Rightarrow> string set \<Rightarrow> 'e gate" where
  "gate_init traffic clock authority faults =
     \<lparr>g_db = \<lparr>gd_row = None, gd_transitions = [], gd_admissions = [], gd_events = []\<rparr>,
      g_traffic = traffic, g_authority = authority, g_faults = faults, g_clock = clock, g_ticks = 0\<rparr>"

definition schema_version :: int where
  "schema_version = 2"

fun allowed :: "gate_state \<Rightarrow> gate_state set" where
  "allowed PREDECESSOR_OPEN = {CANDIDATE_STAGED, FAILED_SAFE, SAFETY_UNKNOWN}"
| "allowed CANDIDATE_STAGED = {CANDIDATE_CLOSED, ROLLED_BACK, FAILED_SAFE, SAFETY_UNKNOWN}"
| "allowed CANDIDATE_CLOSED = {OPENING, ROLLED_BACK, FAILED_SAFE, SAFETY_UNKNOWN}"
| "allowed OPENING = {CANDIDATE_OPEN, FAILED_SAFE, SAFETY_UNKNOWN}"
| "allowed CANDIDATE_OPEN = {DRAINING, ROLLED_BACK, FAILED_SAFE, SAFETY_UNKNOWN}"
| "allowed DRAINING = {CANDIDATE_OPEN, ROLLED_BACK, FAILED_SAFE, SAFETY_UNKNOWN}"
| "allowed ROLLED_BACK = {}"
| "allowed FAILED_SAFE = {}"
| "allowed SAFETY_UNKNOWN = {}"

definition gate_txn :: "('e, 'a) gm \<Rightarrow> ('e, 'a) gm" where
  "gate_txn = atomically g_db (\<lambda>d g. g\<lparr>g_db := d\<rparr>)"

definition on_traffic :: "(py_exn, 'e, 'a) py \<Rightarrow> ('e, 'a) gm" where
  "on_traffic = zoom g_traffic (\<lambda>t g. g\<lparr>g_traffic := t\<rparr>)"

definition gate_now :: "('e, int) gm" where
  "gate_now = bind (gets (\<lambda>g. g_clock g (g_ticks g))) (\<lambda>t.
     andthen (modify (\<lambda>g. g\<lparr>g_ticks := Suc (g_ticks g)\<rparr>)) (ret t))"

definition gate_authority :: "'e adapter \<Rightarrow> ('e, lease_grant) gm" where
  "gate_authority A = gets (\<lambda>g. case g_authority g of
     Some l \<Rightarrow> l | None \<Rightarrow> ad_authority A (g_traffic g))"

definition gate_get_row :: "('e, gate_row) gm" where
  "gate_get_row = bind (gets (\<lambda>g. gd_row (g_db g))) (\<lambda>r.
     case r of
       None \<Rightarrow> raise (GateError ''gate is not initialized'')
     | Some row \<Rightarrow>
         if gs_schema_version row \<noteq> schema_version
         then raise (GateError ''unknown gate schema version'') else ret row)"

definition gate_hit :: "string \<Rightarrow> ('e, unit) gm" where
  "gate_hit point = bind (gets g_faults) (\<lambda>faults.
     if point \<in> faults
     then andthen (modify (\<lambda>g. g\<lparr>g_faults := faults - {point}\<rparr>)) (raise (InjectedCrash point))
     else ret ())"

definition query_route_or_none :: "'e adapter \<Rightarrow> ('e, route_state option) gm" where
  "query_route_or_none A =
     try_except (bind (on_traffic (ad_query_route A)) (\<lambda>r. ret (Some r))) (\<lambda>_. ret None)"

text \<open>\<open>with suppress(Exception): self.traffic.close_all()\<close>\<close>

definition close_all_suppressed :: "'e adapter \<Rightarrow> ('e, unit) gm" where
  "close_all_suppressed A = try_except (on_traffic (ad_close_all A)) (\<lambda>_. ret ())"

definition observed_closed :: "route_state option \<Rightarrow> bool" where
  "observed_closed r \<longleftrightarrow>
     (case r of None \<Rightarrow> False | Some x \<Rightarrow> rt_generation x = None \<and> rt_fence x = ''closed'')"

definition default_operation_id :: "string \<Rightarrow> int \<Rightarrow> string" where
  "default_operation_id operation generation =
     takeWhile (\<lambda>c. c \<noteq> CHR ''.'') operation @ '':'' @ int_str generation"

definition db_insert_transition :: "transition_row \<Rightarrow> gate_db \<Rightarrow> gate_db" where
  "db_insert_transition r d = d\<lparr>gd_transitions := gd_transitions d @ [r]\<rparr>"

definition gate_append ::
  "int \<Rightarrow> string \<Rightarrow> string \<Rightarrow> gate_state option \<Rightarrow> gate_state option \<Rightarrow> string option \<Rightarrow> json \<Rightarrow>
   string option \<Rightarrow> ('e, int) gm" where
  "gate_append generation kind operation from_state to_state fence detail operation_id =
     bind gate_now (\<lambda>now.
     bind (gets (\<lambda>g. int (length (gd_transitions (g_db g))) + 1)) (\<lambda>seq.
     let correlation = (case operation_id of
           None \<Rightarrow> default_operation_id operation generation
         | Some i \<Rightarrow> if i = [] then default_operation_id operation generation else i);
         r = \<lparr>tr_seq = seq, tr_generation = generation, tr_kind = kind, tr_operation = operation,
              tr_operation_id = correlation, tr_from_state = from_state, tr_to_state = to_state,
              tr_fence = fence, tr_at = now, tr_detail_json = gate_json detail\<rparr> in
     andthen (modify (\<lambda>g. g\<lparr>g_db := db_insert_transition r (g_db g)\<rparr>))
    (ret seq)))"

text \<open>\<open>UPDATE gate_state SET ... WHERE singleton=1 AND revision=?\<close>: whether a row changed.\<close>

definition cas_row :: "int \<Rightarrow> (gate_row \<Rightarrow> gate_row) \<Rightarrow> ('e, bool) gm" where
  "cas_row revision f = bind (gets (\<lambda>g. gd_row (g_db g))) (\<lambda>r.
     case r of
       None \<Rightarrow> ret False
     | Some row \<Rightarrow>
         if gs_revision row = revision
         then andthen (modify (\<lambda>g. g\<lparr>g_db := (g_db g)\<lparr>gd_row := Some (f row)\<rparr>\<rparr>)) (ret True)
         else ret False)"

text \<open>\<open>UPDATE gate_state SET ... WHERE singleton=1\<close>\<close>

definition update_row :: "(gate_row \<Rightarrow> gate_row) \<Rightarrow> ('e, unit) gm" where
  "update_row f = modify (\<lambda>g. g\<lparr>g_db := (g_db g)\<lparr>gd_row := map_option f (gd_row (g_db g))\<rparr>\<rparr>)"

definition gate_transition ::
  "int \<Rightarrow> gate_state \<Rightarrow> string \<Rightarrow> string \<Rightarrow> json \<Rightarrow> string option \<Rightarrow> string option \<Rightarrow> ('e, int) gm" where
  "gate_transition generation target operation kind detail fence operation_id =
     bind gate_get_row (\<lambda>row.
     let current = gs_state row in
     andthen (require (\<not> (target \<noteq> current \<and> target \<notin> allowed current))
       (GateError (''invalid gate transition '' @ gate_state_value current @ ''->'' @ gate_state_value target)))
    (bind (gate_append generation kind operation (Some current) (Some target) fence detail operation_id) (\<lambda>seq.
     bind (cas_row (gs_revision row)
       (\<lambda>r. r\<lparr>gs_state := target, gs_transition_seq := seq, gs_revision := gs_revision r + 1\<rparr>)) (\<lambda>changed.
     andthen (require changed (GateError ''gate revision CAS mismatch''))
    (ret seq)))))"

subsection \<open>Reading back what was written\<close>

lemma json_read_gate_json [simp]: "json_wf v \<Longrightarrow> json_read (gate_json v) = Inr (jsort v)"
  by (simp add: json_read_def gate_json_def json_loads_dumps)

lemma json_read_gate_json_any: "json_read (gate_json v) = Inr (dict_json (jsort v))"
  by (simp add: json_read_def gate_json_def json_loads_dumps_any)

lemma json_item_jsort:
  assumes "distinct (map fst kvs)"
  shows "json_item k (jsort (JObj kvs)) =
    (case map_of kvs k of None \<Rightarrow> Inl (KeyError k) | Some v \<Rightarrow> Inr (jsort v))"
proof -
  have "map_of (sort_key fst (map (\<lambda>kv. (fst kv, jsort (snd kv))) kvs)) =
      map_of (map (\<lambda>kv. (fst kv, jsort (snd kv))) kvs)"
    by (rule map_of_sort_key) (use assms in \<open>simp add: comp_def\<close>)
  moreover have "map_of (map (\<lambda>kv. (fst kv, jsort (snd kv))) kvs) k = map_option jsort (map_of kvs k)"
    by (induction kvs) auto
  ultimately show ?thesis
    by (simp add: json_item_def split: option.splits)
qed

lemma json_wf_lease [simp]: "json_wf (lease_dict l)"
  by (simp add: lease_dict_def)

lemma lease_of_json_jsort [simp]: "lease_of_json (jsort (lease_dict l)) = Inr l"
  by (simp add: lease_of_json_def lease_dict_def json_item_jsort json_str_def json_int_def del: jsort.simps(2))

end
