(* ===== verification/Exposure_Gate.thy ===== *)
theory Exposure_Gate
  imports Gate_Base
begin

section \<open>The exposure gate: its operations (\<^verbatim>\<open>exposure_gate.py\<close>)\<close>

text \<open>
  The methods of \<open>ReferenceExposureGate\<close> over the database and the traffic authority of
  \<open>Gate_Base\<close>: \<open>gate_stage\<close>, \<open>gate_close\<close>, \<open>gate_open\<close>, \<open>gate_drain\<close>, \<open>gate_observe\<close>,
  \<open>gate_reconcile\<close>, \<open>gate_rollback\<close> and \<open>gate_fail_close\<close>.  \<open>sha\<close> is SHA-256 and \<open>A\<close> the traffic
  adapter.  Each effect on the traffic has an intent row before it and a receipt row after it, and
  a crash may come at any fault point in between, so that every method leaves a meaningful
  database also when it raises.
\<close>

subsection \<open>Fail-close\<close>

definition closed_class :: "route_state option \<Rightarrow> rollback_class" where
  "closed_class actual = (if observed_closed actual then RC_FAILED_SAFE else RC_SAFETY_UNKNOWN)"

definition observed_route_row :: "route_state option \<Rightarrow> gate_row \<Rightarrow> gate_row" where
  "observed_route_row actual r = r\<lparr>
     gs_route_generation := (case actual of None \<Rightarrow> None | Some x \<Rightarrow> rt_generation x),
     gs_route_fence := (case actual of None \<Rightarrow> ''unknown'' | Some x \<Rightarrow> rt_fence x)\<rparr>"

definition closed_target :: "route_state option \<Rightarrow> gate_state" where
  "closed_target actual = (if observed_closed actual then FAILED_SAFE else SAFETY_UNKNOWN)"

definition gate_fail_close :: "'e adapter \<Rightarrow> int \<Rightarrow> string \<Rightarrow> ('e, fail_close_result) gm" where
  "gate_fail_close A generation reason =
     bind gate_get_row (\<lambda>row.
     andthen (require (gs_candidate_generation row = generation) (GateError ''stale generation fail-close''))
    (let state = gs_state row in
     andthen (gate_txn (gate_append generation ''intent'' ''fail_close'' (Some state) None (Some ''closed'')
       (JObj [(''reason'', JStr reason)]) None))
    (andthen (gate_hit ''fail_close.before_effect'')
    (bind (try_except (andthen (on_traffic (ad_close_all A)) (ret None)) (\<lambda>exc. ret (Some (exn_str exc)))) (\<lambda>error1.
     andthen (gate_hit ''fail_close.after_effect'')
    (bind (try_except (bind (on_traffic (ad_query_route A)) (\<lambda>r. ret (Some r, error1)))
       (\<lambda>exc. ret (None, Some (case error1 of
          Some e \<Rightarrow> if e = [] then exn_str exc else e @ ''; route query: '' @ exn_str exc
        | None \<Rightarrow> exn_str exc)))) (\<lambda>(actual, error).
     andthen (gate_txn
       (andthen (gate_transition generation (closed_target actual) ''fail_close'' ''receipt''
          (JObj [(''classification'', JStr (rollback_class_value (closed_class actual))),
             (''actual_route'', route_opt_dict actual), (''error'', jopt error)]) None None)
        (update_row (observed_route_row actual))))
    (ret \<lparr>fc_classification = closed_class actual, fc_actual_route = actual, fc_error = error\<rparr>))))))))"

subsection \<open>Stage and close\<close>

text \<open>The candidate of \<open>stage\<close> is the one that is staged; the comparison stops at the first difference.\<close>

definition already_staged :: "int \<Rightarrow> json \<Rightarrow> json \<Rightarrow> int \<Rightarrow> gate_row \<Rightarrow> py_exn + bool" where
  "already_staged candidate_generation candidate predecessor predecessor_generation existing =
     (if gs_candidate_generation existing \<noteq> candidate_generation then Inr False
      else ebind (json_read (gs_candidate_json existing)) (\<lambda>c.
        if \<not> py_eq c candidate then Inr False
        else ebind (json_read (gs_predecessor_json existing)) (\<lambda>p.
          Inr (py_eq p predecessor \<and> gs_route_fence existing = fence_of predecessor_generation))))"

definition staged_row ::
  "(string \<Rightarrow> string) \<Rightarrow> int \<Rightarrow> json \<Rightarrow> json \<Rightarrow> route_state \<Rightarrow> lease_grant \<Rightarrow> gate_row" where
  "staged_row sha predecessor_generation candidate predecessor route lease =
     \<lparr>gs_state = PREDECESSOR_OPEN, gs_predecessor_generation = predecessor_generation,
      gs_candidate_generation = predecessor_generation + 1,
      gs_predecessor_json = gate_json predecessor, gs_candidate_json = gate_json candidate,
      gs_route_generation = rt_generation route, gs_route_fence = rt_fence route,
      gs_lease_json = gate_json (lease_dict lease), gs_transition_seq = 0, gs_revision = 0,
      gs_schema_version = schema_version, gs_proof_digest = None,
      gs_candidate_digest = gate_digest sha candidate, gs_observed_candidate_digest = None,
      gs_predecessor_digest = gate_digest sha predecessor,
      gs_observed_predecessor_digest = Some (gate_digest sha predecessor)\<rparr>"

definition gate_stage :: "(string \<Rightarrow> string) \<Rightarrow> 'e adapter \<Rightarrow> json \<Rightarrow> json \<Rightarrow> ('e, int) gm" where
  "gate_stage sha A candidate predecessor =
     bind (lift_result (ebind (json_item ''generation'' predecessor) json_int)) (\<lambda>predecessor_generation.
     let candidate_generation = predecessor_generation + 1 in
     bind (gets (\<lambda>g. gd_row (g_db g))) (\<lambda>existing.
     case existing of
       Some row \<Rightarrow>
         bind (lift_result (already_staged candidate_generation candidate predecessor
           predecessor_generation row)) (\<lambda>same.
         if same then ret candidate_generation
         else raise (GateError ''another candidate is already staged''))
     | None \<Rightarrow>
         bind (on_traffic (ad_query_route A)) (\<lambda>route.
         andthen (require (\<not> (rt_generation route \<noteq> Some predecessor_generation
              \<or> rt_fence route \<noteq> fence_of predecessor_generation
              \<or> gate_json (rt_snapshot route) \<noteq> gate_json predecessor))
           (GateError ''actual predecessor generation/fence/snapshot mismatch''))
        (bind (gate_authority A) (\<lambda>lease.
         andthen (gate_txn
           (andthen (modify (\<lambda>g. g\<lparr>g_db := (g_db g)\<lparr>gd_row :=
              Some (staged_row sha predecessor_generation candidate predecessor route lease)\<rparr>\<rparr>))
            (gate_transition candidate_generation CANDIDATE_STAGED ''stage'' ''receipt''
              (JObj [(''candidate'', candidate),
                 (''candidate_digest'', JStr (gate_digest sha candidate)),
                 (''predecessor_digest'', JStr (gate_digest sha predecessor))]) None None)))
        (ret candidate_generation))))))"

text \<open>An intent of this operation id with no receipt of the same id.\<close>

definition pending_intent :: "string \<Rightarrow> transition_row list \<Rightarrow> bool" where
  "pending_intent operation_id rows \<longleftrightarrow>
     list_ex (\<lambda>r. tr_operation_id r = operation_id \<and> tr_kind r = ''intent'') rows \<and>
     \<not> list_ex (\<lambda>r. tr_operation_id r = operation_id \<and> tr_kind r = ''receipt'') rows"

definition gate_close :: "(string \<Rightarrow> string) \<Rightarrow> 'e adapter \<Rightarrow> int \<Rightarrow> ('e, unit) gm" where
  "gate_close sha A generation =
     bind gate_get_row (\<lambda>row.
     let state = gs_state row; operation_id = ''close:'' @ int_str generation in
     andthen (require (gs_candidate_generation row = generation) (GateError ''stale generation close''))
    (if state = CANDIDATE_CLOSED then ret () else
     bind (gets (\<lambda>g. pending_intent operation_id (gd_transitions (g_db g)))) (\<lambda>pending.
     andthen (if pending then ret ()
       else andthen (gate_txn (gate_append generation ''intent'' ''close'' (Some state) None None (JObj [])
              (Some operation_id))) (ret ()))
    (andthen (gate_hit ''close.before_effect'')
    (andthen (on_traffic (ad_close A generation))
    (andthen (gate_hit ''close.after_effect'')
    (bind (on_traffic (ad_query_route A)) (\<lambda>actual.
     andthen (gate_hit ''close.after_query'')
    (let observed_digest = gate_digest sha (rt_snapshot actual) in
     if rt_generation actual \<noteq> Some (gs_predecessor_generation row)
        \<or> rt_fence actual \<noteq> gs_route_fence row
        \<or> observed_digest \<noteq> gs_predecessor_digest row
     then
       andthen (gate_txn (gate_append generation ''receipt'' ''close'' (Some state) None (Some (rt_fence actual))
         (JObj [(''cancelled'', JStr ''predecessor continuity mismatch''),
            (''observed_predecessor_digest'', JStr observed_digest)]) (Some operation_id)))
      (andthen (gate_fail_close A generation ''predecessor continuity mismatch'')
      (raise (GateError ''close changed predecessor route identity'')))
     else
       gate_txn
         (andthen (gate_transition generation CANDIDATE_CLOSED ''close'' ''receipt''
            (JObj [(''actual_route'', route_dict actual),
               (''observed_predecessor_digest'', JStr observed_digest)]) None (Some operation_id))
          (update_row (\<lambda>r. r\<lparr>gs_observed_predecessor_digest := Some observed_digest\<rparr>))))))))))))"

subsection \<open>Open\<close>

definition open_fence :: "int \<Rightarrow> open_proof \<Rightarrow> gate_row \<Rightarrow> string" where
  "open_fence generation p row =
     ''gate-'' @ int_str generation @ ''-lease-'' @ int_str (lg_fencing_token (op_lease p)) @ ''-'' @
     take 12 (drop 7 (op_candidate_digest p)) @ ''-'' @ int_str (gs_transition_seq row + 1)"

text \<open>The checks of \<open>open\<close> on the proof; the result is the candidate of the row.\<close>

definition open_checks ::
  "'e adapter \<Rightarrow> int \<Rightarrow> open_proof \<Rightarrow> gate_row \<Rightarrow> ('e, json) gm" where
  "open_checks A generation p row =
     andthen (require (\<not> (op_generation p \<noteq> generation \<or> gs_candidate_generation row \<noteq> generation))
       (GateError ''stale generation open''))
    (bind (lift_result (json_read (gs_candidate_json row))) (\<lambda>candidate.
     bind (lift_result (case candidate of JStr s \<Rightarrow> Inr (JStr s) | _ \<Rightarrow> json_item ''plan_id'' candidate)) (\<lambda>expected_plan.
     andthen (require (py_eq (JStr (op_plan_id p)) expected_plan) (GateError ''open proof plan mismatch''))
    (andthen (require (op_candidate_digest p = gs_candidate_digest row)
       (GateError ''open proof candidate snapshot mismatch''))
    (andthen (require (\<not> (op_evidence_count p < 1 \<or> \<not> is_sha256 (op_evidence_digest p)
         \<or> \<not> is_sha256 (op_coverage_digest p)))
       (GateError ''open proof has no durable evidence coverage''))
    (bind (lift_result (ebind (json_read (gs_lease_json row)) lease_of_json)) (\<lambda>staged_lease.
     bind (if op_lease p \<noteq> staged_lease then ret False
           else bind gate_now (\<lambda>now. on_traffic (ad_lease_valid A (op_lease p) now))) (\<lambda>held.
     andthen (require held (GateError ''lease lost''))
    (ret candidate)))))))))"

definition gate_open :: "(string \<Rightarrow> string) \<Rightarrow> 'e adapter \<Rightarrow> int \<Rightarrow> open_proof \<Rightarrow> ('e, string) gm" where
  "gate_open sha A generation p =
     bind gate_get_row (\<lambda>row.
     bind (open_checks A generation p row) (\<lambda>candidate.
     let state = gs_state row in
     if state = CANDIDATE_OPEN then
       andthen (require (gs_proof_digest row = Some (proof_digest sha p))
         (GateError ''idempotent open proof mismatch''))
      (ret (gs_route_fence row))
     else if state = OPENING then raise (GateError ''opening outcome requires reconcile'')
     else
      (let fence = open_fence generation p row in
       andthen (gate_hit ''open.before_intent'')
      (andthen (gate_txn
         (andthen (gate_transition generation OPENING ''open'' ''intent''
            (JObj (proof_fields p @ [(''proof_digest'', JStr (proof_digest sha p))])) (Some fence) None)
          (update_row (\<lambda>r. r\<lparr>gs_proof_digest := Some (proof_digest sha p)\<rparr>))))
      (andthen (gate_hit ''open.after_intent'')
      (bind gate_now (\<lambda>now.
       andthen (on_traffic (ad_open A generation fence candidate (op_lease p) now))
      (andthen (gate_hit ''open.after_side_effect'')
      (bind (on_traffic (ad_query_route A)) (\<lambda>actual.
       andthen (gate_hit ''open.after_query'')
      (let actual_digest = gate_digest sha (rt_snapshot actual) in
       if rt_generation actual \<noteq> Some generation \<or> rt_fence actual \<noteq> fence
          \<or> actual_digest \<noteq> op_candidate_digest p
       then
         andthen (gate_txn (gate_append generation ''receipt'' ''open'' (Some OPENING) None (Some fence)
           (JObj [(''cancelled'', JStr ''actual candidate route mismatch'')])
           (Some (''open:'' @ int_str generation))))
        (andthen (gate_fail_close A generation ''actual candidate route mismatch'')
        (raise (GateError ''actual candidate route mismatch'')))
       else
         andthen (gate_txn
           (bind (gate_transition generation CANDIDATE_OPEN ''open'' ''receipt''
              (JObj [(''actual_route'', JInt generation),
                 (''lease_fencing_token'', JInt (lg_fencing_token (op_lease p))),
                 (''proof_digest'', JStr (proof_digest sha p)),
                 (''observed_candidate_digest'', JStr actual_digest)]) (Some fence) None) (\<lambda>seq.
            update_row (\<lambda>r. r\<lparr>gs_route_generation := Some generation, gs_route_fence := fence,
              gs_transition_seq := seq, gs_observed_candidate_digest := Some actual_digest\<rparr>))))
        (ret fence))))))))))))"

subsection \<open>Drain and admission\<close>

definition gate_drain :: "int \<Rightarrow> ('e, bool) gm" where
  "gate_drain generation =
     bind gate_get_row (\<lambda>row.
     andthen (require (gs_candidate_generation row = generation) (GateError ''stale generation drain''))
    (andthen (if gs_state row \<noteq> DRAINING
       then andthen (gate_txn (gate_transition generation DRAINING ''drain'' ''intent'' (JObj []) None None)) (ret ())
       else ret ())
    (bind (gets (\<lambda>g. length (filter (\<lambda>r. am_chosen_generation r = gs_predecessor_generation row
          \<and> am_finished_at r = None) (gd_admissions (g_db g))))) (\<lambda>unfinished.
     if unfinished \<noteq> 0 then ret False
     else andthen (gate_txn (gate_transition generation CANDIDATE_OPEN ''drain'' ''receipt''
            (JObj [(''unfinished_predecessor'', JInt 0)]) None None))
         (ret True)))))"

definition admission_of :: "string \<Rightarrow> gate_db \<Rightarrow> admission_row option" where
  "admission_of request_id d = find (\<lambda>r. am_request_id r = request_id) (gd_admissions d)"

definition db_insert_event ::
  "string \<Rightarrow> string \<Rightarrow> int \<Rightarrow> string \<Rightarrow> int \<Rightarrow> int \<Rightarrow> json \<Rightarrow> gate_db \<Rightarrow> gate_db" where
  "db_insert_event request_id kind chosen_generation route_epoch at transition_seq detail d =
     d\<lparr>gd_events := gd_events d @
       [\<lparr>ae_seq = int (length (gd_events d)) + 1, ae_request_id = request_id, ae_kind = kind,
         ae_chosen_generation = chosen_generation, ae_route_epoch = route_epoch, ae_at = at,
         ae_transition_seq = transition_seq, ae_detail_json = gate_json detail\<rparr>]\<rparr>"

definition blocks_admission :: "gate_state \<Rightarrow> bool" where
  "blocks_admission s \<longleftrightarrow> s \<in> {OPENING, ROLLED_BACK, FAILED_SAFE, SAFETY_UNKNOWN}"

definition before_open :: "gate_state \<Rightarrow> bool" where
  "before_open s \<longleftrightarrow> s \<in> {PREDECESSOR_OPEN, CANDIDATE_STAGED, CANDIDATE_CLOSED}"

definition predecessor_mismatch :: "(string \<Rightarrow> string) \<Rightarrow> gate_row \<Rightarrow> route_state \<Rightarrow> bool" where
  "predecessor_mismatch sha row actual \<longleftrightarrow>
     rt_generation actual \<noteq> Some (gs_predecessor_generation row)
     \<or> rt_fence actual \<noteq> fence_of (gs_predecessor_generation row)
     \<or> gate_digest sha (rt_snapshot actual) \<noteq> gs_predecessor_digest row"

definition unknown_route :: "(string \<Rightarrow> string) \<Rightarrow> gate_row \<Rightarrow> route_state \<Rightarrow> bool" where
  "unknown_route sha row actual \<longleftrightarrow>
     rt_generation actual \<noteq> gs_route_generation row
     \<or> rt_fence actual \<noteq> gs_route_fence row
     \<or> rt_generation actual = Some (gs_candidate_generation row)
       \<and> Some (gate_digest sha (rt_snapshot actual)) \<noteq> gs_observed_candidate_digest row"

text \<open>The first half of \<open>observe\<close>: admit a request that is not recorded yet.\<close>

definition gate_admit ::
  "(string \<Rightarrow> string) \<Rightarrow> 'e adapter \<Rightarrow> admission_request \<Rightarrow> ('e, admission_row) gm" where
  "gate_admit sha A request =
     bind gate_get_row (\<lambda>row0.
     let st = gs_state row0 in
     andthen (require (\<not> blocks_admission st) (GateError (''admission blocked in '' @ gate_state_value st)))
    (bind (on_traffic (ad_query_route A)) (\<lambda>actual.
     bind gate_get_row (\<lambda>row.
     case rt_generation actual of
       None \<Rightarrow> raise (GateError ''traffic is failed safe'')
     | Some generation \<Rightarrow>
         andthen (require (rt_fence actual \<noteq> ''closed'') (GateError ''traffic is failed safe''))
        (andthen (if before_open st \<and> predecessor_mismatch sha row actual
           then andthen (gate_fail_close A (gs_candidate_generation row) ''pre-open predecessor continuity mismatch'')
                  (raise (GateError ''predecessor route identity changed''))
           else ret ())
        (andthen (require (\<not> unknown_route sha row actual) (GateError ''unknown route state''))
        (let new = \<lparr>am_request_id = rq_request_id request, am_route_epoch = rt_fence actual,
               am_chosen_generation = generation, am_admitted_at = rq_admitted_at request,
               am_finished_at = None, am_result = None, am_abort = None,
               am_transition_seq = gs_transition_seq row\<rparr> in
         andthen (gate_txn
           (andthen (modify (\<lambda>g. g\<lparr>g_db := (g_db g)\<lparr>gd_admissions := gd_admissions (g_db g) @ [new]\<rparr>\<rparr>))
            (modify (\<lambda>g. g\<lparr>g_db := db_insert_event (rq_request_id request) ''admit'' generation
              (rt_fence actual) (rq_admitted_at request) (gs_transition_seq row) (JObj []) (g_db g)\<rparr>))))
        (ret new))))))))"

text \<open>The second half: finish an admitted request.\<close>

definition finish_row :: "admission_result \<Rightarrow> string \<Rightarrow> admission_row \<Rightarrow> admission_row" where
  "finish_row result request_id r =
     (if am_request_id r = request_id \<and> am_finished_at r = None
      then r\<lparr>am_finished_at := Some (rs_finished_at result), am_result := rs_result result,
             am_abort := rs_abort result\<rparr> else r)"

definition gate_finish :: "string \<Rightarrow> admission_row \<Rightarrow> admission_result \<Rightarrow> ('e, unit) gm" where
  "gate_finish request_id existing result =
     andthen (require (\<not> ((rs_result result = None) = (rs_abort result = None)))
       (GateError ''finish requires exactly one of result or abort''))
    (andthen (require (\<not> rs_finished_at result < am_admitted_at existing) (GateError ''finish precedes admission''))
    (andthen (require (am_finished_at existing = None) (GateError ''request finish is immutable''))
    (gate_txn
      (bind (gets (\<lambda>g. length (filter (\<lambda>r. am_request_id r = request_id \<and> am_finished_at r = None)
          (gd_admissions (g_db g))))) (\<lambda>changed.
       andthen (modify (\<lambda>g. g\<lparr>g_db := (g_db g)\<lparr>gd_admissions :=
          map (finish_row result request_id) (gd_admissions (g_db g))\<rparr>\<rparr>))
      (andthen (require (changed = 1) (GateError ''concurrent request finish''))
      (modify (\<lambda>g. g\<lparr>g_db := db_insert_event request_id ''finish'' (am_chosen_generation existing)
         (am_route_epoch existing) (rs_finished_at result) (am_transition_seq existing)
         (JObj [(''result'', jopt (rs_result result)), (''abort'', jopt (rs_abort result))]) (g_db g)\<rparr>))))))))"

definition gate_observe ::
  "(string \<Rightarrow> string) \<Rightarrow> 'e adapter \<Rightarrow> admission_request \<Rightarrow> admission_result option \<Rightarrow> ('e, int) gm" where
  "gate_observe sha A request result =
     bind (gets (\<lambda>g. admission_of (rq_request_id request) (g_db g))) (\<lambda>found.
     bind (case found of Some r \<Rightarrow> ret r | None \<Rightarrow> gate_admit sha A request) (\<lambda>existing.
     andthen (case result of None \<Rightarrow> ret () | Some res \<Rightarrow> gate_finish (rq_request_id request) existing res)
    (ret (am_chosen_generation existing))))"

subsection \<open>Rollback\<close>

text \<open>
  The effect part of \<open>rollback\<close>: restore the predecessor, else close everything, and classify what
  the authority then reports.
\<close>

definition restored_strong :: "int \<Rightarrow> string \<Rightarrow> json \<Rightarrow> route_state option \<Rightarrow> bool" where
  "restored_strong generation fence predecessor actual \<longleftrightarrow>
     (case actual of None \<Rightarrow> False | Some x \<Rightarrow>
        rt_generation x = Some generation \<and> py_eq (rt_snapshot x) predecessor \<and> rt_fence x = fence)"

definition oracle_accepts :: "behavioral_oracle option \<Rightarrow> bool" where
  "oracle_accepts b \<longleftrightarrow> (case b of None \<Rightarrow> False | Some x \<Rightarrow>
     bo_equivalent x \<and> prefix ''sha256:'' (bo_observations_digest x) \<and> bo_oracle x \<noteq> [])"

definition close_and_classify :: "'e adapter \<Rightarrow> ('e, rollback_class \<times> route_state option) gm" where
  "close_and_classify A =
     andthen (close_all_suppressed A)
    (bind (query_route_or_none A) (\<lambda>actual. ret (closed_class actual, actual)))"

definition rollback_effect ::
  "'e adapter \<Rightarrow> int \<Rightarrow> string \<Rightarrow> json \<Rightarrow> behavioral_oracle option \<Rightarrow>
   ('e, rollback_class \<times> route_state option) gm" where
  "rollback_effect A predecessor_generation predecessor_fence predecessor oracle =
     bind (try_except
        (bind (on_traffic (ad_restore A predecessor_generation predecessor_fence predecessor)) (\<lambda>_. ret True))
        (\<lambda>_. ret False)) (\<lambda>restored.
     if \<not> restored then close_and_classify A
     else
       bind (query_route_or_none A) (\<lambda>actual.
       if restored_strong predecessor_generation predecessor_fence predecessor actual
       then ret (RC_RESTORED_STRONG, actual)
       else
         bind (gets (\<lambda>g. ad_behavioral_restore A (g_traffic g))) (\<lambda>behavioral.
         if oracle_accepts oracle \<and> behavioral then ret (RC_BEHAVIORAL, actual)
         else close_and_classify A)))"

fun rollback_target :: "rollback_class \<Rightarrow> gate_state" where
  "rollback_target RC_RESTORED_STRONG = ROLLED_BACK"
| "rollback_target RC_BEHAVIORAL = ROLLED_BACK"
| "rollback_target RC_FAILED_SAFE = FAILED_SAFE"
| "rollback_target RC_SAFETY_UNKNOWN = SAFETY_UNKNOWN"

definition gate_rollback ::
  "'e adapter \<Rightarrow> int \<Rightarrow> behavioral_oracle option \<Rightarrow> ('e, rollback_class) gm" where
  "gate_rollback A generation oracle =
     bind gate_get_row (\<lambda>row.
     andthen (require (gs_candidate_generation row = generation) (GateError ''stale generation rollback''))
    (bind (lift_result (json_read (gs_predecessor_json row))) (\<lambda>predecessor.
     let predecessor_generation = gs_predecessor_generation row;
         predecessor_fence = fence_of predecessor_generation in
     andthen (gate_txn (gate_append generation ''intent'' ''rollback'' (Some (gs_state row)) None
       (Some predecessor_fence) (JObj [(''behavioral_oracle'', oracle_dict oracle)]) None))
    (andthen (gate_hit ''rollback.after_intent'')
    (bind (rollback_effect A predecessor_generation predecessor_fence predecessor oracle) (\<lambda>(outcome, actual).
     andthen (gate_hit ''rollback.after_effect'')
    (andthen (gate_txn
       (andthen (gate_transition generation (rollback_target outcome) ''rollback'' ''receipt''
          (JObj [(''classification'', JStr (rollback_class_value outcome)),
             (''behavioral_oracle'', oracle_dict oracle), (''actual_route'', route_opt_dict actual)]) None None)
        (update_row (observed_route_row actual))))
    (ret outcome))))))))"

subsection \<open>Reconcile\<close>

text \<open>\<open>... WHERE operation=? AND kind=? ORDER BY seq DESC LIMIT 1\<close>\<close>

definition last_row :: "string \<Rightarrow> string \<Rightarrow> transition_row list \<Rightarrow> transition_row option" where
  "last_row operation kind rows = find (\<lambda>r. tr_operation r = operation \<and> tr_kind r = kind) (rev rows)"

text \<open>An intent of the operation after its last receipt.\<close>

definition unfinished :: "string \<Rightarrow> transition_row list \<Rightarrow> transition_row option" where
  "unfinished operation rows =
     (case last_row operation ''intent'' rows of
        None \<Rightarrow> None
      | Some i \<Rightarrow>
          (case last_row operation ''receipt'' rows of
             None \<Rightarrow> Some i
           | Some r \<Rightarrow> if tr_seq r < tr_seq i then Some i else None))"

definition unfinished_recovery_close :: "transition_row list \<Rightarrow> transition_row option" where
  "unfinished_recovery_close rows =
     find (\<lambda>t. tr_operation t = ''open.reconcile.close_all'' \<and> tr_kind t = ''intent'' \<and>
        \<not> list_ex (\<lambda>r. tr_operation_id r = tr_operation_id t \<and> tr_kind r = ''receipt'') rows) (rev rows)"

definition reconcile_fail_close :: "'e adapter \<Rightarrow> gate_row \<Rightarrow> transition_row \<Rightarrow> ('e, gate_state) gm" where
  "reconcile_fail_close A row intent =
     bind (try_except (bind (on_traffic (ad_query_route A)) (\<lambda>r. ret (Some r, None)))
       (\<lambda>exc. ret (None, Some (exn_str exc)))) (\<lambda>(actual, error).
     andthen (gate_txn
       (andthen (gate_transition (gs_candidate_generation row) (closed_target actual) ''fail_close'' ''receipt''
          (JObj [(''classification'', JStr (rollback_class_value (closed_class actual))),
             (''reconciled'', JBool True), (''actual_route'', route_opt_dict actual), (''error'', jopt error)])
          None (Some (tr_operation_id intent)))
        (update_row (observed_route_row actual))))
    (ret (closed_target actual)))"

definition reconcile_recovery_close ::
  "'e adapter \<Rightarrow> gate_row \<Rightarrow> transition_row \<Rightarrow> ('e, gate_state) gm" where
  "reconcile_recovery_close A row intent =
     (let generation = gs_candidate_generation row in
     andthen (gate_hit ''open_recovery_close.before_effect'')
    (andthen (close_all_suppressed A)
    (andthen (gate_hit ''open_recovery_close.after_effect'')
    (bind (query_route_or_none A) (\<lambda>actual.
     andthen (gate_hit ''open_recovery_close.after_query'')
    (bind (gets (\<lambda>g. last_row ''open'' ''intent'' (gd_transitions (g_db g)))) (\<lambda>open_intent.
     andthen (gate_txn
       (andthen (gate_append generation ''receipt'' ''open.reconcile.close_all'' (Some OPENING) None (Some ''closed'')
          (JObj [(''actual_route'', route_opt_dict actual)]) (Some (tr_operation_id intent)))
        (case open_intent of
           None \<Rightarrow> raise (TypeError ''NoneType object is not subscriptable'')
         | Some i \<Rightarrow>
             gate_transition generation (closed_target actual) ''open'' ''receipt''
               (JObj [(''cancelled'', JStr ''recovery close''), (''closed'', JBool (observed_closed actual))])
               None (Some (tr_operation_id i)))))
    (ret (closed_target actual)))))))))"

definition reconcile_rollback :: "'e adapter \<Rightarrow> gate_row \<Rightarrow> transition_row \<Rightarrow> ('e, gate_state) gm" where
  "reconcile_rollback A row intent =
     bind (lift_result (json_read (gs_predecessor_json row))) (\<lambda>predecessor.
     bind (query_route_or_none A) (\<lambda>actual.
     let strong = (case actual of None \<Rightarrow> False | Some x \<Rightarrow>
           rt_generation x = Some (gs_predecessor_generation row)
           \<and> rt_fence x = fence_of (gs_predecessor_generation row)
           \<and> gate_json (rt_snapshot x) = gate_json predecessor);
         outcome = (if strong then RC_RESTORED_STRONG else closed_class actual) in
     andthen (gate_txn (gate_transition (gs_candidate_generation row) (rollback_target outcome)
       ''rollback'' ''receipt''
       (JObj [(''classification'', JStr (rollback_class_value outcome)), (''reconciled'', JBool True),
          (''actual_route'', route_opt_dict actual)]) None (Some (tr_operation_id intent))))
    (ret (rollback_target outcome))))"

text \<open>The proof that the intent of \<open>open\<close> recorded.\<close>

definition proof_of_json :: "json \<Rightarrow> py_exn + open_proof" where
  "proof_of_json d =
     ebind (ebind (json_item ''plan_id'' d) json_str) (\<lambda>plan.
     ebind (ebind (json_item ''generation'' d) json_int) (\<lambda>gen.
     ebind (ebind (json_item ''evidence_count'' d) json_int) (\<lambda>count.
     ebind (ebind (json_item ''evidence_digest'' d) json_str) (\<lambda>ev.
     ebind (ebind (json_item ''coverage_digest'' d) json_str) (\<lambda>cov.
     ebind (ebind (json_item ''lease'' d) lease_of_json) (\<lambda>lease.
     ebind (ebind (json_item ''candidate_digest'' d) json_str) (\<lambda>cand.
     Inr \<lparr>op_plan_id = plan, op_generation = gen, op_evidence_count = count, op_evidence_digest = ev,
          op_coverage_digest = cov, op_lease = lease, op_candidate_digest = cand\<rparr>)))))))"

text \<open>Cancel the open with a receipt and fail closed.\<close>

definition cancel_open ::
  "'e adapter \<Rightarrow> int \<Rightarrow> transition_row \<Rightarrow> string \<Rightarrow> ('e, gate_state) gm" where
  "cancel_open A generation intent reason =
     andthen (gate_txn (gate_append generation ''receipt'' ''open'' (Some OPENING) None (tr_fence intent)
       (JObj [(''cancelled'', JStr reason)]) (Some (tr_operation_id intent))))
    (bind (gate_fail_close A generation reason) (\<lambda>outcome.
     ret (if fc_classification outcome = RC_FAILED_SAFE then FAILED_SAFE else SAFETY_UNKNOWN)))"

text \<open>The route is not the one the intent asked for: close everything.\<close>

definition reconcile_close_open ::
  "'e adapter \<Rightarrow> int \<Rightarrow> transition_row \<Rightarrow> route_state \<Rightarrow> ('e, gate_state) gm" where
  "reconcile_close_open A generation intent actual =
     (let op_id = Some (''open-reconcile-close:'' @ int_str generation) in
     andthen (gate_txn (gate_append generation ''intent'' ''open.reconcile.close_all'' (Some OPENING) None
       (Some ''closed'') (JObj [(''queried_actual_generation'', jint_opt (rt_generation actual))]) op_id))
    (andthen (gate_hit ''open_recovery_close.before_effect'')
    (bind (try_except (andthen (on_traffic (ad_close_all A)) (ret None)) (\<lambda>exc. ret (Some (exn_str exc)))) (\<lambda>error1.
     andthen (gate_hit ''open_recovery_close.after_effect'')
    (bind (try_except (bind (on_traffic (ad_query_route A)) (\<lambda>r. ret (Some r, error1)))
       (\<lambda>exc. ret (None, Some (case error1 of
          Some e \<Rightarrow> if e = [] then exn_str exc else e @ ''; '' @ exn_str exc
        | None \<Rightarrow> exn_str exc)))) (\<lambda>(closed, error).
     andthen (gate_hit ''open_recovery_close.after_query'')
    (andthen (gate_txn (gate_append generation ''receipt'' ''open.reconcile.close_all'' (Some OPENING) None
       (Some ''closed'') (JObj [(''actual_generation'', jint_opt (rt_generation actual)),
          (''actual_route'', route_opt_dict closed), (''error'', jopt error)]) op_id))
    (if error \<noteq> None then cancel_open A generation intent ''open recovery close failed''
     else
       andthen (gate_txn
         (andthen (gate_transition generation FAILED_SAFE ''open'' ''receipt''
            (JObj [(''actual_generation'', jint_opt (rt_generation actual)), (''action'', JStr ''close_all'')])
            None (Some (tr_operation_id intent)))
          (update_row (\<lambda>r. r\<lparr>gs_route_generation := None, gs_route_fence := ''closed''\<rparr>))))
      (ret FAILED_SAFE)))))))))"

definition reconcile_opening :: "(string \<Rightarrow> string) \<Rightarrow> 'e adapter \<Rightarrow> gate_row \<Rightarrow> ('e, gate_state) gm" where
  "reconcile_opening sha A row =
     (let generation = gs_candidate_generation row in
     bind (gets (\<lambda>g. last_row ''open'' ''intent'' (gd_transitions (g_db g)))) (\<lambda>found.
     case found of
       None \<Rightarrow> raise (TypeError ''NoneType object is not subscriptable'')
     | Some intent \<Rightarrow>
         bind (lift_result (json_read (tr_detail_json intent))) (\<lambda>detail.
         bind (lift_result (proof_of_json detail)) (\<lambda>p.
         bind (lift_result (json_item ''proof_digest'' detail)) (\<lambda>digest.
         bind (if \<not> py_eq (JStr (proof_digest sha p)) digest then ret False
               else bind (lift_result (ebind (json_read (gs_lease_json row)) lease_of_json)) (\<lambda>staged.
                    if op_lease p \<noteq> staged then ret False
                    else bind gate_now (\<lambda>now. on_traffic (ad_lease_valid A (op_lease p) now)))) (\<lambda>held.
         if \<not> held then cancel_open A generation intent ''persisted open lease is stale''
         else
           bind (query_route_or_none A) (\<lambda>found_route.
           case found_route of
             None \<Rightarrow> cancel_open A generation intent ''open recovery route query failed''
           | Some actual \<Rightarrow>
               let actual_digest = gate_digest sha (rt_snapshot actual) in
               if rt_generation actual = Some generation \<and> Some (rt_fence actual) = tr_fence intent
                  \<and> actual_digest = op_candidate_digest p
               then
                 andthen (gate_txn
                   (bind (gate_transition generation CANDIDATE_OPEN ''open.reconcile'' ''receipt''
                      (JObj [(''queried_actual_route'', JInt generation),
                         (''observed_candidate_digest'', JStr actual_digest)])
                      (Some (rt_fence actual)) (Some (tr_operation_id intent))) (\<lambda>seq.
                    update_row (\<lambda>r. r\<lparr>gs_route_generation := Some generation,
                      gs_route_fence := rt_fence actual, gs_transition_seq := seq,
                      gs_observed_candidate_digest := Some actual_digest\<rparr>))))
                (ret CANDIDATE_OPEN)
               else reconcile_close_open A generation intent actual)))))))"

definition gate_reconcile :: "(string \<Rightarrow> string) \<Rightarrow> 'e adapter \<Rightarrow> ('e, gate_state) gm" where
  "gate_reconcile sha A =
     bind gate_get_row (\<lambda>row.
     bind (gets (\<lambda>g. gd_transitions (g_db g))) (\<lambda>rows.
     case unfinished ''fail_close'' rows of
       Some intent \<Rightarrow> reconcile_fail_close A row intent
     | None \<Rightarrow>
         (case unfinished_recovery_close rows of
            Some intent \<Rightarrow> reconcile_recovery_close A row intent
          | None \<Rightarrow>
              (case unfinished ''rollback'' rows of
                 Some intent \<Rightarrow> reconcile_rollback A row intent
               | None \<Rightarrow>
                   if gs_state row \<noteq> OPENING then ret (gs_state row)
                   else reconcile_opening sha A row))))"

subsection \<open>Reading back the proof\<close>

lemma json_wf_proof [simp]: "json_wf (JObj (proof_fields p @ [(''proof_digest'', JStr y)]))"
  by (simp add: proof_fields_def)

lemma proof_of_json_jsort [simp]:
  "proof_of_json (jsort (JObj (proof_fields p @ [(''proof_digest'', JStr y)]))) = Inr p"
  by (simp add: proof_of_json_def proof_fields_def json_item_jsort json_str_def json_int_def del: jsort.simps(2))

end
