(* ===== verification/Gate_Run.thy ===== *)
theory Gate_Run
  imports Exposure_Gate
begin

section \<open>The exposure gate: a run\<close>

text \<open>
  A concrete run of the gate on the deterministic traffic authority, call by call, with the gate
  each call leaves: \<open>ex_gate\<close> (new), \<open>ex_staged\<close>, \<open>ex_closed\<close>, \<open>ex_open\<close>, \<open>ex_admitted\<close>.
\<close>

text \<open>A candidate is staged, closed, opened and takes a request, on the deterministic authority.\<close>

definition ex_pred :: json where
  "ex_pred = JObj [(''generation'', JInt 1)]"

definition ex_candidate :: json where
  "ex_candidate = JObj [(''plan_id'', JStr ''plan'')]"

definition ex_lease :: lease_grant where
  "ex_lease = \<lparr>lg_holder = ''manager'', lg_fencing_token = 7, lg_expires_at = 100\<rparr>"

definition ex_digest :: string where
  "ex_digest = ''sha256:'' @ replicate 64 (CHR ''0'')"

definition ex_proof :: open_proof where
  "ex_proof = \<lparr>op_plan_id = ''plan'', op_generation = 2, op_evidence_count = 1,
     op_evidence_digest = ex_digest, op_coverage_digest = ex_digest, op_lease = ex_lease,
     op_candidate_digest = ''sha256:00''\<rparr>"

definition ex_gate :: "det_traffic gate" where
  "ex_gate = gate_init (det_init 1 ex_pred (Some ex_lease) {} False False) (\<lambda>_. 5) None {}"

definition ex_route :: "int \<Rightarrow> string \<Rightarrow> json \<Rightarrow> det_traffic" where
  "ex_route g f s = \<lparr>dt_route = \<lparr>rt_generation = Some g, rt_fence = f, rt_snapshot = s\<rparr>,
     dt_authority = ex_lease, dt_faults = {}, dt_behavioral_restore = False, dt_rollback_fails = False\<rparr>"

definition ex_row :: "gate_state \<Rightarrow> int \<Rightarrow> int \<Rightarrow> gate_row" where
  "ex_row s n r = \<lparr>gs_state = s, gs_predecessor_generation = 1,
      gs_candidate_generation = 2,
      gs_predecessor_json = gate_json ex_pred, gs_candidate_json = gate_json ex_candidate,
      gs_route_generation = Some 1, gs_route_fence = ''fence-1'',
      gs_lease_json = gate_json (lease_dict ex_lease), gs_transition_seq = n, gs_revision = r,
      gs_schema_version = 2, gs_proof_digest = None,
      gs_candidate_digest = ''sha256:00'', gs_observed_candidate_digest = None,
      gs_predecessor_digest = ''sha256:00'', gs_observed_predecessor_digest = Some ''sha256:00''\<rparr>"

definition ex_tr :: "int \<Rightarrow> string \<Rightarrow> string \<Rightarrow> string \<Rightarrow> gate_state option \<Rightarrow> gate_state option \<Rightarrow> string option \<Rightarrow> json \<Rightarrow> transition_row" where
  "ex_tr n k p i f t e d = \<lparr>tr_seq = n, tr_generation = 2, tr_kind = k, tr_operation = p, tr_operation_id = i,
     tr_from_state = f, tr_to_state = t, tr_fence = e, tr_at = 5, tr_detail_json = gate_json d\<rparr>"

definition ex_stage_rows :: "transition_row list" where
  "ex_stage_rows = [ex_tr 1 ''receipt'' ''stage'' ''stage:2'' (Some PREDECESSOR_OPEN) (Some CANDIDATE_STAGED) None
     (JObj [(''candidate'', ex_candidate), (''candidate_digest'', JStr ''sha256:00''),
       (''predecessor_digest'', JStr ''sha256:00'')])]"

definition ex_staged :: "det_traffic gate" where
  "ex_staged = \<lparr>g_db = \<lparr>gd_row = Some (ex_row CANDIDATE_STAGED 1 1), gd_transitions = ex_stage_rows,
      gd_admissions = [], gd_events = []\<rparr>, g_traffic = ex_route 1 ''fence-1'' ex_pred,
     g_authority = None, g_faults = {}, g_clock = (\<lambda>_. 5), g_ticks = 1\<rparr>"

lemma ex_digests [simp]: "gate_digest ex_sha v = ''sha256:00''"
  by (simp add: gate_digest_def ex_sha_def)

lemma fence_of_1 [simp]: "fence_of 1 = ''fence-1''"
  by code_simp

lemmas gate_defs = py_defs on_traffic_def gate_now_def gate_authority_def gate_get_row_def gate_hit_def
  gate_append_def cas_row_def update_row_def gate_transition_def gate_txn_def db_insert_transition_def
  schema_version_def det_adapter_def det_hit_def det_query_route_def Let_def

lemma ex_stage_run: "gate_stage ex_sha det_adapter ex_candidate ex_pred ex_gate = (Inr 2, ex_staged)"
proof -
  have [simp]: "default_operation_id ''stage'' 2 = ''stage:2''" by code_simp
  have [simp]: "ebind (json_item ''generation'' ex_pred) json_int = Inr 1"
    by (simp add: ex_pred_def json_item_def json_int_def)
  show ?thesis
    by (simp add: gate_stage_def gate_defs ex_gate_def gate_init_def det_init_def ex_staged_def ex_row_def
        staged_row_def ex_stage_rows_def ex_tr_def ex_route_def)
qed

definition ex_close_rows :: "transition_row list" where
  "ex_close_rows = ex_stage_rows @
     [ex_tr 2 ''intent'' ''close'' ''close:2'' (Some CANDIDATE_STAGED) None None (JObj []),
      ex_tr 3 ''receipt'' ''close'' ''close:2'' (Some CANDIDATE_STAGED) (Some CANDIDATE_CLOSED) None
       (JObj [(''actual_route'', route_dict (dt_route (ex_route 1 ''fence-1'' ex_pred))),
         (''observed_predecessor_digest'', JStr ''sha256:00'')])]"

definition ex_closed_at :: "admission_row list \<Rightarrow> event_row list \<Rightarrow> det_traffic gate" where
  "ex_closed_at adms evs = \<lparr>g_db = \<lparr>gd_row = Some (ex_row CANDIDATE_CLOSED 3 2), gd_transitions = ex_close_rows,
      gd_admissions = adms, gd_events = evs\<rparr>, g_traffic = ex_route 1 ''fence-1'' ex_pred,
     g_authority = None, g_faults = {}, g_clock = (\<lambda>_. 5), g_ticks = 3\<rparr>"

abbreviation ex_closed :: "det_traffic gate" where
  "ex_closed \<equiv> ex_closed_at [] []"

lemmas ex_closed_def = ex_closed_at_def [of "[]" "[]"]

lemma int_str_2 [simp]: "int_str 2 = ''2''"
  by code_simp

lemma ex_close_run: "gate_close ex_sha det_adapter 2 ex_staged = (Inr (), ex_closed)"
  by (simp add: gate_close_def gate_defs ex_staged_def ex_closed_def ex_row_def det_close_def
      ex_close_rows_def ex_stage_rows_def ex_tr_def ex_route_def pending_intent_def)

definition ex_fence :: string where
  "ex_fence = ''gate-2-lease-7-00-4''"

definition ex_open_rows :: "transition_row list" where
  "ex_open_rows = ex_close_rows @
     [ex_tr 4 ''intent'' ''open'' ''open:2'' (Some CANDIDATE_CLOSED) (Some OPENING) (Some ex_fence)
       (JObj (proof_fields ex_proof @ [(''proof_digest'', JStr ''sha256:00'')])),
      ex_tr 5 ''receipt'' ''open'' ''open:2'' (Some OPENING) (Some CANDIDATE_OPEN) (Some ex_fence)
       (JObj [(''actual_route'', JInt 2), (''lease_fencing_token'', JInt 7),
         (''proof_digest'', JStr ''sha256:00''), (''observed_candidate_digest'', JStr ''sha256:00'')])]"

definition ex_open_row :: gate_row where
  "ex_open_row = (ex_row CANDIDATE_OPEN 5 4)\<lparr>gs_proof_digest := Some ''sha256:00'',
     gs_route_generation := Some 2, gs_route_fence := ex_fence,
     gs_observed_candidate_digest := Some ''sha256:00''\<rparr>"

definition ex_open_at :: "admission_row list \<Rightarrow> event_row list \<Rightarrow> det_traffic gate" where
  "ex_open_at adms evs = \<lparr>g_db = \<lparr>gd_row = Some ex_open_row, gd_transitions = ex_open_rows,
      gd_admissions = adms, gd_events = evs\<rparr>, g_traffic = ex_route 2 ex_fence ex_candidate,
     g_authority = None, g_faults = {}, g_clock = (\<lambda>_. 5), g_ticks = 7\<rparr>"

abbreviation ex_open :: "det_traffic gate" where
  "ex_open \<equiv> ex_open_at [] []"

lemmas ex_open_def = ex_open_at_def [of "[]" "[]"]

lemma ex_checks:
  "open_checks det_adapter 2 ex_proof (ex_row CANDIDATE_CLOSED 3 2) (ex_closed_at adms evs) =
     (Inr ex_candidate, (ex_closed_at adms evs)\<lparr>g_ticks := 4\<rparr>)"
proof -
  have [simp]: "json_read (gate_json ex_candidate) = Inr ex_candidate"
      "(case ex_candidate of JStr s \<Rightarrow> Inr (JStr s) | _ \<Rightarrow> json_item ''plan_id'' ex_candidate) =
         Inr (JStr ''plan'')"
    by (simp_all add: ex_candidate_def json_item_def)
  have [simp]: "is_sha256 ex_digest" by code_simp
  show ?thesis
    by (simp add: open_checks_def gate_defs ex_row_def ex_proof_def py_eq_def det_lease_valid_def
        ex_closed_at_def ex_route_def ex_lease_def)
qed

lemma ex_open_run:
  "gate_open ex_sha det_adapter 2 ex_proof (ex_closed_at adms evs) = (Inr ex_fence, ex_open_at adms evs)"
proof -
  have [simp]: "default_operation_id ''open'' 2 = ''open:2''" by code_simp
  have [simp]: "open_fence 2 ex_proof (ex_row CANDIDATE_CLOSED 3 2) = ex_fence" by code_simp
  have [simp]: "proof_digest ex_sha p = ''sha256:00''" for p by (simp add: proof_digest_def)
  have [simp]: "gate_get_row (ex_closed_at adms evs) =
      (Inr (ex_row CANDIDATE_CLOSED 3 2), ex_closed_at adms evs)"
    by (simp add: gate_get_row_def ex_closed_at_def py_defs schema_version_def ex_row_def)
  have [simp]: "lg_expires_at ex_lease = 100" "lg_fencing_token ex_lease = 7"
      "op_candidate_digest ex_proof = ''sha256:00''" "op_lease ex_proof = ex_lease"
    by (simp_all add: ex_proof_def ex_lease_def)
  have st: "gs_state (ex_row s n r) = s" for s n r by (simp add: ex_row_def)
  show ?thesis
    unfolding gate_open_def bind_def [of gate_get_row]
    by (simp add: bind_def [of "open_checks _ _ _ _"] ex_checks st)
      (simp add: gate_defs ex_closed_at_def ex_open_at_def ex_row_def ex_open_row_def
        det_open_def ex_open_rows_def ex_tr_def ex_route_def ex_close_rows_def ex_stage_rows_def)
qed

definition ex_request :: admission_request where
  "ex_request = \<lparr>rq_request_id = ''r1'', rq_admitted_at = 6\<rparr>"

definition ex_admission :: admission_row where
  "ex_admission = \<lparr>am_request_id = ''r1'', am_route_epoch = ex_fence, am_chosen_generation = 2,
     am_admitted_at = 6, am_finished_at = None, am_result = None, am_abort = None, am_transition_seq = 5\<rparr>"

definition ex_admitted :: "det_traffic gate" where
  "ex_admitted = ex_open\<lparr>g_db := (g_db ex_open)\<lparr>gd_admissions := [ex_admission],
     gd_events := [\<lparr>ae_seq = 1, ae_request_id = ''r1'', ae_kind = ''admit'', ae_chosen_generation = 2,
       ae_route_epoch = ex_fence, ae_at = 6, ae_transition_seq = 5, ae_detail_json = gate_json (JObj [])\<rparr>]\<rparr>\<rparr>"

lemma ex_observe_run: "gate_observe ex_sha det_adapter ex_request None ex_open = (Inr 2, ex_admitted)"
  by (simp add: gate_observe_def gate_admit_def gate_defs ex_open_def ex_request_def ex_admitted_def
      ex_open_row_def ex_row_def ex_route_def admission_of_def blocks_admission_def before_open_def
      unknown_route_def ex_admission_def db_insert_event_def ex_fence_def)

text \<open>
  The same run with a request to the predecessor that is admitted before the open and not
  finished: the drain does not complete and the gate stays in \<open>DRAINING\<close>.
\<close>

definition ex_old_request :: admission_request where
  "ex_old_request = \<lparr>rq_request_id = ''r0'', rq_admitted_at = 4\<rparr>"

definition ex_old_admission :: admission_row where
  "ex_old_admission = \<lparr>am_request_id = ''r0'', am_route_epoch = ''fence-1'', am_chosen_generation = 1,
     am_admitted_at = 4, am_finished_at = None, am_result = None, am_abort = None, am_transition_seq = 3\<rparr>"

definition ex_old_event :: event_row where
  "ex_old_event = \<lparr>ae_seq = 1, ae_request_id = ''r0'', ae_kind = ''admit'', ae_chosen_generation = 1,
     ae_route_epoch = ''fence-1'', ae_at = 4, ae_transition_seq = 3, ae_detail_json = gate_json (JObj [])\<rparr>"

lemma ex_old_run: "gate_observe ex_sha det_adapter ex_old_request None ex_closed =
    (Inr 1, ex_closed_at [ex_old_admission] [ex_old_event])"
  by (simp add: gate_observe_def gate_admit_def gate_defs ex_closed_at_def ex_old_request_def
      ex_row_def ex_route_def admission_of_def blocks_admission_def before_open_def predecessor_mismatch_def
      unknown_route_def ex_old_admission_def ex_old_event_def db_insert_event_def)

definition ex_draining :: "det_traffic gate" where
  "ex_draining = (ex_open_at [ex_old_admission] [ex_old_event])\<lparr>
     g_db := \<lparr>gd_row = Some (ex_open_row\<lparr>gs_state := DRAINING, gs_transition_seq := 6, gs_revision := 5\<rparr>),
       gd_transitions = ex_open_rows @
         [ex_tr 6 ''intent'' ''drain'' ''drain:2'' (Some CANDIDATE_OPEN) (Some DRAINING) None (JObj [])],
       gd_admissions = [ex_old_admission], gd_events = [ex_old_event]\<rparr>, g_ticks := 8\<rparr>"

lemma ex_drain_run:
  "gate_drain 2 (ex_open_at [ex_old_admission] [ex_old_event]) = (Inr False, ex_draining)"
proof -
  have [simp]: "default_operation_id ''drain'' 2 = ''drain:2''" by code_simp
  show ?thesis
    by (simp add: gate_drain_def gate_defs ex_open_at_def ex_draining_def ex_open_row_def ex_row_def
        ex_old_admission_def ex_open_rows_def ex_close_rows_def ex_stage_rows_def ex_tr_def)
qed

end
