(* ===== verification/Gate_Invariant.thy ===== *)
theory Gate_Invariant
  imports Gate_Run
begin

section \<open>The exposure gate: what its database always satisfies\<close>

text \<open>
  A weakest-precondition calculus for gate methods that keeps only the database: \<open>gwp m Q E d\<close>
  holds when every run of \<open>m\<close> on a gate with database \<open>d\<close>, whatever the traffic authority, the
  clock and the fault points do, ends in a database that satisfies \<open>Q\<close> (with the result) or, when
  it raises, \<open>E\<close>.  With it the invariant \<open>gate_inv\<close> of the database and the growth \<open>db_extends\<close> of
  its tables are shown once per method, and lifted to every sequence of calls.
\<close>

subsection \<open>The calculus\<close>

abbreviation gwp ::
  "('e, 'a) gm \<Rightarrow> ('a \<Rightarrow> gate_db \<Rightarrow> bool) \<Rightarrow> (py_exn \<Rightarrow> gate_db \<Rightarrow> bool) \<Rightarrow> gate_db \<Rightarrow> bool" where
  "gwp \<equiv> pwp g_db"

named_theorems gwp_rules
named_theorems gwp_txn_rules

lemmas gwpI = pwpI [where view = g_db]
lemmas gwp_Inr = pwp_Inr [where view = g_db]
lemmas gwp_Inl = pwp_Inl [where view = g_db]
lemmas gwp_bind = pwp_bind [where view = g_db]
lemmas gwp_andthen = pwp_andthen [where view = g_db]
lemmas gwp_gets = pwp_gets [where view = g_db]
lemmas gwp_lift_result = pwp_lift_result [where view = g_db]

declare pwp_rules [gwp_rules]

lemma gwp_gets_db [gwp_rules]: "Q (f d) d \<Longrightarrow> gwp (gets (\<lambda>g. f (g_db g))) Q E d"
  by (simp add: pwp_def py_defs)

lemma gwp_modify_db: "Q () (f d) \<Longrightarrow> gwp (modify (\<lambda>g. g\<lparr>g_db := f (g_db g)\<rparr>)) Q E d"
  by (simp add: pwp_def py_defs)

lemma gwp_txn [gwp_rules]: "gwp m Q (\<lambda>e _. E e d) d \<Longrightarrow> gwp (gate_txn m) Q E d"
  unfolding gate_txn_def by (rule pwp_atomically) simp_all

lemma gwp_on_traffic [gwp_rules]: "(\<And>x. Q x d) \<Longrightarrow> (\<And>e. E e d) \<Longrightarrow> gwp (on_traffic m) Q E d"
  unfolding on_traffic_def by (rule pwp_zoom) simp_all

lemma gwp_now [gwp_rules]: "(\<And>t. Q t d) \<Longrightarrow> gwp gate_now Q E d"
  by (simp add: pwp_def gate_now_def py_defs)

lemma gwp_authority [gwp_rules]: "(\<And>l. Q l d) \<Longrightarrow> gwp (gate_authority A) Q E d"
  unfolding gate_authority_def by (rule gwp_gets)

lemma gwp_hit [gwp_rules]: "Q () d \<Longrightarrow> E (InjectedCrash p) d \<Longrightarrow> gwp (gate_hit p) Q E d"
  by (simp add: pwp_def gate_hit_def py_defs)

lemma gwp_get_row [gwp_rules]:
  "(\<And>row. gd_row d = Some row \<Longrightarrow> gs_schema_version row = schema_version \<Longrightarrow> Q row d) \<Longrightarrow> (\<And>e. E e d) \<Longrightarrow>
   gwp gate_get_row Q E d"
  by (auto simp: pwp_def gate_get_row_def py_defs split: option.splits)

lemma gwp_query_or_none [gwp_rules]:
  "(\<And>r. Q r d) \<Longrightarrow> gwp (query_route_or_none A) Q E d"
  unfolding query_route_or_none_def by (intro gwp_rules)

lemma gwp_close_all_suppressed [gwp_rules]:
  "Q () d \<Longrightarrow> gwp (close_all_suppressed A) Q E d"
  unfolding close_all_suppressed_def by (intro gwp_rules) simp

lemma gwp_update_row:
  "Q () (d\<lparr>gd_row := map_option f (gd_row d)\<rparr>) \<Longrightarrow> gwp (update_row f) Q E d"
  by (simp add: pwp_def update_row_def py_defs)

definition next_seq :: "gate_db \<Rightarrow> int" where
  "next_seq d = int (length (gd_transitions d)) + 1"

definition correlation :: "string option \<Rightarrow> string \<Rightarrow> int \<Rightarrow> string" where
  "correlation operation_id operation generation = (case operation_id of
     None \<Rightarrow> default_operation_id operation generation
   | Some i \<Rightarrow> if i = [] then default_operation_id operation generation else i)"

lemma gwp_append:
  assumes "\<And>now. Q (next_seq d) (db_insert_transition
      \<lparr>tr_seq = next_seq d, tr_generation = generation, tr_kind = kind, tr_operation = operation,
       tr_operation_id = correlation operation_id operation generation, tr_from_state = from_state,
       tr_to_state = to_state, tr_fence = fence, tr_at = now, tr_detail_json = gate_json detail\<rparr> d)"
  shows "gwp (gate_append generation kind operation from_state to_state fence detail operation_id) Q E d"
  using assms unfolding gate_append_def pwp_def
  by (simp add: gate_now_def py_defs next_seq_def correlation_def)

lemma gwp_transition:
  assumes "\<And>row now. gd_row d = Some row \<Longrightarrow> target = gs_state row \<or> target \<in> allowed (gs_state row) \<Longrightarrow>
      Q (next_seq d) ((db_insert_transition
      \<lparr>tr_seq = next_seq d, tr_generation = generation, tr_kind = kind, tr_operation = operation,
       tr_operation_id = correlation operation_id operation generation,
       tr_from_state = Some (gs_state row), tr_to_state = Some target, tr_fence = fence, tr_at = now,
       tr_detail_json = gate_json detail\<rparr> d)\<lparr>gd_row := Some (row\<lparr>gs_state := target,
         gs_transition_seq := next_seq d, gs_revision := gs_revision row + 1\<rparr>)\<rparr>)"
    and "\<And>e. E e d"
  shows "gwp (gate_transition generation target operation kind detail fence operation_id) Q E d"
  unfolding gate_transition_def cas_row_def
  by (intro gwp_rules gwp_append gwp_modify_db; (rule assms(2))?)
    (use assms(1) in \<open>fastforce simp: db_insert_transition_def\<close>)+

text \<open>The rules so far give the exact database.\<close>

lemmas gwp_exact = gwp_rules gwp_append gwp_modify_db gwp_transition gwp_update_row

subsection \<open>The invariant\<close>

text \<open>
  The replay of a log: a row must start from the state reached so far, and with a target state it
  moves to the same state or along an edge of \<open>allowed\<close>.  The one exception is the receipt of a
  recovery close, which \<open>reconcile\<close> writes as started from \<open>OPENING\<close> whatever the state is by then.
\<close>

definition recovery_receipt :: "transition_row \<Rightarrow> bool" where
  "recovery_receipt t \<longleftrightarrow> tr_kind t = ''receipt'' \<and> tr_operation t = ''open.reconcile.close_all''
     \<and> tr_from_state t = Some OPENING \<and> tr_to_state t = None"

definition replay_step :: "gate_state option \<Rightarrow> transition_row \<Rightarrow> gate_state option" where
  "replay_step s t = (case s of None \<Rightarrow> None | Some a \<Rightarrow>
     (case tr_to_state t of
        None \<Rightarrow> if tr_from_state t = Some a \<or> recovery_receipt t then Some a else None
      | Some b \<Rightarrow> if tr_from_state t = Some a \<and> (b = a \<or> b \<in> allowed a) then Some b else None))"

definition replay :: "gate_state \<Rightarrow> transition_row list \<Rightarrow> gate_state option" where
  "replay s ts = foldl replay_step (Some s) ts"

definition numbered_rows :: "transition_row list \<Rightarrow> bool" where
  "numbered_rows ts \<longleftrightarrow> map tr_seq ts = map (\<lambda>i. int i + 1) [0..<length ts]"

definition is_open_receipt :: "transition_row \<Rightarrow> bool" where
  "is_open_receipt t \<longleftrightarrow>
     tr_kind t = ''receipt'' \<and> tr_to_state t = Some CANDIDATE_OPEN \<and> prefix ''open'' (tr_operation t)"

definition open_receipts :: "transition_row list \<Rightarrow> transition_row list" where
  "open_receipts ts = filter is_open_receipt ts"

text \<open>The receipt of a \<open>close\<close> cancels it or has seen the staged predecessor.\<close>

definition close_receipt_ok :: "gate_row \<Rightarrow> transition_row \<Rightarrow> bool" where
  "close_receipt_ok row t \<longleftrightarrow> (tr_operation t = ''close'' \<and> tr_kind t = ''receipt'' \<longrightarrow>
     (\<exists>kvs. distinct (map fst kvs) \<and> tr_detail_json t = gate_json (JObj kvs) \<and>
       (map_of kvs ''cancelled'' \<noteq> None \<or>
        map_of kvs ''observed_predecessor_digest'' = Some (JStr (gs_predecessor_digest row)))))"

text \<open>The log agrees with the durable row.\<close>

definition log_inv :: "gate_row \<Rightarrow> transition_row list \<Rightarrow> bool" where
  "log_inv row ts \<longleftrightarrow> numbered_rows ts
     \<and> list_all (\<lambda>t. tr_generation t = gs_candidate_generation row) ts
     \<and> replay PREDECESSOR_OPEN ts = Some (gs_state row)
     \<and> 1 \<le> gs_transition_seq row \<and> gs_transition_seq row \<le> int (length ts)
     \<and> gs_revision row = int (length (filter (\<lambda>t. tr_to_state t \<noteq> None) ts))
     \<and> gs_candidate_generation row = gs_predecessor_generation row + 1
     \<and> list_all (close_receipt_ok row) ts"

text \<open>What the intent of \<open>open\<close> and an open receipt record.\<close>

definition intent_for :: "gate_row \<Rightarrow> transition_row \<Rightarrow> bool" where
  "intent_for row i \<longleftrightarrow> (\<exists>p x.
     tr_detail_json i = gate_json (JObj (proof_fields p @ [(''proof_digest'', JStr x)])) \<and>
     op_candidate_digest p = gs_candidate_digest row) \<and> tr_fence i \<noteq> Some []"

definition receipt_for :: "gate_row \<Rightarrow> transition_row \<Rightarrow> bool" where
  "receipt_for row t \<longleftrightarrow> (\<exists>kvs. json_wf (JObj kvs) \<and> tr_detail_json t = gate_json (JObj kvs) \<and>
     map_of kvs ''observed_candidate_digest'' = Some (JStr (gs_candidate_digest row))) \<and>
     tr_fence t \<noteq> Some []"

text \<open>The route and the open receipts in each phase.\<close>

fun phase_inv :: "gate_row \<Rightarrow> transition_row list \<Rightarrow> gate_state \<Rightarrow> bool" where
  "phase_inv row ts OPENING \<longleftrightarrow> open_receipts ts = [] \<and>
     (\<exists>i. last_row ''open'' ''intent'' ts = Some i \<and> intent_for row i)"
| "phase_inv row ts CANDIDATE_OPEN \<longleftrightarrow>
     (\<exists>t. open_receipts ts = [t] \<and> tr_fence t = Some (gs_route_fence row) \<and>
       tr_seq t \<le> gs_transition_seq row \<and> gs_route_generation row = Some (gs_candidate_generation row) \<and>
       gs_observed_candidate_digest row = Some (gs_candidate_digest row) \<and> receipt_for row t)"
| "phase_inv row ts DRAINING \<longleftrightarrow>
     (\<exists>t. open_receipts ts = [t] \<and> tr_fence t = Some (gs_route_fence row) \<and>
       tr_seq t \<le> gs_transition_seq row \<and> gs_route_generation row = Some (gs_candidate_generation row) \<and>
       gs_observed_candidate_digest row = Some (gs_candidate_digest row) \<and> receipt_for row t)"
| "phase_inv row ts s \<longleftrightarrow> (if allowed s = {}
     then open_receipts ts = [] \<or> (\<exists>t. open_receipts ts = [t] \<and> receipt_for row t)
     else open_receipts ts = [] \<and> gs_route_fence row = fence_of (gs_predecessor_generation row))"

text \<open>
  Admissions: the predecessor's with the predecessor's fence before the open receipt, the
  candidate's with the fence of the open receipt from then on.
\<close>

definition admission_ok :: "gate_row \<Rightarrow> transition_row list \<Rightarrow> admission_row \<Rightarrow> bool" where
  "admission_ok row ts r \<longleftrightarrow> am_transition_seq r \<le> gs_transition_seq row \<and>
     (if am_chosen_generation r = gs_predecessor_generation row
      then am_route_epoch r = fence_of (gs_predecessor_generation row) \<and>
        list_all (\<lambda>t. am_transition_seq r < tr_seq t) (open_receipts ts)
      else am_chosen_generation r = gs_candidate_generation row \<and>
        (\<exists>t. open_receipts ts = [t] \<and> tr_fence t = Some (am_route_epoch r) \<and> tr_seq t \<le> am_transition_seq r))"

definition event_ok :: "admission_row list \<Rightarrow> event_row \<Rightarrow> bool" where
  "event_ok adms e \<longleftrightarrow> list_ex (\<lambda>r. am_request_id r = ae_request_id e \<and>
     am_chosen_generation r = ae_chosen_generation e \<and> am_route_epoch r = ae_route_epoch e) adms"

definition admission_inv ::
  "gate_row \<Rightarrow> transition_row list \<Rightarrow> admission_row list \<Rightarrow> event_row list \<Rightarrow> bool" where
  "admission_inv row ts adms evs \<longleftrightarrow>
     distinct (map am_request_id adms) \<and> list_all (admission_ok row ts) adms \<and> list_all (event_ok adms) evs"

definition gate_inv :: "gate_db \<Rightarrow> bool" where
  "gate_inv d \<longleftrightarrow> (case gd_row d of
     None \<Rightarrow> gd_transitions d = [] \<and> gd_admissions d = [] \<and> gd_events d = []
   | Some row \<Rightarrow> log_inv row (gd_transitions d) \<and> phase_inv row (gd_transitions d) (gs_state row) \<and>
       admission_inv row (gd_transitions d) (gd_admissions d) (gd_events d))"

text \<open>How the database may change: rows are never removed, and the identity columns never change.\<close>

definition row_identity :: "gate_row \<Rightarrow> int \<times> int \<times> string \<times> string \<times> string \<times> string \<times> string" where
  "row_identity r = (gs_predecessor_generation r, gs_candidate_generation r, gs_predecessor_json r,
     gs_candidate_json r, gs_lease_json r, gs_candidate_digest r, gs_predecessor_digest r)"

definition admission_kept :: "admission_row \<Rightarrow> admission_row \<Rightarrow> bool" where
  "admission_kept r r' \<longleftrightarrow> r' = r \<or> am_finished_at r = None \<and> am_finished_at r' \<noteq> None \<and>
     am_request_id r' = am_request_id r \<and> am_route_epoch r' = am_route_epoch r \<and>
     am_chosen_generation r' = am_chosen_generation r \<and> am_admitted_at r' = am_admitted_at r \<and>
     am_transition_seq r' = am_transition_seq r"

definition db_extends :: "gate_db \<Rightarrow> gate_db \<Rightarrow> bool" where
  "db_extends d d' \<longleftrightarrow>
     (case gd_row d of None \<Rightarrow> True | Some row \<Rightarrow>
        \<exists>row'. gd_row d' = Some row' \<and> row_identity row' = row_identity row) \<and>
     prefix (gd_transitions d) (gd_transitions d') \<and> prefix (gd_events d) (gd_events d') \<and>
     length (gd_admissions d) \<le> length (gd_admissions d') \<and>
     list_all2 admission_kept (gd_admissions d) (take (length (gd_admissions d)) (gd_admissions d'))"

definition db_ok :: "gate_db \<Rightarrow> gate_db \<Rightarrow> bool" where
  "db_ok d0 d \<longleftrightarrow> gate_inv d \<and> db_extends d0 d"

lemma admission_kept_refl [simp]: "admission_kept r r"
  by (simp add: admission_kept_def)

lemma admission_kept_trans: "admission_kept r s \<Longrightarrow> admission_kept s t \<Longrightarrow> admission_kept r t"
  by (auto simp: admission_kept_def)

lemma db_extends_refl [simp]: "db_extends d d"
  by (simp add: db_extends_def list_all2_same split: option.splits)

lemma db_extends_trans:
  assumes "db_extends a b" and "db_extends b c"
  shows "db_extends a c"
proof -
  let ?n = "length (gd_admissions a)" and ?m = "length (gd_admissions b)"
  from assms have le: "?n \<le> ?m" and le': "?m \<le> length (gd_admissions c)"
    and ab: "list_all2 admission_kept (gd_admissions a) (take ?n (gd_admissions b))"
    and bc: "list_all2 admission_kept (gd_admissions b) (take ?m (gd_admissions c))"
    by (auto simp: db_extends_def)
  from bc have "list_all2 admission_kept (take ?n (gd_admissions b)) (take ?n (take ?m (gd_admissions c)))"
    by (rule list_all2_takeI)
  with le have "list_all2 admission_kept (take ?n (gd_admissions b)) (take ?n (gd_admissions c))"
    by (simp add: take_take min_absorb1)
  with ab have "list_all2 admission_kept (gd_admissions a) (take ?n (gd_admissions c))"
    by - (rule list_all2_trans [of admission_kept admission_kept admission_kept, OF admission_kept_trans])
  with assms le le' show ?thesis
    by (auto simp: db_extends_def split: option.splits intro: prefix_order.trans)
qed

lemma db_ok_refl: "gate_inv d \<Longrightarrow> db_ok d d"
  by (simp add: db_ok_def)

lemma db_ok_trans: "db_ok a b \<Longrightarrow> db_ok b c \<Longrightarrow> db_ok a c"
  by (auto simp: db_ok_def intro: db_extends_trans)

subsection \<open>One row more\<close>

lemma replay_append [simp]: "replay s (ts @ [t]) = replay_step (replay s ts) t"
  by (simp add: replay_def)

lemma log_numbered_append [simp]:
  "numbered_rows (ts @ [t]) \<longleftrightarrow> numbered_rows ts \<and> tr_seq t = int (length ts) + 1"
  by (auto simp: numbered_rows_def)

lemma open_receipts_append [simp]:
  "open_receipts (ts @ [t]) = open_receipts ts @ (if is_open_receipt t then [t] else [])"
  by (simp add: open_receipts_def)

lemma last_row_append [simp]:
  "last_row operation kind (ts @ [t]) =
     (if tr_operation t = operation \<and> tr_kind t = kind then Some t else last_row operation kind ts)"
  by (simp add: last_row_def)

lemma open_receipt_target: "is_open_receipt t \<Longrightarrow> tr_to_state t = Some CANDIDATE_OPEN"
  by (simp add: is_open_receipt_def)

lemma db_insert_transition_sel [simp]:
  "gd_row (db_insert_transition t d) = gd_row d"
  "gd_transitions (db_insert_transition t d) = gd_transitions d @ [t]"
  "gd_admissions (db_insert_transition t d) = gd_admissions d"
  "gd_events (db_insert_transition t d) = gd_events d"
  by (simp_all add: db_insert_transition_def)

lemma receipt_for_identity: "row_identity row' = row_identity row \<Longrightarrow> receipt_for row' t = receipt_for row t"
  by (simp add: receipt_for_def row_identity_def)

lemma close_receipt_ok_identity:
  "row_identity row' = row_identity row \<Longrightarrow> close_receipt_ok row' = close_receipt_ok row"
  by (simp add: close_receipt_ok_def row_identity_def fun_eq_iff)

lemma close_receipt_ok_other: "tr_operation t \<noteq> ''close'' \<Longrightarrow> close_receipt_ok row t"
  by (simp add: close_receipt_ok_def)

lemma phase_receipts:
  assumes "phase_inv row ts s"
  shows "open_receipts ts = [] \<or> (\<exists>t. open_receipts ts = [t] \<and> receipt_for row t)"
  using assms by (cases s) auto

lemma gate_inv_append:
  assumes "gate_inv d" and "gd_row d = Some row" and "tr_to_state t = None"
    and "tr_seq t = next_seq d" and "tr_generation t = gs_candidate_generation row"
    and "tr_kind t \<noteq> ''intent'' \<or> tr_operation t \<noteq> ''open''"
    and "tr_from_state t = Some (gs_state row) \<or> recovery_receipt t" and "close_receipt_ok row t"
  shows "gate_inv (db_insert_transition t d)"
proof -
  let ?ts = "gd_transitions d"
  have opens: "\<not> is_open_receipt t"
    using assms(3) by (auto dest: open_receipt_target)
  have last: "last_row ''open'' ''intent'' (?ts @ [t]) = last_row ''open'' ''intent'' ?ts"
    using assms(6) by auto
  have "log_inv row (?ts @ [t])"
    using assms by (auto simp: gate_inv_def log_inv_def next_seq_def replay_step_def)
  moreover have "phase_inv row (?ts @ [t]) (gs_state row)"
    using assms(1,2) opens last by (cases "gs_state row") (simp_all add: gate_inv_def)
  moreover have "admission_ok row (?ts @ [t]) = admission_ok row ?ts"
    using opens by (simp add: admission_ok_def fun_eq_iff)
  then have "admission_inv row (?ts @ [t]) (gd_admissions d) (gd_events d)"
    using assms(1,2) by (simp add: gate_inv_def admission_inv_def)
  ultimately show ?thesis
    using assms(2) by (simp add: gate_inv_def)
qed

text \<open>The transition table and the row move together.\<close>

lemma admission_ok_step:
  assumes "admission_ok row ts r" and "row_identity row' = row_identity row"
    and "gs_transition_seq row \<le> int (length ts)" and "gs_transition_seq row' = tr_seq t"
    and "tr_seq t = int (length ts) + 1" and "is_open_receipt t \<longrightarrow> open_receipts ts = []"
  shows "admission_ok row' (ts @ [t]) r"
  using assms by (auto simp: admission_ok_def row_identity_def split: if_splits)

lemma gate_inv_move:
  assumes inv: "gate_inv d" and row: "gd_row d = Some row"
    and seq: "tr_seq t = next_seq d" and gen: "tr_generation t = gs_candidate_generation row"
    and from_to: "tr_from_state t = Some (gs_state row)" "tr_to_state t = Some (gs_state row')"
    and close: "close_receipt_ok row t"
    and edge: "gs_state row' = gs_state row \<or> gs_state row' \<in> allowed (gs_state row)"
    and ident: "row_identity row' = row_identity row"
    and new: "gs_transition_seq row' = next_seq d" "gs_revision row' = gs_revision row + 1"
    and single: "is_open_receipt t \<longrightarrow> open_receipts (gd_transitions d) = []"
    and phase: "phase_inv row' (gd_transitions d @ [t]) (gs_state row')"
    and d': "gd_row d' = Some row'" "gd_transitions d' = gd_transitions d @ [t]"
      "gd_admissions d' = gd_admissions d" "gd_events d' = gd_events d"
  shows "gate_inv d'"
proof -
  let ?ts = "gd_transitions d"
  from inv row have log: "log_inv row ?ts"
    and adm: "admission_inv row ?ts (gd_admissions d) (gd_events d)"
    by (auto simp: gate_inv_def)
  have "log_inv row' (?ts @ [t])"
    using log seq gen from_to edge ident new close close_receipt_ok_identity [OF ident]
    by (auto simp: log_inv_def next_seq_def replay_step_def row_identity_def)
  moreover have "admission_ok row ?ts r \<Longrightarrow> admission_ok row' (?ts @ [t]) r" for r
    by (rule admission_ok_step [OF _ ident]) (use log seq new single in \<open>auto simp: log_inv_def next_seq_def\<close>)
  then have "admission_inv row' (?ts @ [t]) (gd_admissions d) (gd_events d)"
    using adm by (auto simp: admission_inv_def list_all_iff)
  ultimately show ?thesis
    using phase d' by (simp add: gate_inv_def)
qed

lemma db_extends_step:
  assumes "gd_row d = Some row" and "gd_row d' = Some row'" and "row_identity row' = row_identity row"
    and "gd_transitions d' = gd_transitions d @ ts" and "gd_admissions d' = gd_admissions d"
    and "gd_events d' = gd_events d"
  shows "db_extends d d'"
  using assms by (simp add: db_extends_def list_all2_same)

lemma db_ok_append:
  assumes "db_ok d0 d" and "gd_row d = Some row" and "tr_to_state t = None"
    and "tr_seq t = next_seq d" and "tr_generation t = gs_candidate_generation row"
    and "tr_kind t \<noteq> ''intent'' \<or> tr_operation t \<noteq> ''open''"
    and "tr_from_state t = Some (gs_state row) \<or> recovery_receipt t" and "close_receipt_ok row t"
  shows "db_ok d0 (db_insert_transition t d)"
proof -
  have "db_ok d (db_insert_transition t d)"
    using assms gate_inv_append [of d row t] by (auto simp: db_ok_def intro: db_extends_step)
  with assms(1) show ?thesis by (rule db_ok_trans)
qed

lemma db_ok_move:
  assumes "db_ok d0 d" and "gd_row d = Some row"
    and "tr_seq t = next_seq d" and "tr_generation t = gs_candidate_generation row"
    and "tr_from_state t = Some (gs_state row)" "tr_to_state t = Some (gs_state row')"
    and "close_receipt_ok row t"
    and "gs_state row' = gs_state row \<or> gs_state row' \<in> allowed (gs_state row)"
    and "row_identity row' = row_identity row"
    and "gs_transition_seq row' = next_seq d" "gs_revision row' = gs_revision row + 1"
    and "is_open_receipt t \<longrightarrow> open_receipts (gd_transitions d) = []"
    and "phase_inv row' (gd_transitions d @ [t]) (gs_state row')"
    and "gd_row d' = Some row'" "gd_transitions d' = gd_transitions d @ [t]"
      "gd_admissions d' = gd_admissions d" "gd_events d' = gd_events d"
  shows "db_ok d0 d'"
proof -
  have "gate_inv d'"
    by (rule gate_inv_move [of d row t row']) (use assms in \<open>simp_all add: db_ok_def\<close>)
  moreover have "db_extends d d'"
    by (rule db_extends_step [of d row d' row' "[t]"]) (use assms in simp_all)
  ultimately have "db_ok d d'" by (simp add: db_ok_def)
  with assms(1) show ?thesis by (rule db_ok_trans)
qed

subsection \<open>Every method keeps the invariant\<close>

text \<open>A move to a terminal state, whatever it does to the route columns.\<close>

lemma db_ok_terminal:
  assumes "db_ok d0 d" and "gd_row d = Some row" and "allowed (gs_state row') = {}"
    and "tr_seq t = next_seq d" and "tr_generation t = gs_candidate_generation row"
    and "tr_from_state t = Some (gs_state row)" "tr_to_state t = Some (gs_state row')"
    and "close_receipt_ok row t"
    and "gs_state row' = gs_state row \<or> gs_state row' \<in> allowed (gs_state row)"
    and "row_identity row' = row_identity row"
    and "gs_transition_seq row' = next_seq d" "gs_revision row' = gs_revision row + 1"
    and "gd_row d' = Some row'" "gd_transitions d' = gd_transitions d @ [t]"
      "gd_admissions d' = gd_admissions d" "gd_events d' = gd_events d"
  shows "db_ok d0 d'"
proof -
  have no: "\<not> is_open_receipt t"
    using assms(3,7) by (auto dest: open_receipt_target)
  have "phase_inv row (gd_transitions d) (gs_state row)"
    using assms(1,2) by (simp add: db_ok_def gate_inv_def)
  then have phase: "phase_inv row' (gd_transitions d @ [t]) (gs_state row')"
    using assms(3) no receipt_for_identity [OF assms(10)]
    by (cases "gs_state row'") (auto dest: phase_receipts)
  show ?thesis
    by (rule db_ok_move [OF assms(1,2), of t row']) (use assms no phase in simp_all)
qed

lemma closed_target_terminal [simp]: "allowed (closed_target r) = {}"
  by (simp add: closed_target_def)

lemma rollback_target_terminal [simp]: "allowed (rollback_target c) = {}"
  by (cases c) simp_all

lemma observed_route_row_sel [simp]:
  "gs_state (observed_route_row a r) = gs_state r"
  "gs_transition_seq (observed_route_row a r) = gs_transition_seq r"
  "gs_revision (observed_route_row a r) = gs_revision r"
  "gs_candidate_generation (observed_route_row a r) = gs_candidate_generation r"
  "row_identity (observed_route_row a r) = row_identity r"
  by (simp_all add: observed_route_row_def row_identity_def)

definition candidate_of :: "gate_db \<Rightarrow> int option" where
  "candidate_of d = map_option gs_candidate_generation (gd_row d)"

lemma candidate_of_Some [simp]: "gd_row d = Some row \<Longrightarrow> candidate_of d = Some (gs_candidate_generation row)"
  by (simp add: candidate_of_def)

definition state_of :: "gate_db \<Rightarrow> gate_state option" where
  "state_of d = map_option gs_state (gd_row d)"

lemma state_of_Some [simp]: "gd_row d = Some row \<Longrightarrow> state_of d = Some (gs_state row)"
  by (simp add: state_of_def)

definition terminal_db :: "gate_db \<Rightarrow> bool" where
  "terminal_db d \<longleftrightarrow> (case gd_row d of None \<Rightarrow> False | Some row \<Rightarrow> allowed (gs_state row) = {})"

lemma candidate_ofE:
  assumes "candidate_of d = Some generation"
  obtains row where "gd_row d = Some row" and "generation = gs_candidate_generation row"
  using assms by (auto simp: candidate_of_def)

lemma row_identity_update [simp]:
  "row_identity (r\<lparr>gs_state := s\<rparr>) = row_identity r"
  "row_identity (r\<lparr>gs_transition_seq := n\<rparr>) = row_identity r"
  "row_identity (r\<lparr>gs_revision := n\<rparr>) = row_identity r"
  "row_identity (r\<lparr>gs_route_generation := x\<rparr>) = row_identity r"
  "row_identity (r\<lparr>gs_route_fence := f\<rparr>) = row_identity r"
  "row_identity (r\<lparr>gs_proof_digest := y\<rparr>) = row_identity r"
  "row_identity (r\<lparr>gs_observed_candidate_digest := y\<rparr>) = row_identity r"
  "row_identity (r\<lparr>gs_observed_predecessor_digest := y\<rparr>) = row_identity r"
  by (simp_all add: row_identity_def)

lemma gwp_append_ok [gwp_rules]:
  assumes "db_ok d0 d" and "candidate_of d = Some generation"
    and "kind \<noteq> ''intent'' \<or> operation \<noteq> ''open''"
    and "state_of d = from_state \<or>
      kind = ''receipt'' \<and> operation = ''open.reconcile.close_all'' \<and> from_state = Some OPENING"
    and "operation = ''close'' \<and> kind = ''receipt'' \<longrightarrow>
      (\<exists>kvs. detail = JObj kvs \<and> distinct (map fst kvs) \<and> map_of kvs ''cancelled'' \<noteq> None)"
    and "\<And>d'. db_ok d0 d' \<Longrightarrow> gd_row d' = gd_row d \<Longrightarrow> Q (next_seq d) d'"
  shows "gwp (gate_append generation kind operation from_state None fence detail operation_id) Q E d"
  using assms(2)
proof (rule candidate_ofE)
  fix row
  assume row: "gd_row d = Some row" "generation = gs_candidate_generation row"
  show ?thesis
    by (intro gwp_append assms(6) db_ok_append [OF assms(1) row(1)])
      (use row assms(3-5) in \<open>auto simp: recovery_receipt_def close_receipt_ok_def\<close>)
qed

lemma gwp_terminal_ok:
  assumes "db_ok d0 d" and "candidate_of d = Some generation" and "allowed target = {}"
    and "operation \<noteq> ''close''"
    and "\<And>d'. db_ok d0 d' \<Longrightarrow> terminal_db d' \<Longrightarrow> Q (next_seq d) d'" and "\<And>e. E e d"
  shows "gwp (gate_transition generation target operation kind detail fence operation_id) Q E d"
  using assms(2)
proof (rule candidate_ofE)
  fix row
  assume row: "gd_row d = Some row" and gen: "generation = gs_candidate_generation row"
  show ?thesis
  proof (rule gwp_transition)
    fix r now
    assume "gd_row d = Some r" and "target = gs_state r \<or> target \<in> allowed (gs_state r)"
    with row gen assms(3,4) show "Q (next_seq d) ((db_insert_transition
        \<lparr>tr_seq = next_seq d, tr_generation = generation, tr_kind = kind, tr_operation = operation,
         tr_operation_id = correlation operation_id operation generation,
         tr_from_state = Some (gs_state r), tr_to_state = Some target, tr_fence = fence, tr_at = now,
         tr_detail_json = gate_json detail\<rparr> d)\<lparr>gd_row := Some (r\<lparr>gs_state := target,
           gs_transition_seq := next_seq d, gs_revision := gs_revision r + 1\<rparr>)\<rparr>)"
      by (intro assms(5) db_ok_terminal [OF assms(1)]) (simp_all add: terminal_db_def close_receipt_ok_other)
  qed (rule assms(6))
qed

text \<open>An update of other columns in a terminal state.\<close>

definition keeps_log :: "(gate_row \<Rightarrow> gate_row) \<Rightarrow> bool" where
  "keeps_log f \<longleftrightarrow> (\<forall>r. gs_state (f r) = gs_state r \<and> gs_transition_seq (f r) = gs_transition_seq r \<and>
     gs_revision (f r) = gs_revision r \<and> row_identity (f r) = row_identity r)"

lemma keeps_log_observed [simp]: "keeps_log (observed_route_row a)"
  by (simp add: keeps_log_def)

lemma keeps_log_closed [simp]: "keeps_log (\<lambda>r. r\<lparr>gs_route_generation := x, gs_route_fence := y\<rparr>)"
  by (simp add: keeps_log_def)

lemma log_inv_keeps: "keeps_log f \<Longrightarrow> log_inv (f row) ts = log_inv row ts"
  by (simp add: keeps_log_def log_inv_def row_identity_def close_receipt_ok_def [abs_def])

lemma admission_ok_keeps: "keeps_log f \<Longrightarrow> admission_ok (f row) ts = admission_ok row ts"
  by (simp add: keeps_log_def admission_ok_def row_identity_def fun_eq_iff)

lemma gwp_update_terminal [gwp_rules]:
  assumes "db_ok d0 d" and "terminal_db d" and "keeps_log f" and "\<And>d'. db_ok d0 d' \<Longrightarrow> Q () d'"
  shows "gwp (update_row f) Q E d"
proof (rule gwp_update_row, rule assms(4))
  let ?d = "d\<lparr>gd_row := map_option f (gd_row d)\<rparr>"
  from assms(2) obtain row where row: "gd_row d = Some row" "allowed (gs_state row) = {}"
    by (auto simp: terminal_db_def split: option.splits)
  have f: "gs_state (f row) = gs_state row" "row_identity (f row) = row_identity row"
    using assms(3) by (simp_all add: keeps_log_def)
  have "phase_inv (f row) (gd_transitions d) (gs_state row)"
    using assms(1) row receipt_for_identity [OF f(2)]
    by (cases "gs_state row") (simp_all add: db_ok_def gate_inv_def)
  then have "gate_inv ?d"
    using assms(1) row f(1) log_inv_keeps [OF assms(3)] admission_ok_keeps [OF assms(3)]
    by (simp add: db_ok_def gate_inv_def admission_inv_def)
  moreover have "db_extends d ?d"
    using row f(2) by (intro db_extends_step [of d row _ "f row" "[]"]) simp_all
  ultimately show "db_ok d0 ?d"
    using assms(1) by (auto simp: db_ok_def intro: db_extends_trans)
qed

lemma gwp_fail_close_ok [gwp_rules]:
  assumes "db_ok d0 d" and "\<And>x d'. db_ok d0 d' \<Longrightarrow> Q x d'" and "\<And>e d'. db_ok d0 d' \<Longrightarrow> E e d'"
  shows "gwp (gate_fail_close A generation reason) Q E d"
  unfolding gate_fail_close_def
  by (rule gwp_rules gwp_terminal_ok | assumption | rule assms | simp)+

text \<open>A transition together with an update of other columns.\<close>

lemma gwp_move_update:
  assumes "db_ok d0 d" and row: "gd_row d = Some row" "gs_candidate_generation row = generation"
    and row': "row' = f (next_seq d) (row\<lparr>gs_state := target, gs_transition_seq := next_seq d,
        gs_revision := gs_revision row + 1\<rparr>)"
    and keeps: "gs_state row' = target" "gs_transition_seq row' = next_seq d"
      "gs_revision row' = gs_revision row + 1" "row_identity row' = row_identity row"
    and phase: "\<And>t. target = gs_state row \<or> target \<in> allowed (gs_state row) \<Longrightarrow>
        tr_operation t = operation \<Longrightarrow> tr_kind t = kind \<Longrightarrow> tr_to_state t = Some target \<Longrightarrow>
        tr_fence t = fence \<Longrightarrow> tr_seq t = next_seq d \<Longrightarrow> tr_detail_json t = gate_json detail \<Longrightarrow>
        phase_inv row' (gd_transitions d @ [t]) target \<and>
        (is_open_receipt t \<longrightarrow> open_receipts (gd_transitions d) = []) \<and> close_receipt_ok row t"
    and Q: "\<And>d'. db_ok d0 d' \<Longrightarrow> gd_row d' = Some row' \<Longrightarrow> Q () d'" and E: "\<And>e. E e d"
  shows "gwp (bind (gate_transition generation target operation kind detail fence operation_id)
     (\<lambda>seq. update_row (f seq))) Q E d"
proof (intro gwp_bind gwp_transition gwp_update_row, rule Q)
  fix r now
  assume r: "gd_row d = Some r" and edge: "target = gs_state r \<or> target \<in> allowed (gs_state r)"
  let ?t = "\<lparr>tr_seq = next_seq d, tr_generation = generation, tr_kind = kind, tr_operation = operation,
     tr_operation_id = correlation operation_id operation generation, tr_from_state = Some (gs_state r),
     tr_to_state = Some target, tr_fence = fence, tr_at = now, tr_detail_json = gate_json detail\<rparr>"
  from r row(1) have eq: "r = row" by simp
  have "phase_inv row' (gd_transitions d @ [?t]) target \<and>
      (is_open_receipt ?t \<longrightarrow> open_receipts (gd_transitions d) = []) \<and> close_receipt_ok row ?t"
    by (rule phase) (use edge eq in simp_all)
  then show "db_ok d0 ((db_insert_transition ?t d)\<lparr>gd_row := Some (r\<lparr>gs_state := target,
      gs_transition_seq := next_seq d, gs_revision := gs_revision r + 1\<rparr>),
      gd_row := map_option (f (next_seq d)) (gd_row ((db_insert_transition ?t d)\<lparr>gd_row :=
        Some (r\<lparr>gs_state := target, gs_transition_seq := next_seq d, gs_revision := gs_revision r + 1\<rparr>)\<rparr>))\<rparr>)"
    by (intro db_ok_move [OF assms(1) row(1), of ?t row']) (use row row' keeps edge eq in simp_all)
qed (use row row' in \<open>auto intro: E\<close>)

lemma gwp_close_receipt [gwp_txn_rules]:
  assumes "db_ok d0 d" and "candidate_of d = Some generation"
    and "\<And>row. gd_row d = Some row \<Longrightarrow> digest = gs_predecessor_digest row"
    and "\<And>d'. db_ok d0 d' \<Longrightarrow> Q () d'" and "\<And>e. E e d"
  shows "gwp (andthen (gate_transition generation CANDIDATE_CLOSED ''close'' ''receipt''
       (JObj [(''actual_route'', route), (''observed_predecessor_digest'', JStr digest)]) fence operation_id)
     (update_row (\<lambda>r. r\<lparr>gs_observed_predecessor_digest := x\<rparr>))) Q E d"
  using assms(2) unfolding andthen_def
proof (rule candidate_ofE)
  let ?detail = "JObj [(''actual_route'', route), (''observed_predecessor_digest'', JStr digest)]"
  fix row
  assume row: "gd_row d = Some row" "generation = gs_candidate_generation row"
  then have phase: "phase_inv row (gd_transitions d) (gs_state row)"
    using assms(1) by (simp add: db_ok_def gate_inv_def)
  show "gwp (bind (gate_transition generation CANDIDATE_CLOSED ''close'' ''receipt'' ?detail fence operation_id)
      (\<lambda>_. update_row (\<lambda>r. r\<lparr>gs_observed_predecessor_digest := x\<rparr>))) Q E d"
  proof (intro gwp_move_update [OF assms(1) row(1) row(2) [symmetric] HOL.refl])
    fix t :: transition_row
    assume "CANDIDATE_CLOSED = gs_state row \<or> CANDIDATE_CLOSED \<in> allowed (gs_state row)"
      and t: "tr_to_state t = Some CANDIDATE_CLOSED" "tr_detail_json t = gate_json ?detail"
    then have "open_receipts (gd_transitions d) = []"
        "gs_route_fence row = fence_of (gs_predecessor_generation row)"
      using phase by (cases "gs_state row"; simp)+
    moreover have "close_receipt_ok row t"
      using t assms(3) [OF row(1)] unfolding close_receipt_ok_def
      by (intro impI exI [of _ "[(''actual_route'', route), (''observed_predecessor_digest'', JStr digest)]"]) simp
    ultimately show "phase_inv (row\<lparr>gs_state := CANDIDATE_CLOSED, gs_transition_seq := next_seq d,
          gs_revision := gs_revision row + 1, gs_observed_predecessor_digest := x\<rparr>)
          (gd_transitions d @ [t]) CANDIDATE_CLOSED \<and>
        (is_open_receipt t \<longrightarrow> open_receipts (gd_transitions d) = []) \<and> close_receipt_ok row t"
      using t by (simp add: is_open_receipt_def)
  qed (simp_all add: assms(4,5))
qed

definition opening_db :: "int \<Rightarrow> string \<Rightarrow> gate_db \<Rightarrow> bool" where
  "opening_db generation digest d \<longleftrightarrow> (case gd_row d of None \<Rightarrow> False | Some row \<Rightarrow>
     gs_state row = OPENING \<and> gs_candidate_generation row = generation \<and> gs_candidate_digest row = digest)"

definition draining_db :: "int \<Rightarrow> gate_db \<Rightarrow> bool" where
  "draining_db generation d \<longleftrightarrow> (case gd_row d of None \<Rightarrow> False | Some row \<Rightarrow>
     gs_state row = DRAINING \<and> gs_candidate_generation row = generation)"

lemma opening_db_candidate: "opening_db generation digest d \<Longrightarrow> candidate_of d = Some generation"
  by (auto simp: opening_db_def split: option.splits)

lemma opening_db_state [simp]: "opening_db generation digest d \<Longrightarrow> state_of d = Some OPENING"
  by (auto simp: opening_db_def split: option.splits)

lemma opening_db_keep:
  "gd_row d' = gd_row d \<Longrightarrow> opening_db generation digest d \<Longrightarrow> opening_db generation digest d'"
  by (simp add: opening_db_def)

lemma opening_db_candidate_keep:
  "gd_row d' = gd_row d \<Longrightarrow> opening_db generation digest d \<Longrightarrow> candidate_of d' = Some generation"
  by (auto simp: candidate_of_def opening_db_def split: option.splits)

lemma gwp_open_intent [gwp_txn_rules]:
  assumes "db_ok d0 d" and "candidate_of d = Some generation"
    and "\<And>row. gd_row d = Some row \<Longrightarrow> op_candidate_digest p = gs_candidate_digest row"
    and "fence \<noteq> Some []"
    and "\<And>d'. db_ok d0 d' \<Longrightarrow> opening_db generation (op_candidate_digest p) d' \<Longrightarrow> Q () d'" and "\<And>e. E e d"
  shows "gwp (andthen (gate_transition generation OPENING ''open'' ''intent''
      (JObj (proof_fields p @ [(''proof_digest'', JStr y)])) fence operation_id)
     (update_row (\<lambda>r. r\<lparr>gs_proof_digest := x\<rparr>))) Q E d"
  using assms(2) unfolding andthen_def
proof (rule candidate_ofE)
  fix row
  assume row: "gd_row d = Some row" "generation = gs_candidate_generation row"
  then have phase: "phase_inv row (gd_transitions d) (gs_state row)"
    using assms(1) by (simp add: db_ok_def gate_inv_def)
  note p = assms(3) [OF row(1)]
  show "gwp (bind (gate_transition generation OPENING ''open'' ''intent''
      (JObj (proof_fields p @ [(''proof_digest'', JStr y)])) fence operation_id)
     (\<lambda>_. update_row (\<lambda>r. r\<lparr>gs_proof_digest := x\<rparr>))) Q E d"
  proof (intro gwp_move_update [OF assms(1) row(1) row(2) [symmetric] HOL.refl])
    fix d'
    assume "db_ok d0 d'" and "gd_row d' = Some (row\<lparr>gs_state := OPENING,
        gs_transition_seq := next_seq d, gs_revision := gs_revision row + 1, gs_proof_digest := x\<rparr>)"
    then show "Q () d'"
      using p row by (intro assms(5)) (simp_all add: opening_db_def)
  next
    fix t :: transition_row
    assume "OPENING = gs_state row \<or> OPENING \<in> allowed (gs_state row)" and "tr_operation t = ''open''"
      and "tr_kind t = ''intent''" and "tr_to_state t = Some OPENING" and "tr_fence t = fence"
      and "tr_detail_json t = gate_json (JObj (proof_fields p @ [(''proof_digest'', JStr y)]))"
    then show "phase_inv (row\<lparr>gs_state := OPENING, gs_transition_seq := next_seq d,
          gs_revision := gs_revision row + 1, gs_proof_digest := x\<rparr>) (gd_transitions d @ [t]) OPENING \<and>
        (is_open_receipt t \<longrightarrow> open_receipts (gd_transitions d) = []) \<and> close_receipt_ok row t"
      using phase p assms(4)
      by (cases "gs_state row") (auto simp: is_open_receipt_def intent_for_def close_receipt_ok_def)
  qed (simp_all add: assms(6))
qed

lemma gwp_open_receipt [gwp_txn_rules]:
  assumes "db_ok d0 d" and "opening_db generation digest d" and "prefix ''open'' operation" and "fence \<noteq> []"
    and "json_wf (JObj kvs)" and "map_of kvs ''observed_candidate_digest'' = Some (JStr digest)"
    and "\<And>d'. db_ok d0 d' \<Longrightarrow> Q () d'" and "\<And>e. E e d"
  shows "gwp (bind (gate_transition generation CANDIDATE_OPEN operation ''receipt'' (JObj kvs) (Some fence) operation_id)
     (\<lambda>seq. update_row (\<lambda>r. r\<lparr>gs_route_generation := Some generation, gs_route_fence := fence,
        gs_transition_seq := seq, gs_observed_candidate_digest := Some digest\<rparr>))) Q E d"
proof -
  from assms(2) obtain row where row: "gd_row d = Some row" "gs_candidate_generation row = generation"
      and s: "gs_state row = OPENING" and digest: "digest = gs_candidate_digest row"
    by (auto simp: opening_db_def split: option.splits)
  then have phase: "open_receipts (gd_transitions d) = []"
    using assms(1) by (simp add: db_ok_def gate_inv_def)
  show ?thesis
  proof (intro gwp_move_update [OF assms(1) row HOL.refl])
    fix t :: transition_row
    assume "tr_operation t = operation" and "tr_kind t = ''receipt''" and "tr_to_state t = Some CANDIDATE_OPEN"
      and "tr_fence t = Some fence" and "tr_seq t = next_seq d" and "tr_detail_json t = gate_json (JObj kvs)"
    then show "phase_inv (row\<lparr>gs_state := CANDIDATE_OPEN, gs_transition_seq := next_seq d,
          gs_revision := gs_revision row + 1, gs_route_generation := Some generation, gs_route_fence := fence,
          gs_transition_seq := next_seq d, gs_observed_candidate_digest := Some digest\<rparr>)
          (gd_transitions d @ [t]) CANDIDATE_OPEN \<and>
        (is_open_receipt t \<longrightarrow> open_receipts (gd_transitions d) = []) \<and> close_receipt_ok row t"
      using phase assms(3-6) digest row(2) by (auto simp: is_open_receipt_def receipt_for_def close_receipt_ok_def)
  qed (simp_all add: assms(7,8))
qed

text \<open>Draining and back.\<close>

lemma db_ok_drain:
  assumes "db_ok d0 d" and "gd_row d = Some row" and "gs_state row \<in> {CANDIDATE_OPEN, DRAINING}"
    and "gs_state row' \<in> {CANDIDATE_OPEN, DRAINING}" and "\<not> is_open_receipt t"
    and "tr_seq t = next_seq d" and "tr_generation t = gs_candidate_generation row"
    and "tr_from_state t = Some (gs_state row)" "tr_to_state t = Some (gs_state row')"
    and "close_receipt_ok row t"
    and "row' = row\<lparr>gs_state := s, gs_transition_seq := next_seq d, gs_revision := gs_revision row + 1\<rparr>"
    and "gd_row d' = Some row'" "gd_transitions d' = gd_transitions d @ [t]"
      "gd_admissions d' = gd_admissions d" "gd_events d' = gd_events d"
  shows "db_ok d0 d'"
proof (rule db_ok_move [OF assms(1,2), of t row'])
  have inv: "phase_inv row (gd_transitions d) (gs_state row)" "gs_transition_seq row \<le> next_seq d"
    using assms(1,2) by (auto simp: db_ok_def gate_inv_def log_inv_def next_seq_def)
  have "receipt_for row' u = receipt_for row u" for u
    using assms(11) by (intro receipt_for_identity) simp
  then show "phase_inv row' (gd_transitions d @ [t]) (gs_state row')"
    using inv assms(3,4,5,11) by (cases "gs_state row") (auto intro: order.trans)
qed (use assms in \<open>auto simp: row_identity_def\<close>)

lemma db_ok_staged:
  assumes ok: "db_ok d0 d" and row: "gd_row d = None" and fence: "rt_fence route = fence_of pg"
    and d': "gd_row d' = Some ((staged_row sha pg candidate predecessor route lease)\<lparr>gs_state :=
        CANDIDATE_STAGED, gs_transition_seq := 1, gs_revision := 1\<rparr>)"
      "gd_transitions d' = gd_transitions d @ [t]" "gd_admissions d' = gd_admissions d"
      "gd_events d' = gd_events d"
    and t: "tr_seq t = 1" "tr_generation t = pg + 1" "tr_from_state t = Some PREDECESSOR_OPEN"
      "tr_to_state t = Some CANDIDATE_STAGED" "tr_operation t \<noteq> ''close''"
  shows "db_ok d0 d'"
proof -
  have empty: "gd_transitions d = []" "gd_admissions d = []" "gd_events d = []"
    using ok row by (simp_all add: db_ok_def gate_inv_def)
  have "numbered_rows [t]" using t(1) by (simp add: numbered_rows_def)
  then have "gate_inv d'"
    using fence empty d' t by (simp add: gate_inv_def log_inv_def staged_row_def replay_def
        replay_step_def open_receipts_def is_open_receipt_def admission_inv_def close_receipt_ok_other)
  moreover have "db_extends d d'"
    using empty row d' by (simp add: db_extends_def)
  ultimately show ?thesis
    using ok by (auto simp: db_ok_def intro: db_extends_trans)
qed

lemma next_seq_staged: "db_ok d0 d \<Longrightarrow> gd_row d = None \<Longrightarrow> next_seq (d\<lparr>gd_row := r\<rparr>) = 1"
  by (simp add: db_ok_def gate_inv_def next_seq_def)

lemma gwp_stage_txn [gwp_txn_rules]:
  assumes ok: "db_ok d0 d" and row: "gd_row d = None" and fence: "rt_fence route = fence_of pg"
    and Q: "\<And>x d'. db_ok d0 d' \<Longrightarrow> Q x d'" and E: "\<And>e d'. E e d'"
  shows "gwp (andthen (modify (\<lambda>g. g\<lparr>g_db := (g_db g)\<lparr>gd_row :=
       Some (staged_row sha pg candidate predecessor route lease)\<rparr>\<rparr>))
     (gate_transition (pg + 1) CANDIDATE_STAGED ''stage'' ''receipt'' detail None None)) Q E d"
  by (intro gwp_andthen gwp_modify_db gwp_transition Q E, rule db_ok_staged [OF ok row fence])
    (auto simp: next_seq_staged [OF ok row] staged_row_def)

lemma gwp_stage_ok [gwp_rules]:
  assumes "db_ok d0 d" and "\<And>x d'. db_ok d0 d' \<Longrightarrow> Q x d'" and "\<And>e d'. db_ok d0 d' \<Longrightarrow> E e d'"
  shows "gwp (gate_stage sha A candidate predecessor) Q E d"
  unfolding gate_stage_def Let_def
  by (rule gwp_txn_rules gwp_rules | assumption | rule assms | simp)+

lemma gwp_close_ok [gwp_rules]:
  assumes "db_ok d0 d" and "\<And>x d'. db_ok d0 d' \<Longrightarrow> Q x d'" and "\<And>e d'. db_ok d0 d' \<Longrightarrow> E e d'"
  shows "gwp (gate_close sha A generation) Q E d"
  unfolding gate_close_def Let_def
  by (rule gwp_txn_rules gwp_rules | assumption | rule assms | simp)+

lemma gwp_open_checks_ok [gwp_rules]:
  assumes "\<And>c. op_generation p = generation \<Longrightarrow> gs_candidate_generation row = generation \<Longrightarrow>
      op_candidate_digest p = gs_candidate_digest row \<Longrightarrow> Q c d" and "\<And>e. E e d"
  shows "gwp (open_checks A generation p row) Q E d"
  unfolding open_checks_def
  by (rule gwp_txn_rules gwp_rules | assumption | rule assms | simp)+

lemma json_wf_open_receipt [simp]: "json_wf (JObj [(''actual_route'', JInt generation),
    (''lease_fencing_token'', JInt l), (''proof_digest'', JStr x), (''observed_candidate_digest'', JStr y)])"
  "json_wf (JObj [(''queried_actual_route'', JInt generation), (''observed_candidate_digest'', JStr y)])"
  by simp_all

lemma open_fence_not_empty [simp]: "open_fence generation p row \<noteq> []"
  by (simp add: open_fence_def)

lemma gwp_open_ok [gwp_rules]:
  assumes "db_ok d0 d" and "\<And>x d'. db_ok d0 d' \<Longrightarrow> Q x d'" and "\<And>e d'. db_ok d0 d' \<Longrightarrow> E e d'"
  shows "gwp (gate_open sha A generation p) Q E d"
  unfolding gate_open_def Let_def
  by (rule gwp_txn_rules gwp_rules | assumption | rule assms | erule opening_db_candidate
      | erule (1) opening_db_candidate_keep | simp)+

lemma gwp_drain_intent [gwp_txn_rules]:
  assumes ok: "db_ok d0 d" and row: "candidate_of d = Some generation"
    and Q: "\<And>x d'. db_ok d0 d' \<Longrightarrow> draining_db generation d' \<Longrightarrow> Q x d'" and E: "\<And>e. E e d"
  shows "gwp (gate_transition generation DRAINING ''drain'' ''intent'' detail fence operation_id) Q E d"
proof (intro gwp_transition Q E)
  fix r now
  assume r: "gd_row d = Some r" and edge: "DRAINING = gs_state r \<or> DRAINING \<in> allowed (gs_state r)"
  let ?t = "\<lparr>tr_seq = next_seq d, tr_generation = generation, tr_kind = ''intent'', tr_operation = ''drain'',
     tr_operation_id = correlation operation_id ''drain'' generation, tr_from_state = Some (gs_state r),
     tr_to_state = Some DRAINING, tr_fence = fence, tr_at = now, tr_detail_json = gate_json detail\<rparr>"
  let ?r = "r\<lparr>gs_state := DRAINING, gs_transition_seq := next_seq d, gs_revision := gs_revision r + 1\<rparr>"
  from edge have "gs_state r \<in> {CANDIDATE_OPEN, DRAINING}"
    by (cases "gs_state r") auto
  then show "db_ok d0 ((db_insert_transition ?t d)\<lparr>gd_row := Some ?r\<rparr>)"
    by (intro db_ok_drain [OF ok r, of ?r ?t]) (use r row in \<open>auto simp: is_open_receipt_def close_receipt_ok_other\<close>)
  show "draining_db generation ((db_insert_transition ?t d)\<lparr>gd_row := Some ?r\<rparr>)"
    using r row by (simp add: draining_db_def)
qed

lemma gwp_drain_receipt [gwp_txn_rules]:
  assumes ok: "db_ok d0 d" and row: "draining_db generation d"
    and Q: "\<And>x d'. db_ok d0 d' \<Longrightarrow> Q x d'" and E: "\<And>e. E e d"
  shows "gwp (gate_transition generation CANDIDATE_OPEN ''drain'' ''receipt'' detail fence operation_id) Q E d"
proof (intro gwp_transition Q E)
  fix r now
  assume r: "gd_row d = Some r"
  let ?t = "\<lparr>tr_seq = next_seq d, tr_generation = generation, tr_kind = ''receipt'', tr_operation = ''drain'',
     tr_operation_id = correlation operation_id ''drain'' generation, tr_from_state = Some (gs_state r),
     tr_to_state = Some CANDIDATE_OPEN, tr_fence = fence, tr_at = now, tr_detail_json = gate_json detail\<rparr>"
  let ?r = "r\<lparr>gs_state := CANDIDATE_OPEN, gs_transition_seq := next_seq d, gs_revision := gs_revision r + 1\<rparr>"
  show "db_ok d0 ((db_insert_transition ?t d)\<lparr>gd_row := Some ?r\<rparr>)"
    by (intro db_ok_drain [OF ok r, of ?r ?t])
      (use r row in \<open>auto simp: is_open_receipt_def draining_db_def close_receipt_ok_other\<close>)
qed

lemma gwp_drain_ok [gwp_rules]:
  assumes "db_ok d0 d" and "\<And>x d'. db_ok d0 d' \<Longrightarrow> Q x d'" and "\<And>e d'. db_ok d0 d' \<Longrightarrow> E e d'"
  shows "gwp (gate_drain generation) Q E d"
proof -
  have *: "gwp (bind (gets (\<lambda>g. length (filter (\<lambda>r. am_chosen_generation r = pg
          \<and> am_finished_at r = None) (gd_admissions (g_db g))))) (\<lambda>unfinished.
     if unfinished \<noteq> 0 then ret False
     else andthen (gate_txn (gate_transition generation CANDIDATE_OPEN ''drain'' ''receipt''
            (JObj [(''unfinished_predecessor'', JInt 0)]) None None))
         (ret True))) Q E d'" if "db_ok d0 d'" and "draining_db generation d'" for d' pg
    using that
    by - (rule gwp_txn_rules gwp_rules gwp_gets | assumption | rule assms | simp)+
  show ?thesis
    unfolding gate_drain_def
    by (rule * gwp_txn_rules gwp_rules | assumption | rule assms | simp add: draining_db_def)+
qed

lemma gwp_close_and_classify [gwp_rules]: "(\<And>x. Q x d) \<Longrightarrow> gwp (close_and_classify A) Q E d"
  unfolding close_and_classify_def by (intro gwp_rules)

lemma gwp_rollback_effect [gwp_rules]:
  "(\<And>x. Q x d) \<Longrightarrow> gwp (rollback_effect A g f p b) Q E d"
  unfolding rollback_effect_def by (intro gwp_rules gwp_gets)

lemma gwp_rollback_ok [gwp_rules]:
  assumes "db_ok d0 d" and "\<And>x d'. db_ok d0 d' \<Longrightarrow> Q x d'" and "\<And>e d'. db_ok d0 d' \<Longrightarrow> E e d'"
  shows "gwp (gate_rollback A generation b) Q E d"
  unfolding gate_rollback_def Let_def
  by (rule gwp_txn_rules gwp_rules gwp_terminal_ok | assumption | rule assms | simp)+

lemma gwp_reconcile_fail_close [gwp_rules]:
  assumes "db_ok d0 d" and "gd_row d = Some row"
    and "\<And>x d'. db_ok d0 d' \<Longrightarrow> Q x d'" and "\<And>e d'. db_ok d0 d' \<Longrightarrow> E e d'"
  shows "gwp (reconcile_fail_close A row i) Q E d"
  unfolding reconcile_fail_close_def Let_def
  by (rule gwp_txn_rules gwp_rules gwp_terminal_ok | assumption | rule assms | simp add: assms(2))+

lemma gwp_reconcile_recovery_close [gwp_rules]:
  assumes "db_ok d0 d" and "gd_row d = Some row"
    and "\<And>x d'. db_ok d0 d' \<Longrightarrow> Q x d'" and "\<And>e d'. db_ok d0 d' \<Longrightarrow> E e d'"
  shows "gwp (reconcile_recovery_close A row i) Q E d"
  unfolding reconcile_recovery_close_def Let_def
  by (rule gwp_txn_rules gwp_rules gwp_terminal_ok gwp_gets | assumption | rule assms | simp add: assms(2))+

lemma gwp_reconcile_rollback [gwp_rules]:
  assumes "db_ok d0 d" and "gd_row d = Some row"
    and "\<And>x d'. db_ok d0 d' \<Longrightarrow> Q x d'" and "\<And>e d'. db_ok d0 d' \<Longrightarrow> E e d'"
  shows "gwp (reconcile_rollback A row i) Q E d"
  unfolding reconcile_rollback_def Let_def
  by (rule gwp_txn_rules gwp_rules gwp_terminal_ok | assumption | rule assms | simp add: assms(2))+

lemma gwp_cancel_open [gwp_rules]:
  assumes "db_ok d0 d" and "candidate_of d = Some generation" and "state_of d = Some OPENING"
    and "\<And>x d'. db_ok d0 d' \<Longrightarrow> Q x d'" and "\<And>e d'. db_ok d0 d' \<Longrightarrow> E e d'"
  shows "gwp (cancel_open A generation i reason) Q E d"
  unfolding cancel_open_def Let_def
  by (rule gwp_txn_rules gwp_rules | assumption | rule assms | simp add: assms(2,3))+

lemma gwp_reconcile_close_open [gwp_rules]:
  assumes "db_ok d0 d" and "candidate_of d = Some generation" and "state_of d = Some OPENING"
    and "\<And>x d'. db_ok d0 d' \<Longrightarrow> Q x d'" and "\<And>e d'. db_ok d0 d' \<Longrightarrow> E e d'"
  shows "gwp (reconcile_close_open A generation i a) Q E d"
proof -
  from assms(2) obtain row where row: "gd_row d = Some row" "generation = gs_candidate_generation row"
    by (rule candidate_ofE)
  with assms(3) have state: "gs_state row = OPENING"
    by simp
  show ?thesis
    unfolding reconcile_close_open_def Let_def
    by (rule gwp_txn_rules gwp_rules gwp_terminal_ok | assumption | rule assms
        | simp add: row state candidate_of_def state_of_def)+
qed

lemma gwp_reconcile_opening [gwp_rules]:
  assumes "db_ok d0 d" and "gd_row d = Some row" and "gs_state row = OPENING"
    and "\<And>x d'. db_ok d0 d' \<Longrightarrow> Q x d'" and "\<And>e d'. db_ok d0 d' \<Longrightarrow> E e d'"
  shows "gwp (reconcile_opening sha A row) Q E d"
proof -
  from assms(1-3) obtain i p x where i: "last_row ''open'' ''intent'' (gd_transitions d) = Some i"
      and "tr_detail_json i = gate_json (JObj (proof_fields p @ [(''proof_digest'', JStr x)]))"
      and p: "op_candidate_digest p = gs_candidate_digest row" and fence: "tr_fence i \<noteq> Some []"
    by (auto simp: db_ok_def gate_inv_def intent_for_def)
  then have read: "json_read (tr_detail_json i) = Inr (jsort (JObj (proof_fields p @ [(''proof_digest'', JStr x)])))"
    by (simp only: json_read_gate_json [OF json_wf_proof])
  have open_: "opening_db (gs_candidate_generation row) (gs_candidate_digest row) d"
    using assms(2,3) by (simp add: opening_db_def)
  show ?thesis
    unfolding reconcile_opening_def Let_def
    apply (rule gwp_bind, rule gwp_gets_db)
    apply (simp only: i option.case read)
    apply (rule gwp_bind, rule gwp_lift_result; simp del: jsort.simps append.simps)
    apply (rule gwp_bind, rule gwp_lift_result; simp del: jsort.simps)
    by (rule gwp_txn_rules gwp_rules | assumption | rule assms open_ | simp add: assms(2,3) p open_
        | use fence in force)+
qed

lemma gwp_reconcile_ok [gwp_rules]:
  assumes "db_ok d0 d" and "\<And>x d'. db_ok d0 d' \<Longrightarrow> Q x d'" and "\<And>e d'. db_ok d0 d' \<Longrightarrow> E e d'"
  shows "gwp (gate_reconcile sha A) Q E d"
  unfolding gate_reconcile_def
  by (rule gwp_rules | assumption | rule assms | simp)+

text \<open>Admissions.\<close>

lemma db_insert_event_sel [simp]:
  "gd_row (db_insert_event i k c e a s j d) = gd_row d"
  "gd_transitions (db_insert_event i k c e a s j d) = gd_transitions d"
  "gd_admissions (db_insert_event i k c e a s j d) = gd_admissions d"
  "prefix (gd_events d) (gd_events (db_insert_event i k c e a s j d))"
  by (simp_all add: db_insert_event_def)

lemma admission_of_None: "admission_of i d = None \<longleftrightarrow> i \<notin> am_request_id ` set (gd_admissions d)"
  by (auto simp: admission_of_def find_None_iff)

lemma admission_of_Some: "admission_of i d = Some r \<Longrightarrow> r \<in> set (gd_admissions d) \<and> am_request_id r = i"
  by (auto simp: admission_of_def find_Some_iff)

lemma db_ok_admit:
  assumes "db_ok d0 d" and "gd_row d = Some row" and "admission_ok row (gd_transitions d) r"
    and "admission_of i d = None" and "am_request_id r = i" "am_chosen_generation r = c" "am_route_epoch r = e"
  shows "db_ok d0 (db_insert_event i k c e a s j
    (d\<lparr>gd_admissions := gd_admissions d @ [r]\<rparr>))"
    (is "db_ok d0 ?d")
proof -
  have "gate_inv ?d"
    using assms by (auto simp: db_ok_def gate_inv_def admission_inv_def admission_of_None event_ok_def
        db_insert_event_def list_ex_iff list_all_iff)
  moreover have "db_extends d ?d"
    using assms(2) by (simp add: db_extends_def db_insert_event_def list_all2_same)
  ultimately show ?thesis
    using assms(1) by (auto simp: db_ok_def intro: db_extends_trans)
qed

lemma admissible_ok:
  assumes "db_ok d0 d" and "gd_row d = Some row" and "\<not> blocks_admission (gs_state row)"
    and "\<not> (before_open (gs_state row) \<and> predecessor_mismatch sha row actual)"
    and "\<not> unknown_route sha row actual" and "rt_generation actual = Some g"
    and "am_route_epoch r = rt_fence actual" "am_chosen_generation r = g"
      "am_transition_seq r = gs_transition_seq row"
  shows "admission_ok row (gd_transitions d) r"
proof -
  have "phase_inv row (gd_transitions d) (gs_state row)"
      "gs_candidate_generation row = gs_predecessor_generation row + 1"
    using assms(1,2) by (auto simp: db_ok_def gate_inv_def log_inv_def)
  with assms(3-9) show ?thesis
    by (cases "gs_state row") (auto simp: admission_ok_def blocks_admission_def before_open_def
        predecessor_mismatch_def unknown_route_def)
qed

definition admitted :: "string \<Rightarrow> admission_row \<Rightarrow> gate_db \<Rightarrow> bool" where
  "admitted i r d \<longleftrightarrow> r \<in> set (gd_admissions d) \<and> am_request_id r = i"

lemma gwp_admit_txn [gwp_txn_rules]:
  assumes "db_ok d0 d" and "gd_row d = Some row" and "admission_of i d = None"
    and "admission_ok row (gd_transitions d) r"
    and "am_request_id r = i" "am_chosen_generation r = c" "am_route_epoch r = e"
    and "\<And>d'. db_ok d0 d' \<Longrightarrow> admitted i r d' \<Longrightarrow> Q () d'"
  shows "gwp (andthen (modify (\<lambda>g. g\<lparr>g_db := (g_db g)\<lparr>gd_admissions := gd_admissions (g_db g) @ [r]\<rparr>\<rparr>))
     (modify (\<lambda>g. g\<lparr>g_db := db_insert_event i k c e a s j (g_db g)\<rparr>))) Q E d"
  by (intro gwp_andthen gwp_modify_db assms(8) db_ok_admit [OF assms(1,2,4,3,5-7)])
    (simp add: admitted_def assms(5))

lemma gwp_admit_ok [gwp_rules]:
  assumes "db_ok d0 d" and "admission_of (rq_request_id request) d = None"
    and "\<And>r d'. db_ok d0 d' \<Longrightarrow> admitted (rq_request_id request) r d' \<Longrightarrow> Q r d'"
    and "\<And>e d'. db_ok d0 d' \<Longrightarrow> E e d'"
  shows "gwp (gate_admit sha A request) Q E d"
  unfolding gate_admit_def Let_def
  by (rule gwp_txn_rules gwp_rules | assumption | rule assms
      | rule admissible_ok [OF assms(1), where sha = sha], assumption | simp)+

lemma finish_row_kept: "admission_kept r (finish_row res i r)"
  by (simp add: admission_kept_def finish_row_def)

lemma finish_row_sel [simp]:
  "am_request_id (finish_row res i r) = am_request_id r"
  "am_route_epoch (finish_row res i r) = am_route_epoch r"
  "am_chosen_generation (finish_row res i r) = am_chosen_generation r"
  "am_transition_seq (finish_row res i r) = am_transition_seq r"
  by (simp_all add: finish_row_def)

lemma gwp_finish_ok [gwp_rules]:
  assumes ok: "db_ok d0 d" and adm: "admitted i r d" and Q: "\<And>d'. db_ok d0 d' \<Longrightarrow> Q () d'" and E: "\<And>e. E e d"
  shows "gwp (gate_finish i r result) Q E d"
proof -
  have fin: "db_ok d0 (db_insert_event i k (am_chosen_generation r) (am_route_epoch r) a s j
      (d\<lparr>gd_admissions := map (finish_row result i) (gd_admissions d)\<rparr>))"
    (is "db_ok d0 ?d") for k a s j
  proof -
    have ok_same: "admission_ok row ts (finish_row result i x) = admission_ok row ts x" for row ts x
      by (simp add: admission_ok_def)
    have "gate_inv ?d"
      using ok adm
      by (auto simp: db_ok_def gate_inv_def admission_inv_def event_ok_def admitted_def comp_def
          db_insert_event_def list_ex_iff list_all_iff ok_same split: option.splits)
    moreover have "db_extends d ?d"
      by (auto simp: db_extends_def db_insert_event_def list_all2_map2 list_all2_same finish_row_kept
          split: option.splits)
    ultimately show ?thesis
      using ok by (auto simp: db_ok_def intro: db_extends_trans)
  qed
  show ?thesis
    unfolding gate_finish_def
    by (rule gwp_rules gwp_modify_db | rule Q fin E)+
qed

lemma gwp_observe_ok [gwp_rules]:
  assumes "db_ok d0 d" and "\<And>x d'. db_ok d0 d' \<Longrightarrow> Q x d'" and "\<And>e d'. db_ok d0 d' \<Longrightarrow> E e d'"
  shows "gwp (gate_observe sha A request result) Q E d"
  unfolding gate_observe_def
  by (rule gwp_txn_rules gwp_rules | assumption | rule assms | simp add: admitted_def admission_of_Some)+

subsection \<open>Sequences of calls\<close>

text \<open>
  One call of a public method, whatever its outcome, or a change of everything but the database: a
  restart after a crash opens the same database with new fault points, clock and authority, and the
  traffic may change behind the gate's back.
\<close>

inductive gate_call :: "(string \<Rightarrow> string) \<Rightarrow> 'e adapter \<Rightarrow> 'e gate \<Rightarrow> 'e gate \<Rightarrow> bool" for sha A where
  stage: "gate_call sha A g (snd (gate_stage sha A candidate predecessor g))"
| close: "gate_call sha A g (snd (gate_close sha A generation g))"
| open_: "gate_call sha A g (snd (gate_open sha A generation p g))"
| drain: "gate_call sha A g (snd (gate_drain generation g))"
| observe: "gate_call sha A g (snd (gate_observe sha A request result g))"
| reconcile: "gate_call sha A g (snd (gate_reconcile sha A g))"
| rollback: "gate_call sha A g (snd (gate_rollback A generation b g))"
| fail_close: "gate_call sha A g (snd (gate_fail_close A generation reason g))"
| restart: "g_db h = g_db g \<Longrightarrow> gate_call sha A g h"

definition gate_calls :: "(string \<Rightarrow> string) \<Rightarrow> 'e adapter \<Rightarrow> 'e gate \<Rightarrow> 'e gate \<Rightarrow> bool" where
  "gate_calls sha A = (gate_call sha A)\<^sup>*\<^sup>*"

definition gate_reachable :: "(string \<Rightarrow> string) \<Rightarrow> 'e adapter \<Rightarrow> 'e gate \<Rightarrow> bool" where
  "gate_reachable sha A g \<longleftrightarrow>
     (\<exists>traffic clock authority faults. gate_calls sha A (gate_init traffic clock authority faults) g)"

lemma gate_calls_step [intro]: "gate_calls sha A g h \<Longrightarrow> gate_call sha A h i \<Longrightarrow> gate_calls sha A g i"
  by (simp add: gate_calls_def)

lemma gate_calls_refl [simp]: "gate_calls sha A g g"
  by (simp add: gate_calls_def)

lemma gate_reachable_init: "gate_reachable sha A (gate_init traffic clock authority faults)"
  unfolding gate_reachable_def by (intro exI) (rule gate_calls_refl)

lemma gate_reachable_step: "gate_reachable sha A g \<Longrightarrow> gate_call sha A g h \<Longrightarrow> gate_reachable sha A h"
  unfolding gate_reachable_def by (elim exE) (intro exI, rule gate_calls_step)

lemma gate_call_ok: "gate_call sha A g h \<Longrightarrow> gate_inv (g_db g) \<Longrightarrow> db_ok (g_db g) (g_db h)"
  by (induction rule: gate_call.induct) (simp_all add: db_ok_refl,
      (rule pwp_snd, rule gwp_rules, erule db_ok_refl, assumption, assumption)+)

lemma gate_calls_ok: "gate_calls sha A g h \<Longrightarrow> gate_inv (g_db g) \<Longrightarrow> db_ok (g_db g) (g_db h)"
  unfolding gate_calls_def
  by (induction rule: rtranclp_induct) (auto simp: db_ok_refl db_ok_def dest!: gate_call_ok intro: db_extends_trans)

lemma gate_inv_init: "gate_inv (g_db (gate_init traffic clock authority faults))"
  by (simp add: gate_init_def gate_inv_def)

lemma gate_reachable_inv: "gate_reachable sha A g \<Longrightarrow> gate_inv (g_db g)"
  by (auto simp: gate_reachable_def db_ok_def dest!: gate_calls_ok [OF _ gate_inv_init])

text \<open>A replay that has reached a terminal state stays there.\<close>

lemma replay_terminal:
  assumes "replay s ts = Some a" and "allowed a = {}" and "replay s (ts @ us) = Some b"
  shows "b = a"
proof -
  have "foldl replay_step None us = None" for us
    by (induction us) (simp_all add: replay_step_def)
  then have "foldl replay_step (Some a) us \<in> {Some a, None}"
    using assms(2) by (induction us) (auto simp: replay_step_def split: option.splits)
  with assms(1,3) show ?thesis
    by (auto simp: replay_def)
qed

lemma ex_reachable: "gate_reachable ex_sha det_adapter ex_staged" "gate_reachable ex_sha det_adapter ex_closed"
  "gate_reachable ex_sha det_adapter ex_open" "gate_reachable ex_sha det_adapter ex_admitted"
proof -
  have new: "gate_reachable ex_sha det_adapter ex_gate"
    unfolding ex_gate_def by (rule gate_reachable_init)
  have 1: "gate_call ex_sha det_adapter ex_gate ex_staged"
    using gate_call.stage [of ex_sha det_adapter ex_gate ex_candidate ex_pred] by (simp add: ex_stage_run)
  have 2: "gate_call ex_sha det_adapter ex_staged ex_closed"
    using gate_call.close [of ex_sha det_adapter ex_staged 2] by (simp add: ex_close_run)
  have 3: "gate_call ex_sha det_adapter ex_closed ex_open"
    using gate_call.open_ [of ex_sha det_adapter ex_closed 2 ex_proof] by (simp add: ex_open_run)
  have 4: "gate_call ex_sha det_adapter ex_open ex_admitted"
    using gate_call.observe [of ex_sha det_adapter ex_open ex_request None] by (simp add: ex_observe_run)
  note gate_reachable_step [OF new 1]
  moreover note gate_reachable_step [OF this 2]
  moreover note gate_reachable_step [OF this 3]
  moreover note gate_reachable_step [OF this 4]
  ultimately show "gate_reachable ex_sha det_adapter ex_staged" "gate_reachable ex_sha det_adapter ex_closed"
    "gate_reachable ex_sha det_adapter ex_open" "gate_reachable ex_sha det_adapter ex_admitted" .
qed

subsection \<open>Properties\<close>

text \<open>
  C6. The log explains the state.  In every gate that any sequence of calls, crashes and restarts
  reaches from a new database, with any traffic authority: the rows of the transition log are
  numbered from one without a gap, all belong to the candidate generation (the predecessor's plus
  one), and replaying them from \<open>PREDECESSOR_OPEN\<close> along the edges of \<open>allowed\<close> gives exactly the
  durable state: every row, the receipts of recovery closes aside, records the state reached so far as
  its source; the revision counts the state changes.
\<close>

theorem gate_log_replays:
  assumes "gate_reachable sha A g" and "gd_row (g_db g) = Some row"
  shows "map tr_seq (gd_transitions (g_db g)) = map (\<lambda>i. int i + 1) [0..<length (gd_transitions (g_db g))]
     \<and> list_all (\<lambda>t. tr_generation t = gs_predecessor_generation row + 1) (gd_transitions (g_db g))
     \<and> replay PREDECESSOR_OPEN (gd_transitions (g_db g)) = Some (gs_state row)
     \<and> gs_revision row = int (length (filter (\<lambda>t. tr_to_state t \<noteq> None) (gd_transitions (g_db g))))"
proof -
  have "log_inv row (gd_transitions (g_db g))"
    using gate_reachable_inv [OF assms(1)] assms(2) by (simp add: gate_inv_def)
  then show ?thesis by (auto simp: log_inv_def numbered_rows_def list_all_iff)
qed

theorem gate_log_replays_witness:
  "gate_reachable ex_sha det_adapter ex_open \<and> gd_row (g_db ex_open) = Some ex_open_row \<and>
   replay PREDECESSOR_OPEN (gd_transitions (g_db ex_open)) = Some CANDIDATE_OPEN"
proof -
  have row: "gd_row (g_db ex_open) = Some ex_open_row" "gs_state ex_open_row = CANDIDATE_OPEN"
    by (simp_all add: ex_open_def ex_open_row_def ex_row_def)
  from gate_log_replays [OF ex_reachable(3) row(1)] ex_reachable(3) row show ?thesis by simp
qed

text \<open>
  C7. History is append-only and terminal states are final.  Whatever calls, crashes and restarts
  follow a reachable gate, its log and its admission events only grow at the end, the generations,
  snapshots, digests and the lease of the row never change, and once the gate is
  \<open>ROLLED_BACK\<close>, \<open>FAILED_SAFE\<close> or \<open>SAFETY_UNKNOWN\<close> it stays so.
\<close>

theorem gate_history_final:
  assumes "gate_reachable sha A g" and "gate_calls sha A g h" and "gd_row (g_db g) = Some row"
  shows "\<exists>row'. gd_row (g_db h) = Some row' \<and> row_identity row' = row_identity row
     \<and> prefix (gd_transitions (g_db g)) (gd_transitions (g_db h))
     \<and> prefix (gd_events (g_db g)) (gd_events (g_db h))
     \<and> (gs_state row \<in> {ROLLED_BACK, FAILED_SAFE, SAFETY_UNKNOWN} \<longrightarrow> gs_state row' = gs_state row)"
proof -
  note inv = gate_reachable_inv [OF assms(1)]
  from gate_calls_ok [OF assms(2) inv] have inv': "gate_inv (g_db h)" and ext: "db_extends (g_db g) (g_db h)"
    by (simp_all add: db_ok_def)
  from ext assms(3) obtain row' where row': "gd_row (g_db h) = Some row'" "row_identity row' = row_identity row"
    by (auto simp: db_extends_def)
  from ext obtain us where us: "gd_transitions (g_db h) = gd_transitions (g_db g) @ us"
    by (auto simp: db_extends_def prefix_def)
  have "replay PREDECESSOR_OPEN (gd_transitions (g_db g)) = Some (gs_state row)"
    and "replay PREDECESSOR_OPEN (gd_transitions (g_db g) @ us) = Some (gs_state row')"
    using inv inv' assms(3) row'(1) us by (simp_all add: gate_inv_def log_inv_def)
  then have "gs_state row \<in> {ROLLED_BACK, FAILED_SAFE, SAFETY_UNKNOWN} \<longrightarrow> gs_state row' = gs_state row"
    using replay_terminal by fastforce
  with row' ext show ?thesis by (auto simp: db_extends_def)
qed

theorem gate_history_final_witness:
  "gate_reachable ex_sha det_adapter ex_staged \<and> gate_calls ex_sha det_adapter ex_staged ex_closed \<and>
   gd_row (g_db ex_staged) = Some (ex_row CANDIDATE_STAGED 1 1) \<and>
   (\<exists>row'. gd_row (g_db ex_closed) = Some row' \<and> row_identity row' = row_identity (ex_row CANDIDATE_STAGED 1 1))"
proof -
  have row: "gd_row (g_db ex_staged) = Some (ex_row CANDIDATE_STAGED 1 1)"
    by (simp add: ex_staged_def)
  have "gate_call ex_sha det_adapter ex_staged ex_closed"
    using gate_call.close [of ex_sha det_adapter ex_staged 2] by (simp add: ex_close_run)
  then have calls: "gate_calls ex_sha det_adapter ex_staged ex_closed"
    using gate_calls_refl by (rule gate_calls_step [rotated])
  from gate_history_final [OF ex_reachable(1) calls row] ex_reachable(1) calls row show ?thesis by blast
qed

text \<open>
  A request is pinned to one generation.  An admission that is recorded in a reachable gate is
  still recorded, at the same place, after any further calls, with the same request, generation,
  route fence, time and log position; once it has a finish time nothing of it changes.  No two
  admissions have the same request id.
\<close>

theorem gate_request_pinned:
  assumes "gate_reachable sha A g" and "gate_calls sha A g h"
    and "i < length (gd_admissions (g_db g))"
  shows "i < length (gd_admissions (g_db h))
     \<and> am_request_id (gd_admissions (g_db h) ! i) = am_request_id (gd_admissions (g_db g) ! i)
     \<and> am_chosen_generation (gd_admissions (g_db h) ! i) = am_chosen_generation (gd_admissions (g_db g) ! i)
     \<and> am_route_epoch (gd_admissions (g_db h) ! i) = am_route_epoch (gd_admissions (g_db g) ! i)
     \<and> am_admitted_at (gd_admissions (g_db h) ! i) = am_admitted_at (gd_admissions (g_db g) ! i)
     \<and> am_transition_seq (gd_admissions (g_db h) ! i) = am_transition_seq (gd_admissions (g_db g) ! i)
     \<and> (am_finished_at (gd_admissions (g_db g) ! i) \<noteq> None \<longrightarrow>
          gd_admissions (g_db h) ! i = gd_admissions (g_db g) ! i)
     \<and> distinct (map am_request_id (gd_admissions (g_db h)))"
proof -
  from gate_calls_ok [OF assms(2) gate_reachable_inv [OF assms(1)]]
  have inv: "gate_inv (g_db h)" and ext: "db_extends (g_db g) (g_db h)"
    by (simp_all add: db_ok_def)
  from inv have "distinct (map am_request_id (gd_admissions (g_db h)))"
    by (auto simp: gate_inv_def admission_inv_def split: option.splits)
  moreover from ext assms(3) have "admission_kept (gd_admissions (g_db g) ! i) (gd_admissions (g_db h) ! i)"
    and "i < length (gd_admissions (g_db h))"
    by (auto simp: db_extends_def list_all2_conv_all_nth)
  ultimately show ?thesis by (auto simp: admission_kept_def)
qed

theorem gate_request_pinned_witness:
  "gate_reachable ex_sha det_adapter ex_admitted \<and> gate_calls ex_sha det_adapter ex_admitted ex_admitted \<and>
   0 < length (gd_admissions (g_db ex_admitted)) \<and> distinct (map am_request_id (gd_admissions (g_db ex_admitted)))"
proof -
  have "0 < length (gd_admissions (g_db ex_admitted))"
    by (simp add: ex_admitted_def)
  with gate_request_pinned [OF ex_reachable(4) gate_calls_refl this] ex_reachable(4) show ?thesis by simp
qed

end
