(* ===== verification/Gate_Oracle.thy ===== *)
theory Gate_Oracle
  imports Gate_Invariant
begin

section \<open>The offline oracle over gate traces (\<^verbatim>\<open>exposure_gate.py\<close>)\<close>

text \<open>
  \<open>evaluate_trace\<close> re-reads the raw rows of a gate database and looks for violations, and
  \<open>export_trace\<close> lists the rows as JSON.  An error message of the oracle is a constructor of
  \<open>trace_error\<close> with the values the message shows.
\<close>

subsection \<open>The oracle\<close>

datatype trace_error =
    MissingRows
  | SequenceGap int
  | SourceMismatch int "gate_state option" gate_state
  | DuplicateIntent string
  | ReceiptWithoutIntent string
  | UnknownTransition gate_state gate_state
  | GenerationMismatch int
  | UnpairedIntents "string list"
  | FinalStateMismatch
  | MultipleOpenGenerations
  | FinalRouteMismatch
  | OpenReceiptMismatch
  | CloseReceiptMismatch
  | CrossedGeneration string
  | CandidateBeforeOpen string
  | PredecessorAfterOpen string
  | UnknownGeneration string
  | MissingFence string
  | CandidateFenceMismatch string
  | PredecessorFenceMismatch string

fun oracle_allowed :: "gate_state \<Rightarrow> gate_state set" where
  "oracle_allowed PREDECESSOR_OPEN = {CANDIDATE_STAGED, FAILED_SAFE, SAFETY_UNKNOWN}"
| "oracle_allowed CANDIDATE_STAGED = {CANDIDATE_CLOSED, ROLLED_BACK, FAILED_SAFE, SAFETY_UNKNOWN}"
| "oracle_allowed CANDIDATE_CLOSED = {OPENING, ROLLED_BACK, FAILED_SAFE, SAFETY_UNKNOWN}"
| "oracle_allowed OPENING = {CANDIDATE_OPEN, FAILED_SAFE, SAFETY_UNKNOWN}"
| "oracle_allowed CANDIDATE_OPEN = {DRAINING, ROLLED_BACK, FAILED_SAFE, SAFETY_UNKNOWN}"
| "oracle_allowed DRAINING = {CANDIDATE_OPEN}"
| "oracle_allowed _ = {}"

record trace_scan =
  sc_expected :: int
  sc_state :: gate_state
  sc_pending :: "string list"
  sc_errors :: "trace_error list"

text \<open>One row of the loop over the transitions; \<open>pending\<close> is used for its keys only.\<close>

definition scan_row :: "int option \<Rightarrow> trace_scan \<Rightarrow> transition_row \<Rightarrow> trace_scan" where
  "scan_row candidate a row =
     (let gap = (if tr_seq row \<noteq> sc_expected a then [SequenceGap (sc_expected a)] else []);
          source = (if tr_from_state row \<noteq> Some (sc_state a)
            then [SourceMismatch (tr_seq row) (tr_from_state row) (sc_state a)] else []);
          op_id = tr_operation_id row;
          (pending, pairing) =
            (if tr_kind row = ''intent''
             then (if op_id \<in> set (sc_pending a) then (sc_pending a, [DuplicateIntent op_id])
                   else (sc_pending a @ [op_id], []))
             else if tr_kind row = ''receipt'' \<and> tr_operation row \<noteq> ''stage''
             then (if op_id \<in> set (sc_pending a) then (remove1 op_id (sc_pending a), [])
                   else (sc_pending a, [ReceiptWithoutIntent op_id]))
             else (sc_pending a, []));
          (state, move) =
            (case tr_to_state row of
               None \<Rightarrow> (sc_state a, [])
             | Some target \<Rightarrow>
                 if target = sc_state a then (sc_state a, [])
                 else (target, if target \<notin> oracle_allowed (sc_state a)
                        then [UnknownTransition (sc_state a) target] else []));
          generation = (case candidate of None \<Rightarrow> []
            | Some c \<Rightarrow> if tr_generation row \<noteq> c then [GenerationMismatch (tr_seq row)] else [])
      in \<lparr>sc_expected = tr_seq row + 1, sc_state = state, sc_pending = pending,
          sc_errors = sc_errors a @ gap @ source @ pairing @ move @ generation\<rparr>)"

definition scan_rows :: "int option \<Rightarrow> transition_row list \<Rightarrow> trace_scan" where
  "scan_rows candidate rows = foldl (scan_row candidate)
     \<lparr>sc_expected = 1, sc_state = PREDECESSOR_OPEN, sc_pending = [], sc_errors = []\<rparr> rows"

definition row_item :: "(gate_row \<Rightarrow> 'a) \<Rightarrow> gate_row option \<Rightarrow> py_exn + 'a" where
  "row_item f r = (case r of None \<Rightarrow> Inl (TypeError ''NoneType object is not subscriptable'')
     | Some row \<Rightarrow> Inr (f row))"

definition open_receipt_errors :: "gate_row option \<Rightarrow> transition_row \<Rightarrow> py_exn + trace_error list" where
  "open_receipt_errors state receipt =
     ebind (json_read (tr_detail_json receipt)) (\<lambda>detail.
     ebind (json_get ''observed_candidate_digest'' detail) (\<lambda>observed.
     ebind (row_item gs_candidate_digest state) (\<lambda>digest.
     Inr (if \<not> py_eq observed (JStr digest) then [OpenReceiptMismatch] else []))))"

definition close_receipt_errors :: "gate_row option \<Rightarrow> transition_row \<Rightarrow> py_exn + trace_error list" where
  "close_receipt_errors state receipt =
     ebind (json_read (tr_detail_json receipt)) (\<lambda>detail.
     ebind (json_get ''observed_predecessor_digest'' detail) (\<lambda>observed.
     case detail of JObj kvs \<Rightarrow>
       if map_of kvs ''cancelled'' = None \<and> observed \<noteq> JNull
       then ebind (row_item gs_predecessor_digest state) (\<lambda>digest.
         Inr (if \<not> py_eq observed (JStr digest) then [CloseReceiptMismatch] else []))
       else Inr []
     | _ \<Rightarrow> Inr []))"

text \<open>The loop over the admission events; \<open>seen\<close> maps a request to its first generation.\<close>

fun event_errors :: "(string \<times> int) list \<Rightarrow> event_row list \<Rightarrow> trace_error list" where
  "event_errors seen [] = []"
| "event_errors seen (e # es) =
     (case map_of seen (ae_request_id e) of
        None \<Rightarrow> event_errors ((ae_request_id e, ae_chosen_generation e) # seen) es
      | Some prior \<Rightarrow> (if prior \<noteq> ae_chosen_generation e then [CrossedGeneration (ae_request_id e)] else []) @
          event_errors seen es)"

definition admission_errors ::
  "int option \<Rightarrow> int option \<Rightarrow> int option \<Rightarrow> string option \<Rightarrow> admission_row \<Rightarrow> trace_error list" where
  "admission_errors candidate predecessor first_open_seq ofence row =
     (let i = am_request_id row; chosen = Some (am_chosen_generation row) in
      (if candidate \<noteq> None \<and> chosen = candidate \<and>
          (case first_open_seq of None \<Rightarrow> True | Some s \<Rightarrow> am_transition_seq row < s)
       then [CandidateBeforeOpen i] else []) @
      (if predecessor \<noteq> None \<and> chosen = predecessor \<and>
          (case first_open_seq of None \<Rightarrow> False | Some s \<Rightarrow> s \<le> am_transition_seq row)
       then [PredecessorAfterOpen i] else []) @
      (if chosen \<notin> {candidate, predecessor} then [UnknownGeneration i] else []) @
      (if am_route_epoch row = [] then [MissingFence i] else []) @
      (if chosen = candidate \<and> Some (am_route_epoch row) \<noteq> ofence then [CandidateFenceMismatch i] else []) @
      (case predecessor of None \<Rightarrow> [] | Some p \<Rightarrow>
         if chosen = predecessor \<and> am_route_epoch row \<noteq> fence_of p then [PredecessorFenceMismatch i] else []))"

definition final_route_mismatch :: "string option \<Rightarrow> gate_row \<Rightarrow> bool" where
  "final_route_mismatch ofence row \<longleftrightarrow> gs_state row = CANDIDATE_OPEN \<and>
     (gs_route_generation row \<noteq> Some (gs_candidate_generation row) \<or> Some (gs_route_fence row) \<noteq> ofence
      \<or> gs_observed_candidate_digest row \<noteq> Some (gs_candidate_digest row))"

record oracle_result =
  or_verdict :: string
  or_errors :: "trace_error list"
  or_transition_count :: "nat option"
  or_admission_count :: "nat option"
  or_candidate_generation :: "int option"
  or_predecessor_generation :: "int option"
  or_first_candidate_open_seq :: "int option"

definition count_or_none :: "'a list \<Rightarrow> nat option" where
  "count_or_none xs = (if xs = [] then None else Some (length xs))"

definition evaluate_trace :: "gate_db \<Rightarrow> py_exn + oracle_result" where
  "evaluate_trace d =
     (let transitions = gd_transitions d;
          admissions = sort_key am_admitted_at (gd_admissions d);
          state = gd_row d;
          opens = open_receipts transitions;
          candidate = map_option gs_candidate_generation state;
          predecessor = map_option gs_predecessor_generation state;
          first_open_seq = (case opens of [] \<Rightarrow> None | r # _ \<Rightarrow> Some (tr_seq r));
          ofence = (case opens of [] \<Rightarrow> None | r # _ \<Rightarrow> tr_fence r);
          scan = scan_rows candidate transitions in
      ebind (emap (open_receipt_errors state) opens) (\<lambda>open_errs.
      ebind (emap (close_receipt_errors state)
        (filter (\<lambda>r. tr_operation r = ''close'' \<and> tr_kind r = ''receipt'') transitions)) (\<lambda>close_errs.
      let errors =
        (if state = None \<or> transitions = [] then [MissingRows] else []) @
        sc_errors scan @
        (if sc_pending scan \<noteq> [] then [UnpairedIntents (sort (sc_pending scan))] else []) @
        (case state of None \<Rightarrow> [] | Some row \<Rightarrow>
           if sc_state scan \<noteq> gs_state row then [FinalStateMismatch] else []) @
        (if 1 < length (remdups (map tr_generation opens)) then [MultipleOpenGenerations] else []) @
        (case state of None \<Rightarrow> [] | Some row \<Rightarrow>
           if final_route_mismatch ofence row then [FinalRouteMismatch] else []) @
        concat open_errs @ concat close_errs @ event_errors [] (gd_events d) @
        concat (map (admission_errors candidate predecessor first_open_seq ofence) admissions) in
      Inr \<lparr>or_verdict = (if errors = [] then ''PASS'' else ''FAIL''), or_errors = errors,
           or_transition_count = count_or_none transitions, or_admission_count = count_or_none admissions,
           or_candidate_generation = candidate, or_predecessor_generation = predecessor,
           or_first_candidate_open_seq = first_open_seq\<rparr>)))"

subsection \<open>The export\<close>

definition state_json :: "gate_state option \<Rightarrow> json" where
  "state_json s = (case s of None \<Rightarrow> JNull | Some x \<Rightarrow> JStr (gate_state_value x))"

definition transition_item :: "transition_row \<Rightarrow> py_exn + json" where
  "transition_item r = ebind (json_read (tr_detail_json r)) (\<lambda>detail.
     Inr (JObj [(''seq'', JInt (tr_seq r)), (''generation'', JInt (tr_generation r)), (''kind'', JStr (tr_kind r)),
       (''operation'', JStr (tr_operation r)), (''operation_id'', JStr (tr_operation_id r)),
       (''from_state'', state_json (tr_from_state r)), (''to_state'', state_json (tr_to_state r)),
       (''fence'', jopt (tr_fence r)), (''at'', JInt (tr_at r)), (''detail'', detail),
       (''classification'', JStr ''synthetic/reference'')]))"

definition admission_item :: "admission_row \<Rightarrow> json" where
  "admission_item r = JObj [(''request_id'', JStr (am_request_id r)), (''route_epoch'', JStr (am_route_epoch r)),
     (''chosen_generation'', JInt (am_chosen_generation r)), (''admitted_at'', JInt (am_admitted_at r)),
     (''finished_at'', jint_opt (am_finished_at r)), (''result'', jopt (am_result r)),
     (''abort'', jopt (am_abort r)), (''transition_seq'', JInt (am_transition_seq r)),
     (''type'', JStr ''admission''), (''classification'', JStr ''synthetic/reference'')]"

definition event_item :: "event_row \<Rightarrow> py_exn + json" where
  "event_item r = ebind (json_read (ae_detail_json r)) (\<lambda>detail.
     Inr (JObj [(''seq'', JInt (ae_seq r)), (''request_id'', JStr (ae_request_id r)), (''kind'', JStr (ae_kind r)),
       (''chosen_generation'', JInt (ae_chosen_generation r)), (''route_epoch'', JStr (ae_route_epoch r)),
       (''at'', JInt (ae_at r)), (''transition_seq'', JInt (ae_transition_seq r)), (''detail'', detail),
       (''type'', JStr ''admission_event''), (''classification'', JStr ''synthetic/reference'')]))"

definition export_trace :: "gate_db \<Rightarrow> py_exn + json list" where
  "export_trace d =
     ebind (emap transition_item (gd_transitions d)) (\<lambda>ts.
     ebind (emap event_item (gd_events d)) (\<lambda>es.
     Inr (ts @ map admission_item (sort_key am_admitted_at (gd_admissions d)) @ es)))"

subsection \<open>What the oracle can find in a gate's own trace\<close>

text \<open>
  The findings there can be: an intent or receipt without its partner, or a repeated intent; a move
  from \<open>DRAINING\<close> to a terminal state, which the gate allows and the oracle does not; and a source
  \<open>OPENING\<close> at a row that is the receipt of a recovery close.
\<close>

fun expected_finding :: "transition_row list \<Rightarrow> trace_error \<Rightarrow> bool" where
  "expected_finding ts (DuplicateIntent _) \<longleftrightarrow> True"
| "expected_finding ts (ReceiptWithoutIntent _) \<longleftrightarrow> True"
| "expected_finding ts (UnpairedIntents _) \<longleftrightarrow> True"
| "expected_finding ts (UnknownTransition s target) \<longleftrightarrow>
     s = DRAINING \<and> target \<in> {ROLLED_BACK, FAILED_SAFE, SAFETY_UNKNOWN}"
| "expected_finding ts (SourceMismatch n source s) \<longleftrightarrow> source = Some OPENING \<and> s \<noteq> OPENING \<and>
     list_ex (\<lambda>t. tr_seq t = n \<and> recovery_receipt t) ts"
| "expected_finding ts _ \<longleftrightarrow> False"

lemma expected_finding_mono:
  "set ts \<subseteq> set us \<Longrightarrow> expected_finding ts e \<Longrightarrow> expected_finding us e"
  by (cases e) (auto simp: list_ex_iff)

lemma oracle_allowed_iff: "s \<noteq> DRAINING \<Longrightarrow> oracle_allowed s = allowed s"
  by (cases s) simp_all

lemma scan_rows_append [simp]: "scan_rows c (ts @ [t]) = scan_row c (scan_rows c ts) t"
  by (simp add: scan_rows_def)

lemma scan_row_state: "sc_state (scan_row c a t) = (case tr_to_state t of None \<Rightarrow> sc_state a | Some s \<Rightarrow> s)"
  by (simp add: scan_row_def Let_def split: option.splits prod.splits if_splits)

lemma scan_row_expected [simp]: "sc_expected (scan_row c a t) = tr_seq t + 1"
  by (simp add: scan_row_def Let_def split: prod.splits)

lemma oracle_allowed_DRAINING:
  "t \<in> allowed s \<Longrightarrow> t \<notin> oracle_allowed s \<Longrightarrow> s = DRAINING \<and> t \<in> {ROLLED_BACK, FAILED_SAFE, SAFETY_UNKNOWN}"
  by (cases s) auto

lemma scan_row_errors:
  assumes "tr_seq t = sc_expected a" and "c = Some (tr_generation t)"
    and "replay_step (Some (sc_state a)) t \<noteq> None" and "e \<in> set (sc_errors (scan_row c a t))"
  shows "e \<in> set (sc_errors a) \<or> expected_finding [t] e"
proof (cases "tr_to_state t")
  case None
  with assms show ?thesis
    by (auto simp: scan_row_def Let_def replay_step_def recovery_receipt_def split: if_splits)
next
  case (Some b)
  with assms have "tr_from_state t = Some (sc_state a)" "b = sc_state a \<or> b \<in> allowed (sc_state a)"
    by (auto simp: replay_step_def split: if_splits)
  with Some assms(1,2,4) show ?thesis
    by (auto simp: scan_row_def Let_def split: if_splits dest: oracle_allowed_DRAINING)
qed

lemma replay_step_Some:
  "replay_step x t = Some b \<longleftrightarrow> (\<exists>a. x = Some a \<and> replay_step (Some a) t = Some b)"
  by (cases x) (simp_all add: replay_step_def)

lemma replay_step_target:
  "replay_step (Some a) t = Some b \<Longrightarrow> b = (case tr_to_state t of None \<Rightarrow> a | Some s \<Rightarrow> s)"
  by (auto simp: replay_step_def split: option.splits if_splits)

lemma scan_rows_ok:
  assumes "numbered_rows ts" and "list_all (\<lambda>t. tr_generation t = c) ts" and "replay PREDECESSOR_OPEN ts = Some s"
  shows "sc_state (scan_rows (Some c) ts) = s \<and> sc_expected (scan_rows (Some c) ts) = int (length ts) + 1 \<and>
    (\<forall>e \<in> set (sc_errors (scan_rows (Some c) ts)). expected_finding ts e)"
  using assms
proof (induction ts arbitrary: s rule: rev_induct)
  case Nil
  then show ?case by (simp add: scan_rows_def replay_def)
next
  case (snoc t ts)
  from snoc.prems(3) obtain a where a: "replay PREDECESSOR_OPEN ts = Some a" "replay_step (Some a) t = Some s"
    using replay_step_Some [of "replay PREDECESSOR_OPEN ts" t s] by auto
  from snoc.prems(1,2) have prems: "numbered_rows ts" "list_all (\<lambda>t. tr_generation t = c) ts"
    by simp_all
  note IH = snoc.IH [OF prems a(1)]
  have "expected_finding (ts @ [t]) e"
    if e: "e \<in> set (sc_errors (scan_row (Some c) (scan_rows (Some c) ts) t))" for e
  proof -
    have "e \<in> set (sc_errors (scan_rows (Some c) ts)) \<or> expected_finding [t] e"
      by (rule scan_row_errors [OF _ _ _ e]) (use IH a snoc.prems in auto)
    with IH show ?thesis
      using expected_finding_mono [of ts "ts @ [t]" e] expected_finding_mono [of "[t]" "ts @ [t]" e] by auto
  qed
  with IH snoc.prems a(2) show ?case
    by (simp add: scan_row_state replay_step_target [OF a(2)] split: option.splits)
qed









subsection \<open>The verdict on the run\<close>







subsection \<open>Where the oracle and the gate disagree\<close>

lemma fail_close_log:
  assumes "gate_fail_close A generation reason g = (Inr r, h)"
  obtains i t s where "gd_transitions (g_db h) = gd_transitions (g_db g) @ [i, t]" and "tr_to_state i = None"
    and "tr_to_state t = Some s" and "s \<in> {FAILED_SAFE, SAFETY_UNKNOWN}"
    and "s = (if fc_classification r = RC_FAILED_SAFE then FAILED_SAFE else SAFETY_UNKNOWN)"
proof -
  have "gwp (gate_fail_close A generation reason) (\<lambda>r d. \<exists>i t s. gd_transitions d = gd_transitions (g_db g) @ [i, t]
      \<and> tr_to_state i = None \<and> tr_to_state t = Some s \<and> s \<in> {FAILED_SAFE, SAFETY_UNKNOWN}
      \<and> s = (if fc_classification r = RC_FAILED_SAFE then FAILED_SAFE else SAFETY_UNKNOWN)) (\<lambda>_ _. True) (g_db g)"
    unfolding gate_fail_close_def
    by (intro gwp_exact; auto simp: closed_target_def closed_class_def)
  from gwp_Inr [OF this assms] that show thesis by blast
qed

text \<open>
  The oracle rejects a legitimate abort of a drain.  The gate's own table lets a draining gate
  fail closed, but the table of the oracle has only the edge back to \<open>CANDIDATE_OPEN\<close>: after any
  \<open>fail_close\<close> that returns in a reachable \<open>DRAINING\<close> gate the oracle's replay reports an unknown
  transition out of \<open>DRAINING\<close>, so its verdict on that trace is never \<open>PASS\<close>.
\<close>

theorem oracle_rejects_drain_abort:
  assumes "gate_reachable sha A g" and "gd_row (g_db g) = Some row" and "gs_state row = DRAINING"
    and "gate_fail_close A generation reason g = (Inr r, h)"
  shows "(\<exists>s. UnknownTransition DRAINING s \<in>
        set (sc_errors (scan_rows (Some (gs_candidate_generation row)) (gd_transitions (g_db h)))))
     \<and> (\<forall>v. evaluate_trace (g_db h) = Inr v \<longrightarrow> or_verdict v = ''FAIL'')"
proof -
  let ?ts = "gd_transitions (g_db g)" and ?c = "gs_candidate_generation row"
  from assms(4) obtain i t s where log: "gd_transitions (g_db h) = ?ts @ [i, t]"
      and i: "tr_to_state i = None" and t: "tr_to_state t = Some s" "s \<in> {FAILED_SAFE, SAFETY_UNKNOWN}"
    by (rule fail_close_log)
  from gate_reachable_inv [OF assms(1)] assms(2,3)
  have "numbered_rows ?ts" "list_all (\<lambda>t. tr_generation t = ?c) ?ts" "replay PREDECESSOR_OPEN ?ts = Some DRAINING"
    unfolding gate_inv_def log_inv_def by auto
  from scan_rows_ok [OF this] have "sc_state (scan_rows (Some ?c) ?ts) = DRAINING" by blast
  then have "sc_state (scan_row (Some ?c) (scan_rows (Some ?c) ?ts) i) = DRAINING"
    using i by (simp add: scan_row_state)
  then have err: "UnknownTransition DRAINING s \<in> set (sc_errors (scan_rows (Some ?c) (gd_transitions (g_db h))))"
    using t unfolding log scan_rows_def by (auto simp: scan_row_def [of _ _ t] scan_rows_def Let_def split: prod.splits)
  have "gwp (gate_fail_close A generation reason) (\<lambda>_. db_ok (g_db g)) (\<lambda>_. db_ok (g_db g)) (g_db g)"
    by (rule gwp_fail_close_ok [OF db_ok_refl [OF gate_reachable_inv [OF assms(1)]]])
  from gwp_Inr [OF this assms(4)] assms(2)
  obtain row' where "gd_row (g_db h) = Some row'" "gs_candidate_generation row' = ?c"
    by (auto simp: db_ok_def db_extends_def row_identity_def)
  with err have "or_verdict v = ''FAIL''" if "evaluate_trace (g_db h) = Inr v" for v
    using that unfolding evaluate_trace_def Let_def by (auto simp: ebind_Inr_iff)
  with err show ?thesis by blast
qed

lemma ex_draining_reachable: "gate_reachable ex_sha det_adapter ex_draining"
proof -
  have 1: "gate_call ex_sha det_adapter ex_closed (ex_closed_at [ex_old_admission] [ex_old_event])"
    using gate_call.observe [of ex_sha det_adapter ex_closed ex_old_request None] by (simp add: ex_old_run)
  have 2: "gate_call ex_sha det_adapter (ex_closed_at [ex_old_admission] [ex_old_event])
      (ex_open_at [ex_old_admission] [ex_old_event])"
    using gate_call.open_ [of ex_sha det_adapter _ 2 ex_proof] by (metis ex_open_run snd_conv)
  have 3: "gate_call ex_sha det_adapter (ex_open_at [ex_old_admission] [ex_old_event]) ex_draining"
    using gate_call.drain [of ex_sha det_adapter _ 2] by (metis ex_drain_run snd_conv)
  show ?thesis
    by (rule gate_reachable_step [OF gate_reachable_step [OF gate_reachable_step [OF ex_reachable(2) 1] 2] 3])
qed

theorem oracle_rejects_drain_abort_witness:
  "\<exists>r h. gate_fail_close det_adapter 2 ''operator'' ex_draining = (Inr r, h) \<and>
     (\<exists>s. UnknownTransition DRAINING s \<in> set (sc_errors (scan_rows (Some 2) (gd_transitions (g_db h)))))"
proof -
  let ?row = "ex_open_row\<lparr>gs_state := DRAINING, gs_transition_seq := 6, gs_revision := 5\<rparr>"
  have row: "gd_row (g_db ex_draining) = Some ?row" "gs_state ?row = DRAINING" "gs_candidate_generation ?row = 2"
    by (simp_all add: ex_draining_def ex_open_row_def ex_row_def)
  have "\<exists>r. fst (gate_fail_close det_adapter 2 ''operator'' ex_draining) = Inr r"
    by (simp add: gate_fail_close_def gate_defs ex_draining_def ex_open_at_def ex_open_row_def ex_row_def ex_route_def
        det_close_all_def closed_target_def observed_closed_def closed_route_def)
  then obtain r h where run: "gate_fail_close det_adapter 2 ''operator'' ex_draining = (Inr r, h)"
    by (cases "gate_fail_close det_adapter 2 ''operator'' ex_draining") auto
  from oracle_rejects_drain_abort [OF ex_draining_reachable row(1,2) run] run row(3) show ?thesis by auto
qed

end
