(* ===== verification/Gate_Authority.thy ===== *)
theory Gate_Authority
  imports Gate_Invariant
begin

section \<open>The exposure gate and the traffic authority\<close>

text \<open>
  What the gate's answers say about the traffic.  The locale \<open>traffic_authority\<close> is the contract
  of \<open>TrafficAuthorityAdapter\<close>: a query reports the route and does not change it, and a call that
  returns has had its effect.  It is interpreted on \<open>DeterministicTrafficAdapter\<close>.
\<close>

subsection \<open>Weakest preconditions over the database and the traffic\<close>

abbreviation twp ::
  "('e, 'a) gm \<Rightarrow> ('a \<Rightarrow> gate_db \<times> 'e \<Rightarrow> bool) \<Rightarrow> (py_exn \<Rightarrow> gate_db \<times> 'e \<Rightarrow> bool) \<Rightarrow> gate_db \<times> 'e \<Rightarrow> bool" where
  "twp \<equiv> pwp (\<lambda>g. (g_db g, g_traffic g))"

named_theorems twp_rules

declare pwp_rules [twp_rules]

lemma twp_Inr: "twp m Q E (g_db g, g_traffic g) \<Longrightarrow> m g = (Inr x, h) \<Longrightarrow> Q x (g_db h, g_traffic h)"
  by (rule pwp_Inr [where view = "\<lambda>g. (g_db g, g_traffic g)"])

lemma twp_on_traffic [twp_rules]:
  "(\<And>x u. m t = (Inr x, u) \<Longrightarrow> Q x (d, u)) \<Longrightarrow> (\<And>e u. m t = (Inl e, u) \<Longrightarrow> E e (d, u)) \<Longrightarrow>
   twp (on_traffic m) Q E (d, t)"
  by (auto simp: pwp_def on_traffic_def zoom_def split: prod.splits sum.splits)

lemma twp_gets_db [twp_rules]: "Q (f d) (d, t) \<Longrightarrow> twp (gets (\<lambda>g. f (g_db g))) Q E (d, t)"
  by (simp add: pwp_def py_defs)

lemma twp_txn [twp_rules]:
  "twp m Q (\<lambda>e dt. E e (d, snd dt)) (d, t) \<Longrightarrow> twp (gate_txn m) Q E (d, t)"
  by (auto simp: pwp_def gate_txn_def atomically_def split: prod.splits sum.splits)

lemma twp_gets: "(\<And>x. Q x dt) \<Longrightarrow> twp (gets f) Q E dt"
  by (simp add: pwp_def py_defs)

lemma twp_gets_traffic: "Q (f t) (d, t) \<Longrightarrow> twp (gets (\<lambda>g. f (g_traffic g))) Q E (d, t)"
  by (auto simp: pwp_def gets_def)

lemma twp_now [twp_rules]: "(\<And>n. Q n dt) \<Longrightarrow> twp gate_now Q E dt"
  by (simp add: pwp_def gate_now_def py_defs)

lemma twp_hit [twp_rules]: "Q () dt \<Longrightarrow> E (InjectedCrash p) dt \<Longrightarrow> twp (gate_hit p) Q E dt"
  by (simp add: pwp_def gate_hit_def py_defs)

lemma twp_get_row [twp_rules]:
  "(\<And>row. gd_row d = Some row \<Longrightarrow> Q row (d, t)) \<Longrightarrow> (\<And>e. E e (d, t)) \<Longrightarrow> twp gate_get_row Q E (d, t)"
  by (auto simp: pwp_def gate_get_row_def py_defs split: option.splits)

lemma twp_query_or_none [twp_rules]:
  "(\<And>r u. ad_query_route A t = (Inr r, u) \<Longrightarrow> Q (Some r) (d, u)) \<Longrightarrow>
   (\<And>e u. ad_query_route A t = (Inl e, u) \<Longrightarrow> Q None (d, u)) \<Longrightarrow> twp (query_route_or_none A) Q E (d, t)"
  unfolding query_route_or_none_def by (intro twp_rules)

lemma twp_close_all_suppressed [twp_rules]:
  "(\<And>r u. ad_close_all A t = (r, u) \<Longrightarrow> Q () (d, u)) \<Longrightarrow> twp (close_all_suppressed A) Q E (d, t)"
  unfolding close_all_suppressed_def by (intro twp_rules) simp_all

lemma twp_append [twp_rules]:
  "(\<And>d'. gd_row d' = gd_row d \<Longrightarrow> Q (next_seq d) (d', t)) \<Longrightarrow>
   twp (gate_append generation kind operation from_state to_state fence detail operation_id) Q E (d, t)"
  unfolding gate_append_def
  by (simp add: pwp_def gate_now_def py_defs db_insert_transition_def next_seq_def)

lemma twp_update_row [twp_rules]:
  "(\<And>d'. gd_row d' = map_option f (gd_row d) \<Longrightarrow> Q () (d', t)) \<Longrightarrow> twp (update_row f) Q E (d, t)"
  by (simp add: pwp_def update_row_def py_defs)

lemma twp_transition [twp_rules]:
  "(\<And>d' row. gd_row d = Some row \<Longrightarrow> target = gs_state row \<or> target \<in> allowed (gs_state row) \<Longrightarrow>
     gd_row d' = Some (row\<lparr>gs_state := target, gs_transition_seq := next_seq d,
       gs_revision := gs_revision row + 1\<rparr>) \<Longrightarrow> Q (next_seq d) (d', t)) \<Longrightarrow>
   (\<And>e. E e (d, t)) \<Longrightarrow> (\<And>e d'. E e (d', t)) \<Longrightarrow>
   twp (gate_transition generation target operation kind detail fence operation_id) Q E (d, t)"
  by (auto simp: pwp_def gate_transition_def gate_get_row_def gate_append_def gate_now_def cas_row_def py_defs
      db_insert_transition_def next_seq_def Let_def split: option.splits)

lemma observed_closed_None [simp]: "\<not> observed_closed None"
  by (simp add: observed_closed_def)

subsection \<open>The contract of the authority\<close>

locale traffic_authority =
  fixes A :: "'e adapter" and route :: "'e \<Rightarrow> route_state"
  assumes query: "ad_query_route A t = (Inr r, u) \<Longrightarrow> r = route t \<and> route u = route t"
    and query_failed: "ad_query_route A t = (Inl e, u) \<Longrightarrow> route u = route t"
    and lease_valid: "ad_lease_valid A l now t = (held, u) \<Longrightarrow> route u = route t"
    and close_all: "ad_close_all A t = (Inr x, u) \<Longrightarrow> route u = closed_route"
    and open_: "ad_open A generation fence snapshot lease now t = (Inr y, u) \<Longrightarrow>
      route u = \<lparr>rt_generation = Some generation, rt_fence = fence, rt_snapshot = snapshot\<rparr>"
    and restore: "ad_restore A generation fence snapshot t = (Inr z, u) \<Longrightarrow>
      rt_generation (route u) = Some generation \<and> rt_fence (route u) = fence"
begin

text \<open>A fail-close that reports \<open>FAILED_SAFE\<close> has closed the traffic; otherwise it says so.\<close>

lemma fail_close_reports:
  assumes "gate_fail_close A generation reason g = (Inr r, h)"
  shows "\<exists>row. gd_row (g_db h) = Some row
    \<and> (fc_classification r = RC_FAILED_SAFE \<and> gs_state row = FAILED_SAFE
         \<and> observed_closed (Some (route (g_traffic h))) \<and> fc_actual_route r = Some (route (g_traffic h))
       \<or> fc_classification r = RC_SAFETY_UNKNOWN \<and> gs_state row = SAFETY_UNKNOWN
         \<and> \<not> observed_closed (fc_actual_route r))"
proof -
  have "twp (gate_fail_close A generation reason) (\<lambda>r dt. \<exists>row. gd_row (fst dt) = Some row
    \<and> (fc_classification r = RC_FAILED_SAFE \<and> gs_state row = FAILED_SAFE
         \<and> observed_closed (Some (route (snd dt))) \<and> fc_actual_route r = Some (route (snd dt))
       \<or> fc_classification r = RC_SAFETY_UNKNOWN \<and> gs_state row = SAFETY_UNKNOWN
         \<and> \<not> observed_closed (fc_actual_route r))) (\<lambda>_ _. True) (g_db g, g_traffic g)"
    unfolding gate_fail_close_def
    by (intro twp_rules; auto simp: closed_class_def closed_target_def observed_closed_def dest!: query)
  from twp_Inr [OF this assms] show ?thesis by simp
qed

lemma twp_fail_close_any:
  "(\<And>x dt. Q x dt) \<Longrightarrow> (\<And>e dt. E e dt) \<Longrightarrow> twp (gate_fail_close A generation reason) Q E dt"
  by (auto simp: pwp_def split: prod.splits sum.splits)

text \<open>An open that did something has put the traffic on the candidate, under the returned fence.\<close>

lemma open_checks_run:
  assumes "open_checks A generation p row g = (Inr c, h)"
  shows "g_db h = g_db g \<and> route (g_traffic h) = route (g_traffic g) \<and>
    op_candidate_digest p = gs_candidate_digest row \<and>
    gs_candidate_generation row = generation \<and> op_generation p = generation \<and> 1 \<le> op_evidence_count p"
proof -
  have "twp (open_checks A generation p row) (\<lambda>_ dt. fst dt = g_db g \<and>
      route (snd dt) = route (g_traffic g) \<and> op_candidate_digest p = gs_candidate_digest row \<and>
      gs_candidate_generation row = generation \<and> op_generation p = generation \<and> 1 \<le> op_evidence_count p)
      (\<lambda>_ _. True) (g_db g, g_traffic g)"
    unfolding open_checks_def by (intro twp_rules; auto dest: lease_valid)
  from twp_Inr [OF this assms] show ?thesis by simp
qed

lemma twp_open_checks [twp_rules]:
  assumes "\<And>c u. route u = route t \<Longrightarrow> op_candidate_digest p = gs_candidate_digest row \<Longrightarrow>
      gs_candidate_generation row = generation \<Longrightarrow>
      op_generation p = generation \<Longrightarrow> 1 \<le> op_evidence_count p \<Longrightarrow> Q c (d, u)" and "\<And>e dt. E e dt"
  shows "twp (open_checks A generation p row) Q E (d, t)"
  unfolding pwp_def
  by (use assms in \<open>auto split: prod.splits sum.splits dest!: open_checks_run\<close>)

text \<open>
  An open either puts the traffic on the candidate, under the returned fence, or finds the candidate
  open already under the same proof and changes nothing.
\<close>

lemma open_opens:
  assumes "gate_open sha A generation p g = (Inr fence, h)" and "gd_row (g_db g) = Some row"
  shows "op_candidate_digest p = gs_candidate_digest row \<and> 1 \<le> op_evidence_count p \<and>
    (if gs_state row = CANDIDATE_OPEN
     then g_db h = g_db g \<and> route (g_traffic h) = route (g_traffic g)
       \<and> fence = gs_route_fence row \<and> gs_proof_digest row = Some (proof_digest sha p)
     else \<exists>row'. gd_row (g_db h) = Some row' \<and> gs_state row' = CANDIDATE_OPEN
       \<and> gs_route_generation row' = Some generation \<and> gs_route_fence row' = fence
       \<and> gs_proof_digest row' = Some (proof_digest sha p)
       \<and> rt_generation (route (g_traffic h)) = Some generation \<and> rt_fence (route (g_traffic h)) = fence
       \<and> gate_digest sha (rt_snapshot (route (g_traffic h))) = gs_candidate_digest row)"
proof -
  have "twp (gate_open sha A generation p) (\<lambda>fence dt.
    op_candidate_digest p = gs_candidate_digest row \<and> 1 \<le> op_evidence_count p \<and>
    (if gs_state row = CANDIDATE_OPEN
     then fst dt = g_db g \<and> route (snd dt) = route (g_traffic g)
       \<and> fence = gs_route_fence row \<and> gs_proof_digest row = Some (proof_digest sha p)
     else \<exists>row'. gd_row (fst dt) = Some row' \<and> gs_state row' = CANDIDATE_OPEN
       \<and> gs_route_generation row' = Some generation \<and> gs_route_fence row' = fence
       \<and> gs_proof_digest row' = Some (proof_digest sha p)
       \<and> rt_generation (route (snd dt)) = Some generation \<and> rt_fence (route (snd dt)) = fence
       \<and> gate_digest sha (rt_snapshot (route (snd dt))) = gs_candidate_digest row))
    (\<lambda>_ _. True) (g_db g, g_traffic g)"
    unfolding gate_open_def Let_def
    by (intro twp_rules twp_fail_close_any; (use assms(2) in \<open>auto dest!: query\<close>)?)
  from twp_Inr [OF this assms(1)] show ?thesis unfolding fst_conv snd_conv .
qed

text \<open>What a rollback's classification says about the traffic.\<close>

lemma rollback_reports:
  assumes "gate_rollback A generation oracle g = (Inr outcome, h)" and "gd_row (g_db g) = Some row"
  shows "\<exists>row'. gd_row (g_db h) = Some row' \<and> gs_state row' = rollback_target outcome
    \<and> (outcome = RC_RESTORED_STRONG \<longrightarrow>
         rt_generation (route (g_traffic h)) = Some (gs_predecessor_generation row)
         \<and> rt_fence (route (g_traffic h)) = fence_of (gs_predecessor_generation row)
         \<and> (\<exists>snapshot. json_read (gs_predecessor_json row) = Inr snapshot
              \<and> py_eq (rt_snapshot (route (g_traffic h))) snapshot))
    \<and> (outcome = RC_BEHAVIORAL \<longrightarrow> ad_behavioral_restore A (g_traffic h) \<and>
         (\<exists>b. oracle = Some b \<and> bo_equivalent b \<and> prefix ''sha256:'' (bo_observations_digest b) \<and> bo_oracle b \<noteq> []))
    \<and> (outcome = RC_FAILED_SAFE \<longrightarrow>
         rt_generation (route (g_traffic h)) = None \<and> rt_fence (route (g_traffic h)) = ''closed'')"
proof -
  let ?says = "\<lambda>pg pf predecessor outcome t.
     (outcome = RC_RESTORED_STRONG \<longrightarrow> rt_generation (route t) = Some pg \<and> rt_fence (route t) = pf
        \<and> py_eq (rt_snapshot (route t)) predecessor)
     \<and> (outcome = RC_BEHAVIORAL \<longrightarrow> ad_behavioral_restore A t \<and> oracle_accepts oracle)
     \<and> (outcome = RC_FAILED_SAFE \<longrightarrow> observed_closed (Some (route t)))"
  have effect: "twp (rollback_effect A pg pf predecessor oracle)
      (\<lambda>(outcome, actual) dt. fst dt = d \<and> ?says pg pf predecessor outcome (snd dt)) (\<lambda>_ _. True) (d, t)"
    for pg pf predecessor d t
    unfolding rollback_effect_def close_and_classify_def
    by (intro twp_rules twp_gets_traffic; auto simp: closed_class_def restored_strong_def dest!: query)
  have "twp (gate_rollback A generation oracle) (\<lambda>outcome dt.
    \<exists>row' predecessor. gd_row (fst dt) = Some row' \<and> gs_state row' = rollback_target outcome
    \<and> json_read (gs_predecessor_json row) = Inr predecessor
    \<and> ?says (gs_predecessor_generation row) (fence_of (gs_predecessor_generation row)) predecessor outcome (snd dt))
    (\<lambda>_ _. True) (g_db g, g_traffic g)"
    unfolding gate_rollback_def Let_def
    by (intro twp_rules pwp_conseq [OF effect]; (use assms(2) in \<open>auto intro!: twp_rules\<close>)?)
  from twp_Inr [OF this assms(1)] show ?thesis
    by (fastforce simp: oracle_accepts_def observed_closed_def split: option.splits)
qed

end

interpretation det: traffic_authority det_adapter dt_route
proof unfold_locales
  fix t :: det_traffic and r u
  assume "ad_query_route det_adapter t = (Inr r, u)"
  then show "r = dt_route t \<and> dt_route u = dt_route t"
    by (auto simp: det_adapter_def det_query_route_def det_hit_def py_defs split: if_splits)
next
  fix t :: det_traffic and e u
  assume "ad_query_route det_adapter t = (Inl e, u)"
  then show "dt_route u = dt_route t"
    by (auto simp: det_adapter_def det_query_route_def det_hit_def py_defs split: if_splits)
next
  fix l now and t :: det_traffic and x u
  assume "ad_lease_valid det_adapter l now t = (x, u)"
  then show "dt_route u = dt_route t"
    by (auto simp: det_adapter_def det_lease_valid_def py_defs)
next
  fix t :: det_traffic and x u
  assume "ad_close_all det_adapter t = (Inr x, u)"
  then show "dt_route u = closed_route"
    by (auto simp: det_adapter_def det_close_all_def det_hit_def py_defs split: if_splits)
next
  fix generation fence snapshot lease now and t :: det_traffic and y u
  assume "ad_open det_adapter generation fence snapshot lease now t = (Inr y, u)"
  then show "dt_route u = \<lparr>rt_generation = Some generation, rt_fence = fence, rt_snapshot = snapshot\<rparr>"
    by (auto simp: det_adapter_def det_open_def det_hit_def py_defs split: if_splits)
next
  fix generation fence snapshot and t :: det_traffic and z u
  assume "ad_restore det_adapter generation fence snapshot t = (Inr z, u)"
  then show "rt_generation (dt_route u) = Some generation \<and> rt_fence (dt_route u) = fence"
    by (cases snapshot) (auto simp: det_adapter_def det_restore_def py_defs Let_def split: if_splits)
qed

subsection \<open>Properties\<close>

text \<open>
  C8. An open is what it says.  When \<open>open\<close> returns a fence, the proof named the staged candidate's
  digest and counted at least one piece of evidence, and one of two things is the case.  If the
  candidate was not open, the durable state is \<open>CANDIDATE_OPEN\<close> with that generation, fence and
  proof, the authority routes traffic to exactly that generation under exactly that fence, and the
  live snapshot has the digest of the staged candidate.  If it was open already, the proof is the one
  it was opened with, the fence is the recorded one, and neither the database nor the route changes:
  an idempotent open says nothing about the route.
\<close>

theorem gate_open_sound:
  assumes "gate_open sha det_adapter generation p g = (Inr fence, h)" and "gd_row (g_db g) = Some row"
  shows "op_candidate_digest p = gs_candidate_digest row \<and> 1 \<le> op_evidence_count p \<and>
    (if gs_state row = CANDIDATE_OPEN
     then g_db h = g_db g \<and> dt_route (g_traffic h) = dt_route (g_traffic g)
       \<and> fence = gs_route_fence row \<and> gs_proof_digest row = Some (proof_digest sha p)
     else \<exists>row'. gd_row (g_db h) = Some row' \<and> gs_state row' = CANDIDATE_OPEN
       \<and> gs_route_generation row' = Some generation \<and> gs_route_fence row' = fence
       \<and> gs_proof_digest row' = Some (proof_digest sha p)
       \<and> rt_generation (dt_route (g_traffic h)) = Some generation \<and> rt_fence (dt_route (g_traffic h)) = fence
       \<and> gate_digest sha (rt_snapshot (dt_route (g_traffic h))) = gs_candidate_digest row)"
  using assms by (rule det.open_opens)

theorem gate_open_sound_witness:
  "gate_open ex_sha det_adapter 2 ex_proof ex_closed = (Inr ex_fence, ex_open) \<and>
   gd_row (g_db ex_closed) = Some (ex_row CANDIDATE_CLOSED 3 2) \<and>
   gs_state (ex_row CANDIDATE_CLOSED 3 2) \<noteq> CANDIDATE_OPEN \<and>
   rt_fence (dt_route (g_traffic ex_open)) = ex_fence"
proof -
  have row: "gd_row (g_db ex_closed) = Some (ex_row CANDIDATE_CLOSED 3 2)"
      "gs_state (ex_row CANDIDATE_CLOSED 3 2) \<noteq> CANDIDATE_OPEN"
    by (simp_all add: ex_closed_def ex_row_def)
  from gate_open_sound [OF ex_open_run row(1)] ex_open_run row show ?thesis by auto
qed

text \<open>
  C38. A rollback reports what the traffic does.  When \<open>rollback\<close> returns a classification, the
  durable state is the one of that classification.  \<open>RESTORED_STRONG\<close> means that the authority routes
  to the predecessor generation under its fence with a snapshot equal to the staged predecessor's;
  \<open>BEHAVIORAL\<close> that the authority declares its restore behavioural and the oracle given was one that
  says equivalent, with a SHA-256 observations digest and a name; and \<open>FAILED_SAFE\<close> that all traffic
  is closed.
\<close>

theorem gate_rollback_sound:
  assumes "gate_rollback det_adapter generation oracle g = (Inr outcome, h)" and "gd_row (g_db g) = Some row"
  shows "\<exists>row'. gd_row (g_db h) = Some row' \<and> gs_state row' = rollback_target outcome
    \<and> (outcome = RC_RESTORED_STRONG \<longrightarrow>
         rt_generation (dt_route (g_traffic h)) = Some (gs_predecessor_generation row)
         \<and> rt_fence (dt_route (g_traffic h)) = fence_of (gs_predecessor_generation row)
         \<and> (\<exists>snapshot. json_read (gs_predecessor_json row) = Inr snapshot
              \<and> py_eq (rt_snapshot (dt_route (g_traffic h))) snapshot))
    \<and> (outcome = RC_BEHAVIORAL \<longrightarrow> dt_behavioral_restore (g_traffic h) \<and>
         (\<exists>b. oracle = Some b \<and> bo_equivalent b \<and> prefix ''sha256:'' (bo_observations_digest b) \<and> bo_oracle b \<noteq> []))
    \<and> (outcome = RC_FAILED_SAFE \<longrightarrow>
         rt_generation (dt_route (g_traffic h)) = None \<and> rt_fence (dt_route (g_traffic h)) = ''closed'')"
  using det.rollback_reports [OF assms] by (simp add: det_adapter_def)

theorem gate_rollback_sound_witness:
  "\<exists>h. gate_rollback det_adapter 2 None ex_open = (Inr RC_RESTORED_STRONG, h) \<and>
     gd_row (g_db ex_open) = Some ex_open_row \<and> rt_generation (dt_route (g_traffic h)) = Some 1"
proof -
  have row: "gd_row (g_db ex_open) = Some ex_open_row" "gs_predecessor_generation ex_open_row = 1"
    by (simp_all add: ex_open_def ex_open_row_def ex_row_def)
  have [simp]: "json_read (gate_json ex_pred) = Inr ex_pred" by (simp add: ex_pred_def)
  have [simp]: "(case ex_pred of JObj kvs \<Rightarrow> ret (JObj kvs) | _ \<Rightarrow> raise (TypeError ''not a mapping'')) = ret ex_pred"
    by (simp add: ex_pred_def)
  have "fst (gate_rollback det_adapter 2 None ex_open) = Inr RC_RESTORED_STRONG"
    by (simp add: gate_rollback_def gate_defs ex_open_def ex_open_row_def ex_row_def ex_route_def rollback_effect_def
        det_restore_def query_route_or_none_def restored_strong_def py_eq_def)
  then obtain h where "gate_rollback det_adapter 2 None ex_open = (Inr RC_RESTORED_STRONG, h)"
    by (cases "gate_rollback det_adapter 2 None ex_open") auto
  with gate_rollback_sound [OF this row(1)] row show ?thesis by auto
qed

text \<open>
  C37. A fail-close is never claimed without being seen.  When \<open>fail_close\<close> returns, either it
  reports \<open>FAILED_SAFE\<close>, the durable state is \<open>FAILED_SAFE\<close> and the authority's route is closed and
  is the one reported, or it reports \<open>SAFETY_UNKNOWN\<close>, the durable state is \<open>SAFETY_UNKNOWN\<close> and no
  closed route was observed.
\<close>

theorem gate_fail_close_sound:
  assumes "gate_fail_close det_adapter generation reason g = (Inr r, h)"
  shows "\<exists>row. gd_row (g_db h) = Some row
    \<and> (fc_classification r = RC_FAILED_SAFE \<and> gs_state row = FAILED_SAFE
         \<and> observed_closed (Some (dt_route (g_traffic h))) \<and> fc_actual_route r = Some (dt_route (g_traffic h))
       \<or> fc_classification r = RC_SAFETY_UNKNOWN \<and> gs_state row = SAFETY_UNKNOWN
         \<and> \<not> observed_closed (fc_actual_route r))"
  using assms by (rule det.fail_close_reports)

theorem gate_fail_close_sound_witness:
  "\<exists>r h. gate_fail_close det_adapter 2 ''operator'' ex_open = (Inr r, h) \<and>
     (fc_classification r = RC_FAILED_SAFE \<longleftrightarrow> observed_closed (fc_actual_route r))"
proof -
  have "\<exists>r. fst (gate_fail_close det_adapter 2 ''operator'' ex_open) = Inr r"
    by (simp add: gate_fail_close_def gate_defs ex_open_def ex_open_row_def ex_row_def ex_route_def det_close_all_def
        closed_target_def observed_closed_def closed_route_def)
  then obtain r h where run: "gate_fail_close det_adapter 2 ''operator'' ex_open = (Inr r, h)"
    by (cases "gate_fail_close det_adapter 2 ''operator'' ex_open") auto
  from gate_fail_close_sound [OF this] run show ?thesis by auto
qed

text \<open>
  Fail-close always succeeds on a working authority.  With no fault point armed, \<open>fail_close\<close>
  of the current candidate generation in any state that is not terminal returns \<open>FAILED_SAFE\<close>
  with no error, and the traffic is closed.
\<close>

theorem gate_fail_close_closes:
  assumes "gd_row (g_db g) = Some row" and "gs_schema_version row = schema_version"
    and "allowed (gs_state row) \<noteq> {}" and "g_faults g = {}" and "dt_faults (g_traffic g) = {}"
  shows "\<exists>h. gate_fail_close det_adapter (gs_candidate_generation row) reason g =
       (Inr \<lparr>fc_classification = RC_FAILED_SAFE, fc_actual_route = Some closed_route, fc_error = None\<rparr>, h)
     \<and> dt_route (g_traffic h) = closed_route"
proof -
  have "FAILED_SAFE \<in> allowed (gs_state row)"
    using assms(3) by (cases "gs_state row") simp_all
  moreover have "observed_closed (Some closed_route)"
    by (simp add: observed_closed_def closed_route_def)
  ultimately show ?thesis
    using assms by (simp add: gate_fail_close_def gate_defs det_close_all_def closed_target_def closed_class_def)
qed

theorem gate_fail_close_closes_witness:
  "gd_row (g_db ex_open) = Some ex_open_row \<and> gs_schema_version ex_open_row = schema_version \<and>
   allowed (gs_state ex_open_row) \<noteq> {} \<and> g_faults ex_open = {} \<and> dt_faults (g_traffic ex_open) = {} \<and>
   (\<exists>h. gate_fail_close det_adapter 2 ''operator'' ex_open =
       (Inr \<lparr>fc_classification = RC_FAILED_SAFE, fc_actual_route = Some closed_route, fc_error = None\<rparr>, h)
     \<and> dt_route (g_traffic h) = closed_route)"
proof -
  have ok: "gd_row (g_db ex_open) = Some ex_open_row" "gs_schema_version ex_open_row = schema_version"
    "allowed (gs_state ex_open_row) \<noteq> {}" "g_faults ex_open = {}" "dt_faults (g_traffic ex_open) = {}"
    and gen: "gs_candidate_generation ex_open_row = 2"
    by (simp_all add: ex_open_def ex_open_row_def ex_row_def schema_version_def ex_route_def)
  from gate_fail_close_closes [OF ok, of "''operator''"] ok gen show ?thesis by simp
qed

text \<open>
  A rollback while opening cannot be recorded.  In \<open>OPENING\<close> the table of transitions has no
  edge to \<open>ROLLED_BACK\<close>, but \<open>rollback\<close> checks that only after the effect: with a working authority
  it puts the traffic back on the predecessor and then raises \<open>GateError\<close>, and the durable state is
  still \<open>OPENING\<close> with an unfinished rollback intent, on which every later \<open>reconcile\<close> raises, too.
\<close>

theorem gate_rollback_while_opening:
  assumes "gd_row (g_db g) = Some row" and "gs_schema_version row = schema_version"
    and "gs_state row = OPENING" and "g_faults g = {}" and "dt_faults (g_traffic g) = {}"
    and "\<not> dt_rollback_fails (g_traffic g)" and "\<not> dt_behavioral_restore (g_traffic g)"
    and "json_read (gs_predecessor_json row) = Inr (JObj kvs)"
    and "unfinished ''fail_close'' (gd_transitions (g_db g)) = None"
    and "unfinished_recovery_close (gd_transitions (g_db g)) = None"
    and "last_row ''rollback'' ''receipt'' (gd_transitions (g_db g)) = None"
  shows "\<exists>h e e'. gate_rollback det_adapter (gs_candidate_generation row) oracle g = (Inl (GateError e), h)
     \<and> gd_row (g_db h) = Some row \<and> rt_generation (dt_route (g_traffic h)) = Some (gs_predecessor_generation row)
     \<and> fst (gate_reconcile sha det_adapter h) = Inl (GateError e')"
proof -
  have "\<exists>h e t. gate_rollback det_adapter (gs_candidate_generation row) oracle g = (Inl (GateError e), h)
     \<and> gd_row (g_db h) = Some row \<and> gd_transitions (g_db h) = gd_transitions (g_db g) @ [t]
     \<and> tr_operation t = ''rollback'' \<and> tr_kind t = ''intent'' \<and> g_faults h = {}
     \<and> dt_faults (g_traffic h) = {} \<and> dt_route (g_traffic h) = \<lparr>rt_generation = Some (gs_predecessor_generation row),
         rt_fence = fence_of (gs_predecessor_generation row), rt_snapshot = JObj kvs\<rparr>"
    using assms(1-8)
    by (auto simp: gate_rollback_def gate_defs rollback_effect_def det_restore_def query_route_or_none_def
        restored_strong_def py_eq_def)
  then obtain h e t where run: "gate_rollback det_adapter (gs_candidate_generation row) oracle g = (Inl (GateError e), h)"
      and h: "gd_row (g_db h) = Some row" "gd_transitions (g_db h) = gd_transitions (g_db g) @ [t]"
        "tr_operation t = ''rollback''" "tr_kind t = ''intent''" "g_faults h = {}" "dt_faults (g_traffic h) = {}"
        "dt_route (g_traffic h) = \<lparr>rt_generation = Some (gs_predecessor_generation row),
         rt_fence = fence_of (gs_predecessor_generation row), rt_snapshot = JObj kvs\<rparr>"
    by blast
  have log: "unfinished ''fail_close'' (gd_transitions (g_db h)) = None"
      "unfinished_recovery_close (gd_transitions (g_db h)) = None"
      "unfinished ''rollback'' (gd_transitions (g_db h)) = Some t"
    using assms(9-11) h(2-4)
    by (auto simp: unfinished_def unfinished_recovery_close_def split: option.splits)
  have "\<exists>e'. fst (gate_reconcile sha det_adapter h) = Inl (GateError e')"
    using h log assms(2,3,8)
    by (simp add: gate_reconcile_def gate_defs reconcile_rollback_def query_route_or_none_def)
  with run h(1,7) show ?thesis by auto
qed

definition ex_opening :: "det_traffic gate" where
  "ex_opening = ex_closed\<lparr>g_db := \<lparr>gd_row = Some ((ex_row OPENING 4 3)\<lparr>gs_proof_digest := Some ''sha256:00''\<rparr>),
      gd_transitions = butlast ex_open_rows, gd_admissions = [], gd_events = []\<rparr>\<rparr>"

theorem gate_rollback_while_opening_witness:
  "\<exists>h e e'. gate_rollback det_adapter 2 None ex_opening = (Inl (GateError e), h) \<and>
     rt_generation (dt_route (g_traffic h)) = Some 1 \<and>
     fst (gate_reconcile ex_sha det_adapter h) = Inl (GateError e')"
proof -
  let ?row = "(ex_row OPENING 4 3)\<lparr>gs_proof_digest := Some ''sha256:00''\<rparr>"
  have "json_read (gs_predecessor_json ?row) = Inr (JObj [(''generation'', JInt 1)])"
    by (simp add: ex_row_def ex_pred_def)
  moreover have "gd_row (g_db ex_opening) = Some ?row" "gs_schema_version ?row = schema_version"
    "gs_state ?row = OPENING" "g_faults ex_opening = {}" "dt_faults (g_traffic ex_opening) = {}"
    "\<not> dt_rollback_fails (g_traffic ex_opening)" "\<not> dt_behavioral_restore (g_traffic ex_opening)"
    by (simp_all add: ex_opening_def ex_closed_def ex_row_def schema_version_def ex_route_def)
  moreover have "unfinished ''fail_close'' (gd_transitions (g_db ex_opening)) = None"
    "unfinished_recovery_close (gd_transitions (g_db ex_opening)) = None"
    "last_row ''rollback'' ''receipt'' (gd_transitions (g_db ex_opening)) = None"
    by (simp_all add: ex_opening_def ex_open_rows_def ex_close_rows_def ex_stage_rows_def ex_tr_def
        unfinished_def unfinished_recovery_close_def last_row_def)
  ultimately have "\<exists>h e e'. gate_rollback det_adapter (gs_candidate_generation ?row) None ex_opening = (Inl (GateError e), h)
     \<and> gd_row (g_db h) = Some ?row \<and> rt_generation (dt_route (g_traffic h)) = Some (gs_predecessor_generation ?row)
     \<and> fst (gate_reconcile ex_sha det_adapter h) = Inl (GateError e')"
    by (intro gate_rollback_while_opening)
  moreover have "gs_candidate_generation ?row = 2" "gs_predecessor_generation ?row = 1"
    by (simp_all add: ex_row_def)
  ultimately show ?thesis by auto
qed

text \<open>An authority that accepts \<open>close_all\<close> without effect.\<close>

definition deaf_adapter :: "det_traffic adapter" where
  "deaf_adapter = det_adapter\<lparr>ad_close_all := ret ()\<rparr>"

lemma deaf_query:
  "dt_faults (g_traffic g) = {} \<Longrightarrow> query_route_or_none deaf_adapter g = (Inr (Some (dt_route (g_traffic g))), g)"
  by (cases g) (simp add: query_route_or_none_def deaf_adapter_def gate_defs)

lemma deaf_lease: "on_traffic (ad_lease_valid deaf_adapter l n) g =
    (Inr (dt_authority (g_traffic g) = l \<and> n \<le> lg_expires_at l), g)"
  by (cases g) (simp add: deaf_adapter_def det_lease_valid_def gate_defs)

text \<open>
  Recovery of an open claims a closed route that it did not see.  When the traffic authority
  accepts \<open>close_all\<close> without effect, \<open>reconcile\<close> of an interrupted open records \<open>FAILED_SAFE\<close> and a
  closed route although the route that it queried right after is still open; \<open>fail_close\<close> of the
  same authority reports \<open>SAFETY_UNKNOWN\<close>.
\<close>

theorem gate_reconcile_claims_unseen_close:
  "(\<exists>h row. gate_reconcile ex_sha deaf_adapter ex_opening = (Inr FAILED_SAFE, h)
      \<and> gd_row (g_db h) = Some row \<and> gs_state row = FAILED_SAFE \<and> gs_route_fence row = ''closed''
      \<and> rt_generation (dt_route (g_traffic h)) = Some 1)
   \<and> (\<exists>r h. gate_fail_close deaf_adapter 2 ''operator'' ex_opening = (Inr r, h)
      \<and> fc_classification r = RC_SAFETY_UNKNOWN)"
proof
  let ?row = "(ex_row OPENING 4 3)\<lparr>gs_proof_digest := Some ''sha256:00''\<rparr>"
  let ?i = "ex_tr 4 ''intent'' ''open'' ''open:2'' (Some CANDIDATE_CLOSED) (Some OPENING) (Some ex_fence)
       (JObj (proof_fields ex_proof @ [(''proof_digest'', JStr ''sha256:00'')]))"
  have get: "gate_get_row ex_opening = (Inr ?row, ex_opening)"
    by (simp add: gate_get_row_def ex_opening_def py_defs ex_row_def schema_version_def)
  have log: "unfinished ''fail_close'' (gd_transitions (g_db ex_opening)) = None"
      "unfinished_recovery_close (gd_transitions (g_db ex_opening)) = None"
      "unfinished ''rollback'' (gd_transitions (g_db ex_opening)) = None"
      "last_row ''open'' ''intent'' (gd_transitions (g_db ex_opening)) = Some ?i"
    by (simp_all add: ex_opening_def ex_open_rows_def ex_close_rows_def ex_stage_rows_def ex_tr_def
        unfinished_def unfinished_recovery_close_def last_row_def)
  define detail where "detail = jsort (JObj (proof_fields ex_proof @ [(''proof_digest'', JStr ''sha256:00'')]))"
  have i: "json_read (tr_detail_json ?i) = Inr detail"
    by (simp only: ex_tr_def transition_row.simps json_read_gate_json [OF json_wf_proof] detail_def)
  have digest: "json_item ''proof_digest'' detail = Inr (JStr ''sha256:00'')"
    unfolding detail_def by (subst json_item_jsort) (simp_all add: proof_fields_def)
  have p: "proof_of_json detail = Inr ex_proof"
    unfolding detail_def by (rule proof_of_json_jsort)
  have lease: "ebind (json_read (gs_lease_json (ex_row OPENING 4 3))) lease_of_json = Inr ex_lease"
    by (simp add: ex_row_def)
  have [simp]: "proof_digest ex_sha p = ''sha256:00''" for p by (simp add: proof_digest_def)
  have [simp]: "op_lease ex_proof = ex_lease" "lg_expires_at ex_lease = 100"
    by (simp_all add: ex_proof_def ex_lease_def)
  let ?rt = "\<lparr>rt_generation = Some 1, rt_fence = ''fence-1'', rt_snapshot = ex_pred\<rparr>"
  have [simp]: "dt_faults (ex_route g f s) = {}" "dt_authority (ex_route g f s) = ex_lease" for g f s
    by (simp_all add: ex_route_def)
  have env: "g_traffic ex_opening = ex_route 1 ''fence-1'' ex_pred" "g_clock ex_opening n = 5" "g_faults ex_opening = {}"
      "gs_candidate_generation (ex_row OPENING 4 3) = 2" "gs_state (ex_row OPENING 4 3) = OPENING" for n
    by (simp_all add: ex_opening_def ex_closed_def ex_row_def)
  have "reconcile_opening ex_sha deaf_adapter ?row ex_opening =
      reconcile_close_open deaf_adapter 2 ?i ?rt (ex_opening\<lparr>g_ticks := Suc (g_ticks ex_opening)\<rparr>)"
    unfolding reconcile_opening_def Let_def
    by (simp add: bind_def gets_def log(4) i digest p lease lift_result_def env py_eq_def gate_now_def modify_def
        andthen_def ret_def deaf_query deaf_lease) (simp add: ex_route_def)
  then have "gate_reconcile ex_sha deaf_adapter ex_opening =
      reconcile_close_open deaf_adapter 2 ?i ?rt (ex_opening\<lparr>g_ticks := Suc (g_ticks ex_opening)\<rparr>)"
    unfolding gate_reconcile_def by (simp add: bind_def get gets_def log env)
  moreover have "\<exists>h row. reconcile_close_open deaf_adapter 2 ?i ?rt (ex_opening\<lparr>g_ticks := Suc (g_ticks ex_opening)\<rparr>)
      = (Inr FAILED_SAFE, h) \<and> gd_row (g_db h) = Some row \<and> gs_state row = FAILED_SAFE
      \<and> gs_route_fence row = ''closed'' \<and> rt_generation (dt_route (g_traffic h)) = Some 1"
    by (simp add: reconcile_close_open_def gate_defs env deaf_adapter_def ex_route_def ex_opening_def ex_closed_def ex_row_def)
  ultimately show "\<exists>h row. gate_reconcile ex_sha deaf_adapter ex_opening = (Inr FAILED_SAFE, h)
      \<and> gd_row (g_db h) = Some row \<and> gs_state row = FAILED_SAFE \<and> gs_route_fence row = ''closed''
      \<and> rt_generation (dt_route (g_traffic h)) = Some 1"
    by simp
next
  show "\<exists>r h. gate_fail_close deaf_adapter 2 ''operator'' ex_opening = (Inr r, h)
      \<and> fc_classification r = RC_SAFETY_UNKNOWN"
    by (simp add: gate_fail_close_def gate_defs ex_opening_def ex_closed_def ex_row_def deaf_adapter_def ex_route_def
        closed_target_def closed_class_def observed_closed_def)
qed

end
