(* ===== verification/Coordinator_Store.thy ===== *)
theory Coordinator_Store
  imports Exposure_Gate
begin

section \<open>The durable coordinator: store, services, plan JSON (\<^verbatim>\<open>durable_coordinator.py\<close>)\<close>

text \<open>
  The data of the activation coordinator.  \<open>SQLiteActivationStore\<close> is the record \<open>store_db\<close>, one
  list per table; \<open>st_journal_seq\<close> is the autoincrement counter of the journal; outcome rows, which are
  never deleted, are numbered by their position.  The protocols \<open>HostAdapter\<close>, \<open>EvidenceVerifier\<close>, \<open>TrafficGate\<close> and
  \<open>ExternalServiceAdapter\<close> are the methods of the record \<open>'h services\<close> over one environment \<open>'h\<close>, and
  the \<open>Fake\<close> classes of the module are the instance \<open>fake_services\<close>.  When the traffic object is a
  \<open>ReferenceExposureGate\<close> it is the component \<open>co_gate\<close>.  JSON objects that the code unpacks into
  dataclass fields must have exactly those fields, with values of their declared types.
\<close>

subsection \<open>Transitions\<close>

text \<open>\<open>TRANSITIONS\<close>; the dict has no entry for \<open>State.RESOLVED\<close>.\<close>

fun transitions :: "state \<Rightarrow> state set option" where
  "transitions Intent = Some {Planned}"
| "transitions Resolved = None"
| "transitions Planned = Some {Preparing}"
| "transitions Preparing = Some {Prepared, Reconcile}"
| "transitions Prepared = Some {Launching, Rollback}"
| "transitions Launching = Some {Observing, Reconcile}"
| "transitions Observing = Some {CommitReady, Degraded, Reconcile, Rollback}"
| "transitions CommitReady = Some {Effective, Reconcile, FailedSafe}"
| "transitions Effective = Some {Degraded, Rollback}"
| "transitions Degraded = Some {Reconcile, Rollback}"
| "transitions Reconcile = Some {Observing, Rollback, FailedSafe}"
| "transitions Rollback = Some {RolledBack, FailedSafe, SafetyUnknown}"
| "transitions RolledBack = Some {}"
| "transitions FailedSafe = Some {}"
| "transitions SafetyUnknown = Some {}"

subsection \<open>The store\<close>

record activation_row =
  ac_plan_id :: string
  ac_plan_json :: string
  ac_state :: state
  ac_launch_id :: "string option"
  ac_predecessor_json :: string
  ac_created_at :: int

record journal_row =
  jr_sequence :: int
  jr_plan_id :: string
  jr_kind :: string
  jr_operation :: string
  jr_detail_json :: string
  jr_created_at :: int

record inventory_row =
  iv_plan_id :: string
  iv_host :: string
  iv_role :: string
  iv_ordinal :: int
  iv_start_id :: string
  iv_epoch :: int

record evidence_row =
  ev_nonce :: string
  ev_plan_id :: string
  ev_launch_id :: string
  ev_process_key :: string
  ev_role :: string
  ev_ordinal :: int
  ev_epoch :: int
  ev_obligation_id :: string
  ev_event :: string
  ev_issued_at :: int
  ev_expires_at :: int
  ev_artifact_id :: string
  ev_authority :: string
  ev_manager_epoch :: int
  ev_valid :: bool
  ev_issuer :: string
  ev_kid :: string
  ev_observed_at :: int
  ev_evidence_digest :: string
  ev_artifact_digest :: string

record outcome_row =
  ro_sequence :: int
  ro_plan_id :: string
  ro_success :: bool
  ro_detail_json :: string
  ro_created_at :: int

record store_db =
  st_generation :: int
  st_manager_epoch :: int
  st_activations :: "activation_row list"
  st_journal :: "journal_row list"
  st_journal_seq :: int
  st_inventory :: "inventory_row list"
  st_evidence :: "evidence_row list"
  st_outcomes :: "outcome_row list"

definition store_new :: store_db where
  "store_new = \<lparr>st_generation = 0, st_manager_epoch = 0, st_activations = [], st_journal = [],
     st_journal_seq = 0, st_inventory = [], st_evidence = [], st_outcomes = []\<rparr>"

definition store_boot :: "store_db \<Rightarrow> store_db \<times> int" where
  "store_boot d = (let epoch = st_manager_epoch d + 1 in
     (d\<lparr>st_manager_epoch := epoch, st_evidence := map (\<lambda>r. r\<lparr>ev_valid := False\<rparr>) (st_evidence d)\<rparr>, epoch))"

subsection \<open>Services\<close>

record 'h services =
  sv_prepare :: "plan \<Rightarrow> (py_exn, 'h, json) py"
  sv_launch :: "plan \<Rightarrow> string \<Rightarrow> (py_exn, 'h, process_identity list) py"
  sv_rollback :: "predecessor_snapshot \<Rightarrow> (py_exn, 'h, json) py"
  sv_verify :: "attestation \<Rightarrow> int \<Rightarrow> plan \<Rightarrow> (py_exn, 'h, unit) py"
  sv_signed_verifier :: bool
  sv_hold_predecessor :: "predecessor_snapshot \<Rightarrow> (py_exn, 'h, unit) py"
  sv_activate :: "plan \<Rightarrow> (py_exn, 'h, unit) py"
  sv_restore :: "predecessor_snapshot \<Rightarrow> (py_exn, 'h, unit) py"
  sv_lease_valid :: "plan \<Rightarrow> (py_exn, 'h, bool) py"

text \<open>The deterministic services of the module.\<close>

record fake_env =
  fk_inventory :: "process_identity list"
  fk_prepared :: bool
  fk_launched :: bool
  fk_rollback_succeeds :: bool
  fk_active_plan_id :: "string option"
  fk_predecessor_plan_id :: "string option"
  fk_lease_valid :: bool

definition fake_prepare :: "(string \<Rightarrow> string) \<Rightarrow> plan \<Rightarrow> (py_exn, fake_env, json) py" where
  "fake_prepare sha p = andthen (modify (\<lambda>f. f\<lparr>fk_prepared := True\<rparr>))
     (ret (JObj [(''prepared'', JBool True), (''plan_id'', JStr (plan_id sha p))]))"

definition fake_launch :: "plan \<Rightarrow> string \<Rightarrow> (py_exn, fake_env, process_identity list) py" where
  "fake_launch p launch_id = andthen (modify (\<lambda>f. f\<lparr>fk_launched := True\<rparr>)) (gets fk_inventory)"

definition fake_rollback :: "predecessor_snapshot \<Rightarrow> (py_exn, fake_env, json) py" where
  "fake_rollback predecessor = bind (gets fk_rollback_succeeds) (\<lambda>ok.
     andthen (require ok (RuntimeError ''deterministic rollback failure''))
    (andthen (modify (\<lambda>f. f\<lparr>fk_launched := False\<rparr>))
    (ret (JObj [(''restored_generation'', JInt (ps_generation predecessor))]))))"

definition fake_hold_predecessor :: "predecessor_snapshot \<Rightarrow> (py_exn, fake_env, unit) py" where
  "fake_hold_predecessor s = modify (\<lambda>f. f\<lparr>fk_active_plan_id := ps_plan_id s, fk_predecessor_plan_id := ps_plan_id s\<rparr>)"

definition fake_activate :: "(string \<Rightarrow> string) \<Rightarrow> plan \<Rightarrow> (py_exn, fake_env, unit) py" where
  "fake_activate sha p = modify (\<lambda>f. f\<lparr>fk_active_plan_id := Some (plan_id sha p)\<rparr>)"

definition fake_restore :: "predecessor_snapshot \<Rightarrow> (py_exn, fake_env, unit) py" where
  "fake_restore s = modify (\<lambda>f. f\<lparr>fk_active_plan_id := ps_plan_id s\<rparr>)"

definition fake_verify :: "attestation \<Rightarrow> int \<Rightarrow> plan \<Rightarrow> (py_exn, fake_env, unit) py" where
  "fake_verify a now p =
     andthen (require (at_authority a = ''host-runtime'') (ContractError AUTHORITY_VIOLATION (at_authority a)))
    (require (\<not> (at_issued_at a > now \<or> at_expires_at a < now)) (ContractError STALE_EVIDENCE (at_nonce a)))"

definition fake_issue ::
  "(string \<Rightarrow> string) \<Rightarrow> plan \<Rightarrow> string \<Rightarrow> process_identity \<Rightarrow> evidence_obligation \<Rightarrow> string \<Rightarrow> int \<Rightarrow>
   attestation option" where
  "fake_issue sha p launch_id process obligation nonce now =
     (case pl_plugins p of [] \<Rightarrow> None | plugin # _ \<Rightarrow> Some
       \<lparr>at_plan_id = plan_id sha p, at_launch_id = launch_id, at_process = process,
        at_obligation_id = ob_id obligation, at_event = ob_event obligation, at_nonce = nonce,
        at_issued_at = now, at_expires_at = now + 60, at_artifact_id = plugin_id sha plugin,
        at_authority = ''host-runtime'', at_issuer = [], at_kid = [], at_observed_at = 0,
        at_evidence_digest = [], at_artifact_digest = []\<rparr>)"

definition fake_services :: "(string \<Rightarrow> string) \<Rightarrow> fake_env services" where
  "fake_services sha = \<lparr>sv_prepare = fake_prepare sha, sv_launch = fake_launch, sv_rollback = fake_rollback,
     sv_verify = fake_verify, sv_signed_verifier = False, sv_hold_predecessor = fake_hold_predecessor,
     sv_activate = fake_activate sha, sv_restore = fake_restore, sv_lease_valid = (\<lambda>_. gets fk_lease_valid)\<rparr>"

subsection \<open>Plans from JSON\<close>

text \<open>\<open>Class(**item)\<close> for a class with these fields and these defaults.\<close>

definition json_kwargs :: "string list \<Rightarrow> (string \<times> json) list \<Rightarrow> json \<Rightarrow> py_exn + json" where
  "json_kwargs args defaults v = (case v of
     JObj kvs \<Rightarrow>
       if set (map fst kvs) \<subseteq> set args \<and> set args \<subseteq> set (map fst kvs) \<union> set (map fst defaults)
       then Inr (JObj (kvs @ filter (\<lambda>d. fst d \<notin> set (map fst kvs)) defaults))
       else Inl (TypeError ''unexpected or missing argument'')
   | _ \<Rightarrow> Inl (TypeError ''argument after ** must be a mapping''))"

definition json_items :: "json \<Rightarrow> py_exn + json list" where
  "json_items v = (case v of JArr vs \<Rightarrow> Inr vs | _ \<Rightarrow> Inl (TypeError ''not iterable''))"

definition json_bool :: "json \<Rightarrow> py_exn + bool" where
  "json_bool v = (case v of JBool b \<Rightarrow> Inr b | _ \<Rightarrow> Inl (TypeError ''bool expected''))"

definition json_str_opt :: "json \<Rightarrow> py_exn + string option" where
  "json_str_opt v = (case v of JNull \<Rightarrow> Inr None | JStr s \<Rightarrow> Inr (Some s) | _ \<Rightarrow> Inl (TypeError ''str expected''))"

definition json_obj :: "json \<Rightarrow> py_exn + (string \<times> json) list" where
  "json_obj v = (case v of JObj kvs \<Rightarrow> Inr kvs | _ \<Rightarrow> Inl (TypeError ''dict expected''))"

definition json_field :: "string \<Rightarrow> (json \<Rightarrow> py_exn + 'a) \<Rightarrow> json \<Rightarrow> py_exn + 'a" where
  "json_field k f v = ebind (json_item k v) f"

definition plugin_of_json :: "json \<Rightarrow> py_exn + plugin_identity" where
  "plugin_of_json item = ebind (json_kwargs [''namespace'', ''name'', ''version'', ''artifact_sha256''] [] item) (\<lambda>v.
     ebind (json_field ''namespace'' json_str v) (\<lambda>ns.
     ebind (json_field ''name'' json_str v) (\<lambda>n.
     ebind (json_field ''version'' json_str v) (\<lambda>ver.
     ebind (json_field ''artifact_sha256'' json_str v) (\<lambda>a.
     Inr \<lparr>pi_namespace = ns, pi_name = n, pi_version = ver, pi_artifact_sha256 = a\<rparr>)))))"

definition host_of_json :: "json \<Rightarrow> py_exn + host_compatibility" where
  "host_of_json item = ebind (json_kwargs [''runtime'', ''version'', ''provider'', ''abi''] [] item) (\<lambda>v.
     ebind (json_field ''runtime'' json_str v) (\<lambda>r.
     ebind (json_field ''version'' json_str v) (\<lambda>ver.
     ebind (json_field ''provider'' json_str v) (\<lambda>p.
     ebind (json_field ''abi'' json_str v) (\<lambda>a.
     Inr \<lparr>hc_runtime = r, hc_version = ver, hc_provider = p, hc_abi = a\<rparr>)))))"

definition claim_of_json :: "json \<Rightarrow> py_exn + resource_claim" where
  "claim_of_json item = ebind (json_kwargs [''uri'', ''owner'', ''mode''] [(''mode'', JStr ''exclusive'')] item) (\<lambda>v.
     ebind (json_field ''uri'' json_str v) (\<lambda>u.
     ebind (json_field ''owner'' json_str v) (\<lambda>ow.
     ebind (json_field ''mode'' json_str v) (\<lambda>md.
     Inr \<lparr>rc_uri = u, rc_owner = ow, rc_mode = md\<rparr>))))"

definition obligation_of_json :: "json \<Rightarrow> py_exn + evidence_obligation" where
  "obligation_of_json v =
     ebind (json_field ''obligation_id'' json_str v) (\<lambda>i.
     ebind (json_field ''role'' json_str v) (\<lambda>r.
     ebind (json_field ''event'' json_str v) (\<lambda>e.
     ebind (ebind (json_field ''required_ordinals'' json_items v) (emap json_int)) (\<lambda>ords.
     Inr \<lparr>ob_id = i, ob_role = r, ob_event = e, ob_required_ordinals = ords\<rparr>))))"

definition predecessor_of_json :: "json \<Rightarrow> py_exn + predecessor_snapshot" where
  "predecessor_of_json item = ebind (json_kwargs [''generation'', ''plan_id'', ''rendered_inputs''] [] item) (\<lambda>v.
     ebind (json_field ''generation'' json_int v) (\<lambda>g.
     ebind (json_field ''plan_id'' json_str_opt v) (\<lambda>p.
     ebind (json_field ''rendered_inputs'' json_obj v) (\<lambda>r.
     Inr \<lparr>ps_generation = g, ps_plan_id = p, ps_rendered_inputs = r\<rparr>))))"

definition plan_of_json :: "json \<Rightarrow> py_exn + plan" where
  "plan_of_json v =
     ebind (ebind (json_field ''plugins'' json_items v) (emap plugin_of_json)) (\<lambda>plugins.
     ebind (json_field ''host'' host_of_json v) (\<lambda>host.
     ebind (ebind (json_field ''claims'' json_items v) (emap claim_of_json)) (\<lambda>claims.
     ebind (ebind (json_field ''obligations'' json_items v) (emap obligation_of_json)) (\<lambda>obligations.
     ebind (json_field ''predecessor'' predecessor_of_json v) (\<lambda>predecessor.
     ebind (case v of JObj kvs \<Rightarrow> (case map_of kvs ''fallback_proven'' of None \<Rightarrow> Inr False | Some b \<Rightarrow> json_bool b)
            | _ \<Rightarrow> Inl (AttributeError ''get'')) (\<lambda>fallback.
     Inr \<lparr>pl_plugins = plugins, pl_host = host, pl_claims = claims, pl_obligations = obligations,
          pl_predecessor = predecessor, pl_fallback_proven = fallback\<rparr>))))))"

definition plan_from_json :: "string \<Rightarrow> py_exn + plan" where
  "plan_from_json raw = ebind (json_read raw) plan_of_json"

end
