(* ===== verification/Coordinator.thy ===== *)
theory Coordinator
  imports Coordinator_Store
begin

section \<open>The durable coordinator: its operations (\<^verbatim>\<open>durable_coordinator.py\<close>)\<close>

text \<open>
  The methods of \<open>ActivationCoordinator\<close> as computations over the record \<open>('h, 'e) coordinator\<close>.
  \<open>sha\<close> is SHA-256, \<open>S\<close> the services and \<open>A\<close> the traffic adapter of the exposure gate, which is
  used when \<open>co_gate\<close> is present.  Each write-ahead record is committed before the side effect and
  its receipt after it; the fault points in between raise \<open>RuntimeError\<close>.
\<close>

subsection \<open>State and helpers\<close>

record ('h, 'e) coordinator =
  co_db :: store_db
  co_env :: 'h
  co_gate :: "'e gate option"
  co_faults :: "string set"
  co_clock :: "nat \<Rightarrow> int"
  co_ticks :: nat
  co_manager_epoch :: int

type_synonym ('h, 'e, 'a) cm = "(py_exn, ('h, 'e) coordinator, 'a) py"

text \<open>\<open>ActivationCoordinator(store, ...)\<close> boots the store.\<close>

definition co_new ::
  "store_db \<Rightarrow> 'h \<Rightarrow> 'e gate option \<Rightarrow> string set \<Rightarrow> (nat \<Rightarrow> int) \<Rightarrow> ('h, 'e) coordinator" where
  "co_new store env g faults clock = (case store_boot store of (d, epoch) \<Rightarrow>
     \<lparr>co_db = d, co_env = env, co_gate = g, co_faults = faults, co_clock = clock, co_ticks = 0,
      co_manager_epoch = epoch\<rparr>)"

definition co_txn :: "('h, 'e, 'a) cm \<Rightarrow> ('h, 'e, 'a) cm" where
  "co_txn = atomically co_db (\<lambda>d c. c\<lparr>co_db := d\<rparr>)"

definition on_env :: "(py_exn, 'h, 'a) py \<Rightarrow> ('h, 'e, 'a) cm" where
  "on_env = zoom co_env (\<lambda>h c. c\<lparr>co_env := h\<rparr>)"

text \<open>A call of the exposure gate; the callers have checked that there is one.\<close>

definition on_gate :: "('e, 'a) gm \<Rightarrow> ('h, 'e, 'a) cm" where
  "on_gate m c = (case co_gate c of None \<Rightarrow> (Inl AssertionError, c)
     | Some g \<Rightarrow> (case m g of (r, h) \<Rightarrow> (r, c\<lparr>co_gate := Some h\<rparr>)))"

definition has_gate :: "('h, 'e, bool) cm" where
  "has_gate = gets (\<lambda>c. co_gate c \<noteq> None)"

definition fault_hit :: "string \<Rightarrow> ('h, 'e, unit) cm" where
  "fault_hit point = bind (gets co_faults) (\<lambda>points.
     if point \<in> points
     then andthen (modify (\<lambda>c. c\<lparr>co_faults := points - {point}\<rparr>))
       (raise (RuntimeError (''injected fault: '' @ point)))
     else ret ())"

definition co_now :: "('h, 'e, int) cm" where
  "co_now = bind (gets (\<lambda>c. co_clock c (co_ticks c))) (\<lambda>t.
     andthen (modify (\<lambda>c. c\<lparr>co_ticks := Suc (co_ticks c)\<rparr>)) (ret t))"

definition modify_db :: "(store_db \<Rightarrow> store_db) \<Rightarrow> ('h, 'e, unit) cm" where
  "modify_db f = modify (\<lambda>c. c\<lparr>co_db := f (co_db c)\<rparr>)"

definition activation_of :: "string \<Rightarrow> store_db \<Rightarrow> activation_row option" where
  "activation_of pid d = find (\<lambda>r. ac_plan_id r = pid) (st_activations d)"

definition co_row :: "string \<Rightarrow> ('h, 'e, activation_row) cm" where
  "co_row pid = bind (gets (\<lambda>c. activation_of pid (co_db c))) (\<lambda>r.
     case r of None \<Rightarrow> raise (ContractError UNKNOWN_RESOURCE pid) | Some row \<Rightarrow> ret row)"

definition db_journal :: "string \<Rightarrow> string \<Rightarrow> string \<Rightarrow> json \<Rightarrow> int \<Rightarrow> store_db \<Rightarrow> store_db" where
  "db_journal pid kind operation detail now d =
     d\<lparr>st_journal_seq := st_journal_seq d + 1,
       st_journal := st_journal d @ [\<lparr>jr_sequence = st_journal_seq d + 1, jr_plan_id = pid, jr_kind = kind,
         jr_operation = operation, jr_detail_json = canonical_bytes detail, jr_created_at = now\<rparr>]\<rparr>"

definition co_journal :: "string \<Rightarrow> string \<Rightarrow> string \<Rightarrow> json \<Rightarrow> ('h, 'e, unit) cm" where
  "co_journal pid kind operation detail =
     bind co_now (\<lambda>now. modify_db (db_journal pid kind operation detail now))"

definition update_activation :: "string \<Rightarrow> (activation_row \<Rightarrow> activation_row) \<Rightarrow> store_db \<Rightarrow> store_db" where
  "update_activation pid f d =
     d\<lparr>st_activations := map (\<lambda>r. if ac_plan_id r = pid then f r else r) (st_activations d)\<rparr>"

definition co_transition :: "string \<Rightarrow> state \<Rightarrow> ('h, 'e, unit) cm" where
  "co_transition pid target =
     bind (co_row pid) (\<lambda>row.
     let current = ac_state row in
     bind (case transitions current of None \<Rightarrow> raise (KeyError (state_value current)) | Some ts \<Rightarrow> ret ts) (\<lambda>ts.
     andthen (require (target \<in> ts)
       (ContractError INVALID_TRANSITION (state_value current @ '' -> '' @ state_value target)))
    (andthen (modify_db (update_activation pid (\<lambda>r. r\<lparr>ac_state := target\<rparr>)))
    (co_journal pid ''transition'' (state_value target) (JObj [(''from'', JStr (state_value current))])))))"

definition co_plan_of :: "string \<Rightarrow> ('h, 'e, plan) cm" where
  "co_plan_of pid = bind (co_row pid) (\<lambda>row. lift_result (plan_from_json (ac_plan_json row)))"

definition no_evidence_targets :: "plan \<Rightarrow> bool" where
  "no_evidence_targets p \<longleftrightarrow>
     pl_obligations p = [] \<or> list_ex (\<lambda>b. ob_required_ordinals b = []) (pl_obligations p)"

subsection \<open>Plan, prepare, launch\<close>

definition insert_activation :: "activation_row \<Rightarrow> ('h, 'e, unit) cm" where
  "insert_activation r = bind (gets (\<lambda>c. activation_of (ac_plan_id r) (co_db c))) (\<lambda>x.
     case x of
       Some _ \<Rightarrow> raise (IntegrityError ''UNIQUE constraint failed: activation.plan_id'')
     | None \<Rightarrow> modify_db (\<lambda>d. d\<lparr>st_activations := st_activations d @ [r]\<rparr>))"

definition delete_plan :: "string \<Rightarrow> store_db \<Rightarrow> store_db" where
  "delete_plan pid d =
     d\<lparr>st_journal := filter (\<lambda>r. jr_plan_id r \<noteq> pid) (st_journal d),
       st_activations := filter (\<lambda>r. ac_plan_id r \<noteq> pid) (st_activations d)\<rparr>"

definition co_plan :: "(string \<Rightarrow> string) \<Rightarrow> 'h services \<Rightarrow> 'e adapter \<Rightarrow> plan \<Rightarrow> ('h, 'e, string) cm" where
  "co_plan sha S A p =
     (let pid = plan_id sha p in
     andthen (require (\<not> no_evidence_targets p) (ContractError MISSING_PROCESS_EVIDENCE
       ''activation Plan requires non-empty evidence obligations and targets''))
    (andthen (co_txn
       (bind co_now (\<lambda>now.
        andthen (insert_activation \<lparr>ac_plan_id = pid, ac_plan_json = canonical_bytes (plan_dict p),
          ac_state = Planned, ac_launch_id = None,
          ac_predecessor_json = canonical_bytes (predecessor_dict (pl_predecessor p)), ac_created_at = now\<rparr>)
       (co_journal pid ''transition'' ''plan'' (JObj [(''state'', JStr ''Planned'')])))))
    (bind has_gate (\<lambda>gate.
     andthen (if gate
        then try_except
          (andthen (on_gate (gate_stage sha A (JStr pid) (predecessor_dict (pl_predecessor p)))) (ret ()))
          (\<lambda>exc. andthen (co_txn (modify_db (delete_plan pid))) (raise exc))
        else on_env (sv_hold_predecessor S (pl_predecessor p)))
    (ret pid)))))"

definition candidate_generation :: "plan \<Rightarrow> int" where
  "candidate_generation p = ps_generation (pl_predecessor p) + 1"

definition co_prepare :: "(string \<Rightarrow> string) \<Rightarrow> 'h services \<Rightarrow> 'e adapter \<Rightarrow> string \<Rightarrow> ('h, 'e, unit) cm" where
  "co_prepare sha S A pid =
     bind (co_plan_of pid) (\<lambda>p.
     andthen (co_txn (andthen (co_transition pid Preparing) (co_journal pid ''wal'' ''prepare'' (JObj []))))
    (andthen (fault_hit ''prepare.after_wal'')
    (bind (on_env (sv_prepare S p)) (\<lambda>receipt.
     andthen (fault_hit ''prepare.after_side_effect'')
    (andthen (co_txn (andthen (co_journal pid ''receipt'' ''prepare'' receipt) (co_transition pid Prepared)))
    (bind has_gate (\<lambda>gate.
     if gate then on_gate (gate_close sha A (candidate_generation p)) else ret ())))))))"

definition inventory_row_of :: "string \<Rightarrow> process_identity \<Rightarrow> inventory_row" where
  "inventory_row_of pid p = \<lparr>iv_plan_id = pid, iv_host = pr_host p, iv_role = pr_role p,
     iv_ordinal = pr_ordinal p, iv_start_id = pr_start_id p, iv_epoch = pr_epoch p\<rparr>"

text \<open>\<open>DELETE\<close> and \<open>executemany INSERT\<close>: the primary key is plan, role and ordinal.\<close>

definition replace_inventory :: "string \<Rightarrow> process_identity list \<Rightarrow> ('h, 'e, unit) cm" where
  "replace_inventory pid processes =
     andthen (modify_db (\<lambda>d. d\<lparr>st_inventory := filter (\<lambda>r. iv_plan_id r \<noteq> pid) (st_inventory d)\<rparr>))
    (andthen (require (distinct (map (\<lambda>p. (pr_role p, pr_ordinal p)) processes))
       (IntegrityError ''UNIQUE constraint failed: inventory.plan_id, inventory.role, inventory.ordinal''))
    (modify_db (\<lambda>d. d\<lparr>st_inventory := st_inventory d @ map (inventory_row_of pid) processes\<rparr>)))"

definition co_launch :: "'h services \<Rightarrow> string \<Rightarrow> string \<Rightarrow> ('h, 'e, unit) cm" where
  "co_launch S pid launch_id =
     bind (co_plan_of pid) (\<lambda>p.
     andthen (co_txn
       (andthen (co_transition pid Launching)
       (andthen (modify_db (update_activation pid (\<lambda>r. r\<lparr>ac_launch_id := Some launch_id\<rparr>)))
       (co_journal pid ''wal'' ''launch'' (JObj [(''launch_id'', JStr launch_id)])))))
    (andthen (fault_hit ''launch.after_wal'')
    (bind (on_env (sv_launch S p launch_id)) (\<lambda>inventory.
     andthen (fault_hit ''launch.after_side_effect'')
    (co_txn
       (andthen (replace_inventory pid inventory)
       (andthen (co_journal pid ''receipt'' ''launch'' (JObj [(''count'', JInt (int (length inventory)))]))
       (co_transition pid Observing))))))))"

subsection \<open>Evidence\<close>

definition evidence_row_of :: "string \<Rightarrow> int \<Rightarrow> attestation \<Rightarrow> evidence_row" where
  "evidence_row_of pid epoch a = \<lparr>ev_nonce = at_nonce a, ev_plan_id = pid, ev_launch_id = at_launch_id a,
     ev_process_key = process_key (at_process a), ev_role = pr_role (at_process a),
     ev_ordinal = pr_ordinal (at_process a), ev_epoch = pr_epoch (at_process a),
     ev_obligation_id = at_obligation_id a, ev_event = at_event a, ev_issued_at = at_issued_at a,
     ev_expires_at = at_expires_at a, ev_artifact_id = at_artifact_id a, ev_authority = at_authority a,
     ev_manager_epoch = epoch, ev_valid = True, ev_issuer = at_issuer a, ev_kid = at_kid a,
     ev_observed_at = at_observed_at a, ev_evidence_digest = at_evidence_digest a,
     ev_artifact_digest = at_artifact_digest a\<rparr>"

text \<open>The attestation names a process of the inventory, with its start and epoch.\<close>

definition inventory_matches :: "string \<Rightarrow> attestation \<Rightarrow> store_db \<Rightarrow> bool" where
  "inventory_matches pid a d \<longleftrightarrow>
     (case find (\<lambda>r. iv_plan_id r = pid \<and> iv_role r = pr_role (at_process a) \<and>
          iv_ordinal r = pr_ordinal (at_process a)) (st_inventory d) of
        None \<Rightarrow> False
      | Some r \<Rightarrow> iv_start_id r = pr_start_id (at_process a) \<and> iv_epoch r = pr_epoch (at_process a))"

definition observing_states :: "state set" where
  "observing_states = {Observing, Reconcile}"

definition co_observe ::
  "(string \<Rightarrow> string) \<Rightarrow> 'h services \<Rightarrow> string \<Rightarrow> attestation \<Rightarrow> int option \<Rightarrow> ('h, 'e, unit) cm" where
  "co_observe sha S pid item now =
     bind (co_row pid) (\<lambda>row.
     andthen (require (ac_state row \<in> observing_states)
       (ContractError INVALID_TRANSITION (''observe from '' @ state_value (ac_state row))))
    (bind (lift_result (plan_from_json (ac_plan_json row))) (\<lambda>p.
     bind (case now of None \<Rightarrow> co_now | Some t \<Rightarrow> ret t) (\<lambda>observed_at.
     andthen (on_env (sv_verify S item observed_at p))
    (bind (gets (\<lambda>c. inventory_matches pid item (co_db c))) (\<lambda>known.
     andthen (require (\<not> (at_plan_id item \<noteq> pid \<or> Some (at_launch_id item) \<noteq> ac_launch_id row
          \<or> at_artifact_id item \<notin> set (map (plugin_id sha) (pl_plugins p)) \<or> \<not> known))
       (ContractError STALE_EVIDENCE (at_nonce item)))
    (bind (gets (\<lambda>c. at_nonce item \<in> set (map ev_nonce (st_evidence (co_db c))))) (\<lambda>replayed.
     andthen (require (\<not> replayed) (ContractError REPLAYED_NONCE (at_nonce item)))
    (bind (gets co_manager_epoch) (\<lambda>epoch.
     co_txn
       (andthen (modify_db (\<lambda>d. d\<lparr>st_evidence := st_evidence d @ [evidence_row_of pid epoch item]\<rparr>))
       (co_journal pid ''evidence'' (at_event item) (attestation_dict item)))))))))))))"

definition co_refresh_inventory :: "string \<Rightarrow> process_identity list \<Rightarrow> ('h, 'e, unit) cm" where
  "co_refresh_inventory pid processes =
     bind (co_row pid) (\<lambda>row.
     andthen (require (ac_state row \<in> observing_states)
       (ContractError INVALID_TRANSITION (''refresh inventory from '' @ state_value (ac_state row))))
    (co_txn
      (andthen (replace_inventory pid processes)
      (andthen (modify_db (\<lambda>d. d\<lparr>st_evidence :=
         map (\<lambda>r. if ev_plan_id r = pid then r\<lparr>ev_valid := False\<rparr> else r) (st_evidence d)\<rparr>))
      (co_journal pid ''inventory'' ''refresh''
         (JObj [(''processes'', JArr (map process_dict processes))]))))))"

text \<open>The rows of \<open>evidence\<close> that count: this plan, valid, of this manager epoch.\<close>

definition live_evidence :: "string \<Rightarrow> int \<Rightarrow> store_db \<Rightarrow> evidence_row list" where
  "live_evidence pid epoch d =
     filter (\<lambda>r. ev_plan_id r = pid \<and> ev_valid r \<and> ev_manager_epoch r = epoch) (st_evidence d)"

definition process_epochs :: "string \<Rightarrow> store_db \<Rightarrow> ((string \<times> int) \<times> int) list" where
  "process_epochs pid d =
     map (\<lambda>r. ((iv_role r, iv_ordinal r), iv_epoch r)) (filter (\<lambda>r. iv_plan_id r = pid) (st_inventory d))"

definition store_evidence_complete :: "(string \<Rightarrow> string) \<Rightarrow> plan \<Rightarrow> int \<Rightarrow> int \<Rightarrow> store_db \<Rightarrow> bool" where
  "store_evidence_complete sha p now epoch d \<longleftrightarrow>
     \<not> no_evidence_targets p \<and>
     (let pid = plan_id sha p;
          by_process = map_of (rev (process_epochs pid d));
          observed = map (\<lambda>r. (ev_role r, ev_ordinal r, ev_epoch r, ev_obligation_id r, ev_event r))
            (filter (\<lambda>r. now \<le> ev_expires_at r) (live_evidence pid epoch d)) in
      list_all (\<lambda>b. list_all (\<lambda>ordinal.
        (case by_process (ob_role b, ordinal) of
           None \<Rightarrow> False
         | Some e \<Rightarrow> (ob_role b, ordinal, e, ob_id b, ob_event b) \<in> set observed))
        (ob_required_ordinals b)) (pl_obligations p))"

definition canonical_digest :: "(string \<Rightarrow> string) \<Rightarrow> json \<Rightarrow> string" where
  "canonical_digest sha v = ''sha256:'' @ sha (canonical_bytes v)"

definition evidence_item :: "evidence_row \<Rightarrow> json" where
  "evidence_item r = JObj [(''nonce'', JStr (ev_nonce r)), (''evidence_digest'', JStr (ev_evidence_digest r)),
     (''process_key'', JStr (ev_process_key r)), (''obligation_id'', JStr (ev_obligation_id r)),
     (''event'', JStr (ev_event r))]"

definition co_open_proof ::
  "(string \<Rightarrow> string) \<Rightarrow> 'e adapter \<Rightarrow> plan \<Rightarrow> int \<Rightarrow> ('h, 'e, open_proof) cm" where
  "co_open_proof sha A p generation =
     bind (gets (\<lambda>c. sort_key ev_nonce (live_evidence (plan_id sha p) (co_manager_epoch c) (co_db c)))) (\<lambda>rows.
     bind (on_gate (gate_authority A)) (\<lambda>lease.
     bind (on_gate gate_get_row) (\<lambda>row.
     ret \<lparr>op_plan_id = plan_id sha p, op_generation = generation, op_evidence_count = int (length rows),
          op_evidence_digest = canonical_digest sha (JArr (map evidence_item rows)),
          op_coverage_digest = canonical_digest sha (JArr (map obligation_dict (pl_obligations p))),
          op_lease = lease, op_candidate_digest = gs_candidate_digest row\<rparr>)))"

subsection \<open>Rollback\<close>

definition db_outcome :: "string \<Rightarrow> bool \<Rightarrow> json \<Rightarrow> int \<Rightarrow> store_db \<Rightarrow> store_db" where
  "db_outcome pid success detail now d =
     d\<lparr>st_outcomes := st_outcomes d @ [\<lparr>ro_sequence = int (length (st_outcomes d)) + 1, ro_plan_id = pid,
        ro_success = success, ro_detail_json = canonical_bytes detail, ro_created_at = now\<rparr>]\<rparr>"

definition co_outcome :: "string \<Rightarrow> bool \<Rightarrow> json \<Rightarrow> ('h, 'e, unit) cm" where
  "co_outcome pid success detail = bind co_now (\<lambda>now. modify_db (db_outcome pid success detail now))"

text \<open>The gate's part: roll the traffic back, else fail close; a failure of that is unknown safety.\<close>

definition gate_rollback_part ::
  "'e adapter \<Rightarrow> int \<Rightarrow> string option \<Rightarrow> ('h, 'e, rollback_class \<times> string option) cm" where
  "gate_rollback_part A generation host_error =
     try_except
       (if host_error = None
        then bind (on_gate (gate_rollback A generation None)) (\<lambda>outcome. ret (outcome, None))
        else bind (on_gate (gate_fail_close A generation ''host rollback failed'')) (\<lambda>r.
          ret (fc_classification r, None)))
       (\<lambda>exc. try_except
          (bind (on_gate (gate_fail_close A generation ''traffic rollback failed'')) (\<lambda>r.
             ret (fc_classification r, Some (exn_str exc))))
          (\<lambda>close_exc. ret (RC_SAFETY_UNKNOWN,
             Some (exn_str exc @ ''; fail-close: '' @ exn_str close_exc))))"

definition rollback_state :: "rollback_class \<Rightarrow> string option \<Rightarrow> state" where
  "rollback_state outcome host_error =
     (if outcome = RC_SAFETY_UNKNOWN then SafetyUnknown
      else if host_error \<noteq> None \<or> outcome = RC_FAILED_SAFE then FailedSafe else RolledBack)"

definition co_rollback :: "'h services \<Rightarrow> 'e adapter \<Rightarrow> string \<Rightarrow> string \<Rightarrow> ('h, 'e, state) cm" where
  "co_rollback S A pid reason =
     bind (co_plan_of pid) (\<lambda>p.
     andthen (co_txn (andthen (co_transition pid Rollback)
       (co_journal pid ''wal'' ''rollback'' (JObj [(''reason'', JStr reason)]))))
    (bind (try_except (bind (on_env (sv_rollback S (pl_predecessor p))) (\<lambda>o1. ret (o1, None)))
       (\<lambda>exc. ret (JNull, Some (exn_str exc)))) (\<lambda>(host_outcome, host_error).
     andthen (co_txn (co_journal pid ''receipt'' ''rollback.host''
       (JObj [(''outcome'', host_outcome), (''error'', jopt host_error)])))
    (bind has_gate (\<lambda>gate.
     if gate then
       bind (gate_rollback_part A (candidate_generation p) host_error) (\<lambda>(gate_outcome, gate_error).
       andthen (fault_hit ''rollback.after_traffic_side_effect'')
      (andthen (co_txn (co_journal pid ''receipt'' ''rollback.traffic''
         (JObj [(''outcome'', JStr (rollback_class_value gate_outcome)), (''error'', jopt gate_error)])))
      (let target = rollback_state gate_outcome host_error in
       andthen (co_txn
         (andthen (co_outcome pid (target = RolledBack)
            (JObj [(''host_outcome'', host_outcome), (''host_error'', jopt host_error),
               (''traffic_outcome'', JStr (rollback_class_value gate_outcome)), (''traffic_error'', jopt gate_error)]))
          (co_transition pid target)))
      (ret target))))
     else
       bind (try_except
         (andthen (case host_error of None \<Rightarrow> ret () | Some e \<Rightarrow> raise (RuntimeError e))
         (andthen (require (host_outcome \<noteq> JNull) AssertionError)
         (andthen (on_env (sv_restore S (pl_predecessor p)))
         (ret None))))
         (\<lambda>exc. ret (Some (exn_str exc)))) (\<lambda>failure.
       case failure of
         Some e \<Rightarrow>
           andthen (co_txn (andthen (co_outcome pid False (JObj [(''error'', JStr e)]))
             (co_transition pid FailedSafe)))
          (raise (ContractError ROLLBACK_FAILED e))
       | None \<Rightarrow>
           andthen (co_txn (andthen (co_outcome pid True host_outcome)
             (andthen (co_journal pid ''receipt'' ''rollback'' host_outcome)
             (co_transition pid RolledBack))))
          (ret RolledBack)))))))"

definition co_external_lease_lost :: "'h services \<Rightarrow> 'e adapter \<Rightarrow> string \<Rightarrow> ('h, 'e, state) cm" where
  "co_external_lease_lost S A pid =
     bind (co_plan_of pid) (\<lambda>p.
     andthen (co_txn (co_transition pid Degraded))
    (if pl_fallback_proven p
     then andthen (co_txn (co_transition pid Reconcile)) (ret Reconcile)
     else co_rollback S A pid ''external lease invalid''))"

subsection \<open>Commit\<close>

text \<open>The write-ahead transaction: state, journal and the conditional update of the generation.\<close>

definition commit_wal :: "string \<Rightarrow> plan \<Rightarrow> int \<Rightarrow> ('h, 'e, unit) cm" where
  "commit_wal pid p expected_generation =
     co_txn
      (andthen (co_transition pid CommitReady)
      (andthen (co_journal pid ''wal'' ''commit'' (JObj [(''from'', JInt expected_generation)]))
      (bind (gets (\<lambda>c. st_generation (co_db c) = expected_generation)) (\<lambda>changed.
       andthen (if changed then modify_db (\<lambda>d. d\<lparr>st_generation := st_generation d + 1\<rparr>) else ret ())
      (require (\<not> (\<not> changed \<or> ps_generation (pl_predecessor p) \<noteq> expected_generation))
         (ContractError CAS_MISMATCH (int_str expected_generation)))))))"

definition co_commit ::
  "(string \<Rightarrow> string) \<Rightarrow> 'h services \<Rightarrow> 'e adapter \<Rightarrow> string \<Rightarrow> int \<Rightarrow> ('h, 'e, int) cm" where
  "co_commit sha S A pid expected_generation =
     bind (co_plan_of pid) (\<lambda>p.
     bind (on_env (sv_lease_valid S p)) (\<lambda>held.
     if \<not> held then
       andthen (co_external_lease_lost S A pid) (raise (ContractError EXTERNAL_LEASE_INVALID pid))
     else
       bind co_now (\<lambda>now.
       bind (gets (\<lambda>c. store_evidence_complete sha p now (co_manager_epoch c) (co_db c))) (\<lambda>complete.
       andthen (require complete (ContractError MISSING_PROCESS_EVIDENCE pid))
      (andthen (commit_wal pid p expected_generation)
      (andthen (fault_hit ''commit.after_wal'')
      (bind has_gate (\<lambda>gate.
       andthen (if gate then
           andthen (require (sv_signed_verifier S) (ContractError MISSING_PROCESS_EVIDENCE
             ''ExposureGate requires signed receipt verification''))
          (bind (co_open_proof sha A p (expected_generation + 1)) (\<lambda>pr.
           andthen (on_gate (gate_open sha A (expected_generation + 1) pr)) (ret ())))
         else on_env (sv_activate S p))
      (andthen (fault_hit ''commit.after_side_effect'')
      (co_txn
        (bind (gets (\<lambda>c. st_generation (co_db c))) (\<lambda>generation.
         andthen (co_journal pid ''receipt'' ''commit'' (JObj [(''generation'', JInt generation)]))
        (andthen (co_transition pid Effective)
        (ret generation))))))))))))))"

subsection \<open>Recovery\<close>

definition fail_close_state :: "'e adapter \<Rightarrow> int \<Rightarrow> string \<Rightarrow> ('h, 'e, gate_state) cm" where
  "fail_close_state A generation reason =
     bind (on_gate (gate_fail_close A generation reason)) (\<lambda>r.
     case fc_classification r of
       RC_FAILED_SAFE \<Rightarrow> ret FAILED_SAFE
     | RC_SAFETY_UNKNOWN \<Rightarrow> ret SAFETY_UNKNOWN
     | other \<Rightarrow> raise (KeyError (rollback_class_value other)))"

definition last_journal :: "string \<Rightarrow> string \<Rightarrow> store_db \<Rightarrow> journal_row option" where
  "last_journal pid operation d =
     find (\<lambda>r. jr_plan_id r = pid \<and> jr_operation r = operation) (rev (st_journal d))"

text \<open>The target of a recovery in \<open>Rollback\<close> from what the host and the gate report.\<close>

definition recovered_target :: "'e adapter \<Rightarrow> int \<Rightarrow> gate_state \<Rightarrow> json \<Rightarrow> ('h, 'e, state) cm" where
  "recovered_target A generation gate_state host_detail =
     (if gate_state = SAFETY_UNKNOWN then ret SafetyUnknown
      else
        bind (if gate_state = FAILED_SAFE then ret True
              else bind (lift_result (json_get ''error'' host_detail)) (\<lambda>error.
                   if error \<noteq> JNull then ret True
                   else bind (lift_result (json_get ''outcome'' host_detail)) (\<lambda>outcome. ret (outcome = JNull)))) (\<lambda>failed.
        if failed then ret FailedSafe
        else if gate_state = ROLLED_BACK then ret RolledBack
        else
          bind (on_gate (gate_fail_close A generation
             (''unexpected gate recovery state '' @ gate_state_value gate_state))) (\<lambda>outcome.
          ret (if fc_classification outcome = RC_FAILED_SAFE then FailedSafe else SafetyUnknown))))"

definition recover_rollback :: "(string \<Rightarrow> string) \<Rightarrow> 'e adapter \<Rightarrow> string \<Rightarrow> plan \<Rightarrow> ('h, 'e, state) cm" where
  "recover_rollback sha A pid p =
     bind (gets (\<lambda>c. last_journal pid ''rollback.host'' (co_db c))) (\<lambda>host_receipt.
     bind (on_gate (gate_reconcile sha A)) (\<lambda>reconciled.
     bind (case host_receipt of
         None \<Rightarrow> bind (fail_close_state A (candidate_generation p)
             ''host rollback outcome missing during recovery'') (\<lambda>gs.
           ret (gs, JObj [(''outcome'', JNull), (''error'', JStr ''missing host receipt'')]))
       | Some r \<Rightarrow> bind (lift_result (json_read (jr_detail_json r))) (\<lambda>detail. ret (reconciled, detail)))
      (\<lambda>(gs, host_detail).
     bind (recovered_target A (candidate_generation p) gs host_detail) (\<lambda>target.
     let detail = JObj [(''recovered'', JBool True), (''host'', host_detail),
           (''gate_state'', JStr (gate_state_value gs))] in
     andthen (co_txn
       (andthen (co_outcome pid (target = RolledBack) detail)
       (andthen (co_journal pid ''receipt'' ''rollback.recover'' detail)
       (co_transition pid target))))
    (ret target)))))"

definition recover_to_reconcile :: "string \<Rightarrow> string \<Rightarrow> json \<Rightarrow> ('h, 'e, unit) cm" where
  "recover_to_reconcile pid operation detail =
     co_txn (andthen (co_transition pid Reconcile) (co_journal pid ''recovery'' operation detail))"

definition co_state_of :: "string \<Rightarrow> ('h, 'e, state) cm" where
  "co_state_of pid = bind (co_row pid) (\<lambda>row. ret (ac_state row))"

definition recover_commit_ready :: "(string \<Rightarrow> string) \<Rightarrow> 'e adapter \<Rightarrow> string \<Rightarrow> plan \<Rightarrow> ('h, 'e, state) cm" where
  "recover_commit_ready sha A pid p =
     bind (on_gate (gate_reconcile sha A)) (\<lambda>gs.
     if gs = CANDIDATE_OPEN then
       andthen (co_txn (andthen (co_journal pid ''receipt'' ''commit.reconcile'' (JObj [(''queried'', JBool True)]))
         (co_transition pid Effective)))
      (ret Effective)
     else
       andthen (if gs = CANDIDATE_CLOSED
          then andthen (on_gate (gate_rollback A (candidate_generation p) None)) (ret ()) else ret ())
      (andthen (recover_to_reconcile pid ''gate-not-open'' (JObj [(''gate_state'', JStr (gate_state_value gs))]))
      (co_state_of pid)))"

definition co_recover :: "(string \<Rightarrow> string) \<Rightarrow> 'h services \<Rightarrow> 'e adapter \<Rightarrow> string \<Rightarrow> ('h, 'e, state) cm" where
  "co_recover sha S A pid =
     bind (co_row pid) (\<lambda>row.
     bind (lift_result (plan_from_json (ac_plan_json row))) (\<lambda>p.
     bind has_gate (\<lambda>gate.
     let state = ac_state row in
     if state = Rollback then
       if \<not> gate then andthen (co_txn (co_transition pid FailedSafe)) (ret FailedSafe)
       else recover_rollback sha A pid p
     else if state = CommitReady \<and> gate then recover_commit_ready sha A pid p
     else if state \<in> {Preparing, Launching, Observing} \<and> gate then
       andthen (on_gate (gate_rollback A (candidate_generation p) None))
      (andthen (recover_to_reconcile pid ''pre-open-rollback'' (JObj [(''state'', JStr (state_value state))]))
      (co_state_of pid))
     else if state \<in> {Preparing, Launching, CommitReady} then
       andthen (on_env (sv_restore S (pl_predecessor p)))
      (andthen (recover_to_reconcile pid ''reobserve'' (JObj []))
      (co_state_of pid))
     else if state = Observing then
       andthen (on_env (sv_restore S (pl_predecessor p)))
      (andthen (co_txn (co_transition pid Reconcile))
      (co_state_of pid))
     else co_state_of pid)))"

definition co_resume_observing :: "string \<Rightarrow> ('h, 'e, unit) cm" where
  "co_resume_observing pid = co_txn (co_transition pid Observing)"

definition co_status :: "string \<Rightarrow> ('h, 'e, json) cm" where
  "co_status pid =
     bind (co_row pid) (\<lambda>row.
     bind (gets (\<lambda>c. st_generation (co_db c))) (\<lambda>generation.
     bind (gets co_manager_epoch) (\<lambda>epoch.
     ret (JObj [(''plan_id'', JStr pid), (''state'', JStr (state_value (ac_state row))),
       (''launch_id'', jopt (ac_launch_id row)), (''generation'', JInt generation),
       (''manager_epoch'', JInt epoch)]))))"

end
