(* ===== verification/Coordinator_Invariant.thy ===== *)
theory Coordinator_Invariant
  imports Coordinator
begin

section \<open>The durable coordinator: what its store always satisfies\<close>

text \<open>
  The invariant \<open>store_inv\<close> of the coordinator's database and its consequences: the journal replays
  to the state of every activation, plans and nonces are unique, and the generation advances by
  exactly one per committed plan.  \<open>cwp\<close> is the weakest precondition over the database alone, so
  that everything holds for any services, any gate, any clock and any faults.
\<close>

subsection \<open>The calculus\<close>

abbreviation cwp ::
  "('h, 'e, 'a) cm \<Rightarrow> ('a \<Rightarrow> store_db \<Rightarrow> bool) \<Rightarrow> (py_exn \<Rightarrow> store_db \<Rightarrow> bool) \<Rightarrow> store_db \<Rightarrow> bool" where
  "cwp \<equiv> pwp co_db"

named_theorems cwp_rules

declare pwp_rules [cwp_rules]

lemma cwp_txn [cwp_rules]: "cwp m Q (\<lambda>e _. E e d) d \<Longrightarrow> cwp (co_txn m) Q E d"
  unfolding co_txn_def by (rule pwp_atomically) simp_all

lemma cwp_on_env [cwp_rules]: "(\<And>x. Q x d) \<Longrightarrow> (\<And>e. E e d) \<Longrightarrow> cwp (on_env m) Q E d"
  unfolding on_env_def by (rule pwp_zoom) simp_all

lemma cwp_on_gate [cwp_rules]: "(\<And>x. Q x d) \<Longrightarrow> (\<And>e. E e d) \<Longrightarrow> cwp (on_gate m) Q E d"
  by (auto simp: pwp_def on_gate_def split: option.splits prod.splits sum.splits)

lemma cwp_has_gate [cwp_rules]: "(\<And>b. Q b d) \<Longrightarrow> cwp has_gate Q E d"
  unfolding has_gate_def by (rule pwp_gets)

lemma cwp_fault_hit [cwp_rules]: "Q () d \<Longrightarrow> (\<And>e. E e d) \<Longrightarrow> cwp (fault_hit p) Q E d"
  by (simp add: pwp_def fault_hit_def py_defs)

lemma cwp_now [cwp_rules]: "(\<And>t. Q t d) \<Longrightarrow> cwp co_now Q E d"
  by (simp add: pwp_def co_now_def py_defs)

lemma cwp_modify_db: "Q () (f d) \<Longrightarrow> cwp (modify_db f) Q E d"
  by (simp add: pwp_def modify_db_def py_defs)

lemma cwp_gets_db [cwp_rules]: "Q (f d) d \<Longrightarrow> cwp (gets (\<lambda>c. f (co_db c))) Q E d"
  by (simp add: pwp_def py_defs)

lemma cwp_gets: "(\<And>x. Q x d) \<Longrightarrow> cwp (gets f) Q E d"
  by (rule pwp_gets)

lemma cwp_row [cwp_rules]:
  "(\<And>row. activation_of pid d = Some row \<Longrightarrow> Q row d) \<Longrightarrow> (\<And>e. E e d) \<Longrightarrow> cwp (co_row pid) Q E d"
  unfolding co_row_def by (intro cwp_rules) auto

lemma cwp_plan_of [cwp_rules]:
  "(\<And>row p. activation_of pid d = Some row \<Longrightarrow> plan_from_json (ac_plan_json row) = Inr p \<Longrightarrow> Q p d) \<Longrightarrow>
   (\<And>e. E e d) \<Longrightarrow> cwp (co_plan_of pid) Q E d"
  unfolding co_plan_of_def by (intro cwp_rules) auto

lemma cwp_journal:
  "(\<And>now. Q () (db_journal pid kind operation detail now d)) \<Longrightarrow> cwp (co_journal pid kind operation detail) Q E d"
  unfolding co_journal_def by (intro cwp_rules cwp_modify_db)

lemma cwp_outcome:
  "(\<And>now. Q () (db_outcome pid success detail now d)) \<Longrightarrow> cwp (co_outcome pid success detail) Q E d"
  unfolding co_outcome_def by (intro cwp_rules cwp_modify_db)

lemma cwp_transition:
  "(\<And>row ts now. activation_of pid d = Some row \<Longrightarrow> transitions (ac_state row) = Some ts \<Longrightarrow> target \<in> ts \<Longrightarrow>
     Q () (db_journal pid ''transition'' (state_value target) (JObj [(''from'', JStr (state_value (ac_state row)))])
       now (update_activation pid (\<lambda>r. r\<lparr>ac_state := target\<rparr>) d))) \<Longrightarrow>
   (\<And>e. E e d) \<Longrightarrow> cwp (co_transition pid target) Q E d"
  unfolding co_transition_def Let_def
  by (intro cwp_rules cwp_journal cwp_modify_db) auto

subsection \<open>The invariant\<close>

text \<open>The replay of the journal of one plan: the state after its transition rows.\<close>

definition transition_rows :: "string \<Rightarrow> journal_row list \<Rightarrow> journal_row list" where
  "transition_rows pid js = filter (\<lambda>r. jr_plan_id r = pid \<and> jr_kind r = ''transition'') js"

definition journal_step :: "state option \<Rightarrow> journal_row \<Rightarrow> state \<Rightarrow> bool" where
  "journal_step s r t \<longleftrightarrow> (case s of
     None \<Rightarrow> jr_operation r = ''plan'' \<and> t = Planned
   | Some a \<Rightarrow> jr_operation r = state_value t \<and> (\<exists>ts. transitions a = Some ts \<and> t \<in> ts) \<and>
       jr_detail_json r = canonical_bytes (JObj [(''from'', JStr (state_value a))]))"

inductive journal_path :: "journal_row list \<Rightarrow> state option \<Rightarrow> bool" where
  empty: "journal_path [] None"
| step: "journal_path rs s \<Longrightarrow> journal_step s r t \<Longrightarrow> journal_path (rs @ [r]) (Some t)"

text \<open>The commit records, in order.\<close>

definition commit_rows :: "journal_row list \<Rightarrow> journal_row list" where
  "commit_rows js = filter (\<lambda>r. jr_kind r = ''wal'' \<and> jr_operation r = ''commit'') js"

definition activation_ok :: "(string \<Rightarrow> string) \<Rightarrow> journal_row list \<Rightarrow> activation_row \<Rightarrow> bool" where
  "activation_ok sha js r \<longleftrightarrow>
     (\<exists>p. json_wf (plan_dict p) \<and> \<not> no_evidence_targets p \<and> ac_plan_id r = plan_id sha p \<and>
        ac_plan_json r = canonical_bytes (plan_dict p)) \<and>
     journal_path (transition_rows (ac_plan_id r) js) (Some (ac_state r))"

text \<open>The \<open>i\<close>-th commit record is of an activation whose predecessor has generation \<open>i\<close>.\<close>

definition commit_row_ok :: "activation_row list \<Rightarrow> journal_row \<Rightarrow> nat \<Rightarrow> bool" where
  "commit_row_ok acs r i \<longleftrightarrow> jr_detail_json r = canonical_bytes (JObj [(''from'', JInt (int i))]) \<and>
     (\<exists>a p. a \<in> set acs \<and> ac_plan_id a = jr_plan_id r \<and> plan_from_json (ac_plan_json a) = Inr p \<and>
        ps_generation (pl_predecessor p) = int i)"

definition store_inv :: "(string \<Rightarrow> string) \<Rightarrow> store_db \<Rightarrow> bool" where
  "store_inv sha d \<longleftrightarrow>
     distinct (map ac_plan_id (st_activations d))
     \<and> (\<forall>r \<in> set (st_activations d). activation_ok sha (st_journal d) r)
     \<and> (\<forall>j \<in> set (st_journal d). jr_plan_id j \<in> ac_plan_id ` set (st_activations d) \<and> jr_sequence j \<le> st_journal_seq d)
     \<and> sorted_wrt (<) (map jr_sequence (st_journal d))
     \<and> distinct (map ev_nonce (st_evidence d))
     \<and> st_generation d = int (length (commit_rows (st_journal d)))
     \<and> (\<forall>i < length (commit_rows (st_journal d)).
          commit_row_ok (st_activations d) (commit_rows (st_journal d) ! i) i)"

text \<open>The store only grows: journal, outcomes and nonces at the end, activations keep their plan.\<close>

definition activation_key :: "activation_row \<Rightarrow> string \<times> string \<times> string \<times> int" where
  "activation_key r = (ac_plan_id r, ac_plan_json r, ac_predecessor_json r, ac_created_at r)"

definition store_extends :: "store_db \<Rightarrow> store_db \<Rightarrow> bool" where
  "store_extends d d' \<longleftrightarrow>
     prefix (map activation_key (st_activations d)) (map activation_key (st_activations d'))
     \<and> prefix (st_journal d) (st_journal d') \<and> prefix (st_outcomes d) (st_outcomes d')
     \<and> prefix (map ev_nonce (st_evidence d)) (map ev_nonce (st_evidence d'))
     \<and> st_generation d \<le> st_generation d'"

definition store_ok :: "(string \<Rightarrow> string) \<Rightarrow> store_db \<Rightarrow> store_db \<Rightarrow> bool" where
  "store_ok sha d0 d \<longleftrightarrow> store_inv sha d \<and> store_extends d0 d"

definition known :: "string \<Rightarrow> store_db \<Rightarrow> bool" where
  "known pid d \<longleftrightarrow> pid \<in> ac_plan_id ` set (st_activations d)"

lemma store_extends_refl [simp]: "store_extends d d"
  by (simp add: store_extends_def)

lemma store_extends_trans: "store_extends a b \<Longrightarrow> store_extends b c \<Longrightarrow> store_extends a c"
  by (auto simp: store_extends_def intro: prefix_order.trans)

lemma store_ok_refl: "store_inv sha d \<Longrightarrow> store_ok sha d d"
  by (simp add: store_ok_def)

lemma store_ok_step: "store_ok sha d0 d \<Longrightarrow> store_inv sha d' \<Longrightarrow> store_extends d d' \<Longrightarrow> store_ok sha d0 d'"
  by (auto simp: store_ok_def intro: store_extends_trans)

lemma activation_of_known: "activation_of pid d = Some row \<Longrightarrow> known pid d"
  by (auto simp: activation_of_def known_def find_Some_iff)

lemma activation_of_Some: "activation_of pid d = Some row \<Longrightarrow> row \<in> set (st_activations d) \<and> ac_plan_id row = pid"
  by (auto simp: activation_of_def find_Some_iff)

lemma activation_of_None: "activation_of pid d = None \<longleftrightarrow> \<not> known pid d"
  by (auto simp: activation_of_def known_def find_None_iff)

lemma db_journal_sel [simp]:
  "st_activations (db_journal pid kind operation detail now d) = st_activations d"
  "st_evidence (db_journal pid kind operation detail now d) = st_evidence d"
  "st_outcomes (db_journal pid kind operation detail now d) = st_outcomes d"
  "st_inventory (db_journal pid kind operation detail now d) = st_inventory d"
  "st_generation (db_journal pid kind operation detail now d) = st_generation d"
  "st_journal (db_journal pid kind operation detail now d) = st_journal d @
     [\<lparr>jr_sequence = st_journal_seq d + 1, jr_plan_id = pid, jr_kind = kind,
       jr_operation = operation, jr_detail_json = canonical_bytes detail, jr_created_at = now\<rparr>]"
  "st_journal_seq (db_journal pid kind operation detail now d) = st_journal_seq d + 1"
  "known q (db_journal pid kind operation detail now d) = known q d"
  by (simp_all add: db_journal_def known_def)

lemma update_activation_sel [simp]:
  "st_journal (update_activation pid f d) = st_journal d"
  "st_journal_seq (update_activation pid f d) = st_journal_seq d"
  "st_evidence (update_activation pid f d) = st_evidence d"
  "st_outcomes (update_activation pid f d) = st_outcomes d"
  "st_generation (update_activation pid f d) = st_generation d"
  "st_activations (update_activation pid f d) =
     map (\<lambda>r. if ac_plan_id r = pid then f r else r) (st_activations d)"
  by (simp_all add: update_activation_def)

lemma known_generation: "known q (d\<lparr>st_generation := n\<rparr>) = known q d"
  by (simp add: known_def)

lemma ids_update:
  "(\<And>r. ac_plan_id (f r) = ac_plan_id r) \<Longrightarrow>
   map ac_plan_id (map (\<lambda>r. if ac_plan_id r = pid then f r else r) acs) = map ac_plan_id acs"
  by (induction acs) auto

lemma known_update [simp]:
  assumes "\<And>r. ac_plan_id (f r) = ac_plan_id r"
  shows "known q (update_activation pid f d) = known q d"
  using ids_update [of f pid "st_activations d", OF assms] unfolding known_def
  by (metis set_map update_activation_sel(6))

lemma transition_rows_append [simp]:
  "transition_rows pid (js @ [j]) =
     transition_rows pid js @ (if jr_plan_id j = pid \<and> jr_kind j = ''transition'' then [j] else [])"
  by (simp add: transition_rows_def)

lemma commit_rows_append [simp]:
  "commit_rows (js @ [j]) = commit_rows js @ (if jr_kind j = ''wal'' \<and> jr_operation j = ''commit'' then [j] else [])"
  by (simp add: commit_rows_def)

text \<open>A record that is neither a transition nor a commit.\<close>

lemma store_ok_journal:
  assumes "store_ok sha d0 d" and "known pid d" and "kind \<noteq> ''transition''" and "kind \<noteq> ''wal'' \<or> operation \<noteq> ''commit''"
  shows "store_ok sha d0 (db_journal pid kind operation detail now d)"
proof (rule store_ok_step [OF assms(1)])
  have "activation_ok sha (st_journal (db_journal pid kind operation detail now d)) r
      = activation_ok sha (st_journal d) r" for r
    using assms(3) by (simp add: activation_ok_def)
  then show "store_inv sha (db_journal pid kind operation detail now d)"
    using assms by (auto simp: store_ok_def store_inv_def known_def sorted_wrt_append)
qed (simp add: store_extends_def)

text \<open>A transition: state and journal together.\<close>

lemma commit_row_ok_map:
  assumes "\<And>r. activation_key (g r) = activation_key r"
  shows "commit_row_ok (map g acs) j i \<longleftrightarrow> commit_row_ok acs j i"
proof -
  have "ac_plan_id (g r) = ac_plan_id r" "ac_plan_json (g r) = ac_plan_json r" for r
    using assms [of r] by (simp_all add: activation_key_def)
  then show ?thesis by (simp add: commit_row_ok_def) blast
qed

lemma store_inv_map:
  assumes inv: "store_inv sha d" and key: "\<And>r. activation_key (g r) = activation_key r"
    and d': "st_activations d' = map g (st_activations d)" "st_evidence d' = st_evidence d"
      "st_generation d' = st_generation d"
      "commit_rows (st_journal d') = commit_rows (st_journal d)"
    and journal: "\<forall>j \<in> set (st_journal d'). known (jr_plan_id j) d \<and> jr_sequence j \<le> st_journal_seq d'"
      "sorted_wrt (<) (map jr_sequence (st_journal d'))"
    and acs: "\<And>r. r \<in> set (st_activations d) \<Longrightarrow> activation_ok sha (st_journal d') (g r)"
  shows "store_inv sha d'"
proof -
  have [simp]: "ac_plan_id (g r) = ac_plan_id r" for r
    using key [of r] by (simp add: activation_key_def)
  then have ids: "ac_plan_id \<circ> g = ac_plan_id" by (simp add: comp_def)
  show ?thesis
    unfolding store_inv_def
  proof (intro conjI)
    show "distinct (map ac_plan_id (st_activations d'))"
      using inv by (simp add: d' ids store_inv_def)
    show "\<forall>r \<in> set (st_activations d'). activation_ok sha (st_journal d') r"
      using acs by (simp add: d')
    show "\<forall>j \<in> set (st_journal d'). jr_plan_id j \<in> ac_plan_id ` set (st_activations d') \<and> jr_sequence j \<le> st_journal_seq d'"
      using journal(1) by (simp add: d' known_def image_image)
    show "sorted_wrt (<) (map jr_sequence (st_journal d'))" by (rule journal(2))
    show "distinct (map ev_nonce (st_evidence d'))" "st_generation d' = int (length (commit_rows (st_journal d')))"
      using inv by (simp_all add: d' store_inv_def)
    show "\<forall>i < length (commit_rows (st_journal d')).
        commit_row_ok (st_activations d') (commit_rows (st_journal d') ! i) i"
      using inv commit_row_ok_map [OF key] by (simp add: d' store_inv_def)
  qed
qed

lemma store_inv_journal:
  "store_inv sha d \<Longrightarrow> (\<forall>j \<in> set (st_journal d). known (jr_plan_id j) d \<and> jr_sequence j \<le> st_journal_seq d) \<and>
     sorted_wrt (<) (map jr_sequence (st_journal d))"
  by (simp add: store_inv_def known_def)

lemma store_extendsI:
  assumes "st_activations d' = map g (st_activations d)" and "\<And>r. activation_key (g r) = activation_key r"
    and "prefix (st_journal d) (st_journal d')" and "prefix (st_outcomes d) (st_outcomes d')"
    and "map ev_nonce (st_evidence d') = map ev_nonce (st_evidence d)" and "st_generation d \<le> st_generation d'"
  shows "store_extends d d'"
  using assms by (simp add: store_extends_def comp_def)

lemma store_ok_transition:
  assumes ok: "store_ok sha d0 d" and row: "activation_of pid d = Some row"
    and edge: "transitions (ac_state row) = Some ts" "target \<in> ts"
  shows "store_ok sha d0 (db_journal pid ''transition'' (state_value target)
     (JObj [(''from'', JStr (state_value (ac_state row)))]) now (update_activation pid (\<lambda>r. r\<lparr>ac_state := target\<rparr>) d))"
    (is "store_ok sha d0 ?d")
proof (rule store_ok_step [OF ok])
  define g :: "activation_row \<Rightarrow> activation_row" where "g = (\<lambda>r. if ac_plan_id r = pid then r\<lparr>ac_state := target\<rparr> else r)"
  have inv: "store_inv sha d" using ok by (simp add: store_ok_def)
  have key: "activation_key (g r) = activation_key r" for r by (simp add: activation_key_def g_def)
  have acs: "st_activations ?d = map g (st_activations d)" by (simp add: g_def)
  have unique: "r = row" if "r \<in> set (st_activations d)" "ac_plan_id r = pid" for r
    using inv activation_of_Some [OF row] that by (auto simp: store_inv_def distinct_map inj_on_def)
  have "activation_ok sha (st_journal ?d) (g r)" if r: "r \<in> set (st_activations d)" for r
  proof (cases "ac_plan_id r = pid")
    case True
    with r have [simp]: "r = row" by (rule unique)
    from inv r have "activation_ok sha (st_journal d) row" by (auto simp: store_inv_def)
    with True edge show ?thesis
      by (auto simp: activation_ok_def journal_step_def g_def intro!: journal_path.step)
  next
    case False
    with inv r show ?thesis by (auto simp: store_inv_def activation_ok_def g_def)
  qed
  then show "store_inv sha ?d"
    using store_inv_journal [OF inv] activation_of_known [OF row]
    by (intro store_inv_map [OF inv key acs]) (auto simp: sorted_wrt_append)
  show "store_extends d ?d"
    by (rule store_extendsI [OF acs key]) simp_all
qed

text \<open>Changes of the tables that the invariant says nothing about.\<close>

lemma store_inv_cong:
  "store_inv sha d \<Longrightarrow> st_activations d' = st_activations d \<Longrightarrow> st_journal d' = st_journal d \<Longrightarrow>
   st_journal_seq d' = st_journal_seq d \<Longrightarrow> map ev_nonce (st_evidence d') = map ev_nonce (st_evidence d) \<Longrightarrow>
   st_generation d' = st_generation d \<Longrightarrow> store_inv sha d'"
  by (simp add: store_inv_def)

lemma store_ok_cong:
  assumes "store_ok sha d0 d" and "st_activations d' = st_activations d" "st_journal d' = st_journal d"
    "st_journal_seq d' = st_journal_seq d" "map ev_nonce (st_evidence d') = map ev_nonce (st_evidence d)"
    "st_generation d' = st_generation d" "prefix (st_outcomes d) (st_outcomes d')"
  shows "store_ok sha d0 d'"
  by (rule store_ok_step [OF assms(1)], rule store_inv_cong [of sha d])
    (use assms in \<open>simp_all add: store_ok_def store_extends_def\<close>)

lemma store_ok_launch_id:
  assumes "store_ok sha d0 d"
  shows "store_ok sha d0 (update_activation pid (\<lambda>r. r\<lparr>ac_launch_id := x\<rparr>) d)"
    (is "store_ok sha d0 ?d")
proof (rule store_ok_step [OF assms])
  define g :: "activation_row \<Rightarrow> activation_row" where
    "g = (\<lambda>r. if ac_plan_id r = pid then r\<lparr>ac_launch_id := x\<rparr> else r)"
  have inv: "store_inv sha d" using assms by (simp add: store_ok_def)
  have key: "activation_key (g r) = activation_key r" for r by (simp add: activation_key_def g_def)
  have acs: "st_activations ?d = map g (st_activations d)" by (simp add: g_def)
  show "store_inv sha ?d"
    using store_inv_journal [OF inv] inv
    by (intro store_inv_map [OF inv key acs]) (auto simp: store_inv_def activation_ok_def g_def)
  show "store_extends d ?d"
    by (rule store_extendsI [OF acs key]) simp_all
qed

lemma store_ok_evidence:
  assumes "store_ok sha d0 d" and "ev_nonce e \<notin> set (map ev_nonce (st_evidence d))"
  shows "store_ok sha d0 (d\<lparr>st_evidence := st_evidence d @ [e]\<rparr>)"
  by (rule store_ok_step [OF assms(1)])
    (use assms in \<open>auto simp: store_ok_def store_inv_def store_extends_def\<close>)

text \<open>The commit record together with the generation.\<close>

lemma store_ok_commit:
  assumes ok: "store_ok sha d0 d" and row: "activation_of pid d = Some row"
    and p: "plan_from_json (ac_plan_json row) = Inr p" "ps_generation (pl_predecessor p) = st_generation d"
    and d': "d' = (db_journal pid ''wal'' ''commit'' (JObj [(''from'', JInt (st_generation d))]) now d)
        \<lparr>st_generation := st_generation d + 1\<rparr>"
  shows "store_ok sha d0 d'"
proof (rule store_ok_step [OF ok])
  have inv: "store_inv sha d" using ok by (simp add: store_ok_def)
  let ?n = "length (commit_rows (st_journal d))"
  have gen: "st_generation d = int ?n" using inv by (simp add: store_inv_def)
  have "activation_ok sha (st_journal d') r = activation_ok sha (st_journal d) r" for r
    by (simp add: activation_ok_def d')
  moreover have "commit_row_ok (st_activations d) (commit_rows (st_journal d') ! i) i"
    if "i < length (commit_rows (st_journal d'))" for i
  proof (cases "i < ?n")
    case True
    with inv show ?thesis by (simp add: d' nth_append store_inv_def)
  next
    case False
    with that have "i = ?n" by (simp add: d')
    with p gen activation_of_Some [OF row] show ?thesis
      by (auto simp: d' commit_row_ok_def)
  qed
  ultimately show "store_inv sha d'"
    using inv activation_of_known [OF row]
    by (auto simp: store_inv_def known_def d' sorted_wrt_append)
qed (simp add: store_extends_def d')

subsection \<open>Every method keeps the invariant\<close>

lemma cwp_journal_ok [cwp_rules]:
  assumes "store_ok sha d0 d" and "known pid d" and "kind \<noteq> ''transition''" and "kind \<noteq> ''wal'' \<or> operation \<noteq> ''commit''"
    and "\<And>d'. store_ok sha d0 d' \<Longrightarrow> known pid d' \<Longrightarrow> Q () d'"
  shows "cwp (co_journal pid kind operation detail) Q E d"
  by (intro cwp_journal assms(5) store_ok_journal assms(1-4)) (simp add: assms(2))

lemma cwp_transition_ok [cwp_rules]:
  assumes "store_ok sha d0 d" and "\<And>d'. store_ok sha d0 d' \<Longrightarrow> known pid d' \<Longrightarrow> Q () d'" and "\<And>e. E e d"
  shows "cwp (co_transition pid target) Q E d"
proof (intro cwp_transition assms(2,3))
  fix row ts now
  assume r: "activation_of pid d = Some row" "transitions (ac_state row) = Some ts" "target \<in> ts"
  show "store_ok sha d0 (db_journal pid ''transition'' (state_value target)
      (JObj [(''from'', JStr (state_value (ac_state row)))]) now
      (update_activation pid (\<lambda>r. r\<lparr>ac_state := target\<rparr>) d))"
    using assms(1) r by (rule store_ok_transition)
  show "known pid (db_journal pid ''transition'' (state_value target)
      (JObj [(''from'', JStr (state_value (ac_state row)))]) now
      (update_activation pid (\<lambda>r. r\<lparr>ac_state := target\<rparr>) d))"
    using activation_of_known [OF r(1)] by simp
qed

lemma cwp_outcome_ok [cwp_rules]:
  assumes "store_ok sha d0 d" and "known pid d" and "\<And>d'. store_ok sha d0 d' \<Longrightarrow> known pid d' \<Longrightarrow> Q () d'"
  shows "cwp (co_outcome pid success detail) Q E d"
  by (intro cwp_outcome assms(3) store_ok_cong [OF assms(1)])
    (use assms(2) in \<open>simp_all add: db_outcome_def known_def\<close>)

lemma cwp_launch_id [cwp_rules]:
  assumes "store_ok sha d0 d" and "known pid d" and "\<And>d'. store_ok sha d0 d' \<Longrightarrow> known pid d' \<Longrightarrow> Q () d'"
  shows "cwp (modify_db (update_activation pid (\<lambda>r. r\<lparr>ac_launch_id := x\<rparr>))) Q E d"
  by (intro cwp_modify_db assms(3) store_ok_launch_id assms(1)) (simp add: assms(2))

lemma cwp_replace_inventory [cwp_rules]:
  assumes "store_ok sha d0 d" and "known pid d" and "\<And>d'. store_ok sha d0 d' \<Longrightarrow> known pid d' \<Longrightarrow> Q () d'"
    and "\<And>e d'. E e d'"
  shows "cwp (replace_inventory pid processes) Q E d"
  unfolding replace_inventory_def
  by (intro cwp_modify_db pwp_andthen pwp_require assms(3,4) store_ok_cong [OF assms(1)])
    (use assms(2) in \<open>simp_all add: known_def\<close>)

lemma cwp_invalidate [cwp_rules]:
  assumes "store_ok sha d0 d" and "known pid d" and "\<And>d'. store_ok sha d0 d' \<Longrightarrow> known pid d' \<Longrightarrow> Q () d'"
  shows "cwp (modify_db (\<lambda>d. d\<lparr>st_evidence :=
         map (\<lambda>r. if ev_plan_id r = pid then r\<lparr>ev_valid := False\<rparr> else r) (st_evidence d)\<rparr>)) Q E d"
  by (intro cwp_modify_db assms(3) store_ok_cong [OF assms(1)]) (use assms(2) in \<open>simp_all add: known_def\<close>)

lemma cwp_add_evidence [cwp_rules]:
  assumes "store_ok sha d0 d" and "known pid d" and "at_nonce a \<notin> set (map ev_nonce (st_evidence d))"
    and "\<And>d'. store_ok sha d0 d' \<Longrightarrow> known pid d' \<Longrightarrow> Q () d'"
  shows "cwp (modify_db (\<lambda>d. d\<lparr>st_evidence := st_evidence d @ [evidence_row_of pid epoch a]\<rparr>)) Q E d"
  by (intro cwp_modify_db assms(4) store_ok_evidence [OF assms(1)])
    (use assms(2,3) in \<open>simp_all add: known_def evidence_row_of_def\<close>)

lemma cwp_prepare [cwp_rules]:
  assumes "store_ok sha d0 d" and "\<And>x d'. store_ok sha d0 d' \<Longrightarrow> Q x d'" and "\<And>e d'. store_ok sha d0 d' \<Longrightarrow> E e d'"
  shows "cwp (co_prepare sha S A pid) Q E d"
  unfolding co_prepare_def
  by (rule cwp_rules | assumption | rule assms | simp)+

lemma cwp_launch [cwp_rules]:
  assumes "store_ok sha d0 d" and "\<And>x d'. store_ok sha d0 d' \<Longrightarrow> Q x d'" and "\<And>e d'. store_ok sha d0 d' \<Longrightarrow> E e d'"
  shows "cwp (co_launch S pid launch_id) Q E d"
  unfolding co_launch_def
  by (rule cwp_rules | assumption | rule assms | simp)+

lemma cwp_observe [cwp_rules]:
  assumes "store_ok sha d0 d" and "\<And>x d'. store_ok sha d0 d' \<Longrightarrow> Q x d'" and "\<And>e d'. store_ok sha d0 d' \<Longrightarrow> E e d'"
  shows "cwp (co_observe sha S pid item now) Q E d"
  unfolding co_observe_def
  by (rule cwp_rules cwp_gets | assumption | rule assms | erule activation_of_known | simp)+

lemma cwp_refresh [cwp_rules]:
  assumes "store_ok sha d0 d" and "\<And>x d'. store_ok sha d0 d' \<Longrightarrow> Q x d'" and "\<And>e d'. store_ok sha d0 d' \<Longrightarrow> E e d'"
  shows "cwp (co_refresh_inventory pid processes) Q E d"
  unfolding co_refresh_inventory_def
  by (rule cwp_rules | assumption | rule assms | erule activation_of_known | simp)+

lemma cwp_gate_rollback_part [cwp_rules]:
  "(\<And>x. Q x d) \<Longrightarrow> cwp (gate_rollback_part A generation host_error) Q E d"
  unfolding gate_rollback_part_def by (intro cwp_rules) simp_all

lemma cwp_rollback [cwp_rules]:
  assumes "store_ok sha d0 d" and "\<And>x d'. store_ok sha d0 d' \<Longrightarrow> Q x d'" and "\<And>e d'. store_ok sha d0 d' \<Longrightarrow> E e d'"
  shows "cwp (co_rollback S A pid reason) Q E d"
  unfolding co_rollback_def Let_def
  by (rule cwp_rules | assumption | rule assms | simp)+

lemma cwp_external_lease_lost [cwp_rules]:
  assumes "store_ok sha d0 d" and "\<And>x d'. store_ok sha d0 d' \<Longrightarrow> Q x d'" and "\<And>e d'. store_ok sha d0 d' \<Longrightarrow> E e d'"
  shows "cwp (co_external_lease_lost S A pid) Q E d"
  unfolding co_external_lease_lost_def
  by (rule cwp_rules | assumption | rule assms | simp)+

lemma activation_of_journal [simp]:
  "activation_of pid (db_journal q kind operation detail now d) = activation_of pid d"
  by (simp add: activation_of_def)

lemma find_map_update:
  "find (\<lambda>r. ac_plan_id r = pid) acs = Some row \<Longrightarrow>
   find (\<lambda>r. ac_plan_id r = pid) (map (\<lambda>r. if ac_plan_id r = pid then r\<lparr>ac_state := s\<rparr> else r) acs)
     = Some (row\<lparr>ac_state := s\<rparr>)"
  by (induction acs) (auto split: if_splits)

lemma activation_of_update:
  "activation_of pid d = Some row \<Longrightarrow>
   activation_of pid (update_activation pid (\<lambda>r. r\<lparr>ac_state := s\<rparr>) d) = Some (row\<lparr>ac_state := s\<rparr>)"
  by (simp add: activation_of_def find_map_update)

lemma cwp_commit_wal [cwp_rules]:
  assumes ok: "store_ok sha d0 d" and row: "activation_of pid d = Some row" "plan_from_json (ac_plan_json row) = Inr p"
    and Q: "\<And>d'. store_ok sha d0 d' \<Longrightarrow> known pid d' \<Longrightarrow> Q () d'" and E: "\<And>e. E e d"
  shows "cwp (commit_wal pid p expected) Q E d"
  unfolding commit_wal_def
proof (intro cwp_txn pwp_andthen cwp_transition cwp_journal pwp_bind cwp_gets_db pwp_If cwp_modify_db pwp_ret
    pwp_require Q E)
  fix r :: activation_row and ts now now'
  let ?d1 = "db_journal pid ''transition'' (state_value CommitReady) (JObj [(''from'', JStr (state_value (ac_state r)))])
      now (update_activation pid (\<lambda>r. r\<lparr>ac_state := CommitReady\<rparr>) d)"
  let ?d2 = "db_journal pid ''wal'' ''commit'' (JObj [(''from'', JInt expected)]) now' ?d1"
  let ?d3 = "?d2\<lparr>st_generation := st_generation ?d2 + 1\<rparr>"
  assume r: "activation_of pid d = Some r" "transitions (ac_state r) = Some ts" "CommitReady \<in> ts"
    and changed: "st_generation ?d2 = expected"
    and cas: "\<not> (\<not> st_generation ?d2 = expected \<or> ps_generation (pl_predecessor p) \<noteq> expected)"
  have ok1: "store_ok sha d0 ?d1"
    using ok r by (rule store_ok_transition)
  have row1: "activation_of pid ?d1 = Some (row\<lparr>ac_state := CommitReady\<rparr>)"
    using row(1) by (simp add: activation_of_update)
  show "store_ok sha d0 ?d3"
    by (rule store_ok_commit [OF ok1 row1, of p _ now']) (use row(2) changed cas in simp_all)
  have "known pid ?d2" using activation_of_known [OF row1] by simp
  then show "known pid ?d3" by (simp only: known_generation)
qed simp_all

lemma cwp_commit [cwp_rules]:
  assumes "store_ok sha d0 d" and "\<And>x d'. store_ok sha d0 d' \<Longrightarrow> Q x d'" and "\<And>e d'. store_ok sha d0 d' \<Longrightarrow> E e d'"
  shows "cwp (co_commit sha S A pid expected) Q E d"
  unfolding co_commit_def co_open_proof_def
  by (rule cwp_rules cwp_gets | assumption | rule assms | simp)+

text \<open>
  A plan enters the store with its journal row.  When the gate refuses it, deleting both leaves the
  rows as they were; only the autoincrement counter has moved.
\<close>

lemma store_ok_insert:
  assumes ok: "store_ok sha d0 d" and new: "activation_of pid d = None"
    and p: "json_wf (plan_dict p)" "\<not> no_evidence_targets p" "pid = plan_id sha p"
    and row: "ac_plan_id row = pid" "ac_plan_json row = canonical_bytes (plan_dict p)" "ac_state row = Planned"
  shows "store_ok sha d0 (db_journal pid ''transition'' ''plan'' detail now
     (d\<lparr>st_activations := st_activations d @ [row]\<rparr>))" (is "store_ok sha d0 ?d")
proof (rule store_ok_step [OF ok])
  have inv: "store_inv sha d" using ok by (simp add: store_ok_def)
  have fresh: "pid \<notin> ac_plan_id ` set (st_activations d)"
    using new by (simp add: activation_of_None known_def)
  with inv have none: "transition_rows pid (st_journal d) = []"
    by (auto simp: store_inv_def transition_rows_def filter_empty_conv)
  have new_ok: "activation_ok sha (st_journal ?d) row"
    unfolding activation_ok_def
  proof (intro conjI exI [of _ p])
    have "journal_step None (last (st_journal ?d)) Planned" by (simp add: journal_step_def)
    then show "journal_path (transition_rows (ac_plan_id row) (st_journal ?d)) (Some (ac_state row))"
      using journal_path.step [OF journal_path.empty] by (simp add: row none)
  qed (use p row in simp_all)
  have old_ok: "activation_ok sha (st_journal ?d) r" if "r \<in> set (st_activations d)" for r
    using inv fresh that by (auto simp: store_inv_def activation_ok_def)
  have commits: "commit_row_ok (st_activations d @ [row]) j i" if "commit_row_ok (st_activations d) j i" for j i
    using that by (auto simp: commit_row_ok_def)
  show "store_inv sha ?d"
    unfolding store_inv_def using inv fresh new_ok old_ok commits row(1)
    by (intro conjI) (auto simp: store_inv_def sorted_wrt_append)
qed (simp add: store_extends_def)

lemma delete_inserted:
  assumes inv: "store_inv sha d" and new: "activation_of (ac_plan_id row) d = None"
  shows "delete_plan (ac_plan_id row) (db_journal (ac_plan_id row) kind operation detail now
     (d\<lparr>st_activations := st_activations d @ [row]\<rparr>)) = d\<lparr>st_journal_seq := st_journal_seq d + 1\<rparr>"
proof -
  have "filter (\<lambda>r. ac_plan_id r \<noteq> ac_plan_id row) (st_activations d) = st_activations d"
    using new by (auto simp: activation_of_None known_def filter_id_conv image_iff)
  moreover have "filter (\<lambda>r. jr_plan_id r \<noteq> ac_plan_id row) (st_journal d) = st_journal d"
    using new store_inv_journal [OF inv] by (auto simp: activation_of_None filter_id_conv)
  ultimately show ?thesis by (simp add: delete_plan_def db_journal_def)
qed

lemma store_ok_seq:
  assumes "store_ok sha d0 d"
  shows "store_ok sha d0 (d\<lparr>st_journal_seq := st_journal_seq d + 1\<rparr>)"
  by (rule store_ok_step [OF assms]) (use assms in \<open>auto simp: store_ok_def store_inv_def store_extends_def\<close>)

lemma cwp_plan_rows:
  assumes ok: "store_ok sha d0 d" and p: "json_wf (plan_dict p)" "\<not> no_evidence_targets p" "pid = plan_id sha p"
    and row: "\<And>now. ac_plan_id (row now) = pid" "\<And>now. ac_plan_json (row now) = canonical_bytes (plan_dict p)"
      "\<And>now. ac_state (row now) = Planned"
    and Q: "\<And>d'. store_ok sha d0 d' \<Longrightarrow> store_ok sha d0 (delete_plan pid d') \<Longrightarrow> Q () d'" and E: "\<And>e. E e d"
  shows "cwp (co_txn (bind co_now (\<lambda>now. andthen (insert_activation (row now))
     (co_journal pid ''transition'' ''plan'' detail)))) Q E d"
  unfolding insert_activation_def
proof (intro cwp_txn pwp_bind cwp_now pwp_andthen cwp_gets_db)
  fix now
  show "cwp (case activation_of (ac_plan_id (row now)) d of
       None \<Rightarrow> modify_db (\<lambda>d. d\<lparr>st_activations := st_activations d @ [row now]\<rparr>)
     | Some _ \<Rightarrow> raise (IntegrityError ''UNIQUE constraint failed: activation.plan_id''))
     (\<lambda>_. cwp (co_journal pid ''transition'' ''plan'' detail) Q (\<lambda>e _. E e d)) (\<lambda>e _. E e d) d"
  proof (cases "activation_of (ac_plan_id (row now)) d")
    case None
    have "Q () (db_journal pid ''transition'' ''plan'' detail t (d\<lparr>st_activations := st_activations d @ [row now]\<rparr>))"
      (is "Q () ?d") for t
    proof (rule Q)
      show "store_ok sha d0 ?d"
        using None row by (intro store_ok_insert [OF ok _ p]) simp_all
      show "store_ok sha d0 (delete_plan pid ?d)"
        using delete_inserted [of sha d "row now"] None ok store_ok_seq [OF ok] row(1) by (simp add: store_ok_def)
    qed
    then show ?thesis using None by (auto intro!: cwp_modify_db cwp_journal)
  next
    case (Some r)
    then show ?thesis using E by (auto intro!: pwp_raise)
  qed
qed

lemma cwp_plan [cwp_rules]:
  assumes ok: "store_ok sha d0 d" and wf: "json_wf (plan_dict p)"
    and Q: "\<And>x d'. store_ok sha d0 d' \<Longrightarrow> Q x d'" and E: "\<And>e d'. store_ok sha d0 d' \<Longrightarrow> E e d'"
  shows "cwp (co_plan sha S A p) Q E d"
  unfolding co_plan_def Let_def
proof (rule pwp_andthen, rule pwp_require, rule pwp_andthen, rule cwp_plan_rows [OF ok wf])
  fix d' assume d': "store_ok sha d0 d'" "store_ok sha d0 (delete_plan (plan_id sha p) d')"
  show "cwp (bind has_gate (\<lambda>gate. andthen
      (if gate then try_except (andthen (on_gate (gate_stage sha A (JStr (plan_id sha p)) (predecessor_dict (pl_predecessor p)))) (ret ()))
          (\<lambda>exc. andthen (co_txn (modify_db (delete_plan (plan_id sha p)))) (raise exc))
       else on_env (sv_hold_predecessor S (pl_predecessor p)))
      (ret (plan_id sha p)))) Q E d'"
    by (rule cwp_rules cwp_modify_db | rule Q E d')+
qed (use ok E in simp_all)

text \<open>Recovery.\<close>

lemma cwp_fail_close_state [cwp_rules]:
  "(\<And>x. Q x d) \<Longrightarrow> (\<And>e. E e d) \<Longrightarrow> cwp (fail_close_state A generation reason) Q E d"
  unfolding fail_close_state_def by (intro cwp_rules) (auto split: rollback_class.splits intro!: cwp_rules)

lemma cwp_recovered_target [cwp_rules]:
  "(\<And>x. Q x d) \<Longrightarrow> (\<And>e. E e d) \<Longrightarrow> cwp (recovered_target A generation gs detail) Q E d"
  unfolding recovered_target_def by (intro cwp_rules) simp_all

lemma cwp_recover_rollback [cwp_rules]:
  assumes "store_ok sha d0 d" and "known pid d"
    and "\<And>x d'. store_ok sha d0 d' \<Longrightarrow> Q x d'" and "\<And>e d'. store_ok sha d0 d' \<Longrightarrow> E e d'"
  shows "cwp (recover_rollback sha A pid p) Q E d"
  unfolding recover_rollback_def Let_def
  by (rule cwp_rules | assumption | rule assms | simp)+

lemma cwp_recover_to_reconcile [cwp_rules]:
  assumes "store_ok sha d0 d" and "\<And>d'. store_ok sha d0 d' \<Longrightarrow> known pid d' \<Longrightarrow> Q () d'" and "\<And>e d'. store_ok sha d0 d' \<Longrightarrow> E e d'"
  shows "cwp (recover_to_reconcile pid operation detail) Q E d"
  unfolding recover_to_reconcile_def
  by (rule cwp_rules | assumption | rule assms | simp)+

lemma cwp_state_of [cwp_rules]:
  "(\<And>x. Q x d) \<Longrightarrow> (\<And>e. E e d) \<Longrightarrow> cwp (co_state_of pid) Q E d"
  unfolding co_state_of_def by (intro cwp_rules) simp_all

lemma cwp_recover_commit_ready [cwp_rules]:
  assumes "store_ok sha d0 d" and "known pid d"
    and "\<And>x d'. store_ok sha d0 d' \<Longrightarrow> Q x d'" and "\<And>e d'. store_ok sha d0 d' \<Longrightarrow> E e d'"
  shows "cwp (recover_commit_ready sha A pid p) Q E d"
  unfolding recover_commit_ready_def
  by (rule cwp_rules | assumption | rule assms | simp)+

lemma cwp_recover [cwp_rules]:
  assumes "store_ok sha d0 d" and "\<And>x d'. store_ok sha d0 d' \<Longrightarrow> Q x d'" and "\<And>e d'. store_ok sha d0 d' \<Longrightarrow> E e d'"
  shows "cwp (co_recover sha S A pid) Q E d"
  unfolding co_recover_def Let_def
  by (rule cwp_rules | assumption | rule assms | erule activation_of_known | simp)+

lemma cwp_resume_observing [cwp_rules]:
  assumes "store_ok sha d0 d" and "\<And>x d'. store_ok sha d0 d' \<Longrightarrow> Q x d'" and "\<And>e d'. store_ok sha d0 d' \<Longrightarrow> E e d'"
  shows "cwp (co_resume_observing pid) Q E d"
  unfolding co_resume_observing_def
  by (rule cwp_rules | assumption | rule assms | simp)+

lemma co_new_sel [simp]:
  "co_db (co_new store env g faults clock) = fst (store_boot store)"
  "co_manager_epoch (co_new store env g faults clock) = snd (store_boot store)"
  "co_env (co_new store env g faults clock) = env"
  "co_gate (co_new store env g faults clock) = g"
  by (simp_all add: co_new_def split_beta)

lemma store_ok_boot:
  assumes "store_ok sha d0 d"
  shows "store_ok sha d0 (fst (store_boot d))"
  by (rule store_ok_cong [OF assms]) (simp_all add: store_boot_def Let_def comp_def)

subsection \<open>Calls, restarts and reachable stores\<close>

text \<open>
  One step of a deployment, quiet or an observation: a call of a method with any arguments, whatever the services, the gate,
  the clock and the fault injector do, or a restart of the manager on the same database.  A call
  that raises leaves what it has committed, so its database is a step too.  Plans come from the
  planner, whose output is a JSON value with distinct keys in every object.
\<close>

inductive co_quiet_step :: "(string \<Rightarrow> string) \<Rightarrow> ('h, 'e) coordinator \<Rightarrow> ('h, 'e) coordinator \<Rightarrow> bool"
  for sha :: "string \<Rightarrow> string" where
  plan: "json_wf (plan_dict p) \<Longrightarrow> co_quiet_step sha c (snd (co_plan sha S A p c))"
| prepare: "co_quiet_step sha c (snd (co_prepare sha S A pid c))"
| launch: "co_quiet_step sha c (snd (co_launch S pid launch_id c))"
| refresh_inventory: "co_quiet_step sha c (snd (co_refresh_inventory pid processes c))"
| commit: "co_quiet_step sha c (snd (co_commit sha S A pid expected c))"
| rollback: "co_quiet_step sha c (snd (co_rollback S A pid reason c))"
| external_lease_lost: "co_quiet_step sha c (snd (co_external_lease_lost S A pid c))"
| recover: "co_quiet_step sha c (snd (co_recover sha S A pid c))"
| resume_observing: "co_quiet_step sha c (snd (co_resume_observing pid c))"
| environment: "co_db c' = co_db c \<Longrightarrow> co_manager_epoch c' = co_manager_epoch c \<Longrightarrow> co_quiet_step sha c c'"
| restart: "co_quiet_step sha c (co_new (co_db c) env g faults clock)"

inductive co_step :: "(string \<Rightarrow> string) \<Rightarrow> ('h, 'e) coordinator \<Rightarrow> ('h, 'e) coordinator \<Rightarrow> bool"
  for sha :: "string \<Rightarrow> string" where
  quiet: "co_quiet_step sha c c' \<Longrightarrow> co_step sha c c'"
| observe: "co_step sha c (snd (co_observe sha S pid item now c))"

inductive co_reachable :: "(string \<Rightarrow> string) \<Rightarrow> ('h, 'e) coordinator \<Rightarrow> bool" for sha :: "string \<Rightarrow> string" where
  new: "co_reachable sha (co_new store_new env g faults clock)"
| step: "co_reachable sha c \<Longrightarrow> co_step sha c c' \<Longrightarrow> co_reachable sha c'"

lemma cwp_db: "cwp m (\<lambda>_. P) (\<lambda>_. P) (co_db c) \<Longrightarrow> P (co_db (snd (m c)))"
  by (rule pwp_snd)

lemma co_quiet_step_ok:
  assumes "co_quiet_step sha c c'" and "store_inv sha (co_db c)"
  shows "store_ok sha (co_db c) (co_db c')"
  using assms
proof (induction rule: co_quiet_step.induct)
  case (restart c env g faults clock)
  then have "store_ok sha (co_db c) (fst (store_boot (co_db c)))"
    by (intro store_ok_boot store_ok_refl)
  then show ?case by simp
next
  case (environment c' c)
  then show ?case by (simp add: store_ok_refl)
qed (rule cwp_db, rule cwp_rules, erule store_ok_refl, assumption+)+

lemma co_step_ok:
  assumes "co_step sha c c'" and "store_inv sha (co_db c)"
  shows "store_ok sha (co_db c) (co_db c')"
  using assms
proof (induction rule: co_step.induct)
  case (observe c S pid item now)
  show ?case by (rule cwp_db, rule cwp_rules, rule store_ok_refl, rule observe)
qed (rule co_quiet_step_ok)

lemma store_new_inv: "store_inv sha (co_db (co_new store_new env g faults clock))"
  by (simp add: store_boot_def store_new_def Let_def store_inv_def commit_rows_def)

lemma co_reachable_inv: "co_reachable sha c \<Longrightarrow> store_inv sha (co_db c)"
proof (induction rule: co_reachable.induct)
  case (step c c')
  then show ?case using co_step_ok by (auto simp: store_ok_def)
qed (rule store_new_inv)

end
