(* ===== verification/Plan_Json.thy ===== *)
theory Plan_Json
  imports Coordinator_Store
begin

section \<open>Stored plans read back (\<^verbatim>\<open>_plan_from_json\<close>)\<close>

text \<open>
  The coordinator stores \<open>canonical_bytes(asdict(plan))\<close> and rebuilds the plan from it before every
  operation.  Reading back gives the plan with the keys of its rendered inputs in order
  (\<open>plan_sorted\<close>), which has the same identity.
\<close>

definition predecessor_sorted :: "predecessor_snapshot \<Rightarrow> predecessor_snapshot" where
  "predecessor_sorted s = s\<lparr>ps_rendered_inputs :=
     sort_key fst (map (\<lambda>kv. (fst kv, jsort (snd kv))) (ps_rendered_inputs s))\<rparr>"

definition plan_sorted :: "plan \<Rightarrow> plan" where
  "plan_sorted p = p\<lparr>pl_predecessor := predecessor_sorted (pl_predecessor p)\<rparr>"

lemma json_read_canonical: "json_wf v \<Longrightarrow> json_read (canonical_bytes v) = Inr (jsort v)"
  by (simp add: json_read_def canonical_bytes_def json_loads_dumps)

lemma json_kwargs_jsort:
  assumes "set (map fst kvs) = set args" and "set (map fst defaults) \<subseteq> set args"
  shows "json_kwargs args defaults (jsort (JObj kvs)) = Inr (jsort (JObj kvs))"
proof -
  have keys: "fst ` (\<lambda>kv. (fst kv, jsort (snd kv))) ` set kvs = set args"
    using assms(1) by (simp add: image_image)
  have none: "filter (\<lambda>d. fst d \<notin> set args) defaults = []"
    using assms(2) by (auto simp: filter_empty_conv)
  show ?thesis by (simp add: json_kwargs_def keys none)
qed

lemma json_field_jsort:
  "distinct (map fst kvs) \<Longrightarrow> map_of kvs k = Some v \<Longrightarrow> json_field k f (jsort (JObj kvs)) = f (jsort v)"
  by (simp add: json_field_def json_item_jsort del: jsort.simps)

lemma jsort_jopt [simp]: "jsort (jopt x) = jopt x"
  by (cases x) (simp_all add: jopt_def)

lemma json_str_opt_jopt [simp]: "json_str_opt (jopt x) = Inr x"
  by (cases x) (simp_all add: json_str_opt_def jopt_def)

lemmas of_json_simps = json_field_jsort json_kwargs_jsort json_str_def json_int_def json_bool_def json_items_def json_obj_def

lemma emap_read_back: "(\<And>x. x \<in> set xs \<Longrightarrow> f (g x) = Inr (h x)) \<Longrightarrow> emap f (map g xs) = Inr (map h xs)"
  by (induction xs) simp_all

lemma plugin_of_json_jsort [simp]: "plugin_of_json (jsort (plugin_dict p)) = Inr p"
  by (simp add: plugin_of_json_def plugin_dict_def of_json_simps insert_commute del: jsort.simps(2))

lemma host_of_json_jsort [simp]: "host_of_json (jsort (host_dict h)) = Inr h"
  by (simp add: host_of_json_def host_dict_def of_json_simps insert_commute del: jsort.simps(2))

lemma claim_of_json_jsort [simp]: "claim_of_json (jsort (claim_dict c)) = Inr c"
  by (simp add: claim_of_json_def claim_dict_def of_json_simps insert_commute del: jsort.simps(2))

lemma obligation_of_json_jsort [simp]: "obligation_of_json (jsort (obligation_dict b)) = Inr b"
  by (simp add: obligation_of_json_def obligation_dict_def of_json_simps comp_def emap_read_back [of _ _ _ "\<lambda>x. x"]
    del: jsort.simps(2))

lemma json_wf_predecessor: "json_wf (predecessor_dict s) \<longleftrightarrow> json_wf (JObj (ps_rendered_inputs s))"
  by (simp add: predecessor_dict_def jopt_def split: option.splits)

lemma predecessor_of_json_jsort:
  "predecessor_of_json (jsort (predecessor_dict s)) = Inr (predecessor_sorted s)"
  by (simp add: predecessor_of_json_def predecessor_dict_def of_json_simps insert_commute predecessor_sorted_def
    del: jsort.simps(2)) (simp add: json_obj_def)

lemma json_wf_plan:
  "json_wf (plan_dict p) \<longleftrightarrow> json_wf (JObj (ps_rendered_inputs (pl_predecessor p)))"
proof -
  have "json_wf (plugin_dict a)" "json_wf (host_dict h)" "json_wf (claim_dict c)" "json_wf (obligation_dict b)" for a h c b
    by (simp_all add: plugin_dict_def host_dict_def claim_dict_def obligation_dict_def list_all_iff)
  then show ?thesis by (simp add: plan_dict_def list_all_iff json_wf_predecessor)
qed

lemma map_of_jsort:
  assumes "distinct (map fst kvs)"
  shows "(case jsort (JObj kvs) of JObj l \<Rightarrow> g (map_of l k) | _ \<Rightarrow> e) = g (map_option jsort (map_of kvs k))"
proof -
  have "map_of (map (\<lambda>kv. (fst kv, jsort (snd kv))) kvs) k = map_option jsort (map_of kvs k)"
    by (induction kvs) auto
  then show ?thesis using assms by (simp add: map_of_sort_key comp_def)
qed

lemma plan_of_json_jsort: "plan_of_json (jsort (plan_dict p)) = Inr (plan_sorted p)"
  unfolding plan_of_json_def plan_dict_def
  by (simp add: of_json_simps map_of_jsort emap_read_back [of _ _ _ "\<lambda>x. x"] predecessor_of_json_jsort plan_sorted_def
    del: jsort.simps(2))

lemma plan_from_json_canonical:
  "json_wf (plan_dict p) \<Longrightarrow> plan_from_json (canonical_bytes (plan_dict p)) = Inr (plan_sorted p)"
  by (simp add: plan_from_json_def json_read_canonical plan_of_json_jsort)

lemma jsort_plan_sorted: "jsort (plan_dict (plan_sorted p)) = jsort (plan_dict p)"
proof -
  have "jsort (JObj (ps_rendered_inputs (predecessor_sorted s))) = jsort (JObj (ps_rendered_inputs s))" for s
    using jsort_idem [of "JObj (ps_rendered_inputs s)"] by (simp add: predecessor_sorted_def)
  then have "jsort (predecessor_dict (predecessor_sorted s)) = jsort (predecessor_dict s)" for s
    by (simp add: predecessor_dict_def predecessor_sorted_def)
  then show ?thesis by (simp add: plan_dict_def plan_sorted_def)
qed

lemma canonical_plan_sorted: "canonical_bytes (plan_dict (plan_sorted p)) = canonical_bytes (plan_dict p)"
  by (simp add: canonical_bytes_def json_dumps_def jsort_plan_sorted)

lemma plan_id_sorted [simp]: "plan_id sha (plan_sorted p) = plan_id sha p"
  by (simp add: plan_id_def content_id_def canonical_plan_sorted)

lemma plan_sorted_sel [simp]:
  "pl_plugins (plan_sorted p) = pl_plugins p" "pl_host (plan_sorted p) = pl_host p"
  "pl_claims (plan_sorted p) = pl_claims p" "pl_obligations (plan_sorted p) = pl_obligations p"
  "pl_fallback_proven (plan_sorted p) = pl_fallback_proven p"
  "ps_generation (pl_predecessor (plan_sorted p)) = ps_generation (pl_predecessor p)"
  "ps_plan_id (pl_predecessor (plan_sorted p)) = ps_plan_id (pl_predecessor p)"
  "ps_rendered_inputs (pl_predecessor (plan_sorted p)) =
     sort_key fst (map (\<lambda>kv. (fst kv, jsort (snd kv))) (ps_rendered_inputs (pl_predecessor p)))"
  by (simp_all add: plan_sorted_def predecessor_sorted_def)

text \<open>
  C35. A stored plan reads back: for every plan whose rendered inputs have one value per key,
  \<open>_plan_from_json(canonical_bytes(asdict(plan)))\<close> succeeds, gives a plan that differs at most in
  the key order of the rendered inputs (it is equal as JSON), has the same \<open>plan_id\<close>, and storing
  that one again gives the same bytes and reads back to itself.
\<close>

theorem plan_json_roundtrip:
  assumes "json_wf (plan_dict p)"
  shows "\<exists>q. plan_from_json (canonical_bytes (plan_dict p)) = Inr q
     \<and> q = p\<lparr>pl_predecessor := (pl_predecessor p)\<lparr>ps_rendered_inputs :=
         ps_rendered_inputs (pl_predecessor q)\<rparr>\<rparr>
     \<and> jsort (JObj (ps_rendered_inputs (pl_predecessor q))) = jsort (JObj (ps_rendered_inputs (pl_predecessor p)))
     \<and> plan_id sha q = plan_id sha p
     \<and> canonical_bytes (plan_dict q) = canonical_bytes (plan_dict p)
     \<and> plan_from_json (canonical_bytes (plan_dict q)) = Inr q"
proof (intro exI conjI)
  show "plan_from_json (canonical_bytes (plan_dict p)) = Inr (plan_sorted p)"
    using assms by (rule plan_from_json_canonical)
  then show "plan_from_json (canonical_bytes (plan_dict (plan_sorted p))) = Inr (plan_sorted p)"
    by (simp add: canonical_plan_sorted)
  show "jsort (JObj (ps_rendered_inputs (pl_predecessor (plan_sorted p)))) =
      jsort (JObj (ps_rendered_inputs (pl_predecessor p)))"
    using jsort_idem [of "JObj (ps_rendered_inputs (pl_predecessor p))"] by simp
  show "plan_sorted p = p\<lparr>pl_predecessor := (pl_predecessor p)\<lparr>ps_rendered_inputs :=
      ps_rendered_inputs (pl_predecessor (plan_sorted p))\<rparr>\<rparr>"
    by (simp add: plan_sorted_def predecessor_sorted_def)
qed (simp_all add: canonical_plan_sorted)

theorem plan_json_roundtrip_witness:
  "json_wf (plan_dict ex_plan) \<and> (\<exists>q. plan_from_json (canonical_bytes (plan_dict ex_plan)) = Inr q
     \<and> plan_id ex_sha q = plan_id ex_sha ex_plan)"
proof -
  have wf: "json_wf (plan_dict ex_plan)"
    by (simp add: json_wf_plan ex_plan_def ex_predecessor_def)
  with plan_json_roundtrip [of ex_plan ex_sha] show ?thesis by blast
qed

end
