(* ===== verification/Coordinator_Run.thy ===== *)
theory Coordinator_Run
  imports Plan_Json Coordinator
begin

section \<open>A run of the durable coordinator\<close>

text \<open>
  One activation with the deterministic services of the module, step by step from an empty store to
  \<open>Effective\<close>: the concrete states at which the theorems on the coordinator are instantiated.
\<close>

fun ex_rows :: "int \<Rightarrow> (string \<times> string \<times> json) list \<Rightarrow> journal_row list" where
  "ex_rows n [] = []"
| "ex_rows n ((kind, operation, detail) # ts) =
     \<lparr>jr_sequence = n, jr_plan_id = ''plan:sha256:00'', jr_kind = kind, jr_operation = operation,
      jr_detail_json = canonical_bytes detail, jr_created_at = 0\<rparr> # ex_rows (n + 1) ts"

definition ex_services :: "fake_env services" where
  "ex_services = fake_services ex_sha"

definition ex_env :: fake_env where
  "ex_env = \<lparr>fk_inventory = [ex_process], fk_prepared = False, fk_launched = False, fk_rollback_succeeds = True,
     fk_active_plan_id = None, fk_predecessor_plan_id = None, fk_lease_valid = True\<rparr>"

definition ex_coordinator :: "(fake_env, 'e) coordinator" where
  "ex_coordinator = co_new store_new ex_env None {} (\<lambda>_. 0)"

definition ex_activation :: "state \<Rightarrow> string option \<Rightarrow> activation_row" where
  "ex_activation st launch = \<lparr>ac_plan_id = ''plan:sha256:00'', ac_plan_json = canonical_bytes (plan_dict ex_plan),
     ac_state = st, ac_launch_id = launch, ac_predecessor_json = canonical_bytes (predecessor_dict ex_predecessor),
     ac_created_at = 0\<rparr>"

text \<open>The coordinator with this one activation and this journal.\<close>

definition ex_co ::
  "state \<Rightarrow> string option \<Rightarrow> process_identity list \<Rightarrow> evidence_row list \<Rightarrow> (string \<times> string \<times> json) list \<Rightarrow>
   nat \<Rightarrow> int \<Rightarrow> fake_env \<Rightarrow> (fake_env, 'e) coordinator" where
  "ex_co st launch inventory evidence journal ticks generation env =
     \<lparr>co_db = \<lparr>st_generation = generation, st_manager_epoch = 1, st_activations = [ex_activation st launch],
        st_journal = ex_rows 1 journal, st_journal_seq = int (length journal),
        st_inventory = map (inventory_row_of ''plan:sha256:00'') inventory, st_evidence = evidence, st_outcomes = []\<rparr>,
      co_env = env, co_gate = None, co_faults = {}, co_clock = (\<lambda>_. 0), co_ticks = ticks, co_manager_epoch = 1\<rparr>"

definition ex_move :: "state \<Rightarrow> state \<Rightarrow> string \<times> string \<times> json" where
  "ex_move a b = (''transition'', state_value b, JObj [(''from'', JStr (state_value a))])"

definition ex_journal_planned :: "(string \<times> string \<times> json) list" where
  "ex_journal_planned = [(''transition'', ''plan'', JObj [(''state'', JStr ''Planned'')])]"

definition ex_journal_prepared :: "(string \<times> string \<times> json) list" where
  "ex_journal_prepared = ex_journal_planned @ [ex_move Planned Preparing, (''wal'', ''prepare'', JObj []),
     (''receipt'', ''prepare'', JObj [(''prepared'', JBool True), (''plan_id'', JStr ''plan:sha256:00'')]),
     ex_move Preparing Prepared]"

definition ex_journal_launched :: "(string \<times> string \<times> json) list" where
  "ex_journal_launched = ex_journal_prepared @ [ex_move Prepared Launching,
     (''wal'', ''launch'', JObj [(''launch_id'', JStr ''l1'')]), (''receipt'', ''launch'', JObj [(''count'', JInt 1)]),
     ex_move Launching Observing]"

definition ex_journal_observed :: "(string \<times> string \<times> json) list" where
  "ex_journal_observed = ex_journal_launched @ [(''evidence'', ''loaded'', attestation_dict ex_attestation)]"

definition ex_journal_effective :: "(string \<times> string \<times> json) list" where
  "ex_journal_effective = ex_journal_observed @ [ex_move Observing CommitReady,
     (''wal'', ''commit'', JObj [(''from'', JInt 0)]), (''receipt'', ''commit'', JObj [(''generation'', JInt 1)]),
     ex_move CommitReady Effective]"

definition ex_env_prepared :: fake_env where "ex_env_prepared = ex_env\<lparr>fk_prepared := True\<rparr>"
definition ex_env_launched :: fake_env where "ex_env_launched = ex_env_prepared\<lparr>fk_launched := True\<rparr>"
definition ex_env_active :: fake_env where
  "ex_env_active = ex_env_launched\<lparr>fk_active_plan_id := Some ''plan:sha256:00''\<rparr>"

definition ex_evidence :: evidence_row where
  "ex_evidence = evidence_row_of ''plan:sha256:00'' 1 ex_attestation"

definition ex_co_planned :: "(fake_env, 'e) coordinator" where
  "ex_co_planned = ex_co Planned None [] [] ex_journal_planned 2 0 ex_env"

definition ex_co_prepared :: "(fake_env, 'e) coordinator" where
  "ex_co_prepared = ex_co Prepared None [] [] ex_journal_prepared 6 0 ex_env_prepared"

definition ex_co_launched :: "(fake_env, 'e) coordinator" where
  "ex_co_launched = ex_co Observing (Some ''l1'') [ex_process] [] ex_journal_launched 10 0 ex_env_launched"

definition ex_co_observed :: "(fake_env, 'e) coordinator" where
  "ex_co_observed = ex_co Observing (Some ''l1'') [ex_process] [ex_evidence] ex_journal_observed 11 0 ex_env_launched"

definition ex_co_effective :: "(fake_env, 'e) coordinator" where
  "ex_co_effective = ex_co Effective (Some ''l1'') [ex_process] [ex_evidence] ex_journal_effective 16 1 ex_env_active"

lemma ex_plan_json [simp]: "plan_from_json (canonical_bytes (plan_dict ex_plan)) = Inr ex_plan"
proof -
  have "plan_sorted ex_plan = ex_plan"
    by (simp add: plan_sorted_def predecessor_sorted_def ex_plan_def ex_predecessor_def)
  then show ?thesis
    using plan_from_json_canonical [of ex_plan] by (simp add: json_wf_plan ex_plan_def ex_predecessor_def)
qed

lemmas co_basic_defs = py_defs co_txn_def on_env_def has_gate_def fault_hit_def co_now_def modify_db_def
  co_row_def activation_of_def db_journal_def co_journal_def update_activation_def co_transition_def co_plan_of_def
  insert_activation_def replace_inventory_def Let_def

lemmas ex_co_defs = ex_co_def ex_activation_def ex_services_def fake_services_def ex_ids

lemma ex_sel [simp]: "pl_predecessor ex_plan = ex_predecessor" "pl_obligations ex_plan = [ex_obligation]"
  "ob_required_ordinals ex_obligation = [0]" "pl_plugins ex_plan = [ex_plugin]"
  "ps_generation ex_predecessor = 0" "ps_plan_id ex_predecessor = None"
  by (simp_all add: ex_plan_def ex_obligation_def ex_predecessor_def)

lemma ex_co_plan: "co_plan ex_sha ex_services A ex_plan ex_coordinator = (Inr ''plan:sha256:00'', ex_co_planned)"
  by (simp add: co_plan_def co_basic_defs ex_co_defs ex_coordinator_def co_new_def store_boot_def store_new_def
    no_evidence_targets_def fake_hold_predecessor_def ex_co_planned_def ex_env_def ex_journal_planned_def)

lemma ex_co_prepare: "co_prepare ex_sha ex_services A ''plan:sha256:00'' ex_co_planned = (Inr (), ex_co_prepared)"
  by (simp add: co_prepare_def co_basic_defs ex_co_defs ex_co_planned_def ex_co_prepared_def fake_prepare_def
    ex_journal_planned_def ex_journal_prepared_def ex_move_def ex_env_prepared_def)

lemma ex_co_launch: "co_launch ex_services ''plan:sha256:00'' ''l1'' ex_co_prepared = (Inr (), ex_co_launched)"
  by (simp add: co_launch_def co_basic_defs ex_co_defs ex_co_launched_def ex_co_prepared_def fake_launch_def
    ex_journal_planned_def ex_journal_prepared_def ex_journal_launched_def ex_move_def ex_env_prepared_def
    ex_env_launched_def ex_env_def)

lemma ex_process_known: "inventory_matches ''plan:sha256:00'' ex_attestation (co_db ex_co_launched)"
  by (simp add: inventory_matches_def ex_co_launched_def ex_co_def inventory_row_of_def ex_attestation_def ex_process_def)

lemma ex_attestation_sel:
  "at_plan_id ex_attestation = ''plan:sha256:00''" "at_launch_id ex_attestation = ''l1''"
  "at_artifact_id ex_attestation = ''plugin:sha256:00''" "at_event ex_attestation = ''loaded''"
  by (simp_all add: ex_attestation_def)

text \<open>Any verifier that accepts the attestation gives the same run.\<close>

lemma ex_co_observe_by:
  assumes "\<And>h. sv_verify S ex_attestation 10 ex_plan h = (Inr (), h)"
  shows "co_observe ex_sha S ''plan:sha256:00'' ex_attestation (Some 10) ex_co_launched = (Inr (), ex_co_observed)"
  using ex_process_known
  by (simp add: assms co_observe_def co_basic_defs ex_co_defs ex_co_launched_def ex_co_observed_def
    ex_journal_planned_def ex_journal_prepared_def ex_journal_launched_def ex_journal_observed_def ex_move_def
    ex_evidence_def ex_attestation_sel observing_states_def)

lemma ex_co_observe:
  "co_observe ex_sha ex_services ''plan:sha256:00'' ex_attestation (Some 10) ex_co_launched = (Inr (), ex_co_observed)"
  by (rule ex_co_observe_by) (simp add: ex_services_def fake_services_def fake_verify_def ex_attestation_def py_defs)

lemma ex_complete: "store_evidence_complete ex_sha ex_plan 0 1 (co_db ex_co_observed)"
  by (simp add: store_evidence_complete_def no_evidence_targets_def process_epochs_def live_evidence_def ex_ids
    ex_co_observed_def ex_co_def ex_evidence_def evidence_row_of_def inventory_row_of_def ex_attestation_def
    ex_process_def ex_obligation_def)

lemma ex_co_commit:
  "co_commit ex_sha ex_services A ''plan:sha256:00'' 0 ex_co_observed = (Inr 1, ex_co_effective)"
  using ex_complete
  by (simp add: co_commit_def commit_wal_def co_basic_defs ex_co_defs ex_co_effective_def ex_co_observed_def fake_activate_def
    ex_journal_planned_def ex_journal_prepared_def ex_journal_launched_def ex_journal_observed_def
    ex_journal_effective_def ex_move_def ex_env_active_def ex_env_launched_def ex_env_prepared_def ex_env_def)

lemmas ex_co_runs = ex_co_plan ex_co_prepare ex_co_launch ex_co_observe ex_co_commit

end
