(* ===== verification/Coordinator_Safety.thy ===== *)
theory Coordinator_Safety
  imports Coordinator_Invariant Coordinator_Run
begin

section \<open>The durable coordinator: what its operations guarantee\<close>

text \<open>
  Consequences of the invariant for every deployment (\<open>co_reachable\<close>), and what a commit, a
  rollback, an observation and a recovery do to the store.
\<close>

subsection \<open>The journal determines the state\<close>

definition state_edges :: "(state \<times> state) set" where
  "state_edges = {(a, b). \<exists>ts. transitions a = Some ts \<and> b \<in> ts}"

lemma state_value_inject [simp]: "state_value a = state_value b \<longleftrightarrow> a = b"
  by (cases a; cases b) simp_all

lemma journal_path_Nil: "journal_path [] s \<longleftrightarrow> s = None"
  by (auto elim: journal_path.cases intro: journal_path.empty)

lemma journal_path_snoc:
  "journal_path (rs @ [r]) s \<longleftrightarrow> (\<exists>s0 t. journal_path rs s0 \<and> journal_step s0 r t \<and> s = Some t)"
  by (subst journal_path.simps) auto

lemma journal_path_unique: "journal_path rs s \<Longrightarrow> journal_path rs s' \<Longrightarrow> s = s'"
proof (induction arbitrary: s' rule: journal_path.induct)
  case empty
  then show ?case by (simp add: journal_path_Nil)
next
  case (step rs s r t)
  from step.prems obtain s0 t' where "journal_path rs s0" "journal_step s0 r t'" "s' = Some t'"
    by (auto simp: journal_path_snoc)
  moreover from this(1) have "s0 = s" using step.IH by simp
  ultimately show ?case using step.hyps(2)
    by (auto simp: journal_step_def split: option.splits)
qed

lemma journal_path_extends:
  "journal_path rs (Some s) \<Longrightarrow> journal_path (rs @ rs') t \<Longrightarrow> \<exists>t'. t = Some t' \<and> (s, t') \<in> state_edges\<^sup>*"
proof (induction rs' arbitrary: t rule: rev_induct)
  case Nil
  then show ?case using journal_path_unique by force
next
  case (snoc r rs')
  from snoc.prems(2) obtain s0 t' where s0: "journal_path (rs @ rs') s0" "journal_step s0 r t'" "t = Some t'"
    by (auto simp: journal_path_snoc simp flip: append_assoc)
  with snoc.IH [OF snoc.prems(1)] obtain u where u: "s0 = Some u" "(s, u) \<in> state_edges\<^sup>*" by blast
  with s0(2) have "(u, t') \<in> state_edges" by (auto simp: journal_step_def state_edges_def)
  with u(2) s0(3) show ?case by (auto intro: rtrancl_into_rtrancl)
qed

lemma store_inv_path:
  assumes "store_inv sha d" and "activation_of pid d = Some row"
  shows "journal_path (transition_rows pid (st_journal d)) (Some (ac_state row))"
  using assms activation_of_Some [OF assms(2)] by (auto simp: store_inv_def activation_ok_def)

lemma store_extends_row:
  assumes "store_extends d d'" and "store_inv sha d'" and "activation_of pid d = Some row"
  obtains row' where "activation_of pid d' = Some row'" and "activation_key row' = activation_key row"
proof -
  from activation_of_Some [OF assms(3)] have row: "row \<in> set (st_activations d)" "ac_plan_id row = pid" by auto
  then have "activation_key row \<in> set (map activation_key (st_activations d))" by simp
  with assms(1) have "activation_key row \<in> set (map activation_key (st_activations d'))"
    unfolding store_extends_def by (meson set_mono_prefix subsetD)
  then obtain r where r: "r \<in> set (st_activations d')" "activation_key r = activation_key row"
    by (metis (no_types) imageE list.set_map)
  with row have pid: "ac_plan_id r = pid" by (simp add: activation_key_def)
  with r have "known pid d'" by (auto simp: known_def)
  then obtain row' where row': "activation_of pid d' = Some row'"
    using activation_of_None by (cases "activation_of pid d'") blast+
  with r(1) pid assms(2) have "row' = r"
    using activation_of_Some [OF row'] by (auto simp: store_inv_def distinct_map inj_on_def)
  with that row' r(2) show ?thesis by simp
qed

lemma store_extends_state:
  assumes ext: "store_extends d d'" and inv: "store_inv sha d" "store_inv sha d'"
    and row: "activation_of pid d = Some row" "activation_of pid d' = Some row'"
  shows "(ac_state row, ac_state row') \<in> state_edges\<^sup>*"
proof -
  from ext obtain js where "st_journal d' = st_journal d @ js"
    by (auto simp: store_extends_def prefix_def)
  then have "transition_rows pid (st_journal d') = transition_rows pid (st_journal d) @ transition_rows pid js"
    by (simp add: transition_rows_def)
  with store_inv_path [OF inv(2) row(2)] journal_path_extends [OF store_inv_path [OF inv(1) row(1)]]
  show ?thesis by fastforce
qed

subsection \<open>Runs\<close>

abbreviation co_run :: "(string \<Rightarrow> string) \<Rightarrow> ('h, 'e) coordinator \<Rightarrow> ('h, 'e) coordinator \<Rightarrow> bool" where
  "co_run sha \<equiv> (co_step sha)\<^sup>*\<^sup>*"

lemma co_run_ok: "co_run sha c c' \<Longrightarrow> co_reachable sha c \<Longrightarrow> co_reachable sha c' \<and> store_extends (co_db c) (co_db c')"
proof (induction rule: rtranclp_induct)
  case (step c' c'')
  then have "store_ok sha (co_db c') (co_db c'')" by (intro co_step_ok co_reachable_inv) auto
  with step show ?case by (auto simp: store_ok_def intro: store_extends_trans co_reachable.step)
qed simp

lemma ex_co_steps:
  "co_step ex_sha ex_coordinator ex_co_planned" "co_step ex_sha ex_co_planned ex_co_prepared"
  "co_step ex_sha ex_co_prepared ex_co_launched" "co_step ex_sha ex_co_launched ex_co_observed"
  "co_step ex_sha ex_co_observed ex_co_effective"
proof -
  have "json_wf (plan_dict ex_plan)" by (simp add: json_wf_plan ex_predecessor_def)
  from co_step.quiet [OF co_quiet_step.plan [OF this, of ex_sha ex_coordinator ex_services]]
  show "co_step ex_sha ex_coordinator ex_co_planned" by (simp only: ex_co_plan snd_conv)
  from co_step.quiet [OF co_quiet_step.prepare [of ex_sha ex_co_planned ex_services _ "''plan:sha256:00''"]]
  show "co_step ex_sha ex_co_planned ex_co_prepared" by (simp only: ex_co_prepare snd_conv)
  from co_step.quiet [OF co_quiet_step.launch [of ex_sha ex_co_prepared ex_services "''plan:sha256:00''" "''l1''"]]
  show "co_step ex_sha ex_co_prepared ex_co_launched" by (simp only: ex_co_launch snd_conv)
  from co_step.observe [of ex_sha ex_co_launched ex_services "''plan:sha256:00''" ex_attestation "Some 10"]
  show "co_step ex_sha ex_co_launched ex_co_observed" by (simp only: ex_co_observe snd_conv)
  from co_step.quiet [OF co_quiet_step.commit [of ex_sha ex_co_observed ex_services _ "''plan:sha256:00''" 0]]
  show "co_step ex_sha ex_co_observed ex_co_effective" by (simp only: ex_co_commit snd_conv)
qed

lemma ex_co_reachable:
  "co_reachable ex_sha ex_coordinator" "co_reachable ex_sha ex_co_planned" "co_reachable ex_sha ex_co_launched"
  "co_reachable ex_sha ex_co_observed" "co_reachable ex_sha ex_co_effective"
proof -
  show *: "co_reachable ex_sha ex_coordinator"
    unfolding ex_coordinator_def by (rule co_reachable.new)
  note r = co_reachable.step [OF * ex_co_steps(1)]
  show "co_reachable ex_sha ex_co_planned" by (rule r)
  note r = co_reachable.step [OF co_reachable.step [OF r ex_co_steps(2)] ex_co_steps(3)]
  show "co_reachable ex_sha ex_co_launched" by (rule r)
  note r = co_reachable.step [OF r ex_co_steps(4)]
  show "co_reachable ex_sha ex_co_observed" by (rule r)
  show "co_reachable ex_sha ex_co_effective" by (rule co_reachable.step [OF r ex_co_steps(5)])
qed

lemma final_states: "transitions s = Some {} \<Longrightarrow> (s, t) \<in> state_edges\<^sup>* \<Longrightarrow> t = s"
  by (erule converse_rtranclE) (simp_all add: state_edges_def)

text \<open>
  C2. In every deployment (any calls, failing services, injected faults, crashes with restarts) an
  activation that is in the store stays there with its plan and predecessor unchanged, the journal
  is append-only, and the transition rows of the journal replay to the durable state: they start
  with the plan row and every further row names an edge of \<open>TRANSITIONS\<close> from the state before.
  Later states are reached along \<open>TRANSITIONS\<close>, and the terminal states \<open>RolledBack\<close>,
  \<open>FailedSafe\<close> and \<open>SafetyUnknown\<close> are never left.
\<close>

theorem coordinator_journal_replays:
  assumes "co_reachable sha c" and "activation_of pid (co_db c) = Some row" and "co_run sha c c'"
  shows "\<exists>row'. activation_of pid (co_db c') = Some row' \<and> activation_key row' = activation_key row
     \<and> journal_path (transition_rows pid (st_journal (co_db c'))) (Some (ac_state row'))
     \<and> prefix (st_journal (co_db c)) (st_journal (co_db c'))
     \<and> (ac_state row, ac_state row') \<in> state_edges\<^sup>*
     \<and> (ac_state row \<in> {RolledBack, FailedSafe, SafetyUnknown} \<longrightarrow> ac_state row' = ac_state row)"
proof -
  from co_run_ok [OF assms(3,1)] have reach: "co_reachable sha c'" and ext: "store_extends (co_db c) (co_db c')" by auto
  note inv = co_reachable_inv [OF assms(1)] co_reachable_inv [OF reach]
  from store_extends_row [OF ext inv(2) assms(2)] obtain row'
    where row': "activation_of pid (co_db c') = Some row'" "activation_key row' = activation_key row" .
  have edges: "(ac_state row, ac_state row') \<in> state_edges\<^sup>*"
    by (rule store_extends_state [OF ext inv assms(2) row'(1)])
  have "ac_state row' = ac_state row" if "ac_state row \<in> {RolledBack, FailedSafe, SafetyUnknown}"
    using that by (intro final_states [OF _ edges]) auto
  then show ?thesis
    using row' edges store_inv_path [OF inv(2) row'(1)] ext by (auto simp: store_extends_def)
qed

theorem coordinator_journal_replays_witness:
  "co_reachable ex_sha (ex_co_planned :: (fake_env, det_traffic) coordinator)
   \<and> activation_of ''plan:sha256:00'' (co_db (ex_co_planned :: (fake_env, det_traffic) coordinator)) = Some (ex_activation Planned None)
   \<and> (\<exists>row'. activation_of ''plan:sha256:00'' (co_db (ex_co_effective :: (fake_env, det_traffic) coordinator)) = Some row'
     \<and> journal_path (transition_rows ''plan:sha256:00'' (st_journal (co_db (ex_co_effective :: (fake_env, det_traffic) coordinator))))
         (Some (ac_state row'))
     \<and> (Planned, ac_state row') \<in> state_edges\<^sup>*)"
proof -
  let ?c = "ex_co_planned :: (fake_env, det_traffic) coordinator"
  let ?c' = "ex_co_effective :: (fake_env, det_traffic) coordinator"
  have row: "activation_of ''plan:sha256:00'' (co_db ?c) = Some (ex_activation Planned None)"
    by (simp add: activation_of_def ex_co_planned_def ex_co_def ex_activation_def)
  have run: "co_run ex_sha ?c ?c'"
    using ex_co_steps by (meson r_into_rtranclp rtranclp.rtrancl_into_rtrancl)
  from coordinator_journal_replays [OF ex_co_reachable(2) row run] ex_co_reachable(2) row show ?thesis
    by (auto simp: ex_activation_def)
qed

subsection \<open>Generations\<close>

lemma commit_row_plan:
  assumes inv: "store_inv sha d" and i: "i < length (commit_rows (st_journal d))"
    and row: "activation_of (jr_plan_id (commit_rows (st_journal d) ! i)) d = Some row"
    and p: "plan_from_json (ac_plan_json row) = Inr p"
  shows "ps_generation (pl_predecessor p) = int i"
proof -
  from inv i have "commit_row_ok (st_activations d) (commit_rows (st_journal d) ! i) i" by (simp add: store_inv_def)
  then obtain a q where a: "a \<in> set (st_activations d)" "ac_plan_id a = jr_plan_id (commit_rows (st_journal d) ! i)"
      "plan_from_json (ac_plan_json a) = Inr q" "ps_generation (pl_predecessor q) = int i"
    by (auto simp: commit_row_ok_def)
  with inv activation_of_Some [OF row] have "a = row" by (auto simp: store_inv_def distinct_map inj_on_def)
  with a p show ?thesis by simp
qed

lemma commit_row_known:
  assumes inv: "store_inv sha d" and i: "i < length (commit_rows (st_journal d))"
  obtains row p where "activation_of (jr_plan_id (commit_rows (st_journal d) ! i)) d = Some row"
    and "plan_from_json (ac_plan_json row) = Inr p"
proof -
  from inv i have "commit_row_ok (st_activations d) (commit_rows (st_journal d) ! i) i" by (simp add: store_inv_def)
  then obtain a q where a: "a \<in> set (st_activations d)" "ac_plan_id a = jr_plan_id (commit_rows (st_journal d) ! i)"
      "plan_from_json (ac_plan_json a) = Inr q" by (auto simp: commit_row_ok_def)
  then have "known (jr_plan_id (commit_rows (st_journal d) ! i)) d" by (force simp: known_def)
  then obtain row where row: "activation_of (jr_plan_id (commit_rows (st_journal d) ! i)) d = Some row"
    using activation_of_None by (cases "activation_of (jr_plan_id (commit_rows (st_journal d) ! i)) d") blast+
  with inv a activation_of_Some [OF row] have "a = row" by (auto simp: store_inv_def distinct_map inj_on_def)
  with a row that show ?thesis by blast
qed

lemma commit_rows_distinct:
  assumes inv: "store_inv sha d"
  shows "distinct (map jr_plan_id (commit_rows (st_journal d)))"
  unfolding distinct_conv_nth
proof (intro allI impI notI)
  let ?rs = "commit_rows (st_journal d)"
  fix i j assume ij: "i < length (map jr_plan_id ?rs)" "j < length (map jr_plan_id ?rs)" "i \<noteq> j"
    and eq: "map jr_plan_id ?rs ! i = map jr_plan_id ?rs ! j"
  then obtain row p where row: "activation_of (jr_plan_id (?rs ! i)) d = Some row" "plan_from_json (ac_plan_json row) = Inr p"
    using commit_row_known [OF inv] by auto
  moreover from row(1) eq ij have "activation_of (jr_plan_id (?rs ! j)) d = Some row" by simp
  ultimately have "int i = int j" using commit_row_plan [OF inv] ij by (metis length_map)
  with ij show False by simp
qed

text \<open>
  C28. The generation of the store counts the commits: it equals the number of commit records in the
  journal, the \<open>i\<close>-th commit record is of an activation whose plan names generation \<open>i\<close> as its
  predecessor and records \<open>i\<close> as the generation it moved from, and no plan has two commit records.
\<close>

theorem coordinator_generation_counts_commits:
  assumes "co_reachable sha c"
  shows "st_generation (co_db c) = int (length (commit_rows (st_journal (co_db c))))
     \<and> (\<forall>i < length (commit_rows (st_journal (co_db c))).
         let r = commit_rows (st_journal (co_db c)) ! i in
         jr_detail_json r = canonical_bytes (JObj [(''from'', JInt (int i))]) \<and>
         (\<exists>row p. activation_of (jr_plan_id r) (co_db c) = Some row \<and> plan_from_json (ac_plan_json row) = Inr p \<and>
            ps_generation (pl_predecessor p) = int i))
     \<and> distinct (map jr_plan_id (commit_rows (st_journal (co_db c))))"
proof (intro conjI allI impI)
  note inv = co_reachable_inv [OF assms]
  let ?rs = "commit_rows (st_journal (co_db c))"
  show "st_generation (co_db c) = int (length ?rs)" using inv by (simp add: store_inv_def)
  show "distinct (map jr_plan_id ?rs)" by (rule commit_rows_distinct [OF inv])
  fix i assume i: "i < length ?rs"
  then have "jr_detail_json (?rs ! i) = canonical_bytes (JObj [(''from'', JInt (int i))])"
    using inv by (simp add: store_inv_def commit_row_ok_def)
  moreover from commit_row_known [OF inv i] obtain row p where
    "activation_of (jr_plan_id (?rs ! i)) (co_db c) = Some row" "plan_from_json (ac_plan_json row) = Inr p" .
  ultimately show "let r = ?rs ! i in jr_detail_json r = canonical_bytes (JObj [(''from'', JInt (int i))]) \<and>
      (\<exists>row p. activation_of (jr_plan_id r) (co_db c) = Some row \<and> plan_from_json (ac_plan_json row) = Inr p \<and>
         ps_generation (pl_predecessor p) = int i)"
    using commit_row_plan [OF inv i] by (simp add: Let_def)
qed

theorem coordinator_generation_counts_commits_witness:
  "co_reachable ex_sha (ex_co_effective :: (fake_env, det_traffic) coordinator) \<and>
   int (length (commit_rows (st_journal (co_db (ex_co_effective :: (fake_env, det_traffic) coordinator))))) = 1"
proof -
  have "st_generation (co_db (ex_co_effective :: (fake_env, det_traffic) coordinator)) = 1"
    by (simp add: ex_co_effective_def ex_co_def)
  with coordinator_generation_counts_commits [OF ex_co_reachable(5)] ex_co_reachable(5) show ?thesis by metis
qed

subsection \<open>Commit\<close>

lemma pwp_never: "pwp view (andthen m (raise e)) Q (\<lambda>_ _. True) d"
  by (rule pwpI) (auto simp: run_iffs raise_def)

lemma activation_of_generation [simp]: "activation_of pid (d\<lparr>st_generation := n\<rparr>) = activation_of pid d"
  by (simp add: activation_of_def)

lemma commit_ready_from: "transitions s = Some ts \<Longrightarrow> CommitReady \<in> ts \<Longrightarrow> s = Observing"
  by (cases s) auto

definition journal_entry :: "journal_row \<Rightarrow> string \<times> string \<times> string" where
  "journal_entry r = (jr_plan_id r, jr_kind r, jr_operation r)"

text \<open>The effect of a commit on the store.\<close>

definition store_committed :: "string \<Rightarrow> int \<Rightarrow> int \<Rightarrow> store_db \<Rightarrow> store_db \<Rightarrow> bool" where
  "store_committed pid expected g d d' \<longleftrightarrow>
     (\<exists>row p. activation_of pid d = Some row \<and> ac_state row = Observing
        \<and> plan_from_json (ac_plan_json row) = Inr p \<and> ps_generation (pl_predecessor p) = expected
        \<and> activation_of pid d' = Some (row\<lparr>ac_state := Effective\<rparr>))
     \<and> st_generation d = expected \<and> g = expected + 1 \<and> st_generation d' = g
     \<and> map journal_entry (st_journal d') = map journal_entry (st_journal d) @
         [(pid, ''transition'', ''CommitReady''), (pid, ''wal'', ''commit''), (pid, ''receipt'', ''commit''),
          (pid, ''transition'', ''Effective'')]
     \<and> st_evidence d' = st_evidence d \<and> st_inventory d' = st_inventory d"

lemma st_inventory_sel [simp]: "st_inventory (update_activation pid f d) = st_inventory d"
  by (simp add: update_activation_def)

lemma cwp_commit_wal_exact:
  assumes "activation_of pid d = Some row"
    and "\<And>t t'. ac_state row = Observing \<Longrightarrow> st_generation d = expected \<Longrightarrow> ps_generation (pl_predecessor p) = expected \<Longrightarrow>
      Q () ((db_journal pid ''wal'' ''commit'' (JObj [(''from'', JInt expected)]) t'
        (db_journal pid ''transition'' ''CommitReady'' (JObj [(''from'', JStr ''Observing'')]) t
          (update_activation pid (\<lambda>r. r\<lparr>ac_state := CommitReady\<rparr>) d)))\<lparr>st_generation := expected + 1\<rparr>)"
  shows "cwp (commit_wal pid p expected) Q (\<lambda>_ _. True) d"
  unfolding commit_wal_def
  by (intro cwp_txn pwp_andthen cwp_transition cwp_journal pwp_bind cwp_gets_db pwp_If cwp_modify_db pwp_ret pwp_require TrueI)
    (use assms in \<open>auto dest: commit_ready_from\<close>)

lemma store_committed_final:
  assumes "activation_of pid d = Some row" "plan_from_json (ac_plan_json row) = Inr p" "ac_state row = Observing"
    "st_generation d = expected" "ps_generation (pl_predecessor p) = expected"
    and d1: "d1 = (db_journal pid ''wal'' ''commit'' detail t'
        (db_journal pid ''transition'' ''CommitReady'' detail' t
          (update_activation pid (\<lambda>r. r\<lparr>ac_state := CommitReady\<rparr>) d)))\<lparr>st_generation := expected + 1\<rparr>"
  shows "store_committed pid expected (st_generation d1) d
    (db_journal pid ''transition'' (state_value Effective) f now
      (update_activation pid (\<lambda>r. r\<lparr>ac_state := Effective\<rparr>) (db_journal pid ''receipt'' ''commit'' h now' d1)))"
    (is "store_committed pid expected _ d ?d2")
proof -
  have "activation_of pid d1 = Some (row\<lparr>ac_state := CommitReady\<rparr>)"
    using assms(1) by (simp add: d1 activation_of_update)
  then have "activation_of pid ?d2 = Some (row\<lparr>ac_state := Effective\<rparr>)"
    by (simp add: activation_of_update)
  then show ?thesis
    using assms(1-5) by (simp add: store_committed_def journal_entry_def d1)
qed

lemma cwp_commit_exact:
  "cwp (co_commit sha S A pid expected) (\<lambda>g. store_committed pid expected g d) (\<lambda>_ _. True) d"
  unfolding co_commit_def co_open_proof_def
  by (rule pwp_bind cwp_plan_of cwp_on_env pwp_If pwp_never cwp_now pwp_andthen pwp_require cwp_gets_db cwp_gets
      cwp_commit_wal_exact cwp_fault_hit cwp_has_gate cwp_on_gate pwp_ret cwp_txn cwp_journal cwp_transition TrueI
      store_committed_final refl | assumption)+

text \<open>The evidence that a commit has seen is complete: database and manager epoch together.\<close>

abbreviation ewp ::
  "('h, 'e, 'a) cm \<Rightarrow> ('a \<Rightarrow> store_db \<times> int \<Rightarrow> bool) \<Rightarrow> (py_exn \<Rightarrow> store_db \<times> int \<Rightarrow> bool) \<Rightarrow> store_db \<times> int \<Rightarrow> bool" where
  "ewp \<equiv> pwp (\<lambda>c. (co_db c, co_manager_epoch c))"

lemma pwp_trivial: "(\<And>x d. Q x d) \<Longrightarrow> (\<And>e d. E e d) \<Longrightarrow> pwp view m Q E d"
  by (rule pwpI) simp_all

lemma ewp_gets: "Q (f ep d) (d, ep) \<Longrightarrow> ewp (gets (\<lambda>c. f (co_manager_epoch c) (co_db c))) Q E (d, ep)"
  by (simp add: pwp_def py_defs)

lemma ewp_on_env: "(\<And>x. Q x d) \<Longrightarrow> (\<And>e. E e d) \<Longrightarrow> ewp (on_env m) Q E d"
  unfolding on_env_def by (rule pwp_zoom) simp_all

lemma ewp_now: "(\<And>t. Q t d) \<Longrightarrow> ewp co_now Q E d"
  by (auto simp: pwp_def co_now_def py_defs)

lemma ewp_plan_of:
  "(\<And>row p. activation_of pid d = Some row \<Longrightarrow> plan_from_json (ac_plan_json row) = Inr p \<Longrightarrow> Q p (d, ep)) \<Longrightarrow>
   (\<And>e. E e (d, ep)) \<Longrightarrow> ewp (co_plan_of pid) Q E (d, ep)"
  by (auto simp: pwp_def co_plan_of_def co_row_def py_defs split: option.splits sum.splits)

definition commit_evidence :: "(string \<Rightarrow> string) \<Rightarrow> string \<Rightarrow> int \<Rightarrow> store_db \<Rightarrow> bool" where
  "commit_evidence sha pid epoch d \<longleftrightarrow> (\<exists>row p now. activation_of pid d = Some row \<and>
     plan_from_json (ac_plan_json row) = Inr p \<and> store_evidence_complete sha p now epoch d)"

lemma ewp_commit: "ewp (co_commit sha S A pid expected) (\<lambda>_ _. commit_evidence sha pid ep d) (\<lambda>_ _. True) (d, ep)"
  unfolding co_commit_def
proof (rule pwp_bind, rule ewp_plan_of, rule pwp_bind, rule ewp_on_env, rule pwp_If, rule pwp_never, rule pwp_bind,
    rule ewp_now, rule pwp_bind, rule ewp_gets, rule pwp_andthen, rule pwp_require)
  fix row p t
  assume "activation_of pid d = Some row" "plan_from_json (ac_plan_json row) = Inr p"
    "store_evidence_complete sha p t ep d"
  then have "commit_evidence sha pid ep d" by (auto simp: commit_evidence_def)
  then show "ewp m (\<lambda>_ _. commit_evidence sha pid ep d) (\<lambda>_ _. True) (d, ep)" for m :: "('a, 'b, int) cm"
    by (intro pwp_trivial) simp_all
qed simp_all

lemma commit_saw_evidence:
  "co_commit sha S A pid expected c = (Inr g, c') \<Longrightarrow> commit_evidence sha pid (co_manager_epoch c) (co_db c)"
  by (drule pwp_Inr [OF ewp_commit, rotated]) simp

text \<open>
  C3. A commit that returns has seen complete evidence of its own manager epoch (every obligation of
  the stored plan, every required ordinal, matched to the current inventory and unexpired), found
  the activation observing and the store at the expected generation, which is the predecessor
  generation of the plan; it returns that generation plus one, which the store now has, leaves the
  activation \<open>Effective\<close>, and adds exactly the write-ahead record before and the receipt after
  the activation of the traffic to the journal.
\<close>

theorem coordinator_commit_sound:
  assumes "co_commit sha S A pid expected c = (Inr g, c')"
  shows "commit_evidence sha pid (co_manager_epoch c) (co_db c) \<and> store_committed pid expected g (co_db c) (co_db c')"
  using commit_saw_evidence [OF assms] pwp_Inr [OF cwp_commit_exact assms] by simp

theorem coordinator_commit_sound_witness:
  "co_commit ex_sha ex_services det_adapter ''plan:sha256:00'' 0 ex_co_observed = (Inr 1, ex_co_effective)
   \<and> store_committed ''plan:sha256:00'' 0 1 (co_db (ex_co_observed :: (fake_env, det_traffic) coordinator))
       (co_db (ex_co_effective :: (fake_env, det_traffic) coordinator))"
  using coordinator_commit_sound [OF ex_co_commit [of det_adapter]] ex_co_commit [of det_adapter] by simp

text \<open>
  C40. A plan whose journal has a commit record can never be committed again, whatever happens in
  between: also when the first commit was interrupted before the traffic was activated and recovery
  put the activation back to \<open>Reconcile\<close>, since the write-ahead transaction has already used up the
  generation the plan names as its predecessor.
\<close>

theorem coordinator_never_recommits:
  assumes "co_reachable sha c" and "pid \<in> set (map jr_plan_id (commit_rows (st_journal (co_db c))))"
    and "co_run sha c c'"
  shows "\<exists>e. fst (co_commit sha S A pid expected c') = Inl e"
proof (cases "co_commit sha S A pid expected c'")
  case (Pair r c'')
  show ?thesis
  proof (cases r)
    case (Inr g)
    with Pair have run: "co_commit sha S A pid expected c' = (Inr g, c'')" by simp
    from co_run_ok [OF assms(3,1)] have inv: "store_inv sha (co_db c')" and
      "prefix (st_journal (co_db c)) (st_journal (co_db c'))"
      by (auto dest: co_reachable_inv simp: store_extends_def)
    then have "prefix (commit_rows (st_journal (co_db c))) (commit_rows (st_journal (co_db c')))"
      by (auto simp: prefix_def commit_rows_def)
    with assms(2) have "pid \<in> set (map jr_plan_id (commit_rows (st_journal (co_db c'))))"
      by (auto dest!: set_mono_prefix)
    then obtain i where i: "i < length (commit_rows (st_journal (co_db c')))"
        "pid = jr_plan_id (commit_rows (st_journal (co_db c')) ! i)"
      by (auto simp: in_set_conv_nth)
    from pwp_Inr [OF cwp_commit_exact run] obtain row p where "activation_of pid (co_db c') = Some row"
        "plan_from_json (ac_plan_json row) = Inr p" "ps_generation (pl_predecessor p) = st_generation (co_db c')"
      by (auto simp: store_committed_def)
    with i inv commit_row_plan [OF inv i(1)] show ?thesis by (auto simp: store_inv_def)
  qed (simp add: Pair)
qed

theorem coordinator_never_recommits_witness:
  "co_reachable ex_sha (ex_co_effective :: (fake_env, det_traffic) coordinator)
   \<and> ''plan:sha256:00'' \<in> set (map jr_plan_id (commit_rows (st_journal (co_db (ex_co_effective :: (fake_env, det_traffic) coordinator)))))
   \<and> (\<exists>e. fst (co_commit ex_sha ex_services det_adapter ''plan:sha256:00'' 1 ex_co_effective) = Inl e)"
proof -
  have rec: "''plan:sha256:00'' \<in> set (map jr_plan_id (commit_rows (st_journal (co_db (ex_co_effective :: (fake_env, det_traffic) coordinator)))))"
    by (simp add: commit_rows_def ex_co_effective_def ex_co_def ex_journal_effective_def ex_journal_observed_def
      ex_journal_launched_def ex_journal_prepared_def ex_journal_planned_def ex_move_def)
  from coordinator_never_recommits [OF ex_co_reachable(5) rec rtranclp.rtrancl_refl] ex_co_reachable(5) rec
  show ?thesis by blast
qed

subsection \<open>Evidence\<close>

lemma no_live_evidence:
  assumes "live_evidence (plan_id sha p) epoch d = []"
  shows "\<not> store_evidence_complete sha p now epoch d"
proof
  assume complete: "store_evidence_complete sha p now epoch d"
  then have "\<not> no_evidence_targets p" by (simp add: store_evidence_complete_def)
  then obtain b bs i ords where "pl_obligations p = b # bs" "ob_required_ordinals b = i # ords"
    by (auto simp: no_evidence_targets_def list_ex_iff neq_Nil_conv)
  with complete assms show False by (simp add: store_evidence_complete_def Let_def split: option.splits)
qed

text \<open>The stored plan has the identity under which it is stored.\<close>

lemma stored_plan_id:
  assumes "store_inv sha d" and "activation_of pid d = Some row" and "plan_from_json (ac_plan_json row) = Inr p"
  shows "plan_id sha p = pid"
proof -
  from activation_of_Some [OF assms(2)] have "row \<in> set (st_activations d)" and pid: "ac_plan_id row = pid" by auto
  with assms(1) obtain q where "json_wf (plan_dict q)" "ac_plan_id row = plan_id sha q"
      "ac_plan_json row = canonical_bytes (plan_dict q)"
    by (auto simp: store_inv_def activation_ok_def)
  with assms(3) pid show ?thesis by (auto simp: plan_from_json_canonical)
qed

subsection \<open>Which operations touch the evidence\<close>

definition evidence_kept :: "(evidence_row \<Rightarrow> bool) \<Rightarrow> ('h, 'e) coordinator \<Rightarrow> ('h, 'e) coordinator \<Rightarrow> bool" where
  "evidence_kept P c c' \<longleftrightarrow> (list_all P (st_evidence (co_db c)) \<longrightarrow> list_all P (st_evidence (co_db c')))"

interpretation kept: evolution "evidence_kept P" for P :: "evidence_row \<Rightarrow> bool"
  by unfold_locales (auto simp: evidence_kept_def)

lemma kept_modify_db: "(\<And>d. st_evidence (f d) = st_evidence d) \<Longrightarrow> within (evidence_kept P) (modify_db f)"
  by (simp add: within_def modify_db_def evidence_kept_def py_defs)

lemma kept_txn: "within (evidence_kept P) m \<Longrightarrow> within (evidence_kept P) (co_txn m)"
  by (auto simp: within_def co_txn_def atomically_def evidence_kept_def split: prod.splits sum.splits)

lemma kept_on_env: "within (evidence_kept P) (on_env m)"
  by (simp add: within_def on_env_def zoom_def evidence_kept_def split: prod.splits)

lemma kept_on_gate: "within (evidence_kept P) (on_gate m)"
  by (simp add: within_def on_gate_def evidence_kept_def split: option.splits prod.splits)

lemma kept_modify: "(\<And>c. co_db (f c) = co_db c) \<Longrightarrow> within (evidence_kept P) (modify f)"
  by (simp add: within_def evidence_kept_def py_defs)

lemma within_case_prod: "(\<And>a b. within R (f a b)) \<Longrightarrow> within R (case x of (a, b) \<Rightarrow> f a b)"
  by (cases x) simp

lemmas kept_basic = kept.rules within_case_prod kept_txn kept_on_env kept_on_gate

lemma kept_now: "within (evidence_kept P) co_now"
  unfolding co_now_def by (intro kept_basic kept_modify) simp

lemma kept_fault_hit: "within (evidence_kept P) (fault_hit point)"
  unfolding fault_hit_def by (intro kept_basic kept_modify) simp

lemma kept_journal: "within (evidence_kept P) (co_journal pid kind operation detail)"
  unfolding co_journal_def by (intro kept_basic kept_now kept_modify_db) (simp add: db_journal_def)

lemma kept_outcome: "within (evidence_kept P) (co_outcome pid success detail)"
  unfolding co_outcome_def by (intro kept_basic kept_now kept_modify_db) (simp add: db_outcome_def)

lemma kept_row: "within (evidence_kept P) (co_row pid)"
  unfolding co_row_def by (intro kept_basic)

lemma kept_plan_of: "within (evidence_kept P) (co_plan_of pid)"
  unfolding co_plan_of_def by (intro kept_basic kept_row)

lemma kept_has_gate: "within (evidence_kept P) has_gate"
  unfolding has_gate_def by (rule kept.gets)

lemma kept_update: "within (evidence_kept P) (modify_db (update_activation pid f))"
  by (rule kept_modify_db) (simp add: update_activation_def)

lemma kept_transition: "within (evidence_kept P) (co_transition pid target)"
  unfolding co_transition_def Let_def by (intro kept_basic kept_row kept_update kept_journal)

lemmas kept_helpers = kept_now kept_fault_hit kept_journal kept_outcome kept_row kept_plan_of kept_has_gate
  kept_update kept_transition

lemma kept_plan: "within (evidence_kept P) (co_plan sha S A p)"
  unfolding co_plan_def Let_def insert_activation_def
  by (intro kept_basic kept_helpers kept_modify_db) (simp_all add: delete_plan_def)

lemma kept_prepare: "within (evidence_kept P) (co_prepare sha S A pid)"
  unfolding co_prepare_def by (intro kept_basic kept_helpers)

lemma kept_replace_inventory: "within (evidence_kept P) (replace_inventory pid processes)"
  unfolding replace_inventory_def by (intro kept_basic kept_modify_db) simp_all

lemma kept_launch: "within (evidence_kept P) (co_launch S pid launch_id)"
  unfolding co_launch_def by (intro kept_basic kept_helpers kept_replace_inventory)

lemma kept_gate_rollback_part: "within (evidence_kept P) (gate_rollback_part A generation host_error)"
  unfolding gate_rollback_part_def by (intro kept_basic)

lemma kept_rollback: "within (evidence_kept P) (co_rollback S A pid reason)"
  unfolding co_rollback_def Let_def by (intro kept_basic kept_helpers kept_gate_rollback_part)

lemma kept_lease_lost: "within (evidence_kept P) (co_external_lease_lost S A pid)"
  unfolding co_external_lease_lost_def by (intro kept_basic kept_helpers kept_rollback)

lemma kept_commit: "within (evidence_kept P) (co_commit sha S A pid expected)"
  unfolding co_commit_def commit_wal_def co_open_proof_def
  by (intro kept_basic kept_helpers kept_lease_lost kept_modify_db) simp

lemma kept_fail_close_state: "within (evidence_kept P) (fail_close_state A generation reason)"
  unfolding fail_close_state_def
  by (intro kept.bind kept_on_gate) (auto split: rollback_class.split intro: kept.ret kept.raise)

lemma kept_recover: "within (evidence_kept P) (co_recover sha S A pid)"
  unfolding co_recover_def Let_def recover_rollback_def recovered_target_def recover_commit_ready_def
    recover_to_reconcile_def co_state_of_def
  by (intro kept_basic kept_helpers kept_fail_close_state)

lemma kept_resume: "within (evidence_kept P) (co_resume_observing pid)"
  unfolding co_resume_observing_def by (intro kept_basic kept_helpers)

lemma kept_refresh:
  assumes "\<And>r. P r \<Longrightarrow> P (r\<lparr>ev_valid := False\<rparr>)"
  shows "within (evidence_kept P) (co_refresh_inventory pid processes)"
proof -
  have "within (evidence_kept P) (modify_db (\<lambda>d. d\<lparr>st_evidence :=
      map (\<lambda>r. if ev_plan_id r = pid then r\<lparr>ev_valid := False\<rparr> else r) (st_evidence d)\<rparr>))"
    using assms by (auto simp: within_def modify_db_def evidence_kept_def py_defs list_all_iff)
  then show ?thesis
    unfolding co_refresh_inventory_def by (intro kept_basic kept_helpers kept_replace_inventory)
qed

lemma within_snd: "within R m \<Longrightarrow> R c (snd (m c))"
  by (simp add: within_def)

lemmas kept_runs = kept_plan [THEN within_snd] kept_prepare [THEN within_snd] kept_launch [THEN within_snd]
  kept_commit [THEN within_snd] kept_rollback [THEN within_snd] kept_lease_lost [THEN within_snd]
  kept_recover [THEN within_snd] kept_resume [THEN within_snd]

lemma quiet_step_kept:
  assumes "co_quiet_step sha c c'" and valid: "\<And>r. P r \<Longrightarrow> P (r\<lparr>ev_valid := False\<rparr>)"
  shows "evidence_kept P c c'"
  using assms(1)
proof cases
  case (restart env g faults clock)
  with valid show ?thesis by (auto simp: evidence_kept_def store_boot_def Let_def list_all_iff)
next
  case environment
  then show ?thesis by (simp add: evidence_kept_def)
next
  case (refresh_inventory pid processes)
  have "within (evidence_kept P) (co_refresh_inventory pid processes)" by (rule kept_refresh) (rule valid)
  then show ?thesis unfolding refresh_inventory by (rule within_snd)
qed (simp_all only: kept_runs)

lemma cwp_observe_raises: "cwp (co_observe sha S pid item now) (\<lambda>_ _. True) (\<lambda>_ d'. d' = d) d"
  unfolding co_observe_def
  by (intro pwp_bind cwp_row pwp_andthen pwp_require pwp_lift_result pwp_case_option cwp_now pwp_ret cwp_on_env cwp_gets_db
    cwp_gets cwp_txn cwp_modify_db cwp_journal TrueI refl)

text \<open>A step in which no observation of the plan is accepted.\<close>

definition unobserved_step :: "(string \<Rightarrow> string) \<Rightarrow> string \<Rightarrow> ('h, 'e) coordinator \<Rightarrow> ('h, 'e) coordinator \<Rightarrow> bool" where
  "unobserved_step sha pid c c' \<longleftrightarrow> co_quiet_step sha c c' \<or>
     (\<exists>S q item now r. co_observe sha S q item now c = (r, c') \<and> (q = pid \<longrightarrow> (\<exists>e. r = Inl e)))"

lemma unobserved_step_co: "unobserved_step sha pid c c' \<Longrightarrow> co_step sha c c'"
  unfolding unobserved_step_def
proof (elim disjE exE conjE)
  fix S :: "'a services" and q item now r
  assume "co_observe sha S q item now c = (r, c')"
  with co_step.observe [of sha c S q item now] show "co_step sha c c'" by simp
qed (rule co_step.quiet)

definition revoked :: "string \<Rightarrow> evidence_row \<Rightarrow> bool" where
  "revoked pid r \<longleftrightarrow> (ev_plan_id r = pid \<longrightarrow> \<not> ev_valid r)"

lemma kept_observe:
  assumes "\<And>epoch. P (evidence_row_of pid epoch item)"
  shows "within (evidence_kept P) (co_observe sha S pid item now)"
proof -
  have "within (evidence_kept P) (modify_db (\<lambda>d. d\<lparr>st_evidence := st_evidence d @ [evidence_row_of pid epoch item]\<rparr>))" for epoch
    using assms by (simp add: within_def modify_db_def evidence_kept_def py_defs)
  then show ?thesis unfolding co_observe_def by (intro kept_basic kept_helpers)
qed

lemma unobserved_revoked:
  assumes "unobserved_step sha pid c c'"
  shows "evidence_kept (revoked pid) c c'"
  using assms unfolding unobserved_step_def
proof (elim disjE exE conjE)
  assume "co_quiet_step sha c c'"
  then show ?thesis by (rule quiet_step_kept) (simp add: revoked_def)
next
  fix S :: "'a services" and q item now r
  assume run: "co_observe sha S q item now c = (r, c')" and own: "q = pid \<longrightarrow> (\<exists>e. r = Inl e)"
  show ?thesis
  proof (cases "q = pid")
    case True
    with own run have "co_db c' = co_db c" using pwp_Inl [OF cwp_observe_raises] by auto
    then show ?thesis by (simp add: evidence_kept_def)
  next
    case False
    then have "within (evidence_kept (revoked pid)) (co_observe sha S q item now)"
      by (intro kept_observe) (simp add: revoked_def evidence_row_of_def)
    from within_snd [OF this, of c] run show ?thesis by simp
  qed
qed

lemma unobserved_run:
  assumes "(unobserved_step sha pid)\<^sup>*\<^sup>* c c'" and "co_reachable sha c" and "list_all (revoked pid) (st_evidence (co_db c))"
  shows "co_reachable sha c' \<and> list_all (revoked pid) (st_evidence (co_db c'))"
  using assms
proof (induction rule: rtranclp_induct)
  case (step c' c'')
  with unobserved_revoked [OF step.hyps(2)] show ?case
    by (auto simp: evidence_kept_def intro: co_reachable.step [OF _ unobserved_step_co])
qed simp

lemma revoked_evidence: "list_all (revoked pid) (st_evidence d) \<Longrightarrow> live_evidence pid epoch d = []"
  by (auto simp: live_evidence_def revoked_def list_all_iff filter_empty_conv)

lemma revoked_all: "list_all (revoked pid) (map (\<lambda>r. if ev_plan_id r = pid then r\<lparr>ev_valid := False\<rparr> else r) es)"
  by (induction es) (simp_all add: revoked_def)

lemma cwp_refreshed:
  "cwp (co_refresh_inventory pid processes) (\<lambda>_ d'. list_all (revoked pid) (st_evidence d')) (\<lambda>_ _. True) d"
  unfolding co_refresh_inventory_def replace_inventory_def
  by (intro pwp_bind cwp_row pwp_andthen pwp_require cwp_txn cwp_modify_db cwp_journal TrueI)
    (simp add: revoked_all)

text \<open>
  C34. Evidence does not survive a restart of the manager or a change of the inventory.  After a restart on
  the same store, or after a successful \<open>refresh_inventory\<close> of the plan, whatever calls follow in whatever
  order (\<open>recover\<close> and \<open>resume_observing\<close>, further restarts, calls for other plans and their observations,
  observations of this plan that are refused), with any services, gate, clock and faults: as long as no
  observation of the plan is accepted, a commit of it never returns.
\<close>

theorem coordinator_stale_evidence_blocks_commit:
  assumes "co_reachable sha c"
    and "c' = co_new (co_db c) env g faults clock \<or> co_refresh_inventory pid processes c = (Inr (), c')"
    and "(unobserved_step sha pid)\<^sup>*\<^sup>* c' c''"
  shows "\<exists>e. fst (co_commit sha S A pid expected c'') = Inl e"
proof (cases "co_commit sha S A pid expected c''")
  case (Pair r c3)
  have "co_reachable sha c'"
    using assms(2) co_reachable.step [OF assms(1) co_step.quiet [OF co_quiet_step.restart]]
      co_reachable.step [OF assms(1) co_step.quiet [OF co_quiet_step.refresh_inventory [of _ _ pid processes]]] by auto
  moreover have "list_all (revoked pid) (st_evidence (co_db c'))"
    using assms(2)
  proof (elim disjE)
    assume "co_refresh_inventory pid processes c = (Inr (), c')"
    then show ?thesis by (rule pwp_Inr [OF cwp_refreshed])
  qed (simp add: store_boot_def Let_def revoked_def list_all_iff)
  ultimately have reach: "co_reachable sha c''" and none: "live_evidence pid epoch (co_db c'') = []" for epoch
    using unobserved_run [OF assms(3)] revoked_evidence by blast+
  show ?thesis
  proof (cases r)
    case (Inr g')
    with Pair have "commit_evidence sha pid (co_manager_epoch c'') (co_db c'')" by (auto dest: commit_saw_evidence)
    then obtain row p now where p: "activation_of pid (co_db c'') = Some row" "plan_from_json (ac_plan_json row) = Inr p"
        "store_evidence_complete sha p now (co_manager_epoch c'') (co_db c'')"
      by (auto simp: commit_evidence_def)
    with stored_plan_id [OF co_reachable_inv [OF reach] p(1,2)] no_live_evidence none show ?thesis by blast
  qed (simp add: Pair)
qed

text \<open>The observed plan after a restart, recovered and resumed: it observes again, and cannot commit yet.\<close>

definition ex_co_resumed :: "(fake_env, det_traffic) coordinator" where
  "ex_co_resumed = snd (co_resume_observing ''plan:sha256:00'' (snd (co_recover ex_sha ex_services det_adapter ''plan:sha256:00''
     (co_new (co_db (ex_co_observed :: (fake_env, det_traffic) coordinator)) ex_env None {} (\<lambda>_. 0)))))"

lemma ex_co_resumed_state: "map_option ac_state (activation_of ''plan:sha256:00'' (co_db ex_co_resumed)) = Some Observing"
  by (simp add: ex_co_resumed_def co_resume_observing_def co_recover_def co_state_of_def ex_co_observed_def ex_co_defs
      co_basic_defs co_new_def store_boot_def ex_env_def fake_restore_def)

lemma ex_co_resumed_run:
  "(unobserved_step ex_sha ''plan:sha256:00'')\<^sup>*\<^sup>*
     (co_new (co_db (ex_co_observed :: (fake_env, det_traffic) coordinator)) ex_env None {} (\<lambda>_. 0)) ex_co_resumed"
proof -
  have recover: "unobserved_step ex_sha ''plan:sha256:00'' c (snd (co_recover ex_sha ex_services det_adapter ''plan:sha256:00'' c))"
    and resume: "unobserved_step ex_sha ''plan:sha256:00'' c (snd (co_resume_observing ''plan:sha256:00'' c))"
    for c :: "(fake_env, det_traffic) coordinator"
    unfolding unobserved_step_def by (intro disjI1 co_quiet_step.intros)+
  show ?thesis
    unfolding ex_co_resumed_def
    by (rule rtranclp.rtrancl_into_rtrancl, rule r_into_rtranclp, rule recover, rule resume)
qed

theorem coordinator_stale_evidence_blocks_commit_witness:
  "map_option ac_state (activation_of ''plan:sha256:00'' (co_db ex_co_resumed)) = Some Observing
   \<and> (\<exists>e. fst (co_commit ex_sha ex_services det_adapter ''plan:sha256:00'' 0 ex_co_resumed) = Inl e)"
  using coordinator_stale_evidence_blocks_commit [OF ex_co_reachable(4) disjI1 [OF refl] ex_co_resumed_run] ex_co_resumed_state
  by blast

text \<open>What an accepted attestation has satisfied.\<close>

definition evidence_accepted ::
  "(string \<Rightarrow> string) \<Rightarrow> 'h services \<Rightarrow> string \<Rightarrow> attestation \<Rightarrow> store_db \<Rightarrow> bool" where
  "evidence_accepted sha S pid item d \<longleftrightarrow> (\<exists>row p. activation_of pid d = Some row
     \<and> ac_state row \<in> observing_states \<and> plan_from_json (ac_plan_json row) = Inr p
     \<and> (\<exists>now h h'. sv_verify S item now p h = (Inr (), h'))
     \<and> at_plan_id item = pid \<and> ac_launch_id row = Some (at_launch_id item)
     \<and> at_artifact_id item \<in> set (map (plugin_id sha) (pl_plugins p))
     \<and> inventory_matches pid item d \<and> at_nonce item \<notin> set (map ev_nonce (st_evidence d)))"

lemma ewp_on_env_run: "(\<And>x h h'. m h = (Inr x, h') \<Longrightarrow> Q x d) \<Longrightarrow> ewp (on_env m) Q (\<lambda>_ _. True) d"
  by (auto simp: pwp_def on_env_def zoom_def split: prod.splits sum.splits)

lemma ewp_txn: "ewp m Q (\<lambda>_ _. True) d \<Longrightarrow> ewp (co_txn m) Q (\<lambda>_ _. True) d"
  by (rule pwpI) (auto simp: co_txn_def run_iffs dest: pwp_Inr [of "\<lambda>c. (co_db c, co_manager_epoch c)" m Q])

lemma ewp_row:
  "(\<And>row. activation_of pid d = Some row \<Longrightarrow> Q row (d, ep)) \<Longrightarrow> (\<And>e. E e (d, ep)) \<Longrightarrow> ewp (co_row pid) Q E (d, ep)"
  by (auto simp: pwp_def co_row_def py_defs split: option.splits)

lemma ewp_modify_db: "Q () (f d, ep) \<Longrightarrow> ewp (modify_db f) Q E (d, ep)"
  by (simp add: pwp_def modify_db_def py_defs)

lemma ewp_journal:
  "(\<And>now. Q () (db_journal pid kind operation detail now d, ep)) \<Longrightarrow> ewp (co_journal pid kind operation detail) Q E (d, ep)"
  by (simp add: pwp_def co_journal_def co_now_def modify_db_def py_defs)

lemma ewp_epoch: "Q ep (d, ep) \<Longrightarrow> ewp (gets co_manager_epoch) Q E (d, ep)"
  by (simp add: pwp_def py_defs)

lemma ewp_gets_db: "Q (f d) (d, ep) \<Longrightarrow> ewp (gets (\<lambda>c. f (co_db c))) Q E (d, ep)"
  by (simp add: pwp_def py_defs)

lemma ewp_observe:
  "ewp (co_observe sha S pid item now)
     (\<lambda>_ d'. evidence_accepted sha S pid item d \<and> st_evidence (fst d') = st_evidence d @ [evidence_row_of pid ep item])
     (\<lambda>_ _. True) (d, ep)"
  unfolding co_observe_def
  by (intro pwp_bind ewp_row pwp_andthen pwp_require pwp_lift_result pwp_case_option ewp_now pwp_ret ewp_on_env_run
    ewp_epoch ewp_gets_db ewp_txn ewp_modify_db ewp_journal TrueI)
    (auto simp: evidence_accepted_def)

text \<open>
  C30. An attestation is accepted at most once: \<open>observe\<close> returns only for an activation that is
  observing, an item that the verifier has accepted for its plan, that names the plan, the current
  launch, an artifact of the plan and a process of the current inventory, and whose nonce is new; it
  appends exactly that row, under the current manager epoch.  From then on, after any calls, crashes
  and restarts, every \<open>observe\<close> with that nonce, for any plan and any verifier, raises.
\<close>

theorem coordinator_observe_once:
  assumes "co_reachable sha c" and "co_observe sha S pid item now c = (Inr (), c1)" and "co_run sha c1 c2"
    and "at_nonce item' = at_nonce item"
  shows "evidence_accepted sha S pid item (co_db c)
     \<and> st_evidence (co_db c1) = st_evidence (co_db c) @ [evidence_row_of pid (co_manager_epoch c) item]
     \<and> distinct (map ev_nonce (st_evidence (co_db c2)))
     \<and> (\<exists>e. fst (co_observe sha S' pid' item' now' c2) = Inl e)"
proof -
  have obs: "evidence_accepted sha S pid item (co_db c)"
    "st_evidence (co_db c1) = st_evidence (co_db c) @ [evidence_row_of pid (co_manager_epoch c) item]"
    using pwp_Inr [OF ewp_observe assms(2)] by simp_all
  have "co_step sha c c1" using co_step.observe [of sha c S pid item now] assms(2) by simp
  then have "co_reachable sha c1" by (rule co_reachable.step [OF assms(1)])
  with co_run_ok [OF assms(3)] have inv: "store_inv sha (co_db c2)" and
    "prefix (map ev_nonce (st_evidence (co_db c1))) (map ev_nonce (st_evidence (co_db c2)))"
    by (auto dest: co_reachable_inv simp: store_extends_def)
  then have "at_nonce item \<in> set (map ev_nonce (st_evidence (co_db c2)))"
    using set_mono_prefix obs(2) by (fastforce simp: evidence_row_of_def)
  then have "\<not> evidence_accepted sha S' pid' item' (co_db c2)"
    using assms(4) by (simp add: evidence_accepted_def)
  then have "fst (co_observe sha S' pid' item' now' c2) \<noteq> Inr ()"
    using pwp_Inr [OF ewp_observe, of sha S' pid' item' now' c2 "()"] by (metis prod.collapse)
  then show ?thesis using obs inv by (cases "fst (co_observe sha S' pid' item' now' c2)") (auto simp: store_inv_def)
qed

theorem coordinator_observe_once_witness:
  "co_reachable ex_sha (ex_co_launched :: (fake_env, det_traffic) coordinator)
   \<and> co_observe ex_sha ex_services ''plan:sha256:00'' ex_attestation (Some 10)
       (ex_co_launched :: (fake_env, det_traffic) coordinator) = (Inr (), ex_co_observed)
   \<and> (\<exists>e. fst (co_observe ex_sha ex_services ''plan:sha256:00'' ex_attestation (Some 11)
       (ex_co_effective :: (fake_env, det_traffic) coordinator)) = Inl e)"
proof -
  have run: "co_run ex_sha (ex_co_observed :: (fake_env, det_traffic) coordinator) ex_co_effective"
    using ex_co_steps(5) by (rule r_into_rtranclp)
  from coordinator_observe_once [OF ex_co_reachable(3) ex_co_observe run refl] ex_co_reachable(3) ex_co_observe
  show ?thesis by blast
qed

subsection \<open>Rollback and recovery\<close>

definition in_state :: "string \<Rightarrow> activation_row \<Rightarrow> state \<Rightarrow> outcome_row list \<Rightarrow> store_db \<Rightarrow> bool" where
  "in_state pid row s os d \<longleftrightarrow> activation_of pid d = Some (row\<lparr>ac_state := s\<rparr>) \<and> st_outcomes d = os"

lemma in_state_row: "activation_of pid d = Some row \<Longrightarrow> in_state pid row (ac_state row) (st_outcomes d) d"
  by (simp add: in_state_def)

lemma cwp_journal_in:
  "in_state pid row s os d \<Longrightarrow> (\<And>d'. in_state pid row s os d' \<Longrightarrow> Q () d') \<Longrightarrow>
   cwp (co_journal q kind operation detail) Q E d"
  by (rule cwp_journal) (simp add: in_state_def)

lemma cwp_transition_in:
  "in_state pid row s os d \<Longrightarrow> (\<And>d'. in_state pid row target os d' \<Longrightarrow> Q () d') \<Longrightarrow> (\<And>e. E e d) \<Longrightarrow>
   cwp (co_transition pid target) Q E d"
  by (rule cwp_transition) (simp_all add: in_state_def activation_of_update)

lemma cwp_outcome_in:
  assumes "in_state pid row s os d"
    and Q: "\<And>d' r. ro_plan_id r = q \<Longrightarrow> ro_success r = success \<Longrightarrow> in_state pid row s (os @ [r]) d' \<Longrightarrow> Q () d'"
  shows "cwp (co_outcome q success detail) Q E d"
proof (rule cwp_outcome, rule Q)
  fix now
  let ?r = "\<lparr>ro_sequence = int (length os) + 1, ro_plan_id = q, ro_success = success,
    ro_detail_json = canonical_bytes detail, ro_created_at = now\<rparr>"
  show "in_state pid row s (os @ [?r]) (db_outcome q success detail now d)"
    using assms(1) by (simp add: in_state_def db_outcome_def activation_of_def)
qed simp_all

lemma cwp_state_of_in:
  "in_state pid row s os d \<Longrightarrow> Q s d \<Longrightarrow> (\<And>e. E e d) \<Longrightarrow> cwp (co_state_of pid) Q E d"
  unfolding co_state_of_def by (intro pwp_bind cwp_row pwp_ret) (auto simp: in_state_def)

text \<open>The end of a rollback: the final state with one outcome row that says whether it succeeded.\<close>

definition rolled_back_to :: "string \<Rightarrow> activation_row \<Rightarrow> outcome_row list \<Rightarrow> state \<Rightarrow> store_db \<Rightarrow> bool" where
  "rolled_back_to pid row os t d' \<longleftrightarrow> t \<in> {RolledBack, FailedSafe, SafetyUnknown} \<and>
     (\<exists>r. ro_plan_id r = pid \<and> ro_success r = (t = RolledBack) \<and> in_state pid row t (os @ [r]) d')"

definition rollback_raised :: "string \<Rightarrow> store_db \<Rightarrow> py_exn \<Rightarrow> store_db \<Rightarrow> bool" where
  "rollback_raised pid d e d' \<longleftrightarrow> d' = d \<or>
     (\<exists>row. activation_of pid d = Some row \<and>
        (in_state pid row Rollback (st_outcomes d) d' \<or>
         (\<exists>m. e = ContractError ROLLBACK_FAILED m) \<and> rolled_back_to pid row (st_outcomes d) FailedSafe d'))"

lemma rollback_raisedI:
  "rollback_raised pid d e d"
  "activation_of pid d = Some row \<Longrightarrow> in_state pid row Rollback (st_outcomes d) d' \<Longrightarrow> rollback_raised pid d e d'"
  "activation_of pid d = Some row \<Longrightarrow> rolled_back_to pid row (st_outcomes d) FailedSafe d' \<Longrightarrow>
   rollback_raised pid d (ContractError ROLLBACK_FAILED m) d'"
  by (auto simp: rollback_raised_def)

lemma rolled_back_toI:
  "ro_plan_id r = pid \<Longrightarrow> ro_success r = b \<Longrightarrow> in_state pid row t (os @ [r]) d' \<Longrightarrow>
   b = (t = RolledBack) \<Longrightarrow> t \<in> {RolledBack, FailedSafe, SafetyUnknown} \<Longrightarrow> rolled_back_to pid row os t d'"
  by (auto simp: rolled_back_to_def)

lemma rollback_state_final: "rollback_state outcome host_error \<in> {RolledBack, FailedSafe, SafetyUnknown}"
  by (simp add: rollback_state_def)

lemma final_member: "RolledBack \<in> {RolledBack, FailedSafe, SafetyUnknown}" "FailedSafe \<in> {RolledBack, FailedSafe, SafetyUnknown}"
  by simp_all

definition rolled_back :: "string \<Rightarrow> store_db \<Rightarrow> state \<Rightarrow> store_db \<Rightarrow> bool" where
  "rolled_back pid d t d' \<longleftrightarrow> (\<exists>row. activation_of pid d = Some row \<and> rolled_back_to pid row (st_outcomes d) t d')"

lemma rolled_backI: "activation_of pid d = Some row \<Longrightarrow> rolled_back_to pid row (st_outcomes d) t d' \<Longrightarrow> rolled_back pid d t d'"
  by (auto simp: rolled_back_def)

lemmas step_rules = cwp_journal_in cwp_transition_in cwp_outcome_in cwp_state_of_in pwp_bind cwp_on_env pwp_If pwp_andthen
  pwp_require cwp_fault_hit cwp_has_gate cwp_on_gate pwp_ret pwp_raise cwp_txn pwp_try_except pwp_case_prod pwp_case_option
  pwp_lift_result cwp_gets_db

lemma cwp_rollback_exact: "cwp (co_rollback S A pid reason) (rolled_back pid d) (rollback_raised pid d) d"
  unfolding co_rollback_def Let_def
  by (rule pwp_bind, rule cwp_plan_of)
    (rule step_rules cwp_gate_rollback_part rollback_raisedI(1) rollback_raisedI(2) rollback_raisedI(3)
       rolled_backI rolled_back_toI rollback_state_final final_member
     | assumption | rule in_state_row refl | simp)+

text \<open>
  A rollback that returns leaves the activation in the terminal state it returns, with exactly one
  new rollback outcome, which is a success iff the state is \<open>RolledBack\<close>.  A rollback that raises
  has changed nothing, or was interrupted in \<open>Rollback\<close> with no outcome recorded (which recovery
  handles), or raises \<open>ROLLBACK_FAILED\<close> with the activation \<open>FailedSafe\<close> and a failed outcome.
\<close>

theorem coordinator_rollback_recorded:
  "case co_rollback S A pid reason c of
     (Inr t, c') \<Rightarrow> rolled_back pid (co_db c) t (co_db c')
   | (Inl e, c') \<Rightarrow> rollback_raised pid (co_db c) e (co_db c')"
proof (cases "co_rollback S A pid reason c")
  case (Pair r c')
  then show ?thesis
    using pwp_Inr [OF cwp_rollback_exact, of S A pid reason c] pwp_Inl [OF cwp_rollback_exact, of S A pid reason c]
    by (cases r) auto
qed

text \<open>Where recovery may take an activation.\<close>

definition recovers_to :: "state \<Rightarrow> state \<Rightarrow> bool" where
  "recovers_to s t \<longleftrightarrow>
     (if s = Rollback then t \<in> {RolledBack, FailedSafe, SafetyUnknown}
      else if s = CommitReady then t \<in> {Effective, Reconcile}
      else if s \<in> {Preparing, Launching, Observing} then t = Reconcile
      else t = s)"

definition recovered :: "string \<Rightarrow> store_db \<Rightarrow> state \<Rightarrow> store_db \<Rightarrow> bool" where
  "recovered pid d t d' \<longleftrightarrow> (\<exists>row os. activation_of pid d = Some row \<and> in_state pid row t os d' \<and> recovers_to (ac_state row) t)"

lemma recoveredI:
  "activation_of pid d = Some row \<Longrightarrow> in_state pid row t os d' \<Longrightarrow> recovers_to (ac_state row) t \<Longrightarrow> recovered pid d t d'"
  by (auto simp: recovered_def)

lemma cwp_recovered_target_in:
  "(\<And>x. x \<in> {RolledBack, FailedSafe, SafetyUnknown} \<Longrightarrow> Q x d) \<Longrightarrow> (\<And>e. E e d) \<Longrightarrow>
   cwp (recovered_target A generation gs detail) Q E d"
  unfolding recovered_target_def by (intro step_rules) simp_all

lemma recovers_toI:
  "t \<in> {RolledBack, FailedSafe, SafetyUnknown} \<Longrightarrow> recovers_to Rollback t"
  "recovers_to Rollback FailedSafe"
  "s = CommitReady \<and> b \<Longrightarrow> recovers_to s Effective"
  "s = CommitReady \<and> b \<Longrightarrow> recovers_to s Reconcile"
  "s \<in> {Preparing, Launching, Observing} \<and> b \<Longrightarrow> recovers_to s Reconcile"
  "s \<in> {Preparing, Launching, CommitReady} \<Longrightarrow> recovers_to s Reconcile"
  "s = Observing \<Longrightarrow> recovers_to s Reconcile"
  "s \<noteq> Rollback \<Longrightarrow> s \<notin> {Preparing, Launching, CommitReady} \<Longrightarrow> s \<noteq> Observing \<Longrightarrow> recovers_to s s"
  by (auto simp: recovers_to_def)

lemma recovers_settled: "recovers_to s t \<Longrightarrow> t \<notin> {Preparing, Launching, Observing, CommitReady, Rollback}"
  by (cases s; cases t; simp add: recovers_to_def)

lemma recovers_rollback: "s = Rollback \<Longrightarrow> recovers_to Rollback t \<Longrightarrow> recovers_to s t"
  by simp

lemma cwp_recover_exact: "cwp (co_recover sha S A pid) (recovered pid d) (\<lambda>_ _. True) d"
  unfolding co_recover_def Let_def recover_rollback_def recover_commit_ready_def recover_to_reconcile_def
  by (rule pwp_bind, rule cwp_row)
    (rule step_rules cwp_recovered_target_in cwp_fail_close_state TrueI final_member | assumption
     | rule recoveredI, assumption, assumption, (rule recovers_toI recovers_rollback, assumption+ | rule recovers_toI recovers_rollback)+
     | rule recoveredI, assumption, rule in_state_row, assumption, rule recovers_toI, assumption+
     | rule in_state_row)+

text \<open>
  C39. Recovery that returns leaves no activation in the middle of an operation: what was preparing,
  launching or observing is in \<open>Reconcile\<close>, an interrupted commit is \<open>Effective\<close> or in
  \<open>Reconcile\<close>, an interrupted rollback is in one of the three terminal states, and every other
  activation is where it was.  The state returned is the durable one.
\<close>

theorem coordinator_recover_settles:
  assumes "co_recover sha S A pid c = (Inr t, c')"
  shows "\<exists>row row'. activation_of pid (co_db c) = Some row \<and> activation_of pid (co_db c') = Some row'
     \<and> row' = row\<lparr>ac_state := t\<rparr> \<and> recovers_to (ac_state row) t
     \<and> t \<notin> {Preparing, Launching, Observing, CommitReady, Rollback}"
proof -
  from pwp_Inr [OF cwp_recover_exact assms] obtain row os where r: "activation_of pid (co_db c) = Some row"
      "in_state pid row t os (co_db c')" "recovers_to (ac_state row) t"
    by (auto simp: recovered_def)
  with recovers_settled [OF r(3)] show ?thesis by (simp add: in_state_def)
qed

theorem coordinator_recover_settles_witness:
  "\<exists>c' :: (fake_env, det_traffic) coordinator.
     co_recover ex_sha ex_services det_adapter ''plan:sha256:00'' ex_co_launched = (Inr Reconcile, c')
     \<and> (\<exists>row'. activation_of ''plan:sha256:00'' (co_db c') = Some row' \<and> ac_state row' = Reconcile)"
proof -
  obtain r c' where run: "co_recover ex_sha ex_services det_adapter ''plan:sha256:00''
      (ex_co_launched :: (fake_env, det_traffic) coordinator) = (r, c')" by fastforce
  moreover have "fst (co_recover ex_sha ex_services det_adapter ''plan:sha256:00''
      (ex_co_launched :: (fake_env, det_traffic) coordinator)) = Inr Reconcile"
    by (simp add: co_recover_def co_state_of_def co_basic_defs ex_co_defs ex_co_launched_def fake_restore_def)
  ultimately have "co_recover ex_sha ex_services det_adapter ''plan:sha256:00''
      (ex_co_launched :: (fake_env, det_traffic) coordinator) = (Inr Reconcile, c')" by simp
  with coordinator_recover_settles [OF this] show ?thesis by fastforce
qed

end
