(* ===== verification/Base64url.thy ===== *)
theory Base64url
  imports Prelude
begin

section \<open>Unpadded base64url (\<^verbatim>\<open>attestation/profile.py\<close>)\<close>

text \<open>
  \<open>_b64url\<close> and \<open>_b64url_decode\<close> with the part of \<open>base64\<close> they use.  A byte is a character.  The
  decoder takes exactly the texts the encoder writes (\<open>b64url_decode_iff\<close>).
\<close>

definition b64_char :: "nat \<Rightarrow> char" where
  "b64_char n =
     (if n < 26 then chr_of (65 + n)
      else if n < 52 then chr_of (71 + n)
      else if n < 62 then chr_of (n - 4)
      else if n = 62 then CHR ''-'' else CHR ''_'')"

definition b64_index :: "char \<Rightarrow> nat option" where
  "b64_index c =
     (if 65 \<le> code c \<and> code c \<le> 90 then Some (code c - 65)
      else if 97 \<le> code c \<and> code c \<le> 122 then Some (code c - 71)
      else if 48 \<le> code c \<and> code c \<le> 57 then Some (code c + 4)
      else if c = CHR ''-'' then Some 62
      else if c = CHR ''_'' then Some 63
      else None)"

text \<open>\<open>base64.urlsafe_b64encode(value).rstrip(b"=")\<close>: six bits per character, no padding.\<close>

fun b64url :: "string \<Rightarrow> string" where
  "b64url [] = []"
| "b64url [a] = [b64_char (code a div 4), b64_char (code a mod 4 * 16)]"
| "b64url [a, b] =
     [b64_char (code a div 4), b64_char (code a mod 4 * 16 + code b div 16), b64_char (code b mod 16 * 4)]"
| "b64url (a # b # c # s) =
     b64_char (code a div 4) # b64_char (code a mod 4 * 16 + code b div 16)
     # b64_char (code b mod 16 * 4 + code c div 64) # b64_char (code c mod 64) # b64url s"

text \<open>\<open>base64.urlsafe_b64decode\<close> on the sextets of an alphabet text; left-over bits are dropped.\<close>

fun b64_bytes :: "nat list \<Rightarrow> string" where
  "b64_bytes (w # x # y # z # s) =
     chr_of (w * 4 + x div 16) # chr_of (x mod 16 * 16 + y div 4) # chr_of (y mod 4 * 64 + z) # b64_bytes s"
| "b64_bytes [w, x, y] = [chr_of (w * 4 + x div 16), chr_of (x mod 16 * 16 + y div 4)]"
| "b64_bytes [w, x] = [chr_of (w * 4 + x div 16)]"
| "b64_bytes _ = []"

definition b64url_decode :: "'e \<Rightarrow> string \<Rightarrow> 'e + string" where
  "b64url_decode malformed value =
     (if \<not> list_all (\<lambda>c. b64_index c \<noteq> None) value \<or> length value mod 4 = 1 then Inl malformed
      else let decoded = b64_bytes (map (the \<circ> b64_index) value) in
        if b64url decoded \<noteq> value then Inl malformed else Inr decoded)"

subsection \<open>The decoder inverts the encoder\<close>

lemma code_CHR [simp]: "code (CHR ''-'') = 45" "code (CHR ''_'') = 95"
  by (simp_all add: code_def)

lemma b64_index_char [simp]: "n < 64 \<Longrightarrow> b64_index (b64_char n) = Some n"
proof -
  assume n: "n < 64"
  consider "n < 26" | "26 \<le> n" "n < 52" | "52 \<le> n" "n < 62" | "n = 62" | "n = 63" using n by linarith
  then show ?thesis by cases (auto simp: b64_index_def b64_char_def)
qed

lemma byte_bounds [simp]:
  "code a div 4 < 64" "code a mod 4 * 16 + code b div 16 < 64" "code b mod 16 * 4 + code c div 64 < 64"
  "code a mod 4 * 16 < 64" "code b mod 16 * 4 < 64"
proof -
  have d: "code a div 4 < 64" "code b div 16 < 16" "code c div 64 < 4"
    by (simp_all add: less_mult_imp_div_less)
  have m: "code a mod 4 < 4" "code b mod 16 < 16" by simp_all
  show "code a div 4 < 64" by (rule d)
  show "code a mod 4 * 16 + code b div 16 < 64" "code b mod 16 * 4 + code c div 64 < 64"
    "code a mod 4 * 16 < 64" "code b mod 16 * 4 < 64" using d m by linarith+
qed

lemma sextet_div_mod [simp]:
  "(code a mod 4 * 16 + code b div 16) div 16 = code a mod 4"
  "(code a mod 4 * 16 + code b div 16) mod 16 = code b div 16"
  "(code b mod 16 * 4 + code c div 64) div 4 = code b mod 16"
  "(code b mod 16 * 4 + code c div 64) mod 4 = code c div 64"
proof -
  have d: "code b div 16 < 16" "code c div 64 < 4" by (simp_all add: less_mult_imp_div_less)
  from d(1) show "(code a mod 4 * 16 + code b div 16) div 16 = code a mod 4"
    "(code a mod 4 * 16 + code b div 16) mod 16 = code b div 16" by simp_all
  from d(2) show "(code b mod 16 * 4 + code c div 64) div 4 = code b mod 16"
    "(code b mod 16 * 4 + code c div 64) mod 4 = code c div 64" by simp_all
qed

lemma high_bits [simp]: "code b div 16 mod 16 = code b div 16" "code c div 64 mod 4 = code c div 64"
  by (simp_all add: less_mult_imp_div_less)

lemma b64_alphabet: "list_all (\<lambda>c. b64_index c \<noteq> None) (b64url s)"
  by (induction s rule: b64url.induct) simp_all

lemma b64url_length: "length (b64url s) mod 4 \<noteq> 1"
  by (induction s rule: b64url.induct) simp_all

lemma b64_bytes_encoded: "b64_bytes (map (the \<circ> b64_index) (b64url s)) = s"
  by (induction s rule: b64url.induct) simp_all

theorem b64url_decode_iff: "b64url_decode malformed value = Inr s \<longleftrightarrow> value = b64url s"
proof
  assume "value = b64url s"
  then show "b64url_decode malformed value = Inr s"
    using b64_alphabet [of s] b64url_length [of s] b64_bytes_encoded [of s] by (simp add: b64url_decode_def)
qed (auto simp: b64url_decode_def Let_def split: if_splits)

lemma b64url_inject [simp]: "b64url s = b64url t \<longleftrightarrow> s = t"
  by (metis b64url_decode_iff sum.inject(2))

lemma b64url_decode_encode [simp]: "b64url_decode malformed (b64url s) = Inr s"
  by (simp add: b64url_decode_iff)

lemma b64url_no_dot: "CHR ''.'' \<notin> set (b64url s)"
  using b64_alphabet [of s] by (auto simp: list_all_iff b64_index_def code_def)

end
