(* ===== verification/Attestation.thy ===== *)
theory Attestation
  imports Base64url ECPA_Model
begin

section \<open>Signed attestations (\<^verbatim>\<open>attestation/model.py\<close>, \<^verbatim>\<open>attestation/profile.py\<close>)\<close>

text \<open>
  The attestation profile: statements, strict JSON, canonical payloads, detached compact JWS
  envelopes, the trust store, \<open>sign\<close>, \<open>verify\<close> and the verifier the coordinator calls.  The packages
  \<open>jcs\<close> and \<open>cryptography\<close> are the record \<open>jws_lib\<close>; what the profile relies on is named in \<open>jcs_ok\<close> (RFC
  8785 on values without fractions, in the character range of the model) and \<open>key_pair\<close> (a signature
  verifies under its own key).  Errors are the codes of \<open>AttestationError\<close>; their texts are not modelled.
  Values that Python's types keep out (an entry that is no \<open>TrustEntry\<close>, lone surrogates, floats) are not
  values of the model.
\<close>

subsection \<open>Data\<close>

datatype attestation_code =
    MALFORMED_JSON | DUPLICATE_KEY | UNSUPPORTED_VALUE | NONCANONICAL_PAYLOAD | MALFORMED_JWS
  | WRONG_ALGORITHM | WRONG_TYPE | WRONG_PROFILE | UNKNOWN_CRITICAL_HEADER | UNKNOWN_CRITICAL_CLAIM
  | UNKNOWN_KEY | KEY_MISMATCH | INVALID_SIGNATURE | NOT_YET_VALID | EXPIRED | BINDING_MISMATCH
  | INVALID_STATEMENT | INVALID_TIME | TRUST_POLICY | TRUST_STORE_CONFIG

fun attestation_code_value :: "attestation_code \<Rightarrow> string" where
  "attestation_code_value MALFORMED_JSON = ''ATTESTATION_MALFORMED_JSON''"
| "attestation_code_value DUPLICATE_KEY = ''ATTESTATION_DUPLICATE_KEY''"
| "attestation_code_value UNSUPPORTED_VALUE = ''ATTESTATION_UNSUPPORTED_VALUE''"
| "attestation_code_value NONCANONICAL_PAYLOAD = ''ATTESTATION_NONCANONICAL_PAYLOAD''"
| "attestation_code_value MALFORMED_JWS = ''ATTESTATION_MALFORMED_JWS''"
| "attestation_code_value WRONG_ALGORITHM = ''ATTESTATION_WRONG_ALGORITHM''"
| "attestation_code_value WRONG_TYPE = ''ATTESTATION_WRONG_TYPE''"
| "attestation_code_value WRONG_PROFILE = ''ATTESTATION_WRONG_PROFILE''"
| "attestation_code_value UNKNOWN_CRITICAL_HEADER = ''ATTESTATION_UNKNOWN_CRITICAL_HEADER''"
| "attestation_code_value UNKNOWN_CRITICAL_CLAIM = ''ATTESTATION_UNKNOWN_CRITICAL_CLAIM''"
| "attestation_code_value UNKNOWN_KEY = ''ATTESTATION_UNKNOWN_KEY''"
| "attestation_code_value KEY_MISMATCH = ''ATTESTATION_KEY_MISMATCH''"
| "attestation_code_value INVALID_SIGNATURE = ''ATTESTATION_INVALID_SIGNATURE''"
| "attestation_code_value NOT_YET_VALID = ''ATTESTATION_NOT_YET_VALID''"
| "attestation_code_value EXPIRED = ''ATTESTATION_EXPIRED''"
| "attestation_code_value BINDING_MISMATCH = ''ATTESTATION_BINDING_MISMATCH''"
| "attestation_code_value INVALID_STATEMENT = ''ATTESTATION_INVALID_STATEMENT''"
| "attestation_code_value INVALID_TIME = ''ATTESTATION_INVALID_TIME''"
| "attestation_code_value TRUST_POLICY = ''ATTESTATION_TRUST_POLICY''"
| "attestation_code_value TRUST_STORE_CONFIG = ''ATTESTATION_TRUST_STORE_CONFIG''"

record process_statement =
  pm_host :: string
  pm_role :: string
  pm_ordinal :: int
  pm_start_identity :: string
  pm_epoch :: int

record attestation_statement =
  sm_schema :: string
  sm_profile :: string
  sm_issuer :: string
  sm_kid :: string
  sm_subject :: string
  sm_plan_id :: string
  sm_launch_id :: string
  sm_plugin_id :: string
  sm_artifact_digest :: string
  sm_process :: process_statement
  sm_obligation :: string
  sm_event :: string
  sm_observed_at :: int
  sm_issued_at :: int
  sm_expires_at :: int
  sm_challenge_nonce :: string
  sm_evidence_digest :: string
  sm_critical_claims :: "string list"

record signed_envelope =
  se_payload :: string
  se_detached_jws :: string

record 'pk trust_entry =
  te_issuer :: string
  te_kid :: string
  te_public_key :: 'pk
  te_subjects :: "string list"
  te_not_before :: int
  te_not_after :: int
  te_enabled :: bool

type_synonym 'pk trust_store = "((string \<times> string) \<times> 'pk trust_entry) list"

text \<open>The functions of \<open>jcs\<close> and \<open>cryptography\<close> that the profile calls; \<open>None\<close> is an exception.\<close>

record ('sk, 'pk) jws_lib =
  jl_jcs :: "json \<Rightarrow> string option"
  jl_sign :: "'sk \<Rightarrow> string \<Rightarrow> string"
  jl_verify :: "'pk \<Rightarrow> string \<Rightarrow> string \<Rightarrow> bool"

definition statement_schema :: string where
  "statement_schema = ''ecpa-attestation-statement/0.1''"

definition statement_profile :: string where
  "statement_profile = ''ecpa-jcs-jws-eddsa/0.1''"

definition jws_type :: string where
  "jws_type = ''application/ecpa-attestation+jws''"

definition max_safe_integer :: int where
  "max_safe_integer = 2 ^ 53 - 1"

definition process_statement_dict :: "process_statement \<Rightarrow> json" where
  "process_statement_dict p = JObj
     [(''host'', JStr (pm_host p)), (''role'', JStr (pm_role p)), (''ordinal'', JInt (pm_ordinal p)),
      (''start_identity'', JStr (pm_start_identity p)), (''epoch'', JInt (pm_epoch p))]"

text \<open>\<open>AttestationStatement.to_dict\<close>\<close>

definition statement_fields :: "attestation_statement \<Rightarrow> (string \<times> json) list" where
  "statement_fields s =
     [(''schema'', JStr (sm_schema s)), (''profile'', JStr (sm_profile s)), (''issuer'', JStr (sm_issuer s)),
      (''kid'', JStr (sm_kid s)), (''subject'', JStr (sm_subject s)), (''plan_id'', JStr (sm_plan_id s)),
      (''launch_id'', JStr (sm_launch_id s)), (''plugin_id'', JStr (sm_plugin_id s)),
      (''artifact_digest'', JStr (sm_artifact_digest s)), (''process'', process_statement_dict (sm_process s)),
      (''obligation'', JStr (sm_obligation s)), (''event'', JStr (sm_event s)),
      (''observed_at'', JInt (sm_observed_at s)), (''issued_at'', JInt (sm_issued_at s)),
      (''expires_at'', JInt (sm_expires_at s)), (''challenge_nonce'', JStr (sm_challenge_nonce s)),
      (''evidence_digest'', JStr (sm_evidence_digest s)),
      (''critical_claims'', JArr (map JStr (sm_critical_claims s)))]"

subsection \<open>Strict JSON and canonical bytes\<close>

text \<open>\<open>_pairs\<close>\<close>

definition pairs_hook :: "(string \<times> json) list \<Rightarrow> attestation_code + json" where
  "pairs_hook pairs = (if has_duplicates (map fst pairs) then Inl DUPLICATE_KEY else Inr (JObj pairs))"

definition parse_strict :: "string \<Rightarrow> attestation_code + (string \<times> json) list" where
  "parse_strict raw = (case utf8_decode raw of
     None \<Rightarrow> Inl MALFORMED_JSON
   | Some s \<Rightarrow> ebind (loads_text MALFORMED_JSON pairs_hook s) (\<lambda>v.
       case v of JObj kvs \<Rightarrow> Inr kvs | _ \<Rightarrow> Inl MALFORMED_JSON))"

text \<open>\<open>_validate_values\<close>\<close>

fun safe_json :: "json \<Rightarrow> bool" where
  "safe_json (JInt i) = (- max_safe_integer \<le> i \<and> i \<le> max_safe_integer)"
| "safe_json (JArr vs) = list_all safe_json vs"
| "safe_json (JObj kvs) = list_all (\<lambda>kv. safe_json (snd kv)) kvs"
| "safe_json _ = True"

definition canonicalize :: "('sk, 'pk) jws_lib \<Rightarrow> (string \<times> json) list \<Rightarrow> attestation_code + string" where
  "canonicalize L d =
     (if \<not> safe_json (JObj d) then Inl UNSUPPORTED_VALUE
      else case jl_jcs L (JObj d) of None \<Rightarrow> Inl UNSUPPORTED_VALUE | Some b \<Rightarrow> Inr b)"

subsection \<open>The trust store\<close>

definition entry_valid :: "'pk trust_entry \<Rightarrow> bool" where
  "entry_valid e \<longleftrightarrow> te_issuer e \<noteq> [] \<and> te_kid e \<noteq> [] \<and> te_subjects e \<noteq> [] \<and> list_all (\<lambda>s. s \<noteq> []) (te_subjects e)
     \<and> 0 \<le> te_not_before e \<and> te_not_before e \<le> te_not_after e"

definition trust_add :: "'pk trust_entry \<Rightarrow> 'pk trust_store \<Rightarrow> attestation_code + 'pk trust_store" where
  "trust_add e store =
     (if \<not> entry_valid e then Inl TRUST_STORE_CONFIG
      else if (te_issuer e, te_kid e) \<in> fst ` set store then Inl TRUST_STORE_CONFIG
      else Inr (store @ [((te_issuer e, te_kid e), e)]))"

fun trust_extend :: "'pk trust_entry list \<Rightarrow> 'pk trust_store \<Rightarrow> attestation_code + 'pk trust_store" where
  "trust_extend [] store = Inr store"
| "trust_extend (e # es) store = ebind (trust_add e store) (trust_extend es)"

definition trust_store_new :: "'pk trust_entry list \<Rightarrow> attestation_code + 'pk trust_store" where
  "trust_store_new entries = trust_extend entries []"

definition entry_active :: "'pk trust_entry \<Rightarrow> string \<Rightarrow> int \<Rightarrow> bool" where
  "entry_active e subject now \<longleftrightarrow>
     te_enabled e \<and> subject \<in> set (te_subjects e) \<and> te_not_before e \<le> now \<and> now \<le> te_not_after e"

definition trust_lookup ::
  "'pk trust_store \<Rightarrow> string \<Rightarrow> string \<Rightarrow> string \<Rightarrow> int \<Rightarrow> attestation_code + 'pk trust_entry" where
  "trust_lookup store issuer kid subject now = (case map_of store (issuer, kid) of
     None \<Rightarrow> Inl UNKNOWN_KEY
   | Some e \<Rightarrow> if entry_active e subject now then Inr e else Inl TRUST_POLICY)"

subsection \<open>Statements\<close>

definition statement_string :: "string \<Rightarrow> (string \<times> json) list \<Rightarrow> attestation_code + string" where
  "statement_string k d = (case map_of d k of
     Some (JStr s) \<Rightarrow> if s \<noteq> [] then Inr s else Inl INVALID_STATEMENT
   | _ \<Rightarrow> Inl INVALID_STATEMENT)"

definition statement_int :: "string \<Rightarrow> (string \<times> json) list \<Rightarrow> attestation_code + int" where
  "statement_int k d = (case map_of d k of
     Some (JInt i) \<Rightarrow> if 0 \<le> i \<and> i \<le> max_safe_integer then Inr i else Inl INVALID_STATEMENT
   | _ \<Rightarrow> Inl INVALID_STATEMENT)"

definition claim_name :: "json \<Rightarrow> attestation_code + string" where
  "claim_name v = (case v of JStr s \<Rightarrow> Inr s | _ \<Rightarrow> Inl INVALID_STATEMENT)"

definition statement_claims :: "(string \<times> json) list \<Rightarrow> attestation_code + string list" where
  "statement_claims d = (case map_of d ''critical_claims'' of
     Some (JArr vs) \<Rightarrow> ebind (emap claim_name vs) (\<lambda>names.
       if has_duplicates names then Inl INVALID_STATEMENT else Inr names)
   | _ \<Rightarrow> Inl INVALID_STATEMENT)"

text \<open>\<open>^sha256:[0-9a-f]{64}$\<close>\<close>

definition is_digest :: "string \<Rightarrow> bool" where
  "is_digest s \<longleftrightarrow> take 7 s = ''sha256:'' \<and> length s = 71
     \<and> list_all (\<lambda>c. 48 \<le> code c \<and> code c \<le> 57 \<or> 97 \<le> code c \<and> code c \<le> 102) (drop 7 s)"

definition process_field_names :: "string list" where
  "process_field_names = [''host'', ''role'', ''ordinal'', ''start_identity'', ''epoch'']"

definition statement_field_names :: "string list" where
  "statement_field_names =
     [''schema'', ''profile'', ''issuer'', ''kid'', ''subject'', ''plan_id'', ''launch_id'', ''plugin_id'',
      ''artifact_digest'', ''process'', ''obligation'', ''event'', ''observed_at'', ''issued_at'', ''expires_at'',
      ''challenge_nonce'', ''evidence_digest'', ''critical_claims'']"

definition validate_process :: "(string \<times> json) list \<Rightarrow> attestation_code + process_statement" where
  "validate_process d = (case map_of d ''process'' of
     Some (JObj p) \<Rightarrow>
       ebind (check (set (map fst p) = set process_field_names) INVALID_STATEMENT) (\<lambda>_.
       ebind (statement_string ''host'' p) (\<lambda>host.
       ebind (statement_string ''role'' p) (\<lambda>role.
       ebind (statement_string ''start_identity'' p) (\<lambda>start_identity.
       ebind (statement_int ''ordinal'' p) (\<lambda>ordinal.
       ebind (statement_int ''epoch'' p) (\<lambda>epoch.
       Inr \<lparr>pm_host = host, pm_role = role, pm_ordinal = ordinal, pm_start_identity = start_identity,
            pm_epoch = epoch\<rparr>))))))
   | _ \<Rightarrow> Inl INVALID_STATEMENT)"

definition validate_statement :: "(string \<times> json) list \<Rightarrow> attestation_code + attestation_statement" where
  "validate_statement d =
     ebind (check (set (map fst d) = set statement_field_names) INVALID_STATEMENT) (\<lambda>_.
     ebind (validate_process d) (\<lambda>process.
     ebind (statement_string ''schema'' d) (\<lambda>schema.
     ebind (statement_string ''profile'' d) (\<lambda>profile.
     ebind (statement_string ''issuer'' d) (\<lambda>issuer.
     ebind (statement_string ''kid'' d) (\<lambda>kid.
     ebind (statement_string ''subject'' d) (\<lambda>subject.
     ebind (statement_string ''plan_id'' d) (\<lambda>plan_id.
     ebind (statement_string ''launch_id'' d) (\<lambda>launch_id.
     ebind (statement_string ''plugin_id'' d) (\<lambda>plugin_id.
     ebind (statement_string ''artifact_digest'' d) (\<lambda>artifact_digest.
     ebind (statement_string ''obligation'' d) (\<lambda>obligation.
     ebind (statement_string ''event'' d) (\<lambda>event.
     ebind (statement_string ''challenge_nonce'' d) (\<lambda>challenge_nonce.
     ebind (statement_string ''evidence_digest'' d) (\<lambda>evidence_digest.
     ebind (statement_int ''observed_at'' d) (\<lambda>observed_at.
     ebind (statement_int ''issued_at'' d) (\<lambda>issued_at.
     ebind (statement_int ''expires_at'' d) (\<lambda>expires_at.
     ebind (statement_claims d) (\<lambda>critical_claims.
     ebind (check (is_digest artifact_digest \<and> is_digest evidence_digest) INVALID_STATEMENT) (\<lambda>_.
     Inr \<lparr>sm_schema = schema, sm_profile = profile, sm_issuer = issuer, sm_kid = kid, sm_subject = subject,
          sm_plan_id = plan_id, sm_launch_id = launch_id, sm_plugin_id = plugin_id,
          sm_artifact_digest = artifact_digest, sm_process = process, sm_obligation = obligation,
          sm_event = event, sm_observed_at = observed_at, sm_issued_at = issued_at, sm_expires_at = expires_at,
          sm_challenge_nonce = challenge_nonce, sm_evidence_digest = evidence_digest,
          sm_critical_claims = critical_claims\<rparr>))))))))))))))))))))"

subsection \<open>Signing and verifying\<close>

text \<open>\<open>_protected\<close>\<close>

definition protected_header :: "string \<Rightarrow> (string \<times> json) list" where
  "protected_header kid =
     [(''alg'', JStr ''EdDSA''), (''crit'', JArr [JStr ''ecpa_profile'']), (''ecpa_profile'', JStr statement_profile),
      (''kid'', JStr kid), (''typ'', JStr jws_type)]"

definition att_sign ::
  "('sk, 'pk) jws_lib \<Rightarrow> attestation_statement \<Rightarrow> 'sk \<Rightarrow> attestation_code + signed_envelope" where
  "att_sign L statement key =
     (if sm_schema statement \<noteq> statement_schema \<or> sm_profile statement \<noteq> statement_profile then Inl WRONG_PROFILE
      else
        ebind (validate_statement (statement_fields statement)) (\<lambda>_.
        ebind (canonicalize L (statement_fields statement)) (\<lambda>payload.
        ebind (canonicalize L (protected_header (sm_kid statement))) (\<lambda>protected.
        let encoded_header = b64url protected;
            signature = b64url (jl_sign L key (encoded_header @ ''.'' @ b64url payload)) in
        Inr \<lparr>se_payload = payload, se_detached_jws = encoded_header @ ''..'' @ signature\<rparr>))))"

text \<open>\<open>str.split(".")\<close>\<close>

fun split_dots :: "string \<Rightarrow> string list" where
  "split_dots [] = [[]]"
| "split_dots (c # s) =
     (if c = CHR ''.'' then [] # split_dots s
      else case split_dots s of [] \<Rightarrow> [[c]] | w # ws \<Rightarrow> (c # w) # ws)"

definition header_key :: "('sk, 'pk) jws_lib \<Rightarrow> string \<Rightarrow> attestation_code + string" where
  "header_key L encoded =
     ebind (b64url_decode MALFORMED_JWS encoded) (\<lambda>header_raw.
     ebind (parse_strict header_raw) (\<lambda>header.
     ebind (check (set (map fst header) = {''alg'', ''crit'', ''ecpa_profile'', ''kid'', ''typ''})
       UNKNOWN_CRITICAL_HEADER) (\<lambda>_.
     ebind (canonicalize L header) (\<lambda>canonical.
     ebind (check (header_raw = canonical) MALFORMED_JWS) (\<lambda>_.
     ebind (check (map_of header ''alg'' = Some (JStr ''EdDSA'')) WRONG_ALGORITHM) (\<lambda>_.
     ebind (check (map_of header ''typ'' = Some (JStr jws_type)) WRONG_TYPE) (\<lambda>_.
     ebind (check (map_of header ''crit'' = Some (JArr [JStr ''ecpa_profile''])) UNKNOWN_CRITICAL_HEADER) (\<lambda>_.
     ebind (check (map_of header ''ecpa_profile'' = Some (JStr statement_profile)) WRONG_PROFILE) (\<lambda>_.
     case map_of header ''kid'' of Some (JStr kid) \<Rightarrow> Inr kid | _ \<Rightarrow> Inl UNKNOWN_KEY)))))))))"

definition statement_in_time ::
  "int \<Rightarrow> int \<Rightarrow> int \<Rightarrow> int \<Rightarrow> attestation_statement \<Rightarrow> attestation_code + unit" where
  "statement_in_time now clock_skew max_ttl max_observation_age s =
     ebind (check (\<not> (sm_issued_at s > now + clock_skew \<or> sm_observed_at s > now + clock_skew)) NOT_YET_VALID) (\<lambda>_.
     ebind (check (\<not> sm_expires_at s < now - clock_skew) EXPIRED) (\<lambda>_.
     ebind (check (sm_observed_at s \<le> sm_issued_at s \<and> sm_issued_at s \<le> sm_expires_at s) INVALID_TIME) (\<lambda>_.
     ebind (check (\<not> sm_expires_at s - sm_issued_at s > max_ttl) INVALID_TIME) (\<lambda>_.
     check (\<not> now - sm_observed_at s > max_observation_age + clock_skew) INVALID_TIME))))"

definition att_verify ::
  "('sk, 'pk) jws_lib \<Rightarrow> signed_envelope \<Rightarrow> 'pk trust_store \<Rightarrow> int \<Rightarrow> int \<Rightarrow> int \<Rightarrow> int \<Rightarrow>
   attestation_code + attestation_statement" where
  "att_verify L envelope store now clock_skew max_ttl max_observation_age =
     (case split_dots (se_detached_jws envelope) of
        [encoded, [], encoded_signature] \<Rightarrow>
          ebind (header_key L encoded) (\<lambda>kid.
          ebind (parse_strict (se_payload envelope)) (\<lambda>payload_value.
          ebind (canonicalize L payload_value) (\<lambda>canonical.
          ebind (check (se_payload envelope = canonical) NONCANONICAL_PAYLOAD) (\<lambda>_.
          ebind (validate_statement payload_value) (\<lambda>statement.
          ebind (check (\<not> (sm_schema statement \<noteq> statement_schema \<or> sm_profile statement \<noteq> statement_profile))
            WRONG_PROFILE) (\<lambda>_.
          ebind (check (sm_kid statement = kid) KEY_MISMATCH) (\<lambda>_.
          ebind (check (sm_critical_claims statement = []) UNKNOWN_CRITICAL_CLAIM) (\<lambda>_.
          ebind (trust_lookup store (sm_issuer statement) kid (sm_subject statement) now) (\<lambda>entry.
          ebind (b64url_decode MALFORMED_JWS encoded_signature) (\<lambda>signature.
          ebind (check (jl_verify L (te_public_key entry) signature (encoded @ ''.'' @ b64url (se_payload envelope)))
            INVALID_SIGNATURE) (\<lambda>_.
          ebind (statement_in_time now clock_skew max_ttl max_observation_age statement) (\<lambda>_.
          Inr statement))))))))))))
      | _ \<Rightarrow> Inl MALFORMED_JWS)"

subsection \<open>The verifier of the coordinator\<close>

record 'pk signed_verifier =
  vr_envelopes :: "string \<rightharpoonup> signed_envelope"
  vr_trust_store :: "'pk trust_store"
  vr_clock_skew :: int
  vr_max_ttl :: int
  vr_max_observation_age :: int

text \<open>The comparison of the dicts \<open>actual\<close> and \<open>expected\<close>.\<close>

definition statement_binds :: "attestation_statement \<Rightarrow> attestation \<Rightarrow> bool" where
  "statement_binds s a \<longleftrightarrow>
     sm_subject s = at_authority a \<and> sm_issuer s = at_issuer a \<and> sm_kid s = at_kid a
     \<and> sm_plan_id s = at_plan_id a \<and> sm_launch_id s = at_launch_id a \<and> sm_plugin_id s = at_artifact_id a
     \<and> pm_host (sm_process s) = pr_host (at_process a) \<and> pm_role (sm_process s) = pr_role (at_process a)
     \<and> pm_ordinal (sm_process s) = pr_ordinal (at_process a)
     \<and> pm_start_identity (sm_process s) = pr_start_id (at_process a) \<and> pm_epoch (sm_process s) = pr_epoch (at_process a)
     \<and> sm_obligation s = at_obligation_id a \<and> sm_event s = at_event a \<and> sm_issued_at s = at_issued_at a
     \<and> sm_observed_at s = at_observed_at a \<and> sm_expires_at s = at_expires_at a \<and> sm_challenge_nonce s = at_nonce a
     \<and> sm_evidence_digest s = at_evidence_digest a \<and> sm_artifact_digest s = at_artifact_digest a"

definition signed_verify ::
  "(string \<Rightarrow> string) \<Rightarrow> ('sk, 'pk) jws_lib \<Rightarrow> 'pk signed_verifier \<Rightarrow> attestation \<Rightarrow> int \<Rightarrow> plan \<Rightarrow>
   attestation_code + unit" where
  "signed_verify sha L V a now p = (case vr_envelopes V (at_nonce a) of
     None \<Rightarrow> Inl BINDING_MISMATCH
   | Some envelope \<Rightarrow>
       ebind (att_verify L envelope (vr_trust_store V) now (vr_clock_skew V) (vr_max_ttl V) (vr_max_observation_age V))
        (\<lambda>statement.
       ebind (case find (\<lambda>i. plugin_id sha i = at_artifact_id a) (pl_plugins p) of
            None \<Rightarrow> Inl BINDING_MISMATCH
          | Some plugin \<Rightarrow> check (sm_artifact_digest statement = ''sha256:'' @ pi_artifact_sha256 plugin) BINDING_MISMATCH)
        (\<lambda>_. check (statement_binds statement a) BINDING_MISMATCH)))"

end
