(* ===== verification/Attestation_Verify.thy ===== *)
theory Attestation_Verify
  imports Attestation
begin

section \<open>What a verified envelope says\<close>

text \<open>
  Signing and verifying are inverse to each other on accepted statements, and an envelope that
  verifies consists of the canonical bytes of the statement it returns, of the one protected header of
  its key, and of a signature under a trusted key.
\<close>

definition jcs_ok :: "('sk, 'pk) jws_lib \<Rightarrow> bool" where
  "jcs_ok L \<longleftrightarrow> (\<forall>v. json_wf v \<longrightarrow> safe_json v \<longrightarrow> jl_jcs L v = Some (canonical_bytes v))"

definition key_pair :: "('sk, 'pk) jws_lib \<Rightarrow> 'sk \<Rightarrow> 'pk \<Rightarrow> bool" where
  "key_pair L sk pk \<longleftrightarrow> (\<forall>m. jl_verify L pk (jl_sign L sk m) m)"

subsection \<open>Strict JSON\<close>

lemma keeps_pairs_hook: "keeps_dicts pairs_hook"
  by (simp add: keeps_dicts_def pairs_hook_def)

lemma makes_wf_pairs_hook: "makes_wf pairs_hook"
  by (auto simp: makes_wf_def pairs_hook_def split: if_splits)

lemma parse_strict_Inr:
  assumes "parse_strict raw = Inr d"
  obtains t where "utf8_decode raw = Some t" "loads_text MALFORMED_JSON pairs_hook t = Inr (JObj d)"
proof -
  from assms obtain t v where "utf8_decode raw = Some t" "loads_text MALFORMED_JSON pairs_hook t = Inr v"
      "(case v of JObj kvs \<Rightarrow> Inr kvs | _ \<Rightarrow> Inl MALFORMED_JSON) = Inr d"
    by (auto simp: parse_strict_def ebind_Inr_iff split: option.splits)
  then show thesis by (cases v) (auto intro: that)
qed

lemma parse_strict_wf: "parse_strict raw = Inr d \<Longrightarrow> json_wf (JObj d)"
  using loads_text_wf [OF makes_wf_pairs_hook] by (metis parse_strict_Inr)

lemma json_wf_sorted_pairs: "json_wf (JObj (sorted_pairs d)) = json_wf (JObj d)"
  using json_wf_jsort [of "JObj d"] by (simp only: jsort_JObj)

lemma parse_strict_canonical:
  assumes "json_wf (JObj d)"
  shows "parse_strict (canonical_bytes (JObj d)) = Inr (sorted_pairs d)"
proof -
  have "loads_text MALFORMED_JSON pairs_hook (jprint False (JObj (sorted_pairs d))) = Inr (JObj (sorted_pairs d))"
    using assms by (intro loads_text_jprint [OF keeps_pairs_hook]) (simp only: json_wf_sorted_pairs)
  then show ?thesis
    by (simp add: parse_strict_def canonical_bytes_def json_dumps_def jsort_JObj del: jprint.simps jsort.simps)
qed

lemma canonicalize_iff:
  assumes "jcs_ok L" "json_wf (JObj d)"
  shows "canonicalize L d = Inr b \<longleftrightarrow> safe_json (JObj d) \<and> b = canonical_bytes (JObj d)"
  using assms by (auto simp: canonicalize_def jcs_ok_def simp del: json_wf.simps safe_json.simps)

lemma safe_json_jsort [simp]: "safe_json (jsort v) = safe_json v"
proof (induction v)
  case (JObj kvs)
  then show ?case by (fastforce simp: list_all_iff)
qed (simp_all add: list_all_iff)

lemma canonical_sorted_pairs: "canonical_bytes (JObj (sorted_pairs d)) = canonical_bytes (JObj d)"
  using jsort_idem [of "JObj d"] by (intro canonical_bytes_cong) (simp only: jsort_JObj)

subsection \<open>Statements read back\<close>

lemma jsort_leaf [simp]:
  "jsort v = JStr s \<longleftrightarrow> v = JStr s" "jsort v = JInt i \<longleftrightarrow> v = JInt i"
  by (cases v; simp)+

lemma claim_name_jsort [simp]: "claim_name (jsort v) = claim_name v"
  by (cases v) (simp_all add: claim_name_def)

lemma emap_map: "emap f (map g xs) = emap (f \<circ> g) xs"
  by (induction xs) simp_all

lemma statement_reads_sorted:
  assumes "distinct (map fst d)"
  shows "statement_string k (sorted_pairs d) = statement_string k d"
    and "statement_int k (sorted_pairs d) = statement_int k d"
    and "statement_claims (sorted_pairs d) = statement_claims d"
  unfolding statement_string_def statement_int_def statement_claims_def map_of_sorted_pairs [OF assms]
  by (auto split: option.splits json.splits simp: emap_map comp_def)


lemma validate_process_sorted:
  assumes "json_wf (JObj d)"
  shows "validate_process (sorted_pairs d) = validate_process d"
proof (cases "map_of d ''process''")
  case None
  then show ?thesis using assms by (simp add: validate_process_def map_of_sorted_pairs)
next
  case (Some v)
  have at: "map_of (sorted_pairs d) ''process'' = Some (jsort v)" using assms Some by (simp add: map_of_sorted_pairs)
  show ?thesis
  proof (cases v)
    case (JObj q)
    have q: "distinct (map fst q)" using assms map_of_SomeD [OF Some] JObj by (auto simp: list_all_iff)
    show ?thesis
      unfolding validate_process_def at Some JObj jsort_JObj option.case json.case statement_reads_sorted [OF q]
        set_map keys_sorted_pairs ..
  qed (simp_all add: validate_process_def at Some)
qed

lemma validate_statement_sorted:
  assumes "json_wf (JObj d)"
  shows "validate_statement (sorted_pairs d) = validate_statement d"
proof -
  have d: "distinct (map fst d)" using assms by simp
  show ?thesis
    unfolding validate_statement_def statement_reads_sorted [OF d] validate_process_sorted [OF assms] set_map
      keys_sorted_pairs ..
qed

lemma statement_string_Inr: "statement_string k d = Inr s \<longleftrightarrow> map_of d k = Some (JStr s) \<and> s \<noteq> []"
  by (auto simp: statement_string_def split: option.splits json.splits if_splits)

lemma statement_int_Inr:
  "statement_int k d = Inr i \<longleftrightarrow> map_of d k = Some (JInt i) \<and> 0 \<le> i \<and> i \<le> max_safe_integer"
  by (auto simp: statement_int_def split: option.splits json.splits if_splits)

lemma claim_name_Inr: "claim_name v = Inr s \<longleftrightarrow> v = JStr s"
  by (auto simp: claim_name_def split: json.splits)

lemma statement_claims_Inr:
  "statement_claims d = Inr names \<longleftrightarrow>
     map_of d ''critical_claims'' = Some (JArr (map JStr names)) \<and> distinct names"
proof -
  have "emap claim_name vs = Inr names \<longleftrightarrow> vs = map JStr names" for vs
    by (auto simp: emap_Inr_iff claim_name_Inr list_all2_conv_all_nth intro!: nth_equalityI)
  then show ?thesis
    by (auto simp: statement_claims_def ebind_Inr_iff split: option.splits json.splits if_splits)
qed

definition process_statement_ok :: "process_statement \<Rightarrow> bool" where
  "process_statement_ok p \<longleftrightarrow> pm_host p \<noteq> [] \<and> pm_role p \<noteq> [] \<and> pm_start_identity p \<noteq> []
     \<and> 0 \<le> pm_ordinal p \<and> pm_ordinal p \<le> max_safe_integer \<and> 0 \<le> pm_epoch p \<and> pm_epoch p \<le> max_safe_integer"

text \<open>What \<open>validate_statement\<close> establishes.\<close>

definition statement_ok :: "attestation_statement \<Rightarrow> bool" where
  "statement_ok s \<longleftrightarrow> process_statement_ok (sm_process s)
     \<and> list_all (\<lambda>f. f s \<noteq> []) [sm_schema, sm_profile, sm_issuer, sm_kid, sm_subject, sm_plan_id, sm_launch_id,
          sm_plugin_id, sm_obligation, sm_event, sm_challenge_nonce]
     \<and> is_digest (sm_artifact_digest s) \<and> is_digest (sm_evidence_digest s)
     \<and> {sm_observed_at s, sm_issued_at s, sm_expires_at s} \<subseteq> {0..max_safe_integer}
     \<and> distinct (sm_critical_claims s)"


lemma validate_process_Inr:
  assumes "validate_process d = Inr q" "json_wf (JObj d)"
  shows "map_option jsort (map_of d ''process'') = Some (jsort (process_statement_dict q)) \<and> process_statement_ok q"
proof (cases "map_of d ''process''")
  case (Some v)
  show ?thesis
  proof (cases v)
    case (JObj p)
    have dist: "distinct (map fst p)" using assms map_of_SomeD [OF Some] JObj by (auto simp: list_all_iff)
    from assms(1) Some JObj have f: "set (map fst p) = set process_field_names"
        "map_of p ''host'' = Some (JStr (pm_host q))" "map_of p ''role'' = Some (JStr (pm_role q))"
        "map_of p ''ordinal'' = Some (JInt (pm_ordinal q))" "map_of p ''start_identity'' = Some (JStr (pm_start_identity q))"
        "map_of p ''epoch'' = Some (JInt (pm_epoch q))" "process_statement_ok q"
      unfolding validate_process_def
      by (auto simp: ebind_Inr_iff statement_string_Inr statement_int_Inr process_statement_ok_def)
    have "jsort (JObj p) = jsort (process_statement_dict q)"
      unfolding process_statement_dict_def
      by (rule dict_determined [OF dist]) (use f in \<open>simp_all add: process_field_names_def\<close>)
    with Some JObj f show ?thesis by simp
  qed (use assms Some in \<open>simp_all add: validate_process_def\<close>)
qed (use assms in \<open>simp add: validate_process_def\<close>)

lemma validate_statement_reads:
  assumes "validate_statement d = Inr s"
  shows "set (map fst d) = set statement_field_names \<and> validate_process d = Inr (sm_process s)
     \<and> statement_string ''schema'' d = Inr (sm_schema s)
     \<and> statement_string ''profile'' d = Inr (sm_profile s)
     \<and> statement_string ''issuer'' d = Inr (sm_issuer s)
     \<and> statement_string ''kid'' d = Inr (sm_kid s)
     \<and> statement_string ''subject'' d = Inr (sm_subject s)
     \<and> statement_string ''plan_id'' d = Inr (sm_plan_id s)
     \<and> statement_string ''launch_id'' d = Inr (sm_launch_id s)
     \<and> statement_string ''plugin_id'' d = Inr (sm_plugin_id s)
     \<and> statement_string ''artifact_digest'' d = Inr (sm_artifact_digest s)
     \<and> statement_string ''obligation'' d = Inr (sm_obligation s)
     \<and> statement_string ''event'' d = Inr (sm_event s)
     \<and> statement_string ''challenge_nonce'' d = Inr (sm_challenge_nonce s)
     \<and> statement_string ''evidence_digest'' d = Inr (sm_evidence_digest s)
     \<and> statement_int ''observed_at'' d = Inr (sm_observed_at s)
     \<and> statement_int ''issued_at'' d = Inr (sm_issued_at s)
     \<and> statement_int ''expires_at'' d = Inr (sm_expires_at s)
     \<and> statement_claims d = Inr (sm_critical_claims s)
     \<and> is_digest (sm_artifact_digest s) \<and> is_digest (sm_evidence_digest s)"
  using assms unfolding validate_statement_def ebind_Inr_iff check_Inr_iff
  by (elim exE conjE) (simp only: sum.inject, hypsubst, simp)

lemma validate_statement_Inr:
  assumes "validate_statement d = Inr s" "json_wf (JObj d)"
  shows "jsort (JObj d) = jsort (JObj (statement_fields s))" and "statement_ok s"
proof -
  note reads = validate_statement_reads [OF assms(1), unfolded statement_string_Inr statement_int_Inr statement_claims_Inr]
  have q: "map_option jsort (map_of d ''process'') = Some (jsort (process_statement_dict (sm_process s)))"
      "process_statement_ok (sm_process s)"
    using validate_process_Inr [of d "sm_process s"] reads assms(2) by blast+
  show "jsort (JObj d) = jsort (JObj (statement_fields s))"
  proof (rule dict_determined)
    show "list_all (\<lambda>(k, v). map_option jsort (map_of d k) = Some (jsort v)) (statement_fields s)"
      unfolding statement_fields_def list.pred_inject case_prod_conv using reads q(1) by simp
    show "set (map fst d) = set (map fst (statement_fields s))"
      using reads unfolding statement_fields_def statement_field_names_def by simp
    show "distinct (map fst d)" using assms(2) by simp
    show "distinct (map fst (statement_fields s))" by (simp add: statement_fields_def)
  qed
  show "statement_ok s" unfolding statement_ok_def using reads q(2) by simp
qed


lemma json_wf_statement [simp]: "json_wf (JObj (statement_fields s))"
  by (simp add: statement_fields_def process_statement_dict_def list_all_iff)

lemma statement_lookups:
  "map_of (statement_fields s) ''schema'' = Some (JStr (sm_schema s))"
  "map_of (statement_fields s) ''profile'' = Some (JStr (sm_profile s))"
  "map_of (statement_fields s) ''issuer'' = Some (JStr (sm_issuer s))"
  "map_of (statement_fields s) ''kid'' = Some (JStr (sm_kid s))"
  "map_of (statement_fields s) ''subject'' = Some (JStr (sm_subject s))"
  "map_of (statement_fields s) ''plan_id'' = Some (JStr (sm_plan_id s))"
  "map_of (statement_fields s) ''launch_id'' = Some (JStr (sm_launch_id s))"
  "map_of (statement_fields s) ''plugin_id'' = Some (JStr (sm_plugin_id s))"
  "map_of (statement_fields s) ''artifact_digest'' = Some (JStr (sm_artifact_digest s))"
  "map_of (statement_fields s) ''obligation'' = Some (JStr (sm_obligation s))"
  "map_of (statement_fields s) ''event'' = Some (JStr (sm_event s))"
  "map_of (statement_fields s) ''challenge_nonce'' = Some (JStr (sm_challenge_nonce s))"
  "map_of (statement_fields s) ''evidence_digest'' = Some (JStr (sm_evidence_digest s))"
  "map_of (statement_fields s) ''observed_at'' = Some (JInt (sm_observed_at s))"
  "map_of (statement_fields s) ''issued_at'' = Some (JInt (sm_issued_at s))"
  "map_of (statement_fields s) ''expires_at'' = Some (JInt (sm_expires_at s))"
  "map_of (statement_fields s) ''critical_claims'' = Some (JArr (map JStr (sm_critical_claims s)))"
  "map_of (statement_fields s) ''process'' = Some (process_statement_dict (sm_process s))"
  by (simp_all add: statement_fields_def)

lemma process_lookups:
  "map_of [(''host'', a), (''role'', b), (''ordinal'', c), (''start_identity'', d), (''epoch'', e)] ''host'' = Some a"
  "map_of [(''host'', a), (''role'', b), (''ordinal'', c), (''start_identity'', d), (''epoch'', e)] ''role'' = Some b"
  "map_of [(''host'', a), (''role'', b), (''ordinal'', c), (''start_identity'', d), (''epoch'', e)] ''ordinal'' = Some c"
  "map_of [(''host'', a), (''role'', b), (''ordinal'', c), (''start_identity'', d), (''epoch'', e)] ''start_identity'' = Some d"
  "map_of [(''host'', a), (''role'', b), (''ordinal'', c), (''start_identity'', d), (''epoch'', e)] ''epoch'' = Some e"
  by simp_all

lemma validate_process_reads:
  assumes "validate_process d = Inr q" "map_of d ''process'' = Some (JObj p)"
  shows "statement_string ''host'' p = Inr (pm_host q) \<and> statement_string ''role'' p = Inr (pm_role q)
     \<and> statement_int ''ordinal'' p = Inr (pm_ordinal q) \<and> statement_string ''start_identity'' p = Inr (pm_start_identity q)
     \<and> statement_int ''epoch'' p = Inr (pm_epoch q)"
  using assms(1) unfolding validate_process_def assms(2) option.case json.case ebind_Inr_iff check_Inr_iff
  by (elim exE conjE) (simp only: sum.inject, hypsubst, simp)

lemma validate_own_process:
  assumes "validate_process (statement_fields s) = Inr q"
  shows "q = sm_process s"
proof -
  note reads = validate_process_reads [OF assms statement_lookups(18) [unfolded process_statement_dict_def],
    unfolded statement_string_Inr statement_int_Inr process_lookups option.inject json.inject]
  then show ?thesis by (intro process_statement.equality) simp_all
qed

lemma validate_own:
  assumes "validate_statement (statement_fields s) = Inr t"
  shows "t = s"
proof -
  note reads = validate_statement_reads [OF assms, unfolded statement_string_Inr statement_int_Inr
    statement_claims_Inr statement_lookups option.inject json.inject]
  have "sm_process t = sm_process s" using reads validate_own_process by blast
  moreover have "sm_critical_claims t = sm_critical_claims s"
    using reads by (metis inj_map_eq_map inj_on_def json.inject(3))
  ultimately show ?thesis using reads by (intro attestation_statement.equality) simp_all
qed

lemma safe_statement: "statement_ok s \<Longrightarrow> safe_json (JObj (statement_fields s))"
  by (simp add: statement_ok_def process_statement_ok_def statement_fields_def process_statement_dict_def
      list_all_iff max_safe_integer_def)


subsection \<open>Envelopes\<close>

lemma split_dots_none: "CHR ''.'' \<notin> set s \<Longrightarrow> split_dots s = [s]"
  by (induction s) auto

lemma split_dots_append: "CHR ''.'' \<notin> set a \<Longrightarrow> split_dots (a @ CHR ''.'' # r) = a # split_dots r"
  by (induction a) auto

lemma split_dots_ne: "split_dots s \<noteq> []"
  by (induction s) (auto split: list.splits)

lemma join_split_dots: "py_join ''.'' (split_dots s) = s"
proof (induction s)
  case (Cons c s)
  then show ?case using split_dots_ne [of s]
    by (cases "split_dots s") (auto simp: neq_Nil_conv elim: py_join.elims, metis append_Cons list.exhaust py_join.simps)
qed simp

lemma detached_parts: "split_dots j = [a, [], b] \<longleftrightarrow> j = a @ ''..'' @ b \<and> CHR ''.'' \<notin> set a \<and> CHR ''.'' \<notin> set b"
proof
  assume eq: "split_dots j = [a, [], b]"
  have "w \<in> set (split_dots t) \<Longrightarrow> CHR ''.'' \<notin> set w" for w t
    by (induction t arbitrary: w) (auto split: if_splits list.splits)
  with eq have "CHR ''.'' \<notin> set a" "CHR ''.'' \<notin> set b" by (metis list.set_intros)+
  with join_split_dots [of j] eq show "j = a @ ''..'' @ b \<and> CHR ''.'' \<notin> set a \<and> CHR ''.'' \<notin> set b" by simp
qed (simp add: split_dots_append split_dots_none)

lemma json_wf_header [simp]: "json_wf (JObj (protected_header kid))"
  by (simp add: protected_header_def)

lemma safe_header [simp]: "safe_json (JObj (protected_header kid))"
  by (simp add: protected_header_def)

abbreviation header_bytes :: "string \<Rightarrow> string" where
  "header_bytes kid \<equiv> canonical_bytes (JObj (protected_header kid))"

lemma header_key_bytes:
  assumes "jcs_ok L"
  shows "header_key L (b64url (header_bytes kid)) = Inr kid"
proof -
  let ?d = "sorted_pairs (protected_header kid)"
  have dist: "distinct (map fst (protected_header kid))" by (simp add: protected_header_def)
  have wf: "json_wf (JObj ?d)" and safe: "safe_json (JObj ?d)"
    using json_wf_header [of kid] safe_json_jsort [of "JObj (protected_header kid)"]
    by (simp_all only: json_wf_sorted_pairs jsort_JObj safe_header)
  have canon: "canonicalize L ?d = Inr (header_bytes kid)"
    using canonicalize_iff [OF assms wf] safe by (simp add: canonical_sorted_pairs del: safe_json.simps)
  have keys: "fst ` set (protected_header kid) = {''alg'', ''crit'', ''ecpa_profile'', ''kid'', ''typ''}"
    by (simp add: protected_header_def)
  have at: "map_of ?d ''alg'' = Some (JStr ''EdDSA'')" "map_of ?d ''typ'' = Some (JStr jws_type)"
      "map_of ?d ''crit'' = Some (JArr [JStr ''ecpa_profile''])"
      "map_of ?d ''ecpa_profile'' = Some (JStr statement_profile)" "map_of ?d ''kid'' = Some (JStr kid)"
    unfolding map_of_sorted_pairs [OF dist] by (simp_all add: protected_header_def)
  show ?thesis
    unfolding header_key_def b64url_decode_encode parse_strict_canonical [OF json_wf_header] ebind_simps
    by (simp add: canon keys at)
qed

lemma kid_Inr:
  "(case x of Some (JStr kid) \<Rightarrow> Inr kid | _ \<Rightarrow> Inl e) = Inr kid \<longleftrightarrow> x = Some (JStr kid)"
  by (auto split: option.splits json.splits)

lemma header_key_Inr:
  assumes "jcs_ok L" "header_key L encoded = Inr kid"
  shows "encoded = b64url (header_bytes kid)"
proof -
  from assms(2) obtain raw d c where d: "encoded = b64url raw" "parse_strict raw = Inr d"
      "set (map fst d) = {''alg'', ''crit'', ''ecpa_profile'', ''kid'', ''typ''}" "canonicalize L d = Inr c"
      "map_of d ''alg'' = Some (JStr ''EdDSA'')" "map_of d ''typ'' = Some (JStr jws_type)"
      "map_of d ''crit'' = Some (JArr [JStr ''ecpa_profile''])"
      "map_of d ''ecpa_profile'' = Some (JStr statement_profile)" "map_of d ''kid'' = Some (JStr kid)" "raw = c"
    unfolding header_key_def ebind_Inr_iff check_Inr_iff b64url_decode_iff kid_Inr
    by (elim exE conjE) (rule that, assumption+)
  have wf: "json_wf (JObj d)" by (rule parse_strict_wf [OF d(2)])
  have eq: "jsort (JObj d) = jsort (JObj (protected_header kid))"
  proof (rule dict_determined)
    show "list_all (\<lambda>(k, v). map_option jsort (map_of d k) = Some (jsort v)) (protected_header kid)"
      unfolding protected_header_def list.pred_inject case_prod_conv d(5-9) by simp
  qed (use wf d(3) in \<open>simp_all add: protected_header_def\<close>)
  have "c = canonical_bytes (JObj d)" using canonicalize_iff [OF assms(1) wf] d(4) by blast
  also have "\<dots> = header_bytes kid" by (rule canonical_bytes_cong [OF eq])
  finally show ?thesis using d(1,10) by blast
qed


lemma validate_statement_fields:
  assumes "statement_ok s"
  shows "validate_statement (statement_fields s) = Inr s"
proof -
  have p: "validate_process (statement_fields s) = Inr (sm_process s)"
    using assms unfolding statement_ok_def process_statement_ok_def
    by (simp add: validate_process_def statement_lookups process_statement_dict_def process_field_names_def
      statement_string_def statement_int_def)
  have d: "sm_artifact_digest s \<noteq> []" "sm_evidence_digest s \<noteq> []"
    using assms by (auto simp: statement_ok_def is_digest_def)
  have keys: "set (map fst (statement_fields s)) = set statement_field_names"
    by (simp add: statement_fields_def statement_field_names_def)
  have f: "statement_string ''schema'' (statement_fields s) = Inr (sm_schema s)"
      "statement_string ''profile'' (statement_fields s) = Inr (sm_profile s)"
      "statement_string ''issuer'' (statement_fields s) = Inr (sm_issuer s)"
      "statement_string ''kid'' (statement_fields s) = Inr (sm_kid s)"
      "statement_string ''subject'' (statement_fields s) = Inr (sm_subject s)"
      "statement_string ''plan_id'' (statement_fields s) = Inr (sm_plan_id s)"
      "statement_string ''launch_id'' (statement_fields s) = Inr (sm_launch_id s)"
      "statement_string ''plugin_id'' (statement_fields s) = Inr (sm_plugin_id s)"
      "statement_string ''artifact_digest'' (statement_fields s) = Inr (sm_artifact_digest s)"
      "statement_string ''obligation'' (statement_fields s) = Inr (sm_obligation s)"
      "statement_string ''event'' (statement_fields s) = Inr (sm_event s)"
      "statement_string ''challenge_nonce'' (statement_fields s) = Inr (sm_challenge_nonce s)"
      "statement_string ''evidence_digest'' (statement_fields s) = Inr (sm_evidence_digest s)"
      "statement_int ''observed_at'' (statement_fields s) = Inr (sm_observed_at s)"
      "statement_int ''issued_at'' (statement_fields s) = Inr (sm_issued_at s)"
      "statement_int ''expires_at'' (statement_fields s) = Inr (sm_expires_at s)"
      "statement_claims (statement_fields s) = Inr (sm_critical_claims s)"
    using assms d
    by (simp_all add: statement_ok_def statement_string_Inr statement_int_Inr statement_claims_Inr statement_lookups)
  show ?thesis
    using assms unfolding validate_statement_def keys p f ebind_simps by (simp add: statement_ok_def)
qed

text \<open>The statement is neither early nor late, and lives no longer than the policy allows.\<close>

definition timely :: "int \<Rightarrow> int \<Rightarrow> int \<Rightarrow> int \<Rightarrow> attestation_statement \<Rightarrow> bool" where
  "timely now skew ttl age s \<longleftrightarrow>
     sm_observed_at s \<le> sm_issued_at s \<and> sm_issued_at s \<le> sm_expires_at s
     \<and> sm_issued_at s \<le> now + skew \<and> now - skew \<le> sm_expires_at s
     \<and> sm_expires_at s - sm_issued_at s \<le> ttl \<and> now - sm_observed_at s \<le> age + skew"

lemma statement_in_time_iff: "statement_in_time now skew ttl age s = Inr u \<longleftrightarrow> timely now skew ttl age s"
  by (auto simp: statement_in_time_def timely_def ebind_Inr_iff)

lemma trust_lookup_iff:
  "trust_lookup store issuer kid subject now = Inr e \<longleftrightarrow> map_of store (issuer, kid) = Some e \<and> entry_active e subject now"
  by (auto simp: trust_lookup_def split: option.splits)

text \<open>The envelope of a statement with a given signature.\<close>

definition envelope_of :: "attestation_statement \<Rightarrow> string \<Rightarrow> signed_envelope" where
  "envelope_of s signature = \<lparr>se_payload = canonical_bytes (JObj (statement_fields s)),
     se_detached_jws = b64url (header_bytes (sm_kid s)) @ ''..'' @ b64url signature\<rparr>"

definition signing_input :: "attestation_statement \<Rightarrow> string" where
  "signing_input s = b64url (header_bytes (sm_kid s)) @ ''.'' @ b64url (canonical_bytes (JObj (statement_fields s)))"

lemma payload_read:
  assumes "jcs_ok L"
  shows "(\<exists>d b. parse_strict payload = Inr d \<and> canonicalize L d = Inr b \<and> payload = b \<and> validate_statement d = Inr s)
     \<longleftrightarrow> payload = canonical_bytes (JObj (statement_fields s)) \<and> statement_ok s"
proof
  assume "\<exists>d b. parse_strict payload = Inr d \<and> canonicalize L d = Inr b \<and> payload = b \<and> validate_statement d = Inr s"
  then obtain d where d: "parse_strict payload = Inr d" "canonicalize L d = Inr payload" "validate_statement d = Inr s"
    by blast
  note wf = parse_strict_wf [OF d(1)]
  note v = validate_statement_Inr [OF d(3) wf]
  have "payload = canonical_bytes (JObj d)" using canonicalize_iff [OF assms wf] d(2) by blast
  also have "\<dots> = canonical_bytes (JObj (statement_fields s))" by (rule canonical_bytes_cong [OF v(1)])
  finally show "payload = canonical_bytes (JObj (statement_fields s)) \<and> statement_ok s" using v(2) by blast
next
  let ?d = "sorted_pairs (statement_fields s)"
  assume ok: "payload = canonical_bytes (JObj (statement_fields s)) \<and> statement_ok s"
  have wf: "json_wf (JObj ?d)" using json_wf_statement [of s] by (simp only: json_wf_sorted_pairs)
  have "safe_json (JObj ?d)"
    using safe_statement [of s] ok safe_json_jsort [of "JObj (statement_fields s)"] by (simp only: jsort_JObj)
  then have "canonicalize L ?d = Inr payload"
    using canonicalize_iff [OF assms wf] ok canonical_sorted_pairs by metis
  moreover have "validate_statement ?d = Inr s"
    using validate_statement_fields validate_statement_sorted [OF json_wf_statement] ok by metis
  ultimately show "\<exists>d b. parse_strict payload = Inr d \<and> canonicalize L d = Inr b \<and> payload = b \<and> validate_statement d = Inr s"
    using parse_strict_canonical [OF json_wf_statement] ok by blast
qed


lemma att_verify_Inr:
  "att_verify L env store now skew ttl age = Inr s \<longleftrightarrow>
     (\<exists>a b sig e. split_dots (se_detached_jws env) = [a, [], b] \<and> header_key L a = Inr (sm_kid s)
     \<and> (\<exists>d c. parse_strict (se_payload env) = Inr d \<and> canonicalize L d = Inr c \<and> se_payload env = c
         \<and> validate_statement d = Inr s)
     \<and> sm_schema s = statement_schema \<and> sm_profile s = statement_profile \<and> sm_critical_claims s = []
     \<and> map_of store (sm_issuer s, sm_kid s) = Some e \<and> entry_active e (sm_subject s) now
     \<and> b = b64url sig \<and> jl_verify L (te_public_key e) sig (a @ ''.'' @ b64url (se_payload env))
     \<and> timely now skew ttl age s)"
proof -
  have split: "(case ps of [a, [], b] \<Rightarrow> f a b | _ \<Rightarrow> Inl MALFORMED_JWS) = Inr s
      \<longleftrightarrow> (\<exists>a b. ps = [a, [], b] \<and> f a b = Inr s)" for ps :: "string list" and f
    by (auto split: list.splits)
  show ?thesis
    unfolding att_verify_def split ebind_Inr_iff check_Inr_iff b64url_decode_iff trust_lookup_iff statement_in_time_iff
      sum.inject by (rule iffI; elim exE conjE) (hypsubst, (intro exI conjI; (assumption | simp)))+
qed

lemma verify_iff:
  assumes "jcs_ok L"
  shows "att_verify L env store now skew ttl age = Inr s \<longleftrightarrow>
     (\<exists>e sig. env = envelope_of s sig \<and> map_of store (sm_issuer s, sm_kid s) = Some e
       \<and> entry_active e (sm_subject s) now \<and> jl_verify L (te_public_key e) sig (signing_input s)
       \<and> statement_ok s \<and> sm_schema s = statement_schema \<and> sm_profile s = statement_profile
       \<and> sm_critical_claims s = [] \<and> timely now skew ttl age s)"
proof -
  have env: "env = envelope_of s sig \<longleftrightarrow> se_payload env = canonical_bytes (JObj (statement_fields s))
      \<and> se_detached_jws env = b64url (header_bytes (sm_kid s)) @ ''..'' @ b64url sig" for sig
    by (auto simp: envelope_of_def intro!: signed_envelope.equality)
  have header: "header_key L a = Inr (sm_kid s) \<longleftrightarrow> a = b64url (header_bytes (sm_kid s))" for a
    using header_key_Inr [OF assms] header_key_bytes [OF assms] by blast
  show ?thesis
    unfolding att_verify_Inr payload_read [OF assms] header detached_parts env signing_input_def
    by (auto simp: b64url_no_dot simp del: append.simps)
qed


lemma att_sign_iff:
  assumes "jcs_ok L"
  shows "att_sign L s key = Inr env \<longleftrightarrow> sm_schema s = statement_schema \<and> sm_profile s = statement_profile
     \<and> statement_ok s \<and> env = envelope_of s (jl_sign L key (signing_input s))"
proof -
  have valid: "(\<exists>t. validate_statement (statement_fields s) = Inr t) \<longleftrightarrow> statement_ok s"
    using validate_statement_Inr(2) [OF _ json_wf_statement] validate_own validate_statement_fields by blast
  have payload: "canonicalize L (statement_fields s) = Inr b \<longleftrightarrow> b = canonical_bytes (JObj (statement_fields s))"
    if "statement_ok s" for b
    using canonicalize_iff [OF assms json_wf_statement] safe_statement [OF that] by blast
  have header: "canonicalize L (protected_header k) = Inr b \<longleftrightarrow> b = header_bytes k" for k b
    using canonicalize_iff [OF assms json_wf_header] safe_header by blast
  show ?thesis
  proof (cases "statement_ok s")
    case True
    then show ?thesis
      using payload [OF True] header unfolding att_sign_def ebind_Inr_iff validate_statement_fields [OF True]
      by (auto simp: envelope_of_def signing_input_def Let_def ebind_Inr_iff)
  next
    case False
    with valid show ?thesis unfolding att_sign_def by (auto simp: ebind_Inr_iff)
  qed
qed

subsection \<open>An example\<close>

text \<open>A signature scheme that is enough to evaluate the profile: a signature is the key with the message.\<close>

definition ex_lib :: "(string, string) jws_lib" where
  "ex_lib = \<lparr>jl_jcs = \<lambda>v. Some (canonical_bytes v), jl_sign = \<lambda>k m. k @ m, jl_verify = \<lambda>k sig m. sig = k @ m\<rparr>"

definition ex_entry :: "string trust_entry" where
  "ex_entry = \<lparr>te_issuer = ''host'', te_kid = ''k1'', te_public_key = ''key'', te_subjects = [''host-runtime''],
     te_not_before = 0, te_not_after = 1000, te_enabled = True\<rparr>"

definition ex_trust :: "string trust_store" where
  "ex_trust = [((''host'', ''k1''), ex_entry)]"

text \<open>The statement about the attestation of the example run.\<close>

definition ex_statement :: attestation_statement where
  "ex_statement = \<lparr>sm_schema = statement_schema, sm_profile = statement_profile, sm_issuer = ''host'', sm_kid = ''k1'',
     sm_subject = ''host-runtime'', sm_plan_id = ''plan:sha256:00'', sm_launch_id = ''l1'',
     sm_plugin_id = ''plugin:sha256:00'', sm_artifact_digest = ''sha256:'' @ ex_hash,
     sm_process = \<lparr>pm_host = ''h'', pm_role = ''worker'', pm_ordinal = 0, pm_start_identity = ''s1'', pm_epoch = 1\<rparr>,
     sm_obligation = ''ob'', sm_event = ''loaded'', sm_observed_at = 0, sm_issued_at = 5, sm_expires_at = 65,
     sm_challenge_nonce = ''n1'', sm_evidence_digest = ''sha256:'' @ ex_hash, sm_critical_claims = []\<rparr>"

lemma ex_trust_new: "trust_store_new [ex_entry] = Inr ex_trust"
  by (simp add: trust_store_new_def trust_add_def entry_valid_def ex_trust_def ex_entry_def)

lemma ex_lib_ok: "jcs_ok ex_lib" "key_pair ex_lib ''key'' (te_public_key ex_entry)"
  by (simp_all add: jcs_ok_def key_pair_def ex_lib_def ex_entry_def)

lemma is_digest_ex_hash: "is_digest (''sha256:'' @ ex_hash)"
  by (simp add: is_digest_def ex_hash_def list_all_iff code_def)

lemma ex_statement_ok: "statement_ok ex_statement"
  unfolding statement_ok_def ex_statement_def using is_digest_ex_hash
  by (simp add: process_statement_ok_def statement_schema_def statement_profile_def max_safe_integer_def)

lemma ex_active: "entry_active ex_entry (sm_subject ex_statement) 10" "timely 10 0 300 300 ex_statement"
  by (simp_all add: entry_active_def timely_def ex_entry_def ex_statement_def)

definition ex_signature :: string where
  "ex_signature = ''key'' @ signing_input ex_statement"

lemma ex_statement_sel:
  "sm_schema ex_statement = statement_schema" "sm_profile ex_statement = statement_profile"
  "sm_issuer ex_statement = ''host''" "sm_kid ex_statement = ''k1''" "sm_critical_claims ex_statement = []"
  by (simp_all add: ex_statement_def)

lemma ex_lookup: "map_of ex_trust (sm_issuer ex_statement, sm_kid ex_statement) = Some ex_entry"
  by (simp add: ex_trust_def ex_statement_sel)

lemma ex_sign: "att_sign ex_lib ex_statement ''key'' = Inr (envelope_of ex_statement ex_signature)"
  unfolding att_sign_iff [OF ex_lib_ok(1)]
  by (simp add: ex_statement_sel ex_statement_ok ex_signature_def) (simp add: ex_lib_def)

subsection \<open>The properties\<close>

text \<open>
  C9. What \<open>verify\<close> accepts, exactly: an envelope verifies as the statement \<open>s\<close> if and only if its
  payload is the canonical bytes of \<open>s\<close>, its JWS is the one protected header of the key of \<open>s\<close> with an
  empty payload part and the base64url of a signature, the trust store has an active entry for the
  issuer, key and subject under whose public key the signature of header and payload verifies, \<open>s\<close> is
  well-formed, of this schema and profile, without critical claims, and neither early, nor expired, nor
  older or longer lived than the policy allows.  So nothing in an accepted envelope but the signature
  can vary for the same statement.
\<close>

theorem verify_accepts_iff:
  assumes "jcs_ok L"
  shows "att_verify L env store now skew ttl age = Inr s \<longleftrightarrow>
     (\<exists>e sig. env = envelope_of s sig \<and> map_of store (sm_issuer s, sm_kid s) = Some e
       \<and> entry_active e (sm_subject s) now \<and> jl_verify L (te_public_key e) sig (signing_input s)
       \<and> statement_ok s \<and> sm_schema s = statement_schema \<and> sm_profile s = statement_profile
       \<and> sm_critical_claims s = [] \<and> timely now skew ttl age s)"
  by (rule verify_iff [OF assms])

theorem verify_accepts_iff_witness:
  "jcs_ok ex_lib \<and> att_verify ex_lib (envelope_of ex_statement ex_signature) ex_trust 10 0 300 300 = Inr ex_statement"
proof -
  have "jl_verify ex_lib (te_public_key ex_entry) ex_signature (signing_input ex_statement)"
    by (simp add: ex_lib_def ex_entry_def ex_signature_def)
  with ex_lookup ex_active ex_statement_ok ex_statement_sel(1,2,5) ex_lib_ok(1) show ?thesis
    unfolding verify_accepts_iff [OF ex_lib_ok(1)] by blast
qed

text \<open>
  C29. Signing and verifying fit together: an envelope made by \<open>sign\<close> with the private key of a trusted
  entry verifies, and gives back the signed statement, exactly when the entry is active for its
  subject, the statement has no critical claims and is in time.
\<close>

theorem sign_verify_roundtrip:
  assumes "jcs_ok L" and "key_pair L key (te_public_key e)" and "att_sign L s key = Inr env"
    and "map_of store (sm_issuer s, sm_kid s) = Some e"
  shows "att_verify L env store now skew ttl age = Inr s \<longleftrightarrow>
     entry_active e (sm_subject s) now \<and> sm_critical_claims s = [] \<and> timely now skew ttl age s"
proof -
  from assms(3) have s: "sm_schema s = statement_schema" "sm_profile s = statement_profile" "statement_ok s"
      "env = envelope_of s (jl_sign L key (signing_input s))"
    by (simp_all add: att_sign_iff [OF assms(1)])
  have "jl_verify L (te_public_key e) (jl_sign L key (signing_input s)) (signing_input s)"
    using assms(2) by (simp add: key_pair_def)
  with s assms(4) show ?thesis unfolding verify_iff [OF assms(1)] by auto
qed

theorem sign_verify_roundtrip_witness:
  "att_sign ex_lib ex_statement ''key'' = Inr (envelope_of ex_statement ex_signature)
   \<and> att_verify ex_lib (envelope_of ex_statement ex_signature) ex_trust 10 0 300 300 = Inr ex_statement"
  using sign_verify_roundtrip [OF ex_lib_ok ex_sign ex_lookup] ex_active ex_statement_sel(5) ex_sign by blast

end
