(* ===== verification/Signed_Evidence.thy ===== *)
theory Signed_Evidence
  imports Coordinator_Safety Attestation_Verify
begin

section \<open>Signed evidence behind a commit\<close>

text \<open>
  The coordinator with the verifier of the attestation profile.  \<open>signed_services\<close> puts
  \<open>SignedAttestationVerifier.verify\<close> in the place of \<open>EvidenceVerifier\<close>; a signed deployment is one in
  which every observation goes through it, with one trust store and policy and whatever envelopes
  it is given.  The evidence rows such a deployment has were all signed.
\<close>

definition signed_services ::
  "(string \<Rightarrow> string) \<Rightarrow> ('sk, 'pk) jws_lib \<Rightarrow> 'pk signed_verifier \<Rightarrow> 'h services \<Rightarrow> 'h services" where
  "signed_services sha L V S = S\<lparr>
     sv_verify := \<lambda>item now p. lift_result
       (map_sum (\<lambda>e. AttestationError (attestation_code_value e)) id (signed_verify sha L V item now p)),
     sv_signed_verifier := True\<rparr>"

inductive signed_step ::
  "(string \<Rightarrow> string) \<Rightarrow> ('sk, 'pk) jws_lib \<Rightarrow> 'pk signed_verifier \<Rightarrow>
   ('h, 'e) coordinator \<Rightarrow> ('h, 'e) coordinator \<Rightarrow> bool"
  for sha :: "string \<Rightarrow> string" and L :: "('sk, 'pk) jws_lib" and V :: "'pk signed_verifier" where
  quiet: "co_quiet_step sha c c' \<Longrightarrow> signed_step sha L V c c'"
| observe: "signed_step sha L V c
     (snd (co_observe sha (signed_services sha L (V\<lparr>vr_envelopes := envelopes\<rparr>) S) pid item now c))"

inductive signed_reachable ::
  "(string \<Rightarrow> string) \<Rightarrow> ('sk, 'pk) jws_lib \<Rightarrow> 'pk signed_verifier \<Rightarrow> ('h, 'e) coordinator \<Rightarrow> bool"
  for sha :: "string \<Rightarrow> string" and L :: "('sk, 'pk) jws_lib" and V :: "'pk signed_verifier" where
  new: "signed_reachable sha L V (co_new store_new env g faults clock)"
| step: "signed_reachable sha L V c \<Longrightarrow> signed_step sha L V c c' \<Longrightarrow> signed_reachable sha L V c'"

lemma signed_reachable_co: "signed_reachable sha L V c \<Longrightarrow> co_reachable sha c"
proof (induction rule: signed_reachable.induct)
  case (step c c')
  from step.hyps(2) have "co_step sha c c'" by cases (auto intro: co_step.intros)
  with step.IH show ?case by (rule co_reachable.step)
qed (rule co_reachable.new)

subsection \<open>What an evidence row states\<close>

definition states_row :: "attestation_statement \<Rightarrow> evidence_row \<Rightarrow> bool" where
  "states_row s r \<longleftrightarrow>
     sm_plan_id s = ev_plan_id r \<and> sm_launch_id s = ev_launch_id r \<and> sm_plugin_id s = ev_artifact_id r
     \<and> pm_role (sm_process s) = ev_role r \<and> pm_ordinal (sm_process s) = ev_ordinal r
     \<and> pm_epoch (sm_process s) = ev_epoch r \<and> sm_obligation s = ev_obligation_id r \<and> sm_event s = ev_event r
     \<and> sm_issued_at s = ev_issued_at r \<and> sm_observed_at s = ev_observed_at r \<and> sm_expires_at s = ev_expires_at r
     \<and> sm_challenge_nonce s = ev_nonce r \<and> sm_subject s = ev_authority r \<and> sm_issuer s = ev_issuer r
     \<and> sm_kid s = ev_kid r \<and> sm_evidence_digest s = ev_evidence_digest r \<and> sm_artifact_digest s = ev_artifact_digest r"

text \<open>A statement of the row was signed under a key that was trusted and in time when it was verified.\<close>

definition attested :: "('sk, 'pk) jws_lib \<Rightarrow> 'pk signed_verifier \<Rightarrow> evidence_row \<Rightarrow> bool" where
  "attested L V r \<longleftrightarrow> (\<exists>s e sig now. states_row s r \<and> statement_ok s
     \<and> map_of (vr_trust_store V) (sm_issuer s, sm_kid s) = Some e \<and> entry_active e (sm_subject s) now
     \<and> jl_verify L (te_public_key e) sig (signing_input s)
     \<and> timely now (vr_clock_skew V) (vr_max_ttl V) (vr_max_observation_age V) s)"

lemma attested_valid [simp]: "attested L V (r\<lparr>ev_valid := b\<rparr>) = attested L V r"
  by (simp add: attested_def states_row_def)

lemma signed_verify_attested:
  assumes "jcs_ok L" and "signed_verify sha L (V\<lparr>vr_envelopes := envelopes\<rparr>) item now p = Inr u"
    and "at_plan_id item = pid"
  shows "attested L V (evidence_row_of pid epoch item)"
proof -
  from assms(2) obtain env s where "att_verify L env (vr_trust_store V) now (vr_clock_skew V) (vr_max_ttl V)
      (vr_max_observation_age V) = Inr s" and binds: "statement_binds s item"
    by (auto simp: signed_verify_def ebind_Inr_iff split: option.splits)
  then obtain e sig where "map_of (vr_trust_store V) (sm_issuer s, sm_kid s) = Some e" "entry_active e (sm_subject s) now"
      "jl_verify L (te_public_key e) sig (signing_input s)" "statement_ok s"
      "timely now (vr_clock_skew V) (vr_max_ttl V) (vr_max_observation_age V) s"
    unfolding verify_iff [OF assms(1)] by blast
  moreover from binds assms(3) have "states_row s (evidence_row_of pid epoch item)"
    by (simp add: statement_binds_def states_row_def evidence_row_of_def)
  ultimately show ?thesis unfolding attested_def by blast
qed

subsection \<open>Observations\<close>

lemma signed_services_verify:
  "sv_verify (signed_services sha L V S) item now p h = (Inr u, h') \<longleftrightarrow> signed_verify sha L V item now p = Inr u \<and> h' = h"
  by (cases "signed_verify sha L V item now p") (auto simp: signed_services_def lift_result_def)

lemma signed_observe_kept:
  assumes "jcs_ok L" and "list_all (attested L V) (st_evidence (co_db c))"
    and S: "S = signed_services sha L (V\<lparr>vr_envelopes := envelopes\<rparr>) S0"
  shows "list_all (attested L V) (st_evidence (co_db (snd (co_observe sha S pid item now c))))"
proof (cases "co_observe sha S pid item now c")
  case (Pair r c')
  show ?thesis
  proof (cases r)
    case (Inl e)
    with Pair have "co_db c' = co_db c" using pwp_Inl [OF cwp_observe_raises] by auto
    with Pair assms(2) show ?thesis by simp
  next
    case (Inr u)
    with Pair have "co_observe sha S pid item now c = (Inr u, c')" by simp
    from pwp_Inr [OF ewp_observe this]
    have acc: "evidence_accepted sha S pid item (co_db c)"
      and ev: "st_evidence (co_db c') = st_evidence (co_db c) @ [evidence_row_of pid (co_manager_epoch c) item]"
      by simp_all
    from acc S obtain p t where "signed_verify sha L (V\<lparr>vr_envelopes := envelopes\<rparr>) item t p = Inr ()"
        and "at_plan_id item = pid"
      by (auto simp: evidence_accepted_def signed_services_verify)
    from signed_verify_attested [OF assms(1) this] Pair ev assms(2) show ?thesis by simp
  qed
qed

lemma signed_evidence_attested:
  assumes "jcs_ok L" and "signed_reachable sha L V c"
  shows "list_all (attested L V) (st_evidence (co_db c))"
  using assms(2)
proof (induction rule: signed_reachable.induct)
  case (new env g faults clock)
  then show ?case by (simp add: store_boot_def store_new_def Let_def)
next
  case (step c c')
  from step.hyps(2) show ?case
  proof cases
    case quiet
    with quiet_step_kept [of sha c c' "attested L V"] step.IH show ?thesis by (simp add: evidence_kept_def)
  next
    case (observe envelopes S pid item now)
    show ?thesis unfolding observe by (rule signed_observe_kept [OF assms(1) step.IH refl])
  qed
qed


subsection \<open>The property\<close>

text \<open>One required process of an obligation, and the live row that speaks for it.\<close>

definition row_covers :: "string \<Rightarrow> store_db \<Rightarrow> evidence_obligation \<Rightarrow> int \<Rightarrow> evidence_row \<Rightarrow> bool" where
  "row_covers pid d b ordinal r \<longleftrightarrow> ev_role r = ob_role b \<and> ev_ordinal r = ordinal \<and> ev_obligation_id r = ob_id b
     \<and> ev_event r = ob_event b
     \<and> (\<exists>i \<in> set (st_inventory d). iv_plan_id i = pid \<and> iv_role i = ob_role b \<and> iv_ordinal i = ordinal \<and> iv_epoch i = ev_epoch r)"

lemma complete_covers:
  assumes "store_evidence_complete sha p now epoch d" and "b \<in> set (pl_obligations p)" and "i \<in> set (ob_required_ordinals b)"
  obtains r where "r \<in> set (live_evidence (plan_id sha p) epoch d)" "now \<le> ev_expires_at r"
    "row_covers (plan_id sha p) d b i r"
proof -
  let ?by = "map_of (rev (process_epochs (plan_id sha p) d))"
  from assms obtain e where e: "?by (ob_role b, i) = Some e"
    and ob: "(ob_role b, i, e, ob_id b, ob_event b) \<in> (\<lambda>r. (ev_role r, ev_ordinal r, ev_epoch r, ev_obligation_id r, ev_event r)) `
      set (filter (\<lambda>r. now \<le> ev_expires_at r) (live_evidence (plan_id sha p) epoch d))"
    by (fastforce simp: store_evidence_complete_def Let_def list_all_iff split: option.splits)
  from ob obtain r where r: "r \<in> set (live_evidence (plan_id sha p) epoch d)" "now \<le> ev_expires_at r"
      "ev_role r = ob_role b" "ev_ordinal r = i" "ev_epoch r = e" "ev_obligation_id r = ob_id b" "ev_event r = ob_event b"
    by auto
  from map_of_SomeD [OF e] obtain q where "q \<in> set (st_inventory d)" "iv_plan_id q = plan_id sha p" "iv_role q = ob_role b"
      "iv_ordinal q = i" "iv_epoch q = e"
    by (auto simp: process_epochs_def)
  with r have "row_covers (plan_id sha p) d b i r" by (auto simp: row_covers_def)
  with r(1,2) show thesis by (rule that)
qed

text \<open>
  C4. Behind every commit of a signed deployment there is a signature for every required process:
  when \<open>commit\<close> returns, then for every obligation of the stored plan and every ordinal it requires
  the store has a live row of the current manager epoch, for the process the inventory has at that
  role and ordinal, whose contents are those of a well-formed statement that was signed under a key the
  trust store has, active for its subject and in time when it was verified.
\<close>

theorem signed_commit_attested:
  assumes "jcs_ok L" and "signed_reachable sha L V c" and "co_commit sha S A pid expected c = (Inr g, c')"
  shows "\<exists>row p. activation_of pid (co_db c) = Some row \<and> plan_from_json (ac_plan_json row) = Inr p
     \<and> (\<forall>b \<in> set (pl_obligations p). \<forall>i \<in> set (ob_required_ordinals b).
         \<exists>r \<in> set (live_evidence pid (co_manager_epoch c) (co_db c)). attested L V r \<and> row_covers pid (co_db c) b i r)"
proof -
  have inv: "store_inv sha (co_db c)" by (rule co_reachable_inv [OF signed_reachable_co [OF assms(2)]])
  from commit_saw_evidence [OF assms(3)] obtain row p now where p: "activation_of pid (co_db c) = Some row"
      "plan_from_json (ac_plan_json row) = Inr p" "store_evidence_complete sha p now (co_manager_epoch c) (co_db c)"
    by (auto simp: commit_evidence_def)
  have pid: "plan_id sha p = pid" by (rule stored_plan_id [OF inv p(1,2)])
  have "\<exists>r \<in> set (live_evidence pid (co_manager_epoch c) (co_db c)). attested L V r \<and> row_covers pid (co_db c) b i r"
    if "b \<in> set (pl_obligations p)" "i \<in> set (ob_required_ordinals b)" for b i
    using complete_covers [OF p(3) that] signed_evidence_attested [OF assms(1,2)]
    by (auto simp: pid live_evidence_def list_all_iff)
  with p(1,2) show ?thesis by blast
qed

subsection \<open>The example run, signed\<close>

definition ex_verifier :: "string signed_verifier" where
  "ex_verifier = \<lparr>vr_envelopes = [''n1'' \<mapsto> envelope_of ex_statement ex_signature], vr_trust_store = ex_trust,
     vr_clock_skew = 0, vr_max_ttl = 300, vr_max_observation_age = 300\<rparr>"

lemma ex_att_verify:
  "att_verify ex_lib (envelope_of ex_statement ex_signature) ex_trust 10 0 300 300 = Inr ex_statement"
proof -
  have "jl_verify ex_lib (te_public_key ex_entry) ex_signature (signing_input ex_statement)"
    by (simp add: ex_lib_def ex_entry_def ex_signature_def)
  with ex_lookup ex_active ex_statement_ok ex_statement_sel(1,2,5) show ?thesis
    unfolding verify_iff [OF ex_lib_ok(1)] by blast
qed

lemma ex_signed_verify: "signed_verify ex_sha ex_lib ex_verifier ex_attestation 10 ex_plan = Inr ()"
  using ex_att_verify
  by (simp add: signed_verify_def ex_verifier_def ex_attestation_def ex_plan_def ex_plugin_def ex_ids
    ex_statement_def statement_binds_def ex_process_def)

lemma ex_signed_observe:
  "co_observe ex_sha (signed_services ex_sha ex_lib ex_verifier ex_services) ''plan:sha256:00'' ex_attestation (Some 10)
     ex_co_launched = (Inr (), ex_co_observed)"
  by (rule ex_co_observe_by) (simp add: signed_services_verify ex_signed_verify)

lemma ex_signed_reachable:
  "signed_reachable ex_sha ex_lib ex_verifier (ex_co_observed :: (fake_env, 'e) coordinator)"
proof -
  have "json_wf (plan_dict ex_plan)" by (simp add: json_wf_plan ex_predecessor_def)
  note plan = co_quiet_step.plan [OF this, of ex_sha ex_coordinator ex_services, unfolded ex_co_plan snd_conv]
  note prepare = co_quiet_step.prepare [of ex_sha ex_co_planned ex_services _ "''plan:sha256:00''", unfolded ex_co_prepare snd_conv]
  note launch = co_quiet_step.launch [of ex_sha ex_co_prepared ex_services "''plan:sha256:00''" "''l1''",
    unfolded ex_co_launch snd_conv]
  have observe: "signed_step ex_sha ex_lib ex_verifier ex_co_launched (ex_co_observed :: (fake_env, 'e) coordinator)"
    using signed_step.observe [of ex_sha ex_lib ex_verifier "ex_co_launched :: (fake_env, 'e) coordinator"
      "vr_envelopes ex_verifier" ex_services "''plan:sha256:00''" ex_attestation "Some 10"]
    by (simp add: ex_signed_observe)
  have "signed_reachable ex_sha ex_lib ex_verifier (ex_coordinator :: (fake_env, 'e) coordinator)"
    unfolding ex_coordinator_def by (rule signed_reachable.new)
  from this plan [THEN signed_step.quiet] have "signed_reachable ex_sha ex_lib ex_verifier (ex_co_planned :: (fake_env, 'e) coordinator)"
    by (rule signed_reachable.step)
  from this prepare [THEN signed_step.quiet] have "signed_reachable ex_sha ex_lib ex_verifier (ex_co_prepared :: (fake_env, 'e) coordinator)"
    by (rule signed_reachable.step)
  from this launch [THEN signed_step.quiet] have "signed_reachable ex_sha ex_lib ex_verifier (ex_co_launched :: (fake_env, 'e) coordinator)"
    by (rule signed_reachable.step)
  from this observe show ?thesis by (rule signed_reachable.step)
qed

theorem signed_commit_attested_witness:
  "jcs_ok ex_lib \<and> signed_reachable ex_sha ex_lib ex_verifier (ex_co_observed :: (fake_env, det_traffic) coordinator)
   \<and> co_commit ex_sha ex_services det_adapter ''plan:sha256:00'' 0 ex_co_observed = (Inr 1, ex_co_effective)
   \<and> (\<exists>r. r \<in> set (live_evidence ''plan:sha256:00'' 1 (co_db (ex_co_observed :: (fake_env, det_traffic) coordinator)))
       \<and> attested ex_lib ex_verifier r)"
proof -
  let ?c = "ex_co_observed :: (fake_env, det_traffic) coordinator"
  have row: "activation_of ''plan:sha256:00'' (co_db ?c) = Some (ex_activation Observing (Some ''l1''))"
    by (simp add: ex_co_observed_def ex_co_def activation_of_def ex_activation_def)
  have plan: "plan_from_json (ac_plan_json (ex_activation Observing (Some ''l1''))) = Inr ex_plan"
    by (simp add: ex_activation_def)
  have epoch: "co_manager_epoch ?c = 1" by (simp add: ex_co_observed_def ex_co_def)
  from signed_commit_attested [OF ex_lib_ok(1) ex_signed_reachable ex_co_commit [of det_adapter]] row plan
  have "\<exists>r. r \<in> set (live_evidence ''plan:sha256:00'' (co_manager_epoch ?c) (co_db ?c)) \<and> attested ex_lib ex_verifier r"
    by auto
  with epoch ex_lib_ok(1) ex_signed_reachable ex_co_commit [of det_adapter] show ?thesis by auto
qed

end
