(* ===== verification/Plan_Artifact.thy ===== *)
theory Plan_Artifact
  imports Plan_Json "HOL-Library.Word"
begin

section \<open>Execution-plan artifacts (\<^verbatim>\<open>plan_artifact.py\<close>)\<close>

text \<open>
  The on-disk form of a plan: the canonical bytes of an envelope with the plan and its content id,
  and a newline.  \<open>parse_plan_artifact\<close> is modelled check by check in the order of the code, with
  the message of every \<open>PlanArtifactError\<close>; \<open>canonical_uri\<close> can raise a \<open>ContractError\<close> through it.
  \<open>read_plan_artifact\<close> takes what the operating system answers about the path as an argument.
  The main result, \<open>parse_iff\<close>, says exactly which bytes are accepted and as which plan.
\<close>

datatype artifact_exn =
    PlanArtifactError string
  | RaisedBelow py_exn

definition artifact_schema :: string where
  "artifact_schema = ''ecpa-execution-plan/v1''"

definition plan_artifact_value :: "(string \<Rightarrow> string) \<Rightarrow> plan \<Rightarrow> json" where
  "plan_artifact_value sha p = JObj [
     (''schema'', JStr artifact_schema), (''plan_id'', JStr (plan_id sha p)), (''plan'', plan_dict p)]"

definition plan_artifact_bytes :: "(string \<Rightarrow> string) \<Rightarrow> plan \<Rightarrow> string" where
  "plan_artifact_bytes sha p = canonical_bytes (plan_artifact_value sha p) @ [CHR 10]"

subsection \<open>Fields\<close>

definition exact_fields :: "json \<Rightarrow> string list \<Rightarrow> string \<Rightarrow> artifact_exn + (string \<times> json) list" where
  "exact_fields v names context = (case v of
     JObj d \<Rightarrow> if set (map fst d) = set names then Inr d
               else Inl (PlanArtifactError (context @ '' fields do not match the schema''))
   | _ \<Rightarrow> Inl (PlanArtifactError (context @ '' fields do not match the schema'')))"

definition artifact_item :: "(string \<times> json) list \<Rightarrow> string \<Rightarrow> artifact_exn + json" where
  "artifact_item d k = (case map_of d k of None \<Rightarrow> Inl (RaisedBelow (KeyError k)) | Some v \<Rightarrow> Inr v)"

definition token :: "string \<Rightarrow> bool" where
  "token s \<longleftrightarrow> s \<noteq> [] \<and> \<not> list_ex is_space s"

definition artifact_string :: "json \<Rightarrow> string \<Rightarrow> artifact_exn + string" where
  "artifact_string v context = (case v of
     JStr s \<Rightarrow> if s = [] \<or> list_ex is_space s
               then Inl (PlanArtifactError (context @ '' must be a non-empty string without whitespace'')) else Inr s
   | _ \<Rightarrow> Inl (PlanArtifactError (context @ '' must be a non-empty string without whitespace'')))"

definition artifact_integer :: "json \<Rightarrow> string \<Rightarrow> artifact_exn + int" where
  "artifact_integer v context = (case v of
     JInt i \<Rightarrow> if i < 0 then Inl (PlanArtifactError (context @ '' must be a non-negative integer'')) else Inr i
   | _ \<Rightarrow> Inl (PlanArtifactError (context @ '' must be a non-negative integer'')))"

definition artifact_sha256 :: "json \<Rightarrow> string \<Rightarrow> artifact_exn + string" where
  "artifact_sha256 v context = ebind (artifact_string v context) (\<lambda>digest.
     if length digest \<noteq> 64 \<or> list_ex (\<lambda>c. c \<notin> set ''0123456789abcdef'') digest
     then Inl (PlanArtifactError (context @ '' must be a lowercase SHA-256 digest'')) else Inr digest)"

subsection \<open>The parts of a plan\<close>

definition artifact_plugin :: "nat \<Rightarrow> json \<Rightarrow> artifact_exn + plugin_identity" where
  "artifact_plugin index v =
     ebind (exact_fields v [''namespace'', ''name'', ''version'', ''artifact_sha256''] (''plugin '' @ nat_str index)) (\<lambda>d.
     ebind (ebind (artifact_item d ''namespace'') (\<lambda>x. artifact_string x ''plugin namespace'')) (\<lambda>ns.
     ebind (ebind (artifact_item d ''name'') (\<lambda>x. artifact_string x ''plugin name'')) (\<lambda>n.
     ebind (ebind (artifact_item d ''version'') (\<lambda>x. artifact_string x ''plugin version'')) (\<lambda>ver.
     ebind (ebind (artifact_item d ''artifact_sha256'') (\<lambda>x. artifact_sha256 x ''plugin artifact digest'')) (\<lambda>a.
     Inr \<lparr>pi_namespace = ns, pi_name = n, pi_version = ver, pi_artifact_sha256 = a\<rparr>)))))"

definition artifact_host :: "json \<Rightarrow> artifact_exn + host_compatibility" where
  "artifact_host v =
     ebind (exact_fields v [''runtime'', ''version'', ''provider'', ''abi''] ''host'') (\<lambda>d.
     ebind (ebind (artifact_item d ''runtime'') (\<lambda>x. artifact_string x ''host runtime'')) (\<lambda>r.
     ebind (ebind (artifact_item d ''version'') (\<lambda>x. artifact_string x ''host version'')) (\<lambda>ver.
     ebind (ebind (artifact_item d ''provider'') (\<lambda>x. artifact_string x ''host provider'')) (\<lambda>p.
     ebind (ebind (artifact_item d ''abi'') (\<lambda>x. artifact_string x ''host abi'')) (\<lambda>a.
     Inr \<lparr>hc_runtime = r, hc_version = ver, hc_provider = p, hc_abi = a\<rparr>)))))"

text \<open>\<open>re.fullmatch(r"urn:ecpa:resource:[a-z0-9._-]+", uri)\<close>.\<close>

definition resource_uri :: "string \<Rightarrow> bool" where
  "resource_uri u \<longleftrightarrow> prefix ''urn:ecpa:resource:'' u \<and> drop 18 u \<noteq> [] \<and>
     list_all (\<lambda>c. 97 \<le> code c \<and> code c \<le> 122 \<or> 48 \<le> code c \<and> code c \<le> 57 \<or> c \<in> set ''._-'') (drop 18 u)"

definition claim_modes :: "string list" where
  "claim_modes = [''exclusive'', ''shared-read'']"

definition artifact_claim :: "nat \<Rightarrow> json \<Rightarrow> artifact_exn + resource_claim" where
  "artifact_claim index v =
     ebind (exact_fields v [''uri'', ''owner'', ''mode''] (''claim '' @ nat_str index)) (\<lambda>d.
     ebind (ebind (artifact_item d ''uri'') (\<lambda>x. artifact_string x ''claim URI'')) (\<lambda>uri.
     ebind (case canonical_uri uri ''resource'' of Inl e \<Rightarrow> Inl (RaisedBelow e) | Inr _ \<Rightarrow> Inr ()) (\<lambda>_.
     ebind (check (resource_uri uri) (PlanArtifactError ''claim URI does not match the resource profile'')) (\<lambda>_.
     ebind (ebind (artifact_item d ''mode'') (\<lambda>x. artifact_string x ''claim mode'')) (\<lambda>md.
     ebind (check (md \<in> set claim_modes) (PlanArtifactError ''claim mode is unsupported'')) (\<lambda>_.
     ebind (ebind (artifact_item d ''owner'') (\<lambda>x. artifact_string x ''claim owner'')) (\<lambda>ow.
     Inr \<lparr>rc_uri = uri, rc_owner = ow, rc_mode = md\<rparr>)))))))"

definition artifact_obligation :: "nat \<Rightarrow> json \<Rightarrow> artifact_exn + evidence_obligation" where
  "artifact_obligation index v =
     ebind (exact_fields v [''obligation_id'', ''role'', ''event'', ''required_ordinals''] (''obligation '' @ nat_str index)) (\<lambda>d.
     ebind (artifact_item d ''required_ordinals'') (\<lambda>ords.
     ebind (case ords of JArr (o1 # os) \<Rightarrow> Inr (o1 # os)
            | _ \<Rightarrow> Inl (PlanArtifactError ''evidence obligation requires target ordinals'')) (\<lambda>os.
     ebind (emap (\<lambda>x. artifact_integer x ''required ordinal'') os) (\<lambda>parsed.
     ebind (check (sort (remdups parsed) = parsed) (PlanArtifactError ''required ordinals must be unique and sorted'')) (\<lambda>_.
     ebind (ebind (artifact_item d ''obligation_id'') (\<lambda>x. artifact_string x ''obligation id'')) (\<lambda>i.
     ebind (ebind (artifact_item d ''role'') (\<lambda>x. artifact_string x ''obligation role'')) (\<lambda>r.
     ebind (ebind (artifact_item d ''event'') (\<lambda>x. artifact_string x ''obligation event'')) (\<lambda>e.
     Inr \<lparr>ob_id = i, ob_role = r, ob_event = e, ob_required_ordinals = parsed\<rparr>))))))))"

definition optional_string :: "json \<Rightarrow> string \<Rightarrow> artifact_exn + string option" where
  "optional_string v context =
     (if v = JNull then Inr None else ebind (artifact_string v context) (\<lambda>s. Inr (Some s)))"

definition artifact_items :: "(nat \<Rightarrow> json \<Rightarrow> artifact_exn + 'a) \<Rightarrow> json list \<Rightarrow> artifact_exn + 'a list" where
  "artifact_items f vs = emap (\<lambda>(index, v). f index v) (enumerate 0 vs)"

text \<open>The members of the plan, and the plan itself.\<close>

definition artifact_plugins :: "(string \<Rightarrow> string) \<Rightarrow> json \<Rightarrow> artifact_exn + plugin_identity list" where
  "artifact_plugins sha v =
     ebind (case v of JArr (x # xs) \<Rightarrow> Inr (x # xs)
            | _ \<Rightarrow> Inl (PlanArtifactError ''execution plan requires at least one plugin'')) (\<lambda>items.
     ebind (artifact_items artifact_plugin items) (\<lambda>plugins.
     ebind (check (\<not> has_duplicates (map (plugin_id sha) plugins))
              (PlanArtifactError ''execution plan contains duplicate plugins'')) (\<lambda>_.
     Inr plugins)))"

definition artifact_claims :: "json \<Rightarrow> artifact_exn + resource_claim list" where
  "artifact_claims v =
     ebind (case v of JArr xs \<Rightarrow> Inr xs | _ \<Rightarrow> Inl (PlanArtifactError ''plan claims must be an array'')) (\<lambda>items.
     ebind (artifact_items artifact_claim items) (\<lambda>claims.
     ebind (check (\<not> has_duplicates (map rc_uri claims))
              (PlanArtifactError ''execution plan contains duplicate resource claims'')) (\<lambda>_.
     Inr claims)))"

definition artifact_obligations :: "json \<Rightarrow> artifact_exn + evidence_obligation list" where
  "artifact_obligations v =
     ebind (case v of JArr (x # xs) \<Rightarrow> Inr (x # xs)
            | _ \<Rightarrow> Inl (PlanArtifactError ''execution plan requires evidence obligations'')) (\<lambda>items.
     ebind (artifact_items artifact_obligation items) (\<lambda>obligations.
     ebind (check (\<not> has_duplicates (map ob_id obligations))
              (PlanArtifactError ''execution plan contains duplicate obligations'')) (\<lambda>_.
     Inr obligations)))"

text \<open>
  The predecessor is read around \<open>fallback_proven\<close>: its plan id and inputs before that check, its
  generation after it.
\<close>

definition artifact_predecessor :: "json \<Rightarrow> json \<Rightarrow> artifact_exn + predecessor_snapshot \<times> bool" where
  "artifact_predecessor v fallback_proven =
     ebind (exact_fields v [''generation'', ''plan_id'', ''rendered_inputs''] ''predecessor'') (\<lambda>d.
     ebind (ebind (artifact_item d ''plan_id'') (\<lambda>x. optional_string x ''predecessor plan id'')) (\<lambda>pid.
     ebind (ebind (artifact_item d ''rendered_inputs'') (\<lambda>x. case x of
              JObj r \<Rightarrow> Inr r
            | _ \<Rightarrow> Inl (PlanArtifactError ''predecessor rendered inputs must be an object''))) (\<lambda>r.
     ebind (case fallback_proven of JBool b \<Rightarrow> Inr b
            | _ \<Rightarrow> Inl (PlanArtifactError ''fallback_proven must be boolean'')) (\<lambda>fb.
     ebind (ebind (artifact_item d ''generation'') (\<lambda>x. artifact_integer x ''predecessor generation'')) (\<lambda>g.
     Inr (\<lparr>ps_generation = g, ps_plan_id = pid, ps_rendered_inputs = r\<rparr>, fb))))))"

definition artifact_body :: "(string \<Rightarrow> string) \<Rightarrow> json \<Rightarrow> artifact_exn + plan" where
  "artifact_body sha v =
     ebind (exact_fields v
       [''plugins'', ''host'', ''claims'', ''obligations'', ''predecessor'', ''fallback_proven''] ''plan'') (\<lambda>body.
     ebind (ebind (artifact_item body ''plugins'') (artifact_plugins sha)) (\<lambda>plugins.
     ebind (ebind (artifact_item body ''host'') artifact_host) (\<lambda>host.
     ebind (ebind (artifact_item body ''claims'') artifact_claims) (\<lambda>claims.
     ebind (ebind (artifact_item body ''obligations'') artifact_obligations) (\<lambda>obligations.
     ebind (artifact_item body ''fallback_proven'') (\<lambda>fallback.
     ebind (ebind (artifact_item body ''predecessor'') (\<lambda>x. artifact_predecessor x fallback)) (\<lambda>(predecessor, fb).
     Inr \<lparr>pl_plugins = plugins, pl_host = host, pl_claims = claims, pl_obligations = obligations,
          pl_predecessor = predecessor, pl_fallback_proven = fb\<rparr>)))))))"

definition parse_plan_artifact :: "(string \<Rightarrow> string) \<Rightarrow> string \<Rightarrow> artifact_exn + plan" where
  "parse_plan_artifact sha raw =
     ebind (demand (PlanArtifactError ''execution plan is not valid UTF-8 JSON'') (json_loads raw)) (\<lambda>v.
     ebind (exact_fields v [''schema'', ''plan_id'', ''plan''] ''artifact'') (\<lambda>envelope.
     ebind (check (raw = canonical_bytes (JObj envelope) @ [CHR 10])
              (PlanArtifactError ''execution plan artifact is not canonical'')) (\<lambda>_.
     ebind (artifact_item envelope ''schema'') (\<lambda>schema.
     ebind (check (schema = JStr artifact_schema) (PlanArtifactError ''unsupported execution plan schema'')) (\<lambda>_.
     ebind (ebind (artifact_item envelope ''plan'') (artifact_body sha)) (\<lambda>p.
     ebind (artifact_item envelope ''plan_id'') (\<lambda>pid.
     ebind (check (pid = JStr (plan_id sha p))
              (PlanArtifactError ''execution plan id does not match its content'')) (\<lambda>_.
     Inr p))))))))"

subsection \<open>Reading the file\<close>

text \<open>
  What the operating system answers about a path: \<open>Path.is_absolute\<close>, \<open>Path.is_symlink\<close>,
  \<open>Path.resolve(strict=True)\<close> and \<open>os.open\<close> with \<open>O_NOFOLLOW\<close> (\<open>None\<close> for an \<open>OSError\<close>), and of the open file
  \<open>fstat\<close>'s mode and owner and the bytes read from it.  Modes are \<open>st_mode\<close> words; \<open>S_ISREG\<close> and \<open>S_IMODE\<close>
  are their bit tests (61440 is \<open>0o170000\<close>, 32768 is \<open>0o100000\<close>, 4095 is \<open>0o7777\<close>, 18 is \<open>0o022\<close>).
\<close>

unbundle bit_operations_syntax

record open_file =
  of_mode :: "32 word"
  of_uid :: int
  of_bytes :: string

record path_view =
  pv_absolute :: bool
  pv_symlink :: bool
  pv_resolved :: "string option"
  pv_open :: "open_file option"

record execution_plan_artifact =
  ea_path :: string
  ea_raw :: string
  ea_plan :: plan

definition ea_plan_id :: "(string \<Rightarrow> string) \<Rightarrow> execution_plan_artifact \<Rightarrow> string" where
  "ea_plan_id sha a = plan_id sha (ea_plan a)"

definition s_isreg :: "32 word \<Rightarrow> bool" where
  "s_isreg m \<longleftrightarrow> m AND 61440 = 32768"

definition s_imode :: "32 word \<Rightarrow> 32 word" where
  "s_imode m = m AND 4095"

definition read_plan_artifact ::
  "(string \<Rightarrow> string) \<Rightarrow> (string \<Rightarrow> path_view) \<Rightarrow> int \<Rightarrow> string \<Rightarrow> artifact_exn + execution_plan_artifact" where
  "read_plan_artifact sha os euid path =
     ebind (check (pv_absolute (os path) \<and> \<not> pv_symlink (os path))
              (PlanArtifactError ''execution plan path must be absolute and real'')) (\<lambda>_.
     ebind (demand (PlanArtifactError ''execution plan path is unavailable'') (pv_resolved (os path))) (\<lambda>resolved.
     ebind (check (resolved = path) (PlanArtifactError ''execution plan path must be canonical'')) (\<lambda>_.
     ebind (demand (PlanArtifactError ''cannot open execution plan artifact'') (pv_open (os path))) (\<lambda>f.
     ebind (check (s_isreg (of_mode f) \<and> of_uid f = euid \<and> s_imode (of_mode f) AND 18 = 0)
              (PlanArtifactError ''execution plan must be a private owned regular file'')) (\<lambda>_.
     ebind (parse_plan_artifact sha (of_bytes f)) (\<lambda>p.
     Inr \<lparr>ea_path = path, ea_raw = of_bytes f, ea_plan = p\<rparr>))))))"

subsection \<open>What the parsers accept\<close>

lemma artifact_item_Inr_iff: "artifact_item d k = Inr v \<longleftrightarrow> map_of d k = Some v"
  by (simp add: artifact_item_def split: option.splits)

lemma exact_fields_Inr_iff: "exact_fields v names ctx = Inr d \<longleftrightarrow> v = JObj d \<and> set (map fst d) = set names"
  by (cases v) (auto simp: exact_fields_def)

lemma artifact_string_Inr_iff: "artifact_string v ctx = Inr s \<longleftrightarrow> v = JStr s \<and> token s"
  by (cases v) (auto simp: artifact_string_def token_def)

lemma artifact_integer_Inr_iff: "artifact_integer v ctx = Inr i \<longleftrightarrow> v = JInt i \<and> 0 \<le> i"
  by (cases v) (auto simp: artifact_integer_def)

definition lower_digest :: "string \<Rightarrow> bool" where
  "lower_digest s \<longleftrightarrow> length s = 64 \<and> list_all (\<lambda>c. c \<in> set ''0123456789abcdef'') s"

lemma hex_no_space: "list_all (\<lambda>c. \<not> is_space c) ''0123456789abcdef''"
  by (simp add: is_space_def code_def)

lemma lower_digest_token:
  assumes "lower_digest s"
  shows "token s"
proof -
  have "\<not> is_space c" if "c \<in> set s" for c
  proof -
    have "c \<in> set ''0123456789abcdef''"
      using assms that unfolding lower_digest_def list_all_iff by blast
    then show ?thesis using hex_no_space unfolding list_all_iff by blast
  qed
  moreover have "s \<noteq> []" using assms unfolding lower_digest_def by auto
  ultimately show ?thesis unfolding token_def list_ex_iff by blast
qed

lemma artifact_sha256_Inr_iff: "artifact_sha256 v ctx = Inr s \<longleftrightarrow> v = JStr s \<and> lower_digest s"
proof -
  have "\<not> list_ex (\<lambda>c. c \<notin> set ''0123456789abcdef'') s \<longleftrightarrow> list_all (\<lambda>c. c \<in> set ''0123456789abcdef'') s"
    by (simp add: list_ex_iff list_all_iff del: list.set)
  then show ?thesis
    using lower_digest_token [of s]
    by (auto simp: artifact_sha256_def ebind_Inr_iff artifact_string_Inr_iff lower_digest_def simp del: list.set)
qed

lemma optional_string_Inr_iff:
  "optional_string v ctx = Inr x \<longleftrightarrow> v = jopt x \<and> pred_option token x"
  by (cases x) (auto simp: optional_string_def ebind_Inr_iff artifact_string_Inr_iff jopt_def)

lemmas parse_iffs = ebind_Inr_iff artifact_item_Inr_iff exact_fields_Inr_iff artifact_string_Inr_iff
  artifact_integer_Inr_iff artifact_sha256_Inr_iff optional_string_Inr_iff check_Inr_iff

text \<open>The contract of each part, and that its parser accepts exactly the canonical form of such a part.\<close>

definition plugin_ok :: "plugin_identity \<Rightarrow> bool" where
  "plugin_ok p \<longleftrightarrow> token (pi_namespace p) \<and> token (pi_name p) \<and> token (pi_version p) \<and> lower_digest (pi_artifact_sha256 p)"

definition host_ok :: "host_compatibility \<Rightarrow> bool" where
  "host_ok h \<longleftrightarrow> token (hc_runtime h) \<and> token (hc_version h) \<and> token (hc_provider h) \<and> token (hc_abi h)"

definition claim_ok :: "resource_claim \<Rightarrow> bool" where
  "claim_ok c \<longleftrightarrow> resource_uri (rc_uri c) \<and> token (rc_owner c) \<and> rc_mode c \<in> set claim_modes"

definition artifact_obligation_ok :: "evidence_obligation \<Rightarrow> bool" where
  "artifact_obligation_ok b \<longleftrightarrow> token (ob_id b) \<and> token (ob_role b) \<and> token (ob_event b)
     \<and> ob_required_ordinals b \<noteq> [] \<and> sorted_wrt (<) (ob_required_ordinals b) \<and> list_all (\<lambda>i. 0 \<le> i) (ob_required_ordinals b)"

definition predecessor_ok :: "predecessor_snapshot \<Rightarrow> bool" where
  "predecessor_ok s \<longleftrightarrow> 0 \<le> ps_generation s \<and> pred_option token (ps_plan_id s)
     \<and> jsort (JObj (ps_rendered_inputs s)) = JObj (ps_rendered_inputs s)"

lemma dict_form_iff:
  assumes "canonical_json v" and "distinct (map fst e)"
  shows "v = jsort (JObj e) \<longleftrightarrow>
     (\<exists>d. v = JObj d \<and> set (map fst d) = set (map fst e) \<and> list_all (\<lambda>(k, w). map_of d k = Some (jsort w)) e)"
proof (cases "\<exists>d. v = JObj d")
  case True
  then obtain d where v: "v = JObj d" by blast
  show ?thesis using dict_eq_iff [OF assms(1) [unfolded v] assms(2)] unfolding v by (simp only: json.inject ex_simps simp_thms)
next
  case False
  then show ?thesis by (auto simp: jsort_JObj simp del: jsort.simps)
qed

lemma plugin_iff:
  assumes "canonical_json v"
  shows "artifact_plugin n v = Inr p \<longleftrightarrow> v = jsort (plugin_dict p) \<and> plugin_ok p"
  unfolding artifact_plugin_def plugin_dict_def parse_iffs
  by (subst dict_form_iff [OF assms]) (simp, cases p, auto simp: plugin_ok_def)

lemma host_iff:
  assumes "canonical_json v"
  shows "artifact_host v = Inr h \<longleftrightarrow> v = jsort (host_dict h) \<and> host_ok h"
  unfolding artifact_host_def host_dict_def parse_iffs
  by (subst dict_form_iff [OF assms]) (simp, cases h, auto simp: host_ok_def)

text \<open>A URI of the profile is a token that \<open>canonical_uri\<close> accepts.\<close>

lemma resource_char:
  assumes "97 \<le> code c \<and> code c \<le> 122 \<or> 48 \<le> code c \<and> code c \<le> 57 \<or> c \<in> set ''._-''"
  shows "\<not> is_space c" "lower_char c = c" "c \<noteq> CHR '' ''"
proof -
  have "97 \<le> code c \<and> code c \<le> 122 \<or> 48 \<le> code c \<and> code c \<le> 57 \<or> code c \<in> {46, 95, 45}"
    using assms by (auto simp: code_def)
  then show "\<not> is_space c" "lower_char c = c" "c \<noteq> CHR '' ''"
    by (auto simp: is_space_def lower_char_def code_def)
qed

lemma resource_uri_canonical:
  assumes "resource_uri u"
  shows "token u" "canonical_uri u ''resource'' = Inr u"
proof -
  obtain r where u: "u = ''urn:ecpa:resource:'' @ r" using assms by (auto simp: resource_uri_def prefix_def)
  have r: "\<not> is_space c" "lower_char c = c" "c \<noteq> CHR '' ''" if "c \<in> set r" for c
    using assms that resource_char [of c] unfolding u resource_uri_def list_all_iff by simp_all
  have p: "list_all (\<lambda>c. \<not> is_space c \<and> lower_char c = c \<and> c \<noteq> CHR '' '') ''urn:ecpa:resource:''"
    by (simp add: is_space_def lower_char_def code_def)
  have all: "\<not> is_space c \<and> lower_char c = c \<and> c \<noteq> CHR '' ''" if "c \<in> set u" for c
    using that r [of c] p unfolding u list_all_iff set_append by blast
  show "token u" using all unfolding token_def list_ex_iff by (simp add: u)
  have "py_lower u = u" unfolding py_lower_def using all by (intro map_idI) blast
  moreover have "CHR '' '' \<notin> set u" using all by blast
  moreover have "prefix ''urn:ecpa:resource:'' u" by (simp add: u)
  ultimately show "canonical_uri u ''resource'' = Inr u" by (simp add: canonical_uri_def)
qed

lemma mode_token: "m \<in> set claim_modes \<Longrightarrow> token m"
  by (auto simp: claim_modes_def token_def is_space_def code_def)

lemma uri_step_iff:
  "(case canonical_uri u ''resource'' of Inl e \<Rightarrow> Inl (RaisedBelow e) | Inr _ \<Rightarrow> Inr ()) = Inr x
     \<longleftrightarrow> canonical_uri u ''resource'' = Inr u"
  using canonical_uri_Inr [of u "''resource''"] by (auto split: sum.splits)

lemma claim_iff:
  assumes "canonical_json v"
  shows "artifact_claim n v = Inr c \<longleftrightarrow> v = jsort (claim_dict c) \<and> claim_ok c"
proof -
  have "artifact_claim n v = Inr c \<longleftrightarrow> (\<exists>d. v = JObj d \<and> set (map fst d) = set [''uri'', ''owner'', ''mode'']
      \<and> map_of d ''uri'' = Some (JStr (rc_uri c)) \<and> resource_uri (rc_uri c)
      \<and> map_of d ''mode'' = Some (JStr (rc_mode c)) \<and> rc_mode c \<in> set claim_modes
      \<and> map_of d ''owner'' = Some (JStr (rc_owner c)) \<and> token (rc_owner c))"
    unfolding artifact_claim_def parse_iffs uri_step_iff
    using resource_uri_canonical [of "rc_uri c"] mode_token [of "rc_mode c"] by (cases c) (simp del: set_map, blast)
  then show ?thesis
    unfolding claim_dict_def by (subst dict_form_iff [OF assms]) (simp, auto simp: claim_ok_def)
qed

lemma ordinals_iff:
  "emap (\<lambda>x. artifact_integer x ctx) vs = Inr xs \<longleftrightarrow> vs = map JInt xs \<and> list_all (\<lambda>i. 0 \<le> i) xs"
proof (induction vs arbitrary: xs)
  case (Cons v vs)
  then show ?case by (cases xs) (auto simp: ebind_Inr_iff artifact_integer_Inr_iff)
qed auto

lemma sort_remdups_iff: "sort (remdups xs) = (xs :: int list) \<longleftrightarrow> sorted_wrt (<) xs"
proof
  assume eq: "sort (remdups xs) = xs"
  have "sorted xs" by (metis eq sorted_sort)
  moreover have "distinct xs" by (metis eq distinct_remdups distinct_sort)
  ultimately show "sorted_wrt (<) xs" by (simp add: strict_sorted_iff)
next
  assume "sorted_wrt (<) xs"
  then have "sorted xs" "distinct xs" by (simp_all add: strict_sorted_iff)
  then show "sort (remdups xs) = xs" by (simp add: distinct_remdups_id sorted_sort_id)
qed

lemma non_empty_array_iff:
  "(case v of JArr (x # xs) \<Rightarrow> Inr (x # xs) | _ \<Rightarrow> Inl e) = Inr vs \<longleftrightarrow> v = JArr vs \<and> vs \<noteq> []"
  by (auto split: json.splits list.splits)

lemma obligation_iff:
  assumes "canonical_json v"
  shows "artifact_obligation n v = Inr b \<longleftrightarrow> v = jsort (obligation_dict b) \<and> artifact_obligation_ok b"
proof -
  have "artifact_obligation n v = Inr b \<longleftrightarrow>
      (\<exists>d. v = JObj d \<and> set (map fst d) = set [''obligation_id'', ''role'', ''event'', ''required_ordinals'']
      \<and> map_of d ''required_ordinals'' = Some (JArr (map JInt (ob_required_ordinals b)))
      \<and> map_of d ''obligation_id'' = Some (JStr (ob_id b)) \<and> map_of d ''role'' = Some (JStr (ob_role b))
      \<and> map_of d ''event'' = Some (JStr (ob_event b)) \<and> artifact_obligation_ok b)"
    unfolding artifact_obligation_def parse_iffs ordinals_iff sort_remdups_iff non_empty_array_iff artifact_obligation_ok_def
    by (cases b) (simp del: set_map, blast)
  then show ?thesis
    unfolding obligation_dict_def by (subst dict_form_iff [OF assms]) (simp, auto simp: comp_def)
qed

text \<open>Arrays of such parts.\<close>

lemma parse_items_iff:
  assumes "\<And>n v x. canonical_json v \<Longrightarrow> f n v = Inr x \<longleftrightarrow> v = jsort (g x) \<and> ok x"
    and "list_all canonical_json vs"
  shows "artifact_items f vs = Inr xs \<longleftrightarrow> vs = map (\<lambda>x. jsort (g x)) xs \<and> list_all ok xs"
proof -
  have "emap (\<lambda>(index, v). f index v) (enumerate n vs) = Inr xs \<longleftrightarrow> vs = map (\<lambda>x. jsort (g x)) xs \<and> list_all ok xs" for n
    using assms(2)
  proof (induction vs arbitrary: n xs)
    case (Cons v vs)
    then show ?case by (cases xs) (auto simp: ebind_Inr_iff assms(1))
  qed auto
  then show ?thesis by (simp add: artifact_items_def)
qed

lemma canonical_array: "canonical_json (JArr vs) \<Longrightarrow> list_all canonical_json vs"
  by (simp add: list_all_iff canonical_items)

lemma array_form: "JArr vs = jsort (JArr (map g xs)) \<longleftrightarrow> vs = map (\<lambda>x. jsort (g x)) xs"
  by (simp add: comp_def)

lemma array_iff:
  assumes "canonical_json v" and "\<And>n v x. canonical_json v \<Longrightarrow> f n v = Inr x \<longleftrightarrow> v = jsort (g x) \<and> ok x"
  shows "(\<exists>vs. v = JArr vs \<and> artifact_items f vs = Inr xs) \<longleftrightarrow> v = jsort (JArr (map g xs)) \<and> list_all ok xs"
proof (cases "\<exists>vs. v = JArr vs")
  case True
  then obtain vs where v: "v = JArr vs" by blast
  show ?thesis
    using parse_items_iff [where f = f and g = g and ok = ok and xs = xs,
        OF assms(2) canonical_array [OF assms(1) [unfolded v]]] unfolding v array_form
    by (simp only: json.inject simp_thms)
next
  case False
  then show ?thesis by auto
qed

lemma parse_items_Nil: "artifact_items f vs = Inr xs \<Longrightarrow> vs = [] \<longleftrightarrow> xs = []"
  by (auto simp: artifact_items_def dest: emap_length)

lemma non_empty_iff:
  assumes "canonical_json v" and "\<And>n v x. canonical_json v \<Longrightarrow> f n v = Inr x \<longleftrightarrow> v = jsort (g x) \<and> ok x"
  shows "(\<exists>vs. (v = JArr vs \<and> vs \<noteq> []) \<and> artifact_items f vs = Inr xs)
     \<longleftrightarrow> v = jsort (JArr (map g xs)) \<and> xs \<noteq> [] \<and> list_all ok xs"
  using array_iff [where f = f and g = g and ok = ok and xs = xs, OF assms] parse_items_Nil [of f _ xs] by blast

lemma plugins_iff:
  assumes "canonical_json v"
  shows "artifact_plugins sha v = Inr ps \<longleftrightarrow> v = jsort (JArr (map plugin_dict ps))
     \<and> ps \<noteq> [] \<and> list_all plugin_ok ps \<and> distinct (map (plugin_id sha) ps)"
proof -
  have "artifact_plugins sha v = Inr ps \<longleftrightarrow>
      (\<exists>vs. (v = JArr vs \<and> vs \<noteq> []) \<and> artifact_items artifact_plugin vs = Inr ps) \<and> distinct (map (plugin_id sha) ps)"
    unfolding artifact_plugins_def parse_iffs non_empty_array_iff has_duplicates_iff by auto
  then show ?thesis by (simp only: non_empty_iff [where f = artifact_plugin, OF assms plugin_iff]) (simp only: conj_assoc)
qed

lemma obligations_iff:
  assumes "canonical_json v"
  shows "artifact_obligations v = Inr bs \<longleftrightarrow> v = jsort (JArr (map obligation_dict bs))
     \<and> bs \<noteq> [] \<and> list_all artifact_obligation_ok bs \<and> distinct (map ob_id bs)"
proof -
  have "artifact_obligations v = Inr bs \<longleftrightarrow>
      (\<exists>vs. (v = JArr vs \<and> vs \<noteq> []) \<and> artifact_items artifact_obligation vs = Inr bs) \<and> distinct (map ob_id bs)"
    unfolding artifact_obligations_def parse_iffs non_empty_array_iff has_duplicates_iff by auto
  then show ?thesis by (simp only: non_empty_iff [where f = artifact_obligation, OF assms obligation_iff]) (simp only: conj_assoc)
qed

lemma array_case_iff: "(case v of JArr xs \<Rightarrow> Inr xs | _ \<Rightarrow> Inl e) = Inr vs \<longleftrightarrow> v = JArr vs"
  by (auto split: json.splits)

lemma claims_iff:
  assumes "canonical_json v"
  shows "artifact_claims v = Inr cs \<longleftrightarrow> v = jsort (JArr (map claim_dict cs)) \<and> list_all claim_ok cs \<and> distinct (map rc_uri cs)"
proof -
  have "artifact_claims v = Inr cs \<longleftrightarrow>
      (\<exists>vs. v = JArr vs \<and> artifact_items artifact_claim vs = Inr cs) \<and> distinct (map rc_uri cs)"
    unfolding artifact_claims_def parse_iffs array_case_iff has_duplicates_iff by auto
  then show ?thesis by (simp only: array_iff [where f = artifact_claim, OF assms claim_iff] conj_assoc)
qed

lemma object_case_iff: "(case v of JObj r \<Rightarrow> Inr r | _ \<Rightarrow> Inl e) = Inr d \<longleftrightarrow> v = JObj d"
  by (auto split: json.splits)

lemma bool_case_iff: "(case v of JBool b \<Rightarrow> Inr b | _ \<Rightarrow> Inl e) = Inr c \<longleftrightarrow> v = JBool c"
  by (auto split: json.splits)

lemma predecessor_iff:
  assumes "canonical_json v"
  shows "artifact_predecessor v fbv = Inr (s, fb) \<longleftrightarrow> v = jsort (predecessor_dict s) \<and> fbv = JBool fb \<and> predecessor_ok s"
proof -
  have canon: "jsort (JObj r) = JObj r" if "v = JObj d" "map_of d k = Some (JObj r)" for d k r
    using canonical_field [OF assms [unfolded that(1)] that(2)] by (simp only: canonical_json_def)
  have "artifact_predecessor v fbv = Inr (s, fb) \<longleftrightarrow>
      (\<exists>d. v = JObj d \<and> set (map fst d) = set [''generation'', ''plan_id'', ''rendered_inputs'']
      \<and> map_of d ''plan_id'' = Some (jopt (ps_plan_id s)) \<and> pred_option token (ps_plan_id s)
      \<and> map_of d ''rendered_inputs'' = Some (JObj (ps_rendered_inputs s)) \<and> fbv = JBool fb
      \<and> map_of d ''generation'' = Some (JInt (ps_generation s)) \<and> 0 \<le> ps_generation s)"
    unfolding artifact_predecessor_def parse_iffs object_case_iff bool_case_iff
    by (cases s) (auto simp del: set_map)
  also have "\<dots> \<longleftrightarrow> (\<exists>d. v = JObj d \<and> set (map fst d) = set [''generation'', ''plan_id'', ''rendered_inputs'']
      \<and> map_of d ''plan_id'' = Some (jopt (ps_plan_id s)) \<and> map_of d ''rendered_inputs'' = Some (jsort (JObj (ps_rendered_inputs s)))
      \<and> map_of d ''generation'' = Some (JInt (ps_generation s)) \<and> fbv = JBool fb \<and> predecessor_ok s)"
    unfolding predecessor_ok_def by (rule ex_cong1) (simp only: conj_ac cong: conj_cong, use canon in blast)
  also have "\<dots> \<longleftrightarrow> v = jsort (predecessor_dict s) \<and> fbv = JBool fb \<and> predecessor_ok s"
    unfolding predecessor_dict_def by (subst dict_form_iff [OF assms]) (simp, auto simp del: jsort.simps(2))
  finally show ?thesis .
qed

definition plan_ok :: "(string \<Rightarrow> string) \<Rightarrow> plan \<Rightarrow> bool" where
  "plan_ok sha p \<longleftrightarrow>
     (pl_plugins p \<noteq> [] \<and> list_all plugin_ok (pl_plugins p) \<and> distinct (map (plugin_id sha) (pl_plugins p)))
   \<and> host_ok (pl_host p)
   \<and> (list_all claim_ok (pl_claims p) \<and> distinct (map rc_uri (pl_claims p)))
   \<and> (pl_obligations p \<noteq> [] \<and> list_all artifact_obligation_ok (pl_obligations p) \<and> distinct (map ob_id (pl_obligations p)))
   \<and> predecessor_ok (pl_predecessor p)"

lemma member_iff:
  assumes "canonical_json (JObj d)" and "\<And>x. canonical_json x \<Longrightarrow> f x = Inr y \<longleftrightarrow> x = w \<and> ok"
  shows "(\<exists>x. map_of d k = Some x \<and> f x = Inr y) \<longleftrightarrow> map_of d k = Some w \<and> ok"
  using assms(2) canonical_field [OF assms(1), of k] by blast

lemma body_steps:
  "artifact_body sha (JObj d) = Inr p \<longleftrightarrow>
      set (map fst d) = set [''plugins'', ''host'', ''claims'', ''obligations'', ''predecessor'', ''fallback_proven'']
      \<and> (\<exists>x. map_of d ''plugins'' = Some x \<and> artifact_plugins sha x = Inr (pl_plugins p))
      \<and> (\<exists>x. map_of d ''host'' = Some x \<and> artifact_host x = Inr (pl_host p))
      \<and> (\<exists>x. map_of d ''claims'' = Some x \<and> artifact_claims x = Inr (pl_claims p))
      \<and> (\<exists>x. map_of d ''obligations'' = Some x \<and> artifact_obligations x = Inr (pl_obligations p))
      \<and> (\<exists>x y. map_of d ''fallback_proven'' = Some x \<and> map_of d ''predecessor'' = Some y
            \<and> artifact_predecessor y x = Inr (pl_predecessor p, pl_fallback_proven p))"
  (is "?l \<longleftrightarrow> ?r")
proof
  assume ?l
  then show ?r
    unfolding artifact_body_def ebind_Inr_iff exact_fields_Inr_iff artifact_item_Inr_iff case_prod_unfold json.inject sum.inject
    by (elim exE conjE, hypsubst, unfold plan.select_convs prod.collapse) (intro conjI exI; assumption)
next
  assume ?r
  then show ?l
    unfolding artifact_body_def exact_fields_def artifact_item_def
    by (elim exE conjE) (simp only: json.case option.case if_True ebind_simps prod.case, simp)
qed

lemma body_members:
  assumes "canonical_json (JObj d)"
  shows "artifact_body sha (JObj d) = Inr p \<longleftrightarrow>
      set (map fst d) = set [''plugins'', ''host'', ''claims'', ''obligations'', ''predecessor'', ''fallback_proven'']
      \<and> map_of d ''plugins'' = Some (jsort (JArr (map plugin_dict (pl_plugins p))))
      \<and> map_of d ''host'' = Some (jsort (host_dict (pl_host p)))
      \<and> map_of d ''claims'' = Some (jsort (JArr (map claim_dict (pl_claims p))))
      \<and> map_of d ''obligations'' = Some (jsort (JArr (map obligation_dict (pl_obligations p))))
      \<and> map_of d ''predecessor'' = Some (jsort (predecessor_dict (pl_predecessor p)))
      \<and> map_of d ''fallback_proven'' = Some (JBool (pl_fallback_proven p)) \<and> plan_ok sha p"
proof -
  have plugins: "(\<exists>x. map_of d k = Some x \<and> artifact_plugins sha x = Inr ps) \<longleftrightarrow> map_of d k = Some (jsort (JArr (map plugin_dict ps)))
      \<and> ps \<noteq> [] \<and> list_all plugin_ok ps \<and> distinct (map (plugin_id sha) ps)" for k ps
    by (rule member_iff [OF assms plugins_iff])
  have host: "(\<exists>x. map_of d k = Some x \<and> artifact_host x = Inr h) \<longleftrightarrow> map_of d k = Some (jsort (host_dict h)) \<and> host_ok h" for k h
    by (rule member_iff [OF assms host_iff])
  have claims: "(\<exists>x. map_of d k = Some x \<and> artifact_claims x = Inr cs) \<longleftrightarrow> map_of d k = Some (jsort (JArr (map claim_dict cs)))
      \<and> list_all claim_ok cs \<and> distinct (map rc_uri cs)" for k cs
    by (rule member_iff [OF assms claims_iff])
  have obligations: "(\<exists>x. map_of d k = Some x \<and> artifact_obligations x = Inr bs) \<longleftrightarrow> map_of d k = Some (jsort (JArr (map obligation_dict bs)))
      \<and> bs \<noteq> [] \<and> list_all artifact_obligation_ok bs \<and> distinct (map ob_id bs)" for k bs
    by (rule member_iff [OF assms obligations_iff])
  have pred: "(\<exists>x y. map_of d ''fallback_proven'' = Some x \<and> map_of d ''predecessor'' = Some y \<and> artifact_predecessor y x = Inr (s, fb))
      \<longleftrightarrow> map_of d ''predecessor'' = Some (jsort (predecessor_dict s)) \<and> map_of d ''fallback_proven'' = Some (JBool fb) \<and> predecessor_ok s" for s fb
  proof -
    have "artifact_predecessor y x = Inr (s, fb) \<longleftrightarrow> y = jsort (predecessor_dict s) \<and> x = JBool fb \<and> predecessor_ok s"
      if "map_of d ''predecessor'' = Some y" for x y
      by (rule predecessor_iff [OF canonical_field [OF assms that]])
    then show ?thesis by (auto simp del: jsort.simps)
  qed
  show ?thesis
    unfolding body_steps plugins host claims obligations pred plan_ok_def
    by (rule iffI; elim conjE; intro conjI; assumption)
qed

lemma body_iff:
  assumes "canonical_json v"
  shows "artifact_body sha v = Inr p \<longleftrightarrow> v = jsort (plan_dict p) \<and> plan_ok sha p"
proof (cases "\<exists>d. v = JObj d")
  case True
  then obtain d where v: "v = JObj d" by blast
  show ?thesis
    unfolding v body_members [OF assms [unfolded v]] plan_dict_def
    by (subst dict_eq_iff [OF assms [unfolded v]]) (simp, simp del: jsort.simps(1,2) set_map)
next
  case False
  then show ?thesis by (auto simp: artifact_body_def parse_iffs plan_dict_def jsort_JObj simp del: jsort.simps)
qed

subsection \<open>Exactly the canonical bytes of a valid plan\<close>

lemma canonical_line_iff:
  "json_loads raw = Some v \<and> raw = canonical_bytes v @ [CHR 10] \<longleftrightarrow> canonical_json v \<and> raw = canonical_bytes v @ [CHR 10]"
  using json_loads_line [of v] json_loads_wf [of raw v] by (auto simp: canonical_json_def)

definition parse_envelope :: "(string \<Rightarrow> string) \<Rightarrow> json \<Rightarrow> plan \<Rightarrow> bool" where
  "parse_envelope sha v p \<longleftrightarrow> (\<exists>d. v = JObj d \<and> set (map fst d) = set [''schema'', ''plan_id'', ''plan'']
     \<and> map_of d ''schema'' = Some (JStr artifact_schema) \<and> map_of d ''plan_id'' = Some (JStr (plan_id sha p))
     \<and> (\<exists>x. map_of d ''plan'' = Some x \<and> artifact_body sha x = Inr p))"

lemma parse_steps:
  "parse_plan_artifact sha raw = Inr p \<longleftrightarrow>
     (\<exists>v. json_loads raw = Some v \<and> raw = canonical_bytes v @ [CHR 10] \<and> parse_envelope sha v p)"
  unfolding parse_plan_artifact_def parse_iffs demand_Inr_iff parse_envelope_def by blast

lemma envelope_iff:
  assumes "canonical_json v"
  shows "parse_envelope sha v p \<longleftrightarrow> v = jsort (plan_artifact_value sha p) \<and> plan_ok sha p"
proof -
  have body: "(\<exists>x. map_of d k = Some x \<and> artifact_body sha x = Inr p) \<longleftrightarrow> map_of d k = Some (jsort (plan_dict p)) \<and> plan_ok sha p"
    if "v = JObj d" for d k
    by (rule member_iff [OF assms [unfolded that] body_iff])
  have "parse_envelope sha v p \<longleftrightarrow> (\<exists>d. v = JObj d \<and> set (map fst d) = set [''schema'', ''plan_id'', ''plan'']
      \<and> map_of d ''schema'' = Some (JStr artifact_schema) \<and> map_of d ''plan_id'' = Some (JStr (plan_id sha p))
      \<and> map_of d ''plan'' = Some (jsort (plan_dict p))) \<and> plan_ok sha p"
    unfolding parse_envelope_def using body by blast
  also have "\<dots> \<longleftrightarrow> v = jsort (plan_artifact_value sha p) \<and> plan_ok sha p"
    unfolding plan_artifact_value_def by (subst dict_form_iff [OF assms]) simp_all
  finally show ?thesis .
qed

lemma json_wf_artifact: "json_wf (plan_artifact_value sha p) \<longleftrightarrow> json_wf (plan_dict p)"
  by (simp add: plan_artifact_value_def)

lemma parse_iff:
  "parse_plan_artifact sha raw = Inr p \<longleftrightarrow> plan_ok sha p \<and> json_wf (plan_dict p) \<and> raw = plan_artifact_bytes sha p"
proof -
  let ?v = "jsort (plan_artifact_value sha p)"
  have "parse_plan_artifact sha raw = Inr p \<longleftrightarrow>
      (\<exists>v. canonical_json v \<and> raw = canonical_bytes v @ [CHR 10] \<and> v = ?v \<and> plan_ok sha p)"
    unfolding parse_steps using canonical_line_iff envelope_iff by blast
  also have "\<dots> \<longleftrightarrow> canonical_json ?v \<and> raw = canonical_bytes ?v @ [CHR 10] \<and> plan_ok sha p" by blast
  also have "\<dots> \<longleftrightarrow> plan_ok sha p \<and> json_wf (plan_dict p) \<and> raw = plan_artifact_bytes sha p"
    using canonical_bytes_cong [OF jsort_idem]
    by (auto simp: canonical_json_def json_wf_artifact plan_artifact_bytes_def)
  finally show ?thesis .
qed

text \<open>A valid plan whose rendered inputs are not in key order is read back with them in order.\<close>

lemma predecessor_ok_sorted: "predecessor_ok s \<Longrightarrow> predecessor_sorted s = s"
  by (simp add: predecessor_ok_def predecessor_sorted_def)

lemma parse_written:
  assumes "plan_ok sha (plan_sorted p)" and "json_wf (plan_dict p)"
  shows "parse_plan_artifact sha (plan_artifact_bytes sha p) = Inr (plan_sorted p)"
proof -
  have "jsort (plan_artifact_value sha (plan_sorted p)) = jsort (plan_artifact_value sha p)"
    unfolding plan_artifact_value_def jsort.simps list.map prod.sel jsort_plan_sorted plan_id_sorted by (rule refl)
  then have "plan_artifact_bytes sha (plan_sorted p) = plan_artifact_bytes sha p"
    unfolding plan_artifact_bytes_def using canonical_bytes_cong by metis
  moreover have "json_wf (plan_dict (plan_sorted p))"
    using assms(2) by (metis json_wf_jsort jsort_plan_sorted)
  ultimately show ?thesis unfolding parse_iff using assms(1) by metis
qed

lemma bit_18: "bit (18 :: 32 word) n \<longleftrightarrow> n = 1 \<or> n = 4"
proof -
  have "(18 :: 32 word) = push_bit 1 1 OR push_bit 4 1" by simp
  then have "bit (18 :: 32 word) n \<longleftrightarrow> bit (push_bit 1 1 OR push_bit 4 1 :: 32 word) n" by (simp only:)
  also have "\<dots> \<longleftrightarrow> n = 1 \<or> n = 4"
    unfolding bit_or_iff bit_push_bit_iff bit_1_iff by auto
  finally show ?thesis .
qed

lemma not_writable_iff: "s_imode m AND 18 = 0 \<longleftrightarrow> \<not> bit m 1 \<and> \<not> bit m 4"
proof -
  have "s_imode m AND 18 = m AND 18" by (simp add: s_imode_def and.assoc)
  moreover have "m AND 18 = 0 \<longleftrightarrow> (\<forall>n. \<not> bit (m AND 18) n)"
    by (metis bit_eq_iff bit_0_eq bot_apply bot_bool_def)
  ultimately show ?thesis unfolding bit_and_iff bit_18 by auto
qed

text \<open>
  C12. \<open>read_plan_artifact\<close> returns an artifact exactly when the path is absolute, no symbolic link and
  its own resolution, the file opened there is a regular file of the effective user that neither group
  nor others may write, and its bytes are the canonical bytes of the returned plan: \<open>plan_artifact_bytes\<close>
  of a plan with at least one plugin and one obligation, distinct plugin ids, claim URIs and obligation
  ids, tokens without whitespace, lowercase digests, resource URIs of the profile, strictly increasing
  non-negative ordinals, and rendered inputs in key order.  No other bytes are accepted, and the bytes determine the
  plan, whose content id is the one in the file.
\<close>

theorem read_plan_artifact_iff:
  "read_plan_artifact sha os euid path = Inr a \<longleftrightarrow>
     ea_path a = path \<and> pv_absolute (os path) \<and> \<not> pv_symlink (os path) \<and> pv_resolved (os path) = Some path
   \<and> (\<exists>f. pv_open (os path) = Some f \<and> s_isreg (of_mode f) \<and> of_uid f = euid
        \<and> \<not> bit (of_mode f) 1 \<and> \<not> bit (of_mode f) 4 \<and> of_bytes f = ea_raw a)
   \<and> ea_raw a = plan_artifact_bytes sha (ea_plan a) \<and> plan_ok sha (ea_plan a) \<and> json_wf (plan_dict (ea_plan a))"
  (is "?l \<longleftrightarrow> ?r")
proof
  assume ?l
  then show ?r
    unfolding read_plan_artifact_def ebind_Inr_iff check_Inr_iff demand_Inr_iff parse_iff not_writable_iff sum.inject
    by (elim exE conjE, hypsubst) simp
next
  assume ?r
  then show ?l
    using parse_iff [of sha "ea_raw a" "ea_plan a"]
    by (elim exE conjE) (simp add: read_plan_artifact_def not_writable_iff)
qed

end
