(* ===== verification/Contract_Parser.thy ===== *)
theory Contract_Parser
  imports Json
begin

section \<open>The contract compiler: data and parsers (\<^verbatim>\<open>contract_compiler.py\<close>)\<close>

text \<open>
  The dataclasses of the contract compiler, and \<open>parse_contract\<close> and \<open>parse_contract_taxonomy\<close> from a
  JSON value.  An error is \<open>Planning\<close> with the stable code of \<open>ContractPlanningError\<close> (its detail
  text is left out), or an exception of another class that the code does not convert.

  The package \<open>packaging\<close> (PEP 440 versions and specifier sets) is the parameter \<open>('v, 's) pep440\<close>:
  \<open>Version(s)\<close> and \<open>SpecifierSet(s)\<close> as partial functions, \<open>None\<close> where they raise \<open>InvalidVersion\<close>
  and \<open>InvalidSpecifier\<close>, with \<open>str\<close>, \<open>local\<close>, iteration and \<open>in\<close>.  \<open>pep440_ok\<close> is what the code
  relies on: the text of a parsed version or specifier set parses again.
\<close>

subsection \<open>Data\<close>

datatype planning_code = INVALID_CONTRACT | DUPLICATE_PLUGIN | INCOMPATIBLE_HOST | MISSING_CAPABILITY
  | INCOMPATIBLE_CAPABILITY | AMBIGUOUS_CAPABILITY | DEPENDENCY_CYCLE | RESOURCE_CONFLICT
  | AUTHORITY_VIOLATION_PLAN | UNKNOWN_RESOURCE_PLAN | INVALID_RESOURCE_MODE

datatype plan_error = Planning planning_code | InvalidVersion | InvalidSpecifier
  | PlanKeyError string | PlanAttributeError string

record capability =
  cp_name :: string
  cp_version :: string

record contract_resource =
  cr_name :: string
  cr_mode :: string
  cr_mediator :: "string option"

record taxonomy_resource =
  tx_canonical :: string
  tx_aliases :: "string list"
  tx_allowed_modes :: "string list"

record contract_taxonomy =
  ct_schema :: string
  ct_scope :: string
  ct_decision_precedence :: "string list"
  ct_capabilities :: "string list"
  ct_resources :: "taxonomy_resource list"

record process_obligation =
  po_role :: string
  po_event :: string
  po_completion :: string
  po_authority :: string
  po_capability_direction :: string
  po_capability :: string
  po_quorum :: "int option"

record rollback_contract =
  rb_manager_owned :: "string list"
  rb_external_operator_owned :: "string list"

record authority_grant =
  ag_role :: string
  ag_event :: string
  ag_capability_direction :: string
  ag_capability :: string

record authority_contract =
  au_provider :: "authority_grant list"
  au_runtime :: "authority_grant list"
  au_external :: "authority_grant list"

record extension_contract =
  ec_extension_id :: string
  ec_version :: string
  ec_manifest_sha256 :: string
  ec_host_runtime :: string
  ec_host_version_range :: string
  ec_provides :: "capability list"
  ec_requires :: "capability list"
  ec_resources :: "contract_resource list"
  ec_process_obligations :: "process_obligation list"
  ec_rollback :: rollback_contract
  ec_authority :: authority_contract

subsection \<open>Versions\<close>

record ('v, 's) pep440 =
  pk_version :: "string \<Rightarrow> 'v option"
  pk_version_str :: "'v \<Rightarrow> string"
  pk_local :: "'v \<Rightarrow> string option"
  pk_specifiers :: "string \<Rightarrow> 's option"
  pk_specifiers_str :: "'s \<Rightarrow> string"
  pk_specifier_versions :: "'s \<Rightarrow> string list"
  pk_contains :: "'s \<Rightarrow> 'v \<Rightarrow> bool"

definition pep440_ok :: "('v, 's) pep440 \<Rightarrow> bool" where
  "pep440_ok P \<longleftrightarrow> (\<forall>s v. pk_version P s = Some v \<longrightarrow> pk_version P (pk_version_str P v) = Some v)
     \<and> (\<forall>s r. pk_specifiers P s = Some r \<longrightarrow> pk_specifiers P (pk_specifiers_str P r) = Some r)"

subsection \<open>Constants\<close>

definition resource_modes :: "string list" where
  "resource_modes = [''exclusive'', ''shared-read'', ''mediated'']"

definition completion_modes :: "string list" where
  "completion_modes = [''all'', ''quorum'', ''optional'']"

definition native_completed :: string where
  "native_completed = ''selected-kv-native-arguments-completed''"

definition contract_events :: "string list" where
  "contract_events = [''loaded'', ''invoked'', ''health-observed'', native_completed]"

definition runtime_only_events :: "string list" where
  "runtime_only_events = [''loaded'', ''invoked'', native_completed]"

definition authority_kinds :: "string list" where
  "authority_kinds = [''external'', ''provider'', ''runtime'']"

definition capability_directions :: "string list" where
  "capability_directions = [''provides'', ''requires'']"

definition taxonomy_precedence :: "string list" where
  "taxonomy_precedence = [''unknown-resource'', ''invalid-mode'', ''capability-cardinality'', ''resource-mode'',
     ''mediator-consistency'', ''mediator-presence'']"

subsection \<open>Checked values\<close>

abbreviation bad :: "plan_error + 'a" where
  "bad \<equiv> Inl (Planning INVALID_CONTRACT)"

definition accept :: "bool \<Rightarrow> plan_error + unit" where
  "accept b = check b (Planning INVALID_CONTRACT)"

text \<open>\<open>item[key]\<close> of a dict.\<close>

definition item_of :: "string \<Rightarrow> (string \<times> json) list \<Rightarrow> plan_error + json" where
  "item_of k d = (case map_of d k of None \<Rightarrow> Inl (PlanKeyError k) | Some v \<Rightarrow> Inr v)"

definition as_object :: "json \<Rightarrow> string list \<Rightarrow> plan_error + (string \<times> json) list" where
  "as_object value names = (case value of
     JObj d \<Rightarrow> if set (map fst d) = set names then Inr d else bad
   | _ \<Rightarrow> bad)"

definition as_array :: "json \<Rightarrow> plan_error + json list" where
  "as_array value = (case value of JArr vs \<Rightarrow> Inr vs | _ \<Rightarrow> bad)"

definition as_string :: "json \<Rightarrow> plan_error + string" where
  "as_string value = (case value of
     JStr s \<Rightarrow> if s = [] \<or> py_strip s \<noteq> s then bad else Inr s
   | _ \<Rightarrow> bad)"

definition ident_char :: "char \<Rightarrow> bool" where
  "ident_char c \<longleftrightarrow> 97 \<le> code c \<and> code c \<le> 122 \<or> 48 \<le> code c \<and> code c \<le> 57"

definition ident_sep :: "char \<Rightarrow> bool" where
  "ident_sep c \<longleftrightarrow> c = CHR ''.'' \<or> c = CHR ''-''"

text \<open>
  The matcher of \<open>^[a-z0-9]+(?:[.-][a-z0-9]+)+$\<close> over the whole string: whether a separator has been
  seen and whether the current segment has a character.
\<close>

fun ident_scan :: "bool \<Rightarrow> bool \<Rightarrow> string \<Rightarrow> bool" where
  "ident_scan separated started [] \<longleftrightarrow> separated \<and> started"
| "ident_scan separated started (c # s) \<longleftrightarrow>
     (if ident_char c then ident_scan separated True s
      else if ident_sep c then started \<and> ident_scan True False s
      else False)"

definition is_identifier :: "string \<Rightarrow> bool" where
  "is_identifier s = ident_scan False False s"

definition as_identifier :: "json \<Rightarrow> plan_error + string" where
  "as_identifier value = ebind (as_string value) (\<lambda>s. if is_identifier s then Inr s else bad)"

definition as_string_array :: "json \<Rightarrow> plan_error + string list" where
  "as_string_array value =
     ebind (as_array value) (\<lambda>vs.
     ebind (emap as_string vs) (\<lambda>result.
     if has_duplicates result then bad else Inr (sort result)))"

definition public_version :: "('v, 's) pep440 \<Rightarrow> json \<Rightarrow> plan_error + string" where
  "public_version P value =
     ebind (as_string value) (\<lambda>raw.
     case pk_version P raw of
       None \<Rightarrow> bad
     | Some parsed \<Rightarrow> if pk_local P parsed \<noteq> None then bad else Inr (pk_version_str P parsed))"

definition removesuffix :: "string \<Rightarrow> string \<Rightarrow> string" where
  "removesuffix suf s = (if suf \<noteq> [] \<and> suffix suf s then take (length s - length suf) s else s)"

text \<open>A specifier whose version is not a PEP 440 version (\<open>===\<close>) is refused like an invalid set.\<close>

definition specifier_public :: "('v, 's) pep440 \<Rightarrow> string \<Rightarrow> bool" where
  "specifier_public P version = (case pk_version P (removesuffix ''.*'' version) of
     None \<Rightarrow> False | Some v \<Rightarrow> pk_local P v = None)"

definition public_specifier :: "('v, 's) pep440 \<Rightarrow> json \<Rightarrow> plan_error + string" where
  "public_specifier P value =
     ebind (as_string value) (\<lambda>raw.
     case pk_specifiers P raw of
       None \<Rightarrow> bad
     | Some parsed \<Rightarrow>
         if list_all (specifier_public P) (pk_specifier_versions P parsed)
         then Inr (pk_specifiers_str P parsed) else bad)"

definition parse_capability :: "('v, 's) pep440 \<Rightarrow> bool \<Rightarrow> json \<Rightarrow> plan_error + capability" where
  "parse_capability P requirements raw =
     ebind (as_object raw [''name'', ''version'']) (\<lambda>item.
     ebind (ebind (item_of ''name'' item) as_identifier) (\<lambda>name.
     ebind (ebind (item_of ''version'' item) as_string) (\<lambda>version.
     ebind (if requirements then public_specifier P (JStr version) else public_version P (JStr version)) (\<lambda>normal.
     Inr \<lparr>cp_name = name, cp_version = normal\<rparr>))))"

definition parse_capabilities :: "('v, 's) pep440 \<Rightarrow> bool \<Rightarrow> json \<Rightarrow> plan_error + capability list" where
  "parse_capabilities P requirements value =
     ebind (as_array value) (\<lambda>vs.
     ebind (emap (parse_capability P requirements) vs) (\<lambda>result.
     if has_duplicates (map cp_name result) then bad else Inr (sort_key cp_name result)))"

definition parse_grant :: "string \<Rightarrow> json \<Rightarrow> plan_error + authority_grant" where
  "parse_grant kind raw =
     ebind (as_object raw [''role'', ''event'', ''capability_direction'', ''capability'']) (\<lambda>item.
     ebind (ebind (item_of ''role'' item) as_string) (\<lambda>role.
     ebind (ebind (item_of ''event'' item) as_string) (\<lambda>event.
     ebind (accept (event \<in> set contract_events)) (\<lambda>_.
     ebind (check (\<not> (event \<in> set runtime_only_events \<and> kind \<noteq> ''runtime'')) (Planning AUTHORITY_VIOLATION_PLAN)) (\<lambda>_.
     ebind (ebind (item_of ''capability_direction'' item) as_string) (\<lambda>direction.
     ebind (accept (direction \<in> set capability_directions)) (\<lambda>_.
     ebind (ebind (item_of ''capability'' item) as_identifier) (\<lambda>cap.
     Inr \<lparr>ag_role = role, ag_event = event, ag_capability_direction = direction, ag_capability = cap\<rparr>))))))))"

definition grant_key :: "authority_grant \<Rightarrow> string \<times> string \<times> string \<times> string" where
  "grant_key g = (ag_role g, ag_event g, ag_capability_direction g, ag_capability g)"

definition authority_grants :: "json \<Rightarrow> string \<Rightarrow> plan_error + authority_grant list" where
  "authority_grants value kind =
     ebind (as_array value) (\<lambda>vs.
     ebind (emap (parse_grant kind) vs) (\<lambda>grants.
     if has_duplicates grants then bad else Inr (sort_key grant_key grants)))"

subsection \<open>\<open>parse_contract_taxonomy\<close>\<close>

definition parse_taxonomy_capability :: "json \<Rightarrow> plan_error + string" where
  "parse_taxonomy_capability raw =
     ebind (as_object raw [''name'', ''description'']) (\<lambda>item.
     ebind (ebind (item_of ''name'' item) as_identifier) (\<lambda>name.
     ebind (ebind (item_of ''description'' item) as_string) (\<lambda>_.
     Inr name)))"

definition parse_taxonomy_resource :: "json \<Rightarrow> plan_error + taxonomy_resource" where
  "parse_taxonomy_resource raw =
     ebind (as_object raw [''canonical'', ''aliases'', ''allowed_modes'', ''description'']) (\<lambda>item.
     ebind (ebind (item_of ''canonical'' item) as_identifier) (\<lambda>canonical.
     ebind (ebind (item_of ''aliases'' item) as_string_array) (\<lambda>aliases.
     ebind (emap (\<lambda>alias. as_identifier (JStr alias)) aliases) (\<lambda>_.
     ebind (ebind (item_of ''allowed_modes'' item) as_string_array) (\<lambda>modes.
     ebind (accept (modes \<noteq> [] \<and> set modes \<subseteq> set resource_modes)) (\<lambda>_.
     ebind (ebind (item_of ''description'' item) as_string) (\<lambda>_.
     Inr \<lparr>tx_canonical = canonical, tx_aliases = aliases, tx_allowed_modes = modes\<rparr>)))))))"

definition resource_names :: "taxonomy_resource \<Rightarrow> string list" where
  "resource_names r = tx_canonical r # tx_aliases r"

definition parse_contract_taxonomy :: "json \<Rightarrow> plan_error + contract_taxonomy" where
  "parse_contract_taxonomy payload =
     ebind (as_object payload [''schema'', ''scope'', ''decision_precedence'', ''capabilities'', ''resources'']) (\<lambda>item.
     ebind (ebind (item_of ''schema'' item) as_string) (\<lambda>schema.
     ebind (accept (schema = ''ecpa-contract-taxonomy/0.1-draft'')) (\<lambda>_.
     ebind (ebind (item_of ''scope'' item) as_string) (\<lambda>scope.
     ebind (accept (scope = ''vLLM-HUST-static-contract-study'')) (\<lambda>_.
     ebind (ebind (ebind (item_of ''decision_precedence'' item) as_array) (emap as_string)) (\<lambda>precedence.
     ebind (accept (precedence = taxonomy_precedence)) (\<lambda>_.
     ebind (ebind (item_of ''capabilities'' item) as_array) (\<lambda>raw_capabilities.
     ebind (accept (raw_capabilities \<noteq> [])) (\<lambda>_.
     ebind (emap parse_taxonomy_capability raw_capabilities) (\<lambda>capabilities.
     ebind (accept (\<not> has_duplicates capabilities)) (\<lambda>_.
     ebind (ebind (item_of ''resources'' item) as_array) (\<lambda>raw_resources.
     ebind (accept (raw_resources \<noteq> [])) (\<lambda>_.
     ebind (emap parse_taxonomy_resource raw_resources) (\<lambda>resources.
     ebind (accept (\<not> has_duplicates (concat (map resource_names resources)))) (\<lambda>_.
     Inr \<lparr>ct_schema = schema, ct_scope = scope, ct_decision_precedence = precedence,
          ct_capabilities = sort capabilities, ct_resources = sort_key tx_canonical resources\<rparr>)))))))))))))))"

subsection \<open>\<open>parse_contract\<close>\<close>

definition get_or_null :: "string \<Rightarrow> (string \<times> json) list \<Rightarrow> json" where
  "get_or_null k d = (case map_of d k of None \<Rightarrow> JNull | Some v \<Rightarrow> v)"

definition parse_resource :: "json \<Rightarrow> plan_error + contract_resource" where
  "parse_resource raw = (case raw of
     JObj item \<Rightarrow>
       ebind (accept (set (map fst item) = {''name'', ''mode''} \<or> set (map fst item) = {''name'', ''mode'', ''mediator''})) (\<lambda>_.
       ebind (ebind (item_of ''name'' item) as_identifier) (\<lambda>name.
       ebind (ebind (item_of ''mode'' item) as_string) (\<lambda>mode.
       let mediator = get_or_null ''mediator'' item in
       ebind (accept (mode \<in> set resource_modes)) (\<lambda>_.
       if mode = ''mediated'' then
         ebind (as_identifier mediator) (\<lambda>m. Inr \<lparr>cr_name = name, cr_mode = mode, cr_mediator = Some m\<rparr>)
       else ebind (accept (mediator = JNull)) (\<lambda>_.
         Inr \<lparr>cr_name = name, cr_mode = mode, cr_mediator = None\<rparr>)))))
   | _ \<Rightarrow> bad)"

text \<open>\<open>isinstance(quorum, int) and not isinstance(quorum, bool) and quorum >= 1\<close>.\<close>

definition parse_quorum :: "string \<Rightarrow> json \<Rightarrow> plan_error + int option" where
  "parse_quorum completion quorum =
     (if completion = ''quorum'' then
        (case quorum of JInt n \<Rightarrow> if n < 1 then bad else Inr (Some n) | _ \<Rightarrow> bad)
      else Inr None)"

definition obligation_fields :: "string list" where
  "obligation_fields = [''role'', ''event'', ''completion'', ''authority'', ''capability_direction'', ''capability'']"

definition parse_obligation ::
  "capability list \<Rightarrow> capability list \<Rightarrow> json \<Rightarrow> plan_error + process_obligation" where
  "parse_obligation provides requires raw = (case raw of
     JObj d \<Rightarrow>
       ebind (as_string (get_or_null ''completion'' d)) (\<lambda>completion.
       ebind (as_object raw (if completion = ''quorum'' then obligation_fields @ [''quorum''] else obligation_fields)) (\<lambda>item.
       ebind (ebind (item_of ''role'' item) as_string) (\<lambda>role.
       ebind (ebind (item_of ''event'' item) as_string) (\<lambda>event.
       ebind (accept (event \<in> set contract_events \<and> completion \<in> set completion_modes)) (\<lambda>_.
       ebind (ebind (item_of ''authority'' item) as_string) (\<lambda>authority.
       ebind (accept (authority \<in> set authority_kinds)) (\<lambda>_.
       ebind (check (\<not> (event \<in> set runtime_only_events \<and> authority \<noteq> ''runtime''))
         (Planning AUTHORITY_VIOLATION_PLAN)) (\<lambda>_.
       ebind (accept (\<not> (event = native_completed \<and> (role \<noteq> ''worker'' \<or> completion \<noteq> ''all'')))) (\<lambda>_.
       ebind (ebind (item_of ''capability_direction'' item) as_string) (\<lambda>direction.
       ebind (accept (direction \<in> set capability_directions)) (\<lambda>_.
       ebind (ebind (item_of ''capability'' item) as_identifier) (\<lambda>cap.
       ebind (check (cap \<in> set (map cp_name (if direction = ''provides'' then provides else requires)))
         (Planning AUTHORITY_VIOLATION_PLAN)) (\<lambda>_.
       ebind (parse_quorum completion (get_or_null ''quorum'' item)) (\<lambda>quorum.
       Inr \<lparr>po_role = role, po_event = event, po_completion = completion, po_authority = authority,
            po_capability_direction = direction, po_capability = cap, po_quorum = quorum\<rparr>))))))))))))))
   | _ \<Rightarrow> bad)"

definition obligation_key :: "process_obligation \<Rightarrow> string \<times> string \<times> string \<times> string" where
  "obligation_key b = (po_role b, po_event b, po_capability_direction b, po_capability b)"

definition obligation_sort_key ::
  "process_obligation \<Rightarrow> string \<times> string \<times> string \<times> string \<times> string \<times> string \<times> int" where
  "obligation_sort_key b = (po_role b, po_event b, po_completion b, po_authority b, po_capability_direction b,
     po_capability b, (case po_quorum b of None \<Rightarrow> 0 | Some n \<Rightarrow> n))"

text \<open>\<open>getattr(authority, kind)\<close>\<close>

definition grants_of :: "authority_contract \<Rightarrow> string \<Rightarrow> plan_error + authority_grant list" where
  "grants_of a kind =
     (if kind = ''provider'' then Inr (au_provider a)
      else if kind = ''runtime'' then Inr (au_runtime a)
      else if kind = ''external'' then Inr (au_external a)
      else Inl (PlanAttributeError kind))"

definition grant_declared :: "capability list \<Rightarrow> capability list \<Rightarrow> authority_grant \<Rightarrow> bool" where
  "grant_declared provides requires g \<longleftrightarrow>
     ag_capability g \<in> set (map cp_name (if ag_capability_direction g = ''provides'' then provides else requires))"

definition parse_deprecated :: "(string \<times> json) list \<Rightarrow> plan_error + unit" where
  "parse_deprecated payload = (case map_of payload ''deprecated'' of
     None \<Rightarrow> Inr ()
   | Some v \<Rightarrow>
       ebind (as_object v [''since'', ''replacement'']) (\<lambda>d.
       ebind (ebind (item_of ''since'' d) as_string) (\<lambda>_.
       ebind (ebind (item_of ''replacement'' d) as_identifier) (\<lambda>_. Inr ()))))"

definition parse_resources :: "json \<Rightarrow> plan_error + contract_resource list" where
  "parse_resources value =
     ebind (as_array value) (\<lambda>vs.
     ebind (emap parse_resource vs) (\<lambda>resources.
     if has_duplicates (map cr_name resources) then bad else Inr resources))"

definition parse_obligations ::
  "capability list \<Rightarrow> capability list \<Rightarrow> json \<Rightarrow> plan_error + process_obligation list" where
  "parse_obligations provides requires value =
     ebind (as_array value) (\<lambda>vs.
     ebind (accept (vs \<noteq> [])) (\<lambda>_.
     ebind (emap (parse_obligation provides requires) vs) (\<lambda>obligations.
     if has_duplicates (map obligation_key obligations) then bad else Inr obligations)))"

definition parse_authority ::
  "capability list \<Rightarrow> capability list \<Rightarrow> (string \<times> json) list \<Rightarrow> plan_error + authority_contract" where
  "parse_authority provides requires authority =
     ebind (ebind (item_of ''provider'' authority) (\<lambda>v. authority_grants v ''provider'')) (\<lambda>pr.
     ebind (ebind (item_of ''runtime'' authority) (\<lambda>v. authority_grants v ''runtime'')) (\<lambda>rt.
     ebind (ebind (item_of ''external'' authority) (\<lambda>v. authority_grants v ''external'')) (\<lambda>ex.
     ebind (check (list_all (grant_declared provides requires) (ex @ pr @ rt)) (Planning AUTHORITY_VIOLATION_PLAN)) (\<lambda>_.
     Inr \<lparr>au_provider = pr, au_runtime = rt, au_external = ex\<rparr>))))"

definition contract_fields :: "string list" where
  "contract_fields = [''schema'', ''id'', ''version'', ''host'', ''capabilities'', ''resources'',
     ''process_obligations'', ''rollback'', ''authority'']"

definition parse_contract :: "(string \<Rightarrow> string) \<Rightarrow> ('v, 's) pep440 \<Rightarrow> json \<Rightarrow> plan_error + extension_contract" where
  "parse_contract sha P value = (case value of
     JObj payload \<Rightarrow>
       ebind (accept (set (map fst payload) \<in> {set contract_fields, set (contract_fields @ [''deprecated''])})) (\<lambda>_.
       ebind (accept (get_or_null ''schema'' payload = JStr ''ecpa-manifest/0.1-draft'')) (\<lambda>_.
       ebind (ebind (item_of ''id'' payload) as_identifier) (\<lambda>extension_id.
       ebind (ebind (item_of ''version'' payload) (public_version P)) (\<lambda>version.
       ebind (ebind (item_of ''host'' payload) (\<lambda>v. as_object v [''runtime'', ''version''])) (\<lambda>host.
       ebind (ebind (item_of ''runtime'' host) as_string) (\<lambda>host_runtime.
       ebind (ebind (item_of ''version'' host) (public_specifier P)) (\<lambda>host_range.
       ebind (ebind (item_of ''capabilities'' payload) (\<lambda>v. as_object v [''provides'', ''requires''])) (\<lambda>capabilities.
       ebind (ebind (item_of ''provides'' capabilities) (parse_capabilities P False)) (\<lambda>provides.
       ebind (ebind (item_of ''requires'' capabilities) (parse_capabilities P True)) (\<lambda>requires.
       ebind (ebind (item_of ''resources'' payload) parse_resources) (\<lambda>resources.
       ebind (ebind (item_of ''process_obligations'' payload) (parse_obligations provides requires)) (\<lambda>obligations.
       ebind (ebind (item_of ''rollback'' payload) (\<lambda>v. as_object v [''manager_owned'', ''external_operator_owned''])) (\<lambda>rollback.
       ebind (ebind (item_of ''authority'' payload) (\<lambda>v. as_object v [''provider'', ''runtime'', ''external''])) (\<lambda>authority.
       ebind (parse_deprecated payload) (\<lambda>_.
       ebind (parse_authority provides requires authority) (\<lambda>authority_contract.
       ebind (ebind (item_of ''manager_owned'' rollback) as_string_array) (\<lambda>manager_owned.
       ebind (ebind (item_of ''external_operator_owned'' rollback) as_string_array) (\<lambda>external_owned.
       Inr \<lparr>ec_extension_id = extension_id, ec_version = version, ec_manifest_sha256 = sha (canonical_bytes value),
            ec_host_runtime = host_runtime, ec_host_version_range = host_range,
            ec_provides = provides, ec_requires = requires, ec_resources = sort_key cr_name resources,
            ec_process_obligations = sort_key obligation_sort_key obligations,
            ec_rollback = \<lparr>rb_manager_owned = manager_owned, rb_external_operator_owned = external_owned\<rparr>,
            ec_authority = authority_contract\<rparr>))))))))))))))))))
   | _ \<Rightarrow> bad)"

end
