(* ===== verification/Contract_Compiler.thy ===== *)
theory Contract_Compiler
  imports Contract_Parser
begin

section \<open>The contract compiler: resolution and planning (\<^verbatim>\<open>contract_compiler.py\<close>)\<close>

text \<open>
  \<open>compile_contracts\<close> and its helpers.  A dict is an association list in insertion order; a set that
  the code only adds to and sorts is a list without repetitions.  The heap of \<open>heapq\<close> is a sorted
  list, of which the code uses \<open>heapify\<close>, \<open>heappush\<close> and \<open>heappop\<close>.
\<close>

subsection \<open>Data of a plan\<close>

record capability_binding =
  cb_capability :: string
  cb_required_range :: string
  cb_consumer :: string
  cb_provider :: string
  cb_provided_version :: string

record resource_ownership =
  ro_resource :: string
  ro_mode :: string
  ro_owners :: "string list"
  ro_mediator :: "string option"

record obligation_binding =
  bo_extension_id :: string
  bo_role :: string
  bo_event :: string
  bo_completion :: string
  bo_authority :: string
  bo_capability_direction :: string
  bo_capability :: string
  bo_capability_provider :: string
  bo_quorum :: "int option"

record contract_plan =
  cl_host_runtime :: string
  cl_host_version :: string
  cl_ordered_contracts :: "extension_contract list"
  cl_capability_bindings :: "capability_binding list"
  cl_resource_ownership :: "resource_ownership list"
  cl_obligation_bindings :: "obligation_binding list"

subsection \<open>Capabilities\<close>

text \<open>\<open>d.setdefault(k, []).append(v)\<close>\<close>

definition setdefault_append :: "'k \<times> 'v \<Rightarrow> ('k \<times> 'v list) list \<Rightarrow> ('k \<times> 'v list) list" where
  "setdefault_append kv d = dict_set (fst kv) ((case map_of d (fst kv) of None \<Rightarrow> [] | Some vs \<Rightarrow> vs) @ [snd kv]) d"

definition provider_index :: "extension_contract list \<Rightarrow> (string \<times> (extension_contract \<times> capability) list) list" where
  "provider_index contracts =
     fold (\<lambda>c. fold (\<lambda>cap. setdefault_append (cp_name cap, (c, cap))) (ec_provides c)) contracts []"

text \<open>\<open>Version(candidate[1].version) in SpecifierSet(requirement.version)\<close>\<close>

definition candidate_ok :: "('v, 's) pep440 \<Rightarrow> string \<Rightarrow> string \<Rightarrow> plan_error + bool" where
  "candidate_ok P version required = (case pk_version P version of
     None \<Rightarrow> Inl InvalidVersion
   | Some v \<Rightarrow> (case pk_specifiers P required of None \<Rightarrow> Inl InvalidSpecifier | Some s \<Rightarrow> Inr (pk_contains P s v)))"

definition compatible_with ::
  "('v, 's) pep440 \<Rightarrow> capability \<Rightarrow> (extension_contract \<times> capability) list \<Rightarrow>
   plan_error + (extension_contract \<times> capability) list" where
  "compatible_with P requirement candidates =
     ebind (emap (\<lambda>cand. candidate_ok P (cp_version (snd cand)) (cp_version requirement)) candidates) (\<lambda>oks.
     Inr (map fst (filter snd (zip candidates oks))))"

definition bind_requirement ::
  "('v, 's) pep440 \<Rightarrow> (string \<times> (extension_contract \<times> capability) list) list \<Rightarrow> extension_contract \<Rightarrow> capability \<Rightarrow>
   plan_error + capability_binding" where
  "bind_requirement P providers consumer requirement =
     (let candidates = (case map_of providers (cp_name requirement) of None \<Rightarrow> [] | Some cs \<Rightarrow> cs) in
     ebind (compatible_with P requirement candidates) (\<lambda>compatible.
     case compatible of
       [] \<Rightarrow> Inl (Planning (if candidates = [] then MISSING_CAPABILITY else INCOMPATIBLE_CAPABILITY))
     | [(provider, provision)] \<Rightarrow> Inr \<lparr>cb_capability = cp_name requirement, cb_required_range = cp_version requirement,
         cb_consumer = ec_extension_id consumer, cb_provider = ec_extension_id provider,
         cb_provided_version = cp_version provision\<rparr>
     | _ \<Rightarrow> Inl (Planning AMBIGUOUS_CAPABILITY)))"

definition bind_requirements ::
  "('v, 's) pep440 \<Rightarrow> (string \<times> (extension_contract \<times> capability) list) list \<Rightarrow> extension_contract \<Rightarrow>
   plan_error + capability_binding list" where
  "bind_requirements P providers consumer = emap (bind_requirement P providers consumer) (ec_requires consumer)"

text \<open>\<open>dependencies[consumer].add(provider)\<close> for bindings between different extensions.\<close>

definition add_dependency :: "capability_binding \<Rightarrow> (string \<times> string list) list \<Rightarrow> (string \<times> string list) list" where
  "add_dependency b deps =
     (if cb_provider b \<noteq> cb_consumer b
      then map (\<lambda>(k, ps). if k = cb_consumer b then (k, List.insert (cb_provider b) ps) else (k, ps)) deps else deps)"

definition binding_key :: "capability_binding \<Rightarrow> string \<times> string" where
  "binding_key b = (cb_consumer b, cb_capability b)"

definition resolve_capabilities ::
  "('v, 's) pep440 \<Rightarrow> extension_contract list \<Rightarrow>
   plan_error + (capability_binding list \<times> (string \<times> string list) list)" where
  "resolve_capabilities P contracts =
     ebind (emap (bind_requirements P (provider_index contracts)) contracts) (\<lambda>bs.
     let bindings = concat bs in
     Inr (sort_key binding_key bindings,
          fold add_dependency bindings (map (\<lambda>c. (ec_extension_id c, [])) contracts)))"

subsection \<open>Order\<close>

definition heapify :: "string list \<Rightarrow> string list" where
  "heapify xs = sort xs"

definition heappush :: "string \<Rightarrow> string list \<Rightarrow> string list" where
  "heappush x h = insort x h"

fun heappop :: "string list \<Rightarrow> (string \<times> string list) option" where
  "heappop [] = None"
| "heappop (x # h) = Some (x, h)"

definition dependents_of :: "(string \<times> string list) list \<Rightarrow> string \<Rightarrow> string list" where
  "dependents_of deps provider = sort (remdups (map fst (filter (\<lambda>d. provider \<in> set (snd d)) deps)))"

text \<open>The inner loop: each dependent loses one pending requirement and is ready when none is left.\<close>

fun release ::
  "string list \<Rightarrow> string list \<Rightarrow> (string \<times> int) list \<Rightarrow> plan_error + (string list \<times> (string \<times> int) list)" where
  "release [] ready indegree = Inr (ready, indegree)"
| "release (d # ds) ready indegree = (case map_of indegree d of
     None \<Rightarrow> Inl (PlanKeyError d)
   | Some n \<Rightarrow> release ds (if n - 1 = 0 then heappush d ready else ready) (dict_set d (n - 1) indegree))"

definition pending :: "(string \<times> int) list \<Rightarrow> nat" where
  "pending indegree = length (filter (\<lambda>kn. 0 < snd kn) indegree)"

lemma pending_dict_set:
  "map_of indegree d = Some n \<Longrightarrow>
   pending (dict_set d (n - 1) indegree) + (if n = 1 then 1 else 0) = pending indegree"
proof (induction indegree)
  case (Cons kn indegree)
  then show ?case by (cases kn) (auto simp: pending_def)
qed (simp add: pending_def)

lemma release_measure:
  "release ds ready indegree = Inr (ready', indegree') \<Longrightarrow>
   length ready' + pending indegree' = length ready + pending indegree"
proof (induction ds ready indegree rule: release.induct)
  case (2 d ds ready indegree)
  then obtain n where n: "map_of indegree d = Some n" by (auto split: option.splits)
  with 2 pending_dict_set [OF n] show ?case by (auto simp: heappush_def split: if_splits)
qed simp

function order_loop ::
  "(string \<times> extension_contract) list \<Rightarrow> (string \<times> string list) list \<Rightarrow> string list \<Rightarrow> (string \<times> int) list \<Rightarrow>
   extension_contract list \<Rightarrow> plan_error + (extension_contract list \<times> (string \<times> int) list)" where
  "order_loop by_id deps ready indegree ordered = (case heappop ready of
     None \<Rightarrow> Inr (ordered, indegree)
   | Some (extension_id, rest) \<Rightarrow> (case map_of by_id extension_id of
       None \<Rightarrow> Inl (PlanKeyError extension_id)
     | Some c \<Rightarrow> (case release (dependents_of deps extension_id) rest indegree of
         Inl e \<Rightarrow> Inl e
       | Inr (ready', indegree') \<Rightarrow> order_loop by_id deps ready' indegree' (ordered @ [c]))))"
  by pat_completeness auto
termination
proof (relation "measure (\<lambda>(_, _, ready, indegree, _). length ready + pending indegree)", goal_cases)
  case (2 by_id deps ready indegree ordered ex extension_id rest c inr ready' indegree')
  then show ?case by (cases ready) (auto dest: release_measure)
qed simp

declare order_loop.simps [simp del]

text \<open>\<open>dependents[provider].add(consumer)\<close> needs an entry for every provider.\<close>

definition check_providers :: "string list \<Rightarrow> (string \<times> string list) list \<Rightarrow> plan_error + unit" where
  "check_providers ids deps = (case find (\<lambda>p. p \<notin> set ids) (concat (map snd deps)) of
     None \<Rightarrow> Inr ()
   | Some p \<Rightarrow> Inl (PlanKeyError p))"

definition order_contracts ::
  "extension_contract list \<Rightarrow> (string \<times> string list) list \<Rightarrow> plan_error + extension_contract list" where
  "order_contracts contracts deps =
     (let by_id = rev (map (\<lambda>c. (ec_extension_id c, c)) contracts);
          indegree = map (\<lambda>(k, ps). (k, int (length ps))) deps;
          ready = heapify (map fst (filter (\<lambda>kn. snd kn = 0) indegree)) in
      ebind (check_providers (map fst by_id) deps) (\<lambda>_.
      ebind (order_loop by_id deps ready indegree []) (\<lambda>(ordered, _).
      if length ordered \<noteq> length contracts then Inl (Planning DEPENDENCY_CYCLE) else Inr ordered)))"

subsection \<open>Resources\<close>

definition claim_index :: "extension_contract list \<Rightarrow> (string \<times> (string \<times> contract_resource) list) list" where
  "claim_index contracts =
     fold (\<lambda>c. fold (\<lambda>r. setdefault_append (cr_name r, (ec_extension_id c, r))) (ec_resources c)) contracts []"

record resource_summary =
  rs_name :: string
  rs_claims :: "(string \<times> contract_resource) list"
  rs_owners :: "string list"
  rs_modes :: "string set"
  rs_mediators :: "string option set"

definition summary_of :: "string \<times> (string \<times> contract_resource) list \<Rightarrow> resource_summary" where
  "summary_of kv = \<lparr>rs_name = fst kv, rs_claims = snd kv, rs_owners = sort (map fst (snd kv)),
     rs_modes = set (map (\<lambda>c. cr_mode (snd c)) (snd kv)), rs_mediators = set (map (\<lambda>c. cr_mediator (snd c)) (snd kv))\<rparr>"

definition resource_summaries :: "extension_contract list \<Rightarrow> resource_summary list" where
  "resource_summaries contracts = map summary_of (sort_key fst (claim_index contracts))"

definition mode_error :: "resource_summary \<Rightarrow> bool" where
  "mode_error s \<longleftrightarrow> has_duplicates (rs_owners s) \<or>
     1 < length (rs_claims s) \<and> rs_modes s \<noteq> {''shared-read''} \<and> rs_modes s \<noteq> {''mediated''}"

definition mediator_inconsistent :: "resource_summary \<Rightarrow> bool" where
  "mediator_inconsistent s \<longleftrightarrow> rs_modes s = {''mediated''} \<and> card (rs_mediators s) \<noteq> 1"

text \<open>\<open>next(iter(mediators))\<close>, evaluated after the checks above: the first claim's mediator.\<close>

definition first_mediator :: "resource_summary \<Rightarrow> string option" where
  "first_mediator s = (case rs_claims s of [] \<Rightarrow> None | c # _ \<Rightarrow> cr_mediator (snd c))"

definition mediator_absent :: "resource_summary \<Rightarrow> bool" where
  "mediator_absent s \<longleftrightarrow> rs_modes s = {''mediated''} \<and> first_mediator s \<notin> Some ` set (rs_owners s)"

definition ownership_of :: "resource_summary \<Rightarrow> resource_ownership" where
  "ownership_of s =
     (if rs_modes s = {''mediated''} then
        \<lparr>ro_resource = rs_name s, ro_mode = ''mediated'', ro_owners = rs_owners s, ro_mediator = first_mediator s\<rparr>
      else case rs_claims s of
        [c] \<Rightarrow> \<lparr>ro_resource = rs_name s, ro_mode = cr_mode (snd c), ro_owners = rs_owners s,
           ro_mediator = cr_mediator (snd c)\<rparr>
      | _ \<Rightarrow> \<lparr>ro_resource = rs_name s, ro_mode = ''shared-read'', ro_owners = rs_owners s, ro_mediator = None\<rparr>)"

definition resolve_resources :: "extension_contract list \<Rightarrow> plan_error + resource_ownership list" where
  "resolve_resources contracts =
     (let summaries = resource_summaries contracts in
      if list_ex mode_error summaries then Inl (Planning RESOURCE_CONFLICT)
      else if list_ex mediator_inconsistent summaries then Inl (Planning RESOURCE_CONFLICT)
      else if list_ex mediator_absent summaries then Inl (Planning AUTHORITY_VIOLATION_PLAN)
      else Inr (map ownership_of summaries))"

subsection \<open>Taxonomy\<close>

text \<open>\<open>lookup\<close>: the rule of each canonical name and alias; a later one would win.\<close>

definition taxonomy_lookup :: "contract_taxonomy \<Rightarrow> string \<Rightarrow> taxonomy_resource option" where
  "taxonomy_lookup tax =
     map_of (rev (concat (map (\<lambda>r. map (\<lambda>n. (n, r)) (resource_names r)) (ct_resources tax))))"

definition claim_mode_allowed :: "contract_taxonomy \<Rightarrow> contract_resource \<Rightarrow> bool" where
  "claim_mode_allowed tax claim \<longleftrightarrow> (case taxonomy_lookup tax (cr_name claim) of
     None \<Rightarrow> False | Some rule \<Rightarrow> cr_mode claim \<in> set (tx_allowed_modes rule))"

definition canonical_claim :: "contract_taxonomy \<Rightarrow> contract_resource \<Rightarrow> contract_resource" where
  "canonical_claim tax claim = (case taxonomy_lookup tax (cr_name claim) of
     None \<Rightarrow> claim | Some rule \<Rightarrow> claim\<lparr>cr_name := tx_canonical rule\<rparr>)"

definition normalize_taxonomy ::
  "contract_taxonomy \<Rightarrow> extension_contract list \<Rightarrow> plan_error + extension_contract list" where
  "normalize_taxonomy tax contracts =
     (let claims = concat (map ec_resources contracts) in
      if list_ex (\<lambda>claim. taxonomy_lookup tax (cr_name claim) = None) claims then Inl (Planning UNKNOWN_RESOURCE_PLAN)
      else if list_ex (\<lambda>claim. \<not> claim_mode_allowed tax claim) claims then Inl (Planning INVALID_RESOURCE_MODE)
      else Inr (map (\<lambda>c. c\<lparr>ec_resources := sort_key cr_name (map (canonical_claim tax) (ec_resources c))\<rparr>) contracts))"

subsection \<open>Obligations\<close>

definition expected_grant :: "process_obligation \<Rightarrow> authority_grant" where
  "expected_grant b = \<lparr>ag_role = po_role b, ag_event = po_event b,
     ag_capability_direction = po_capability_direction b, ag_capability = po_capability b\<rparr>"

definition obligation_authorized :: "extension_contract \<Rightarrow> process_obligation \<Rightarrow> plan_error + unit" where
  "obligation_authorized c b =
     ebind (grants_of (ec_authority c) (po_authority b)) (\<lambda>grants.
     check (expected_grant b \<in> set grants) (Planning AUTHORITY_VIOLATION_PLAN))"

definition validate_obligation_authority :: "extension_contract list \<Rightarrow> plan_error + unit" where
  "validate_obligation_authority contracts =
     ebind (emap (\<lambda>c. emap (obligation_authorized c) (ec_process_obligations c)) contracts) (\<lambda>_. Inr ())"

definition bind_obligation ::
  "((string \<times> string) \<times> string) list \<Rightarrow> extension_contract \<Rightarrow> process_obligation \<Rightarrow> plan_error + obligation_binding" where
  "bind_obligation requirement_providers c b =
     ebind (if po_capability_direction b = ''requires''
        then (case map_of requirement_providers (ec_extension_id c, po_capability b) of
            None \<Rightarrow> Inl (PlanKeyError (po_capability b)) | Some p \<Rightarrow> Inr p)
        else Inr (ec_extension_id c)) (\<lambda>provider.
     Inr \<lparr>bo_extension_id = ec_extension_id c, bo_role = po_role b, bo_event = po_event b,
       bo_completion = po_completion b, bo_authority = po_authority b,
       bo_capability_direction = po_capability_direction b, bo_capability = po_capability b,
       bo_capability_provider = provider, bo_quorum = po_quorum b\<rparr>)"

definition obligation_binding_key :: "obligation_binding \<Rightarrow> string \<times> string \<times> string \<times> string \<times> string" where
  "obligation_binding_key b = (bo_extension_id b, bo_role b, bo_event b, bo_capability_direction b, bo_capability b)"

definition bind_obligations ::
  "extension_contract list \<Rightarrow> capability_binding list \<Rightarrow> plan_error + obligation_binding list" where
  "bind_obligations contracts bindings =
     (let requirement_providers = rev (map (\<lambda>b. ((cb_consumer b, cb_capability b), cb_provider b)) bindings) in
     ebind (emap (\<lambda>c. emap (bind_obligation requirement_providers c) (ec_process_obligations c)) contracts) (\<lambda>result.
     Inr (sort_key obligation_binding_key (concat result))))"

subsection \<open>\<open>compile_contracts\<close>\<close>

definition host_compatible :: "('v, 's) pep440 \<Rightarrow> string \<Rightarrow> 'v \<Rightarrow> extension_contract \<Rightarrow> plan_error + unit" where
  "host_compatible P runtime version c =
     (if ec_host_runtime c \<noteq> runtime then Inl (Planning INCOMPATIBLE_HOST)
      else case pk_specifiers P (ec_host_version_range c) of
        None \<Rightarrow> Inl InvalidSpecifier
      | Some s \<Rightarrow> check (pk_contains P s version) (Planning INCOMPATIBLE_HOST))"

definition parse_version :: "('v, 's) pep440 \<Rightarrow> string \<Rightarrow> plan_error + 'v" where
  "parse_version P s = (case pk_version P s of None \<Rightarrow> Inl InvalidVersion | Some v \<Rightarrow> Inr v)"

definition compile_contracts ::
  "('v, 's) pep440 \<Rightarrow> extension_contract list \<Rightarrow> json \<Rightarrow> json \<Rightarrow> contract_taxonomy option \<Rightarrow>
   plan_error + contract_plan" where
  "compile_contracts P contracts host_runtime host_version taxonomy =
     ebind (accept (contracts \<noteq> [])) (\<lambda>_.
     ebind (as_string host_runtime) (\<lambda>runtime.
     ebind (ebind (public_version P host_version) (parse_version P)) (\<lambda>version.
     ebind (check (\<not> has_duplicates (map ec_extension_id contracts)) (Planning DUPLICATE_PLUGIN)) (\<lambda>_.
     ebind (emap (host_compatible P runtime version) contracts) (\<lambda>_.
     ebind (case taxonomy of
         None \<Rightarrow> Inr (sort_key ec_extension_id contracts)
       | Some tax \<Rightarrow> normalize_taxonomy tax (sort_key ec_extension_id contracts)) (\<lambda>normalized.
     ebind (validate_obligation_authority normalized) (\<lambda>_.
     ebind (resolve_capabilities P normalized) (\<lambda>(bindings, dependencies).
     ebind (order_contracts normalized dependencies) (\<lambda>ordered.
     ebind (resolve_resources normalized) (\<lambda>resources.
     ebind (bind_obligations normalized bindings) (\<lambda>obligations.
     Inr \<lparr>cl_host_runtime = runtime, cl_host_version = pk_version_str P version, cl_ordered_contracts = ordered,
          cl_capability_bindings = bindings, cl_resource_ownership = resources,
          cl_obligation_bindings = obligations\<rparr>)))))))))))"

end
