(* ===== verification/Contract_Order.thy ===== *)
theory Contract_Order
  imports Contract_Compiler
begin

section \<open>The contract compiler: the order of the contracts\<close>

text \<open>
  \<open>_order_contracts\<close> against a specification that has no queue and no counters: \<open>greedy D I xs\<close>, the
  lists that grow by the least identifier of \<open>I\<close> whose dependencies are all in the list already.  The
  loop computes the maximal such list; it has all identifiers exactly when the dependencies have no
  cycle.
\<close>

subsection \<open>The queue\<close>

locale min_queue =
  fixes heap_of :: "'a::linorder list \<Rightarrow> 'q" and push :: "'a \<Rightarrow> 'q \<Rightarrow> 'q" and pop :: "'q \<Rightarrow> ('a \<times> 'q) option"
    and elems :: "'q \<Rightarrow> 'a multiset" and invar :: "'q \<Rightarrow> bool"
  assumes invar_heap_of: "invar (heap_of xs)" and elems_heap_of: "elems (heap_of xs) = mset xs"
    and invar_push: "invar q \<Longrightarrow> invar (push x q)" and elems_push: "invar q \<Longrightarrow> elems (push x q) = add_mset x (elems q)"
    and pop_None: "invar q \<Longrightarrow> pop q = None \<longleftrightarrow> elems q = {#}"
    and pop_Some: "invar q \<Longrightarrow> pop q = Some (x, r) \<Longrightarrow>
      invar r \<and> elems q = add_mset x (elems r) \<and> (\<forall>y \<in># elems r. x \<le> y)"
begin

lemma pop_Min:
  assumes "invar q" and "pop q = Some (x, r)"
  shows "x = Min (set_mset (elems q))" and "elems r = elems q - {#x#}" and "invar r"
proof -
  note p = pop_Some [OF assms]
  then show "elems r = elems q - {#x#}" "invar r" by simp_all
  from p have "x \<in># elems q" "\<forall>y \<in># elems q. x \<le> y" by auto
  then show "x = Min (set_mset (elems q))" by (intro Min_eqI [symmetric]) auto
qed

lemma push_all:
  "invar q \<Longrightarrow> invar (fold push xs q) \<and> elems (fold push xs q) = mset xs + elems q"
  by (induction xs arbitrary: q) (simp_all add: invar_push elems_push)

end

interpretation heap: min_queue heapify heappush heappop mset sorted
proof
  fix q :: "string list" and x r
  show "sorted q \<Longrightarrow> (heappop q = None) = (mset q = {#})" by (cases q) simp_all
  show "sorted q \<Longrightarrow> heappop q = Some (x, r) \<Longrightarrow> sorted r \<and> mset q = add_mset x (mset r) \<and> (\<forall>y \<in># mset r. x \<le> y)"
    by (cases q) auto
qed (simp_all add: heapify_def heappush_def sorted_insort)

subsection \<open>The specification\<close>

definition available :: "('a \<Rightarrow> 'a set) \<Rightarrow> 'a set \<Rightarrow> 'a list \<Rightarrow> 'a set" where
  "available D I xs = {k \<in> I. k \<notin> set xs \<and> D k \<subseteq> set xs}"

inductive greedy :: "('a::linorder \<Rightarrow> 'a set) \<Rightarrow> 'a set \<Rightarrow> 'a list \<Rightarrow> bool" for D I where
  empty: "greedy D I []"
| step: "greedy D I xs \<Longrightarrow> available D I xs \<noteq> {} \<Longrightarrow> greedy D I (xs @ [Min (available D I xs)])"

definition dependency :: "('a \<Rightarrow> 'a set) \<Rightarrow> 'a set \<Rightarrow> ('a \<times> 'a) set" where
  "dependency D I = {(p, k). k \<in> I \<and> p \<in> D k}"

lemma available_finite: "finite I \<Longrightarrow> finite (available D I xs)"
  by (simp add: available_def)

lemma greedy_distinct: "greedy D I xs \<Longrightarrow> finite I \<Longrightarrow> distinct xs \<and> set xs \<subseteq> I"
proof (induction rule: greedy.induct)
  case (step xs)
  then have "Min (available D I xs) \<in> available D I xs" by (intro Min_in available_finite)
  then show ?case using step by (auto simp: available_def)
qed simp

lemma greedy_topological:
  assumes "finite I" and "greedy D I xs" and "i < length xs"
  shows "D (xs ! i) \<subseteq> set (take i xs)"
  using assms(2,3)
proof (induction arbitrary: i rule: greedy.induct)
  case (step xs)
  then have "Min (available D I xs) \<in> available D I xs" using assms(1) by (intro Min_in available_finite)
  then show ?case using step.IH [of i] step.prems by (cases "i < length xs") (auto simp: available_def nth_append less_Suc_eq)
qed simp

text \<open>The list is determined by the dependencies: two such lists agree.\<close>

lemma greedy_nth:
  assumes "greedy D I xs" and "i < length xs"
  shows "xs ! i = Min (available D I (take i xs))"
  using assms
proof (induction arbitrary: i rule: greedy.induct)
  case (step xs)
  then show ?case by (cases "i < length xs") (auto simp: nth_append less_Suc_eq)
qed simp

lemma greedy_prefix: "greedy D I xs \<Longrightarrow> greedy D I ys \<Longrightarrow> length xs \<le> length ys \<Longrightarrow> prefix xs ys"
proof (induction rule: greedy.induct)
  case (step xs)
  then have pre: "prefix xs ys" and len: "length xs < length ys" by auto
  then have "take (length xs) ys = xs" by (auto simp: prefix_def)
  with greedy_nth [OF step.prems(1) len] have "ys ! length xs = Min (available D I xs)" by simp
  with pre len show ?case by (metis append_eq_conv_conj prefix_def take_Suc_conv_app_nth take_is_prefix)
qed simp

lemma greedy_unique:
  assumes "greedy D I xs" "greedy D I ys" "set xs = I" "set ys = I" "finite I"
  shows "xs = ys"
proof -
  have "length xs = length ys"
    using greedy_distinct [OF assms(1,5)] greedy_distinct [OF assms(2,5)] assms(3,4) by (metis distinct_card)
  then show ?thesis
    using greedy_prefix [OF assms(1,2)] greedy_prefix [OF assms(2,1)] by (simp add: prefix_order.antisym)
qed

text \<open>A list that cannot grow misses an identifier exactly when there is a cycle.\<close>

lemma topological_no_cycle:
  assumes "\<And>i. i < length xs \<Longrightarrow> D (xs ! i) \<subseteq> set (take i xs)" and "set xs = I"
  shows "acyclic (dependency D I)"
proof -
  define pos where "pos k = (LEAST i. i < length xs \<and> xs ! i = k)" for k
  have pos: "pos k < length xs \<and> xs ! pos k = k" if "k \<in> I" for k
    unfolding pos_def by (rule LeastI_ex) (use that assms(2) in_set_conv_nth in metis)
  have "(pos p, pos k) \<in> less_than" if "(p, k) \<in> dependency D I" for p k
  proof -
    from that have k: "k \<in> I" "p \<in> D k" by (auto simp: dependency_def)
    with assms(1) [of "pos k"] pos [of k] have "p \<in> set (take (pos k) xs)" by auto
    then obtain j where "j < pos k" "j < length xs" "xs ! j = p" by (auto simp: in_set_conv_nth)
    then have "pos p \<le> j" unfolding pos_def by (intro Least_le) simp
    with \<open>j < pos k\<close> show ?thesis by simp
  qed
  then have "dependency D I \<subseteq> inv_image less_than pos" by auto
  then show ?thesis using wf_acyclic wf_inv_image wf_less_than acyclic_subset by metis
qed

lemma stuck_cycle:
  assumes "finite I" and "\<And>k. k \<in> I \<Longrightarrow> D k \<subseteq> I" and "available D I xs = {}" and "acyclic (dependency D I)"
  shows "I \<subseteq> set xs"
proof (rule ccontr)
  assume "\<not> I \<subseteq> set xs"
  then have ne: "I - set xs \<noteq> {}" by auto
  have "dependency D I \<subseteq> I \<times> I" using assms(2) by (auto simp: dependency_def)
  then have "wf (dependency D I)"
    using assms(1,4) by (intro finite_acyclic_wf) (auto intro: finite_subset)
  then obtain k where k: "k \<in> I - set xs" "\<And>p. (p, k) \<in> dependency D I \<Longrightarrow> p \<notin> I - set xs"
    using ne wfE_min' by metis
  then have "k \<in> available D I xs" using assms(2) by (force simp: available_def dependency_def)
  with assms(3) show False by simp
qed

subsection \<open>The loop\<close>

lemma release_run:
  assumes "distinct ds" and "\<And>d. d \<in> set ds \<Longrightarrow> map_of indegree d \<noteq> None" and "sorted ready"
  shows "\<exists>ready' indegree'. release ds ready indegree = Inr (ready', indegree') \<and> sorted ready'
     \<and> (\<forall>k. map_of indegree' k = (if k \<in> set ds then map_option (\<lambda>n. n - 1) (map_of indegree k) else map_of indegree k))
     \<and> mset ready' = mset ready + mset (filter (\<lambda>d. map_of indegree d = Some 1) ds)"
  using assms
proof (induction ds arbitrary: ready indegree)
  case (Cons d ds)
  from Cons.prems(2) [of d] obtain n where n: "map_of indegree d = Some n" by auto
  let ?ready = "if n - 1 = 0 then heappush d ready else ready" and ?indegree = "dict_set d (n - 1) indegree"
  have "sorted ?ready" using Cons.prems(3) by (simp add: heap.invar_push)
  moreover have "map_of ?indegree x \<noteq> None" if "x \<in> set ds" for x
    using Cons.prems(2) [of x] that by auto
  ultimately obtain ready' indegree' where r: "release ds ?ready ?indegree = Inr (ready', indegree')" "sorted ready'"
      "\<forall>k. map_of indegree' k = (if k \<in> set ds then map_option (\<lambda>n. n - 1) (map_of ?indegree k) else map_of ?indegree k)"
      "mset ready' = mset ?ready + mset (filter (\<lambda>d. map_of ?indegree d = Some 1) ds)"
    using Cons.IH [of ?indegree ?ready] Cons.prems(1) by auto
  have same: "filter (\<lambda>x. map_of ?indegree x = Some 1) ds = filter (\<lambda>x. map_of indegree x = Some 1) ds"
    using Cons.prems(1) by (intro filter_cong) auto
  have "release (d # ds) ready indegree = Inr (ready', indegree')" using n r(1) by simp
  moreover have "map_of indegree' k = (if k \<in> set (d # ds) then map_option (\<lambda>n. n - 1) (map_of indegree k) else map_of indegree k)" for k
    using r(3) n Cons.prems(1) by (cases "k = d") simp_all
  moreover have "mset ready' = mset ready + mset (filter (\<lambda>x. map_of indegree x = Some 1) (d # ds))"
    using r(4) [unfolded same] n heap.elems_push [OF Cons.prems(3), of d] by simp
  ultimately show ?case using r(2) by blast
qed simp

definition dep_set :: "(string \<times> string list) list \<Rightarrow> string \<Rightarrow> string set" where
  "dep_set deps k = (case map_of deps k of None \<Rightarrow> {} | Some ps \<Rightarrow> set ps)"

definition deps_ok :: "(string \<times> string list) list \<Rightarrow> bool" where
  "deps_ok deps \<longleftrightarrow> distinct (map fst deps) \<and>
     (\<forall>d \<in> set deps. distinct (snd d) \<and> set (snd d) \<subseteq> fst ` set deps)"

abbreviation dep_ids :: "(string \<times> string list) list \<Rightarrow> string set" where
  "dep_ids deps \<equiv> fst ` set deps"

lemma dep_set_subset: "deps_ok deps \<Longrightarrow> k \<in> dep_ids deps \<Longrightarrow> dep_set deps k \<subseteq> dep_ids deps"
  by (force simp: deps_ok_def dep_set_def)

lemma set_dependents_of: "deps_ok deps \<Longrightarrow> set (dependents_of deps x) = {k \<in> dep_ids deps. x \<in> dep_set deps k}"
  by (force simp: dependents_of_def deps_ok_def dep_set_def)

text \<open>What the variables of the loop mean when the identifiers \<open>xs\<close> have been ordered.\<close>

definition loop_state :: "(string \<times> string list) list \<Rightarrow> string list \<Rightarrow> string list \<Rightarrow> (string \<times> int) list \<Rightarrow> bool" where
  "loop_state deps xs ready indegree \<longleftrightarrow> greedy (dep_set deps) (dep_ids deps) xs \<and> sorted ready
     \<and> mset ready = mset_set (available (dep_set deps) (dep_ids deps) xs)
     \<and> (\<forall>k \<in> dep_ids deps. map_of indegree k = Some (int (card (dep_set deps k - set xs))))"

lemma greedy_member:
  assumes "finite I" "greedy D I xs" "k \<in> set xs"
  shows "D k \<subseteq> set xs"
proof -
  from assms(3) obtain i where i: "i < length xs" "xs ! i = k" by (auto simp: in_set_conv_nth)
  with greedy_topological [OF assms(1,2) i(1)] show ?thesis using set_take_subset [of i xs] by auto
qed

lemma available_snoc:
  assumes fin: "finite I" and g: "greedy D I xs" and x: "x \<in> available D I xs" and D: "\<And>k. k \<in> I \<Longrightarrow> finite (D k)"
  shows "available D I (xs @ [x]) = (available D I xs - {x}) \<union> {k \<in> I. x \<in> D k \<and> card (D k - set xs) = 1}" (is "?l = ?a \<union> ?b")
    and "(available D I xs - {x}) \<inter> {k \<in> I. x \<in> D k \<and> card (D k - set xs) = 1} = {}"
proof -
  from x have x': "x \<in> I" "x \<notin> set xs" "D x \<subseteq> set xs" by (auto simp: available_def)
  have one: "card (D k - set xs) = 1 \<longleftrightarrow> D k \<subseteq> set (xs @ [x])" if "k \<in> I" "x \<in> D k" for k
    using that x'(2) by (auto simp: card_1_singleton_iff) (metis DiffI singletonD)
  have old: "k \<notin> set xs \<and> k \<noteq> x" if "x \<in> D k" for k
    using that x' greedy_member [OF fin g, of k] by auto
  show "?a \<inter> ?b = {}" using x' by (auto simp: available_def)
  show "?l = ?a \<union> ?b"
  proof (rule set_eqI)
    fix k
    show "k \<in> ?l \<longleftrightarrow> k \<in> ?a \<union> ?b"
    proof (cases "x \<in> D k")
      case True
      with old [OF True] one [of k] x' show ?thesis by (auto simp: available_def)
    next
      case False
      then show ?thesis by (auto simp: available_def)
    qed
  qed
qed

lemma finite_dep_set [simp]: "finite (dep_set deps k)"
  by (simp add: dep_set_def split: option.split)

lemma loop_pop:
  assumes "loop_state deps xs ready indegree" and "heappop ready = Some (x, rest)"
  shows "x = Min (available (dep_set deps) (dep_ids deps) xs)" "x \<in> available (dep_set deps) (dep_ids deps) xs"
    "sorted rest" "mset rest = mset_set (available (dep_set deps) (dep_ids deps) xs - {x})"
proof -
  let ?A = "available (dep_set deps) (dep_ids deps) xs"
  have fin: "finite ?A" by (rule available_finite) simp
  from assms(1) have r: "sorted ready" "mset ready = mset_set ?A" by (auto simp: loop_state_def)
  note p = heap.pop_Min [OF r(1) assms(2)]
  from p r fin show "x = Min ?A" "sorted rest" by simp_all
  from heap.pop_Some [OF r(1) assms(2)] r(2) have "x \<in># mset_set ?A" by (metis union_single_eq_member)
  with fin show x: "x \<in> ?A" by simp
  from p(2) r(2) mset_set_Diff [OF fin, of "{x}"] x show "mset rest = mset_set (?A - {x})" by simp
qed

lemma loop_step:
  assumes ok: "deps_ok deps" and st: "loop_state deps xs ready indegree" and pop: "heappop ready = Some (x, rest)"
  obtains ready' indegree' where "release (dependents_of deps x) rest indegree = Inr (ready', indegree')"
    and "loop_state deps (xs @ [x]) ready' indegree'"
proof -
  let ?D = "dep_set deps" and ?I = "dep_ids deps" and ?ds = "dependents_of deps x"
  note p = loop_pop [OF st pop]
  from st have g: "greedy ?D ?I xs" and ind: "\<forall>k \<in> ?I. map_of indegree k = Some (int (card (?D k - set xs)))"
    by (auto simp: loop_state_def)
  have ds: "set ?ds = {k \<in> ?I. x \<in> ?D k}" "distinct ?ds"
    using set_dependents_of [OF ok] by (simp_all add: dependents_of_def)
  obtain ready' indegree' where r: "release ?ds rest indegree = Inr (ready', indegree')" "sorted ready'"
      "\<forall>k. map_of indegree' k = (if k \<in> set ?ds then map_option (\<lambda>n. n - 1) (map_of indegree k) else map_of indegree k)"
      "mset ready' = mset rest + mset (filter (\<lambda>d. map_of indegree d = Some 1) ?ds)"
    using release_run [OF ds(2) _ p(3), of indegree] ds(1) ind by auto
  have "filter (\<lambda>d. map_of indegree d = Some 1) ?ds = filter (\<lambda>d. card (?D d - set xs) = 1) ?ds"
    using ds(1) ind by (intro filter_cong) auto
  then have "mset (filter (\<lambda>d. map_of indegree d = Some 1) ?ds) = mset_set {k \<in> ?I. x \<in> ?D k \<and> card (?D k - set xs) = 1}"
    using ds by (auto simp: mset_set_set [symmetric] intro!: arg_cong [of _ _ mset_set])
  then have "mset ready' = mset_set (available ?D ?I (xs @ [x]))"
    using available_snoc [of ?I ?D xs x] g p(2,4) r(4) by (simp add: mset_set_Union available_finite)
  moreover have "greedy ?D ?I (xs @ [x])"
    using greedy.step [OF g] p(1,2) by auto
  moreover have "map_of indegree' k = Some (int (card (?D k - set (xs @ [x]))))" if k: "k \<in> ?I" for k
  proof (cases "x \<in> ?D k")
    case True
    then have "?D k - set (xs @ [x]) = (?D k - set xs) - {x}" "x \<in> ?D k - set xs" using p(2) by (auto simp: available_def)
    moreover from this(2) have "0 < card (?D k - set xs)" by (auto simp: card_gt_0_iff)
    ultimately show ?thesis using bspec [OF ind k] r(3) ds(1) k True by (simp add: card_Diff_singleton of_nat_diff)
  next
    case False
    then have "?D k - set (xs @ [x]) = ?D k - set xs" by auto
    then show ?thesis using False bspec [OF ind k] r(3) ds(1) by simp
  qed
  ultimately show ?thesis using that r(1,2) by (simp add: loop_state_def)
qed

lemma order_loop_run:
  assumes "deps_ok deps" and "\<And>k. k \<in> dep_ids deps \<Longrightarrow> map_of by_id k \<noteq> None"
    and "loop_state deps xs ready indegree" and "ordered = map (the \<circ> map_of by_id) xs"
  shows "\<exists>ys indegree'. order_loop by_id deps ready indegree ordered = Inr (map (the \<circ> map_of by_id) ys, indegree')
     \<and> greedy (dep_set deps) (dep_ids deps) ys \<and> available (dep_set deps) (dep_ids deps) ys = {}"
  using assms
proof (induction by_id deps ready indegree ordered arbitrary: xs rule: order_loop.induct)
  case (1 by_id deps ready indegree ordered)
  show ?case
  proof (cases "heappop ready")
    case None
    with 1 heap.pop_None [of ready] have "available (dep_set deps) (dep_ids deps) xs = {}"
      using available_finite [of "dep_ids deps" "dep_set deps" xs] by (simp add: loop_state_def mset_set_empty_iff)
    moreover have "order_loop by_id deps ready indegree ordered = Inr (ordered, indegree)"
      using None by (subst order_loop.simps) simp
    ultimately show ?thesis using 1 by (auto simp: loop_state_def)
  next
    case (Some xr)
    obtain x rest where xr: "xr = (x, rest)" by fastforce
    from loop_step [OF 1(2,4) Some [unfolded xr]] obtain ready' indegree'
      where r: "release (dependents_of deps x) rest indegree = Inr (ready', indegree')" "loop_state deps (xs @ [x]) ready' indegree'" .
    from loop_pop(2) [OF 1(4) Some [unfolded xr]] have "x \<in> dep_ids deps" by (simp add: available_def)
    with 1(3) obtain c where c: "map_of by_id x = Some c" by blast
    from 1(1) [OF Some xr [symmetric] c r(1) refl 1(2,3) r(2)] 1(5) c Some xr r(1) show ?thesis
      by (simp add: order_loop.simps [of _ _ ready])
  qed
qed

lemma loop_state_init:
  assumes "deps_ok deps"
  shows "loop_state deps [] (heapify (map fst (filter (\<lambda>kn. snd kn = 0) (map (\<lambda>(k, ps). (k, int (length ps))) deps))))
     (map (\<lambda>(k, ps). (k, int (length ps))) deps)"
proof -
  have dist: "distinct (map fst deps)" and ps: "\<And>d. d \<in> set deps \<Longrightarrow> distinct (snd d)"
    using assms by (auto simp: deps_ok_def)
  have D: "dep_set deps k = set v" if "(k, v) \<in> set deps" for k v
    using that dist by (simp add: dep_set_def)
  have start: "map fst (filter (\<lambda>kn. snd kn = 0) (map (\<lambda>(k, ps). (k, int (length ps))) deps)) =
      map fst (filter (\<lambda>d. snd d = []) deps)"
    by (induction deps) auto
  have "mset (map fst (filter (\<lambda>d. snd d = []) deps)) = mset_set (set (map fst (filter (\<lambda>d. snd d = []) deps)))"
    using dist by (intro mset_set_set [symmetric] distinct_map_filter)
  moreover have "set (map fst (filter (\<lambda>d. snd d = []) deps)) = available (dep_set deps) (dep_ids deps) []"
    using D by (force simp: available_def)
  moreover have "map_of (map (\<lambda>(k, ps). (k, int (length ps))) deps) k = Some (int (card (dep_set deps k - set [])))"
    if k: "k \<in> dep_ids deps" for k
  proof -
    from k obtain v where v: "(k, v) \<in> set deps" by auto
    then have "distinct v" using ps by force
    moreover have "map_of (map (\<lambda>(k, ps). (k, int (length ps))) deps) k = Some (int (length v))"
      using v dist by (simp add: map_of_map comp_def)
    ultimately show ?thesis by (simp add: D [OF v] distinct_card)
  qed
  ultimately show ?thesis
    unfolding loop_state_def start by (simp add: greedy.empty heap.invar_heap_of heap.elems_heap_of)
qed

text \<open>The contract of an identifier.\<close>

definition contract_of :: "extension_contract list \<Rightarrow> string \<Rightarrow> extension_contract" where
  "contract_of contracts k = the (map_of (rev (map (\<lambda>c. (ec_extension_id c, c)) contracts)) k)"

lemma map_of_ids:
  assumes "distinct (map ec_extension_id contracts)" and "c \<in> set contracts"
  shows "map_of (rev (map (\<lambda>c. (ec_extension_id c, c)) contracts)) (ec_extension_id c) = Some c"
  using assms by (intro map_of_is_SomeI) (auto simp: rev_map comp_def distinct_map)

lemma contract_of_id:
  "distinct (map ec_extension_id contracts) \<Longrightarrow> c \<in> set contracts \<Longrightarrow> contract_of contracts (ec_extension_id c) = c"
  by (simp add: contract_of_def map_of_ids)

lemma order_contracts_run:
  assumes ids: "distinct (map ec_extension_id contracts)" and deps: "deps_ok deps" "map fst deps = map ec_extension_id contracts"
  obtains ys where "greedy (dep_set deps) (dep_ids deps) ys" "available (dep_set deps) (dep_ids deps) ys = {}"
    "order_contracts contracts deps =
       (if set ys = dep_ids deps then Inr (map (contract_of contracts) ys) else Inl (Planning DEPENDENCY_CYCLE))"
proof -
  let ?by_id = "rev (map (\<lambda>c. (ec_extension_id c, c)) contracts)"
  have dom: "dep_ids deps = ec_extension_id ` set contracts"
    using arg_cong [OF deps(2), of set] by simp
  then have "map_of ?by_id k \<noteq> None" if "k \<in> dep_ids deps" for k
    using that map_of_ids [OF ids] by auto
  from order_loop_run [OF deps(1) this loop_state_init [OF deps(1)]] obtain ys indegree' where
    ys: "greedy (dep_set deps) (dep_ids deps) ys" "available (dep_set deps) (dep_ids deps) ys = {}"
      "order_loop ?by_id deps (heapify (map fst (filter (\<lambda>kn. snd kn = 0) (map (\<lambda>(k, ps). (k, int (length ps))) deps))))
        (map (\<lambda>(k, ps). (k, int (length ps))) deps) [] = Inr (map (the \<circ> map_of ?by_id) ys, indegree')" by auto
  have "distinct ys" "set ys \<subseteq> dep_ids deps" using greedy_distinct [OF ys(1)] by auto
  moreover have "length contracts = card (dep_ids deps)"
    using distinct_card [OF ids] dom by simp
  ultimately have "length ys = length contracts \<longleftrightarrow> set ys = dep_ids deps"
    by (metis card_subset_eq distinct_card finite_imageI finite_set)
  moreover have "map (the \<circ> map_of ?by_id) ys = map (contract_of contracts) ys"
    by (simp add: contract_of_def)
  moreover have "check_providers (map fst ?by_id) deps = Inr ()"
    using deps(1) dom by (auto simp: check_providers_def deps_ok_def image_comp find_None_iff split: option.splits)
  ultimately show ?thesis
    using that [OF ys(1,2)] ys(3) by (simp add: order_contracts_def Let_def)
qed

end
