(* ===== verification/Contract_Example.thy ===== *)
theory Contract_Example
  imports Contract_Compiler
begin

section \<open>Two contracts\<close>

text \<open>
  A provider and a consumer of one capability, as JSON and as parsed contracts, with versions that
  are compared as strings: the concrete input at which the theorems on the compiler are instantiated.
\<close>

definition ex_pep440 :: "(string, string) pep440" where
  "ex_pep440 = \<lparr>pk_version = Some, pk_version_str = (\<lambda>v. v), pk_local = (\<lambda>_. None), pk_specifiers = Some,
     pk_specifiers_str = (\<lambda>s. s), pk_specifier_versions = (\<lambda>s. [s]), pk_contains = (\<lambda>s v. s = v)\<rparr>"

definition ex_obligation_json :: "string \<Rightarrow> json" where
  "ex_obligation_json direction = JObj [(''role'', JStr ''worker''), (''event'', JStr ''loaded''), (''completion'', JStr ''all''),
     (''authority'', JStr ''runtime''), (''capability_direction'', JStr direction), (''capability'', JStr ''kv.store'')]"

definition ex_grant_json :: "string \<Rightarrow> json" where
  "ex_grant_json direction = JObj [(''role'', JStr ''worker''), (''event'', JStr ''loaded''),
     (''capability_direction'', JStr direction), (''capability'', JStr ''kv.store'')]"

definition ex_capability_json :: json where
  "ex_capability_json = JArr [JObj [(''name'', JStr ''kv.store''), (''version'', JStr ''1'')]]"

definition ex_contract_json :: "string \<Rightarrow> string \<Rightarrow> json \<Rightarrow> json \<Rightarrow> json" where
  "ex_contract_json i direction provides requires = JObj [(''schema'', JStr ''ecpa-manifest/0.1-draft''), (''id'', JStr i),
     (''version'', JStr ''1''), (''host'', JObj [(''runtime'', JStr ''vllm''), (''version'', JStr ''2'')]),
     (''capabilities'', JObj [(''provides'', provides), (''requires'', requires)]),
     (''resources'', JArr [JObj [(''name'', JStr ''gpu.kv''), (''mode'', JStr ''shared-read'')]]),
     (''process_obligations'', JArr [ex_obligation_json direction]),
     (''rollback'', JObj [(''manager_owned'', JArr []), (''external_operator_owned'', JArr [])]),
     (''authority'', JObj [(''provider'', JArr []), (''runtime'', JArr [ex_grant_json direction]), (''external'', JArr [])])]"

definition ex_payloads :: "json list" where
  "ex_payloads = [ex_contract_json ''a.app'' ''requires'' (JArr []) ex_capability_json,
     ex_contract_json ''b.kv'' ''provides'' ex_capability_json (JArr [])]"

definition ex_kv :: capability where
  "ex_kv = \<lparr>cp_name = ''kv.store'', cp_version = ''1''\<rparr>"

definition ex_contract :: "(string \<Rightarrow> string) \<Rightarrow> json \<Rightarrow> string \<Rightarrow> string \<Rightarrow> capability list \<Rightarrow> capability list \<Rightarrow> extension_contract" where
  "ex_contract sha v i direction provides requires = \<lparr>ec_extension_id = i, ec_version = ''1'',
     ec_manifest_sha256 = sha (canonical_bytes v), ec_host_runtime = ''vllm'', ec_host_version_range = ''2'',
     ec_provides = provides, ec_requires = requires,
     ec_resources = [\<lparr>cr_name = ''gpu.kv'', cr_mode = ''shared-read'', cr_mediator = None\<rparr>],
     ec_process_obligations = [\<lparr>po_role = ''worker'', po_event = ''loaded'', po_completion = ''all'', po_authority = ''runtime'',
        po_capability_direction = direction, po_capability = ''kv.store'', po_quorum = None\<rparr>],
     ec_rollback = \<lparr>rb_manager_owned = [], rb_external_operator_owned = []\<rparr>,
     ec_authority = \<lparr>au_provider = [], au_runtime = [\<lparr>ag_role = ''worker'', ag_event = ''loaded'',
        ag_capability_direction = direction, ag_capability = ''kv.store''\<rparr>], au_external = []\<rparr>\<rparr>"

definition ex_app :: "(string \<Rightarrow> string) \<Rightarrow> extension_contract" where
  "ex_app sha = ex_contract sha (ex_contract_json ''a.app'' ''requires'' (JArr []) ex_capability_json) ''a.app'' ''requires'' [] [ex_kv]"

definition ex_provider :: "(string \<Rightarrow> string) \<Rightarrow> extension_contract" where
  "ex_provider sha = ex_contract sha (ex_contract_json ''b.kv'' ''provides'' ex_capability_json (JArr [])) ''b.kv'' ''provides'' [ex_kv] []"

lemma ex_pep440_ok: "pep440_ok ex_pep440"
  by (simp add: pep440_ok_def ex_pep440_def)

lemma ex_strip [simp]:
  "py_strip ''worker'' = ''worker''" "py_strip ''loaded'' = ''loaded''" "py_strip ''all'' = ''all''"
  "py_strip ''runtime'' = ''runtime''" "py_strip ''requires'' = ''requires''" "py_strip ''provides'' = ''provides''"
  "py_strip ''kv.store'' = ''kv.store''" "py_strip ''1'' = ''1''" "py_strip ''2'' = ''2''" "py_strip ''vllm'' = ''vllm''"
  "py_strip ''gpu.kv'' = ''gpu.kv''" "py_strip ''shared-read'' = ''shared-read''" "py_strip ''a.app'' = ''a.app''"
  "py_strip ''b.kv'' = ''b.kv''"
  by (simp_all add: py_strip_def is_space_def code_def)

lemma ex_identifiers [simp]: "is_identifier ''kv.store''" "is_identifier ''gpu.kv''" "is_identifier ''a.app''" "is_identifier ''b.kv''"
  by (simp_all add: is_identifier_def ident_char_def ident_sep_def code_def)

lemma ex_kv_sel [simp]: "cp_name ex_kv = ''kv.store''" "cp_version ex_kv = ''1''"
  by (simp_all add: ex_kv_def)

lemmas parser_defs = as_object_def as_array_def as_string_def as_identifier_def as_string_array_def item_of_def get_or_null_def
  accept_def contract_events_def runtime_only_events_def capability_directions_def completion_modes_def authority_kinds_def
  resource_modes_def obligation_fields_def native_completed_def

lemma ex_parse_capabilities [simp]:
  "parse_capabilities ex_pep440 False ex_capability_json = Inr [ex_kv]"
  "parse_capabilities ex_pep440 True ex_capability_json = Inr [ex_kv]"
  "parse_capabilities ex_pep440 b (JArr []) = Inr []"
  by (simp_all add: parse_capabilities_def parse_capability_def parser_defs ex_capability_json_def public_version_def
    public_specifier_def specifier_public_def ex_pep440_def ex_kv_def)

lemma ex_parse_parts [simp]:
  "authority_grants (JArr []) kind = Inr []"
  "direction \<in> {''provides'', ''requires''} \<Longrightarrow> authority_grants (JArr [ex_grant_json direction]) ''runtime'' =
     Inr [\<lparr>ag_role = ''worker'', ag_event = ''loaded'', ag_capability_direction = direction, ag_capability = ''kv.store''\<rparr>]"
  "parse_resources (JArr [JObj [(''name'', JStr ''gpu.kv''), (''mode'', JStr ''shared-read'')]]) =
     Inr [\<lparr>cr_name = ''gpu.kv'', cr_mode = ''shared-read'', cr_mediator = None\<rparr>]"
  by (auto simp: authority_grants_def parse_grant_def parser_defs ex_grant_json_def parse_resources_def parse_resource_def)

lemma ex_parse_obligation [simp]:
  "parse_obligations [] [ex_kv] (JArr [ex_obligation_json ''requires'']) =
     Inr [\<lparr>po_role = ''worker'', po_event = ''loaded'', po_completion = ''all'', po_authority = ''runtime'',
        po_capability_direction = ''requires'', po_capability = ''kv.store'', po_quorum = None\<rparr>]"
  "parse_obligations [ex_kv] [] (JArr [ex_obligation_json ''provides'']) =
     Inr [\<lparr>po_role = ''worker'', po_event = ''loaded'', po_completion = ''all'', po_authority = ''runtime'',
        po_capability_direction = ''provides'', po_capability = ''kv.store'', po_quorum = None\<rparr>]"
  by (simp_all add: parse_obligations_def parse_obligation_def parser_defs ex_obligation_json_def parse_quorum_def ex_kv_def)

lemma ex_parse: "emap (parse_contract sha ex_pep440) ex_payloads = Inr [ex_app sha, ex_provider sha]"
proof -
  have v: "public_version ex_pep440 (JStr ''1'') = Inr ''1''" "public_specifier ex_pep440 (JStr ''2'') = Inr ''2''"
    by (simp_all add: public_version_def public_specifier_def specifier_public_def ex_pep440_def as_string_def)
  have "parse_contract sha ex_pep440 (ex_contract_json ''a.app'' ''requires'' (JArr []) ex_capability_json) = Inr (ex_app sha)"
    by (simp add: parse_contract_def ex_contract_json_def parser_defs contract_fields_def v parse_deprecated_def
      parse_authority_def grant_declared_def ex_app_def ex_contract_def)
  moreover have "parse_contract sha ex_pep440 (ex_contract_json ''b.kv'' ''provides'' ex_capability_json (JArr [])) = Inr (ex_provider sha)"
    by (simp add: parse_contract_def ex_contract_json_def parser_defs contract_fields_def v parse_deprecated_def
      parse_authority_def grant_declared_def ex_provider_def ex_contract_def)
  ultimately show ?thesis by (simp add: ex_payloads_def)
qed

text \<open>The plan of the two contracts: the provider first.\<close>

definition ex_binding :: capability_binding where
  "ex_binding = \<lparr>cb_capability = ''kv.store'', cb_required_range = ''1'', cb_consumer = ''a.app'', cb_provider = ''b.kv'',
     cb_provided_version = ''1''\<rparr>"

definition ex_obligation_binding :: "string \<Rightarrow> string \<Rightarrow> obligation_binding" where
  "ex_obligation_binding i direction = \<lparr>bo_extension_id = i, bo_role = ''worker'', bo_event = ''loaded'', bo_completion = ''all'',
     bo_authority = ''runtime'', bo_capability_direction = direction, bo_capability = ''kv.store'',
     bo_capability_provider = ''b.kv'', bo_quorum = None\<rparr>"

definition ex_contract_plan :: "(string \<Rightarrow> string) \<Rightarrow> contract_plan" where
  "ex_contract_plan sha = \<lparr>cl_host_runtime = ''vllm'', cl_host_version = ''2'',
     cl_ordered_contracts = [ex_provider sha, ex_app sha], cl_capability_bindings = [ex_binding],
     cl_resource_ownership = [\<lparr>ro_resource = ''gpu.kv'', ro_mode = ''shared-read'', ro_owners = [''a.app'', ''b.kv''], ro_mediator = None\<rparr>],
     cl_obligation_bindings = [ex_obligation_binding ''a.app'' ''requires'', ex_obligation_binding ''b.kv'' ''provides'']\<rparr>"

lemma ex_contract_sel [simp]:
  "ec_extension_id (ex_app sha) = ''a.app''" "ec_extension_id (ex_provider sha) = ''b.kv''"
  "ec_provides (ex_app sha) = []" "ec_provides (ex_provider sha) = [ex_kv]"
  "ec_requires (ex_app sha) = [ex_kv]" "ec_requires (ex_provider sha) = []"
  "ec_host_runtime (ex_app sha) = ''vllm''" "ec_host_runtime (ex_provider sha) = ''vllm''"
  "ec_host_version_range (ex_app sha) = ''2''" "ec_host_version_range (ex_provider sha) = ''2''"
  by (simp_all add: ex_app_def ex_provider_def ex_contract_def)

lemma ex_sorted [simp]:
  "sort_key ec_extension_id [ex_app sha, ex_provider sha] = [ex_app sha, ex_provider sha]"
  by simp

lemma ex_authority: "validate_obligation_authority [ex_app sha, ex_provider sha] = Inr ()"
  by (simp add: validate_obligation_authority_def obligation_authorized_def grants_of_def expected_grant_def
    ex_app_def ex_provider_def ex_contract_def)

lemma ex_resolve: "resolve_capabilities ex_pep440 [ex_app sha, ex_provider sha] =
   Inr ([ex_binding], [(''a.app'', [''b.kv'']), (''b.kv'', [])])"
  by (simp add: resolve_capabilities_def bind_requirements_def bind_requirement_def provider_index_def setdefault_append_def
    compatible_with_def candidate_ok_def ex_pep440_def add_dependency_def ex_binding_def)

lemma ex_order: "order_contracts [ex_app sha, ex_provider sha] [(''a.app'', [''b.kv'']), (''b.kv'', [])] =
   Inr [ex_provider sha, ex_app sha]"
  by (simp add: order_contracts_def check_providers_def heapify_def order_loop.simps dependents_of_def heappush_def)

lemma ex_resources: "resolve_resources [ex_app sha, ex_provider sha] =
   Inr [\<lparr>ro_resource = ''gpu.kv'', ro_mode = ''shared-read'', ro_owners = [''a.app'', ''b.kv''], ro_mediator = None\<rparr>]"
  by (simp add: resolve_resources_def resource_summaries_def claim_index_def setdefault_append_def summary_of_def
    mode_error_def mediator_inconsistent_def mediator_absent_def ownership_of_def ex_app_def ex_provider_def ex_contract_def)

lemma ex_bind: "bind_obligations [ex_app sha, ex_provider sha] [ex_binding] =
   Inr [ex_obligation_binding ''a.app'' ''requires'', ex_obligation_binding ''b.kv'' ''provides'']"
  by (simp add: bind_obligations_def bind_obligation_def ex_binding_def ex_obligation_binding_def obligation_binding_key_def
    ex_app_def ex_provider_def ex_contract_def)

lemma ex_compile: "compile_contracts ex_pep440 [ex_app sha, ex_provider sha] (JStr ''vllm'') (JStr ''2'') None =
   Inr (ex_contract_plan sha)"
proof -
  have "ebind (public_version ex_pep440 (JStr ''2'')) (parse_version ex_pep440) = Inr ''2''"
    by (simp add: public_version_def parse_version_def as_string_def ex_pep440_def)
  moreover have "host_compatible ex_pep440 ''vllm'' ''2'' (ex_app sha) = Inr ()"
    "host_compatible ex_pep440 ''vllm'' ''2'' (ex_provider sha) = Inr ()"
    by (simp_all add: host_compatible_def ex_pep440_def)
  ultimately show ?thesis
    by (simp add: compile_contracts_def accept_def as_string_def ex_authority ex_resolve ex_order ex_resources ex_bind
      ex_contract_plan_def) (simp add: ex_pep440_def)
qed

end
