(* ===== verification/Contract_Plan.thy ===== *)
theory Contract_Plan
  imports Contract_Order Contract_Example
begin

section \<open>The contract compiler: what a plan guarantees\<close>

text \<open>
  Properties of \<open>compile_contracts\<close> from those of its passes: which provider a requirement is bound
  to, in which order the contracts come, who owns a resource, and that the order in which the
  contracts are given does not matter.
\<close>

subsection \<open>Grouping\<close>

definition grouped :: "'k \<Rightarrow> ('k \<times> 'v) list \<Rightarrow> 'v list" where
  "grouped k kvs = map snd (filter (\<lambda>kv. fst kv = k) kvs)"

lemma grouped_append [simp]: "grouped k (xs @ ys) = grouped k xs @ grouped k ys"
  by (simp add: grouped_def)

lemma map_of_group:
  "map_of (fold setdefault_append kvs d) k =
     (if grouped k kvs = [] then map_of d k
      else Some ((case map_of d k of None \<Rightarrow> [] | Some vs \<Rightarrow> vs) @ grouped k kvs))"
proof (induction kvs arbitrary: d)
  case (Cons kv kvs)
  then show ?case by (cases "fst kv = k") (auto simp: grouped_def setdefault_append_def)
qed (simp add: grouped_def)

lemma map_of_group_empty:
  "map_of (fold setdefault_append kvs []) k = (if grouped k kvs = [] then None else Some (grouped k kvs))"
  by (simp add: map_of_group)

lemma keys_group: "fst ` set (fold setdefault_append kvs d) = fst ` set kvs \<union> fst ` set d"
  by (induction kvs arbitrary: d) (auto simp: setdefault_append_def keys_dict_set)

lemma distinct_group: "distinct (map fst d) \<Longrightarrow> distinct (map fst (fold setdefault_append kvs d))"
  by (induction kvs arbitrary: d) (simp_all add: setdefault_append_def distinct_dict_set)

lemma fold_nested: "fold (\<lambda>c. fold (\<lambda>x. g (h c x)) (f c)) cs d = fold g (concat (map (\<lambda>c. map (h c) (f c)) cs)) d"
  by (induction cs arbitrary: d) (simp_all add: fold_map comp_def)

definition provisions :: "extension_contract list \<Rightarrow> (extension_contract \<times> capability) list" where
  "provisions cs = concat (map (\<lambda>c. map (Pair c) (ec_provides c)) cs)"

lemma set_provisions: "set (provisions cs) = {(c, cap). c \<in> set cs \<and> cap \<in> set (ec_provides c)}"
  by (auto simp: provisions_def)

lemma provider_index_of:
  "(case map_of (provider_index cs) n of None \<Rightarrow> [] | Some v \<Rightarrow> v) = filter (\<lambda>x. cp_name (snd x) = n) (provisions cs)"
proof -
  have "provider_index cs = fold setdefault_append (map (\<lambda>x. (cp_name (snd x), x)) (provisions cs)) []"
    by (simp add: provider_index_def fold_nested [of setdefault_append] provisions_def map_concat comp_def)
  moreover have "grouped n (map (\<lambda>x. (cp_name (snd x), x)) ps) = filter (\<lambda>x. cp_name (snd x) = n) ps"
    for ps :: "(extension_contract \<times> capability) list"
    by (induction ps) (simp_all add: grouped_def)
  ultimately show ?thesis by (simp add: map_of_group_empty)
qed

subsection \<open>Bindings\<close>

text \<open>The version that an extension provides satisfies a range.\<close>

definition satisfies :: "('v, 's) pep440 \<Rightarrow> string \<Rightarrow> string \<Rightarrow> bool" where
  "satisfies P version required \<longleftrightarrow> candidate_ok P version required = Inr True"

lemma compatible_with_Inr:
  assumes "compatible_with P r cands = Inr out"
  shows "out = filter (\<lambda>x. satisfies P (cp_version (snd x)) (cp_version r)) cands"
proof -
  from assms obtain oks where oks: "list_all2 (\<lambda>x ok. candidate_ok P (cp_version (snd x)) (cp_version r) = Inr ok) cands oks"
      "out = map fst (filter snd (zip cands oks))"
    by (auto simp: compatible_with_def ebind_Inr_iff emap_Inr_iff list_all2_map1)
  from oks(1) have "map fst (filter snd (zip cands oks)) = filter (\<lambda>x. satisfies P (cp_version (snd x)) (cp_version r)) cands"
    by (induction rule: list_all2_induct) (auto simp: satisfies_def)
  with oks(2) show ?thesis by simp
qed

lemma bind_requirement_Inr:
  assumes "bind_requirement P (provider_index cs) c r = Inr b"
  obtains p cap where "filter (\<lambda>x. cp_name (snd x) = cp_name r \<and> satisfies P (cp_version (snd x)) (cp_version r)) (provisions cs) = [(p, cap)]"
    "b = \<lparr>cb_capability = cp_name r, cb_required_range = cp_version r, cb_consumer = ec_extension_id c,
       cb_provider = ec_extension_id p, cb_provided_version = cp_version cap\<rparr>"
proof -
  from assms obtain out where out: "compatible_with P r (filter (\<lambda>x. cp_name (snd x) = cp_name r) (provisions cs)) = Inr out"
    and case1: "(case out of [] \<Rightarrow> Inl (Planning (if filter (\<lambda>x. cp_name (snd x) = cp_name r) (provisions cs) = []
        then MISSING_CAPABILITY else INCOMPATIBLE_CAPABILITY))
      | [(provider, provision)] \<Rightarrow> Inr \<lparr>cb_capability = cp_name r, cb_required_range = cp_version r,
         cb_consumer = ec_extension_id c, cb_provider = ec_extension_id provider, cb_provided_version = cp_version provision\<rparr>
      | _ \<Rightarrow> Inl (Planning AMBIGUOUS_CAPABILITY)) = Inr b"
    unfolding bind_requirement_def Let_def provider_index_of by (auto simp: ebind_Inr_iff)
  from case1 obtain p cap where "out = [(p, cap)]" "b = \<lparr>cb_capability = cp_name r, cb_required_range = cp_version r,
      cb_consumer = ec_extension_id c, cb_provider = ec_extension_id p, cb_provided_version = cp_version cap\<rparr>"
    by (auto split: list.splits)
  moreover from this(1) compatible_with_Inr [OF out]
  have "filter (\<lambda>x. cp_name (snd x) = cp_name r \<and> satisfies P (cp_version (snd x)) (cp_version r)) (provisions cs) = [(p, cap)]"
    by (simp add: conj_commute)
  ultimately show ?thesis using that by blast
qed

text \<open>All bindings of all contracts, before sorting.\<close>

lemma resolve_capabilities_Inr:
  assumes "resolve_capabilities P cs = Inr (bs, deps)"
  obtains bss where "list_all2 (\<lambda>c b. list_all2 (\<lambda>r b. bind_requirement P (provider_index cs) c r = Inr b) (ec_requires c) b) cs bss"
    "bs = sort_key binding_key (concat bss)"
    "deps = fold add_dependency (concat bss) (map (\<lambda>c. (ec_extension_id c, [])) cs)"
  using assms by (auto simp: resolve_capabilities_def Let_def ebind_Inr_iff bind_requirements_def emap_Inr_iff)

lemma list_all2_left: "list_all2 R xs ys \<Longrightarrow> x \<in> set xs \<Longrightarrow> \<exists>y \<in> set ys. R x y"
  by (induction rule: list_all2_induct) auto

lemma list_all2_right: "list_all2 R xs ys \<Longrightarrow> y \<in> set ys \<Longrightarrow> \<exists>x \<in> set xs. R x y"
  by (induction rule: list_all2_induct) auto

lemma binding_for:
  assumes "resolve_capabilities P cs = Inr (bs, deps)" and "c \<in> set cs" and "r \<in> set (ec_requires c)"
  shows "\<exists>b \<in> set bs. bind_requirement P (provider_index cs) c r = Inr b"
  by (rule resolve_capabilities_Inr [OF assms(1)])
    (use assms(2,3) in \<open>fastforce dest!: list_all2_left\<close>)

lemma binding_from:
  assumes "resolve_capabilities P cs = Inr (bs, deps)" and "b \<in> set bs"
  shows "\<exists>c \<in> set cs. \<exists>r \<in> set (ec_requires c). bind_requirement P (provider_index cs) c r = Inr b"
proof (rule resolve_capabilities_Inr [OF assms(1)])
  fix bss
  assume bss: "list_all2 (\<lambda>c b. list_all2 (\<lambda>r b. bind_requirement P (provider_index cs) c r = Inr b) (ec_requires c) b) cs bss"
    "bs = sort_key binding_key (concat bss)"
  with assms(2) obtain x where x: "x \<in> set bss" "b \<in> set x" by auto
  from list_all2_right [OF bss(1) x(1)] obtain c where "c \<in> set cs"
    "list_all2 (\<lambda>r b. bind_requirement P (provider_index cs) c r = Inr b) (ec_requires c) x" by blast
  with list_all2_right [OF _ x(2)] show ?thesis by blast
qed

subsection \<open>Dependencies\<close>

text \<open>Another extension whose capability the consumer is bound to.\<close>

definition needs :: "capability_binding list \<Rightarrow> (string \<times> string) set" where
  "needs bs = {(cb_provider b, cb_consumer b) | b. b \<in> set bs \<and> cb_provider b \<noteq> cb_consumer b}"

lemma add_dependency_fst [simp]: "map fst (add_dependency b deps) = map fst deps"
  by (auto simp: add_dependency_def)

lemma fold_dependency_fst [simp]: "map fst (fold add_dependency bs deps) = map fst deps"
  by (induction bs arbitrary: deps) simp_all

lemma map_of_add_dependency:
  "map_of (add_dependency b deps) k =
     (if k = cb_consumer b \<and> cb_provider b \<noteq> cb_consumer b then map_option (List.insert (cb_provider b)) (map_of deps k)
      else map_of deps k)"
  by (induction deps) (auto simp: add_dependency_def)

lemma dep_set_fold:
  "k \<in> fst ` set deps \<Longrightarrow> dep_set (fold add_dependency bs deps) k = dep_set deps k \<union> {p. (p, k) \<in> needs bs}"
proof (induction bs arbitrary: deps)
  case (Cons b bs)
  have "fst ` set (add_dependency b deps) = fst ` set deps"
    by (metis add_dependency_fst list.set_map)
  with Cons have "dep_set (fold add_dependency (b # bs) deps) k = dep_set (add_dependency b deps) k \<union> {p. (p, k) \<in> needs bs}"
    by simp
  also from Cons.prems obtain ps where "map_of deps k = Some ps"
    by (cases "map_of deps k") (simp_all add: map_of_eq_None_iff)
  then have "dep_set (add_dependency b deps) k = dep_set deps k \<union> {p. (p, k) \<in> needs [b]}"
    by (auto simp: dep_set_def map_of_add_dependency needs_def)
  finally show ?case by (auto simp: needs_def)
qed (simp add: needs_def)

lemma fold_dependency_distinct:
  "\<forall>d \<in> set deps. distinct (snd d) \<Longrightarrow> \<forall>d \<in> set (fold add_dependency bs deps). distinct (snd d)"
proof (induction bs arbitrary: deps)
  case (Cons b bs)
  then have "\<forall>d \<in> set (add_dependency b deps). distinct (snd d)" by (auto simp: add_dependency_def)
  with Cons.IH show ?case by simp
qed simp

lemma binding_ids:
  assumes "resolve_capabilities P cs = Inr (bs, deps)" and "b \<in> set bs"
  shows "cb_consumer b \<in> ec_extension_id ` set cs" "cb_provider b \<in> ec_extension_id ` set cs"
proof -
  from binding_from [OF assms] obtain c r where c: "c \<in> set cs" "bind_requirement P (provider_index cs) c r = Inr b" by blast
  from bind_requirement_Inr [OF c(2)] obtain p cap where
    p: "filter (\<lambda>x. cp_name (snd x) = cp_name r \<and> satisfies P (cp_version (snd x)) (cp_version r)) (provisions cs) = [(p, cap)]"
    "b = \<lparr>cb_capability = cp_name r, cb_required_range = cp_version r, cb_consumer = ec_extension_id c,
       cb_provider = ec_extension_id p, cb_provided_version = cp_version cap\<rparr>" .
  have "(p, cap) \<in> set (provisions cs)" using arg_cong [OF p(1), of set] by auto
  with p(2) c(1) show "cb_consumer b \<in> ec_extension_id ` set cs" "cb_provider b \<in> ec_extension_id ` set cs"
    by (auto simp: set_provisions)
qed

lemma resolved_deps:
  assumes "resolve_capabilities P cs = Inr (bs, deps)" and "distinct (map ec_extension_id cs)"
  shows "map fst deps = map ec_extension_id cs" "deps_ok deps" "dependency (dep_set deps) (dep_ids deps) = needs bs"
    "\<And>k. k \<in> dep_ids deps \<Longrightarrow> dep_set deps k = {p. (p, k) \<in> needs bs}"
proof -
  let ?init = "map (\<lambda>c. (ec_extension_id c, [])) cs :: (string \<times> string list) list"
  from resolve_capabilities_Inr [OF assms(1)] obtain bss where
    bss: "deps = fold add_dependency (concat bss) ?init" "set bs = set (concat bss)" by (metis set_sort)
  then have same: "needs (concat bss) = needs bs" by (simp add: needs_def)
  show ids: "map fst deps = map ec_extension_id cs" by (simp add: bss(1) comp_def)
  then have dom: "dep_ids deps = ec_extension_id ` set cs" by (metis list.set_map)
  have empty: "dep_set ?init k = {}" for k by (auto simp: dep_set_def split: option.split dest!: map_of_SomeD)
  show D: "dep_set deps k = {p. (p, k) \<in> needs bs}" if "k \<in> dep_ids deps" for k
    using that dep_set_fold [of k ?init "concat bss"] empty same dom by (simp add: bss(1) image_image)
  have sub: "p \<in> dep_ids deps \<and> k \<in> dep_ids deps" if "(p, k) \<in> needs bs" for p k
    using that binding_ids [OF assms(1)] dom by (auto simp: needs_def)
  show "dependency (dep_set deps) (dep_ids deps) = needs bs"
    using D sub by (auto simp: dependency_def)
  have dist: "distinct (map fst deps)" using ids assms(2) by simp
  have "distinct (snd d) \<and> set (snd d) \<subseteq> dep_ids deps" if d: "d \<in> set deps" for d
  proof
    show "distinct (snd d)" using fold_dependency_distinct [of ?init "concat bss"] d bss(1) by simp
    have "map_of deps (fst d) = Some (snd d)" using d dist by simp
    then have "set (snd d) = {p. (p, fst d) \<in> needs bs}" using D [of "fst d"] d by (simp add: dep_set_def)
    then show "set (snd d) \<subseteq> dep_ids deps" using sub by auto
  qed
  then show "deps_ok deps" using dist by (simp add: deps_ok_def)
qed

lemma greedy_mono: "greedy D I xs \<Longrightarrow> (\<And>ys. available D I ys = available D' I ys) \<Longrightarrow> greedy D' I xs"
  by (induction rule: greedy.induct) (auto intro: greedy.intros)

lemma greedy_cong:
  assumes "\<And>k. k \<in> I \<Longrightarrow> D k = D' k"
  shows "greedy D I xs = greedy D' I xs"
proof -
  have "available D I ys = available D' I ys" for ys
    using assms by (auto simp: available_def)
  then show ?thesis using greedy_mono [of D I xs D'] greedy_mono [of D' I xs D] by auto
qed

text \<open>What the order pass returns on the resolved dependencies.\<close>

lemma order_resolved:
  assumes res: "resolve_capabilities P cs = Inr (bs, deps)" and ids: "distinct (map ec_extension_id cs)"
  shows "acyclic (needs bs) \<Longrightarrow> \<exists>ys. greedy (\<lambda>k. {p. (p, k) \<in> needs bs}) (ec_extension_id ` set cs) ys \<and>
       set ys = ec_extension_id ` set cs \<and> order_contracts cs deps = Inr (map (contract_of cs) ys)"
    and "\<not> acyclic (needs bs) \<Longrightarrow> order_contracts cs deps = Inl (Planning DEPENDENCY_CYCLE)"
proof -
  note d = resolved_deps [OF res ids]
  have dom: "dep_ids deps = ec_extension_id ` set cs" using d(1) by (metis list.set_map)
  from order_contracts_run [OF ids d(2,1)] obtain ys where
    ys: "greedy (dep_set deps) (dep_ids deps) ys" "available (dep_set deps) (dep_ids deps) ys = {}"
    "order_contracts cs deps = (if set ys = dep_ids deps then Inr (map (contract_of cs) ys) else Inl (Planning DEPENDENCY_CYCLE))" .
  have complete: "set ys = dep_ids deps \<longleftrightarrow> acyclic (needs bs)"
  proof
    show "acyclic (needs bs)" if "set ys = dep_ids deps"
      using topological_no_cycle [OF greedy_topological [OF _ ys(1)] that] d(3) by simp
    show "set ys = dep_ids deps" if "acyclic (needs bs)"
      using stuck_cycle [of "dep_ids deps" "dep_set deps" ys] dep_set_subset [OF d(2)] ys(2) that d(3)
        greedy_distinct [OF ys(1)] by auto
  qed
  have "greedy (\<lambda>k. {p. (p, k) \<in> needs bs}) (ec_extension_id ` set cs) ys"
    using ys(1) greedy_cong [of "dep_ids deps" "dep_set deps" "\<lambda>k. {p. (p, k) \<in> needs bs}"] d(4) dom by simp
  then show "acyclic (needs bs) \<Longrightarrow> \<exists>ys. greedy (\<lambda>k. {p. (p, k) \<in> needs bs}) (ec_extension_id ` set cs) ys \<and>
      set ys = ec_extension_id ` set cs \<and> order_contracts cs deps = Inr (map (contract_of cs) ys)"
    using complete ys(3) dom by auto
  show "\<not> acyclic (needs bs) \<Longrightarrow> order_contracts cs deps = Inl (Planning DEPENDENCY_CYCLE)"
    using complete ys(3) by simp
qed

text \<open>
  C32. The order pass decides cycles: for contracts with distinct ids whose capabilities resolve,
  \<open>_order_contracts\<close> raises \<open>DEPENDENCY_CYCLE\<close> if and only if the bindings between different
  extensions form a cycle; otherwise it returns, and no other error occurs.
\<close>

theorem order_detects_cycles:
  assumes "resolve_capabilities P cs = Inr (bs, deps)" and "distinct (map ec_extension_id cs)"
  shows "order_contracts cs deps = Inl e \<longleftrightarrow> e = Planning DEPENDENCY_CYCLE \<and> \<not> acyclic (needs bs)"
  using order_resolved [OF assms] by (cases "acyclic (needs bs)") auto

theorem order_detects_cycles_witness:
  "resolve_capabilities ex_pep440 [ex_app (\<lambda>_. []), ex_provider (\<lambda>_. [])] =
     Inr ([ex_binding], [(''a.app'', [''b.kv'']), (''b.kv'', [])]) \<and> acyclic (needs [ex_binding])"
  using order_detects_cycles [OF ex_resolve, of "\<lambda>_. []" "Planning DEPENDENCY_CYCLE"] ex_resolve ex_order by simp

subsection \<open>The passes of a successful compilation\<close>

definition normalized_from :: "contract_taxonomy option \<Rightarrow> extension_contract list \<Rightarrow> extension_contract list \<Rightarrow> bool" where
  "normalized_from taxonomy cs norm \<longleftrightarrow> (case taxonomy of
     None \<Rightarrow> Inr (sort_key ec_extension_id cs)
   | Some tax \<Rightarrow> normalize_taxonomy tax (sort_key ec_extension_id cs)) = Inr norm"

lemma emap_unit: "emap f xs = Inr us \<Longrightarrow> \<forall>x \<in> set xs. f x = Inr (() :: unit)"
  by (auto simp: emap_Inr_iff dest: list_all2_left)

lemma map_sort_key: "map f (sort_key f xs) = sort (map f xs)"
  by (rule properties_for_sort [symmetric]) simp_all

lemma compile_Inr:
  assumes "compile_contracts P cs runtime version taxonomy = Inr plan"
  obtains rt v norm deps where
    "cs \<noteq> []" "as_string runtime = Inr rt" "ebind (public_version P version) (parse_version P) = Inr v"
    "distinct (map ec_extension_id cs)"
    "\<forall>c \<in> set cs. host_compatible P rt v c = Inr ()" "normalized_from taxonomy cs norm"
    "validate_obligation_authority norm = Inr ()" "resolve_capabilities P norm = Inr (cl_capability_bindings plan, deps)"
    "order_contracts norm deps = Inr (cl_ordered_contracts plan)" "resolve_resources norm = Inr (cl_resource_ownership plan)"
    "bind_obligations norm (cl_capability_bindings plan) = Inr (cl_obligation_bindings plan)"
    "cl_host_runtime plan = rt" "cl_host_version plan = pk_version_str P v"
  using assms
  by (auto simp: compile_contracts_def ebind_Inr_iff accept_def normalized_from_def
      intro!: that dest!: emap_unit split: prod.splits)

text \<open>Normalising changes the claims only.\<close>

lemma normalized_sel:
  assumes "normalized_from taxonomy cs norm"
  shows "map ec_extension_id norm = sort (map ec_extension_id cs)"
    "\<And>n. n \<in> set norm \<Longrightarrow> \<exists>c \<in> set cs. \<exists>rs. n = c\<lparr>ec_resources := rs\<rparr>"
    "\<And>c. c \<in> set cs \<Longrightarrow> \<exists>n \<in> set norm. \<exists>rs. n = c\<lparr>ec_resources := rs\<rparr>"
proof -
  obtain g where g: "norm = map (\<lambda>c. c\<lparr>ec_resources := g c\<rparr>) (sort_key ec_extension_id cs)"
  proof (cases taxonomy)
    case None
    with assms have "norm = map (\<lambda>c. c\<lparr>ec_resources := ec_resources c\<rparr>) (sort_key ec_extension_id cs)"
      by (simp add: normalized_from_def)
    then show ?thesis by (rule that)
  next
    case (Some tax)
    with assms show ?thesis
      by (intro that) (auto simp: normalized_from_def normalize_taxonomy_def Let_def split: if_splits)
  qed
  then show "map ec_extension_id norm = sort (map ec_extension_id cs)"
    by (simp add: comp_def flip: map_sort_key)
  from g show "\<And>n. n \<in> set norm \<Longrightarrow> \<exists>c \<in> set cs. \<exists>rs. n = c\<lparr>ec_resources := rs\<rparr>" by auto
  from g show "\<And>c. c \<in> set cs \<Longrightarrow> \<exists>n \<in> set norm. \<exists>rs. n = c\<lparr>ec_resources := rs\<rparr>" by auto
qed

subsection \<open>The properties of a plan\<close>

lemma normalized_distinct:
  "normalized_from taxonomy cs norm \<Longrightarrow> distinct (map ec_extension_id cs) \<Longrightarrow> distinct (map ec_extension_id norm)"
  by (simp add: normalized_sel(1))

lemma normalized_ids: "normalized_from taxonomy cs norm \<Longrightarrow> ec_extension_id ` set norm = ec_extension_id ` set cs"
  by (metis list.set_map normalized_sel(1) set_sort)

lemma ids_contract_of:
  assumes "distinct (map ec_extension_id cs)" and "set ys \<subseteq> ec_extension_id ` set cs"
  shows "map (ec_extension_id \<circ> contract_of cs) ys = ys"
  using assms contract_of_id [OF assms(1)] by (intro map_idI) auto

lemma compile_order_ids:
  assumes "compile_contracts P cs runtime version taxonomy = Inr plan"
  obtains norm ys where "normalized_from taxonomy cs norm" "distinct (map ec_extension_id norm)"
    "greedy (\<lambda>k. {p. (p, k) \<in> needs (cl_capability_bindings plan)}) (ec_extension_id ` set cs) ys"
    "set ys = ec_extension_id ` set cs" "cl_ordered_contracts plan = map (contract_of norm) ys"
    "map ec_extension_id (cl_ordered_contracts plan) = ys"
proof (rule compile_Inr [OF assms])
  fix rt v norm deps
  assume c: "distinct (map ec_extension_id cs)" "normalized_from taxonomy cs norm"
    "resolve_capabilities P norm = Inr (cl_capability_bindings plan, deps)"
    "order_contracts norm deps = Inr (cl_ordered_contracts plan)"
  note dist = normalized_distinct [OF c(2,1)] and ids = normalized_ids [OF c(2)]
  have "acyclic (needs (cl_capability_bindings plan))"
    using order_resolved(2) [OF c(3) dist] c(4) by auto
  from order_resolved(1) [OF c(3) dist this] c(4) ids obtain ys where
    ys: "greedy (\<lambda>k. {p. (p, k) \<in> needs (cl_capability_bindings plan)}) (ec_extension_id ` set cs) ys"
    "set ys = ec_extension_id ` set cs" "cl_ordered_contracts plan = map (contract_of norm) ys" by auto
  with ids_contract_of [OF dist, of ys] ids that [OF c(2) dist ys] show thesis by simp
qed

text \<open>
  C15. The ordered contracts of a plan are exactly the contracts given, each once (with the resource
  names of the taxonomy), in the order of the specification \<open>greedy\<close>: repeatedly the least id all of
  whose providers have been placed.  So every provider comes before its consumers, and the order is
  determined by the bindings alone: every list of all ids that follows the specification is this one.
\<close>

theorem compile_orders_providers_first:
  assumes "compile_contracts P cs runtime version taxonomy = Inr plan"
  defines "ids \<equiv> map ec_extension_id (cl_ordered_contracts plan)"
    and "D \<equiv> \<lambda>k. {p. (p, k) \<in> needs (cl_capability_bindings plan)}"
  shows "distinct ids \<and> set ids = ec_extension_id ` set cs
     \<and> list_all (\<lambda>c. \<exists>c0 \<in> set cs. \<exists>rs. c = c0\<lparr>ec_resources := rs\<rparr>) (cl_ordered_contracts plan)
     \<and> (\<forall>i < length ids. D (ids ! i) \<subseteq> set (take i ids))
     \<and> greedy D (ec_extension_id ` set cs) ids
     \<and> (\<forall>xs. greedy D (ec_extension_id ` set cs) xs \<longrightarrow> set xs = ec_extension_id ` set cs \<longrightarrow> xs = ids)"
proof (rule compile_order_ids [OF assms(1)])
  fix norm ys
  assume c: "normalized_from taxonomy cs norm" "distinct (map ec_extension_id norm)"
    "greedy (\<lambda>k. {p. (p, k) \<in> needs (cl_capability_bindings plan)}) (ec_extension_id ` set cs) ys"
    "set ys = ec_extension_id ` set cs" "cl_ordered_contracts plan = map (contract_of norm) ys"
    "map ec_extension_id (cl_ordered_contracts plan) = ys"
  have ys: "ids = ys" "greedy D (ec_extension_id ` set cs) ys" using c by (simp_all add: ids_def D_def)
  have "contract_of norm k \<in> set norm" if "k \<in> set ys" for k
    using that c(4) normalized_ids [OF c(1)] contract_of_id [OF c(2)] by (metis imageE)
  then have "list_all (\<lambda>c. \<exists>c0 \<in> set cs. \<exists>rs. c = c0\<lparr>ec_resources := rs\<rparr>) (cl_ordered_contracts plan)"
    using normalized_sel(2) [OF c(1)] by (auto simp: list_all_iff c(5))
  moreover have "distinct ids" "\<forall>i < length ids. D (ids ! i) \<subseteq> set (take i ids)"
    using greedy_distinct [OF ys(2)] greedy_topological [OF _ ys(2)] ys(1) by simp_all
  moreover have "xs = ids" if "greedy D (ec_extension_id ` set cs) xs" "set xs = ec_extension_id ` set cs" for xs
    using greedy_unique [OF that(1) ys(2) that(2) c(4)] ys(1) by simp
  ultimately show ?thesis using ys c(4) by blast
qed

theorem compile_orders_providers_first_witness:
  "compile_contracts ex_pep440 [ex_app (\<lambda>_. []), ex_provider (\<lambda>_. [])] (JStr ''vllm'') (JStr ''2'') None
     = Inr (ex_contract_plan (\<lambda>_. []))
   \<and> map ec_extension_id (cl_ordered_contracts (ex_contract_plan (\<lambda>_. []))) = [''b.kv'', ''a.app'']
   \<and> greedy (\<lambda>k. {p. (p, k) \<in> needs [ex_binding]}) {''a.app'', ''b.kv''} [''b.kv'', ''a.app'']"
proof -
  have sel: "map ec_extension_id (cl_ordered_contracts (ex_contract_plan (\<lambda>_. []))) = [''b.kv'', ''a.app'']"
    "cl_capability_bindings (ex_contract_plan (\<lambda>_. [])) = [ex_binding]"
    "ec_extension_id ` set [ex_app (\<lambda>_. []), ex_provider (\<lambda>_. [])] = {''a.app'', ''b.kv''}"
    by (simp_all add: ex_contract_plan_def)
  from compile_orders_providers_first [OF ex_compile [of "\<lambda>_. []"]] ex_compile sel(1) show ?thesis
    unfolding sel by blast
qed

text \<open>
  C33. Every requirement of every contract is bound to the only provider there is: the plan has a
  binding of it that names an extension among the contracts which provides the capability at a
  version in the required range, and no other provision of that capability is in the range.
\<close>

theorem compile_binds_unique_providers:
  assumes "compile_contracts P cs runtime version taxonomy = Inr plan" and "c \<in> set cs" and "r \<in> set (ec_requires c)"
  shows "\<exists>p cap. p \<in> set cs \<and> cap \<in> set (ec_provides p) \<and> cp_name cap = cp_name r
     \<and> satisfies P (cp_version cap) (cp_version r)
     \<and> \<lparr>cb_capability = cp_name r, cb_required_range = cp_version r, cb_consumer = ec_extension_id c,
         cb_provider = ec_extension_id p, cb_provided_version = cp_version cap\<rparr> \<in> set (cl_capability_bindings plan)
     \<and> (\<forall>p' \<in> set cs. \<forall>cap' \<in> set (ec_provides p'). cp_name cap' = cp_name r \<longrightarrow>
         satisfies P (cp_version cap') (cp_version r) \<longrightarrow> ec_extension_id p' = ec_extension_id p \<and> cap' = cap)"
proof (rule compile_Inr [OF assms(1)])
  fix rt v norm deps
  assume n: "normalized_from taxonomy cs norm" and res: "resolve_capabilities P norm = Inr (cl_capability_bindings plan, deps)"
  from normalized_sel(3) [OF n assms(2)] obtain nc rs where nc: "nc \<in> set norm" "nc = c\<lparr>ec_resources := rs\<rparr>" by blast
  with assms(3) binding_for [OF res nc(1), of r] obtain b where
    b: "b \<in> set (cl_capability_bindings plan)" "bind_requirement P (provider_index norm) nc r = Inr b" by auto
  from bind_requirement_Inr [OF b(2)] obtain np cap where
    only: "filter (\<lambda>x. cp_name (snd x) = cp_name r \<and> satisfies P (cp_version (snd x)) (cp_version r)) (provisions norm) = [(np, cap)]"
    and b': "b = \<lparr>cb_capability = cp_name r, cb_required_range = cp_version r, cb_consumer = ec_extension_id nc,
       cb_provider = ec_extension_id np, cb_provided_version = cp_version cap\<rparr>" .
  have set: "{x \<in> set (provisions norm). cp_name (snd x) = cp_name r \<and> satisfies P (cp_version (snd x)) (cp_version r)} = {(np, cap)}"
    using arg_cong [OF only, of set] by simp
  have "(np, cap) \<in> {x \<in> set (provisions norm). cp_name (snd x) = cp_name r \<and> satisfies P (cp_version (snd x)) (cp_version r)}"
    unfolding set by simp
  then have cap: "(np, cap) \<in> set (provisions norm)" "cp_name cap = cp_name r" "satisfies P (cp_version cap) (cp_version r)"
    by simp_all
  from cap(1) have np: "np \<in> set norm" "cap \<in> set (ec_provides np)" by (simp_all add: set_provisions)
  from normalized_sel(2) [OF n np(1)] np(2) obtain p rs' where
    p: "p \<in> set cs" "np = p\<lparr>ec_resources := rs'\<rparr>" "cap \<in> set (ec_provides np)" by blast
  have "ec_extension_id p' = ec_extension_id p \<and> cap' = cap"
    if "p' \<in> set cs" "cap' \<in> set (ec_provides p')" "cp_name cap' = cp_name r" "satisfies P (cp_version cap') (cp_version r)" for p' cap'
  proof -
    from normalized_sel(3) [OF n that(1)] obtain n' rs'' where n': "n' \<in> set norm" "n' = p'\<lparr>ec_resources := rs''\<rparr>" by blast
    with that have "(n', cap') \<in> {(np, cap)}" unfolding set [symmetric] by (simp add: set_provisions)
    then have "n' = np" "cap' = cap" by simp_all
    moreover have "ec_extension_id n' = ec_extension_id p'" "ec_extension_id np = ec_extension_id p"
      by (simp_all add: n'(2) p(2))
    ultimately show ?thesis by simp
  qed
  moreover have "b = \<lparr>cb_capability = cp_name r, cb_required_range = cp_version r, cb_consumer = ec_extension_id c,
      cb_provider = ec_extension_id p, cb_provided_version = cp_version cap\<rparr>" using b' nc(2) p(2) by simp
  moreover have "cap \<in> set (ec_provides p)" using p(2,3) by simp
  ultimately show ?thesis using p(1) b(1) cap(2,3) by blast
qed

theorem compile_binds_unique_providers_witness:
  "compile_contracts ex_pep440 [ex_app (\<lambda>_. []), ex_provider (\<lambda>_. [])] (JStr ''vllm'') (JStr ''2'') None
     = Inr (ex_contract_plan (\<lambda>_. []))
   \<and> (\<exists>p cap. p \<in> set [ex_app (\<lambda>_. []), ex_provider (\<lambda>_. [])] \<and> cap \<in> set (ec_provides p) \<and> cp_name cap = ''kv.store''
       \<and> satisfies ex_pep440 (cp_version cap) ''1'')"
proof -
  have req: "ex_app (\<lambda>_. []) \<in> set [ex_app (\<lambda>_. []), ex_provider (\<lambda>_. [])]" "ex_kv \<in> set (ec_requires (ex_app (\<lambda>_. [])))"
    by simp_all
  from compile_binds_unique_providers [OF ex_compile [of "\<lambda>_. []"] req] ex_compile [of "\<lambda>_. []"]
  show ?thesis unfolding ex_kv_sel by blast
qed

end
