(* ===== verification/Contract_Resources.thy ===== *)
theory Contract_Resources
  imports Contract_Plan
begin

section \<open>The contract compiler: ownership of resources\<close>

text \<open>
  What \<open>_resolve_resources\<close> accepts: at most one owner of an exclusive resource, one mediator that is
  itself an owner, and every claim of a contract in the ownership it gets.
\<close>

subsection \<open>Claims and owners\<close>

definition claims_of :: "extension_contract list \<Rightarrow> (string \<times> string \<times> contract_resource) list" where
  "claims_of cs = concat (map (\<lambda>c. map (\<lambda>r. (cr_name r, ec_extension_id c, r)) (ec_resources c)) cs)"

lemma claim_index_eq: "claim_index cs = fold setdefault_append (claims_of cs) []"
  by (simp add: claim_index_def claims_of_def fold_nested [of setdefault_append])

lemma claim_index_entry:
  assumes "(n, v) \<in> set (claim_index cs)"
  shows "v = grouped n (claims_of cs)" "v \<noteq> []"
proof -
  have "map_of (claim_index cs) n = Some v"
    using assms distinct_group [of "[]" "claims_of cs"] by (simp add: claim_index_eq)
  then show "v = grouped n (claims_of cs)" "v \<noteq> []"
    by (auto simp: claim_index_eq map_of_group_empty split: if_splits)
qed

lemma claim_index_has:
  assumes "c \<in> set cs" and "r \<in> set (ec_resources c)"
  shows "(cr_name r, grouped (cr_name r) (claims_of cs)) \<in> set (claim_index cs)"
    and "(ec_extension_id c, r) \<in> set (grouped (cr_name r) (claims_of cs))"
proof -
  show mem: "(ec_extension_id c, r) \<in> set (grouped (cr_name r) (claims_of cs))"
    using assms by (force simp: grouped_def claims_of_def)
  then have "map_of (claim_index cs) (cr_name r) = Some (grouped (cr_name r) (claims_of cs))"
    by (auto simp: claim_index_eq map_of_group_empty)
  then show "(cr_name r, grouped (cr_name r) (claims_of cs)) \<in> set (claim_index cs)"
    by (rule map_of_SomeD)
qed

text \<open>What the ownership of one resource says about a claim on it.\<close>

definition ownership_sound :: "resource_ownership \<Rightarrow> bool" where
  "ownership_sound w \<longleftrightarrow> ro_owners w \<noteq> [] \<and> distinct (ro_owners w) \<and> sorted (ro_owners w)
     \<and> (ro_mode w \<noteq> ''shared-read'' \<and> ro_mode w \<noteq> ''mediated'' \<longrightarrow> length (ro_owners w) = 1)
     \<and> (ro_mode w = ''mediated'' \<longrightarrow> (\<exists>m \<in> set (ro_owners w). ro_mediator w = Some m))"

lemma single_claim: "length xs = 1 \<Longrightarrow> x \<in> set xs \<Longrightarrow> xs = [x]"
  by (cases xs) auto

lemma first_mediator_in: "rs_claims s = c # cs \<Longrightarrow> first_mediator s = cr_mediator (snd c)"
  by (simp add: first_mediator_def)

lemma summary_sel [simp]:
  "rs_claims (summary_of (n, v)) = v" "rs_owners (summary_of (n, v)) = sort (map fst v)"
  "rs_modes (summary_of (n, v)) = (\<lambda>c. cr_mode (snd c)) ` set v"
  "rs_mediators (summary_of (n, v)) = (\<lambda>c. cr_mediator (snd c)) ` set v" "rs_name (summary_of (n, v)) = n"
  by (simp_all add: summary_of_def)

lemma ownership_owners [simp]: "ro_owners (ownership_of s) = rs_owners s" "ro_resource (ownership_of s) = rs_name s"
  by (simp_all add: ownership_of_def split: list.split)

text \<open>The three kinds of resource that pass the checks.\<close>

lemma summary_cases:
  assumes "v \<noteq> []" and "\<not> mode_error (summary_of (n, v))"
  obtains (mediated) "rs_modes (summary_of (n, v)) = {''mediated''}"
    | (shared) "rs_modes (summary_of (n, v)) = {''shared-read''}" "length v \<noteq> 1"
    | (one) x where "rs_modes (summary_of (n, v)) \<noteq> {''mediated''}" "v = [x]"
proof (cases "length v = 1")
  case True
  then obtain x where "v = [x]" by (auto simp: length_Suc_conv)
  with that(1,3) show ?thesis by blast
next
  case False
  with assms(1) have "1 < length v" by (cases v) auto
  with assms(2) have "rs_modes (summary_of (n, v)) = {''shared-read''} \<or> rs_modes (summary_of (n, v)) = {''mediated''}"
    unfolding mode_error_def summary_sel(1) by blast
  with that(1,2) False show ?thesis by blast
qed

lemma ownership_mode:
  assumes "v \<noteq> []" and "\<not> mode_error (summary_of (n, v))" and claim: "c \<in> set v"
  shows "ro_mode (ownership_of (summary_of (n, v))) = cr_mode (snd c)"
  using assms(1,2)
proof (cases rule: summary_cases)
  case mediated
  then have "cr_mode (snd c) = ''mediated''" using claim by auto
  with mediated show ?thesis by (simp add: ownership_of_def)
next
  case shared
  then have "cr_mode (snd c) = ''shared-read''" using claim by auto
  moreover have "rs_modes (summary_of (n, v)) \<noteq> {''mediated''}" using shared(1) by simp
  ultimately show ?thesis using shared(2) by (cases v rule: remdups_adj.cases) (simp_all add: ownership_of_def)
next
  case (one x)
  then show ?thesis using claim by (simp add: ownership_of_def)
qed

lemma mediated_mediator:
  assumes "v \<noteq> []" and "\<not> mediator_inconsistent (summary_of (n, v))" and "rs_modes (summary_of (n, v)) = {''mediated''}" and "c \<in> set v"
  shows "ro_mediator (ownership_of (summary_of (n, v))) = cr_mediator (snd c)"
proof -
  obtain x xs where v: "v = x # xs" using assms(1) by (cases v) auto
  from assms(2,3) have "card ((\<lambda>c. cr_mediator (snd c)) ` set v) = 1"
    unfolding mediator_inconsistent_def summary_sel(4) by blast
  then obtain m where m: "(\<lambda>c. cr_mediator (snd c)) ` set v = {m}" by (rule card_1_singletonE)
  then have "cr_mediator (snd x) = m" "cr_mediator (snd c) = m" using assms(4) v by auto
  with assms(3) v show ?thesis by (simp add: ownership_of_def first_mediator_def)
qed

lemma summary_sound:
  assumes v: "v \<noteq> []" and ok: "\<not> mode_error (summary_of (n, v))" "\<not> mediator_inconsistent (summary_of (n, v))"
    "\<not> mediator_absent (summary_of (n, v))"
  shows "ownership_sound (ownership_of (summary_of (n, v)))"
proof -
  let ?s = "summary_of (n, v)"
  have own: "distinct (rs_owners ?s)" "sorted (rs_owners ?s)" "length (rs_owners ?s) = length v"
    using ok(1) by (simp_all add: mode_error_def)
  then have "rs_owners ?s \<noteq> []" using v by (metis length_0_conv)
  note own = own this
  obtain c where c: "c \<in> set v" using v by (cases v) auto
  note mode = ownership_mode [OF v ok(1) c]
  have excl: "length v = 1" if "ro_mode (ownership_of ?s) \<noteq> ''shared-read''" "ro_mode (ownership_of ?s) \<noteq> ''mediated''"
    using v ok(1)
  proof (cases rule: summary_cases)
    case mediated
    then have "cr_mode (snd c) = ''mediated''" using c by auto
    then show ?thesis using that mode by simp
  next
    case shared
    then have "cr_mode (snd c) = ''shared-read''" using c by auto
    then show ?thesis using that mode by simp
  qed simp
  have med: "\<exists>m \<in> set (rs_owners ?s). ro_mediator (ownership_of ?s) = Some m" if "ro_mode (ownership_of ?s) = ''mediated''"
    using v ok(1)
  proof (cases rule: summary_cases)
    case mediated
    then have "first_mediator ?s \<in> Some ` set (rs_owners ?s)" using ok(3) unfolding mediator_absent_def by blast
    then show ?thesis using mediated by (auto simp: ownership_of_def)
  next
    case shared
    then have "cr_mode (snd c) = ''shared-read''" using c by auto
    then show ?thesis using that mode by simp
  next
    case (one x)
    then show ?thesis using that mode c by auto
  qed
  show ?thesis unfolding ownership_sound_def ownership_owners using own excl med by auto
qed

lemma resolve_resources_Inr:
  assumes "resolve_resources cs = Inr ws" and "(n, v) \<in> set (claim_index cs)"
  shows "ownership_of (summary_of (n, v)) \<in> set ws" "\<not> mode_error (summary_of (n, v))"
    "\<not> mediator_inconsistent (summary_of (n, v))" "\<not> mediator_absent (summary_of (n, v))"
  using assms by (auto simp: resolve_resources_def resource_summaries_def Let_def list_ex_iff split: if_splits)

lemma resolve_resources_from:
  assumes "resolve_resources cs = Inr ws" and "w \<in> set ws"
  obtains n v where "(n, v) \<in> set (claim_index cs)" "w = ownership_of (summary_of (n, v))"
  using assms by (auto simp: resolve_resources_def resource_summaries_def Let_def split: if_splits)

lemma resolve_resources_names:
  assumes "resolve_resources cs = Inr ws"
  shows "distinct (map ro_resource ws)" "sorted (map ro_resource ws)"
proof -
  have ws: "ws = map (\<lambda>x. ownership_of (summary_of x)) (sort_key fst (claim_index cs))"
    using assms by (simp add: resolve_resources_def resource_summaries_def Let_def comp_def split: if_splits)
  have "map ro_resource ws = map fst (sort_key fst (claim_index cs))"
    by (auto simp: ws)
  moreover have "distinct (map fst (claim_index cs))"
    using distinct_group [of "[]" "claims_of cs"] by (simp add: claim_index_eq)
  moreover have "map fst (sort_key fst (claim_index cs)) = sort (map fst (claim_index cs))" by (rule map_sort_key)
  ultimately show "distinct (map ro_resource ws)" "sorted (map ro_resource ws)" by simp_all
qed

lemma claim_owned:
  assumes res: "resolve_resources cs = Inr ws" and c: "c \<in> set cs" "r \<in> set (ec_resources c)"
  shows "\<exists>w \<in> set ws. ro_resource w = cr_name r \<and> ec_extension_id c \<in> set (ro_owners w) \<and> ro_mode w = cr_mode r
     \<and> (cr_mode r = ''mediated'' \<longrightarrow> ro_mediator w = cr_mediator r)
     \<and> (cr_mode r = ''exclusive'' \<longrightarrow> ro_owners w = [ec_extension_id c])"
proof -
  let ?v = "grouped (cr_name r) (claims_of cs)" and ?k = "ec_extension_id c"
  let ?s = "summary_of (cr_name r, ?v)"
  note e = claim_index_has [OF c]
  note ok = resolve_resources_Inr [OF res e(1)] and ne = claim_index_entry(2) [OF e(1)]
  have mode: "ro_mode (ownership_of ?s) = cr_mode r" using ownership_mode [OF ne ok(2) e(2)] by simp
  have owner: "?k \<in> set (rs_owners ?s)" using rev_image_eqI [OF e(2), of ?k fst] by simp
  have among: "cr_mode r \<in> rs_modes ?s" using rev_image_eqI [OF e(2), of "cr_mode r" "\<lambda>c. cr_mode (snd c)"] by simp
  have sound: "ownership_sound (ownership_of ?s)" by (rule summary_sound [OF ne ok(2-4)])
  have med: "ro_mediator (ownership_of ?s) = cr_mediator r" if "cr_mode r = ''mediated''"
    using ne ok(2)
  proof (cases rule: summary_cases)
    case mediated
    then show ?thesis using mediated_mediator [OF ne ok(3) mediated e(2)] by simp
  next
    case shared
    then show ?thesis using among that by (simp only: singleton_iff) simp
  next
    case (one x)
    then have "x = (?k, r)" using e(2) by simp
    with one show ?thesis by (simp add: ownership_of_def)
  qed
  have excl: "rs_owners ?s = [?k]" if "cr_mode r = ''exclusive''"
  proof (rule single_claim [OF _ owner])
    have "length (ro_owners (ownership_of ?s)) = 1" using sound mode that unfolding ownership_sound_def by simp
    then show "length (rs_owners ?s) = 1" by (simp only: ownership_owners)
  qed
  show ?thesis
    by (rule bexI [OF _ ok(1)]) (use mode owner med excl in \<open>simp only: ownership_owners summary_sel(5), blast\<close>)
qed

text \<open>
  C21. Resources in a plan: one entry per resource name, sorted; every entry has owners without
  repetition, exactly one when the mode is neither shared nor mediated, and a mediated resource has a
  mediator that is one of its owners.  Every claim of every contract of the plan has its entry, which
  lists the contract as an owner, with the mode of the claim and, for a mediated one, its mediator;
  and an exclusive claim's contract is the only owner.
\<close>

theorem compile_resources_sound:
  assumes "compile_contracts P cs runtime version taxonomy = Inr plan"
  shows "distinct (map ro_resource (cl_resource_ownership plan)) \<and> sorted (map ro_resource (cl_resource_ownership plan))
     \<and> list_all ownership_sound (cl_resource_ownership plan)
     \<and> (\<forall>c \<in> set (cl_ordered_contracts plan). \<forall>r \<in> set (ec_resources c). \<exists>w \<in> set (cl_resource_ownership plan).
         ro_resource w = cr_name r \<and> ec_extension_id c \<in> set (ro_owners w) \<and> ro_mode w = cr_mode r
         \<and> (cr_mode r = ''mediated'' \<longrightarrow> ro_mediator w = cr_mediator r)
         \<and> (cr_mode r = ''exclusive'' \<longrightarrow> ro_owners w = [ec_extension_id c]))"
proof (rule compile_order_ids [OF assms], rule compile_Inr [OF assms])
  fix norm ys rt v norm' deps
  assume n: "normalized_from taxonomy cs norm" "distinct (map ec_extension_id norm)" "set ys = ec_extension_id ` set cs"
      "cl_ordered_contracts plan = map (contract_of norm) ys"
    and n': "normalized_from taxonomy cs norm'" "resolve_resources norm' = Inr (cl_resource_ownership plan)"
  from n(1) n'(1) have [simp]: "norm' = norm" by (simp add: normalized_from_def)
  note res = n'(2) [simplified]
  have mem: "c \<in> set norm" if "c \<in> set (cl_ordered_contracts plan)" for c
  proof -
    from that n(3,4) obtain k where "c = contract_of norm k" "k \<in> ec_extension_id ` set cs" by auto
    then obtain c' where "c' \<in> set norm" "c = contract_of norm (ec_extension_id c')"
      unfolding normalized_ids [OF n(1), symmetric] by blast
    then show ?thesis using contract_of_id [OF n(2)] by simp
  qed
  show ?thesis
  proof (intro conjI ballI)
    show "distinct (map ro_resource (cl_resource_ownership plan))" "sorted (map ro_resource (cl_resource_ownership plan))"
      using resolve_resources_names [OF res] by simp_all
    show "list_all ownership_sound (cl_resource_ownership plan)"
      unfolding list_all_iff
    proof
      fix w assume "w \<in> set (cl_resource_ownership plan)"
      from resolve_resources_from [OF res this] obtain k u where e: "(k, u) \<in> set (claim_index norm)" "w = ownership_of (summary_of (k, u))" .
      then show "ownership_sound w" using summary_sound [OF claim_index_entry(2) [OF e(1)]] resolve_resources_Inr [OF res e(1)] by simp
    qed
    fix c r assume c: "c \<in> set (cl_ordered_contracts plan)" and r: "r \<in> set (ec_resources c)"
    show "\<exists>w \<in> set (cl_resource_ownership plan). ro_resource w = cr_name r \<and> ec_extension_id c \<in> set (ro_owners w)
        \<and> ro_mode w = cr_mode r \<and> (cr_mode r = ''mediated'' \<longrightarrow> ro_mediator w = cr_mediator r)
        \<and> (cr_mode r = ''exclusive'' \<longrightarrow> ro_owners w = [ec_extension_id c])"
      by (rule claim_owned [OF res mem [OF c] r])
  qed
qed

theorem compile_resources_sound_witness:
  "compile_contracts ex_pep440 [ex_app (\<lambda>_. []), ex_provider (\<lambda>_. [])] (JStr ''vllm'') (JStr ''2'') None
     = Inr (ex_contract_plan (\<lambda>_. []))
   \<and> list_all ownership_sound (cl_resource_ownership (ex_contract_plan (\<lambda>_. [])))"
  using compile_resources_sound [OF ex_compile [of "\<lambda>_. []"]] ex_compile [of "\<lambda>_. []"] by blast

end
