(* ===== verification/Contract_Parsed.thy ===== *)
theory Contract_Parsed
  imports Contract_Resources
begin

section \<open>The contract compiler: parsed contracts\<close>

text \<open>
  What \<open>parse_contract\<close> returns (\<open>contract_ok\<close>) and raises, and that compiling parsed contracts raises
  nothing but \<open>ContractPlanningError\<close>.  \<open>returns m Q\<close> is the weakest precondition of a parser: it
  returns a value with \<open>Q\<close> or raises one of the two codes parsers raise.
\<close>

subsection \<open>Identifiers\<close>

text \<open>The language of \<open>^[a-z0-9]+(?:[.-][a-z0-9]+)+$\<close>.\<close>

definition word_ok :: "string \<Rightarrow> bool" where
  "word_ok w \<longleftrightarrow> w \<noteq> [] \<and> list_all ident_char w"

definition matches_identifier :: "string \<Rightarrow> bool" where
  "matches_identifier s \<longleftrightarrow> (\<exists>w parts. word_ok w \<and> parts \<noteq> [] \<and> list_all (\<lambda>(c, u). ident_sep c \<and> word_ok u) parts
     \<and> s = w @ concat (map (\<lambda>(c, u). c # u) parts))"

lemma ident_sep_char: "ident_sep c \<Longrightarrow> \<not> ident_char c"
  by (auto simp: ident_sep_def ident_char_def code_def)

lemma ident_scan_word: "list_all ident_char w \<Longrightarrow> ident_scan separated started (w @ s) = ident_scan separated (started \<or> w \<noteq> []) s"
  by (induction w arbitrary: started) auto

lemma ident_scan_parts:
  "list_all (\<lambda>(c, u). ident_sep c \<and> word_ok u) parts \<Longrightarrow>
   ident_scan separated True (concat (map (\<lambda>(c, u). c # u) parts)) \<longleftrightarrow> separated \<or> parts \<noteq> []"
proof (induction parts arbitrary: separated)
  case (Cons p parts)
  obtain c u where p: "p = (c, u)" by fastforce
  with Cons.prems have c: "ident_sep c" "\<not> ident_char c" "list_all ident_char u" "u \<noteq> []"
    using ident_sep_char by (simp_all add: word_ok_def)
  from Cons show ?case by (simp add: p c ident_scan_word)
qed simp

lemma ident_scan_split:
  "ident_scan separated started s \<Longrightarrow> \<exists>w parts. list_all ident_char w \<and> (started \<or> w \<noteq> []) \<and>
     list_all (\<lambda>(c, u). ident_sep c \<and> word_ok u) parts \<and> (separated \<or> parts \<noteq> []) \<and>
     s = w @ concat (map (\<lambda>(c, u). c # u) parts)"
proof (induction separated started s rule: ident_scan.induct)
  case (1 separated started)
  then show ?case by (intro exI [of _ "[]"]) auto
next
  case (2 separated started c s)
  show ?case
  proof (cases "ident_char c")
    case True
    with 2 obtain w parts where "list_all ident_char w" "list_all (\<lambda>(c, u). ident_sep c \<and> word_ok u) parts"
        "separated \<or> parts \<noteq> []" "s = w @ concat (map (\<lambda>(c, u). c # u) parts)" by auto
    with True show ?thesis by (intro exI [of _ "c # w"] exI [of _ parts]) auto
  next
    case False
    with 2 obtain w parts where "list_all ident_char w" "w \<noteq> []" "list_all (\<lambda>(c, u). ident_sep c \<and> word_ok u) parts"
        "s = w @ concat (map (\<lambda>(c, u). c # u) parts)" "ident_sep c" "started" by (auto split: if_splits)
    then show ?thesis by (intro exI [of _ "[]"] exI [of _ "(c, w) # parts"]) (auto simp: word_ok_def)
  qed
qed

text \<open>
  The identifier check accepts exactly the language of its regular expression: words of lower
  case letters and digits, at least two of them, joined by dots and dashes.
\<close>

theorem identifier_matches_regex: "is_identifier s \<longleftrightarrow> matches_identifier s"
proof
  assume "is_identifier s"
  then show "matches_identifier s"
    using ident_scan_split [of False False s] by (auto simp: is_identifier_def matches_identifier_def word_ok_def)
next
  assume "matches_identifier s"
  then show "is_identifier s"
    by (auto simp: is_identifier_def matches_identifier_def word_ok_def ident_scan_word ident_scan_parts)
qed

subsection \<open>Parsers\<close>

definition returns :: "plan_error + 'a \<Rightarrow> ('a \<Rightarrow> bool) \<Rightarrow> bool" where
  "returns m Q \<longleftrightarrow> (case m of Inr x \<Rightarrow> Q x | Inl e \<Rightarrow> e = Planning INVALID_CONTRACT \<or> e = Planning AUTHORITY_VIOLATION_PLAN)"

named_theorems parser_rules

lemma returns_Inr [parser_rules]: "Q x \<Longrightarrow> returns (Inr x) Q"
  by (simp add: returns_def)

lemma returns_bad [parser_rules]: "returns bad Q"
  by (simp add: returns_def)

lemma returns_ebind [parser_rules]: "returns m (\<lambda>x. returns (f x) Q) \<Longrightarrow> returns (ebind m f) Q"
  by (cases m) (simp_all add: returns_def)

lemma returns_accept [parser_rules]: "(b \<Longrightarrow> Q ()) \<Longrightarrow> returns (accept b) Q"
  by (cases b) (simp_all add: returns_def accept_def)

lemma returns_check [parser_rules]: "(b \<Longrightarrow> Q ()) \<Longrightarrow> returns (check b (Planning AUTHORITY_VIOLATION_PLAN)) Q"
  by (cases b) (simp_all add: returns_def)

lemma returns_If [parser_rules]:
  "(b \<Longrightarrow> returns m Q) \<Longrightarrow> (\<not> b \<Longrightarrow> returns n Q) \<Longrightarrow> returns (if b then m else n) Q"
  by simp

lemma returns_Let [parser_rules]: "returns (f v) Q \<Longrightarrow> returns (let x = v in f x) Q"
  by simp

lemma returns_object [parser_rules]: "(\<And>d. set (map fst d) = set names \<Longrightarrow> Q d) \<Longrightarrow> returns (as_object v names) Q"
  by (cases v) (simp_all add: returns_def as_object_def)

lemma returns_item [parser_rules]: "k \<in> set (map fst d) \<Longrightarrow> (\<And>v. Q v) \<Longrightarrow> returns (item_of k d) Q"
  by (cases "map_of d k") (simp_all add: returns_def item_of_def map_of_eq_None_iff)

lemma returns_array [parser_rules]: "(\<And>vs. Q vs) \<Longrightarrow> returns (as_array v) Q"
  by (cases v) (simp_all add: returns_def as_array_def)

lemma returns_string [parser_rules]: "(\<And>s. s \<noteq> [] \<Longrightarrow> py_strip s = s \<Longrightarrow> Q s) \<Longrightarrow> returns (as_string v) Q"
  by (cases v) (simp_all add: returns_def as_string_def)

lemma returns_identifier [parser_rules]: "(\<And>s. is_identifier s \<Longrightarrow> Q s) \<Longrightarrow> returns (as_identifier v) Q"
  unfolding as_identifier_def by (intro parser_rules) simp_all

lemma returns_emap:
  assumes "\<And>x. x \<in> set xs \<Longrightarrow> returns (f x) R" and "\<And>ys. list_all R ys \<Longrightarrow> length ys = length xs \<Longrightarrow> Q ys"
  shows "returns (emap f xs) Q"
  using assms
proof (induction xs arbitrary: Q)
  case (Cons x xs)
  have "returns (emap f xs) (\<lambda>ys. R y \<longrightarrow> Q (y # ys))" for y
    using Cons.prems by (intro Cons.IH) auto
  then show ?case using Cons.prems(1) [of x]
    by (cases "f x"; cases "emap f xs") (auto simp: returns_def)
qed (simp add: returns_def)

lemma returns_string_array [parser_rules]:
  "(\<And>ss. distinct ss \<Longrightarrow> sorted ss \<Longrightarrow> Q ss) \<Longrightarrow> returns (as_string_array v) Q"
  unfolding as_string_array_def
  by (intro parser_rules returns_emap [where R = "\<lambda>_. True"]) simp_all

subsection \<open>Well-formed contracts\<close>

definition capabilities_ok :: "(string \<Rightarrow> bool) \<Rightarrow> capability list \<Rightarrow> bool" where
  "capabilities_ok version_ok cs \<longleftrightarrow> distinct (map cp_name cs) \<and> sorted (map cp_name cs) \<and>
     list_all (\<lambda>c. is_identifier (cp_name c) \<and> version_ok (cp_version c)) cs"

definition resource_ok :: "contract_resource \<Rightarrow> bool" where
  "resource_ok r \<longleftrightarrow> is_identifier (cr_name r) \<and> cr_mode r \<in> set resource_modes \<and>
     (case cr_mediator r of None \<Rightarrow> cr_mode r \<noteq> ''mediated'' | Some m \<Rightarrow> cr_mode r = ''mediated'' \<and> is_identifier m)"

text \<open>A role, event, direction and capability under an authority kind.\<close>

definition event_ok :: "capability list \<Rightarrow> capability list \<Rightarrow> string \<Rightarrow> string \<Rightarrow> string \<Rightarrow> string \<Rightarrow> bool" where
  "event_ok provides requires kind event direction cap \<longleftrightarrow> event \<in> set contract_events \<and> direction \<in> set capability_directions
     \<and> (event \<in> set runtime_only_events \<longrightarrow> kind = ''runtime'')
     \<and> cap \<in> set (map cp_name (if direction = ''provides'' then provides else requires))"

definition grant_ok :: "capability list \<Rightarrow> capability list \<Rightarrow> string \<Rightarrow> authority_grant \<Rightarrow> bool" where
  "grant_ok provides requires kind g \<longleftrightarrow>
     event_ok provides requires kind (ag_event g) (ag_capability_direction g) (ag_capability g)"

definition obligation_ok :: "capability list \<Rightarrow> capability list \<Rightarrow> process_obligation \<Rightarrow> bool" where
  "obligation_ok provides requires b \<longleftrightarrow> po_authority b \<in> set authority_kinds \<and> po_completion b \<in> set completion_modes
     \<and> event_ok provides requires (po_authority b) (po_event b) (po_capability_direction b) (po_capability b)
     \<and> (po_event b = native_completed \<longrightarrow> po_role b = ''worker'' \<and> po_completion b = ''all'')
     \<and> (case po_quorum b of None \<Rightarrow> po_completion b \<noteq> ''quorum'' | Some n \<Rightarrow> po_completion b = ''quorum'' \<and> 1 \<le> n)"

definition contract_ok :: "('v, 's) pep440 \<Rightarrow> extension_contract \<Rightarrow> bool" where
  "contract_ok P c \<longleftrightarrow> is_identifier (ec_extension_id c) \<and> pk_version P (ec_version c) \<noteq> None
     \<and> pk_specifiers P (ec_host_version_range c) \<noteq> None
     \<and> capabilities_ok (\<lambda>v. pk_version P v \<noteq> None) (ec_provides c)
     \<and> capabilities_ok (\<lambda>v. pk_specifiers P v \<noteq> None) (ec_requires c)
     \<and> distinct (map cr_name (ec_resources c)) \<and> sorted (map cr_name (ec_resources c)) \<and> list_all resource_ok (ec_resources c)
     \<and> ec_process_obligations c \<noteq> [] \<and> distinct (map obligation_key (ec_process_obligations c))
     \<and> list_all (obligation_ok (ec_provides c) (ec_requires c)) (ec_process_obligations c)
     \<and> list_all (grant_ok (ec_provides c) (ec_requires c) ''provider'') (au_provider (ec_authority c))
     \<and> list_all (grant_ok (ec_provides c) (ec_requires c) ''runtime'') (au_runtime (ec_authority c))
     \<and> list_all (grant_ok (ec_provides c) (ec_requires c) ''external'') (au_external (ec_authority c))"

lemma returns_public_version:
  "pep440_ok P \<Longrightarrow> (\<And>s. pk_version P s \<noteq> None \<Longrightarrow> Q s) \<Longrightarrow> returns (public_version P v) Q"
  unfolding public_version_def
  by (intro parser_rules) (auto simp: returns_def pep440_ok_def split: option.split)

lemma returns_public_specifier:
  "pep440_ok P \<Longrightarrow> (\<And>s. pk_specifiers P s \<noteq> None \<Longrightarrow> Q s) \<Longrightarrow> returns (public_specifier P v) Q"
  unfolding public_specifier_def
  by (intro parser_rules) (auto simp: returns_def pep440_ok_def split: option.split)

lemma returns_capability:
  assumes "pep440_ok P"
  shows "returns (parse_capability P requirements v) (\<lambda>c. is_identifier (cp_name c) \<and>
     (if requirements then pk_specifiers P (cp_version c) \<noteq> None else pk_version P (cp_version c) \<noteq> None))"
  unfolding parse_capability_def
  by (intro parser_rules returns_public_version [OF assms] returns_public_specifier [OF assms]) simp_all

lemma list_all_sort [simp]: "list_all R (sort_key f xs) = list_all R xs"
  by (simp add: list_all_iff)

lemma sort_key_Nil_iff [simp]: "sort_key f xs = [] \<longleftrightarrow> xs = []"
  by (metis length_0_conv length_sort)

lemma distinct_map_sort [simp]: "distinct (map g (sort_key f xs)) = distinct (map g xs)"
  by (rule mset_eq_imp_distinct_iff) simp

lemma returns_capabilities:
  assumes "pep440_ok P" and "\<And>cs. capabilities_ok (\<lambda>v. if requirements then pk_specifiers P v \<noteq> None else pk_version P v \<noteq> None) cs \<Longrightarrow> Q cs"
  shows "returns (parse_capabilities P requirements v) Q"
  unfolding parse_capabilities_def
  by (intro parser_rules returns_emap [OF returns_capability [OF assms(1)]] assms(2))
    (simp_all add: capabilities_ok_def)

lemma returns_grant:
  "returns (parse_grant kind v) (\<lambda>g. ag_event g \<in> set contract_events \<and> ag_capability_direction g \<in> set capability_directions
     \<and> (ag_event g \<in> set runtime_only_events \<longrightarrow> kind = ''runtime''))"
  unfolding parse_grant_def by (intro parser_rules) auto

definition grant_shape :: "string \<Rightarrow> authority_grant \<Rightarrow> bool" where
  "grant_shape kind g \<longleftrightarrow> ag_event g \<in> set contract_events \<and> ag_capability_direction g \<in> set capability_directions
     \<and> (ag_event g \<in> set runtime_only_events \<longrightarrow> kind = ''runtime'')"

lemma returns_grants [parser_rules]:
  assumes "\<And>gs. list_all (grant_shape kind) gs \<Longrightarrow> Q gs"
  shows "returns (authority_grants v kind) Q"
  unfolding authority_grants_def
  by (intro parser_rules returns_emap [OF returns_grant [folded grant_shape_def]] assms) simp_all

lemma grant_okI: "grant_shape kind g \<Longrightarrow> grant_declared provides requires g \<Longrightarrow> grant_ok provides requires kind g"
  by (simp add: grant_shape_def grant_declared_def grant_ok_def event_ok_def)

lemma returns_authority:
  assumes "set (map fst d) = {''provider'', ''runtime'', ''external''}"
    and Q: "\<And>a. list_all (grant_ok provides requires ''provider'') (au_provider a) \<Longrightarrow>
      list_all (grant_ok provides requires ''runtime'') (au_runtime a) \<Longrightarrow>
      list_all (grant_ok provides requires ''external'') (au_external a) \<Longrightarrow> Q a"
  shows "returns (parse_authority provides requires d) Q"
  unfolding parse_authority_def
  by (intro parser_rules Q) (use assms(1) in \<open>auto simp: list_all_iff grant_okI\<close>)

lemma returns_resource: "returns (parse_resource v) resource_ok"
proof (cases v)
  case (JObj d)
  show ?thesis
    unfolding parse_resource_def JObj json.case
    by (intro parser_rules) (auto simp: resource_ok_def)
qed (simp_all add: parse_resource_def returns_bad)

lemma returns_resources [parser_rules]:
  assumes "\<And>rs. list_all resource_ok rs \<Longrightarrow> distinct (map cr_name rs) \<Longrightarrow> Q rs"
  shows "returns (parse_resources v) Q"
  unfolding parse_resources_def
  by (intro parser_rules returns_emap [OF returns_resource] assms) simp_all

lemma returns_quorum:
  assumes "\<And>q. (case q of None \<Rightarrow> completion \<noteq> ''quorum'' | Some n \<Rightarrow> completion = ''quorum'' \<and> 1 \<le> n) \<Longrightarrow> Q q"
  shows "returns (parse_quorum completion v) Q"
  unfolding parse_quorum_def
  by (rule returns_If) (use assms in \<open>auto simp: returns_def split: json.split\<close>)

lemma obligation_field:
  "set (map fst d) = set (if quorum then obligation_fields @ [''quorum''] else obligation_fields) \<Longrightarrow>
   k \<in> set obligation_fields \<Longrightarrow> k \<in> set (map fst d)"
  by (cases quorum) simp_all

lemma returns_obligation: "returns (parse_obligation provides requires v) (obligation_ok provides requires)"
proof (cases v)
  case (JObj d)
  show ?thesis
    unfolding parse_obligation_def JObj json.case
    by (intro parser_rules returns_quorum)
      ((erule obligation_field, simp add: obligation_fields_def)
       | (simp only: obligation_ok_def event_ok_def process_obligation.select_convs, blast))+
qed (simp_all add: parse_obligation_def returns_bad)

lemma returns_obligations [parser_rules]:
  assumes "\<And>bs. bs \<noteq> [] \<Longrightarrow> list_all (obligation_ok provides requires) bs \<Longrightarrow> distinct (map obligation_key bs) \<Longrightarrow> Q bs"
  shows "returns (parse_obligations provides requires v) Q"
  unfolding parse_obligations_def
  by (intro parser_rules returns_emap [OF returns_obligation] assms) auto

lemma returns_deprecated [parser_rules]: "Q () \<Longrightarrow> returns (parse_deprecated d) Q"
  unfolding parse_deprecated_def
  by (cases "map_of d ''deprecated''") (simp_all add: returns_Inr, intro parser_rules, auto)

lemma contract_field:
  "set (map fst d) \<in> {set contract_fields, set (contract_fields @ [''deprecated''])} \<Longrightarrow>
   k \<in> set contract_fields \<Longrightarrow> k \<in> set (map fst d)"
  by auto

lemma field_of: "set (map fst d) = set names \<Longrightarrow> k \<in> set names \<Longrightarrow> k \<in> set (map fst d)"
  by simp

lemma returns_contract:
  assumes ok: "pep440_ok P"
  shows "returns (parse_contract sha P v) (contract_ok P)"
proof (cases v)
  case (JObj d)
  show ?thesis
    unfolding parse_contract_def JObj json.case
    by (intro parser_rules returns_public_version [OF ok] returns_public_specifier [OF ok] returns_capabilities [OF ok]
        returns_authority)
      ((erule contract_field, simp add: contract_fields_def) | (erule field_of, simp)
       | (simp only: list.set; fail)
       | (simp add: contract_ok_def map_sort_key; fail))+
qed (simp_all add: parse_contract_def returns_bad)

text \<open>
  C17. \<open>parse_contract\<close> on any JSON value either returns a well-formed contract or raises
  \<open>ContractPlanningError\<close> with \<open>INVALID_CONTRACT\<close> or \<open>AUTHORITY_VIOLATION\<close>; it never fails with a
  \<open>KeyError\<close>.  Well-formed means: identifiers and versions that parse, capabilities and resources
  with distinct names in order, a mediator exactly on mediated resources, at least one obligation,
  obligations and grants that refer to declared capabilities, execution events under the runtime
  authority only, and a positive quorum exactly on quorum obligations.
\<close>

theorem parse_contract_sound:
  assumes "pep440_ok P"
  shows "case parse_contract sha P v of
     Inr c \<Rightarrow> contract_ok P c
   | Inl e \<Rightarrow> e = Planning INVALID_CONTRACT \<or> e = Planning AUTHORITY_VIOLATION_PLAN"
  using returns_contract [OF assms, of sha v] by (simp add: returns_def)

theorem parse_contract_sound_witness:
  "pep440_ok ex_pep440
   \<and> parse_contract (\<lambda>_. []) ex_pep440 (ex_contract_json ''a.app'' ''requires'' (JArr []) ex_capability_json) = Inr (ex_app (\<lambda>_. []))
   \<and> contract_ok ex_pep440 (ex_app (\<lambda>_. []))"
proof -
  have parse: "parse_contract (\<lambda>_. []) ex_pep440 (ex_contract_json ''a.app'' ''requires'' (JArr []) ex_capability_json)
      = Inr (ex_app (\<lambda>_. []))"
    using ex_parse [of "\<lambda>_. []"] by (simp add: ex_payloads_def ebind_Inr_iff)
  with parse_contract_sound [OF ex_pep440_ok, of "\<lambda>_. []" "ex_contract_json ''a.app'' ''requires'' (JArr []) ex_capability_json"]
    ex_pep440_ok show ?thesis by simp
qed

subsection \<open>Compiling parsed contracts\<close>

definition planned :: "plan_error + 'a \<Rightarrow> ('a \<Rightarrow> bool) \<Rightarrow> bool" where
  "planned m Q \<longleftrightarrow> (case m of Inr x \<Rightarrow> Q x | Inl e \<Rightarrow> \<exists>pc. e = Planning pc)"

lemma planned_simps [simp]: "planned (Inr x) Q = Q x" "planned (Inl (Planning pc)) Q"
  by (simp_all add: planned_def)

lemma planned_returns: "returns m Q \<Longrightarrow> planned m Q"
  by (auto simp: planned_def returns_def split: sum.splits)

lemma planned_ebind: "planned m (\<lambda>x. m = Inr x \<longrightarrow> planned (f x) Q) \<Longrightarrow> planned (ebind m f) Q"
  by (cases m) (simp_all add: planned_def)

lemma planned_check [simp]: "planned (check b (Planning pc)) Q \<longleftrightarrow> (b \<longrightarrow> Q ())"
  by (cases b) simp_all

lemma planned_accept [simp]: "planned (accept b) Q \<longleftrightarrow> (b \<longrightarrow> Q ())"
  by (simp add: accept_def)

lemma planned_emap: "(\<And>x. x \<in> set xs \<Longrightarrow> planned (f x) (\<lambda>_. True)) \<Longrightarrow> planned (emap f xs) (\<lambda>_. True)"
proof (induction xs)
  case (Cons x xs)
  then have "planned (f x) (\<lambda>_. True)" "planned (emap f xs) (\<lambda>_. True)" by simp_all
  then show ?case by (cases "f x"; cases "emap f xs") (auto simp: planned_def)
qed simp

lemma planned_all: "planned m (\<lambda>_. True) \<Longrightarrow> (\<And>x. m = Inr x \<Longrightarrow> Q x) \<Longrightarrow> planned m Q"
  by (cases m) (simp_all add: planned_def)

text \<open>What compilation needs of a contract; the claims do not matter.\<close>

definition ready_contract :: "('v, 's) pep440 \<Rightarrow> extension_contract \<Rightarrow> bool" where
  "ready_contract P c \<longleftrightarrow> pk_specifiers P (ec_host_version_range c) \<noteq> None
     \<and> list_all (\<lambda>cap. pk_version P (cp_version cap) \<noteq> None) (ec_provides c)
     \<and> list_all (\<lambda>r. pk_specifiers P (cp_version r) \<noteq> None) (ec_requires c)
     \<and> list_all (\<lambda>b. po_authority b \<in> set authority_kinds \<and>
         (po_capability_direction b = ''requires'' \<longrightarrow> po_capability b \<in> cp_name ` set (ec_requires c))) (ec_process_obligations c)"

lemma contract_ok_ready: "contract_ok P c \<Longrightarrow> ready_contract P c"
proof -
  assume ok: "contract_ok P c"
  have "po_authority b \<in> set authority_kinds \<and>
      (po_capability_direction b = ''requires'' \<longrightarrow> po_capability b \<in> cp_name ` set (ec_requires c))"
    if "b \<in> set (ec_process_obligations c)" for b
  proof -
    have "obligation_ok (ec_provides c) (ec_requires c) b" using ok that by (simp add: contract_ok_def list_all_iff)
    then have "po_authority b \<in> set authority_kinds"
      "po_capability b \<in> cp_name ` set (if po_capability_direction b = ''provides'' then ec_provides c else ec_requires c)"
      by (simp_all add: obligation_ok_def event_ok_def)
    then show ?thesis by (cases "po_capability_direction b = ''requires''") simp_all
  qed
  then show ?thesis using ok by (simp add: ready_contract_def contract_ok_def capabilities_ok_def list_all_iff)
qed

lemma ready_resources [simp]: "ready_contract P (c\<lparr>ec_resources := rs\<rparr>) = ready_contract P c"
  by (simp add: ready_contract_def)

lemma planned_host:
  "ready_contract P c \<Longrightarrow> planned (host_compatible P runtime version c) (\<lambda>_. True)"
  by (auto simp: host_compatible_def ready_contract_def split: option.split)

lemma planned_authority:
  assumes "list_all (ready_contract P) cs"
  shows "planned (validate_obligation_authority cs) (\<lambda>_. True)"
proof -
  have "planned (obligation_authorized c b) (\<lambda>_. True)" if "c \<in> set cs" "b \<in> set (ec_process_obligations c)" for c b
  proof -
    from assms that have "po_authority b \<in> set authority_kinds" by (auto simp: list_all_iff ready_contract_def)
    then show ?thesis
      by (auto simp: obligation_authorized_def grants_of_def authority_kinds_def)
  qed
  then show ?thesis
    unfolding validate_obligation_authority_def by (intro planned_ebind planned_all [OF planned_emap] planned_emap) simp_all
qed

lemma planned_requirement:
  assumes "list_all (ready_contract P) cs" and "c \<in> set cs" "r \<in> set (ec_requires c)"
  shows "planned (bind_requirement P (provider_index cs) c r) (\<lambda>_. True)"
proof -
  have "planned (candidate_ok P (cp_version (snd x)) (cp_version r)) (\<lambda>_. True)" if "x \<in> set (provisions cs)" for x
  proof -
    from that obtain p cap where x: "x = (p, cap)" "p \<in> set cs" "cap \<in> set (ec_provides p)" by (auto simp: set_provisions)
    then have "ready_contract P p" "ready_contract P c" using assms by (simp_all add: list_all_iff)
    then have "pk_version P (cp_version cap) \<noteq> None" "pk_specifiers P (cp_version r) \<noteq> None"
      using x(3) assms(3) by (simp_all add: ready_contract_def list_all_iff)
    then show ?thesis by (auto simp: candidate_ok_def x(1))
  qed
  then have "planned (compatible_with P r (filter (\<lambda>x. cp_name (snd x) = cp_name r) (provisions cs))) (\<lambda>_. True)"
    unfolding compatible_with_def by (intro planned_ebind planned_all [OF planned_emap]) simp_all
  then show ?thesis
    unfolding bind_requirement_def Let_def provider_index_of
    by (intro planned_ebind planned_all [where Q = "\<lambda>x. _ x \<longrightarrow> _ x"]) (auto split: list.split)
qed

lemma planned_resolve:
  assumes "list_all (ready_contract P) cs"
  shows "planned (resolve_capabilities P cs) (\<lambda>_. True)"
  unfolding resolve_capabilities_def Let_def bind_requirements_def
  by (intro planned_ebind planned_all [OF planned_emap] planned_emap planned_requirement [OF assms]) simp_all

lemma planned_bind_obligations:
  assumes ready: "list_all (ready_contract P) cs" and res: "resolve_capabilities P cs = Inr (bs, deps)"
  shows "planned (bind_obligations cs bs) (\<lambda>_. True)"
proof -
  let ?rp = "rev (map (\<lambda>b. ((cb_consumer b, cb_capability b), cb_provider b)) bs)"
  have "planned (bind_obligation ?rp c b) (\<lambda>_. True)" if cb: "c \<in> set cs" "b \<in> set (ec_process_obligations c)" for c b
  proof (cases "po_capability_direction b = ''requires''")
    case True
    have "ready_contract P c" using ready cb(1) by (simp add: list_all_iff)
    with True cb(2) have "po_capability b \<in> cp_name ` set (ec_requires c)" by (simp add: ready_contract_def list_all_iff)
    then obtain r where r: "r \<in> set (ec_requires c)" "cp_name r = po_capability b" by auto
    from binding_for [OF res cb(1) r(1)] obtain bi where bi: "bi \<in> set bs" "bind_requirement P (provider_index cs) c r = Inr bi" by blast
    have key: "cb_consumer bi = ec_extension_id c" "cb_capability bi = po_capability b"
      by (rule bind_requirement_Inr [OF bi(2)], simp add: r(2))+
    have "(ec_extension_id c, po_capability b) \<in> fst ` set ?rp"
      using rev_image_eqI [OF bi(1), of _ "\<lambda>b. (cb_consumer b, cb_capability b)"] by (simp add: image_image key)
    then have "map_of ?rp (ec_extension_id c, po_capability b) \<noteq> None" by (simp add: map_of_eq_None_iff)
    then show ?thesis by (auto simp: bind_obligation_def)
  qed (simp add: bind_obligation_def)
  then show ?thesis
    unfolding bind_obligations_def Let_def by (intro planned_ebind planned_all [OF planned_emap] planned_emap) simp_all
qed

lemma planned_order:
  assumes "resolve_capabilities P cs = Inr (bs, deps)" and "distinct (map ec_extension_id cs)"
  shows "planned (order_contracts cs deps) (\<lambda>_. True)"
  using order_resolved [OF assms] by (cases "acyclic (needs bs)") auto

lemma planned_resources: "planned (resolve_resources cs) (\<lambda>_. True)"
  by (simp add: resolve_resources_def Let_def)

lemma planned_normalize: "planned (normalize_taxonomy tax cs) (\<lambda>_. True)"
  by (simp add: normalize_taxonomy_def Let_def)

lemma normalized_ready:
  "normalized_from taxonomy cs norm \<Longrightarrow> list_all (ready_contract P) cs \<Longrightarrow> list_all (ready_contract P) norm"
  using normalized_sel(2) [of taxonomy cs norm] by (fastforce simp: list_all_iff)

lemma planned_step: "planned m (\<lambda>_. True) \<Longrightarrow> (\<And>x. m = Inr x \<Longrightarrow> planned (f x) Q) \<Longrightarrow> planned (ebind m f) Q"
  by (cases m) (simp_all add: planned_def)

lemma planned_version: "pep440_ok P \<Longrightarrow> planned (ebind (public_version P v) (parse_version P)) (\<lambda>_. True)"
  by (intro planned_ebind planned_returns returns_public_version) (auto simp: parse_version_def)

lemma planned_taxonomy:
  "planned (case taxonomy of None \<Rightarrow> Inr cs | Some tax \<Rightarrow> normalize_taxonomy tax cs) (\<lambda>_. True)"
  by (cases taxonomy) (simp_all add: planned_normalize)

lemma planned_passes:
  assumes ready: "list_all (ready_contract P) cs" and ids: "distinct (map ec_extension_id cs)" and norm: "normalized_from taxonomy cs norm"
  shows "planned (ebind (validate_obligation_authority norm) (\<lambda>_.
     ebind (resolve_capabilities P norm) (\<lambda>(bindings, dependencies).
     ebind (order_contracts norm dependencies) (\<lambda>ordered.
     ebind (resolve_resources norm) (\<lambda>resources.
     ebind (bind_obligations norm bindings) (\<lambda>obligations. Inr (f bindings ordered resources obligations))))))) (\<lambda>_. True)"
proof -
  note ready' = normalized_ready [OF norm ready] and ids' = normalized_distinct [OF norm ids]
  show ?thesis
  proof (intro planned_ebind planned_all [OF planned_authority [OF ready']] planned_all [OF planned_resolve [OF ready']] impI)
    fix x assume res: "resolve_capabilities P norm = Inr x"
    obtain bs deps where x: "x = (bs, deps)" by fastforce
    note res = res [unfolded x]
    show "planned (case x of (bindings, dependencies) \<Rightarrow>
        ebind (order_contracts norm dependencies) (\<lambda>ordered.
        ebind (resolve_resources norm) (\<lambda>resources.
        ebind (bind_obligations norm bindings) (\<lambda>obligations. Inr (f bindings ordered resources obligations))))) (\<lambda>_. True)"
      unfolding x prod.case
      by (intro planned_ebind planned_all [OF planned_order [OF res ids']] planned_all [OF planned_resources]
          planned_all [OF planned_bind_obligations [OF ready' res]] impI) simp
  qed
qed

text \<open>
  C36. Compiling parsed contracts raises nothing but \<open>ContractPlanningError\<close>: for contracts that
  \<open>parse_contract\<close> returned and any host runtime, host version and taxonomy, \<open>compile_contracts\<close>
  returns a plan or raises with a planning code.  In particular the versions in the contracts parse,
  every authority kind exists, every obligation on a required capability finds its binding, and the
  order pass finds every id.
\<close>

theorem compile_parsed_only_planning_errors:
  assumes "pep440_ok P" and "emap (parse_contract sha P) payloads = Inr cs"
    and "compile_contracts P cs runtime version taxonomy = Inl e"
  shows "\<exists>pc. e = Planning pc"
proof -
  have "ready_contract P c" if "c \<in> set cs" for c
  proof -
    from emap_set [OF assms(2) that] obtain v where "parse_contract sha P v = Inr c" .
    with returns_contract [OF assms(1), of sha v] show ?thesis by (simp add: returns_def contract_ok_ready)
  qed
  note ready = this
  then have ready': "list_all (ready_contract P) cs" by (simp add: list_all_iff)
  have "planned (compile_contracts P cs runtime version taxonomy) (\<lambda>_. True)"
    unfolding compile_contracts_def
  proof (rule planned_step, simp, rule planned_step, rule planned_returns, rule returns_string, simp, rule planned_step,
      rule planned_version [OF assms(1)], rule planned_step, simp, rule planned_step, rule planned_emap, rule planned_host,
      erule ready, rule planned_step, rule planned_taxonomy, rule planned_passes [OF ready'])
  qed (simp_all add: normalized_from_def)
  with assms(3) show ?thesis by (simp add: planned_def)
qed

theorem compile_parsed_only_planning_errors_witness:
  "pep440_ok ex_pep440 \<and> emap (parse_contract (\<lambda>_. []) ex_pep440) ex_payloads = Inr [ex_app (\<lambda>_. []), ex_provider (\<lambda>_. [])]
   \<and> (\<exists>e pc. compile_contracts ex_pep440 [ex_app (\<lambda>_. []), ex_provider (\<lambda>_. [])] (JStr ''other'') (JStr ''2'') None = Inl e
       \<and> e = Planning pc)"
proof -
  have "py_strip ''other'' = ''other''" by (simp add: py_strip_def is_space_def code_def)
  then have fails: "compile_contracts ex_pep440 [ex_app (\<lambda>_. []), ex_provider (\<lambda>_. [])] (JStr ''other'') (JStr ''2'') None
      = Inl (Planning INCOMPATIBLE_HOST)"
    by (simp add: compile_contracts_def accept_def as_string_def public_version_def parse_version_def ex_pep440_def host_compatible_def)
  from compile_parsed_only_planning_errors [OF ex_pep440_ok ex_parse fails] show ?thesis
    using ex_pep440_ok ex_parse fails by blast
qed

end
