(* ===== verification/Contract_Determinism.thy ===== *)
theory Contract_Determinism
  imports Contract_Parsed ECPA_Model
begin

section \<open>The contract compiler: identity of plans\<close>

text \<open>
  \<open>ContractPlan.plan_id\<close>, the content id of the plan as a dict, and that the plan, so also its id, does
  not depend on the order in which the contracts are given.
\<close>

subsection \<open>\<open>asdict\<close>\<close>

definition capability_dict :: "capability \<Rightarrow> json" where
  "capability_dict c = JObj [(''name'', JStr (cp_name c)), (''version'', JStr (cp_version c))]"

definition contract_resource_dict :: "contract_resource \<Rightarrow> json" where
  "contract_resource_dict r = JObj [(''name'', JStr (cr_name r)), (''mode'', JStr (cr_mode r)), (''mediator'', jopt (cr_mediator r))]"

definition jopt_int :: "int option \<Rightarrow> json" where
  "jopt_int x = (case x of None \<Rightarrow> JNull | Some n \<Rightarrow> JInt n)"

definition process_obligation_dict :: "process_obligation \<Rightarrow> json" where
  "process_obligation_dict b = JObj [(''role'', JStr (po_role b)), (''event'', JStr (po_event b)),
     (''completion'', JStr (po_completion b)), (''authority'', JStr (po_authority b)),
     (''capability_direction'', JStr (po_capability_direction b)), (''capability'', JStr (po_capability b)),
     (''quorum'', jopt_int (po_quorum b))]"

definition grant_dict :: "authority_grant \<Rightarrow> json" where
  "grant_dict g = JObj [(''role'', JStr (ag_role g)), (''event'', JStr (ag_event g)),
     (''capability_direction'', JStr (ag_capability_direction g)), (''capability'', JStr (ag_capability g))]"

definition extension_contract_dict :: "extension_contract \<Rightarrow> json" where
  "extension_contract_dict c = JObj [(''extension_id'', JStr (ec_extension_id c)), (''version'', JStr (ec_version c)),
     (''manifest_sha256'', JStr (ec_manifest_sha256 c)), (''host_runtime'', JStr (ec_host_runtime c)),
     (''host_version_range'', JStr (ec_host_version_range c)),
     (''provides'', JArr (map capability_dict (ec_provides c))), (''requires'', JArr (map capability_dict (ec_requires c))),
     (''resources'', JArr (map contract_resource_dict (ec_resources c))),
     (''process_obligations'', JArr (map process_obligation_dict (ec_process_obligations c))),
     (''rollback'', JObj [(''manager_owned'', JArr (map JStr (rb_manager_owned (ec_rollback c)))),
        (''external_operator_owned'', JArr (map JStr (rb_external_operator_owned (ec_rollback c))))]),
     (''authority'', JObj [(''provider'', JArr (map grant_dict (au_provider (ec_authority c)))),
        (''runtime'', JArr (map grant_dict (au_runtime (ec_authority c)))),
        (''external'', JArr (map grant_dict (au_external (ec_authority c))))])]"

definition capability_binding_dict :: "capability_binding \<Rightarrow> json" where
  "capability_binding_dict b = JObj [(''capability'', JStr (cb_capability b)), (''required_range'', JStr (cb_required_range b)),
     (''consumer'', JStr (cb_consumer b)), (''provider'', JStr (cb_provider b)),
     (''provided_version'', JStr (cb_provided_version b))]"

definition ownership_dict :: "resource_ownership \<Rightarrow> json" where
  "ownership_dict w = JObj [(''resource'', JStr (ro_resource w)), (''mode'', JStr (ro_mode w)),
     (''owners'', JArr (map JStr (ro_owners w))), (''mediator'', jopt (ro_mediator w))]"

definition obligation_binding_dict :: "obligation_binding \<Rightarrow> json" where
  "obligation_binding_dict b = JObj [(''extension_id'', JStr (bo_extension_id b)), (''role'', JStr (bo_role b)),
     (''event'', JStr (bo_event b)), (''completion'', JStr (bo_completion b)), (''authority'', JStr (bo_authority b)),
     (''capability_direction'', JStr (bo_capability_direction b)), (''capability'', JStr (bo_capability b)),
     (''capability_provider'', JStr (bo_capability_provider b)), (''quorum'', jopt_int (bo_quorum b))]"

definition contract_plan_dict :: "contract_plan \<Rightarrow> json" where
  "contract_plan_dict p = JObj [(''host_runtime'', JStr (cl_host_runtime p)), (''host_version'', JStr (cl_host_version p)),
     (''ordered_contracts'', JArr (map extension_contract_dict (cl_ordered_contracts p))),
     (''capability_bindings'', JArr (map capability_binding_dict (cl_capability_bindings p))),
     (''resource_ownership'', JArr (map ownership_dict (cl_resource_ownership p))),
     (''obligation_bindings'', JArr (map obligation_binding_dict (cl_obligation_bindings p)))]"

definition contract_plan_id :: "(string \<Rightarrow> string) \<Rightarrow> contract_plan \<Rightarrow> string" where
  "contract_plan_id sha p = content_id sha ''contract-plan'' (contract_plan_dict p)"

subsection \<open>Order of the input\<close>

lemma emap_check_all:
  assumes "\<And>x. x \<in> set xs \<Longrightarrow> f x = Inr () \<or> f x = Inl e"
  shows "ebind (emap f xs) (\<lambda>_. m) = (if \<forall>x \<in> set xs. f x = Inr () then m else Inl e)"
  using assms
proof (induction xs)
  case (Cons x xs)
  then have "ebind (emap f xs) (\<lambda>_. m) = (if \<forall>x \<in> set xs. f x = Inr () then m else Inl e)" and "f x = Inr () \<or> f x = Inl e" by simp_all
  then show ?case by (cases "emap f xs") (auto split: if_splits)
qed simp

lemma host_compatible_cases:
  "pk_specifiers P (ec_host_version_range c) \<noteq> None \<Longrightarrow>
   host_compatible P runtime version c = Inr () \<or> host_compatible P runtime version c = Inl (Planning planning_code.INCOMPATIBLE_HOST)"
  by (auto simp: host_compatible_def check_def split: if_splits)

text \<open>
  C31. The order in which contracts are given does not matter: for the same contracts in any order,
  with host version ranges that parse, \<open>compile_contracts\<close> gives the same plan with the same
  \<open>plan_id\<close>, or raises with the same code.
\<close>

theorem compile_order_independent:
  assumes "mset cs = mset ds" and "\<And>c. c \<in> set cs \<Longrightarrow> pk_specifiers P (ec_host_version_range c) \<noteq> None"
  shows "compile_contracts P cs runtime version taxonomy = compile_contracts P ds runtime version taxonomy
     \<and> map_sum id (contract_plan_id sha) (compile_contracts P cs runtime version taxonomy)
       = map_sum id (contract_plan_id sha) (compile_contracts P ds runtime version taxonomy)"
proof -
  have set: "set cs = set ds" using assms(1) by (metis set_mset_mset)
  have dist: "distinct (map ec_extension_id cs) = distinct (map ec_extension_id ds)"
    using assms(1) by (intro mset_eq_imp_distinct_iff) simp
  have host: "ebind (emap (host_compatible P rt v) cs) (\<lambda>_. m) = ebind (emap (host_compatible P rt v) ds) (\<lambda>_. m)"
    for rt v and m :: "plan_error + contract_plan"
  proof -
    have cases: "host_compatible P rt v c = Inr () \<or> host_compatible P rt v c = Inl (Planning planning_code.INCOMPATIBLE_HOST)"
      if "c \<in> set cs" for c
      using that by (intro host_compatible_cases assms(2))
    let ?e = "Planning planning_code.INCOMPATIBLE_HOST"
    from emap_check_all [of cs "host_compatible P rt v" ?e m, OF cases]
      emap_check_all [of ds "host_compatible P rt v" ?e m, OF cases [unfolded set]] set show ?thesis by simp
  qed
  have sorted: "sort_key ec_extension_id cs = sort_key ec_extension_id ds" if "distinct (map ec_extension_id cs)"
    using that assms(1) by (intro sort_key_perm_unique) (simp_all add: distinct_map)
  have "compile_contracts P cs runtime version taxonomy = compile_contracts P ds runtime version taxonomy"
  proof (cases "distinct (map ec_extension_id cs)")
    case True
    then show ?thesis unfolding compile_contracts_def sorted [OF True] using dist set by (simp add: host flip: set_empty)
  next
    case False
    then show ?thesis using dist set by (simp add: compile_contracts_def flip: set_empty)
  qed
  then show ?thesis by simp
qed

theorem compile_order_independent_witness:
  "mset [ex_app (\<lambda>_. []), ex_provider (\<lambda>_. [])] = mset [ex_provider (\<lambda>_. []), ex_app (\<lambda>_. [])]
   \<and> compile_contracts ex_pep440 [ex_provider (\<lambda>_. []), ex_app (\<lambda>_. [])] (JStr ''vllm'') (JStr ''2'') None
     = Inr (ex_contract_plan (\<lambda>_. []))"
proof -
  have perm: "mset [ex_app (\<lambda>_. []), ex_provider (\<lambda>_. [])] = mset [ex_provider (\<lambda>_. []), ex_app (\<lambda>_. [])]" by simp
  have "pk_specifiers ex_pep440 (ec_host_version_range c) \<noteq> None" for c by (simp add: ex_pep440_def)
  from compile_order_independent [OF perm this, of "JStr ''vllm''" "JStr ''2''" None] ex_compile [of "\<lambda>_. []"] perm show ?thesis by simp
qed

end
