(* ===== verification/Semantic_Obligations.thy ===== *)
theory Semantic_Obligations
  imports Plan_Artifact Contract_Determinism
begin

section \<open>Semantic obligations (\<^verbatim>\<open>semantic_obligations.py\<close>)\<close>

text \<open>
  \<open>compile_native_semantic_plan\<close> joins the contract compiler and the execution plans: it turns the
  native completion obligations of compiled contracts into evidence obligations of a new plan.  Every \<open>ValueError\<close> of the
  code is \<open>SemanticError\<close> with its text; exceptions of the artifact parser and of the compiler pass through.  Of
  \<open>compile_artifacts\<close> the function from the input bytes to the two output files is modelled; creating the output directory is not.
\<close>

datatype semantic_exn =
    SemanticError string
  | FromArtifact artifact_exn
  | FromCompiler plan_error
  | SemanticKeyError string
  | InputDecodeError

definition semantic_event :: string where
  "semantic_event = ''selected-kv-native-arguments-completed''"

definition semantic_scope :: string where
  "semantic_scope = ''selected-logical-KV-reference-gather-destination-native-entry-completion/v1''"

definition from_error :: "('e \<Rightarrow> semantic_exn) \<Rightarrow> 'e + 'a \<Rightarrow> semantic_exn + 'a" where
  "from_error f r = (case r of Inl e \<Rightarrow> Inl (f e) | Inr x \<Rightarrow> Inr x)"

text \<open>\<open>{plugin.id: plugin for plugin in plugins}\<close> and \<open>{contract.extension_id: contract ...}\<close>: the last of a key counts.\<close>

definition plugins_by_id :: "(string \<Rightarrow> string) \<Rightarrow> plan \<Rightarrow> string \<rightharpoonup> plugin_identity" where
  "plugins_by_id sha base = map_of (rev (map (\<lambda>p. (plugin_id sha p, p)) (pl_plugins base)))"

definition contracts_by_id :: "contract_plan \<Rightarrow> string \<rightharpoonup> extension_contract" where
  "contracts_by_id compiled = map_of (rev (map (\<lambda>c. (ec_extension_id c, c)) (cl_ordered_contracts compiled)))"

definition key_of :: "('k \<rightharpoonup> 'v) \<Rightarrow> 'k \<Rightarrow> string \<Rightarrow> semantic_exn + 'v" where
  "key_of m k name = (case m k of None \<Rightarrow> Inl (SemanticKeyError name) | Some v \<Rightarrow> Inr v)"

definition semantic_material ::
  "(string \<Rightarrow> string) \<Rightarrow> plan \<Rightarrow> contract_plan \<Rightarrow> obligation_binding \<Rightarrow> extension_contract \<Rightarrow> string \<Rightarrow> int list \<Rightarrow>
   (string \<times> json) list" where
  "semantic_material sha base compiled binding contract plugin ordinals =
     [(''base_execution_plan_id'', JStr (plan_id sha base)), (''compiled_contract_plan_id'', JStr (contract_plan_id sha compiled)),
      (''compiled_obligation'', obligation_binding_dict binding),
      (''contract_manifest_sha256'', JStr (ec_manifest_sha256 contract)), (''plugin_id'', JStr plugin),
      (''scope'', JStr semantic_scope), (''required_worker_ordinals'', JArr (map JInt ordinals))]"

text \<open>The body of the loop: the evidence obligation and the binding record of one compiled obligation.\<close>

definition semantic_binding ::
  "(string \<Rightarrow> string) \<Rightarrow> plan \<Rightarrow> contract_plan \<Rightarrow> (string \<times> string) list \<Rightarrow> int list \<Rightarrow> obligation_binding \<Rightarrow>
   semantic_exn + evidence_obligation \<times> json" where
  "semantic_binding sha base compiled extension_plugin_ids ordinals binding =
     ebind (check (bo_role binding = ''worker'' \<and> bo_authority binding = ''runtime'' \<and> bo_completion binding = ''all''
                     \<and> bo_quorum binding = None)
              (SemanticError ''native semantic source requires all current runtime workers'')) (\<lambda>_.
     ebind (check (bo_capability_direction binding = ''provides'' \<and> bo_capability_provider binding = bo_extension_id binding)
              (SemanticError ''native completion requires the extension's own provided capability'')) (\<lambda>_.
     ebind (key_of (map_of extension_plugin_ids) (bo_extension_id binding) (bo_extension_id binding)) (\<lambda>plugin.
     ebind (check (plugins_by_id sha base plugin \<noteq> None)
              (SemanticError ''semantic provider artifact is outside execution Plan'')) (\<lambda>_.
     ebind (key_of (contracts_by_id compiled) (bo_extension_id binding) (bo_extension_id binding)) (\<lambda>contract.
     ebind (key_of (plugins_by_id sha base) plugin plugin) (\<lambda>identity.
     ebind (check (ec_version contract = pi_version identity)
              (SemanticError ''semantic contract/plugin artifact versions differ'')) (\<lambda>_.
     let material = semantic_material sha base compiled binding contract plugin ordinals;
         obligation_id = content_id sha ''semantic-obligation'' (JObj material) in
     Inr (\<lparr>ob_id = obligation_id, ob_role = ''worker'', ob_event = semantic_event, ob_required_ordinals = ordinals\<rparr>,
          JObj (material @ [(''obligation_id'', JStr obligation_id)])))))))))"

definition compile_native_semantic_plan ::
  "(string \<Rightarrow> string) \<Rightarrow> ('v, 's) pep440 \<Rightarrow> plan \<Rightarrow> contract_plan \<Rightarrow> (string \<times> string) list \<Rightarrow> int list \<Rightarrow>
   semantic_exn + plan \<times> json" where
  "compile_native_semantic_plan sha P base compiled extension_plugin_ids ordinals =
     ebind (check (ordinals = [0, 1]) (SemanticError ''native semantic source currently supports explicit TP2 only'')) (\<lambda>_.
     ebind (from_error FromArtifact (parse_plan_artifact sha (plan_artifact_bytes sha base))) (\<lambda>_.
     ebind (check (hc_runtime (pl_host base) = cl_host_runtime compiled \<and> hc_version (pl_host base) = cl_host_version compiled)
              (SemanticError ''compiled contracts and execution Plan target different hosts'')) (\<lambda>_.
     ebind (from_error FromCompiler (compile_contracts P (cl_ordered_contracts compiled)
              (JStr (cl_host_runtime compiled)) (JStr (cl_host_version compiled)) None)) (\<lambda>checked.
     ebind (check (checked = compiled) (SemanticError ''compiled contract bindings do not match their contracts'')) (\<lambda>_.
     ebind (check (\<not> list_ex (\<lambda>b. ob_event b = semantic_event) (pl_obligations base))
              (SemanticError ''semantic Plan already compiled; no posthoc rebinding'')) (\<lambda>_.
     let semantic = filter (\<lambda>b. bo_event b = semantic_event) (cl_obligation_bindings compiled) in
     ebind (check (semantic \<noteq> []) (SemanticError ''compiled contracts have no explicit native semantic obligation'')) (\<lambda>_.
     ebind (check (set (map fst extension_plugin_ids) = set (map bo_extension_id semantic))
              (SemanticError ''semantic extension/plugin identity mapping is incomplete'')) (\<lambda>_.
     ebind (check (\<not> has_duplicates (map snd extension_plugin_ids))
              (SemanticError ''distinct semantic extensions require distinct plugin artifacts'')) (\<lambda>_.
     ebind (emap (semantic_binding sha base compiled extension_plugin_ids ordinals) semantic) (\<lambda>new.
     let obligations = pl_obligations base @ map fst new in
     ebind (check (\<not> has_duplicates (map ob_id obligations)) (SemanticError ''ambiguous semantic execution obligations'')) (\<lambda>_.
     let p = base\<lparr>pl_obligations := obligations\<rparr> in
     Inr (p, JObj [
       (''schema'', JStr ''ecpa-compiled-native-semantic-execution-binding/v1''),
       (''execution_plan_id'', JStr (plan_id sha p)), (''base_execution_plan_id'', JStr (plan_id sha base)),
       (''compiled_contract_plan_id'', JStr (contract_plan_id sha compiled)), (''bindings'', JArr (map snd new)),
       (''scope'', JStr semantic_scope), (''formal_producer_registration'', JBool False)]))))))))))))"

subsection \<open>\<open>compile_artifacts\<close>\<close>

text \<open>\<open>json.loads(raw, object_pairs_hook=unique_object)\<close>\<close>

definition unique_object :: "(string \<times> json) list \<Rightarrow> semantic_exn + json" where
  "unique_object pairs = (if has_duplicates (map fst pairs)
     then Inl (SemanticError ''duplicate JSON field in semantic compilation input'') else Inr (JObj pairs))"

definition loads_unique :: "string \<Rightarrow> semantic_exn + json" where
  "loads_unique raw = (case utf8_decode raw of
     None \<Rightarrow> Inl InputDecodeError
   | Some s \<Rightarrow> loads_text InputDecodeError unique_object s)"

definition plugin_map :: "json \<Rightarrow> semantic_exn + (string \<times> string) list" where
  "plugin_map v =
     (let bad = SemanticError ''extension/plugin map must contain string identities'' in
      case v of
        JObj d \<Rightarrow> emap (\<lambda>(k, x). case x of JStr s \<Rightarrow> Inr (k, s) | _ \<Rightarrow> Inl bad) d
      | _ \<Rightarrow> Inl bad)"

definition compile_artifact_bytes ::
  "(string \<Rightarrow> string) \<Rightarrow> ('v, 's) pep440 \<Rightarrow> plan \<Rightarrow> string list \<Rightarrow> string \<Rightarrow> semantic_exn + string \<times> string" where
  "compile_artifact_bytes sha P base contract_files map_file =
     ebind (emap (\<lambda>raw. ebind (loads_unique raw) (\<lambda>v. from_error FromCompiler (parse_contract sha P v))) contract_files) (\<lambda>contracts.
     ebind (ebind (loads_unique map_file) plugin_map) (\<lambda>mapping.
     ebind (from_error FromCompiler (compile_contracts P contracts
              (JStr (hc_runtime (pl_host base))) (JStr (hc_version (pl_host base))) None)) (\<lambda>compiled.
     ebind (compile_native_semantic_plan sha P base compiled mapping [0, 1]) (\<lambda>(p, binding).
     Inr (plan_artifact_bytes sha p, canonical_bytes binding @ [CHR 10])))))"

subsection \<open>The new plan\<close>

lemma from_error_Inr_iff: "from_error f r = Inr x \<longleftrightarrow> r = Inr x"
  by (cases r) (simp_all add: from_error_def)

lemma key_of_Inr_iff: "key_of m k name = Inr v \<longleftrightarrow> m k = Some v"
  by (simp add: key_of_def split: option.splits)

lemma by_id_Some:
  "plugins_by_id sha base i = Some q \<Longrightarrow> q \<in> set (pl_plugins base) \<and> plugin_id sha q = i"
  "contracts_by_id compiled i = Some c \<Longrightarrow> c \<in> set (cl_ordered_contracts compiled) \<and> ec_extension_id c = i"
  by (auto simp: plugins_by_id_def contracts_by_id_def dest!: map_of_SomeD)

text \<open>What the base plan is when its artifact parses.\<close>

lemma parsed_base:
  assumes "parse_plan_artifact sha (plan_artifact_bytes sha base) = Inr q" and "json_wf (plan_dict base)"
  shows "plan_ok sha (plan_sorted base)"
proof -
  have q: "plan_ok sha q" "json_wf (plan_dict q)" "plan_artifact_bytes sha base = plan_artifact_bytes sha q"
    using assms(1) by (simp_all add: parse_iff)
  have "json_loads (plan_artifact_bytes sha base) = Some (jsort (plan_artifact_value sha base))"
      "json_loads (plan_artifact_bytes sha q) = Some (jsort (plan_artifact_value sha q))"
    unfolding plan_artifact_bytes_def using assms(2) q(2) by (simp_all only: json_loads_line json_wf_artifact)
  then have "jsort (plan_artifact_value sha base) = jsort (plan_artifact_value sha q)" unfolding q(3) by (metis option.inject)
  then have "map_of (sorted_pairs [(''schema'', JStr artifact_schema), (''plan_id'', JStr (plan_id sha base)), (''plan'', plan_dict base)]) ''plan''
      = map_of (sorted_pairs [(''schema'', JStr artifact_schema), (''plan_id'', JStr (plan_id sha q)), (''plan'', plan_dict q)]) ''plan''"
    unfolding plan_artifact_value_def jsort_JObj json.inject by (rule arg_cong)
  then have "jsort (plan_dict base) = jsort (plan_dict q)" by (simp add: map_of_sorted_pairs del: jsort.simps)
  then have "plan_sorted base = plan_sorted q" by (metis plan_of_json_jsort sum.inject(2))
  moreover have "plan_sorted q = q"
    using q(1) by (simp add: plan_ok_def plan_sorted_def predecessor_ok_sorted)
  ultimately show ?thesis using q(1) by simp
qed

definition linked :: "(string \<Rightarrow> string) \<Rightarrow> plan \<Rightarrow> contract_plan \<Rightarrow> (string \<times> string) list \<Rightarrow> obligation_binding \<Rightarrow> evidence_obligation \<Rightarrow> bool" where
  "linked sha base compiled mapping b new \<longleftrightarrow>
     ob_role new = ''worker'' \<and> ob_event new = semantic_event \<and> ob_required_ordinals new = [0, 1]
   \<and> bo_authority b = ''runtime'' \<and> bo_completion b = ''all'' \<and> bo_capability_provider b = bo_extension_id b
   \<and> (\<exists>c \<in> set (cl_ordered_contracts compiled). \<exists>q \<in> set (pl_plugins base). ec_extension_id c = bo_extension_id b
        \<and> map_of mapping (bo_extension_id b) = Some (plugin_id sha q) \<and> ec_version c = pi_version q
        \<and> ob_id new = content_id sha ''semantic-obligation''
            (JObj (semantic_material sha base compiled b c (plugin_id sha q) [0, 1])))"

lemma semantic_binding_linked:
  assumes "semantic_binding sha base compiled mapping [0, 1] b = Inr n"
  shows "linked sha base compiled mapping b (fst n)"
  using assms
  unfolding semantic_binding_def ebind_Inr_iff check_Inr_iff key_of_Inr_iff Let_def sum.inject
  by (elim exE conjE) (drule by_id_Some, drule by_id_Some, elim conjE, hypsubst, unfold linked_def, auto)

lemma compile_semantic_Inr:
  assumes "compile_native_semantic_plan sha P base compiled mapping ordinals = Inr (p, binding)"
  obtains new q where "ordinals = [0, 1]" "parse_plan_artifact sha (plan_artifact_bytes sha base) = Inr q"
    "compile_contracts P (cl_ordered_contracts compiled) (JStr (cl_host_runtime compiled)) (JStr (cl_host_version compiled)) None = Inr compiled"
    "filter (\<lambda>b. bo_event b = semantic_event) (cl_obligation_bindings compiled) \<noteq> []"
    "emap (semantic_binding sha base compiled mapping [0, 1])
       (filter (\<lambda>b. bo_event b = semantic_event) (cl_obligation_bindings compiled)) = Inr new"
    "distinct (map ob_id (pl_obligations base @ map fst new))" "p = base\<lparr>pl_obligations := pl_obligations base @ map fst new\<rparr>"
  using assms
  unfolding compile_native_semantic_plan_def ebind_Inr_iff check_Inr_iff from_error_Inr_iff Let_def sum.inject prod.inject has_duplicates_iff
  by (elim exE conjE) (hypsubst, rule that, (assumption | rule refl | simp)+)

lemma linked_ok:
  assumes "linked sha base compiled mapping b new" and "\<forall>raw. token (sha raw)"
  shows "artifact_obligation_ok new"
proof -
  have "token (content_id sha ''semantic-obligation'' v)" for v
    using assms(2) by (auto simp: content_id_def token_def is_space_def code_def)
  then have "token (ob_id new)" using assms(1) unfolding linked_def by auto
  moreover have "token ''worker''" "token semantic_event" by (simp_all add: token_def is_space_def code_def semantic_event_def)
  ultimately show ?thesis using assms(1) unfolding linked_def artifact_obligation_ok_def by auto
qed

lemma semantic_obligations_ok:
  assumes "list_all2 (linked sha base compiled mapping) bs new" and "\<forall>raw. token (sha raw)"
  shows "list_all artifact_obligation_ok new"
  using assms(1) linked_ok [OF _ assms(2)] by (induction rule: list_all2_induct) auto

lemma extended_plan_ok:
  assumes "plan_ok sha (plan_sorted base)" "list_all artifact_obligation_ok new"
    "distinct (map ob_id (pl_obligations base @ new))"
  shows "plan_ok sha (plan_sorted (base\<lparr>pl_obligations := pl_obligations base @ new\<rparr>))"
proof -
  have same: "pl_predecessor (plan_sorted (base\<lparr>pl_obligations := bs\<rparr>)) = pl_predecessor (plan_sorted base)"
      "pl_plugins (base\<lparr>pl_obligations := bs\<rparr>) = pl_plugins base" for bs
    by (simp_all add: plan_sorted_def)
  show ?thesis using assms unfolding plan_ok_def same plan_sorted_sel by simp
qed

text \<open>What the new plan adds to the base plan.\<close>

lemma semantic_plan_steps:
  assumes "compile_native_semantic_plan sha P base compiled mapping ordinals = Inr (p, binding)"
    and "json_wf (plan_dict base)" and "\<forall>raw. token (sha raw)"
  obtains new where
    "compile_contracts P (cl_ordered_contracts compiled) (JStr (cl_host_runtime compiled)) (JStr (cl_host_version compiled)) None = Inr compiled"
    "new \<noteq> []" "p = base\<lparr>pl_obligations := pl_obligations base @ new\<rparr>"
    "list_all2 (linked sha base compiled mapping) (filter (\<lambda>b. bo_event b = semantic_event) (cl_obligation_bindings compiled)) new"
    "parse_plan_artifact sha (plan_artifact_bytes sha p) = Inr (plan_sorted p)"
proof -
  obtain new q where steps: "parse_plan_artifact sha (plan_artifact_bytes sha base) = Inr q"
    "compile_contracts P (cl_ordered_contracts compiled) (JStr (cl_host_runtime compiled)) (JStr (cl_host_version compiled)) None = Inr compiled"
    "filter (\<lambda>b. bo_event b = semantic_event) (cl_obligation_bindings compiled) \<noteq> []"
    "emap (semantic_binding sha base compiled mapping [0, 1])
       (filter (\<lambda>b. bo_event b = semantic_event) (cl_obligation_bindings compiled)) = Inr new"
    "distinct (map ob_id (pl_obligations base @ map fst new))" and p: "p = base\<lparr>pl_obligations := pl_obligations base @ map fst new\<rparr>"
    using assms(1) by (rule compile_semantic_Inr)
  let ?bs = "filter (\<lambda>b. bo_event b = semantic_event) (cl_obligation_bindings compiled)"
  have all: "list_all2 (linked sha base compiled mapping) ?bs (map fst new)"
    using steps(4) semantic_binding_linked unfolding emap_Inr_iff list_all2_map2 by (auto elim: list_all2_mono)
  have ne: "map fst new \<noteq> []" using all steps(3) list_all2_lengthD by fastforce
  have "plan_ok sha (plan_sorted p)"
    unfolding p by (rule extended_plan_ok [OF parsed_base [OF steps(1) assms(2)] semantic_obligations_ok [OF all assms(3)] steps(5)])
  moreover have "json_wf (plan_dict p)" using assms(2) unfolding json_wf_plan p by simp
  ultimately have "parse_plan_artifact sha (plan_artifact_bytes sha p) = Inr (plan_sorted p)" by (rule parse_written)
  with steps(2) ne p all show ?thesis by (rule that)
qed

text \<open>No contracts can be bound to a plan that has a semantic obligation.\<close>

lemma no_second_binding:
  assumes "list_all2 (linked sha base compiled mapping) bs new" and "new \<noteq> []" and "p = base\<lparr>pl_obligations := pl_obligations base @ new\<rparr>"
  shows "\<exists>e. compile_native_semantic_plan sha Q p compiled' mapping' ordinals' = Inl e"
proof -
  obtain b n where "linked sha base compiled mapping b n" "n \<in> set new"
    using assms(1,2) by (cases new) (auto simp: list_all2_Cons2)
  then have "list_ex (\<lambda>b. ob_event b = semantic_event) (pl_obligations p)"
    unfolding assms(3) linked_def list_ex_iff by auto
  then have "compile_native_semantic_plan sha Q p compiled' mapping' ordinals' \<noteq> Inr x" for x
    unfolding compile_native_semantic_plan_def ebind_Inr_iff check_Inr_iff by blast
  then show ?thesis by (metis sum.exhaust)
qed

text \<open>
  C13. The semantic plan: when \<open>compile_native_semantic_plan\<close> returns, the given contract plan is what the compiler makes
  of its contracts; the new plan is the base plan with further obligations at the end, one for each native
  completion obligation of the contracts, that require ordinals 0 and 1 of the workers, have the content id
  of what they bind, and belong to a plugin of the base plan whose version is the contract's; the artifact
  of the new plan parses, and gives the plan back; and no contracts can be bound to the new plan a second time.
\<close>

theorem semantic_plan_sound:
  assumes "compile_native_semantic_plan sha P base compiled mapping ordinals = Inr (p, binding)"
    and "json_wf (plan_dict base)" and "\<forall>raw. token (sha raw)"
  shows "compile_contracts P (cl_ordered_contracts compiled) (JStr (cl_host_runtime compiled)) (JStr (cl_host_version compiled)) None = Inr compiled
    \<and> (\<exists>new. new \<noteq> [] \<and> p = base\<lparr>pl_obligations := pl_obligations base @ new\<rparr>
         \<and> list_all2 (linked sha base compiled mapping)
             (filter (\<lambda>b. bo_event b = semantic_event) (cl_obligation_bindings compiled)) new)
    \<and> parse_plan_artifact sha (plan_artifact_bytes sha p) = Inr (plan_sorted p)
    \<and> (\<exists>e. compile_native_semantic_plan sha Q p compiled' mapping' ordinals' = Inl e)"
proof -
  obtain new where steps:
    "compile_contracts P (cl_ordered_contracts compiled) (JStr (cl_host_runtime compiled)) (JStr (cl_host_version compiled)) None = Inr compiled"
    "new \<noteq> []" "p = base\<lparr>pl_obligations := pl_obligations base @ new\<rparr>"
    "list_all2 (linked sha base compiled mapping) (filter (\<lambda>b. bo_event b = semantic_event) (cl_obligation_bindings compiled)) new"
    "parse_plan_artifact sha (plan_artifact_bytes sha p) = Inr (plan_sorted p)"
    using assms by (rule semantic_plan_steps)
  with no_second_binding [OF steps(4,2,3)] show ?thesis by blast
qed

subsection \<open>A contract with a native obligation\<close>

definition sem_sha :: "string \<Rightarrow> string" where
  "sem_sha raw = ex_hash"

definition ex_native :: extension_contract where
  "ex_native = \<lparr>ec_extension_id = ''b.kv'', ec_version = ''1.0'', ec_manifest_sha256 = ex_hash, ec_host_runtime = ''vllm'',
     ec_host_version_range = ''1'', ec_provides = [ex_kv], ec_requires = [], ec_resources = [],
     ec_process_obligations = [\<lparr>po_role = ''worker'', po_event = semantic_event, po_completion = ''all'', po_authority = ''runtime'',
        po_capability_direction = ''provides'', po_capability = ''kv.store'', po_quorum = None\<rparr>],
     ec_rollback = \<lparr>rb_manager_owned = [], rb_external_operator_owned = []\<rparr>,
     ec_authority = \<lparr>au_provider = [], au_runtime = [\<lparr>ag_role = ''worker'', ag_event = semantic_event,
        ag_capability_direction = ''provides'', ag_capability = ''kv.store''\<rparr>], au_external = []\<rparr>\<rparr>"

definition ex_native_binding :: obligation_binding where
  "ex_native_binding = \<lparr>bo_extension_id = ''b.kv'', bo_role = ''worker'', bo_event = semantic_event, bo_completion = ''all'',
     bo_authority = ''runtime'', bo_capability_direction = ''provides'', bo_capability = ''kv.store'',
     bo_capability_provider = ''b.kv'', bo_quorum = None\<rparr>"

definition ex_native_plan :: contract_plan where
  "ex_native_plan = \<lparr>cl_host_runtime = ''vllm'', cl_host_version = ''1'', cl_ordered_contracts = [ex_native],
     cl_capability_bindings = [], cl_resource_ownership = [], cl_obligation_bindings = [ex_native_binding]\<rparr>"

lemma ex_native_compiled: "compile_contracts ex_pep440 [ex_native] (JStr ''vllm'') (JStr ''1'') None = Inr ex_native_plan"
proof -
  have "ebind (public_version ex_pep440 (JStr ''1'')) (parse_version ex_pep440) = Inr ''1''"
    by (simp add: public_version_def parse_version_def as_string_def ex_pep440_def)
  moreover have "host_compatible ex_pep440 ''vllm'' ''1'' ex_native = Inr ()" by (simp add: host_compatible_def ex_pep440_def ex_native_def)
  moreover have "validate_obligation_authority [ex_native] = Inr ()"
    by (simp add: validate_obligation_authority_def obligation_authorized_def grants_of_def expected_grant_def ex_native_def)
  moreover have "resolve_capabilities ex_pep440 [ex_native] = Inr ([], [(''b.kv'', [])])"
    by (simp add: resolve_capabilities_def bind_requirements_def ex_native_def)
  moreover have "order_contracts [ex_native] [(''b.kv'', [])] = Inr [ex_native]"
    by (simp add: order_contracts_def check_providers_def heapify_def order_loop.simps dependents_of_def ex_native_def)
  moreover have "resolve_resources [ex_native] = Inr []"
    by (simp add: resolve_resources_def resource_summaries_def claim_index_def ex_native_def)
  moreover have "bind_obligations [ex_native] [] = Inr [ex_native_binding]"
    by (simp add: bind_obligations_def bind_obligation_def ex_native_def ex_native_binding_def)
  ultimately show ?thesis
    by (simp add: compile_contracts_def accept_def as_string_def ex_native_plan_def) (simp add: ex_pep440_def)
qed

lemma sem_tokens: "token (sem_sha raw)" "token ''vllm''" "token ''1''" "token ''p''" "token ''x''" "token ''org''" "token ''kv''"
  "token ''1.0''" "token ''ob''" "token ''worker''" "token ''loaded''"
  by (simp_all add: sem_sha_def ex_hash_def token_def is_space_def code_def list_ex_iff)

lemma ex_hash_digest: "lower_digest ex_hash"
  by (simp add: lower_digest_def ex_hash_def list_all_iff)

lemma ex_plan_ok: "plan_ok sem_sha ex_plan" "json_wf (plan_dict ex_plan)"
  by (simp_all add: plan_ok_def ex_plan_def ex_plugin_def plugin_ok_def sem_tokens ex_hash_digest ex_host_def host_ok_def
    ex_obligation_def artifact_obligation_ok_def ex_predecessor_def predecessor_ok_def json_wf_plan)

lemma ex_plan_parsed: "parse_plan_artifact sem_sha (plan_artifact_bytes sem_sha ex_plan) = Inr ex_plan"
  using ex_plan_ok by (simp add: parse_iff)

definition sem_map :: "(string \<times> string) list" where
  "sem_map = [(''b.kv'', plugin_id sem_sha ex_plugin)]"

lemma native_compiled:
  assumes "pi_version q = ''1.0''"
    and "parse_plan_artifact sem_sha (plan_artifact_bytes sem_sha (ex_plan\<lparr>pl_plugins := [q]\<rparr>)) = Inr (ex_plan\<lparr>pl_plugins := [q]\<rparr>)"
  shows "\<exists>p binding. compile_native_semantic_plan sem_sha ex_pep440 (ex_plan\<lparr>pl_plugins := [q]\<rparr>) ex_native_plan
     [(''b.kv'', plugin_id sem_sha q)] [0, 1] = Inr (p, binding)"
proof -
  let ?base = "ex_plan\<lparr>pl_plugins := [q]\<rparr>" and ?map = "[(''b.kv'', plugin_id sem_sha q)]"
  have "plugins_by_id sem_sha ?base (plugin_id sem_sha q) = Some q"
    by (simp add: plugins_by_id_def)
  moreover have "contracts_by_id ex_native_plan ''b.kv'' = Some ex_native"
    by (simp add: contracts_by_id_def ex_native_plan_def ex_native_def)
  moreover have "ec_version ex_native = pi_version q" by (simp add: ex_native_def assms(1))
  ultimately obtain n where n: "semantic_binding sem_sha ?base ex_native_plan ?map [0, 1] ex_native_binding = Inr n"
      "ob_id (fst n) = content_id sem_sha ''semantic-obligation''
         (JObj (semantic_material sem_sha ?base ex_native_plan ex_native_binding ex_native (plugin_id sem_sha q) [0, 1]))"
    by (auto simp: semantic_binding_def ex_native_binding_def key_of_def Let_def)
  have "ob_id (fst n) \<noteq> ''ob''" unfolding n(2) by (simp add: content_id_def)
  then have "distinct (map ob_id (pl_obligations ?base @ [fst n]))" by (simp add: ex_plan_def ex_obligation_def)
  moreover have "filter (\<lambda>b. bo_event b = semantic_event) (cl_obligation_bindings ex_native_plan) = [ex_native_binding]"
    by (simp add: ex_native_plan_def ex_native_binding_def)
  moreover have "cl_ordered_contracts ex_native_plan = [ex_native]" "cl_host_runtime ex_native_plan = ''vllm''"
      "cl_host_version ex_native_plan = ''1''" "hc_runtime (pl_host ?base) = ''vllm''" "hc_version (pl_host ?base) = ''1''"
      "bo_extension_id ex_native_binding = ''b.kv''"
    by (simp_all add: ex_native_plan_def ex_plan_def ex_host_def ex_native_binding_def)
  moreover have "\<not> list_ex (\<lambda>b. ob_event b = semantic_event) (pl_obligations ?base)"
    by (simp add: ex_plan_def ex_obligation_def semantic_event_def)
  ultimately show ?thesis
    using n(1) ex_native_compiled assms(2)
    by (simp add: compile_native_semantic_plan_def from_error_def Let_def)
qed

lemma ex_semantic:
  "\<exists>p binding. compile_native_semantic_plan sem_sha ex_pep440 ex_plan ex_native_plan sem_map [0, 1] = Inr (p, binding)"
proof -
  have "ex_plan\<lparr>pl_plugins := [ex_plugin]\<rparr> = ex_plan" by (simp add: ex_plan_def)
  with native_compiled [of ex_plugin] ex_plan_parsed show ?thesis by (simp add: sem_map_def ex_plugin_def)
qed

theorem semantic_plan_sound_witness:
  "\<exists>p binding. compile_native_semantic_plan sem_sha ex_pep440 ex_plan ex_native_plan sem_map [0, 1] = Inr (p, binding)
     \<and> parse_plan_artifact sem_sha (plan_artifact_bytes sem_sha p) = Inr (plan_sorted p) \<and> p \<noteq> ex_plan"
proof -
  obtain p binding where run: "compile_native_semantic_plan sem_sha ex_pep440 ex_plan ex_native_plan sem_map [0, 1] = Inr (p, binding)"
    using ex_semantic by blast
  have tok: "\<forall>raw. token (sem_sha raw)" using sem_tokens(1) by blast
  note s = semantic_plan_sound [OF run ex_plan_ok(2) tok, where Q = ex_pep440 and compiled' = ex_native_plan and mapping' = sem_map and ordinals' = "[0, 1]"]
  then have "p \<noteq> ex_plan" using run by auto
  with s run show ?thesis by blast
qed

end
