(* ===== verification/Host_Evidence.thy ===== *)
theory Host_Evidence
  imports Attestation_Verify
begin

section \<open>Host events and their translation (\<^verbatim>\<open>host_evidence.py\<close>)\<close>

text \<open>
  \<open>parse_host_event\<close> checks an unsigned lifecycle event of the host; \<open>translate_invocation\<close> binds an
  event to a plan and makes the statement an issuer may sign.  The checks are in the order of the
  code; an \<open>AttestationError\<close> is its code, and \<open>x in s\<close> for a set \<open>s\<close> raises a \<open>TypeError\<close> when \<open>x\<close> is a list or a dict,
  which have no hash.  \<open>_validate_unicode\<close> rejects lone surrogates, which are no characters of the model.
  Results: \<open>event_id\<close> determines the event, and what a translated invocation binds.
\<close>

datatype host_exn =
    HostError attestation_code
  | HostTypeError

abbreviation host_invalid :: host_exn where
  "host_invalid \<equiv> HostError INVALID_STATEMENT"

definition host_schema :: string where
  "host_schema = ''vllm-hust-plugin-evidence/0.1''"

definition host_events :: "string list" where
  "host_events = [''discovered'', ''resolved'', ''invoked'', ''failed'', ''skipped'', ''effective'']"

definition observation_kinds :: "string list" where
  "observation_kinds = [''loader_lifecycle'', ''scheduler_resolution'', ''scheduler_dispatch'', ''runtime_effective'']"

record entry_point_binding =
  eb_group :: string
  eb_name :: string
  eb_value :: string
  eb_plugin_id :: string
  eb_obligation :: string

record host_receipt =
  hr_raw :: string
  hr_event :: "(string \<times> json) list"
  hr_statement :: attestation_statement

subsection \<open>Values\<close>

text \<open>
  \<open>d[k]\<close> for a key that was checked to be there, and \<open>d.get(k)\<close>.
\<close>

definition got :: "(string \<times> json) list \<Rightarrow> string \<Rightarrow> json" where
  "got d k = (case map_of d k of None \<Rightarrow> JNull | Some v \<Rightarrow> v)"

definition member_of :: "json \<Rightarrow> string list \<Rightarrow> host_exn + bool" where
  "member_of v names = (case v of
     JStr s \<Rightarrow> Inr (s \<in> set names)
   | JArr _ \<Rightarrow> Inl HostTypeError
   | JObj _ \<Rightarrow> Inl HostTypeError
   | _ \<Rightarrow> Inr False)"

definition non_empty_str :: "json \<Rightarrow> bool" where
  "non_empty_str v = (case v of JStr s \<Rightarrow> s \<noteq> [] | _ \<Rightarrow> False)"

definition non_neg_int :: "json \<Rightarrow> bool" where
  "non_neg_int v = (case v of JInt i \<Rightarrow> 0 \<le> i | _ \<Rightarrow> False)"

text \<open>
  \<open>int(s)\<close> in base ten: white space around, a sign, digits with single underscores between them.  In a
  string of ASCII characters only the C locale's white space counts.
\<close>

definition int_space :: "string \<Rightarrow> char \<Rightarrow> bool" where
  "int_space s c \<longleftrightarrow> code c \<in> {9, 10, 11, 12, 13, 32} \<or> (list_ex (\<lambda>x. 128 \<le> code x) s \<and> is_space c)"

fun digit_groups :: "bool \<Rightarrow> string \<Rightarrow> bool" where
  "digit_groups after_digit [] = after_digit"
| "digit_groups after_digit (c # s) =
     (if is_digit c then digit_groups True s else c = CHR ''_'' \<and> after_digit \<and> digit_groups False s)"

definition py_int :: "string \<Rightarrow> int option" where
  "py_int s =
     (let t = rev (dropWhile (int_space s) (rev (dropWhile (int_space s) s)));
          negative = take 1 t = ''-'';
          body = (if negative \<or> take 1 t = ''+'' then tl t else t);
          n = int (fst (pdigits 0 (filter is_digit body)))
      in if digit_groups False body then Some (if negative then - n else n) else None)"

subsection \<open>\<open>parse_host_event\<close>\<close>

definition host_event_fields :: "string list" where
  "host_event_fields =
     [''schema'', ''event_id'', ''event'', ''observation_kind'', ''entry_point'', ''process'', ''observed_at_ns'',
      ''delivery_attempt'', ''plan_id'', ''launch_id'', ''binding_status'', ''occurrence_id'',
      ''controller_instance_id'', ''invocation_seq'', ''dispatch_id'', ''plugin_id'', ''artifact_digest'',
      ''identity_status'', ''detail'']"

definition legacy_process_fields :: "string list" where
  "legacy_process_fields = [''host'', ''role'', ''ordinal'', ''pid'', ''start_identity'', ''process_epoch'']"

definition host_object :: "json \<Rightarrow> string list list \<Rightarrow> host_exn + (string \<times> json) list" where
  "host_object v shapes = (case v of
     JObj d \<Rightarrow> if list_ex (\<lambda>names. set (map fst d) = set names) shapes then Inr d else Inl host_invalid
   | _ \<Rightarrow> Inl host_invalid)"

text \<open>The required strings, the assignment source, the integers and the start identity.\<close>

definition required_strings :: "(string \<times> json) list \<Rightarrow> (string \<times> json) list \<Rightarrow> (string \<times> json) list \<Rightarrow> bool" where
  "required_strings ev entry process \<longleftrightarrow>
     list_all non_empty_str
       ([got ev ''event_id'', got ev ''identity_status''] @ map (got entry) [''group'', ''name'', ''value'']
        @ map (got process) [''host'', ''role'', ''start_identity''])"

definition assignment_check :: "(string \<times> json) list \<Rightarrow> host_exn + unit" where
  "assignment_check process =
     (if ''assignment_source'' \<in> set (map fst process)
      then ebind (member_of (got process ''assignment_source'') [''host'', ''environment'']) (\<lambda>b. check b host_invalid)
      else Inr ())"

definition required_integers :: "(string \<times> json) list \<Rightarrow> (string \<times> json) list \<Rightarrow> bool" where
  "required_integers ev process \<longleftrightarrow>
     list_all non_neg_int
       [got process ''ordinal'', got process ''pid'', got process ''process_epoch'', got ev ''observed_at_ns'',
        got ev ''delivery_attempt'']"

definition start_ticks_ok :: "(string \<times> json) list \<Rightarrow> bool" where
  "start_ticks_ok process = (case (got process ''pid'', got process ''start_identity'') of
     (JInt pid, JStr start) \<Rightarrow>
       let pre = ''pid:'' @ int_str pid @ '':start_ticks:'' in
       prefix pre start \<and> (case py_int (drop (length pre) start) of None \<Rightarrow> False | Some ticks \<Rightarrow> 0 \<le> ticks)
   | _ \<Rightarrow> False)"

text \<open>The binding to a plan and a launch.\<close>

definition null_or_string :: "json \<Rightarrow> bool" where
  "null_or_string v \<longleftrightarrow> v = JNull \<or> non_empty_str v"

definition binding_check :: "(string \<times> json) list \<Rightarrow> host_exn + unit" where
  "binding_check ev =
     ebind (check (list_all (\<lambda>k. null_or_string (got ev k)) [''plan_id'', ''launch_id'', ''detail'', ''controller_instance_id''])
              host_invalid) (\<lambda>_.
     ebind (member_of (got ev ''binding_status'') [''bound'', ''unbound'']) (\<lambda>known.
     ebind (check known host_invalid) (\<lambda>_.
     ebind (check ((got ev ''plan_id'' = JNull) = (got ev ''launch_id'' = JNull)) host_invalid) (\<lambda>_.
     check ((got ev ''plan_id'' \<noteq> JNull \<and> got ev ''launch_id'' \<noteq> JNull) = (got ev ''binding_status'' = JStr ''bound''))
       host_invalid))))"

text \<open>Occurrence, sequence number, dispatch digest, and what each observation kind asks of them.\<close>

definition occurrence_ok :: "json \<Rightarrow> bool" where
  "occurrence_ok v = (case v of JNull \<Rightarrow> True | JInt i \<Rightarrow> 1 \<le> i | JStr s \<Rightarrow> s \<noteq> [] | _ \<Rightarrow> False)"

definition invocation_seq_ok :: "json \<Rightarrow> bool" where
  "invocation_seq_ok v = (case v of JNull \<Rightarrow> True | JInt i \<Rightarrow> 1 \<le> i | _ \<Rightarrow> False)"

definition dispatch_id_ok :: "json \<Rightarrow> bool" where
  "dispatch_id_ok v = (case v of
     JNull \<Rightarrow> True
   | JStr s \<Rightarrow> length s = 64 \<and> list_all (\<lambda>c. c \<in> set ''0123456789abcdef'') s
   | _ \<Rightarrow> False)"

text \<open>\<open>json.dumps(items, separators=(",", ":")).encode()\<close>\<close>

definition material_bytes :: "json list \<Rightarrow> string" where
  "material_bytes items = utf8_encode (jprint True (JArr items))"

definition dispatch_material :: "(string \<times> json) list \<Rightarrow> (string \<times> json) list \<Rightarrow> json \<Rightarrow> json list" where
  "dispatch_material ev process controller =
     [got process ''host'', got process ''start_identity'', got process ''process_epoch'', got ev ''plan_id'',
      got ev ''launch_id'', controller, got ev ''occurrence_id'']"

definition loader_ok :: "(string \<times> json) list \<Rightarrow> bool" where
  "loader_ok ev \<longleftrightarrow>
     list_all (\<lambda>k. got ev k = JNull) [''occurrence_id'', ''controller_instance_id'', ''invocation_seq'', ''dispatch_id'']"

definition resolution_ok :: "(string \<times> json) list \<Rightarrow> bool" where
  "resolution_ok ev \<longleftrightarrow> got ev ''event'' = JStr ''resolved''
     \<and> (case got ev ''controller_instance_id'' of JStr c \<Rightarrow> got ev ''occurrence_id'' = JStr (''controller:'' @ c) | _ \<Rightarrow> False)
     \<and> got ev ''invocation_seq'' = JNull \<and> got ev ''dispatch_id'' = JNull"

definition dispatch_ok :: "(string \<Rightarrow> string) \<Rightarrow> (string \<times> json) list \<Rightarrow> (string \<times> json) list \<Rightarrow> bool" where
  "dispatch_ok sha ev process \<longleftrightarrow> got ev ''event'' = JStr ''invoked''
     \<and> (case got ev ''controller_instance_id'' of JStr c \<Rightarrow> True | _ \<Rightarrow> False)
     \<and> (case got ev ''occurrence_id'' of JInt n \<Rightarrow> True | _ \<Rightarrow> False)
     \<and> got ev ''invocation_seq'' = got ev ''occurrence_id''
     \<and> got ev ''dispatch_id'' = JStr (sha (material_bytes (dispatch_material ev process (got ev ''controller_instance_id''))))"

definition effective_ok :: "(string \<Rightarrow> string) \<Rightarrow> (string \<times> json) list \<Rightarrow> (string \<times> json) list \<Rightarrow> bool" where
  "effective_ok sha ev process \<longleftrightarrow> got ev ''event'' = JStr ''effective''
     \<and> got ev ''occurrence_id'' \<noteq> JNull \<and> got ev ''controller_instance_id'' = JNull
     \<and> (case got ev ''occurrence_id'' of
          JInt n \<Rightarrow> got ev ''invocation_seq'' = JInt n
            \<and> got ev ''dispatch_id'' = JStr (sha (material_bytes (dispatch_material ev process JNull)))
        | _ \<Rightarrow> got ev ''invocation_seq'' = JNull \<and> got ev ''dispatch_id'' = JNull)"

definition kind_ok :: "(string \<Rightarrow> string) \<Rightarrow> (string \<times> json) list \<Rightarrow> (string \<times> json) list \<Rightarrow> bool" where
  "kind_ok sha ev process =
     (if got ev ''observation_kind'' = JStr ''loader_lifecycle'' then loader_ok ev
      else if got ev ''observation_kind'' = JStr ''scheduler_resolution'' then resolution_ok ev
      else if got ev ''observation_kind'' = JStr ''scheduler_dispatch'' then dispatch_ok sha ev process
      else effective_ok sha ev process)"

definition event_material ::
  "(string \<times> json) list \<Rightarrow> (string \<times> json) list \<Rightarrow> (string \<times> json) list \<Rightarrow> json list" where
  "event_material ev entry process =
     [got process ''host'', got process ''pid'', got process ''start_identity'', got process ''process_epoch'',
      got process ''role'', got process ''ordinal'', got entry ''group'', got entry ''name'', got entry ''value'',
      got ev ''event'', got ev ''detail'', got ev ''occurrence_id'', got ev ''plan_id'', got ev ''launch_id'',
      got ev ''observation_kind'', got ev ''controller_instance_id'', got ev ''delivery_attempt'', got ev ''observed_at_ns'']
     @ (if got process ''assignment_source'' \<noteq> JNull then [got process ''assignment_source''] else [])"

definition parse_host_event :: "(string \<Rightarrow> string) \<Rightarrow> string \<Rightarrow> host_exn + (string \<times> json) list" where
  "parse_host_event sha raw =
     ebind (case parse_strict raw of Inl c \<Rightarrow> Inl (HostError c) | Inr d \<Rightarrow> Inr d) (\<lambda>ev.
     ebind (check (set (map fst ev) = set host_event_fields) host_invalid) (\<lambda>_.
     ebind (check (got ev ''schema'' = JStr host_schema) host_invalid) (\<lambda>_.
     ebind (member_of (got ev ''event'') host_events) (\<lambda>known_event.
     ebind (check known_event host_invalid) (\<lambda>_.
     ebind (member_of (got ev ''observation_kind'') observation_kinds) (\<lambda>known_kind.
     ebind (check known_kind host_invalid) (\<lambda>_.
     ebind (host_object (got ev ''entry_point'') [[''group'', ''name'', ''value'']]) (\<lambda>entry.
     ebind (host_object (got ev ''process'') [legacy_process_fields, ''assignment_source'' # legacy_process_fields]) (\<lambda>process.
     ebind (check (required_strings ev entry process) host_invalid) (\<lambda>_.
     ebind (assignment_check process) (\<lambda>_.
     ebind (check (required_integers ev process) host_invalid) (\<lambda>_.
     ebind (check (start_ticks_ok process) host_invalid) (\<lambda>_.
     ebind (check (\<not> (case got ev ''delivery_attempt'' of JInt i \<Rightarrow> i < 1 | _ \<Rightarrow> False)) host_invalid) (\<lambda>_.
     ebind (binding_check ev) (\<lambda>_.
     ebind (check (occurrence_ok (got ev ''occurrence_id'')) host_invalid) (\<lambda>_.
     ebind (check (invocation_seq_ok (got ev ''invocation_seq'')) host_invalid) (\<lambda>_.
     ebind (check (dispatch_id_ok (got ev ''dispatch_id'')) host_invalid) (\<lambda>_.
     ebind (check (kind_ok sha ev process) host_invalid) (\<lambda>_.
     ebind (check (got ev ''event_id'' = JStr (sha (material_bytes (event_material ev entry process)))) host_invalid) (\<lambda>_.
     ebind (check (got ev ''plugin_id'' = JNull \<and> got ev ''artifact_digest'' = JNull) host_invalid) (\<lambda>_.
     Inr ev)))))))))))))))))))))"

subsection \<open>\<open>translate_invocation\<close>\<close>

text \<open>The string and the integer of a value that the parser has checked to be one.\<close>

definition str_of :: "json \<Rightarrow> string" where
  "str_of v = (case v of JStr s \<Rightarrow> s | _ \<Rightarrow> [])"

definition int_of :: "json \<Rightarrow> int" where
  "int_of v = (case v of JInt i \<Rightarrow> i | _ \<Rightarrow> 0)"

definition dict_at :: "json \<Rightarrow> (string \<times> json) list" where
  "dict_at v = (case v of JObj d \<Rightarrow> d | _ \<Rightarrow> [])"

definition invocation_statement ::
  "(string \<Rightarrow> string) \<Rightarrow> string \<Rightarrow> plan \<Rightarrow> string \<Rightarrow> int \<Rightarrow> entry_point_binding \<Rightarrow> string \<Rightarrow> string \<Rightarrow> string \<Rightarrow>
   int \<Rightarrow> int \<Rightarrow> (string \<times> json) list \<Rightarrow> (string \<times> json) list \<Rightarrow> plugin_identity \<Rightarrow> attestation_statement" where
  "invocation_statement sha raw p launch_id process_epoch binding issuer kid challenge_nonce issued_at expires_at
       ev process plugin =
     \<lparr>sm_schema = statement_schema, sm_profile = statement_profile, sm_issuer = issuer, sm_kid = kid,
      sm_subject = ''host-runtime'', sm_plan_id = plan_id sha p, sm_launch_id = launch_id,
      sm_plugin_id = plugin_id sha plugin, sm_artifact_digest = ''sha256:'' @ pi_artifact_sha256 plugin,
      sm_process = \<lparr>pm_host = str_of (got process ''host''), pm_role = str_of (got process ''role''),
        pm_ordinal = int_of (got process ''ordinal''), pm_start_identity = str_of (got process ''start_identity''),
        pm_epoch = process_epoch\<rparr>,
      sm_obligation = eb_obligation binding, sm_event = ''invoked'',
      sm_observed_at = int_of (got ev ''observed_at_ns'') div 1000000000, sm_issued_at = issued_at,
      sm_expires_at = expires_at, sm_challenge_nonce = challenge_nonce,
      sm_evidence_digest = ''sha256:'' @ sha raw, sm_critical_claims = []\<rparr>"

definition translate_invocation ::
  "(string \<Rightarrow> string) \<Rightarrow> string \<Rightarrow> plan \<Rightarrow> string \<Rightarrow> int \<Rightarrow> entry_point_binding \<Rightarrow> string \<Rightarrow> string \<Rightarrow> string \<Rightarrow>
   int \<Rightarrow> int \<Rightarrow> host_exn + host_receipt" where
  "translate_invocation sha raw p launch_id process_epoch binding issuer kid challenge_nonce issued_at expires_at =
     ebind (parse_host_event sha raw) (\<lambda>ev.
     let process = dict_at (got ev ''process''); entry = dict_at (got ev ''entry_point'') in
     ebind (check (got ev ''event'' = JStr ''invoked'') host_invalid) (\<lambda>_.
     ebind (check (got ev ''binding_status'' = JStr ''bound'') (HostError BINDING_MISMATCH)) (\<lambda>_.
     ebind (check (got process ''assignment_source'' = JStr ''host'') (HostError BINDING_MISMATCH)) (\<lambda>_.
     ebind (check (got ev ''plan_id'' = JStr (plan_id sha p) \<and> got ev ''launch_id'' = JStr launch_id)
              (HostError BINDING_MISMATCH)) (\<lambda>_.
     ebind (check (got process ''process_epoch'' = JInt process_epoch) (HostError BINDING_MISMATCH)) (\<lambda>_.
     ebind (check (map (got entry) [''group'', ''name'', ''value''] =
                   map JStr [eb_group binding, eb_name binding, eb_value binding]) (HostError BINDING_MISMATCH)) (\<lambda>_.
     ebind (demand (HostError BINDING_MISMATCH)
              (find (\<lambda>item. plugin_id sha item = eb_plugin_id binding) (pl_plugins p))) (\<lambda>plugin.
     Inr \<lparr>hr_raw = raw, hr_event = ev, hr_statement =
       invocation_statement sha raw p launch_id process_epoch binding issuer kid challenge_nonce issued_at expires_at
         ev process plugin\<rparr>))))))))"

subsection \<open>What an accepted event says\<close>

lemma member_of_Inr_iff: "member_of v names = Inr True \<longleftrightarrow> (\<exists>s. v = JStr s \<and> s \<in> set names)"
  by (cases v) (auto simp: member_of_def)

lemma host_object_Inr_iff:
  "host_object v shapes = Inr d \<longleftrightarrow> v = JObj d \<and> (\<exists>names \<in> set shapes. set (map fst d) = set names)"
  by (cases v) (auto simp: host_object_def list_ex_iff)

lemma raw_step_iff: "(case parse_strict raw of Inl c \<Rightarrow> Inl (HostError c) | Inr d \<Rightarrow> Inr d) = Inr ev \<longleftrightarrow> parse_strict raw = Inr ev"
  by (auto split: sum.splits)

definition host_event_ok ::
  "(string \<Rightarrow> string) \<Rightarrow> (string \<times> json) list \<Rightarrow> (string \<times> json) list \<Rightarrow> (string \<times> json) list \<Rightarrow> bool" where
  "host_event_ok sha ev entry process \<longleftrightarrow>
     (set (map fst ev) = set host_event_fields \<and> got ev ''schema'' = JStr host_schema
      \<and> member_of (got ev ''event'') host_events = Inr True \<and> member_of (got ev ''observation_kind'') observation_kinds = Inr True
      \<and> got ev ''entry_point'' = JObj entry \<and> set (map fst entry) = set [''group'', ''name'', ''value''])
   \<and> (got ev ''process'' = JObj process
      \<and> (\<exists>names \<in> set [legacy_process_fields, ''assignment_source'' # legacy_process_fields]. set (map fst process) = set names)
      \<and> required_strings ev entry process \<and> assignment_check process = Inr () \<and> required_integers ev process
      \<and> start_ticks_ok process)
   \<and> (binding_check ev = Inr () \<and> occurrence_ok (got ev ''occurrence_id'') \<and> invocation_seq_ok (got ev ''invocation_seq'')
      \<and> dispatch_id_ok (got ev ''dispatch_id'') \<and> kind_ok sha ev process)
   \<and> (got ev ''event_id'' = JStr (sha (material_bytes (event_material ev entry process)))
      \<and> got ev ''plugin_id'' = JNull \<and> got ev ''artifact_digest'' = JNull)"

lemma parse_host_eventD:
  assumes "parse_host_event sha raw = Inr ev"
  obtains entry process where "parse_strict raw = Inr ev" and "host_event_ok sha ev entry process"
proof -
  have "\<exists>entry process. parse_strict raw = Inr ev \<and> host_event_ok sha ev entry process"
    using assms
    unfolding parse_host_event_def ebind_Inr_iff raw_step_iff check_Inr_iff host_object_Inr_iff sum.inject list.set
      host_event_ok_def unit_eq
    by (elim exE conjE, hypsubst) (intro exI conjI; (assumption | simp))
  then show ?thesis using that by blast
qed

text \<open>The bytes that an event id is the digest of.\<close>

definition event_bytes :: "(string \<times> json) list \<Rightarrow> string" where
  "event_bytes ev =
     material_bytes (event_material ev (dict_at (got ev ''entry_point'')) (dict_at (got ev ''process'')))"

lemma material_bytes_inj:
  assumes "json_wf (JArr xs)" and "json_wf (JArr ys)" and "material_bytes xs = material_bytes ys"
  shows "xs = ys"
proof -
  have "jprint True (JArr xs) = jprint True (JArr ys)"
    using assms(3) utf8_decode_encode unfolding material_bytes_def by (metis option.inject)
  then have "(Inr (JArr xs) :: unit + json) = Inr (JArr ys)"
    using loads_text_jprint [OF keeps_dict_of assms(1)] loads_text_jprint [OF keeps_dict_of assms(2)] by metis
  then show ?thesis by simp
qed

lemma map_of_got: "map_of d k = (if k \<in> set (map fst d) then Some (got d k) else None)"
  by (auto simp: got_def map_of_eq_None_iff split: option.splits)

lemma got_absent: "k \<notin> set (map fst d) \<Longrightarrow> got d k = JNull"
  using map_of_eq_None_iff [of d k] by (simp add: got_def)

lemma json_wf_got: "json_wf (JObj d) \<Longrightarrow> json_wf (got d k)"
  by (auto simp: got_def list_all_iff split: option.splits dest!: map_of_SomeD)

lemma json_wf_material:
  assumes "json_wf (JObj ev)" "json_wf (JObj entry)" "json_wf (JObj process)"
  shows "json_wf (JArr (event_material ev entry process))"
  using assms by (simp add: event_material_def json_wf_got del: json_wf.simps(2))

lemma assignment_present:
  assumes "assignment_check process = Inr ()"
  shows "''assignment_source'' \<in> set (map fst process) \<longleftrightarrow> got process ''assignment_source'' \<noteq> JNull"
proof
  assume present: "''assignment_source'' \<in> set (map fst process)"
  then have "member_of (got process ''assignment_source'') [''host'', ''environment''] = Inr True"
    using assms by (auto simp: assignment_check_def ebind_Inr_iff simp del: set_map)
  then show "got process ''assignment_source'' \<noteq> JNull" by (auto simp: member_of_Inr_iff)
next
  assume "got process ''assignment_source'' \<noteq> JNull"
  then show "''assignment_source'' \<in> set (map fst process)" using got_absent by blast
qed

lemma process_keys:
  assumes "host_event_ok sha ev entry process"
  shows "set (map fst process) =
     (if got process ''assignment_source'' \<noteq> JNull then {''assignment_source''} else {}) \<union> set legacy_process_fields"
proof -
  have shape: "\<exists>names \<in> set [legacy_process_fields, ''assignment_source'' # legacy_process_fields]. set (map fst process) = set names"
    and "assignment_check process = Inr ()" using assms unfolding host_event_ok_def by blast+
  note iff = assignment_present [OF this(2)]
  have no: "''assignment_source'' \<notin> set legacy_process_fields" by (simp add: legacy_process_fields_def)
  from shape have "set (map fst process) = set legacy_process_fields
      \<or> set (map fst process) = {''assignment_source''} \<union> set legacy_process_fields" by auto
  then show ?thesis using iff no by auto
qed

definition material_fields :: "string list" where
  "material_fields = [''event'', ''detail'', ''occurrence_id'', ''plan_id'', ''launch_id'', ''observation_kind'',
     ''controller_instance_id'', ''delivery_attempt'', ''observed_at_ns'']"

lemma material_eqD:
  assumes "event_material ev entry process = event_material ev' entry' process'"
  shows "list_all (\<lambda>k. got process k = got process' k) (''assignment_source'' # legacy_process_fields)"
    and "list_all (\<lambda>k. got entry k = got entry' k) [''group'', ''name'', ''value'']"
    and "list_all (\<lambda>k. got ev k = got ev' k) material_fields"
  using assms unfolding event_material_def material_fields_def legacy_process_fields_def
  by (auto split: if_splits)

lemma got_dict_eq:
  assumes "set (map fst d) = set (map fst e)" and "\<And>k. k \<in> set (map fst d) \<Longrightarrow> got d k = got e k"
  shows "map_of d = map_of e"
proof
  fix k
  show "map_of d k = map_of e k" unfolding map_of_got [of d] map_of_got [of e] using assms by simp
qed

lemma member_of_cases: "member_of v [''bound'', ''unbound''] = Inr True \<Longrightarrow> v = JStr ''bound'' \<or> v = JStr ''unbound''"
  by (auto simp: member_of_Inr_iff)

lemma binding_determined:
  assumes "binding_check ev = Inr ()" "binding_check ev' = Inr ()"
    and "got ev ''plan_id'' = got ev' ''plan_id''" "got ev ''launch_id'' = got ev' ''launch_id''"
  shows "got ev ''binding_status'' = got ev' ''binding_status''"
proof -
  have status: "got e ''binding_status'' = (if got e ''plan_id'' \<noteq> JNull \<and> got e ''launch_id'' \<noteq> JNull then JStr ''bound'' else JStr ''unbound'')"
    if "binding_check e = Inr ()" for e
    using that member_of_cases [of "got e ''binding_status''"] unfolding binding_check_def ebind_Inr_iff check_Inr_iff by auto
  show ?thesis unfolding status [OF assms(1)] status [OF assms(2)] assms(3,4) ..
qed

lemma identity_determined:
  assumes kind: "kind_ok sha ev process" "kind_ok sha ev' process'"
    and pr: "list_all (\<lambda>k. got process k = got process' k) (''assignment_source'' # legacy_process_fields)"
    and mat: "list_all (\<lambda>k. got ev k = got ev' k) material_fields"
  shows "got ev ''invocation_seq'' = got ev' ''invocation_seq''" "got ev ''dispatch_id'' = got ev' ''dispatch_id''"
proof -
  have p: "got process ''host'' = got process' ''host''" "got process ''start_identity'' = got process' ''start_identity''"
      "got process ''process_epoch'' = got process' ''process_epoch''"
    using pr by (simp_all add: legacy_process_fields_def)
  have m: "got ev ''occurrence_id'' = got ev' ''occurrence_id''" "got ev ''plan_id'' = got ev' ''plan_id''"
      "got ev ''launch_id'' = got ev' ''launch_id''" "got ev ''observation_kind'' = got ev' ''observation_kind''"
      "got ev ''controller_instance_id'' = got ev' ''controller_instance_id''"
    using mat by (simp_all add: material_fields_def)
  have dm: "dispatch_material ev process c = dispatch_material ev' process' c" for c
    unfolding dispatch_material_def p m ..
  have "got ev ''invocation_seq'' = got ev' ''invocation_seq'' \<and> got ev ''dispatch_id'' = got ev' ''dispatch_id''"
    using kind unfolding kind_ok_def loader_ok_def resolution_ok_def dispatch_ok_def effective_ok_def m dm
    by (cases "got ev' ''occurrence_id''") (simp_all split: if_splits)
  then show "got ev ''invocation_seq'' = got ev' ''invocation_seq''" "got ev ''dispatch_id'' = got ev' ''dispatch_id''"
    by blast+
qed

lemma host_event_ok_dicts:
  assumes "host_event_ok sha ev entry process"
  shows "dict_at (got ev ''entry_point'') = entry" "dict_at (got ev ''process'') = process"
    "got ev ''event_id'' = JStr (sha (event_bytes ev))"
  using assms unfolding host_event_ok_def event_bytes_def dict_at_def by simp_all

lemma host_event_okD:
  assumes "host_event_ok sha ev entry process"
  shows "set (map fst ev) = set host_event_fields" "got ev ''schema'' = JStr host_schema"
    "got ev ''entry_point'' = JObj entry" "set (map fst entry) = set [''group'', ''name'', ''value'']"
    "got ev ''process'' = JObj process" "binding_check ev = Inr ()" "kind_ok sha ev process"
    "got ev ''plugin_id'' = JNull" "got ev ''artifact_digest'' = JNull"
  using assms unfolding host_event_ok_def by blast+

lemma same_entry:
  assumes ok: "host_event_ok sha ev entry process" "host_event_ok sha ev' entry' process'"
    and wf: "json_wf (JObj entry)" "json_wf (JObj entry')"
    and eq: "list_all (\<lambda>k. got entry k = got entry' k) [''group'', ''name'', ''value'']"
  shows "jsort (JObj entry) = jsort (JObj entry')"
proof -
  note keys = host_event_okD(4) [OF ok(1)] host_event_okD(4) [OF ok(2)]
  have "map_of entry = map_of entry'"
    using eq unfolding list_all_iff by (intro got_dict_eq) (simp_all only: keys)
  then show ?thesis using wf by (intro jsort_dict_eq) (simp_all only: json_wf.simps)
qed

lemma same_process:
  assumes ok: "host_event_ok sha ev entry process" "host_event_ok sha ev' entry' process'"
    and wf: "json_wf (JObj process)" "json_wf (JObj process')"
    and eq: "list_all (\<lambda>k. got process k = got process' k) (''assignment_source'' # legacy_process_fields)"
  shows "jsort (JObj process) = jsort (JObj process')"
proof -
  have same: "got process ''assignment_source'' = got process' ''assignment_source''" using eq by simp
  have keys: "set (map fst process) = set (map fst process')" unfolding process_keys [OF ok(1)] process_keys [OF ok(2)] same ..
  have "set (map fst process) \<subseteq> set (''assignment_source'' # legacy_process_fields)" unfolding process_keys [OF ok(1)] by auto
  then have "map_of process = map_of process'" using eq unfolding list_all_iff by (intro got_dict_eq keys) blast
  then show ?thesis using wf by (intro jsort_dict_eq) (simp_all only: json_wf.simps)
qed

lemma same_material:
  assumes ok: "host_event_ok sha ev entry process" "host_event_ok sha ev' entry' process'"
    and wf: "json_wf (JObj ev)" "json_wf (JObj ev')" and bytes: "event_bytes ev = event_bytes ev'"
  shows "list_all (\<lambda>k. got ev k = got ev' k) material_fields" "jsort (JObj entry) = jsort (JObj entry')"
    "jsort (JObj process) = jsort (JObj process')"
    "list_all (\<lambda>k. got process k = got process' k) (''assignment_source'' # legacy_process_fields)"
proof -
  have wfs: "json_wf (JObj entry)" "json_wf (JObj entry')" "json_wf (JObj process)" "json_wf (JObj process')"
    using json_wf_got [OF wf(1), of "''entry_point''"] json_wf_got [OF wf(2), of "''entry_point''"]
      json_wf_got [OF wf(1), of "''process''"] json_wf_got [OF wf(2), of "''process''"]
    unfolding host_event_okD(3,5) [OF ok(1)] host_event_okD(3,5) [OF ok(2)] by blast+
  have "event_material ev entry process = event_material ev' entry' process'"
    using bytes unfolding event_bytes_def host_event_ok_dicts(1,2) [OF ok(1)] host_event_ok_dicts(1,2) [OF ok(2)]
    by (rule material_bytes_inj [OF json_wf_material [OF wf(1) wfs(1,3)] json_wf_material [OF wf(2) wfs(2,4)]])
  note eq = material_eqD [OF this]
  show "list_all (\<lambda>k. got ev k = got ev' k) material_fields"
    "list_all (\<lambda>k. got process k = got process' k) (''assignment_source'' # legacy_process_fields)" by (rule eq(3) eq(1))+
  show "jsort (JObj entry) = jsort (JObj entry')" by (rule same_entry [OF ok wfs(1,2) eq(2)])
  show "jsort (JObj process) = jsort (JObj process')" by (rule same_process [OF ok wfs(3,4) eq(1)])
qed

lemma other_fields: "set host_event_fields =
   set material_fields \<union> set [''entry_point'', ''process''] \<union> set [''schema'', ''event_id'', ''plugin_id'', ''artifact_digest'']
   \<union> set [''binding_status'', ''invocation_seq'', ''dispatch_id''] \<union> {''identity_status''}"
  unfolding host_event_fields_def material_fields_def by auto

lemma same_derived:
  assumes ok: "host_event_ok sha ev entry process" "host_event_ok sha ev' entry' process'"
    and wf: "json_wf (JObj ev)" "json_wf (JObj ev')" and bytes: "event_bytes ev = event_bytes ev'"
  shows "list_all (\<lambda>k. got ev k = got ev' k) [''binding_status'', ''invocation_seq'', ''dispatch_id'']"
    and "list_all (\<lambda>k. got ev k = got ev' k) [''schema'', ''event_id'', ''plugin_id'', ''artifact_digest'']"
proof -
  note eq = same_material [OF ok wf bytes]
  note at = host_event_okD [OF ok(1)] host_event_okD [OF ok(2)]
  have ids: "got ev ''plan_id'' = got ev' ''plan_id''" "got ev ''launch_id'' = got ev' ''launch_id''"
    using eq(1) by (simp_all add: material_fields_def)
  have "got ev ''binding_status'' = got ev' ''binding_status''" by (rule binding_determined [OF at(6) at(15) ids])
  with identity_determined [OF at(7) at(16) eq(4,1)]
  show "list_all (\<lambda>k. got ev k = got ev' k) [''binding_status'', ''invocation_seq'', ''dispatch_id'']"
    by (simp only: list.pred_inject simp_thms)
  show "list_all (\<lambda>k. got ev k = got ev' k) [''schema'', ''event_id'', ''plugin_id'', ''artifact_digest'']"
    by (simp only: list.pred_inject simp_thms at host_event_ok_dicts(3) [OF ok(1)] host_event_ok_dicts(3) [OF ok(2)] bytes)
qed

lemma same_bytes_same_event:
  assumes ok: "host_event_ok sha ev entry process" "host_event_ok sha ev' entry' process'"
    and wf: "json_wf (JObj ev)" "json_wf (JObj ev')" and bytes: "event_bytes ev = event_bytes ev'"
    and k: "k \<noteq> ''identity_status''"
  shows "jsort (got ev k) = jsort (got ev' k)"
proof -
  note eq = same_material [OF ok wf bytes] and derived = same_derived [OF ok wf bytes]
  note at = host_event_okD [OF ok(1)] host_event_okD [OF ok(2)]
  consider "k \<in> set material_fields" | "k \<in> set [''entry_point'', ''process'']"
    | "k \<in> set [''schema'', ''event_id'', ''plugin_id'', ''artifact_digest'']"
    | "k \<in> set [''binding_status'', ''invocation_seq'', ''dispatch_id'']" | "k \<notin> set host_event_fields"
    using k unfolding other_fields by blast
  then show ?thesis
  proof cases
    case 2
    then have "k = ''entry_point'' \<or> k = ''process''" by simp
    then show ?thesis using eq(2,3) at(3,5,12,14) by metis
  next
    case 5
    then have "got ev k = JNull" "got ev' k = JNull" using at(1,10) by (metis got_absent)+
    then show ?thesis by simp
  qed (use eq(1) derived in \<open>auto simp only: list_all_iff\<close>)
qed

text \<open>
  C22. An \<open>event_id\<close> identifies its event: when two byte strings parse to host events with the same \<open>event_id\<close>, then the
  events agree in every field but \<open>identity_status\<close>, up to the order of keys, also in the fields that the digest
  does not cover directly (\<open>binding_status\<close>, \<open>invocation_seq\<close>, \<open>dispatch_id\<close>, the shape of \<open>process\<close>);
  unless the two digested byte strings are a collision of SHA-256.
\<close>

theorem host_event_id_binds:
  assumes "parse_host_event sha raw = Inr ev" and "parse_host_event sha raw' = Inr ev'"
    and "got ev ''event_id'' = got ev' ''event_id''"
  shows "(\<forall>k. k \<noteq> ''identity_status'' \<longrightarrow> map_option jsort (map_of ev k) = map_option jsort (map_of ev' k))
       \<or> (event_bytes ev \<noteq> event_bytes ev' \<and> sha (event_bytes ev) = sha (event_bytes ev'))"
proof (cases "event_bytes ev = event_bytes ev'")
  case True
  obtain entry process where raw: "parse_strict raw = Inr ev" and ok: "host_event_ok sha ev entry process"
    using assms(1) by (rule parse_host_eventD)
  obtain entry' process' where raw': "parse_strict raw' = Inr ev'" and ok': "host_event_ok sha ev' entry' process'"
    using assms(2) by (rule parse_host_eventD)
  have keys: "set (map fst ev) = set (map fst ev')" using ok ok' unfolding host_event_ok_def by metis
  have "map_option jsort (map_of ev k) = map_option jsort (map_of ev' k)" if "k \<noteq> ''identity_status''" for k
    using same_bytes_same_event [OF ok ok' parse_strict_wf [OF raw] parse_strict_wf [OF raw'] True that]
    unfolding map_of_got [of ev] map_of_got [of ev'] keys by (simp del: set_map)
  then show ?thesis by blast
next
  case False
  obtain entry process entry' process' where "host_event_ok sha ev entry process" "host_event_ok sha ev' entry' process'"
    using assms(1,2) by (metis parse_host_eventD)
  from host_event_ok_dicts(3) [OF this(1)] host_event_ok_dicts(3) [OF this(2)] False assms(3) show ?thesis by simp
qed

subsection \<open>What a translated invocation says\<close>

lemma translate_Inr:
  assumes "translate_invocation sha raw p launch_id epoch binding issuer kid nonce issued_at expires_at = Inr r"
  obtains ev entry process plugin where "parse_strict raw = Inr ev" "host_event_ok sha ev entry process"
    "parse_host_event sha raw = Inr ev"
    "got ev ''event'' = JStr ''invoked''" "got ev ''binding_status'' = JStr ''bound''"
    "got process ''assignment_source'' = JStr ''host''" "got ev ''plan_id'' = JStr (plan_id sha p)"
    "got ev ''launch_id'' = JStr launch_id" "got process ''process_epoch'' = JInt epoch"
    "map (got entry) [''group'', ''name'', ''value''] = map JStr [eb_group binding, eb_name binding, eb_value binding]"
    "plugin \<in> set (pl_plugins p)" "plugin_id sha plugin = eb_plugin_id binding"
    "hr_raw r = raw" "hr_event r = ev"
    "hr_statement r = invocation_statement sha raw p launch_id epoch binding issuer kid nonce issued_at expires_at ev process plugin"
proof -
  from assms obtain ev where parsed: "parse_host_event sha raw = Inr ev"
    unfolding translate_invocation_def ebind_Inr_iff by blast
  obtain entry process where ok: "parse_strict raw = Inr ev" "host_event_ok sha ev entry process"
    using parsed by (rule parse_host_eventD)
  have find: "find P xs = Some x \<Longrightarrow> x \<in> set xs \<and> P x" for P :: "plugin_identity \<Rightarrow> bool" and xs x
    by (metis find_Some_iff nth_mem)
  note steps = assms [unfolded translate_invocation_def parsed ebind_simps Let_def host_event_ok_dicts(1,2) [OF ok(2)]
      ebind_Inr_iff check_Inr_iff demand_Inr_iff sum.inject]
  then show ?thesis
    by (elim exE conjE, drule_tac find)
      (elim conjE, hypsubst, rule that [OF ok parsed], (assumption | simp only: host_receipt.select_convs)+)
qed

lemma accepted_process:
  assumes "host_event_ok sha ev entry process"
  shows "got process ''host'' = JStr (str_of (got process ''host''))" "str_of (got process ''host'') \<noteq> []"
    "got process ''role'' = JStr (str_of (got process ''role''))" "str_of (got process ''role'') \<noteq> []"
    "got process ''start_identity'' = JStr (str_of (got process ''start_identity''))"
    "str_of (got process ''start_identity'') \<noteq> []"
    "got process ''ordinal'' = JInt (int_of (got process ''ordinal''))" "0 \<le> int_of (got process ''ordinal'')"
    "0 \<le> int_of (got process ''process_epoch'')"
    "got ev ''observed_at_ns'' = JInt (int_of (got ev ''observed_at_ns''))" "0 \<le> int_of (got ev ''observed_at_ns'')"
proof -
  have str: "v = JStr (str_of v) \<and> str_of v \<noteq> []" if "non_empty_str v" for v
    using that by (cases v) (simp_all add: non_empty_str_def str_of_def)
  have int: "v = JInt (int_of v) \<and> 0 \<le> int_of v" if "non_neg_int v" for v
    using that by (cases v) (simp_all add: non_neg_int_def int_of_def)
  have "required_strings ev entry process" "required_integers ev process"
    using assms unfolding host_event_ok_def by blast+
  then have "non_empty_str (got process ''host'')" "non_empty_str (got process ''role'')"
      "non_empty_str (got process ''start_identity'')" "non_neg_int (got process ''ordinal'')"
      "non_neg_int (got process ''process_epoch'')" "non_neg_int (got ev ''observed_at_ns'')"
    unfolding required_strings_def required_integers_def by simp_all
  from \<open>non_empty_str (got process ''host'')\<close> \<open>non_empty_str (got process ''role'')\<close>
    \<open>non_empty_str (got process ''start_identity'')\<close> \<open>non_neg_int (got process ''ordinal'')\<close>
    \<open>non_neg_int (got process ''process_epoch'')\<close> \<open>non_neg_int (got ev ''observed_at_ns'')\<close>
  show "got process ''host'' = JStr (str_of (got process ''host''))" "str_of (got process ''host'') \<noteq> []"
    "got process ''role'' = JStr (str_of (got process ''role''))" "str_of (got process ''role'') \<noteq> []"
    "got process ''start_identity'' = JStr (str_of (got process ''start_identity''))"
    "str_of (got process ''start_identity'') \<noteq> []"
    "got process ''ordinal'' = JInt (int_of (got process ''ordinal''))" "0 \<le> int_of (got process ''ordinal'')"
    "0 \<le> int_of (got process ''process_epoch'')"
    "got ev ''observed_at_ns'' = JInt (int_of (got ev ''observed_at_ns''))" "0 \<le> int_of (got ev ''observed_at_ns'')"
    using str int by blast+
qed

lemma content_ids_non_empty: "plan_id sha p \<noteq> []" "plugin_id sha q \<noteq> []"
  by (simp_all add: plan_id_def plugin_id_def content_id_def)

lemma seconds_bound: "n div 1000000000 \<le> max_safe_integer \<longleftrightarrow> n < 2 ^ 53 * 1000000000" for n :: int
  by (simp add: max_safe_integer_def) linarith

lemma safe_iff: "i \<le> max_safe_integer \<longleftrightarrow> i < 2 ^ 53"
  by (simp add: max_safe_integer_def) linarith

lemma accepted_launch:
  assumes "host_event_ok sha ev entry process" and "got ev ''launch_id'' = JStr l"
  shows "l \<noteq> []"
proof -
  have "null_or_string (got ev ''launch_id'')"
    using host_event_okD(6) [OF assms(1)] unfolding binding_check_def ebind_Inr_iff check_Inr_iff by auto
  then show ?thesis by (simp add: assms(2) null_or_string_def non_empty_str_def)
qed

lemma signable_iff:
  assumes ok: "host_event_ok sha ev entry process" and "jcs_ok L" and "got ev ''launch_id'' = JStr launch_id"
    and epoch: "got process ''process_epoch'' = JInt epoch"
    and "is_digest (''sha256:'' @ sha raw)" and "is_digest (''sha256:'' @ pi_artifact_sha256 plugin)"
  shows "(\<exists>env. att_sign L (invocation_statement sha raw p launch_id epoch binding issuer kid nonce issued_at expires_at ev process plugin)
            key = Inr env) \<longleftrightarrow>
       issuer \<noteq> [] \<and> kid \<noteq> [] \<and> nonce \<noteq> [] \<and> eb_obligation binding \<noteq> []
     \<and> int_of (got process ''ordinal'') < 2 ^ 53 \<and> epoch < 2 ^ 53 \<and> int_of (got ev ''observed_at_ns'') < 2 ^ 53 * 1000000000
     \<and> 0 \<le> issued_at \<and> issued_at < 2 ^ 53 \<and> 0 \<le> expires_at \<and> expires_at < 2 ^ 53"
proof -
  let ?s = "invocation_statement sha raw p launch_id epoch binding issuer kid nonce issued_at expires_at ev process plugin"
  note acc = accepted_process [OF ok] and launch = accepted_launch [OF ok assms(3)]
  have epoch0: "0 \<le> epoch" using acc(9) by (simp add: epoch int_of_def)
  have time0: "0 \<le> int_of (got ev ''observed_at_ns'') div 1000000000" using acc(11) by (simp add: pos_imp_zdiv_nonneg_iff)
  have A: "process_statement_ok (sm_process ?s) \<longleftrightarrow> int_of (got process ''ordinal'') < 2 ^ 53 \<and> epoch < 2 ^ 53"
    unfolding process_statement_ok_def invocation_statement_def safe_iff using acc(2,4,6,8) epoch0 by simp
  have B: "list_all (\<lambda>f. f ?s \<noteq> []) [sm_schema, sm_profile, sm_issuer, sm_kid, sm_subject, sm_plan_id, sm_launch_id,
      sm_plugin_id, sm_obligation, sm_event, sm_challenge_nonce]
      \<longleftrightarrow> issuer \<noteq> [] \<and> kid \<noteq> [] \<and> eb_obligation binding \<noteq> [] \<and> nonce \<noteq> []"
    unfolding invocation_statement_def
    by (simp add: launch content_ids_non_empty statement_schema_def statement_profile_def)
  have C: "{sm_observed_at ?s, sm_issued_at ?s, sm_expires_at ?s} \<subseteq> {0..max_safe_integer} \<longleftrightarrow>
      int_of (got ev ''observed_at_ns'') < 2 ^ 53 * 1000000000
      \<and> 0 \<le> issued_at \<and> issued_at < 2 ^ 53 \<and> 0 \<le> expires_at \<and> expires_at < 2 ^ 53"
    unfolding invocation_statement_def attestation_statement.select_convs insert_subset atLeastAtMost_iff seconds_bound
    using time0 by (simp add: safe_iff)
  have D: "sm_schema ?s = statement_schema" "sm_profile ?s = statement_profile" "distinct (sm_critical_claims ?s)"
      "is_digest (sm_artifact_digest ?s)" "is_digest (sm_evidence_digest ?s)"
    unfolding invocation_statement_def attestation_statement.select_convs by (simp_all only: distinct.simps assms(5,6))
  show ?thesis
    unfolding att_sign_iff [OF assms(2)] statement_ok_def A B C
    by (simp only: D simp_thms ex_simps conj_ac)
qed

text \<open>
  C23. What a translated invocation says, and which ones can be signed.  A receipt of \<open>translate_invocation\<close> holds
  an accepted \<open>invoked\<close> event of exactly these bytes, bound to the plan, the launch and the entry point and
  with a process identity the host assigned; its statement repeats that identity, names a plugin of the plan
  with its artifact digest, digests the raw bytes, and rounds the time down to seconds.  The issuer can sign
  it exactly when issuer, key id, nonce and obligation are not empty and the numbers stay below the
  limit of \<open>2\<^sup>5\<^sup>3\<close>: the translation itself does not bound the ordinal, the epoch or the time.
\<close>

theorem translated_invocation:
  assumes "translate_invocation sha raw p launch_id epoch binding issuer kid nonce issued_at expires_at = Inr r"
    and "jcs_ok L" and "is_digest (''sha256:'' @ sha raw)"
    and "list_all (\<lambda>q. is_digest (''sha256:'' @ pi_artifact_sha256 q)) (pl_plugins p)"
  shows "(let ev = hr_event r; s = hr_statement r; process = dict_at (got ev ''process''); entry = dict_at (got ev ''entry_point'') in
      parse_host_event sha raw = Inr ev \<and> got ev ''event'' = JStr ''invoked''
    \<and> got ev ''plan_id'' = JStr (plan_id sha p) \<and> got ev ''launch_id'' = JStr launch_id
    \<and> map (got entry) [''group'', ''name'', ''value''] = map JStr [eb_group binding, eb_name binding, eb_value binding]
    \<and> got process ''assignment_source'' = JStr ''host''
    \<and> map (got process) [''host'', ''role'', ''start_identity'', ''ordinal'', ''process_epoch''] =
        [JStr (pm_host (sm_process s)), JStr (pm_role (sm_process s)), JStr (pm_start_identity (sm_process s)),
         JInt (pm_ordinal (sm_process s)), JInt epoch]
    \<and> sm_plan_id s = plan_id sha p \<and> sm_launch_id s = launch_id \<and> pm_epoch (sm_process s) = epoch
    \<and> sm_evidence_digest s = ''sha256:'' @ sha raw \<and> sm_obligation s = eb_obligation binding
    \<and> (\<exists>q \<in> set (pl_plugins p). plugin_id sha q = eb_plugin_id binding \<and> sm_plugin_id s = plugin_id sha q
          \<and> sm_artifact_digest s = ''sha256:'' @ pi_artifact_sha256 q)
    \<and> (\<exists>ns. got ev ''observed_at_ns'' = JInt ns
          \<and> sm_observed_at s * 1000000000 \<le> ns \<and> ns < (sm_observed_at s + 1) * 1000000000
          \<and> ((\<exists>env. att_sign L s key = Inr env) \<longleftrightarrow>
               issuer \<noteq> [] \<and> kid \<noteq> [] \<and> nonce \<noteq> [] \<and> eb_obligation binding \<noteq> []
             \<and> pm_ordinal (sm_process s) < 2 ^ 53 \<and> epoch < 2 ^ 53 \<and> ns < 2 ^ 53 * 1000000000
             \<and> 0 \<le> issued_at \<and> issued_at < 2 ^ 53 \<and> 0 \<le> expires_at \<and> expires_at < 2 ^ 53)))"
proof -
  obtain ev entry process plugin where ok: "host_event_ok sha ev entry process" and parsed: "parse_host_event sha raw = Inr ev"
    and ev: "got ev ''event'' = JStr ''invoked''" "got process ''assignment_source'' = JStr ''host''"
      "got ev ''plan_id'' = JStr (plan_id sha p)" "got ev ''launch_id'' = JStr launch_id" "got process ''process_epoch'' = JInt epoch"
      "map (got entry) [''group'', ''name'', ''value''] = map JStr [eb_group binding, eb_name binding, eb_value binding]"
    and plugin: "plugin \<in> set (pl_plugins p)" "plugin_id sha plugin = eb_plugin_id binding"
    and r: "hr_event r = ev" and s: "hr_statement r =
      invocation_statement sha raw p launch_id epoch binding issuer kid nonce issued_at expires_at ev process plugin"
    using assms(1) by (rule translate_Inr)
  have digest: "is_digest (''sha256:'' @ pi_artifact_sha256 plugin)" using assms(4) plugin(1) by (simp add: list_all_iff)
  note acc = accepted_process [OF ok] and sign = signable_iff [OF ok assms(2) ev(4,5) assms(3) digest]
  have process: "map (got process) [''host'', ''role'', ''start_identity'', ''ordinal'', ''process_epoch''] =
      [JStr (pm_host (sm_process (hr_statement r))), JStr (pm_role (sm_process (hr_statement r))),
       JStr (pm_start_identity (sm_process (hr_statement r))), JInt (pm_ordinal (sm_process (hr_statement r))), JInt epoch]"
    by (simp add: s invocation_statement_def acc(1,3,5,7) [symmetric] ev(5))
  have time: "n div 1000000000 * 1000000000 \<le> n" "n < (n div 1000000000 + 1) * 1000000000" for n :: int
    using mult_div_mod_eq [of 1000000000 n] pos_mod_bound [of 1000000000 n] pos_mod_sign [of 1000000000 n]
    by (simp_all add: distrib_right)
  show ?thesis
    unfolding Let_def r host_event_ok_dicts(1,2) [OF ok]
    by (intro conjI exI [of _ "int_of (got ev ''observed_at_ns'')"] bexI [OF _ plugin(1)] parsed ev acc(10) plugin(2) process)
      (simp_all only: s sign, simp_all only: invocation_statement_def attestation_statement.select_convs
        process_statement.select_convs time)
qed

subsection \<open>An event\<close>

definition host_digest :: "string \<Rightarrow> string" where
  "host_digest raw = ex_hash"

definition ex_entry_point :: "(string \<times> json) list" where
  "ex_entry_point = [(''group'', JStr ''g''), (''name'', JStr ''n''), (''value'', JStr ''v'')]"

definition ex_host_process :: "(string \<times> json) list" where
  "ex_host_process = [(''assignment_source'', JStr ''host''), (''host'', JStr ''h''), (''ordinal'', JInt 0), (''pid'', JInt 7),
     (''process_epoch'', JInt 1), (''role'', JStr ''worker''), (''start_identity'', JStr ''pid:7:start_ticks:5'')]"

definition ex_event :: "string \<Rightarrow> (string \<times> json) list" where
  "ex_event status = [(''artifact_digest'', JNull), (''binding_status'', JStr ''bound''), (''controller_instance_id'', JNull),
     (''delivery_attempt'', JInt 1), (''detail'', JNull), (''dispatch_id'', JNull), (''entry_point'', JObj ex_entry_point),
     (''event'', JStr ''invoked''), (''event_id'', JStr ex_hash), (''identity_status'', JStr status), (''invocation_seq'', JNull),
     (''launch_id'', JStr ''l1''), (''observation_kind'', JStr ''loader_lifecycle''), (''observed_at_ns'', JInt 5000000000),
     (''occurrence_id'', JNull), (''plan_id'', JStr (plan_id host_digest ex_plan)), (''plugin_id'', JNull),
     (''process'', JObj ex_host_process), (''schema'', JStr host_schema)]"

definition ex_raw :: "string \<Rightarrow> string" where
  "ex_raw status = canonical_bytes (JObj (ex_event status))"

definition ex_host_binding :: entry_point_binding where
  "ex_host_binding = \<lparr>eb_group = ''g'', eb_name = ''n'', eb_value = ''v'', eb_plugin_id = plugin_id host_digest ex_plugin, eb_obligation = ''ob''\<rparr>"

lemma ex_event_wf: "json_wf (JObj (ex_event st))"
  by (simp add: ex_event_def ex_entry_point_def ex_host_process_def)

lemma sorted_pairs_id:
  assumes "sorted (map fst d)" and "list_all (\<lambda>kv. jsort (snd kv) = snd kv) d"
  shows "sorted_pairs d = d"
proof -
  have "map (\<lambda>kv. (fst kv, jsort (snd kv))) d = d"
    using assms(2) by (intro map_idI) (auto simp: list_all_iff)
  then show ?thesis using assms(1) by (simp add: sorted_pairs_def sort_key_id_if_sorted)
qed

lemma ex_event_sorted: "sorted_pairs (ex_event st) = (ex_event st)"
proof (rule sorted_pairs_id)
  show "sorted (map fst (ex_event st))" by (simp add: ex_event_def)
  have "sorted_pairs ex_entry_point = ex_entry_point" by (rule sorted_pairs_id) (simp_all add: ex_entry_point_def)
  moreover have "sorted_pairs ex_host_process = ex_host_process" by (rule sorted_pairs_id) (simp_all add: ex_host_process_def)
  ultimately show "list_all (\<lambda>kv. jsort (snd kv) = snd kv) (ex_event st)"
    by (simp add: ex_event_def jsort_JObj del: jsort.simps(2))
qed

lemma ex_event_keys: "set (map fst (ex_event st)) = set host_event_fields"
proof -
  have "sort host_event_fields = map fst (ex_event st)" by (simp add: host_event_fields_def ex_event_def)
  then show ?thesis by (metis set_sort)
qed

lemma ex_got:
  "got (ex_event st) ''schema'' = JStr host_schema" "got (ex_event st) ''event'' = JStr ''invoked''"
  "got (ex_event st) ''observation_kind'' = JStr ''loader_lifecycle''" "got (ex_event st) ''entry_point'' = JObj ex_entry_point"
  "got (ex_event st) ''process'' = JObj ex_host_process" "got (ex_event st) ''event_id'' = JStr ex_hash"
  "got (ex_event st) ''identity_status'' = JStr st" "got (ex_event st) ''observed_at_ns'' = JInt 5000000000"
  "got (ex_event st) ''delivery_attempt'' = JInt 1" "got (ex_event st) ''plan_id'' = JStr (plan_id host_digest ex_plan)"
  "got (ex_event st) ''launch_id'' = JStr ''l1''" "got (ex_event st) ''detail'' = JNull" "got (ex_event st) ''controller_instance_id'' = JNull"
  "got (ex_event st) ''binding_status'' = JStr ''bound''" "got (ex_event st) ''occurrence_id'' = JNull"
  "got (ex_event st) ''invocation_seq'' = JNull" "got (ex_event st) ''dispatch_id'' = JNull" "got (ex_event st) ''plugin_id'' = JNull"
  "got (ex_event st) ''artifact_digest'' = JNull"
  by (simp_all add: got_def ex_event_def)

lemma ex_got_parts:
  "got ex_entry_point ''group'' = JStr ''g''" "got ex_entry_point ''name'' = JStr ''n''" "got ex_entry_point ''value'' = JStr ''v''"
  "got ex_host_process ''assignment_source'' = JStr ''host''" "got ex_host_process ''host'' = JStr ''h''"
  "got ex_host_process ''role'' = JStr ''worker''" "got ex_host_process ''start_identity'' = JStr ''pid:7:start_ticks:5''"
  "got ex_host_process ''ordinal'' = JInt 0" "got ex_host_process ''pid'' = JInt 7" "got ex_host_process ''process_epoch'' = JInt 1"
  by (simp_all add: got_def ex_entry_point_def ex_host_process_def)

lemmas ex_got_simps = ex_got ex_got_parts

lemma ex_start: "start_ticks_ok ex_host_process"
proof -
  have "int_str 7 = ''7''" using chr_of_code [of "CHR ''7''"]
    by (simp add: int_str_def nat_str.simps [of 7] digit_char_def code_def)
  moreover have "py_int ''5'' = Some 5" by (simp add: py_int_def int_space_def code_def is_digit_def)
  ultimately show ?thesis by (simp add: start_ticks_ok_def ex_got_simps)
qed

lemma ex_strings: "st \<noteq> [] \<Longrightarrow> required_strings (ex_event st) ex_entry_point ex_host_process"
proof -
  assume "st \<noteq> []"
  moreover have "ex_hash \<noteq> []" by (simp add: ex_hash_def)
  ultimately show ?thesis by (simp add: required_strings_def ex_got_simps non_empty_str_def)
qed

lemma ex_integers: "required_integers (ex_event st) ex_host_process"
  by (simp add: required_integers_def ex_got_simps non_neg_int_def)

lemma ex_kind: "kind_ok sha (ex_event st) process"
  by (simp add: kind_ok_def loader_ok_def ex_got)

lemma ex_assignment: "assignment_check ex_host_process = Inr ()"
  by (simp add: assignment_check_def ex_got_simps member_of_def)

lemma ex_bound: "binding_check (ex_event st) = Inr ()"
  by (simp add: binding_check_def ex_got member_of_def null_or_string_def non_empty_str_def content_ids_non_empty)

lemma ex_parts: "host_object (JObj ex_entry_point) [[''group'', ''name'', ''value'']] = Inr ex_entry_point"
      "host_object (JObj ex_host_process) [legacy_process_fields, ''assignment_source'' # legacy_process_fields] = Inr ex_host_process"
proof -
  have "sort (''assignment_source'' # legacy_process_fields) = map fst ex_host_process"
    by (simp add: ex_host_process_def legacy_process_fields_def)
  then have "set (map fst ex_host_process) = set (''assignment_source'' # legacy_process_fields)" by (metis set_sort)
  then show "host_object (JObj ex_host_process) [legacy_process_fields, ''assignment_source'' # legacy_process_fields] = Inr ex_host_process"
    by (simp add: host_object_def)
  show "host_object (JObj ex_entry_point) [[''group'', ''name'', ''value'']] = Inr ex_entry_point"
    by (simp add: host_object_def ex_entry_point_def)
qed

lemma ex_event_parsed:
  assumes "st \<noteq> []"
  shows "parse_host_event host_digest (ex_raw st) = Inr (ex_event st)"
proof -
  have raw: "parse_strict (ex_raw st) = Inr (ex_event st)"
    unfolding ex_raw_def parse_strict_canonical [OF ex_event_wf] ex_event_sorted ..
  have member: "member_of (JStr ''invoked'') host_events = Inr True"
      "member_of (JStr ''loader_lifecycle'') observation_kinds = Inr True"
    by (simp_all add: member_of_def host_events_def observation_kinds_def)
  have simple: "occurrence_ok JNull" "invocation_seq_ok JNull" "dispatch_id_ok JNull" "\<not> 1 < (1 :: int)"
    by (simp_all add: occurrence_ok_def invocation_seq_ok_def dispatch_id_ok_def)
  show ?thesis
    unfolding parse_host_event_def raw
    by (simp only: sum.case ebind_simps check_simps ex_event_keys ex_got member ex_parts ex_strings [OF assms] ex_integers ex_kind
      ex_assignment ex_bound ex_start simple host_digest_def json.case less_irrefl simp_thms)
qed

lemma host_digests: "is_digest (''sha256:'' @ host_digest raw)" "is_digest (''sha256:'' @ ex_hash)"
  by (simp_all add: is_digest_def host_digest_def ex_hash_def code_def list_all_iff)

lemma ex_translated:
  assumes "st \<noteq> []"
  shows "translate_invocation host_digest (ex_raw st) ex_plan ''l1'' 1 ex_host_binding ''host'' ''k1'' ''n1'' 5 65 =
     Inr \<lparr>hr_raw = (ex_raw st), hr_event = (ex_event st), hr_statement =
       invocation_statement host_digest (ex_raw st) ex_plan ''l1'' 1 ex_host_binding ''host'' ''k1'' ''n1'' 5 65 (ex_event st) ex_host_process ex_plugin\<rparr>"
proof -
  have "find (\<lambda>item. plugin_id host_digest item = eb_plugin_id ex_host_binding) (pl_plugins ex_plan) = Some ex_plugin"
    by (simp add: ex_host_binding_def ex_plan_def)
  then show ?thesis
    unfolding translate_invocation_def ex_event_parsed [OF assms] ebind_simps Let_def ex_got dict_at_def json.case
    by (simp add: ex_got_parts ex_host_binding_def)
qed

theorem host_event_id_binds_witness:
  "parse_host_event host_digest (ex_raw ''x'') = Inr (ex_event ''x'') \<and> parse_host_event host_digest (ex_raw ''y'') = Inr (ex_event ''y'')
   \<and> got (ex_event ''x'') ''identity_status'' \<noteq> got (ex_event ''y'') ''identity_status''
   \<and> map_option jsort (map_of (ex_event ''x'') ''process'') = map_option jsort (map_of (ex_event ''y'') ''process'')"
proof -
  have parsed: "parse_host_event host_digest (ex_raw ''x'') = Inr (ex_event ''x'')"
      "parse_host_event host_digest (ex_raw ''y'') = Inr (ex_event ''y'')" by (rule ex_event_parsed, simp)+
  have "event_bytes (ex_event ''x'') = event_bytes (ex_event ''y'')"
    unfolding event_bytes_def event_material_def ex_got ..
  moreover have "got (ex_event ''x'') ''event_id'' = got (ex_event ''y'') ''event_id''" unfolding ex_got ..
  ultimately have "map_option jsort (map_of (ex_event ''x'') ''process'') = map_option jsort (map_of (ex_event ''y'') ''process'')"
    using host_event_id_binds [OF parsed] by auto
  then show ?thesis using parsed by (simp only: ex_got) simp
qed

theorem translated_invocation_witness:
  "\<exists>r env. translate_invocation host_digest (ex_raw ''x'') ex_plan ''l1'' 1 ex_host_binding ''host'' ''k1'' ''n1'' 5 65 = Inr r
     \<and> att_sign ex_lib (hr_statement r) ''key'' = Inr env \<and> sm_observed_at (hr_statement r) = 5
     \<and> got (hr_event r) ''launch_id'' = JStr ''l1''"
proof -
  have ex_status: "''x'' \<noteq> []" by simp
  have lib: "jcs_ok ex_lib" by (simp add: jcs_ok_def ex_lib_def)
  have plugins: "list_all (\<lambda>q. is_digest (''sha256:'' @ pi_artifact_sha256 q)) (pl_plugins ex_plan)"
    using host_digests by (simp add: ex_plan_def ex_plugin_def)
  have observed: "sm_observed_at (invocation_statement host_digest (ex_raw ''x'') ex_plan ''l1'' 1 ex_host_binding ''host'' ''k1'' ''n1'' 5 65
      (ex_event ''x'') ex_host_process ex_plugin) = 5"
    by (simp add: invocation_statement_def ex_got int_of_def)
  note t = translated_invocation [OF ex_translated [of "''x''", OF ex_status] lib host_digests(1) plugins, of "''key''", unfolded Let_def host_receipt.select_convs]
  have "pm_ordinal (sm_process (invocation_statement host_digest (ex_raw ''x'') ex_plan ''l1'' 1 ex_host_binding ''host'' ''k1'' ''n1'' 5 65
      (ex_event ''x'') ex_host_process ex_plugin)) = 0"
    by (simp add: invocation_statement_def ex_got_parts int_of_def)
  with t have "\<exists>env. att_sign ex_lib (invocation_statement host_digest (ex_raw ''x'') ex_plan ''l1'' 1 ex_host_binding ''host'' ''k1'' ''n1'' 5 65
      (ex_event ''x'') ex_host_process ex_plugin) ''key'' = Inr env"
    by (elim conjE exE) (simp add: ex_got ex_host_binding_def)
  then show ?thesis using ex_translated [of "''x''", OF ex_status] observed ex_got(11) [of "''x''"] by (metis host_receipt.select_convs(2,3))
qed

subsection \<open>A value without a hash\<close>

text \<open>A JSON array (or object) as \<open>event\<close> does not give an \<open>AttestationError\<close>: the membership test raises a \<open>TypeError\<close>.\<close>

lemma unhashable_event_type_error:
  assumes "parse_strict raw = Inr ev" and "set (map fst ev) = set host_event_fields"
    and "got ev ''schema'' = JStr host_schema" and "got ev ''event'' = JArr vs"
  shows "parse_host_event sha raw = Inl HostTypeError"
  unfolding parse_host_event_def assms(1) sum.case ebind_simps assms(2-) check_simps simp_thms
  by (simp add: member_of_def)

end
