(* ===== verification/Event_Sink.thy ===== *)
theory Event_Sink
  imports Host_Evidence "HOL-Library.Word"
begin

section \<open>The host event sink (\<^verbatim>\<open>host_event_sink.py\<close>)\<close>

text \<open>
  Journals of host events in a directory: appending, reading under a limit, taking a snapshot, and moving
  a journal into a quarantine directory and back.  The state is the part of the operating system the code
  uses: inodes (files with bytes, directories with entries), what it answers about the paths of the two
  directories, the environment and the user.  Every system call consumes an event of \<open>os_script\<close>:
  it may fail with any \<open>OSError\<close>, a write may be short, and before the call other processes may change the inodes.  An
  empty script is an undisturbed run.  \<open>close\<close> and \<open>fsync\<close> change nothing in the model (a failing \<open>fsync\<close> is an event);
  \<open>flock\<close> is a call that may fail, locks of other processes are not tracked.
\<close>

type_synonym file_key = "int \<times> int"

datatype os_exn = OtherOSError | FileNotFoundError | FileExistsError | BlockingIOError

datatype sink_exn =
    HostEventSinkError string
  | OSError os_exn
  | HostEventError host_exn

record inode =
  nd_mode :: "32 word"
  nd_uid :: int
  nd_data :: string
  nd_entries :: "(string \<times> file_key) list"

record root_view =
  rv_absolute :: bool
  rv_symlink :: bool
  rv_resolved :: "string option"
  rv_open :: "file_key option"

record os_event =
  oe_fault :: "os_exn option"
  oe_count :: "nat option"
  oe_other :: "(file_key \<Rightarrow> inode) \<Rightarrow> file_key \<Rightarrow> inode"

record host_os =
  os_root :: "string \<Rightarrow> root_view"
  os_node :: "file_key \<Rightarrow> inode"
  os_next :: int
  os_env :: "string \<Rightarrow> string option"
  os_euid :: int
  os_script :: "os_event list"

type_synonym 'a sink = "(sink_exn, host_os, 'a) py"

record journal_event =
  je_journal :: string
  je_line_number :: nat
  je_raw :: string
  je_event :: "(string \<times> json) list"

record quarantined_journal =
  qj_journal :: string
  qj_raw :: string
  qj_device :: int
  qj_inode :: int

subsection \<open>System calls\<close>

definition syscall :: "(nat option \<Rightarrow> host_os \<Rightarrow> (os_exn + 'a) \<times> host_os) \<Rightarrow> 'a sink" where
  "syscall f w =
     (let (count, fault, w') = (case os_script w of
            [] \<Rightarrow> (None, None, w)
          | e # es \<Rightarrow> (oe_count e, oe_fault e, w\<lparr>os_script := es, os_node := oe_other e (os_node w)\<rparr>))
      in case fault of
           Some x \<Rightarrow> (Inl (OSError x), w')
         | None \<Rightarrow> (case f count w' of (Inl x, w'') \<Rightarrow> (Inl (OSError x), w'') | (Inr v, w'') \<Rightarrow> (Inr v, w'')))"

definition ask :: "(host_os \<Rightarrow> os_exn + 'a) \<Rightarrow> 'a sink" where
  "ask f = syscall (\<lambda>_ w. (f w, w))"

definition update_node :: "file_key \<Rightarrow> (inode \<Rightarrow> inode) \<Rightarrow> host_os \<Rightarrow> host_os" where
  "update_node k f w = w\<lparr>os_node := (os_node w)(k := f (os_node w k))\<rparr>"

definition lookup :: "host_os \<Rightarrow> file_key \<Rightarrow> string \<Rightarrow> file_key option" where
  "lookup w dir name = map_of (nd_entries (os_node w dir)) name"

text \<open>\<open>S_ISLNK\<close>, \<open>S_ISREG\<close>, \<open>S_ISDIR\<close> and \<open>S_IMODE\<close> of a mode word.\<close>

definition is_lnk :: "32 word \<Rightarrow> bool" where "is_lnk m \<longleftrightarrow> and m 61440 = 40960"

definition is_reg :: "32 word \<Rightarrow> bool" where "is_reg m \<longleftrightarrow> and m 61440 = 32768"

definition is_dir :: "32 word \<Rightarrow> bool" where "is_dir m \<longleftrightarrow> and m 61440 = 16384"

definition imode :: "32 word \<Rightarrow> 32 word" where "imode m = and m 4095"

definition regular_0600 :: "32 word" where "regular_0600 = 33152"

text \<open>\<open>os.open(name, ..., dir_fd=dir)\<close> with \<open>O_NOFOLLOW\<close>, without and with \<open>O_CREAT | O_EXCL\<close>, and with \<open>O_CREAT\<close>.\<close>

definition sys_open :: "file_key \<Rightarrow> string \<Rightarrow> file_key sink" where
  "sys_open dir name = ask (\<lambda>w. case lookup w dir name of
     None \<Rightarrow> Inl FileNotFoundError
   | Some k \<Rightarrow> if is_lnk (nd_mode (os_node w k)) then Inl OtherOSError else Inr k)"

definition create_file :: "file_key \<Rightarrow> string \<Rightarrow> host_os \<Rightarrow> file_key \<times> host_os" where
  "create_file dir name w =
     (let k = (fst dir, os_next w);
          file = \<lparr>nd_mode = regular_0600, nd_uid = os_euid w, nd_data = [], nd_entries = []\<rparr>
      in (k, update_node dir (\<lambda>d. d\<lparr>nd_entries := nd_entries d @ [(name, k)]\<rparr>)
               (w\<lparr>os_node := (os_node w)(k := file), os_next := os_next w + 1\<rparr>)))"

definition sys_create_excl :: "file_key \<Rightarrow> string \<Rightarrow> file_key sink" where
  "sys_create_excl dir name = syscall (\<lambda>_ w. case lookup w dir name of
     Some _ \<Rightarrow> (Inl FileExistsError, w)
   | None \<Rightarrow> (let (k, w') = create_file dir name w in (Inr k, w')))"

definition sys_create :: "file_key \<Rightarrow> string \<Rightarrow> file_key sink" where
  "sys_create dir name = syscall (\<lambda>_ w. case lookup w dir name of
     Some k \<Rightarrow> (if is_lnk (nd_mode (os_node w k)) then Inl OtherOSError else Inr k, w)
   | None \<Rightarrow> (let (k, w') = create_file dir name w in (Inr k, w')))"

definition sys_fstat :: "file_key \<Rightarrow> inode sink" where
  "sys_fstat k = ask (\<lambda>w. Inr (os_node w k))"

definition sys_stat :: "file_key \<Rightarrow> string \<Rightarrow> (file_key \<times> inode) sink" where
  "sys_stat dir name = ask (\<lambda>w. case lookup w dir name of
     None \<Rightarrow> Inl FileNotFoundError
   | Some k \<Rightarrow> Inr (k, os_node w k))"

definition sys_listdir :: "file_key \<Rightarrow> string list sink" where
  "sys_listdir dir = ask (\<lambda>w. Inr (map fst (nd_entries (os_node w dir))))"

definition sys_read :: "file_key \<Rightarrow> int option \<Rightarrow> string sink" where
  "sys_read k limit = ask (\<lambda>w. Inr (case limit of
     None \<Rightarrow> nd_data (os_node w k) | Some n \<Rightarrow> take (nat n) (nd_data (os_node w k))))"

definition sys_append :: "file_key \<Rightarrow> string \<Rightarrow> nat sink" where
  "sys_append k view = syscall (\<lambda>count w.
     let n = (case count of None \<Rightarrow> length view | Some c \<Rightarrow> min c (length view))
     in (Inr n, update_node k (\<lambda>f. f\<lparr>nd_data := nd_data f @ take n view\<rparr>) w))"

text \<open>\<open>os.fchmod(fd, 0o600)\<close>: the type bits stay.\<close>

definition sys_fchmod_0600 :: "file_key \<Rightarrow> unit sink" where
  "sys_fchmod_0600 k = syscall (\<lambda>_ w. (Inr (), update_node k (\<lambda>f. f\<lparr>nd_mode := or (and (nd_mode f) 61440) 384\<rparr>) w))"

definition sys_fsync :: "file_key \<Rightarrow> unit sink" where
  "sys_fsync k = ask (\<lambda>_. Inr ())"

definition sys_flock :: "file_key \<Rightarrow> unit sink" where
  "sys_flock k = ask (\<lambda>_. Inr ())"

text \<open>\<open>renameat2(..., RENAME_NOREPLACE)\<close>\<close>

definition move_entry :: "file_key \<Rightarrow> string \<Rightarrow> file_key \<Rightarrow> string \<Rightarrow> file_key \<Rightarrow> host_os \<Rightarrow> host_os" where
  "move_entry sdir source ddir destination k w =
     update_node ddir (\<lambda>d. d\<lparr>nd_entries := nd_entries d @ [(destination, k)]\<rparr>)
       (update_node sdir (\<lambda>d. d\<lparr>nd_entries := filter (\<lambda>e. fst e \<noteq> source) (nd_entries d)\<rparr>) w)"

definition rename_noreplace :: "file_key \<Rightarrow> string \<Rightarrow> file_key \<Rightarrow> string \<Rightarrow> unit sink" where
  "rename_noreplace sdir source ddir destination = syscall (\<lambda>_ w.
     case lookup w sdir source of
       None \<Rightarrow> (Inl FileNotFoundError, w)
     | Some k \<Rightarrow> (case lookup w ddir destination of
         Some _ \<Rightarrow> (Inl FileExistsError, w)
       | None \<Rightarrow> (Inr (), move_entry sdir source ddir destination k w)))"

text \<open>\<open>except OSError as exc: raise HostEventSinkError(...) from exc\<close>, and \<open>except FileNotFoundError: pass\<close> around \<open>stat\<close>.\<close>

definition os_to :: "string \<Rightarrow> 'a sink \<Rightarrow> 'a sink" where
  "os_to message m = try_except m (\<lambda>e. case e of OSError _ \<Rightarrow> raise (HostEventSinkError message) | _ \<Rightarrow> raise e)"

definition absent :: "file_key \<Rightarrow> string \<Rightarrow> bool sink" where
  "absent dir name = try_except (andthen (sys_stat dir name) (ret False))
     (\<lambda>e. if e = OSError FileNotFoundError then ret True else raise e)"

subsection \<open>The operations\<close>

definition journal_env :: string where "journal_env = ''ECPA_HOST_EVENT_DIR''"

definition fsync_env :: string where "fsync_env = ''ECPA_HOST_EVENT_FSYNC''"

definition device_env :: string where "device_env = ''ECPA_HOST_EVENT_DEVICE''"

definition inode_env :: string where "inode_env = ''ECPA_HOST_EVENT_INODE''"

definition quarantine_lock :: string where "quarantine_lock = ''.ecpa-quarantine.lock''"

text \<open>\<open>json.dumps\<close> escapes every character beyond ASCII, so that the bytes are the text.\<close>

definition canonical_event :: "(string \<Rightarrow> string) \<Rightarrow> (string \<times> json) list \<Rightarrow> host_exn + string" where
  "canonical_event sha event =
     (let raw = utf8_encode (json_dumps True (JObj event)) in ebind (parse_host_event sha raw) (\<lambda>_. Inr raw))"

definition open_journal_root :: "string \<Rightarrow> file_key option \<Rightarrow> file_key sink" where
  "open_journal_root root expected =
     bind (gets (\<lambda>w. os_root w root)) (\<lambda>view.
     andthen (require (rv_absolute view \<and> \<not> rv_symlink view) (HostEventSinkError ''host event directory must be an existing real path''))
     (bind (os_to ''host event directory is unavailable''
              (ask (\<lambda>w. case rv_resolved (os_root w root) of None \<Rightarrow> Inl OtherOSError | Some r \<Rightarrow> Inr r))) (\<lambda>resolved.
     andthen (require (resolved = root) (HostEventSinkError ''host event directory must be canonical''))
     (bind (os_to ''cannot open host event directory''
              (ask (\<lambda>w. case rv_open (os_root w root) of None \<Rightarrow> Inl OtherOSError | Some k \<Rightarrow> Inr k))) (\<lambda>descriptor.
     bind (os_to ''cannot inspect host event directory'' (sys_fstat descriptor)) (\<lambda>metadata.
     bind (gets os_euid) (\<lambda>euid.
     andthen (require (is_dir (nd_mode metadata) \<and> nd_uid metadata = euid \<and> and (imode (nd_mode metadata)) 18 = 0)
                (HostEventSinkError ''host event directory must be private and owned''))
     (andthen (require (expected = None \<or> expected = Some descriptor)
                (HostEventSinkError ''host event directory identity changed''))
     (ret descriptor)))))))))"

definition expected_directory_identity :: "file_key option sink" where
  "expected_directory_identity =
     bind (gets (\<lambda>w. (os_env w device_env, os_env w inode_env))) (\<lambda>(device, inode).
     if device = None \<and> inode = None then ret None
     else case (Option.bind device py_int, Option.bind inode py_int) of
       (Some d, Some i) \<Rightarrow> if d < 0 \<or> i < 0 then raise (HostEventSinkError ''host event directory identity is invalid'')
                           else ret (Some (d, i))
     | _ \<Rightarrow> raise (HostEventSinkError ''host event directory identity is invalid''))"

definition configured_journal_root :: "file_key sink" where
  "configured_journal_root =
     bind (gets (\<lambda>w. os_env w journal_env)) (\<lambda>configured.
     if configured = None \<or> configured = Some [] then raise (HostEventSinkError ''ECPA_HOST_EVENT_DIR is required'')
     else bind expected_directory_identity (\<lambda>expected. open_journal_root (the configured) expected))"

definition journal_name :: "(string \<Rightarrow> string) \<Rightarrow> (string \<times> json) list \<Rightarrow> string" where
  "journal_name sha event =
     (let process = dict_at (got event ''process'') in
      sha (material_bytes [got event ''plan_id'', got event ''launch_id'', got process ''host'', got process ''role'',
        got process ''ordinal'', got process ''pid'', got process ''start_identity'', got process ''process_epoch'']) @ ''.jsonl'')"

definition quarantine_fence_name :: "(string \<Rightarrow> string) \<Rightarrow> string \<Rightarrow> string" where
  "quarantine_fence_name sha journal = ''.ecpa-quarantine-'' @ sha (utf8_encode journal) @ ''.fence''"

definition acquire_quarantine_lock :: "file_key \<Rightarrow> file_key sink" where
  "acquire_quarantine_lock directory =
     try_except
       (bind (sys_create directory quarantine_lock) (\<lambda>descriptor.
        bind (sys_fstat descriptor) (\<lambda>metadata.
        bind (gets os_euid) (\<lambda>euid.
        andthen (require (is_reg (nd_mode metadata) \<and> nd_uid metadata = euid \<and> imode (nd_mode metadata) = 384)
                   (HostEventSinkError ''host event quarantine lock is unsafe''))
        (andthen (sys_flock descriptor) (ret descriptor))))))
       (\<lambda>e. case e of
          OSError BlockingIOError \<Rightarrow> raise (HostEventSinkError ''host event journal is fenced for quarantine'')
        | OSError _ \<Rightarrow> raise (HostEventSinkError ''cannot acquire host event quarantine lock'')
        | _ \<Rightarrow> raise e)"

text \<open>\<open>while view: written = os.write(...)\<close>\<close>

function write_all :: "file_key \<Rightarrow> string \<Rightarrow> unit sink" where
  "write_all k view =
     (if view = [] then ret ()
      else bind (sys_append k view) (\<lambda>written.
        if written = 0 then raise (HostEventSinkError ''host event journal append made no progress'')
        else write_all k (drop written view)))"
  by pat_completeness auto
termination
  by (relation "measure (\<lambda>(k, view). length view)") auto

declare write_all.simps [simp del]

definition open_for_append :: "file_key \<Rightarrow> string \<Rightarrow> (file_key \<times> bool) sink" where
  "open_for_append directory name =
     try_except (bind (sys_create_excl directory name) (\<lambda>k. ret (k, True)))
       (\<lambda>e. case e of
          OSError FileExistsError \<Rightarrow> bind (os_to ''cannot open host event journal'' (sys_open directory name)) (\<lambda>k. ret (k, False))
        | OSError _ \<Rightarrow> raise (HostEventSinkError ''cannot open host event journal'')
        | _ \<Rightarrow> raise e)"

definition append_to :: "file_key \<Rightarrow> string \<Rightarrow> bool \<Rightarrow> unit sink" where
  "append_to descriptor raw sync = os_to ''cannot write or sync host event journal''
     (bind (sys_fstat descriptor) (\<lambda>metadata.
      bind (gets os_euid) (\<lambda>euid.
      andthen (require (is_reg (nd_mode metadata) \<and> nd_uid metadata = euid)
                 (HostEventSinkError ''host event journal is not an owned regular file''))
      (andthen
        (if imode (nd_mode metadata) \<noteq> 384
         then andthen (sys_fchmod_0600 descriptor) (bind (sys_fstat descriptor) (\<lambda>now.
                require (imode (nd_mode now) = 384) (HostEventSinkError ''host event journal mode is not 0600'')))
         else ret ())
      (andthen (write_all descriptor raw)
        (if sync then sys_fsync descriptor else ret ()))))))"

definition append_event :: "(string \<Rightarrow> string) \<Rightarrow> (string \<times> json) list \<Rightarrow> unit sink" where
  "append_event sha event =
     bind (lift_result (case canonical_event sha event of Inl x \<Rightarrow> Inl (HostEventError x) | Inr b \<Rightarrow> Inr (b @ [CHR 10]))) (\<lambda>raw.
     bind configured_journal_root (\<lambda>directory.
     andthen (acquire_quarantine_lock directory)
     (bind (gets (\<lambda>w. case os_env w fsync_env of None \<Rightarrow> ''0'' | Some v \<Rightarrow> v)) (\<lambda>fsync.
     andthen (require (fsync \<in> set [''0'', ''1'']) (HostEventSinkError ''ECPA_HOST_EVENT_FSYNC must be 0 or 1''))
     (let name = journal_name sha event in
      bind (os_to ''cannot inspect journal quarantine fence'' (absent directory (quarantine_fence_name sha name))) (\<lambda>free.
      andthen (require free (HostEventSinkError ''host event journal is durably quarantined''))
      (bind (open_for_append directory name) (\<lambda>(descriptor, created).
       andthen (append_to descriptor raw (fsync = ''1''))
       (if fsync = ''1'' \<and> created then os_to ''cannot sync host event directory'' (sys_fsync directory) else ret ())))))))))"

text \<open>\<open>bytes.splitlines()\<close>: line feed, carriage return, or both.\<close>

function split_from :: "string \<Rightarrow> string \<Rightarrow> string list" where
  "split_from line s = (case s of
     [] \<Rightarrow> if line = [] then [] else [rev line]
   | c # r \<Rightarrow>
       if c = CHR 10 then rev line # split_from [] r
       else if c = CHR 13 then rev line # split_from [] (if take 1 r = [CHR 10] then tl r else r)
       else split_from (c # line) r)"
  by pat_completeness auto
termination
  by (relation "measure (\<lambda>(line, s). length s)") auto

declare split_from.simps [simp del]

definition splitlines :: "string \<Rightarrow> string list" where
  "splitlines s = split_from [] s"

definition ends_with :: "string \<Rightarrow> string \<Rightarrow> bool" where
  "ends_with s t \<longleftrightarrow> suffix t s"

text \<open>The lines of one journal, with the event ids seen so far.\<close>

fun read_lines ::
  "(string \<Rightarrow> string) \<Rightarrow> string \<Rightarrow> nat \<Rightarrow> string list \<Rightarrow> json list \<Rightarrow> sink_exn + (journal_event list \<times> json list)" where
  "read_lines sha name n [] ids = Inr ([], ids)"
| "read_lines sha name n (raw # lines) ids =
     (if raw = [] then Inl (HostEventSinkError ''host event journal contains an empty record'')
      else ebind (case parse_host_event sha raw of Inl x \<Rightarrow> Inl (HostEventError x) | Inr ev \<Rightarrow> Inr ev) (\<lambda>ev.
        if got ev ''event_id'' \<in> set ids then Inl (HostEventSinkError ''duplicate host event id across journals'')
        else ebind (read_lines sha name (Suc n) lines (ids @ [got ev ''event_id''])) (\<lambda>(records, ids').
          Inr (\<lparr>je_journal = name, je_line_number = n, je_raw = raw, je_event = ev\<rparr> # records, ids'))))"

definition read_journal :: "file_key \<Rightarrow> string \<Rightarrow> int option \<Rightarrow> int \<Rightarrow> (string \<times> int) sink" where
  "read_journal directory name limit total_bytes =
     bind (os_to ''cannot open host event journal'' (sys_open directory name)) (\<lambda>descriptor.
     bind (sys_fstat descriptor) (\<lambda>metadata.
     bind (gets os_euid) (\<lambda>euid.
     andthen (require (is_reg (nd_mode metadata) \<and> nd_uid metadata = euid)
                (HostEventSinkError ''host event journal is not an owned regular file''))
     (case limit of
        None \<Rightarrow> bind (sys_read descriptor None) (\<lambda>bytes. ret (bytes, total_bytes))
      | Some max_total \<Rightarrow>
          bind (sys_read descriptor (Some (max_total - total_bytes + 1))) (\<lambda>bytes.
          andthen (require (\<not> int (length bytes) > max_total - total_bytes)
                     (HostEventSinkError ''host event journals exceed the read limit''))
          (ret (bytes, total_bytes + int (length bytes))))))))"

fun read_journals ::
  "(string \<Rightarrow> string) \<Rightarrow> file_key \<Rightarrow> int option \<Rightarrow> string list \<Rightarrow> int \<Rightarrow> json list \<Rightarrow> journal_event list sink" where
  "read_journals sha directory limit [] total_bytes ids = ret []"
| "read_journals sha directory limit (name # names) total_bytes ids =
     (if \<not> ends_with name ''.jsonl'' then read_journals sha directory limit names total_bytes ids
      else
        bind (read_journal directory name limit total_bytes) (\<lambda>(bytes, total_bytes').
        andthen (require (bytes = [] \<or> ends_with bytes [CHR 10])
                   (HostEventSinkError ''host event journal has a partial final record''))
        (bind (lift_result (read_lines sha name 1 (splitlines bytes) ids)) (\<lambda>(records, ids').
         bind (read_journals sha directory limit names total_bytes' ids') (\<lambda>rest. ret (records @ rest))))))"

definition read_events ::
  "(string \<Rightarrow> string) \<Rightarrow> string \<Rightarrow> file_key option \<Rightarrow> int option \<Rightarrow> journal_event list sink" where
  "read_events sha root expected limit =
     andthen (require (case limit of None \<Rightarrow> True | Some n \<Rightarrow> 0 < n) (HostEventSinkError ''host event read limit must be a positive integer''))
     (bind (gets (\<lambda>w. os_env w journal_env)) (\<lambda>configured.
      bind (if expected = None \<and> configured = Some root then expected_directory_identity else ret expected) (\<lambda>expected'.
      bind (open_journal_root root expected') (\<lambda>directory.
      bind (sys_listdir directory) (\<lambda>names.
      read_journals sha directory limit (sort names) 0 [])))))"

subsection \<open>Snapshots and quarantine\<close>

definition journal_request_ok :: "string \<Rightarrow> int \<Rightarrow> bool" where
  "journal_request_ok journal max_bytes \<longleftrightarrow> CHR ''/'' \<notin> set journal \<and> ends_with journal ''.jsonl'' \<and> 0 < max_bytes"

text \<open>Opening, inspecting and reading one journal, with the messages of the caller.\<close>

definition read_whole :: "string \<Rightarrow> string \<Rightarrow> file_key \<Rightarrow> string \<Rightarrow> int \<Rightarrow> (file_key \<times> inode \<times> string) sink" where
  "read_whole purpose subject directory journal max_bytes =
     bind (os_to (''cannot open journal for '' @ purpose) (sys_open directory journal)) (\<lambda>descriptor.
     bind (sys_fstat descriptor) (\<lambda>metadata.
     bind (gets os_euid) (\<lambda>euid.
     andthen (require (is_reg (nd_mode metadata) \<and> nd_uid metadata = euid)
                (HostEventSinkError (subject @ '' source is not an owned regular file'')))
     (bind (sys_read descriptor (Some (max_bytes + 1))) (\<lambda>raw.
     andthen (require (\<not> int (length raw) > max_bytes) (HostEventSinkError (subject @ '' source exceeds the limit'')))
     (andthen (require (raw = [] \<or> ends_with raw [CHR 10]) (HostEventSinkError (subject @ '' source is partial'')))
     (ret (descriptor, metadata, raw))))))))"

definition still_there :: "string \<Rightarrow> file_key \<Rightarrow> string \<Rightarrow> file_key \<Rightarrow> inode \<Rightarrow> unit sink" where
  "still_there subject directory journal k metadata =
     bind (os_to (subject @ '' source disappeared'') (sys_stat directory journal)) (\<lambda>(k', now).
     require (k' = k \<and> length (nd_data now) = length (nd_data metadata))
       (HostEventSinkError (subject @ '' source identity changed'')))"

definition snapshot_journal :: "string \<Rightarrow> string \<Rightarrow> file_key \<Rightarrow> int \<Rightarrow> quarantined_journal sink" where
  "snapshot_journal root journal expected max_bytes =
     andthen (require (journal_request_ok journal max_bytes) (HostEventSinkError ''journal snapshot request is invalid''))
     (bind (open_journal_root root (Some expected)) (\<lambda>directory.
      bind (read_whole ''snapshot'' ''journal snapshot'' directory journal max_bytes) (\<lambda>(k, metadata, raw).
      andthen (still_there ''journal snapshot'' directory journal k metadata)
      (ret \<lparr>qj_journal = journal, qj_raw = raw, qj_device = fst k, qj_inode = snd k\<rparr>))))"

text \<open>The part after the checks: the move, and the validation of what was moved.\<close>

definition validate_moved :: "file_key \<Rightarrow> file_key \<Rightarrow> string \<Rightarrow> file_key \<Rightarrow> string \<Rightarrow> int \<Rightarrow> unit sink" where
  "validate_moved source target journal k raw max_bytes =
     andthen (sys_fsync source) (andthen (sys_fsync target)
     (bind (sys_stat target journal) (\<lambda>(k', _).
      andthen (require (k' = k) (HostEventSinkError ''quarantined journal identity changed''))
      (bind (os_to ''cannot open quarantined journal'' (sys_open target journal)) (\<lambda>descriptor.
       bind (sys_fstat descriptor) (\<lambda>_.
       andthen (require (descriptor = k) (HostEventSinkError ''quarantined journal changed before validation''))
       (bind (sys_read descriptor (Some (max_bytes + 1))) (\<lambda>retained.
        andthen (require (retained = raw) (HostEventSinkError ''quarantined journal bytes changed''))
        (bind (absent source journal) (\<lambda>gone.
         require gone (HostEventSinkError ''quarantined journal remains visible'')))))))))))"

text \<open>The handler of \<open>except BaseException\<close> when the move was made.\<close>

definition undo_move :: "file_key \<Rightarrow> file_key \<Rightarrow> string \<Rightarrow> sink_exn \<Rightarrow> 'a sink" where
  "undo_move source target journal original =
     andthen
       (bind (os_to ''journal quarantine failed and rollback target is unsafe'' (absent source journal)) (\<lambda>free.
        if free
        then os_to ''journal quarantine failed and rollback failed''
               (andthen (rename_noreplace target journal source journal)
                 (andthen (sys_fsync source) (sys_fsync target)))
        else raise (HostEventSinkError ''journal quarantine failed and rollback target exists'')))
     (raise original)"

definition quarantine_checks ::
  "file_key \<Rightarrow> file_key \<Rightarrow> bool \<Rightarrow> string \<Rightarrow> int \<Rightarrow> quarantined_journal option \<Rightarrow> (file_key \<times> string) sink" where
  "quarantine_checks source target same_path journal max_bytes expected_journal =
     andthen (sys_fstat source) (andthen (sys_fstat target)
     (andthen (require (\<not> same_path) (HostEventSinkError ''journal quarantine must use another directory''))
     (andthen (require (fst source = fst target) (HostEventSinkError ''journal quarantine must share a filesystem''))
     (bind (os_to ''cannot inspect journal quarantine target'' (absent target journal)) (\<lambda>free.
      andthen (require free (HostEventSinkError ''journal quarantine target already exists''))
      (bind (read_whole ''quarantine'' ''journal quarantine'' source journal max_bytes) (\<lambda>(k, metadata, raw).
       andthen (require (case expected_journal of
                   None \<Rightarrow> True
                 | Some q \<Rightarrow> q = \<lparr>qj_journal = journal, qj_raw = raw, qj_device = fst k, qj_inode = snd k\<rparr>)
                  (HostEventSinkError ''journal quarantine source differs from the expected receipt''))
       (andthen (still_there ''journal quarantine'' source journal k metadata)
       (ret (k, raw))))))))))"

definition quarantine_journal ::
  "string \<Rightarrow> string \<Rightarrow> string \<Rightarrow> file_key \<Rightarrow> file_key \<Rightarrow> int \<Rightarrow> quarantined_journal option \<Rightarrow> quarantined_journal sink" where
  "quarantine_journal root quarantine_root journal expected_root expected_quarantine max_bytes expected_journal =
     andthen (require (journal_request_ok journal max_bytes) (HostEventSinkError ''journal quarantine request is invalid''))
     (bind (open_journal_root root (Some expected_root)) (\<lambda>source.
      bind (open_journal_root quarantine_root (Some expected_quarantine)) (\<lambda>target.
      bind (quarantine_checks source target (root = quarantine_root) journal max_bytes expected_journal) (\<lambda>(k, raw).
      andthen (os_to ''cannot atomically quarantine journal'' (rename_noreplace source journal target journal))
      (andthen (try_except (os_to ''cannot atomically quarantine journal'' (validate_moved source target journal k raw max_bytes))
                 (undo_move source target journal))
      (ret \<lparr>qj_journal = journal, qj_raw = raw, qj_device = fst k, qj_inode = snd k\<rparr>))))))"

definition restore_quarantined_journal ::
  "string \<Rightarrow> string \<Rightarrow> quarantined_journal \<Rightarrow> file_key \<Rightarrow> file_key \<Rightarrow> int \<Rightarrow> unit sink" where
  "restore_quarantined_journal root quarantine_root quarantined expected_root expected_quarantine max_bytes =
     bind (quarantine_journal quarantine_root root (qj_journal quarantined) expected_quarantine expected_root max_bytes
             (Some quarantined)) (\<lambda>restored.
     require (qj_raw restored = qj_raw quarantined \<and> qj_device restored = qj_device quarantined
                \<and> qj_inode restored = qj_inode quarantined)
       (HostEventSinkError ''restored journal differs from quarantine receipt''))"

end
