(* ===== verification/Event_Sink_Safety.thy ===== *)
theory Event_Sink_Safety
  imports Event_Sink
begin

section \<open>Journals: limits, quarantine and restoration\<close>

text \<open>
  What reading returns under any interference and any failing call; that a quarantine leaves the
  journal in exactly one of the two directories whatever call fails; and that restoring an
  undisturbed quarantine gives back the directories.
\<close>

subsection \<open>Lines\<close>

definition line_cost :: "string list \<Rightarrow> nat" where
  "line_cost ls = sum_list (map (\<lambda>l. Suc (length l)) ls)"

lemma line_cost_simps [simp]: "line_cost [] = 0" "line_cost (l # ls) = Suc (length l) + line_cost ls"
  by (simp_all add: line_cost_def)

lemma split_from_cost:
  "line_cost (split_from line s) \<le> length line + length s +
     (if s = [] then (if line = [] then 0 else 1) else if last s = CHR 10 then 0 else 1)"
proof (induction line s rule: split_from.induct)
  case (1 line s)
  show ?case
  proof (cases s)
    case Nil
    then show ?thesis by (simp add: split_from.simps [of line])
  next
    case (Cons c r)
    consider "c = CHR 10" | "c = CHR 13" "take 1 r = [CHR 10]" | "c = CHR 13" "take 1 r \<noteq> [CHR 10]" | "c \<noteq> CHR 10" "c \<noteq> CHR 13" by blast
    then show ?thesis
    proof cases
      case 1
      then show ?thesis using "1.IH"(1) [OF Cons] Cons by (subst split_from.simps) (auto split: if_splits)
    next
      case 2
      then obtain t where "r = CHR 10 # t" by (cases r) auto
      then show ?thesis using "1.IH"(2) [OF Cons] Cons 2 by (subst split_from.simps) (auto split: if_splits)
    next
      case 3
      then show ?thesis using "1.IH"(2) [OF Cons] Cons by (subst split_from.simps) (auto split: if_splits)
    next
      case 4
      then show ?thesis using "1.IH"(3) [OF Cons] Cons by (subst split_from.simps) (auto split: if_splits)
    qed
  qed
qed

lemma splitlines_cost: "s = [] \<or> ends_with s [CHR 10] \<Longrightarrow> line_cost (splitlines s) \<le> length s"
  using split_from_cost [of "[]" s] by (auto simp: splitlines_def ends_with_def suffix_def split: if_splits)

subsection \<open>Reading\<close>

definition record_ok :: "(string \<Rightarrow> string) \<Rightarrow> journal_event \<Rightarrow> bool" where
  "record_ok sha r \<longleftrightarrow> je_raw r \<noteq> [] \<and> parse_host_event sha (je_raw r) = Inr (je_event r)"

abbreviation record_id :: "journal_event \<Rightarrow> json" where
  "record_id r \<equiv> got (je_event r) ''event_id''"

lemma read_lines_Inr:
  assumes "read_lines sha name n lines ids = Inr (records, ids')" and "distinct ids"
  shows "ids' = ids @ map record_id records \<and> distinct ids' \<and> list_all (record_ok sha) records
     \<and> map je_raw records = lines \<and> list_all (\<lambda>r. je_journal r = name) records"
  using assms
proof (induction lines arbitrary: n ids records ids')
  case (Cons raw lines)
  obtain ev rest where parts: "raw \<noteq> []" "parse_host_event sha raw = Inr ev" "got ev ''event_id'' \<notin> set ids"
      "read_lines sha name (Suc n) lines (ids @ [got ev ''event_id'']) = Inr (rest, ids')"
      "records = \<lparr>je_journal = name, je_line_number = n, je_raw = raw, je_event = ev\<rparr> # rest"
    using Cons.prems(1) by (auto simp: ebind_Inr_iff split: if_splits sum.splits)
  have "distinct (ids @ [got ev ''event_id''])" using Cons.prems(2) parts(3) by simp
  from Cons.IH [OF parts(4) this] parts(1,2,5) show ?case
    by (elim conjE, intro conjI) (simp_all add: record_ok_def del: distinct_append)
qed simp

lemma read_journal_bound:
  assumes "read_journal directory name (Some n) used w = (Inr (bytes, used'), w')"
  shows "used' = used + int (length bytes) \<and> used' \<le> n"
  using assms by (auto simp: read_journal_def run_iffs ret_def)

lemma read_journals_step:
  assumes "read_journals sha directory limit (name # names) used ids w = (Inr records, w')" and "ends_with name ''.jsonl''"
  obtains bytes used' v rs ids' rest where "read_journal directory name limit used w = (Inr (bytes, used'), v)"
    "bytes = [] \<or> ends_with bytes [CHR 10]" "read_lines sha name 1 (splitlines bytes) ids = Inr (rs, ids')"
    "read_journals sha directory limit names used' ids' v = (Inr rest, w')" "records = rs @ rest"
  using assms that by (auto simp: run_iffs ret_def lift_result_def)

lemma line_cost_append [simp]: "line_cost (xs @ ys) = line_cost xs + line_cost ys"
  by (simp add: line_cost_def)

lemma read_journals_Inr:
  assumes "read_journals sha directory limit names used ids w = (Inr records, w')" and "distinct ids"
  shows "distinct (ids @ map record_id records) \<and> list_all (record_ok sha) records
    \<and> (\<forall>n. limit = Some n \<longrightarrow> used \<le> n \<longrightarrow> used + int (line_cost (map je_raw records)) \<le> n)"
  using assms
proof (induction names arbitrary: used ids w records)
  case Nil
  then show ?case by (simp add: ret_def)
next
  case (Cons name names)
  show ?case
  proof (cases "ends_with name ''.jsonl''")
    case False
    then show ?thesis using Cons.IH [of used ids w records] Cons.prems by simp
  next
    case True
    obtain bytes used' v rs ids' rest where steps: "read_journal directory name limit used w = (Inr (bytes, used'), v)"
      "bytes = [] \<or> ends_with bytes [CHR 10]" "read_lines sha name 1 (splitlines bytes) ids = Inr (rs, ids')"
      "read_journals sha directory limit names used' ids' v = (Inr rest, w')" "records = rs @ rest"
      using Cons.prems(1) True by (rule read_journals_step)
    note lines = read_lines_Inr [OF steps(3) Cons.prems(2)]
    have rest: "distinct (ids' @ map record_id rest)" "list_all (record_ok sha) rest"
        "\<forall>n. limit = Some n \<longrightarrow> used' \<le> n \<longrightarrow> used' + int (line_cost (map je_raw rest)) \<le> n"
      using Cons.IH [OF steps(4)] lines by blast+
    have ids: "ids' = ids @ map record_id rs" and ok: "list_all (record_ok sha) rs" and raws: "map je_raw rs = splitlines bytes"
      using lines by blast+
    have "used + int (line_cost (map je_raw records)) \<le> n" if "limit = Some n" for n
    proof -
      have "used' = used + int (length bytes) \<and> used' \<le> n" using steps(1) that read_journal_bound by metis
      then show ?thesis using rest(3) that splitlines_cost [OF steps(2)] raws steps(5) by auto
    qed
    moreover have "distinct (ids @ map record_id records)" using rest(1) steps(5) ids by (simp del: distinct_append)
    ultimately show ?thesis using rest(2) ok steps(5) by (simp del: distinct_append)
  qed
qed

text \<open>
  C26. Reading stays within its limit and returns each event once.  Whatever other processes do and whichever
  calls fail meanwhile, when \<open>read_events\<close> returns with a limit of \<open>n\<close> bytes, the records with their line ends are at
  most \<open>n\<close> bytes together, every record is an accepted host event of exactly its bytes, and no two records have
  the same event id.
\<close>

theorem read_events_bounded:
  assumes "read_events sha root expected (Some n) w = (Inr records, w')"
  shows "int (sum_list (map (\<lambda>r. Suc (length (je_raw r))) records)) \<le> n
    \<and> list_all (\<lambda>r. je_raw r \<noteq> [] \<and> parse_host_event sha (je_raw r) = Inr (je_event r)) records
    \<and> distinct (map (\<lambda>r. got (je_event r) ''event_id'') records)"
proof -
  from assms obtain directory names v where n: "0 < n"
    and run: "read_journals sha directory (Some n) (sort names) 0 [] v = (Inr records, w')"
    by (auto simp: read_events_def run_iffs)
  from read_journals_Inr [OF run] n
  have "list_all (\<lambda>r. je_raw r \<noteq> [] \<and> parse_host_event sha (je_raw r) = Inr (je_event r)) records"
    by (simp add: list_all_iff record_ok_def)
  moreover from read_journals_Inr [OF run] n
  have "int (sum_list (map (\<lambda>r. Suc (length (je_raw r))) records)) \<le> n" "distinct (map (\<lambda>r. got (je_event r) ''event_id'') records)"
    by (simp_all add: line_cost_def comp_def)
  ultimately show ?thesis by blast
qed

subsection \<open>Backward rules for calls that may fail\<close>

text \<open>No other process interferes; calls may fail and writes may be short.\<close>

definition undisturbed :: "host_os \<Rightarrow> bool" where
  "undisturbed w \<longleftrightarrow> (\<forall>e \<in> set (os_script w). oe_other e = (\<lambda>n. n))"

definition nodes :: "host_os \<Rightarrow> (file_key \<Rightarrow> inode) option" where
  "nodes w = (if undisturbed w then Some (os_node w) else None)"

definition entry :: "(file_key \<Rightarrow> inode) \<Rightarrow> file_key \<Rightarrow> string \<Rightarrow> file_key option" where
  "entry N dir name = map_of (nd_entries (N dir)) name"

lemma nodes_Some: "nodes w = Some N \<longleftrightarrow> undisturbed w \<and> os_node w = N"
  by (auto simp: nodes_def)

lemma pwp_syscall:
  assumes "\<And>x. E (OSError x) (Some N)"
    and "\<And>c w x w'. undisturbed w \<Longrightarrow> os_node w = N \<Longrightarrow> f c w = (Inl x, w') \<Longrightarrow> E (OSError x) (nodes w')"
    and "\<And>c w v w'. undisturbed w \<Longrightarrow> os_node w = N \<Longrightarrow> f c w = (Inr v, w') \<Longrightarrow> Q v (nodes w')"
  shows "pwp nodes (syscall f) Q E (Some N)"
proof -
  have "case syscall f w of (Inr x, t) \<Rightarrow> Q x (nodes t) | (Inl e, t) \<Rightarrow> E e (nodes t)" if "nodes w = Some N" for w
  proof (cases "os_script w")
    case Nil
    then show ?thesis using assms that by (auto simp: syscall_def nodes_Some split: prod.splits sum.splits)
  next
    case (Cons e es)
    then have quiet: "undisturbed (w\<lparr>os_script := es, os_node := oe_other e (os_node w)\<rparr>)"
        and same: "oe_other e (os_node w) = N"
      using that by (auto simp: nodes_Some undisturbed_def)
    then have "nodes (w\<lparr>os_script := es, os_node := oe_other e (os_node w)\<rparr>) = Some N" by (simp add: nodes_Some)
    then show ?thesis using Cons assms quiet same
      by (auto simp: syscall_def split: prod.splits sum.splits option.splits)
  qed
  then show ?thesis by (simp add: pwp_def)
qed

lemma pwp_ask:
  assumes "\<And>x. E (OSError x) (Some N)" and "\<And>w v. os_node w = N \<Longrightarrow> f w = Inr v \<Longrightarrow> Q v (Some N)"
  shows "pwp nodes (ask f) Q E (Some N)"
  unfolding ask_def using assms by (intro pwp_syscall) (auto simp: nodes_def)

lemma pwp_calls [pwp_rules]:
  "(\<And>x. E (OSError x) (Some N)) \<Longrightarrow> (\<And>k. entry N dir name = Some k \<Longrightarrow> Q k (Some N)) \<Longrightarrow> pwp nodes (sys_open dir name) Q E (Some N)"
  "(\<And>x. E (OSError x) (Some N)) \<Longrightarrow> Q' (N k) (Some N) \<Longrightarrow> pwp nodes (sys_fstat k) Q' E (Some N)"
  "(\<And>x. E (OSError x) (Some N)) \<Longrightarrow> (\<And>k. entry N dir name = Some k \<Longrightarrow> Q'' (k, N k) (Some N)) \<Longrightarrow> pwp nodes (sys_stat dir name) Q'' E (Some N)"
  "(\<And>x. E (OSError x) (Some N)) \<Longrightarrow> Q3 (take (nat n) (nd_data (N k))) (Some N) \<Longrightarrow> pwp nodes (sys_read k (Some n)) Q3 E (Some N)"
  "(\<And>x. E (OSError x) (Some N)) \<Longrightarrow> Q4 () (Some N) \<Longrightarrow> pwp nodes (sys_fsync k) Q4 E (Some N)"
  unfolding sys_open_def sys_fstat_def sys_stat_def sys_read_def sys_fsync_def
  by (rule pwp_ask; auto simp: lookup_def entry_def split: option.splits if_splits)+

lemma pwp_os_to [pwp_rules]:
  "pwp view m Q (\<lambda>e d. case e of OSError x \<Rightarrow> E (HostEventSinkError message) d | _ \<Rightarrow> E e d) d \<Longrightarrow> pwp view (os_to message m) Q E d"
  unfolding os_to_def
  by (rule pwp_try_except, rule pwp_conseq, assumption) (auto split: sink_exn.splits intro: pwp_raise)

lemma pwp_absent [pwp_rules]:
  assumes "\<And>x. E (OSError x) (Some N)" "Q True (Some N)" "entry N dir name \<noteq> None \<Longrightarrow> Q False (Some N)"
  shows "pwp nodes (absent dir name) Q E (Some N)"
  unfolding absent_def using assms by (intro pwp_rules) (auto intro: pwp_ret pwp_raise)

definition moved_nodes :: "file_key \<Rightarrow> string \<Rightarrow> file_key \<Rightarrow> file_key \<Rightarrow> (file_key \<Rightarrow> inode) \<Rightarrow> file_key \<Rightarrow> inode" where
  "moved_nodes s j t k N =
     (let M = N(s := (N s)\<lparr>nd_entries := filter (\<lambda>e. fst e \<noteq> j) (nd_entries (N s))\<rparr>)
      in M(t := (M t)\<lparr>nd_entries := nd_entries (M t) @ [(j, k)]\<rparr>))"

lemma pwp_rename [pwp_rules]:
  assumes "\<And>x. E (OSError x) (Some N)"
    and "\<And>k. entry N s j = Some k \<Longrightarrow> entry N t j = None \<Longrightarrow> Q () (Some (moved_nodes s j t k N))"
  shows "pwp nodes (rename_noreplace s j t j) Q E (Some N)"
  unfolding rename_noreplace_def
  using assms
  by (intro pwp_syscall)
    (auto simp: lookup_def entry_def nodes_def undisturbed_def moved_nodes_def move_entry_def update_node_def Let_def split: option.splits)

subsection \<open>Quarantine is all or nothing\<close>

text \<open>The same inodes with the same entries, up to their order; and the same but for one journal that changed its directory.\<close>

definition same_inode :: "inode \<Rightarrow> inode \<Rightarrow> bool" where
  "same_inode a b \<longleftrightarrow> nd_data b = nd_data a \<and> nd_mode b = nd_mode a \<and> nd_uid b = nd_uid a"

definition same_files :: "(file_key \<Rightarrow> inode) \<Rightarrow> (file_key \<Rightarrow> inode) \<Rightarrow> bool" where
  "same_files N M \<longleftrightarrow> (\<forall>k. same_inode (N k) (M k) \<and> entry M k = entry N k)"

definition journal_moved :: "file_key \<Rightarrow> file_key \<Rightarrow> string \<Rightarrow> (file_key \<Rightarrow> inode) \<Rightarrow> (file_key \<Rightarrow> inode) \<Rightarrow> bool" where
  "journal_moved s t j N M \<longleftrightarrow>
     entry N s j \<noteq> None \<and> entry N t j = None \<and> (\<forall>k. same_inode (N k) (M k))
   \<and> (\<forall>k. entry M k = (if k = s then (entry N s)(j := None)
                       else if k = t then (entry N t)(j := entry N s j) else entry N k))"

lemma map_of_filter_key: "map_of (filter (\<lambda>e. fst e \<noteq> j) xs) = (map_of xs)(j := None)"
  by (induction xs) (auto simp: fun_eq_iff)

lemma moved_nodes_moved:
  assumes "entry N s j = Some k" "entry N t j = None"
  shows "journal_moved s t j N (moved_nodes s j t k N)"
proof -
  have "s \<noteq> t" using assms by auto
  moreover have "map_of (nd_entries (N t) @ [(j, k)]) = (entry N t)(j := Some k)"
    using assms(2) by (auto simp: entry_def map_add_def fun_eq_iff split: option.splits)
  ultimately show ?thesis
    using assms unfolding journal_moved_def moved_nodes_def Let_def
    by (auto simp: same_inode_def entry_def [abs_def] map_of_filter_key fun_eq_iff)
qed

lemma same_files_refl: "same_files N N"
  by (simp add: same_files_def same_inode_def)

lemma journal_movedD:
  assumes "journal_moved s t j N M"
  shows "s \<noteq> t" "entry M s = (entry N s)(j := None)" "entry M t = (entry N t)(j := entry N s j)"
    "k \<noteq> s \<Longrightarrow> k \<noteq> t \<Longrightarrow> entry M k = entry N k" "same_inode (N k) (M k)"
    "entry N s j \<noteq> None" "entry N t j = None" "entry M s j = None" "entry M t j = entry N s j"
proof -
  show st: "s \<noteq> t" using assms unfolding journal_moved_def by metis
  show s: "entry M s = (entry N s)(j := None)" and t: "entry M t = (entry N t)(j := entry N s j)"
    using assms st unfolding journal_moved_def by metis+
  show "k \<noteq> s \<Longrightarrow> k \<noteq> t \<Longrightarrow> entry M k = entry N k" "same_inode (N k) (M k)" "entry N s j \<noteq> None" "entry N t j = None"
    using assms unfolding journal_moved_def by metis+
  show "entry M s j = None" "entry M t j = entry N s j" by (simp_all only: s t fun_upd_same)
qed

lemma moved_back:
  assumes "journal_moved s t j N M" and "journal_moved t s j M L"
  shows "same_files N L"
  unfolding same_files_def
proof (intro allI conjI)
  fix k
  note n = journal_movedD [OF assms(1)] and m = journal_movedD [OF assms(2)]
  show "same_inode (N k) (L k)" using n(5) [of k] m(5) [of k] by (simp add: same_inode_def)
  consider "k = s" | "k = t" | "k \<noteq> s" "k \<noteq> t" by blast
  then show "entry L k = entry N k"
  proof cases
    case 1
    then show ?thesis unfolding 1 m(3) n(9) n(2) by (simp only: fun_upd_upd fun_upd_triv)
  next
    case 2
    then show ?thesis unfolding 2 m(2) n(3) by (simp only: fun_upd_upd n(7) [symmetric] fun_upd_triv)
  next
    case 3
    then show ?thesis using n(4) m(4) by metis
  qed
qed

definition quarantine_outcome ::
  "file_key \<Rightarrow> file_key \<Rightarrow> string \<Rightarrow> (file_key \<Rightarrow> inode) \<Rightarrow> sink_exn \<Rightarrow> (file_key \<Rightarrow> inode) option \<Rightarrow> bool" where
  "quarantine_outcome s t j N e d \<longleftrightarrow> (\<exists>M. d = Some M \<and> (same_files N M
     \<or> journal_moved s t j N M \<and> e \<in> {HostEventSinkError ''journal quarantine failed and rollback failed'',
                                       HostEventSinkError ''journal quarantine failed and rollback target is unsafe''}))"

lemma outcome_same [intro]: "quarantine_outcome s t j N e (Some N)"
  by (simp add: quarantine_outcome_def same_files_refl)

lemma undo_move_outcome:
  assumes "journal_moved s t j N M"
  shows "pwp nodes (undo_move s t j e) Q (quarantine_outcome s t j N) (Some M)"
proof -
  have gone: "entry M s j = None" by (rule journal_movedD(8) [OF assms])
  have undone: "quarantine_outcome s t j N e' (Some (moved_nodes t j s k M))" if "entry M t j = Some k" for k e'
    using moved_back [OF assms moved_nodes_moved [OF that gone]] by (auto simp: quarantine_outcome_def)
  show ?thesis
    unfolding undo_move_def
    by (intro pwp_rules) (use gone undone assms in \<open>auto simp: quarantine_outcome_def\<close>)
qed

lemma open_journal_root_keeps [pwp_rules]:
  assumes "\<And>e. E e (Some N)" and "Q k (Some N)"
  shows "pwp nodes (open_journal_root root (Some k)) Q E (Some N)"
  unfolding open_journal_root_def
  by (intro pwp_rules pwp_gets pwp_ask) (use assms in \<open>auto split: option.splits\<close>)

lemma read_whole_keeps [pwp_rules]:
  assumes "\<And>e. E e (Some N)"
    and "\<And>k. entry N dir j = Some k \<Longrightarrow> int (length (nd_data (N k))) \<le> n \<Longrightarrow> Q (k, N k, nd_data (N k)) (Some N)"
  shows "pwp nodes (read_whole purpose subject dir j n) Q E (Some N)"
  unfolding read_whole_def
  by (intro pwp_rules pwp_gets) (use assms in \<open>auto simp: min_def split: if_splits sink_exn.splits\<close>)

lemma still_there_keeps [pwp_rules]:
  assumes "\<And>e. E e (Some N)" and "Q () (Some N)"
  shows "pwp nodes (still_there subject dir j k metadata) Q E (Some N)"
  unfolding still_there_def by (intro pwp_rules) (use assms in \<open>auto split: sink_exn.splits\<close>)

lemma quarantine_checks_keeps [pwp_rules]:
  assumes "\<And>e. E e (Some N)"
    and "\<And>k. entry N s j = Some k \<Longrightarrow> int (length (nd_data (N k))) \<le> n \<Longrightarrow> Q (k, nd_data (N k)) (Some N)"
  shows "pwp nodes (quarantine_checks s t same j n expected) Q E (Some N)"
  unfolding quarantine_checks_def
  by (intro pwp_rules) (use assms in \<open>auto split: sink_exn.splits\<close>)

lemma validate_moved_keeps [pwp_rules]:
  assumes "\<And>e. E e (Some M)" and "Q () (Some M)"
  shows "pwp nodes (validate_moved s t j k raw n) Q E (Some M)"
  unfolding validate_moved_def
  by (intro pwp_rules) (use assms in \<open>auto split: sink_exn.splits\<close>)

definition receipt_of :: "string \<Rightarrow> file_key \<Rightarrow> inode \<Rightarrow> quarantined_journal" where
  "receipt_of j k node = \<lparr>qj_journal = j, qj_raw = nd_data node, qj_device = fst k, qj_inode = snd k\<rparr>"

lemma quarantine_journal_pwp:
  "pwp nodes (quarantine_journal root qroot j s t n expected)
     (\<lambda>q d. \<exists>M k. d = Some M \<and> journal_moved s t j N M \<and> entry N s j = Some k \<and> q = receipt_of j k (N k)
        \<and> int (length (nd_data (N k))) \<le> n)
     (quarantine_outcome s t j N) (Some N)"
  unfolding quarantine_journal_def
  by (intro pwp_rules)
    (auto split: sink_exn.splits simp: receipt_of_def moved_nodes_moved intro!: undo_move_outcome exI)

text \<open>
  C11. A quarantine is all or nothing: when no other process changes the files, and whichever system calls
  fail, \<open>quarantine_journal\<close> changes no inode, and
  either it returns, then the journal has left the source directory, is in the
  quarantine directory with the same inode, and the receipt has its name, its whole contents, which are within the
  limit, and its device and inode; or it raises, then both directories have the entries they had, or the journal is in the
  quarantine directory only, and the exception says that the rollback failed.
\<close>

theorem quarantine_all_or_nothing:
  assumes "undisturbed w"
    and "quarantine_journal root qroot j source target n expected w = (r, w')"
  shows "case r of
      Inr q \<Rightarrow> journal_moved source target j (os_node w) (os_node w')
         \<and> (\<exists>k. entry (os_node w) source j = Some k \<and> q = receipt_of j k (os_node w k) \<and> int (length (qj_raw q)) \<le> n)
    | Inl e \<Rightarrow> same_files (os_node w) (os_node w')
         \<or> (journal_moved source target j (os_node w) (os_node w')
            \<and> e \<in> {HostEventSinkError ''journal quarantine failed and rollback failed'',
                    HostEventSinkError ''journal quarantine failed and rollback target is unsafe''})"
proof -
  have start: "nodes w = Some (os_node w)" using assms(1) by (simp add: nodes_def)
  have end_: "nodes w' = Some M \<Longrightarrow> os_node w' = M" for M by (simp add: nodes_Some)
  note run = quarantine_journal_pwp [of root qroot j source target n expected "os_node w", folded start]
  show ?thesis
  proof (cases r)
    case (Inl e)
    with pwp_Inl [OF run] assms(2) end_ show ?thesis by (auto simp: quarantine_outcome_def)
  next
    case (Inr q)
    with pwp_Inr [OF run] assms(2) end_ show ?thesis by (fastforce simp: receipt_of_def)
  qed
qed

subsection \<open>Undisturbed calls\<close>

lemma ask_plain: "os_script w = [] \<Longrightarrow> ask f w = (case f w of Inl x \<Rightarrow> (Inl (OSError x), w) | Inr v \<Rightarrow> (Inr v, w))"
  by (simp add: ask_def syscall_def split: sum.splits)

lemma os_to_Inr_iff: "os_to message m w = (Inr x, w') \<longleftrightarrow> m w = (Inr x, w')"
  by (auto simp: os_to_def try_except_def raise_def split: prod.splits sum.splits sink_exn.splits)

definition root_ok :: "host_os \<Rightarrow> string \<Rightarrow> file_key \<Rightarrow> bool" where
  "root_ok w root k \<longleftrightarrow> rv_absolute (os_root w root) \<and> \<not> rv_symlink (os_root w root) \<and> rv_resolved (os_root w root) = Some root
     \<and> rv_open (os_root w root) = Some k \<and> is_dir (nd_mode (os_node w k)) \<and> nd_uid (os_node w k) = os_euid w
     \<and> and (imode (nd_mode (os_node w k))) 18 = 0"

lemma calls_plain:
  assumes "os_script w = []"
  shows "sys_open dir name w = (Inr k, w') \<longleftrightarrow> w' = w \<and> lookup w dir name = Some k \<and> \<not> is_lnk (nd_mode (os_node w k))"
    and "sys_fstat f w = (Inr node, w') \<longleftrightarrow> w' = w \<and> node = os_node w f"
    and "sys_stat dir name w = (Inr kn, w') \<longleftrightarrow> w' = w \<and> lookup w dir name = Some (fst kn) \<and> snd kn = os_node w (fst kn)"
    and "sys_read f (Some n) w = (Inr b, w') \<longleftrightarrow> w' = w \<and> b = take (nat n) (nd_data (os_node w f))"
    and "sys_fsync f w = (Inr u, w') \<longleftrightarrow> w' = w"
    and "absent dir name w = (Inr gone, w') \<longleftrightarrow> w' = w \<and> gone = (lookup w dir name = None)"
    and "rename_noreplace dir name t name' w = (Inr u, w') \<longleftrightarrow>
       (\<exists>k. lookup w dir name = Some k \<and> lookup w t name' = None \<and> w' = move_entry dir name t name' k w)"
  using assms
  by (auto simp: prod_eq_iff sys_open_def sys_fstat_def sys_stat_def sys_read_def sys_fsync_def absent_def rename_noreplace_def syscall_def
    ask_plain try_except_def andthen_def bind_def ret_def raise_def split: option.splits if_splits)

lemma open_root_plain:
  assumes "os_script w = []"
  shows "open_journal_root root (Some k) w = (Inr k', w') \<longleftrightarrow> w' = w \<and> k' = k \<and> root_ok w root k"
  unfolding open_journal_root_def run_iffs os_to_Inr_iff require_Inr_iff gets_def ret_def root_ok_def
  using assms by (auto simp: ask_plain calls_plain split: option.splits)

definition file_ok :: "host_os \<Rightarrow> file_key \<Rightarrow> int \<Rightarrow> bool" where
  "file_ok w k n \<longleftrightarrow> \<not> is_lnk (nd_mode (os_node w k)) \<and> is_reg (nd_mode (os_node w k)) \<and> nd_uid (os_node w k) = os_euid w
     \<and> int (length (nd_data (os_node w k))) \<le> n
     \<and> (nd_data (os_node w k) = [] \<or> ends_with (nd_data (os_node w k)) [CHR 10])"

lemma take_limit: "0 < n \<Longrightarrow> \<not> int (length (take (nat (n + 1)) xs)) > n \<longleftrightarrow> int (length xs) \<le> n"
  by auto

lemma read_whole_plain:
  assumes "os_script w = []" and "0 < n"
  shows "read_whole purpose subject dir j n w = (Inr v, w') \<longleftrightarrow>
     w' = w \<and> (\<exists>k. lookup w dir j = Some k \<and> file_ok w k n \<and> v = (k, os_node w k, nd_data (os_node w k)))"
  (is "?l \<longleftrightarrow> ?r")
proof
  assume ?l
  then show ?r
    unfolding read_whole_def run_iffs os_to_Inr_iff require_Inr_iff gets_def ret_def take_limit [OF assms(2)] file_ok_def
    using assms by (auto simp: calls_plain)
next
  assume ?r
  then show ?l
    unfolding read_whole_def run_iffs os_to_Inr_iff require_Inr_iff gets_def ret_def file_ok_def
    using assms by (auto simp: calls_plain)
qed

lemma still_there_plain:
  assumes "os_script w = []"
  shows "still_there subject dir j k metadata w = (Inr u, w') \<longleftrightarrow>
     w' = w \<and> lookup w dir j = Some k \<and> length (nd_data (os_node w k)) = length (nd_data metadata)"
  unfolding still_there_def run_iffs os_to_Inr_iff case_prod_unfold using assms by (cases k) (auto simp: calls_plain)

text \<open>When an undisturbed quarantine succeeds.\<close>

definition quarantine_ready :: "host_os \<Rightarrow> string \<Rightarrow> string \<Rightarrow> string \<Rightarrow> file_key \<Rightarrow> file_key \<Rightarrow> int \<Rightarrow> file_key \<Rightarrow> bool" where
  "quarantine_ready w root qroot j s t n k \<longleftrightarrow>
     journal_request_ok j n \<and> root_ok w root s \<and> root_ok w qroot t \<and> root \<noteq> qroot \<and> fst s = fst t
   \<and> lookup w s j = Some k \<and> lookup w t j = None \<and> file_ok w k n"

lemma quarantine_checks_plain:
  assumes "os_script w = []" and "0 < n"
  shows "quarantine_checks s t same j n expected w = (Inr v, w') \<longleftrightarrow> w' = w \<and> \<not> same \<and> fst s = fst t \<and> lookup w t j = None
     \<and> (\<exists>k. lookup w s j = Some k \<and> file_ok w k n \<and> v = (k, nd_data (os_node w k))
          \<and> (expected = None \<or> expected = Some (receipt_of j k (os_node w k))))"
  (is "?l \<longleftrightarrow> ?r")
proof
  assume ?l
  then show ?r
    unfolding quarantine_checks_def run_iffs os_to_Inr_iff require_Inr_iff ret_def case_prod_unfold receipt_of_def
    using assms by (cases expected) (auto simp: calls_plain read_whole_plain still_there_plain)
next
  assume ?r
  then show ?l
    unfolding quarantine_checks_def run_iffs os_to_Inr_iff require_Inr_iff ret_def case_prod_unfold receipt_of_def
    using assms by (cases expected) (auto simp: calls_plain read_whole_plain still_there_plain)
qed

lemma lookup_moved:
  assumes "lookup w s j = Some k" "lookup w t j = None"
  shows "lookup (move_entry s j t j k w) s j = None" "lookup (move_entry s j t j k w) t j = Some k"
    "nd_data (os_node (move_entry s j t j k w) f) = nd_data (os_node w f)"
    "nd_mode (os_node (move_entry s j t j k w) f) = nd_mode (os_node w f)"
    "nd_uid (os_node (move_entry s j t j k w) f) = nd_uid (os_node w f)"
    "os_script (move_entry s j t j k w) = os_script w" "os_root (move_entry s j t j k w) = os_root w"
    "os_euid (move_entry s j t j k w) = os_euid w"
proof -
  have "s \<noteq> t" using assms by auto
  then show "lookup (move_entry s j t j k w) s j = None" "lookup (move_entry s j t j k w) t j = Some k"
    using assms(2) by (simp_all add: lookup_def move_entry_def update_node_def map_of_filter_key map_add_def)
qed (simp_all add: move_entry_def update_node_def)

lemma validate_moved_plain:
  assumes "os_script w = []" "0 < n" "int (length (nd_data (os_node w k))) \<le> n" "\<not> is_lnk (nd_mode (os_node w k))"
    "lookup w s j = None" "lookup w t j = Some k"
  shows "validate_moved s t j k (nd_data (os_node w k)) n w = (Inr (), w)"
  unfolding validate_moved_def run_iffs os_to_Inr_iff require_Inr_iff case_prod_unfold
  using assms by (cases k) (auto simp: calls_plain)

lemma quarantine_plain:
  assumes "os_script w = []"
  shows "quarantine_journal root qroot j s t n expected w = (Inr q, w') \<longleftrightarrow>
     (\<exists>k. quarantine_ready w root qroot j s t n k \<and> (expected = None \<or> expected = Some (receipt_of j k (os_node w k)))
        \<and> q = receipt_of j k (os_node w k) \<and> w' = move_entry s j t j k w)"
  (is "?l \<longleftrightarrow> ?r")
proof -
  have valid: "try_except (os_to m (validate_moved s t j k (nd_data (os_node w k)) n)) h (move_entry s j t j k w) =
      (Inr (), move_entry s j t j k w)" if "quarantine_ready w root qroot j s t n k" for k m h
  proof -
    have r: "lookup w s j = Some k" "lookup w t j = None" "file_ok w k n" "0 < n"
      using that by (auto simp: quarantine_ready_def journal_request_ok_def)
    have "validate_moved s t j k (nd_data (os_node w k)) n (move_entry s j t j k w) = (Inr (), move_entry s j t j k w)"
      using validate_moved_plain [of "move_entry s j t j k w" n k s j t] lookup_moved [OF r(1,2)] r(3,4) assms
      by (simp add: file_ok_def)
    then show ?thesis by (simp add: try_except_def os_to_def)
  qed
  show ?thesis
  proof
    assume ?l
    then obtain k where r: "quarantine_ready w root qroot j s t n k"
        "expected = None \<or> expected = Some (receipt_of j k (os_node w k))"
        "andthen (try_except (os_to ''cannot atomically quarantine journal'' (validate_moved s t j k (nd_data (os_node w k)) n))
           (undo_move s t j))
         (ret \<lparr>qj_journal = j, qj_raw = nd_data (os_node w k), qj_device = fst k, qj_inode = snd k\<rparr>)
         (move_entry s j t j k w) = (Inr q, w')"
      unfolding quarantine_journal_def run_iffs os_to_Inr_iff require_Inr_iff case_prod_unfold quarantine_ready_def
      using assms
      by (auto simp: open_root_plain quarantine_checks_plain calls_plain run_iffs journal_request_ok_def)
    from r(3) have "q = receipt_of j k (os_node w k)" "w' = move_entry s j t j k w"
      by (simp_all add: andthen_def bind_def valid [OF r(1)] ret_def receipt_of_def)
    with r show ?r by blast
  next
    assume ?r
    then obtain k where r: "quarantine_ready w root qroot j s t n k"
        "expected = None \<or> expected = Some (receipt_of j k (os_node w k))" "q = receipt_of j k (os_node w k)"
        "w' = move_entry s j t j k w" by blast
    then have n: "0 < n" by (simp add: quarantine_ready_def journal_request_ok_def)
    have "os_to m (rename_noreplace s j t j) w = (Inr (), move_entry s j t j k w)" for m
      unfolding os_to_Inr_iff using r(1) assms by (simp add: calls_plain quarantine_ready_def)
    moreover have "quarantine_checks s t (root = qroot) j n expected w = (Inr (k, nd_data (os_node w k)), w)"
      unfolding quarantine_checks_plain [OF assms n] using r by (simp add: quarantine_ready_def)
    moreover have "open_journal_root root (Some s) w = (Inr s, w)" "open_journal_root qroot (Some t) w = (Inr t, w)"
      unfolding open_root_plain [OF assms] using r(1) by (simp_all add: quarantine_ready_def)
    ultimately show ?l
      unfolding quarantine_journal_def
      using r by (simp add: andthen_def bind_def require_def ret_def valid quarantine_ready_def receipt_of_def)
  qed
qed

lemma node_move_entry: "os_node (move_entry s j t j k w) = moved_nodes s j t k (os_node w)"
  by (simp add: move_entry_def update_node_def moved_nodes_def Let_def)

text \<open>
  C27. A restoration undoes a quarantine: after an undisturbed \<open>quarantine_journal\<close> that returned a receipt,
  \<open>restore_quarantined_journal\<close> with this receipt succeeds (the source directory has not got a new journal of
  that name), and then every inode and every directory entry is what it was before the quarantine.
\<close>

theorem quarantine_restore_roundtrip:
  assumes "os_script w = []"
    and "quarantine_journal root qroot j s t n expected w = (Inr q, w1)"
  shows "\<exists>w2. restore_quarantined_journal root qroot q s t n w1 = (Inr (), w2) \<and> same_files (os_node w) (os_node w2)"
proof -
  obtain k where ready: "quarantine_ready w root qroot j s t n k" and q: "q = receipt_of j k (os_node w k)"
    and w1: "w1 = move_entry s j t j k w" using assms unfolding quarantine_plain [OF assms(1)] by blast
  have at: "lookup w s j = Some k" "lookup w t j = None" using ready by (simp_all add: quarantine_ready_def)
  note m = lookup_moved [OF at, folded w1]
  let ?w2 = "move_entry t j s j k w1"
  have "quarantine_ready w1 qroot root j t s n k"
    using ready by (auto simp: quarantine_ready_def root_ok_def file_ok_def m)
  moreover have same: "receipt_of j k (os_node w1 k) = q" by (simp add: receipt_of_def q m)
  moreover have script: "os_script w1 = []" using assms(1) m(6) by simp
  ultimately have "quarantine_journal qroot root j t s n (Some q) w1 = (Inr q, ?w2)"
    unfolding quarantine_plain [OF script] by metis
  moreover have "qj_journal q = j" by (simp add: q receipt_of_def)
  ultimately have run: "restore_quarantined_journal root qroot q s t n w1 = (Inr (), ?w2)"
    by (simp add: restore_quarantined_journal_def bind_def require_def ret_def)
  have "journal_moved s t j (os_node w) (os_node w1)"
    unfolding w1 node_move_entry by (rule moved_nodes_moved) (use at in \<open>simp_all add: lookup_def entry_def\<close>)
  moreover have "journal_moved t s j (os_node w1) (os_node ?w2)"
    unfolding node_move_entry [of t j s k w1] by (rule moved_nodes_moved) (use m in \<open>simp_all add: lookup_def entry_def\<close>)
  ultimately have "same_files (os_node w) (os_node ?w2)" by (rule moved_back)
  with run show ?thesis by blast
qed

subsection \<open>A journal\<close>

definition ex_os :: "os_event list \<Rightarrow> host_os" where
  "ex_os script = \<lparr>os_root = (\<lambda>p. \<lparr>rv_absolute = True, rv_symlink = False, rv_resolved = Some p,
        rv_open = (if p = ''/j'' then Some (1, 10) else if p = ''/q'' then Some (1, 20) else None)\<rparr>),
      os_node = (\<lambda>k. if k = (1, 10) then \<lparr>nd_mode = 16832, nd_uid = 7, nd_data = [], nd_entries = [(''a.jsonl'', (1, 30))]\<rparr>
        else if k = (1, 20) then \<lparr>nd_mode = 16832, nd_uid = 7, nd_data = [], nd_entries = []\<rparr>
        else \<lparr>nd_mode = 33152, nd_uid = 7, nd_data = ex_raw ''x'' @ [CHR 10], nd_entries = []\<rparr>),
      os_next = 40, os_env = (\<lambda>_. None), os_euid = 7, os_script = script\<rparr>"

lemma ex_modes: "is_dir 16832" "and (imode 16832) 18 = 0" "is_reg 33152" "\<not> is_lnk 33152"
  by (simp_all add: is_dir_def imode_def is_reg_def is_lnk_def)

lemma ex_ready: "quarantine_ready (ex_os []) ''/j'' ''/q'' ''a.jsonl'' (1, 10) (1, 20) (int (length (ex_raw ''x'')) + 1) (1, 30)"
  by (simp add: quarantine_ready_def journal_request_ok_def ends_with_def suffix_def root_ok_def file_ok_def lookup_def ex_os_def ex_modes)

subsection \<open>A record is one line\<close>

lemma split_from_line: "printable s \<Longrightarrow> split_from line (s @ CHR 10 # r) = (rev line @ s) # split_from [] r"
proof (induction s arbitrary: line)
  case Nil
  then show ?case by (subst split_from.simps) simp
next
  case (Cons c s)
  then have "c \<noteq> CHR 10" "c \<noteq> CHR 13" by (auto simp: code_def)
  then show ?case using Cons by (subst split_from.simps) simp
qed

lemma splitlines_record: "printable s \<Longrightarrow> splitlines (s @ [CHR 10]) = [s]"
  using split_from_line [of s "[]" "[]"] by (simp add: splitlines_def split_from.simps [of "[]" "[]"])

lemma ex_raw_line: "splitlines (ex_raw st @ [CHR 10]) = [ex_raw st]"
  unfolding ex_raw_def canonical_bytes_def json_dumps_def by (intro splitlines_record printable_utf8 printable_jprint)

text \<open>The journal read, quarantined and restored.\<close>

theorem read_events_bounded_witness:
  "\<exists>records w'. read_events host_digest ''/j'' None (Some (int (length (ex_raw ''x'')) + 1)) (ex_os []) = (Inr records, w')
     \<and> int (sum_list (map (\<lambda>r. Suc (length (je_raw r))) records)) \<le> int (length (ex_raw ''x'')) + 1
     \<and> map je_raw records = [ex_raw ''x'']"
proof -
  let ?w = "ex_os []" and ?n = "int (length (ex_raw ''x'')) + 1"
  have ne: "ex_raw ''x'' \<noteq> []"
    using ex_event_parsed [of "''x''"] by (auto simp: parse_host_event_def parse_strict_def loads_text_def)
  have root: "open_journal_root ''/j'' None ?w = (Inr (1, 10), ?w)"
    by (simp add: open_journal_root_def bind_def andthen_def gets_def require_def ret_def os_to_def try_except_def ask_plain
      sys_fstat_def ex_os_def ex_modes)
  have lines: "read_lines host_digest ''a.jsonl'' 1 (splitlines (ex_raw ''x'' @ [CHR 10])) [] =
      Inr ([\<lparr>je_journal = ''a.jsonl'', je_line_number = 1, je_raw = ex_raw ''x'', je_event = ex_event ''x''\<rparr>], [JStr ex_hash])"
    using ne ex_event_parsed [of "''x''"] by (simp add: ex_raw_line ex_got)
  have bytes: "read_journal (1, 10) ''a.jsonl'' (Some ?n) 0 ?w = (Inr (ex_raw ''x'' @ [CHR 10], ?n), ?w)"
    by (simp add: read_journal_def bind_def andthen_def gets_def require_def ret_def os_to_def try_except_def ask_plain
      sys_fstat_def sys_open_def sys_read_def lookup_def ex_os_def ex_modes)
  have names: "sys_listdir (1, 10) ?w = (Inr [''a.jsonl''], ?w)"
    by (simp add: sys_listdir_def ask_plain ex_os_def)
  have run: "read_events host_digest ''/j'' None (Some ?n) ?w =
      (Inr [\<lparr>je_journal = ''a.jsonl'', je_line_number = 1, je_raw = ex_raw ''x'', je_event = ex_event ''x''\<rparr>], ?w)"
    using root bytes lines names
    by (simp add: read_events_def bind_def andthen_def gets_def require_def ret_def lift_result_def ends_with_def suffix_def)
      (simp add: ex_os_def)
  have "map je_raw [\<lparr>je_journal = ''a.jsonl'', je_line_number = 1, je_raw = ex_raw ''x'', je_event = ex_event ''x''\<rparr>] = [ex_raw ''x'']"
    by simp
  then show ?thesis by (intro exI conjI) (rule run, rule read_events_bounded [OF run, THEN conjunct1])
qed

theorem quarantine_all_or_nothing_witness:
  "\<exists>q w'. quarantine_journal ''/j'' ''/q'' ''a.jsonl'' (1, 10) (1, 20) (int (length (ex_raw ''x'')) + 1) None (ex_os []) = (Inr q, w')
     \<and> journal_moved (1, 10) (1, 20) ''a.jsonl'' (os_node (ex_os [])) (os_node w') \<and> entry (os_node w') (1, 20) ''a.jsonl'' = Some (1, 30)"
proof -
  have quiet: "undisturbed (ex_os [])" and plain: "os_script (ex_os []) = []" by (simp_all add: undisturbed_def ex_os_def)
  obtain q w' where run: "quarantine_journal ''/j'' ''/q'' ''a.jsonl'' (1, 10) (1, 20) (int (length (ex_raw ''x'')) + 1) None (ex_os []) = (Inr q, w')"
    using ex_ready unfolding quarantine_plain [OF plain] by blast
  from quarantine_all_or_nothing [OF quiet run]
  have moved: "journal_moved (1, 10) (1, 20) ''a.jsonl'' (os_node (ex_os [])) (os_node w')" by simp
  have "entry (os_node w') (1, 20) ''a.jsonl'' = entry (os_node (ex_os [])) (1, 10) ''a.jsonl''" by (rule journal_movedD(9) [OF moved])
  then show ?thesis using run moved by (auto simp: entry_def ex_os_def)
qed

theorem quarantine_restore_roundtrip_witness:
  "\<exists>q w1 w2. quarantine_journal ''/j'' ''/q'' ''a.jsonl'' (1, 10) (1, 20) (int (length (ex_raw ''x'')) + 1) None (ex_os []) = (Inr q, w1)
     \<and> restore_quarantined_journal ''/j'' ''/q'' q (1, 10) (1, 20) (int (length (ex_raw ''x'')) + 1) w1 = (Inr (), w2)
     \<and> same_files (os_node (ex_os [])) (os_node w2)"
proof -
  have plain: "os_script (ex_os []) = []" by (simp add: ex_os_def)
  obtain q w1 where run: "quarantine_journal ''/j'' ''/q'' ''a.jsonl'' (1, 10) (1, 20) (int (length (ex_raw ''x'')) + 1) None (ex_os []) = (Inr q, w1)"
    using ex_ready unfolding quarantine_plain [OF plain] by blast
  from quarantine_restore_roundtrip [OF plain run] run show ?thesis by blast
qed

end
