(* ===== verification/Bundle_Manifest.thy ===== *)
theory Bundle_Manifest
  imports Gate_Base Contract_Parser
begin

section \<open>Bundle manifests (\<^verbatim>\<open>manifest.py\<close>)\<close>

text \<open>
  The dataclasses of a bundle manifest, the parsers of schema 1.0 and of the experimental schemas from
  a JSON value, \<open>load_manifest\<close> and \<open>activation_blocker\<close>.  A refusal is \<open>ManifestError\<close> (its text
  names the location and is left out); \<open>ManifestTypeError\<close> is the exception of Python where the code
  iterates over a number or looks an unhashable value up in a set.  PEP 440 versions and specifier
  sets are the parameter \<open>pep440\<close> of \<open>Contract_Parser\<close>.  At the end: what a parsed manifest satisfies,
  on which the planning and selection of bundles rely.
\<close>

subsection \<open>Data\<close>

datatype manifest_exn = ManifestError | ManifestTypeError

record activation_entry_point =
  ae_group :: string
  ae_name :: string

record bundle_activation =
  ba_entry_points :: "activation_entry_point list"
  ba_environment :: "(string \<times> string) list"
  ba_additional_config :: "(string \<times> json) list"

record bundle_component =
  bc_component_id :: string
  bc_contracts :: "string list"
  bc_execution_planes :: "string list"
  bc_isolation :: string
  bc_implementation_ref :: string
  bc_permissions :: "string list"

record host_spec =
  hs_provider :: string
  hs_name :: string
  hs_version_range :: string
  hs_api_range :: "string option"

record runtime_spec =
  ru_type :: string
  ru_process_scope :: string
  ru_isolation :: string

record protocol_spec =
  pt_name :: string
  pt_version_range :: "string option"

record implementation_carrier =
  ic_type :: string
  ic_attributes :: "(string \<times> json) list"

record required_service =
  sv_service_id :: string
  sv_protocol :: string
  sv_version_range :: "string option"
  sv_endpoint_config :: string
  sv_optional :: bool

record required_extension =
  rx_extension_id :: string
  rx_version_range :: string

record bundle_claim =
  bk_resource :: string
  bk_scope :: string
  bk_mode :: string

record bundle_manifest =
  bm_bundle_id :: string
  bm_bundle_version :: string
  bm_host_api_range :: string
  bm_components :: "bundle_component list"
  bm_activation :: bundle_activation
  bm_schema_version :: string
  bm_kind :: string
  bm_host :: host_spec
  bm_runtime :: runtime_spec
  bm_lifecycle_owner :: string
  bm_protocols :: "protocol_spec list"
  bm_implementation :: "implementation_carrier list"
  bm_requires_services :: "required_service list"
  bm_requires_extensions :: "required_extension list"
  bm_resource_claims :: "bundle_claim list"
  bm_experimental :: bool

subsection \<open>Constants\<close>

definition top_level_fields :: "string list" where
  "top_level_fields = [''schema_version'', ''bundle_id'', ''bundle_version'', ''host_api_range'', ''components'', ''activation'']"

definition component_fields :: "string list" where
  "component_fields = [''component_id'', ''contracts'', ''execution_planes'', ''isolation'', ''implementation_ref'', ''permissions'']"

definition isolations :: "string list" where
  "isolations = [''trusted_in_process'', ''process_isolated'', ''sandboxed_process'']"

definition planes :: "string list" where
  "planes = [''api'', ''scheduler'', ''worker'', ''native'', ''device'', ''bridge'']"

definition permissions :: "string list" where
  "permissions = [''device_access'', ''filesystem_read'', ''filesystem_write'', ''ipc'', ''network_egress'',
     ''shared_memory'', ''subprocess'']"

definition bundle_kinds :: "string list" where
  "bundle_kinds = [''in_process_plugin'', ''scheduler_policy'', ''kv_connector'', ''kv_service_adapter'',
     ''control_plane_extension'', ''runtime_bridge'']"

definition runtimes :: "string list" where
  "runtimes = [''python'', ''external_service'', ''oci'', ''kubernetes'', ''composite'']"

definition lifecycle_owners :: "string list" where
  "lifecycle_owners = [''vllm'', ''host'', ''external_operator'', ''kubernetes'', ''user'']"

definition carriers :: "string list" where
  "carriers = [''host_builtin'', ''python_entry_point'', ''python_module'', ''external_service'', ''oci_image'',
     ''helm_values'', ''kubernetes_manifest'', ''crd'', ''controller'']"

definition bundle_claim_modes :: "string list" where
  "bundle_claim_modes = [''exclusive'', ''shared'']"

definition carrier_statuses :: "string list" where
  "carrier_statuses = [''active'', ''import_only'', ''legacy_unregistered'']"

text \<open>The experimental schema versions, and the fields of an experimental manifest.\<close>

definition experimental_schemas :: "string list" where
  "experimental_schemas = [''0.2-experimental'', ''0.3-experimental'', ''0.3'']"

definition experimental_fields :: "string list" where
  "experimental_fields = [''schema_version'', ''extension_id'', ''extension_version'', ''kind'', ''host'', ''runtime'',
     ''lifecycle_owner'', ''protocols'', ''implementation'', ''requires_services'', ''requires_extensions'',
     ''resource_claims'', ''components'', ''activation'']"

definition experimental_optional :: "string list" where
  "experimental_optional = [''components'', ''activation'', ''requires_extensions'', ''resource_claims'']"

subsection \<open>Regular expressions\<close>

text \<open>\<open>^[a-z0-9][a-z0-9.-]*$\<close> and \<open>^[a-z0-9][a-z0-9._:/-]*$\<close>, matched in full.\<close>

definition bundle_identifier :: "string \<Rightarrow> bool" where
  "bundle_identifier s \<longleftrightarrow> s \<noteq> [] \<and> ident_char (hd s) \<and> list_all (\<lambda>c. ident_char c \<or> ident_sep c) s"

definition resource_identifier :: "string \<Rightarrow> bool" where
  "resource_identifier s \<longleftrightarrow> s \<noteq> [] \<and> ident_char (hd s) \<and>
     list_all (\<lambda>c. ident_char c \<or> c \<in> set ''._:/-'') s"

text \<open>\<open>\w\<close> on characters up to U+00FF, and \<open>[A-Za-z_]\<close>.\<close>

definition word_char :: "char \<Rightarrow> bool" where
  "word_char c \<longleftrightarrow> (let n = code c in
     48 \<le> n \<and> n \<le> 57 \<or> 65 \<le> n \<and> n \<le> 90 \<or> n = 95 \<or> 97 \<le> n \<and> n \<le> 122
     \<or> n \<in> {170, 178, 179, 181, 185, 186, 188, 189, 190} \<or> 192 \<le> n \<and> n \<noteq> 215 \<and> n \<noteq> 247)"

definition name_start :: "char \<Rightarrow> bool" where
  "name_start c \<longleftrightarrow> (let n = code c in 65 \<le> n \<and> n \<le> 90 \<or> n = 95 \<or> 97 \<le> n \<and> n \<le> 122)"

text \<open>\<open>str.split(sep)\<close> with a separator of one character.\<close>

fun split_on :: "char \<Rightarrow> string \<Rightarrow> string list" where
  "split_on c [] = [[]]"
| "split_on c (x # s) =
     (if x = c then [] # split_on c s
      else (case split_on c s of [] \<Rightarrow> [[x]] | p # ps \<Rightarrow> (x # p) # ps))"

text \<open>\<open>[A-Za-z_]\w*\<close>, and \<open>[A-Za-z_]\w*(?:\.[A-Za-z_]\w*)*\<close>: a dot is not a word character.\<close>

definition python_name :: "string \<Rightarrow> bool" where
  "python_name s \<longleftrightarrow> s \<noteq> [] \<and> name_start (hd s) \<and> list_all word_char (tl s)"

definition dotted_name :: "string \<Rightarrow> bool" where
  "dotted_name s \<longleftrightarrow> list_all python_name (split_on CHR ''.'' s)"

text \<open>\<open>_IMPLEMENTATION\<close>: two dotted names around a colon, which is not a word character.\<close>

definition implementation_name :: "string \<Rightarrow> bool" where
  "implementation_name s = (case split_on CHR '':'' s of
     [module, obj] \<Rightarrow> dotted_name module \<and> dotted_name obj
   | _ \<Rightarrow> False)"

subsection \<open>Checked values\<close>

definition must :: "bool \<Rightarrow> manifest_exn + unit" where
  "must b = check b ManifestError"

definition mf_object :: "json \<Rightarrow> manifest_exn + (string \<times> json) list" where
  "mf_object value = (case value of JObj d \<Rightarrow> Inr d | _ \<Rightarrow> Inl ManifestError)"

definition mf_string :: "json \<Rightarrow> manifest_exn + string" where
  "mf_string value = (case value of
     JStr s \<Rightarrow> if py_strip s = [] then Inl ManifestError else Inr s
   | _ \<Rightarrow> Inl ManifestError)"

definition str_item :: "json \<Rightarrow> manifest_exn + string" where
  "str_item value = (case value of JStr s \<Rightarrow> Inr s | _ \<Rightarrow> Inl ManifestError)"

definition mf_strings :: "json \<Rightarrow> manifest_exn + string list" where
  "mf_strings value = (case value of
     JArr vs \<Rightarrow> ebind (emap str_item vs) (\<lambda>result.
       ebind (must (\<not> has_duplicates result)) (\<lambda>_. Inr result))
   | _ \<Rightarrow> Inl ManifestError)"

definition mf_known :: "string list \<Rightarrow> string list \<Rightarrow> manifest_exn + unit" where
  "mf_known vs known = must (set vs \<subseteq> set known)"

text \<open>\<open>d.get(key)\<close> and \<open>d.get(key, default)\<close>; a subscript of a key that was checked before.\<close>

definition get_default :: "string \<Rightarrow> json \<Rightarrow> (string \<times> json) list \<Rightarrow> json" where
  "get_default k v d = (case map_of d k of None \<Rightarrow> v | Some w \<Rightarrow> w)"

text \<open>What a \<open>for\<close> loop over a JSON value runs through.\<close>

definition py_iter :: "json \<Rightarrow> manifest_exn + json list" where
  "py_iter value = (case value of
     JArr vs \<Rightarrow> Inr vs
   | JStr s \<Rightarrow> Inr (map (\<lambda>c. JStr [c]) s)
   | JObj d \<Rightarrow> Inr (map (\<lambda>kv. JStr (fst kv)) d)
   | _ \<Rightarrow> Inl ManifestTypeError)"

text \<open>\<open>bool(value)\<close>, and \<open>value in {...}\<close> for a set of strings.\<close>

fun py_bool :: "json \<Rightarrow> bool" where
  "py_bool JNull = False"
| "py_bool (JBool b) = b"
| "py_bool (JInt i) = (i \<noteq> 0)"
| "py_bool (JStr s) = (s \<noteq> [])"
| "py_bool (JArr vs) = (vs \<noteq> [])"
| "py_bool (JObj d) = (d \<noteq> [])"

fun in_str_set :: "json \<Rightarrow> string list \<Rightarrow> manifest_exn + bool" where
  "in_str_set (JStr s) xs = Inr (s \<in> set xs)"
| "in_str_set (JArr _) xs = Inl ManifestTypeError"
| "in_str_set (JObj _) xs = Inl ManifestTypeError"
| "in_str_set _ xs = Inr False"

definition keys_are :: "(string \<times> json) list \<Rightarrow> string list \<Rightarrow> bool" where
  "keys_are d names \<longleftrightarrow> set (map fst d) = set names"

definition keys_within :: "(string \<times> json) list \<Rightarrow> string list \<Rightarrow> bool" where
  "keys_within d names \<longleftrightarrow> set (map fst d) \<subseteq> set names"

definition keys_include :: "(string \<times> json) list \<Rightarrow> string list \<Rightarrow> bool" where
  "keys_include d names \<longleftrightarrow> set names \<subseteq> set (map fst d)"

subsection \<open>\<open>_parse_activation\<close>\<close>

definition mf_entry_point :: "json \<Rightarrow> manifest_exn + activation_entry_point" where
  "mf_entry_point raw =
     ebind (mf_object raw) (\<lambda>item.
     ebind (must (keys_are item [''group'', ''name''])) (\<lambda>_.
     ebind (mf_string (get_or_null ''group'' item)) (\<lambda>group.
     ebind (mf_string (get_or_null ''name'' item)) (\<lambda>name.
     Inr \<lparr>ae_group = group, ae_name = name\<rparr>))))"

definition str_pair :: "string \<times> json \<Rightarrow> manifest_exn + string \<times> string" where
  "str_pair kv = ebind (str_item (snd kv)) (\<lambda>s. Inr (fst kv, s))"

definition no_activation :: bundle_activation where
  "no_activation = \<lparr>ba_entry_points = [], ba_environment = [], ba_additional_config = []\<rparr>"

text \<open>\<open>sorted(d.items())\<close> of a dict: its keys are distinct, so the values are never compared.\<close>

definition mf_activation :: "json \<Rightarrow> manifest_exn + bundle_activation" where
  "mf_activation value =
     (if value = JNull then Inr no_activation
      else
        ebind (mf_object value) (\<lambda>activation.
        ebind (must (keys_within activation [''entry_points'', ''environment'', ''additional_config''])) (\<lambda>_.
        ebind (ebind (py_iter (get_default ''entry_points'' (JArr []) activation)) (emap mf_entry_point)) (\<lambda>entries.
        ebind (mf_object (get_default ''environment'' (JObj []) activation)) (\<lambda>environment.
        ebind (emap str_pair environment) (\<lambda>pairs.
        ebind (mf_object (get_default ''additional_config'' (JObj []) activation)) (\<lambda>additional.
        Inr \<lparr>ba_entry_points = entries, ba_environment = sort_key fst pairs,
             ba_additional_config = sort_key fst additional\<rparr>)))))))"

subsection \<open>\<open>_parse_legacy_manifest\<close>\<close>

definition mf_component :: "json \<Rightarrow> manifest_exn + bundle_component" where
  "mf_component raw =
     ebind (mf_object raw) (\<lambda>item.
     ebind (must (keys_within item component_fields \<and> keys_include item (remove1 ''permissions'' component_fields))) (\<lambda>_.
     ebind (mf_string (get_or_null ''component_id'' item)) (\<lambda>component_id.
     ebind (must (bundle_identifier component_id)) (\<lambda>_.
     ebind (mf_strings (get_or_null ''contracts'' item)) (\<lambda>contracts.
     ebind (must (contracts \<noteq> [] \<and> list_all (prefix ''vllm.'') contracts)) (\<lambda>_.
     ebind (mf_strings (get_or_null ''execution_planes'' item)) (\<lambda>exec_planes.
     ebind (mf_known exec_planes planes) (\<lambda>_.
     ebind (mf_string (get_or_null ''isolation'' item)) (\<lambda>isolation.
     ebind (mf_known [isolation] isolations) (\<lambda>_.
     ebind (mf_string (get_or_null ''implementation_ref'' item)) (\<lambda>implementation.
     ebind (must (implementation_name implementation)) (\<lambda>_.
     ebind (mf_strings (get_default ''permissions'' (JArr []) item)) (\<lambda>perms.
     ebind (mf_known perms permissions) (\<lambda>_.
     Inr \<lparr>bc_component_id = component_id, bc_contracts = contracts, bc_execution_planes = exec_planes,
          bc_isolation = isolation, bc_implementation_ref = implementation, bc_permissions = perms\<rparr>))))))))))))))"

definition mf_components :: "json \<Rightarrow> manifest_exn + bundle_component list" where
  "mf_components value = (case value of
     JArr raws \<Rightarrow>
       ebind (must (raws \<noteq> [])) (\<lambda>_.
       ebind (emap mf_component raws) (\<lambda>components.
       ebind (must (\<not> has_duplicates (map bc_component_id components))) (\<lambda>_.
       Inr components)))
   | _ \<Rightarrow> Inl ManifestError)"

text \<open>\<open>Version(text)\<close> and \<open>SpecifierSet(text)\<close>, with the exceptions of \<open>packaging\<close> converted.\<close>

definition mf_version :: "('v, 's) pep440 \<Rightarrow> string \<Rightarrow> manifest_exn + 'v" where
  "mf_version P s = (case pk_version P s of None \<Rightarrow> Inl ManifestError | Some v \<Rightarrow> Inr v)"

definition mf_specifiers :: "('v, 's) pep440 \<Rightarrow> string \<Rightarrow> manifest_exn + 's" where
  "mf_specifiers P s = (case pk_specifiers P s of None \<Rightarrow> Inl ManifestError | Some r \<Rightarrow> Inr r)"

text \<open>\<open>HOST_API_VERSION in SpecifierSet(range)\<close> with \<open>HOST_API_VERSION = Version("1.0")\<close>.\<close>

definition host_api_in :: "('v, 's) pep440 \<Rightarrow> 's \<Rightarrow> bool" where
  "host_api_in P r = (case pk_version P ''1.0'' of None \<Rightarrow> False | Some v \<Rightarrow> pk_contains P r v)"

definition default_host :: host_spec where
  "default_host = \<lparr>hs_provider = ''vllm'', hs_name = ''vllm'', hs_version_range = ''>=0'', hs_api_range = Some ''>=1,<2''\<rparr>"

definition default_runtime :: runtime_spec where
  "default_runtime = \<lparr>ru_type = ''python'', ru_process_scope = ''vllm_processes'', ru_isolation = ''trusted_in_process''\<rparr>"

definition legacy_manifest ::
  "string \<Rightarrow> string \<Rightarrow> string \<Rightarrow> bundle_component list \<Rightarrow> bundle_activation \<Rightarrow> bundle_manifest" where
  "legacy_manifest bundle_id version api_range components activation =
     \<lparr>bm_bundle_id = bundle_id, bm_bundle_version = version, bm_host_api_range = api_range,
      bm_components = components, bm_activation = activation, bm_schema_version = ''1.0'',
      bm_kind = ''legacy_vllm_bundle'', bm_host = default_host, bm_runtime = default_runtime,
      bm_lifecycle_owner = ''vllm'', bm_protocols = [], bm_implementation = [], bm_requires_services = [],
      bm_requires_extensions = [], bm_resource_claims = [], bm_experimental = True\<rparr>"

definition parse_legacy_manifest :: "('v, 's) pep440 \<Rightarrow> json \<Rightarrow> manifest_exn + bundle_manifest" where
  "parse_legacy_manifest P payload =
     ebind (mf_object payload) (\<lambda>manifest.
     ebind (must (keys_within manifest top_level_fields)) (\<lambda>_.
     ebind (must (keys_include manifest (remove1 ''activation'' top_level_fields))) (\<lambda>_.
     ebind (must (get_or_null ''schema_version'' manifest = JStr ''1.0'')) (\<lambda>_.
     ebind (mf_string (get_or_null ''bundle_id'' manifest)) (\<lambda>bundle_id.
     ebind (must (bundle_identifier bundle_id)) (\<lambda>_.
     ebind (mf_string (get_or_null ''bundle_version'' manifest)) (\<lambda>bundle_version.
     ebind (mf_version P bundle_version) (\<lambda>_.
     ebind (mf_string (get_or_null ''host_api_range'' manifest)) (\<lambda>host_api_range.
     ebind (mf_specifiers P host_api_range) (\<lambda>specifiers.
     ebind (must (host_api_in P specifiers)) (\<lambda>_.
     ebind (mf_components (get_or_null ''components'' manifest)) (\<lambda>components.
     ebind (mf_activation (get_or_null ''activation'' manifest)) (\<lambda>activation.
     Inr (legacy_manifest bundle_id bundle_version host_api_range components activation))))))))))))))"

subsection \<open>The parts of an experimental manifest\<close>

definition mf_specifier :: "('v, 's) pep440 \<Rightarrow> json \<Rightarrow> manifest_exn + string" where
  "mf_specifier P value =
     ebind (mf_string value) (\<lambda>result. ebind (mf_specifiers P result) (\<lambda>_. Inr result))"

definition mf_optional_specifier :: "('v, 's) pep440 \<Rightarrow> json \<Rightarrow> manifest_exn + string option" where
  "mf_optional_specifier P value =
     (if value = JNull then Inr None else ebind (mf_specifier P value) (\<lambda>s. Inr (Some s)))"

definition mf_host :: "('v, 's) pep440 \<Rightarrow> json \<Rightarrow> manifest_exn + host_spec" where
  "mf_host P value =
     ebind (mf_object value) (\<lambda>host.
     ebind (must (keys_within host [''provider'', ''name'', ''version_range'', ''api_range'']
       \<and> keys_include host [''provider'', ''name'', ''version_range''])) (\<lambda>_.
     ebind (mf_string (get_or_null ''provider'' host)) (\<lambda>provider.
     ebind (must (bundle_identifier provider)) (\<lambda>_.
     ebind (mf_string (get_or_null ''name'' host)) (\<lambda>name.
     ebind (mf_specifier P (get_or_null ''version_range'' host)) (\<lambda>version_range.
     ebind (mf_optional_specifier P (get_or_null ''api_range'' host)) (\<lambda>api_range.
     Inr \<lparr>hs_provider = provider, hs_name = name, hs_version_range = version_range, hs_api_range = api_range\<rparr>)))))))"

definition mf_runtime :: "json \<Rightarrow> manifest_exn + runtime_spec" where
  "mf_runtime value =
     ebind (mf_object value) (\<lambda>runtime.
     ebind (must (keys_are runtime [''type'', ''process_scope'', ''isolation''])) (\<lambda>_.
     ebind (mf_string (get_or_null ''type'' runtime)) (\<lambda>runtime_type.
     ebind (mf_known [runtime_type] runtimes) (\<lambda>_.
     ebind (mf_string (get_or_null ''process_scope'' runtime)) (\<lambda>process_scope.
     ebind (mf_string (get_or_null ''isolation'' runtime)) (\<lambda>isolation.
     Inr \<lparr>ru_type = runtime_type, ru_process_scope = process_scope, ru_isolation = isolation\<rparr>))))))"

definition mf_list :: "json \<Rightarrow> manifest_exn + json list" where
  "mf_list value = (case value of JArr vs \<Rightarrow> Inr vs | _ \<Rightarrow> Inl ManifestError)"

definition mf_protocol :: "('v, 's) pep440 \<Rightarrow> json \<Rightarrow> manifest_exn + protocol_spec" where
  "mf_protocol P raw =
     ebind (mf_object raw) (\<lambda>item.
     ebind (must (keys_are item [''name'', ''version_range''])) (\<lambda>_.
     ebind (mf_string (get_or_null ''name'' item)) (\<lambda>name.
     ebind (mf_optional_specifier P (get_or_null ''version_range'' item)) (\<lambda>version_range.
     Inr \<lparr>pt_name = name, pt_version_range = version_range\<rparr>))))"

definition mf_protocols :: "('v, 's) pep440 \<Rightarrow> json \<Rightarrow> manifest_exn + protocol_spec list" where
  "mf_protocols P value = ebind (mf_list value) (emap (mf_protocol P))"

definition mf_python_module :: "(string \<times> json) list \<Rightarrow> manifest_exn + unit" where
  "mf_python_module attributes =
     ebind (must (keys_are attributes [''module'', ''object'', ''status''])) (\<lambda>_.
     ebind (mf_string (get_or_null ''module'' attributes)) (\<lambda>module.
     ebind (mf_string (get_or_null ''object'' attributes)) (\<lambda>obj.
     ebind (mf_string (get_or_null ''status'' attributes)) (\<lambda>status.
     ebind (must (dotted_name module)) (\<lambda>_.
     ebind (must (python_name obj)) (\<lambda>_.
     must (status \<in> set carrier_statuses)))))))"

definition mf_carrier :: "json \<Rightarrow> manifest_exn + implementation_carrier" where
  "mf_carrier raw =
     ebind (mf_object raw) (\<lambda>item.
     ebind (mf_string (get_or_null ''type'' item)) (\<lambda>carrier_type.
     ebind (mf_known [carrier_type] carriers) (\<lambda>_.
     let attributes = filter (\<lambda>kv. fst kv \<noteq> ''type'') item in
     ebind (must (attributes \<noteq> [])) (\<lambda>_.
     ebind (if carrier_type = ''python_module'' then mf_python_module attributes else Inr ()) (\<lambda>_.
     Inr \<lparr>ic_type = carrier_type, ic_attributes = sort_key fst attributes\<rparr>)))))"

definition mf_implementation :: "json \<Rightarrow> manifest_exn + implementation_carrier list" where
  "mf_implementation value =
     ebind (mf_list value) (\<lambda>raws.
     ebind (must (raws \<noteq> [])) (\<lambda>_. emap mf_carrier raws))"

definition service_fields :: "string list" where
  "service_fields = [''service_id'', ''protocol'', ''version_range'', ''endpoint_config'']"

definition mf_service :: "('v, 's) pep440 \<Rightarrow> json \<Rightarrow> manifest_exn + required_service" where
  "mf_service P raw =
     ebind (mf_object raw) (\<lambda>item.
     ebind (must (keys_within item (service_fields @ [''optional'']) \<and> keys_include item service_fields)) (\<lambda>_.
     ebind (case get_default ''optional'' (JBool False) item of JBool b \<Rightarrow> Inr b | _ \<Rightarrow> Inl ManifestError) (\<lambda>optional.
     ebind (mf_string (get_or_null ''service_id'' item)) (\<lambda>service_id.
     ebind (mf_string (get_or_null ''protocol'' item)) (\<lambda>protocol.
     ebind (mf_optional_specifier P (get_or_null ''version_range'' item)) (\<lambda>version_range.
     ebind (mf_string (get_or_null ''endpoint_config'' item)) (\<lambda>endpoint_config.
     Inr \<lparr>sv_service_id = service_id, sv_protocol = protocol, sv_version_range = version_range,
          sv_endpoint_config = endpoint_config, sv_optional = optional\<rparr>)))))))"

definition mf_services :: "('v, 's) pep440 \<Rightarrow> json \<Rightarrow> manifest_exn + required_service list" where
  "mf_services P value = ebind (mf_list value) (emap (mf_service P))"

definition mf_dependency :: "('v, 's) pep440 \<Rightarrow> json \<Rightarrow> manifest_exn + required_extension" where
  "mf_dependency P raw =
     ebind (mf_object raw) (\<lambda>item.
     ebind (must (keys_are item [''extension_id'', ''version_range''])) (\<lambda>_.
     ebind (mf_string (get_or_null ''extension_id'' item)) (\<lambda>extension_id.
     ebind (must (bundle_identifier extension_id)) (\<lambda>_.
     ebind (mf_specifier P (get_or_null ''version_range'' item)) (\<lambda>version_range.
     Inr \<lparr>rx_extension_id = extension_id, rx_version_range = version_range\<rparr>)))))"

definition mf_extension_dependencies :: "('v, 's) pep440 \<Rightarrow> json \<Rightarrow> manifest_exn + required_extension list" where
  "mf_extension_dependencies P value =
     ebind (mf_list value) (\<lambda>raws.
     ebind (emap (mf_dependency P) raws) (\<lambda>result.
     ebind (must (\<not> has_duplicates (map rx_extension_id result))) (\<lambda>_.
     Inr result)))"

definition mf_resource_claim :: "json \<Rightarrow> manifest_exn + bundle_claim" where
  "mf_resource_claim raw =
     ebind (mf_object raw) (\<lambda>item.
     ebind (must (keys_are item [''resource'', ''scope'', ''mode''])) (\<lambda>_.
     ebind (mf_string (get_or_null ''resource'' item)) (\<lambda>resource.
     ebind (mf_string (get_or_null ''scope'' item)) (\<lambda>scope.
     ebind (mf_string (get_or_null ''mode'' item)) (\<lambda>mode.
     ebind (must (resource_identifier resource \<and> resource_identifier scope)) (\<lambda>_.
     ebind (mf_known [mode] bundle_claim_modes) (\<lambda>_.
     Inr \<lparr>bk_resource = resource, bk_scope = scope, bk_mode = mode\<rparr>)))))))"

definition mf_resource_claims :: "json \<Rightarrow> manifest_exn + bundle_claim list" where
  "mf_resource_claims value =
     ebind (mf_list value) (\<lambda>raws.
     ebind (emap mf_resource_claim raws) (\<lambda>result.
     ebind (must (\<not> has_duplicates result)) (\<lambda>_.
     Inr result)))"

subsection \<open>\<open>_parse_experimental_manifest\<close>, \<open>parse_manifest\<close>\<close>

text \<open>The components of an experimental manifest are parsed as those of a manifest of schema 1.0.\<close>

definition mf_experimental_components ::
  "('v, 's) pep440 \<Rightarrow> string \<Rightarrow> string \<Rightarrow> (string \<times> json) list \<Rightarrow> manifest_exn + bundle_component list" where
  "mf_experimental_components P extension_id version manifest =
     (if py_bool (get_or_null ''components'' manifest) then
        ebind (parse_legacy_manifest P (JObj
          [(''schema_version'', JStr ''1.0''), (''bundle_id'', JStr extension_id), (''bundle_version'', JStr version),
           (''host_api_range'', JStr ''>=1,<2''), (''components'', get_or_null ''components'' manifest),
           (''activation'', get_or_null ''activation'' manifest)])) (\<lambda>legacy.
        Inr (bm_components legacy))
      else Inr [])"

text \<open>\<open>schema_version not in {...}\<close>, and the fields that schema 0.2 does not have.\<close>

definition mf_schema :: "(string \<times> json) list \<Rightarrow> manifest_exn + string" where
  "mf_schema manifest =
     (let schema_version = get_or_null ''schema_version'' manifest in
      ebind (in_str_set schema_version experimental_schemas) (\<lambda>known.
      ebind (must known) (\<lambda>_.
      ebind (must (\<not> (schema_version = JStr ''0.2-experimental'' \<and> ''resource_claims'' \<in> set (map fst manifest)))) (\<lambda>_.
      ebind (must (\<not> (schema_version = JStr ''0.2-experimental'' \<and> ''requires_extensions'' \<in> set (map fst manifest)))) (\<lambda>_.
      str_item schema_version)))))"

definition parse_experimental_manifest :: "('v, 's) pep440 \<Rightarrow> json \<Rightarrow> manifest_exn + bundle_manifest" where
  "parse_experimental_manifest P payload =
     ebind (mf_object payload) (\<lambda>manifest.
     ebind (must (keys_within manifest experimental_fields
       \<and> keys_include manifest (filter (\<lambda>f. f \<notin> set experimental_optional) experimental_fields))) (\<lambda>_.
     ebind (mf_string (get_or_null ''extension_id'' manifest)) (\<lambda>extension_id.
     ebind (must (bundle_identifier extension_id)) (\<lambda>_.
     ebind (mf_string (get_or_null ''extension_version'' manifest)) (\<lambda>version.
     ebind (mf_version P version) (\<lambda>_.
     ebind (mf_string (get_or_null ''kind'' manifest)) (\<lambda>kind.
     ebind (mf_known [kind] bundle_kinds) (\<lambda>_.
     ebind (mf_string (get_or_null ''lifecycle_owner'' manifest)) (\<lambda>owner.
     ebind (mf_known [owner] lifecycle_owners) (\<lambda>_.
     ebind (mf_experimental_components P extension_id version manifest) (\<lambda>components.
     ebind (mf_schema manifest) (\<lambda>schema_version.
     ebind (mf_activation (get_or_null ''activation'' manifest)) (\<lambda>activation.
     ebind (mf_host P (get_or_null ''host'' manifest)) (\<lambda>host.
     ebind (mf_runtime (get_or_null ''runtime'' manifest)) (\<lambda>runtime.
     ebind (mf_protocols P (get_or_null ''protocols'' manifest)) (\<lambda>protocols.
     ebind (mf_implementation (get_or_null ''implementation'' manifest)) (\<lambda>implementation.
     ebind (mf_services P (get_or_null ''requires_services'' manifest)) (\<lambda>services.
     ebind (mf_extension_dependencies P (get_default ''requires_extensions'' (JArr []) manifest)) (\<lambda>dependencies.
     ebind (mf_resource_claims (get_default ''resource_claims'' (JArr []) manifest)) (\<lambda>claims.
     Inr \<lparr>bm_bundle_id = extension_id, bm_bundle_version = version, bm_host_api_range = ''>=0'',
          bm_components = components, bm_activation = activation, bm_schema_version = schema_version,
          bm_kind = kind, bm_host = host, bm_runtime = runtime, bm_lifecycle_owner = owner,
          bm_protocols = protocols, bm_implementation = implementation, bm_requires_services = services,
          bm_requires_extensions = dependencies, bm_resource_claims = claims, bm_experimental = True\<rparr>))))))))))))))))))))"

definition parse_manifest :: "('v, 's) pep440 \<Rightarrow> json \<Rightarrow> manifest_exn + bundle_manifest" where
  "parse_manifest P payload =
     ebind (mf_object payload) (\<lambda>manifest.
     let schema_version = get_or_null ''schema_version'' manifest in
     if schema_version = JStr ''1.0'' then parse_legacy_manifest P (JObj manifest)
     else ebind (in_str_set schema_version experimental_schemas) (\<lambda>known.
       if known then parse_experimental_manifest P (JObj manifest) else Inl ManifestError))"

text \<open>
  \<open>load_manifest(path)\<close>: whether the path is a regular file and not a symbolic link, and its bytes,
  \<open>None\<close> when reading fails.
\<close>

definition load_manifest :: "('v, 's) pep440 \<Rightarrow> bool \<Rightarrow> string option \<Rightarrow> manifest_exn + bundle_manifest" where
  "load_manifest P regular bytes =
     (if \<not> regular then Inl ManifestError
      else (case bytes of
        None \<Rightarrow> Inl ManifestError
      | Some b \<Rightarrow> (case json_loads b of
          None \<Rightarrow> Inl ManifestError
        | Some payload \<Rightarrow> parse_manifest P payload)))"

subsection \<open>\<open>activation_blocker\<close>\<close>

definition carrier_status :: "implementation_carrier \<Rightarrow> json" where
  "carrier_status c = get_or_null ''status'' (ic_attributes c)"

definition active_carrier :: "implementation_carrier \<Rightarrow> bool" where
  "active_carrier c \<longleftrightarrow> carrier_status c = JStr ''active''
     \<or> carrier_status c = JNull \<and> ic_type c \<noteq> ''python_module''"

text \<open>\<open>[str(status) for status in statuses if status in {"import_only", "legacy_unregistered"}]\<close>\<close>

definition inactive_status :: "json \<Rightarrow> manifest_exn + string list" where
  "inactive_status status =
     ebind (in_str_set status [''import_only'', ''legacy_unregistered'']) (\<lambda>b.
     Inr (case status of JStr s \<Rightarrow> if b then [s] else [] | _ \<Rightarrow> []))"

definition blocker_text :: "string list \<Rightarrow> string" where
  "blocker_text statuses = ''extension is descriptor-only and cannot be enabled (implementation status: ''
     @ py_join '', '' (sort (remdups statuses)) @ '')''"

definition activation_blocker :: "bundle_manifest \<Rightarrow> manifest_exn + string option" where
  "activation_blocker manifest =
     (let has_active = list_ex active_carrier (bm_implementation manifest) in
      ebind (emap (\<lambda>c. inactive_status (carrier_status c)) (bm_implementation manifest)) (\<lambda>groups.
      let declared_inactive = concat groups in
      Inr (if declared_inactive \<noteq> [] \<and> \<not> has_active then Some (blocker_text declared_inactive) else None)))"

subsection \<open>What the checked values are\<close>

named_theorems mf_iffs \<open>when a value is accepted\<close>

lemma must_iff [mf_iffs]: "must b = Inr u \<longleftrightarrow> b"
  by (simp add: must_def)

lemma mf_known_iff [mf_iffs]: "mf_known vs known = Inr u \<longleftrightarrow> set vs \<subseteq> set known"
  by (simp add: mf_known_def mf_iffs)

lemma mf_object_iff [mf_iffs]: "mf_object v = Inr d \<longleftrightarrow> v = JObj d"
  by (cases v) (auto simp: mf_object_def)

lemma mf_list_iff [mf_iffs]: "mf_list v = Inr vs \<longleftrightarrow> v = JArr vs"
  by (cases v) (auto simp: mf_list_def)

lemma mf_string_iff [mf_iffs]: "mf_string v = Inr s \<longleftrightarrow> v = JStr s \<and> py_strip s \<noteq> []"
  by (cases v) (auto simp: mf_string_def)

lemma str_item_iff [mf_iffs]: "str_item v = Inr s \<longleftrightarrow> v = JStr s"
  by (cases v) (auto simp: str_item_def)

lemma emap_str_item: "emap str_item vs = Inr xs \<longleftrightarrow> vs = map JStr xs"
proof (induction vs arbitrary: xs)
  case Nil
  then show ?case by auto
next
  case (Cons v vs)
  then show ?case by (cases xs) (auto simp: ebind_Inr_iff mf_iffs)
qed

lemma mf_strings_iff [mf_iffs]: "mf_strings v = Inr xs \<longleftrightarrow> v = JArr (map JStr xs) \<and> distinct xs"
  by (cases v) (auto simp: mf_strings_def ebind_Inr_iff mf_iffs emap_str_item)

lemma mf_version_iff [mf_iffs]: "mf_version P s = Inr v \<longleftrightarrow> pk_version P s = Some v"
  by (auto simp: mf_version_def split: option.splits)

lemma mf_specifiers_iff [mf_iffs]: "mf_specifiers P s = Inr r \<longleftrightarrow> pk_specifiers P s = Some r"
  by (auto simp: mf_specifiers_def split: option.splits)

lemma mf_specifier_iff [mf_iffs]:
  "mf_specifier P v = Inr s \<longleftrightarrow> v = JStr s \<and> py_strip s \<noteq> [] \<and> pk_specifiers P s \<noteq> None"
  by (auto simp: mf_specifier_def ebind_Inr_iff mf_iffs)

lemma mf_optional_specifier_iff [mf_iffs]:
  "mf_optional_specifier P v = Inr r \<longleftrightarrow> (case r of
     None \<Rightarrow> v = JNull
   | Some s \<Rightarrow> v = JStr s \<and> py_strip s \<noteq> [] \<and> pk_specifiers P s \<noteq> None)"
  by (auto simp: mf_optional_specifier_def ebind_Inr_iff mf_iffs split: option.splits)

lemma nonblank_first: "s \<noteq> [] \<Longrightarrow> \<not> is_space (hd s) \<Longrightarrow> py_strip s \<noteq> []"
  by (cases s) (auto simp: py_strip_def dropWhile_append)

lemma ident_char_nonspace: "ident_char c \<Longrightarrow> \<not> is_space c"
  by (auto simp: ident_char_def is_space_def)

lemma name_start_nonspace: "name_start c \<Longrightarrow> \<not> is_space c"
  by (auto simp: name_start_def is_space_def Let_def)

lemma bundle_identifier_nonblank: "bundle_identifier s \<Longrightarrow> py_strip s \<noteq> []"
  by (rule nonblank_first) (auto simp: bundle_identifier_def dest: ident_char_nonspace)

lemma split_on_nonempty [simp]: "split_on c s \<noteq> []"
  by (induction s) (auto split: list.splits)

lemma split_on_first: "split_on c s = p # ps \<Longrightarrow> p \<noteq> [] \<Longrightarrow> s \<noteq> [] \<and> hd s = hd p"
  by (cases s) (auto split: if_splits list.splits)

lemma dotted_name_first: "dotted_name s \<Longrightarrow> s \<noteq> [] \<and> name_start (hd s)"
  by (cases "split_on CHR ''.'' s") (auto simp: dotted_name_def python_name_def dest!: split_on_first)

lemma implementation_name_nonblank: "implementation_name s \<Longrightarrow> py_strip s \<noteq> []"
  by (rule nonblank_first)
    (auto simp: implementation_name_def split: list.splits dest!: split_on_first dotted_name_first
      dest: name_start_nonspace)

subsection \<open>Well-formed manifests\<close>

definition component_wf :: "bundle_component \<Rightarrow> bool" where
  "component_wf c \<longleftrightarrow> bundle_identifier (bc_component_id c)
     \<and> bc_contracts c \<noteq> [] \<and> distinct (bc_contracts c) \<and> list_all (prefix ''vllm.'') (bc_contracts c)
     \<and> distinct (bc_execution_planes c) \<and> set (bc_execution_planes c) \<subseteq> set planes
     \<and> bc_isolation c \<in> set isolations \<and> implementation_name (bc_implementation_ref c)
     \<and> distinct (bc_permissions c) \<and> set (bc_permissions c) \<subseteq> set permissions"

definition components_wf :: "bundle_component list \<Rightarrow> bool" where
  "components_wf cs \<longleftrightarrow> list_all component_wf cs \<and> distinct (map bc_component_id cs)"

definition dependencies_wf :: "('v, 's) pep440 \<Rightarrow> required_extension list \<Rightarrow> bool" where
  "dependencies_wf P ds \<longleftrightarrow> distinct (map rx_extension_id ds)
     \<and> (\<forall>d \<in> set ds. bundle_identifier (rx_extension_id d) \<and> pk_specifiers P (rx_version_range d) \<noteq> None)"

definition claims_wf :: "bundle_claim list \<Rightarrow> bool" where
  "claims_wf cs \<longleftrightarrow> distinct cs \<and> (\<forall>c \<in> set cs. resource_identifier (bk_resource c)
     \<and> resource_identifier (bk_scope c) \<and> bk_mode c \<in> set bundle_claim_modes)"

text \<open>The ranges of an experimental manifest are valid specifier sets and its carriers are known.\<close>

definition range_wf :: "('v, 's) pep440 \<Rightarrow> string option \<Rightarrow> bool" where
  "range_wf P r = (case r of None \<Rightarrow> True | Some s \<Rightarrow> pk_specifiers P s \<noteq> None)"

definition carrier_wf :: "implementation_carrier \<Rightarrow> bool" where
  "carrier_wf c \<longleftrightarrow> ic_type c \<in> set carriers \<and> ic_attributes c \<noteq> []
     \<and> (ic_type c = ''python_module'' \<longrightarrow> (\<exists>s. carrier_status c = JStr s \<and> s \<in> set carrier_statuses))"

definition experimental_wf :: "('v, 's) pep440 \<Rightarrow> bundle_manifest \<Rightarrow> bool" where
  "experimental_wf P m \<longleftrightarrow> bm_schema_version m \<in> set experimental_schemas
     \<and> bm_kind m \<in> set bundle_kinds \<and> bm_lifecycle_owner m \<in> set lifecycle_owners
     \<and> bundle_identifier (hs_provider (bm_host m)) \<and> pk_specifiers P (hs_version_range (bm_host m)) \<noteq> None
     \<and> range_wf P (hs_api_range (bm_host m)) \<and> ru_type (bm_runtime m) \<in> set runtimes
     \<and> list_all (\<lambda>p. range_wf P (pt_version_range p)) (bm_protocols m)
     \<and> bm_implementation m \<noteq> [] \<and> list_all carrier_wf (bm_implementation m)
     \<and> list_all (\<lambda>s. range_wf P (sv_version_range s)) (bm_requires_services m)"

text \<open>A manifest of schema 1.0 declares components for the host API the manager provides.\<close>

definition legacy_wf :: "('v, 's) pep440 \<Rightarrow> bundle_manifest \<Rightarrow> bool" where
  "legacy_wf P m \<longleftrightarrow> m = legacy_manifest (bm_bundle_id m) (bm_bundle_version m) (bm_host_api_range m)
       (bm_components m) (bm_activation m)
     \<and> bm_components m \<noteq> []
     \<and> (\<exists>r. pk_specifiers P (bm_host_api_range m) = Some r \<and> host_api_in P r)"

definition manifest_wf :: "('v, 's) pep440 \<Rightarrow> bundle_manifest \<Rightarrow> bool" where
  "manifest_wf P m \<longleftrightarrow> bundle_identifier (bm_bundle_id m)
     \<and> py_strip (bm_bundle_version m) \<noteq> [] \<and> pk_version P (bm_bundle_version m) \<noteq> None
     \<and> components_wf (bm_components m)
     \<and> dependencies_wf P (bm_requires_extensions m) \<and> claims_wf (bm_resource_claims m)
     \<and> (legacy_wf P m \<or> experimental_wf P m)"

lemma mf_component_wf: "mf_component v = Inr c \<Longrightarrow> component_wf c"
  by (auto simp: mf_component_def ebind_Inr_iff mf_iffs component_wf_def)

lemma mf_components_wf:
  assumes "mf_components v = Inr cs"
  shows "components_wf cs \<and> cs \<noteq> []"
proof -
  from assms obtain raws where raws: "emap mf_component raws = Inr cs" "raws \<noteq> []"
    and dup: "distinct (map bc_component_id cs)"
    by (cases v) (auto simp: mf_components_def ebind_Inr_iff mf_iffs)
  have "\<forall>c \<in> set cs. component_wf c"
    by (rule emap_all [OF raws(1)]) (rule mf_component_wf)
  moreover from raws have "cs \<noteq> []" by (auto dest: emap_length)
  ultimately show ?thesis using dup by (simp add: components_wf_def list_all_iff)
qed

lemma mf_dependencies_wf:
  assumes "mf_extension_dependencies P v = Inr ds"
  shows "dependencies_wf P ds"
proof -
  from assms obtain raws where raws: "emap (mf_dependency P) raws = Inr ds" and dup: "distinct (map rx_extension_id ds)"
    by (auto simp: mf_extension_dependencies_def ebind_Inr_iff mf_iffs)
  have "\<forall>d \<in> set ds. bundle_identifier (rx_extension_id d) \<and> pk_specifiers P (rx_version_range d) \<noteq> None"
    by (rule emap_all [OF raws]) (auto simp: mf_dependency_def ebind_Inr_iff mf_iffs)
  with dup show ?thesis by (simp add: dependencies_wf_def)
qed

lemma mf_claims_wf:
  assumes "mf_resource_claims v = Inr cs"
  shows "claims_wf cs"
proof -
  from assms obtain raws where raws: "emap mf_resource_claim raws = Inr cs" and dup: "distinct cs"
    by (auto simp: mf_resource_claims_def ebind_Inr_iff mf_iffs)
  have "\<forall>c \<in> set cs. resource_identifier (bk_resource c) \<and> resource_identifier (bk_scope c)
      \<and> bk_mode c \<in> set bundle_claim_modes"
    by (rule emap_all [OF raws]) (auto simp: mf_resource_claim_def ebind_Inr_iff mf_iffs)
  with dup show ?thesis by (simp add: claims_wf_def)
qed

lemma parse_legacy_wf:
  assumes "parse_legacy_manifest P v = Inr m"
  shows "manifest_wf P m \<and> legacy_wf P m"
proof -
  from assms obtain d cs act r where id: "bundle_identifier (bm_bundle_id m)"
    and version: "py_strip (bm_bundle_version m) \<noteq> []" "pk_version P (bm_bundle_version m) \<noteq> None"
    and api: "pk_specifiers P (bm_host_api_range m) = Some r" "host_api_in P r"
    and cs: "mf_components (get_or_null ''components'' d) = Inr cs"
    and m: "m = legacy_manifest (bm_bundle_id m) (bm_bundle_version m) (bm_host_api_range m) cs act"
    by (auto simp: parse_legacy_manifest_def ebind_Inr_iff mf_iffs legacy_manifest_def)
  from m have fields: "bm_components m = cs" "bm_activation m = act" "bm_requires_extensions m = []"
      "bm_resource_claims m = []"
    by (simp_all add: legacy_manifest_def) (metis (lifting) bundle_manifest.select_convs)+
  from m fields api mf_components_wf [OF cs] have "legacy_wf P m" by (simp add: legacy_wf_def)
  with id version fields mf_components_wf [OF cs] show ?thesis
    by (simp add: manifest_wf_def dependencies_wf_def claims_wf_def)
qed

lemma map_of_first: "map_of xs k = (case filter (\<lambda>x. fst x = k) xs of [] \<Rightarrow> None | x # _ \<Rightarrow> Some (snd x))"
  by (induction xs) auto

lemma map_of_sort_key_first: "map_of (sort_key fst xs) = map_of xs"
  by (rule ext) (simp add: map_of_first sort_key_stable)

lemma sort_key_empty_iff: "sort_key f xs = [] \<longleftrightarrow> xs = []"
  by (metis length_0_conv length_sort)

lemma mf_python_module_status:
  "mf_python_module d = Inr u \<Longrightarrow> \<exists>s. get_or_null ''status'' d = JStr s \<and> s \<in> set carrier_statuses"
  unfolding mf_python_module_def ebind_Inr_iff mf_iffs by blast

lemma mf_carrier_wf:
  assumes "mf_carrier v = Inr c"
  shows "carrier_wf c"
proof -
  from assms obtain d u t where type: "set [t] \<subseteq> set carriers" and attrs: "filter (\<lambda>kv. fst kv \<noteq> ''type'') d \<noteq> []"
    and module: "(if t = ''python_module'' then mf_python_module (filter (\<lambda>kv. fst kv \<noteq> ''type'') d) else Inr ()) = Inr u"
    and c: "\<lparr>ic_type = t, ic_attributes = sort_key fst (filter (\<lambda>kv. fst kv \<noteq> ''type'') d)\<rparr> = c"
    unfolding mf_carrier_def ebind_Inr_iff Let_def mf_iffs sum.inject by blast
  from c have fields: "ic_type c = t" "ic_attributes c = sort_key fst (filter (\<lambda>kv. fst kv \<noteq> ''type'') d)"
    by (auto simp only: implementation_carrier.select_convs)
  have status: "carrier_status c = get_or_null ''status'' (filter (\<lambda>kv. fst kv \<noteq> ''type'') d)"
    unfolding carrier_status_def get_or_null_def fields map_of_sort_key_first ..
  have "\<exists>s. carrier_status c = JStr s \<and> s \<in> set carrier_statuses" if "t = ''python_module''"
    using module unfolding if_P [OF that] status by (rule mf_python_module_status)
  with type attrs show ?thesis by (simp add: carrier_wf_def fields sort_key_empty_iff del: filter_False)
qed

lemma mf_optional_specifier_wf: "mf_optional_specifier P v = Inr r \<Longrightarrow> range_wf P r"
  by (auto simp: mf_iffs range_wf_def split: option.splits)

lemma mf_host_wf:
  assumes "mf_host P v = Inr h"
  shows "bundle_identifier (hs_provider h) \<and> pk_specifiers P (hs_version_range h) \<noteq> None \<and> range_wf P (hs_api_range h)"
proof -
  from assms obtain d where "mf_string (get_or_null ''provider'' d) = Inr (hs_provider h)"
      "must (bundle_identifier (hs_provider h)) = Inr ()"
      "mf_specifier P (get_or_null ''version_range'' d) = Inr (hs_version_range h)"
      "mf_optional_specifier P (get_or_null ''api_range'' d) = Inr (hs_api_range h)"
    unfolding mf_host_def ebind_Inr_iff sum.inject by force
  then show ?thesis by (simp add: mf_optional_specifier_wf must_iff mf_specifier_iff)
qed

lemma mf_protocols_wf:
  assumes "mf_protocols P v = Inr ps"
  shows "list_all (\<lambda>p. range_wf P (pt_version_range p)) ps"
proof -
  from assms obtain raws where raws: "emap (mf_protocol P) raws = Inr ps"
    by (auto simp: mf_protocols_def ebind_Inr_iff)
  show ?thesis unfolding list_all_iff
    by (rule emap_all [OF raws])
      (auto simp: mf_protocol_def ebind_Inr_iff mf_iffs range_wf_def split: option.splits)
qed

lemma mf_services_wf:
  assumes "mf_services P v = Inr ss"
  shows "list_all (\<lambda>s. range_wf P (sv_version_range s)) ss"
proof -
  from assms obtain raws where raws: "emap (mf_service P) raws = Inr ss"
    by (auto simp: mf_services_def ebind_Inr_iff)
  show ?thesis unfolding list_all_iff
    by (rule emap_all [OF raws])
      (auto simp: mf_service_def ebind_Inr_iff mf_iffs range_wf_def split: option.splits)
qed

lemma mf_implementation_wf:
  assumes "mf_implementation v = Inr cs"
  shows "cs \<noteq> [] \<and> list_all carrier_wf cs"
proof -
  from assms obtain raws where raws: "emap mf_carrier raws = Inr cs" "raws \<noteq> []"
    by (auto simp: mf_implementation_def ebind_Inr_iff mf_iffs)
  have "\<forall>c \<in> set cs. carrier_wf c"
    by (rule emap_all [OF raws(1)]) (rule mf_carrier_wf)
  with raws show ?thesis by (auto simp: list_all_iff dest: emap_length)
qed

lemma mf_runtime_wf: "mf_runtime v = Inr r \<Longrightarrow> ru_type r \<in> set runtimes"
  by (auto simp: mf_runtime_def ebind_Inr_iff mf_iffs)

lemma mf_schema_wf: "mf_schema d = Inr s \<Longrightarrow> s \<in> set experimental_schemas"
  by (auto simp: mf_schema_def ebind_Inr_iff mf_iffs Let_def)

lemma mf_experimental_components_wf:
  assumes "mf_experimental_components P i v d = Inr cs"
  shows "components_wf cs"
proof (cases "py_bool (get_or_null ''components'' d)")
  case True
  with assms obtain w m where m: "parse_legacy_manifest P w = Inr m" and cs: "cs = bm_components m"
    unfolding mf_experimental_components_def if_P [OF True] ebind_Inr_iff by (elim exE conjE) (simp only: sum.inject)
  from parse_legacy_wf [OF m] show ?thesis by (simp add: manifest_wf_def cs)
next
  case False
  with assms show ?thesis by (simp add: mf_experimental_components_def components_wf_def)
qed

lemma parse_experimental_parts:
  assumes "parse_experimental_manifest P v = Inr m"
  obtains d ver where "v = JObj d" and "keys_within d experimental_fields"
    and "keys_include d (filter (\<lambda>f. f \<notin> set experimental_optional) experimental_fields)"
    and "get_or_null ''extension_id'' d = JStr (bm_bundle_id m)" and "bundle_identifier (bm_bundle_id m)"
    and "get_or_null ''extension_version'' d = JStr (bm_bundle_version m)"
    and "py_strip (bm_bundle_version m) \<noteq> []" "pk_version P (bm_bundle_version m) = Some ver"
    and "set [bm_kind m] \<subseteq> set bundle_kinds" "set [bm_lifecycle_owner m] \<subseteq> set lifecycle_owners"
    and "mf_experimental_components P (bm_bundle_id m) (bm_bundle_version m) d = Inr (bm_components m)"
    and "mf_schema d = Inr (bm_schema_version m)"
    and "mf_host P (get_or_null ''host'' d) = Inr (bm_host m)"
    and "mf_runtime (get_or_null ''runtime'' d) = Inr (bm_runtime m)"
    and "mf_protocols P (get_or_null ''protocols'' d) = Inr (bm_protocols m)"
    and "mf_implementation (get_or_null ''implementation'' d) = Inr (bm_implementation m)"
    and "mf_services P (get_or_null ''requires_services'' d) = Inr (bm_requires_services m)"
    and "mf_extension_dependencies P (get_default ''requires_extensions'' (JArr []) d) = Inr (bm_requires_extensions m)"
    and "mf_resource_claims (get_default ''resource_claims'' (JArr []) d) = Inr (bm_resource_claims m)"
  using assms
  unfolding parse_experimental_manifest_def ebind_Inr_iff
  apply (elim exE conjE)
  apply (unfold must_iff mf_known_iff mf_object_iff mf_string_iff mf_version_iff sum.inject)
  apply (elim conjE)
  apply hypsubst
  apply (unfold bundle_manifest.select_convs)
  subgoal premises prems by (rule prems(1)) (rule prems HOL.refl)+
  done

lemma parse_experimental_wf:
  assumes "parse_experimental_manifest P v = Inr m"
  shows "manifest_wf P m \<and> experimental_wf P m"
proof -
  obtain d ver
    where id: "bundle_identifier (bm_bundle_id m)"
    and version: "py_strip (bm_bundle_version m) \<noteq> []" "pk_version P (bm_bundle_version m) = Some ver"
    and kind: "set [bm_kind m] \<subseteq> set bundle_kinds" "set [bm_lifecycle_owner m] \<subseteq> set lifecycle_owners"
    and components: "mf_experimental_components P (bm_bundle_id m) (bm_bundle_version m) d = Inr (bm_components m)"
    and schema: "mf_schema d = Inr (bm_schema_version m)"
    and host: "mf_host P (get_or_null ''host'' d) = Inr (bm_host m)"
    and runtime: "mf_runtime (get_or_null ''runtime'' d) = Inr (bm_runtime m)"
    and protocols: "mf_protocols P (get_or_null ''protocols'' d) = Inr (bm_protocols m)"
    and implementation: "mf_implementation (get_or_null ''implementation'' d) = Inr (bm_implementation m)"
    and services: "mf_services P (get_or_null ''requires_services'' d) = Inr (bm_requires_services m)"
    and dependencies: "mf_extension_dependencies P (get_default ''requires_extensions'' (JArr []) d) = Inr (bm_requires_extensions m)"
    and claims: "mf_resource_claims (get_default ''resource_claims'' (JArr []) d) = Inr (bm_resource_claims m)"
    by (rule parse_experimental_parts [OF assms])
  note wf = mf_experimental_components_wf [OF components] mf_schema_wf [OF schema] mf_host_wf [OF host]
    mf_runtime_wf [OF runtime] mf_protocols_wf [OF protocols] mf_implementation_wf [OF implementation]
    mf_services_wf [OF services] mf_dependencies_wf [OF dependencies] mf_claims_wf [OF claims]
  from kind wf have "experimental_wf P m" by (simp add: experimental_wf_def)
  with id version wf show ?thesis by (simp add: manifest_wf_def)
qed

lemma in_str_set_True: "in_str_set v xs = Inr True \<longleftrightarrow> (\<exists>s. v = JStr s \<and> s \<in> set xs)"
  by (cases v) auto

lemma parse_manifest_cases:
  assumes "parse_manifest P v = Inr m"
  obtains "parse_legacy_manifest P v = Inr m" | "parse_experimental_manifest P v = Inr m"
  using assms by (auto simp: parse_manifest_def ebind_Inr_iff mf_iffs Let_def split: if_splits)

text \<open>
  What the names of the JSON object say: which fields a schema has and needs, that
  \<^verbatim>\<open>0.2-experimental\<close> has neither extension dependencies nor resource claims, and that the schema, the
  identifier and the version are those of the object.
\<close>

definition fields_wf :: "(string \<times> json) list \<Rightarrow> bundle_manifest \<Rightarrow> bool" where
  "fields_wf d m \<longleftrightarrow> (let names = set (map fst d) in
     map_of d ''schema_version'' = Some (JStr (bm_schema_version m)) \<and>
     (if bm_schema_version m = ''1.0''
      then {''schema_version'', ''bundle_id'', ''bundle_version'', ''host_api_range'', ''components''} \<subseteq> names
        \<and> names \<subseteq> {''schema_version'', ''bundle_id'', ''bundle_version'', ''host_api_range'', ''components'', ''activation''}
        \<and> map_of d ''bundle_id'' = Some (JStr (bm_bundle_id m))
        \<and> map_of d ''bundle_version'' = Some (JStr (bm_bundle_version m))
      else {''schema_version'', ''extension_id'', ''extension_version'', ''kind'', ''host'', ''runtime'',
          ''lifecycle_owner'', ''protocols'', ''implementation'', ''requires_services''} \<subseteq> names
        \<and> names \<subseteq> {''schema_version'', ''extension_id'', ''extension_version'', ''kind'', ''host'', ''runtime'',
          ''lifecycle_owner'', ''protocols'', ''implementation'', ''requires_services'', ''components'', ''activation'',
          ''requires_extensions'', ''resource_claims''}
        \<and> map_of d ''extension_id'' = Some (JStr (bm_bundle_id m))
        \<and> map_of d ''extension_version'' = Some (JStr (bm_bundle_version m))
        \<and> (bm_schema_version m = ''0.2-experimental'' \<longrightarrow>
            ''requires_extensions'' \<notin> names \<and> ''resource_claims'' \<notin> names
          \<and> bm_requires_extensions m = [] \<and> bm_resource_claims m = [])))"

lemma get_or_null_Str: "get_or_null k d = JStr s \<longleftrightarrow> map_of d k = Some (JStr s)"
  by (auto simp: get_or_null_def split: option.splits)

lemma parse_legacy_fields:
  assumes "parse_legacy_manifest P (JObj d) = Inr m"
  shows "fields_wf d m"
proof -
  from assms have names: "keys_within d top_level_fields" "keys_include d (remove1 ''activation'' top_level_fields)"
    and at: "get_or_null ''schema_version'' d = JStr ''1.0''" "get_or_null ''bundle_id'' d = JStr (bm_bundle_id m)"
      "get_or_null ''bundle_version'' d = JStr (bm_bundle_version m)" "bm_schema_version m = ''1.0''"
    by (auto simp: parse_legacy_manifest_def ebind_Inr_iff mf_iffs legacy_manifest_def)
  from at names show ?thesis
    by (simp add: fields_wf_def get_or_null_Str keys_within_def keys_include_def top_level_fields_def)
qed

lemma mf_schema_fields:
  assumes "mf_schema d = Inr s"
  shows "get_or_null ''schema_version'' d = JStr s \<and> s \<noteq> ''1.0'' \<and>
    (s = ''0.2-experimental'' \<longrightarrow> ''requires_extensions'' \<notin> set (map fst d) \<and> ''resource_claims'' \<notin> set (map fst d))"
  using assms by (auto simp: mf_schema_def ebind_Inr_iff mf_iffs Let_def in_str_set_True experimental_schemas_def)

lemma get_default_absent: "k \<notin> set (map fst d) \<Longrightarrow> get_default k x d = x"
  by (simp add: get_default_def map_of_eq_None_iff [THEN iffD2])

lemma parse_experimental_fields:
  assumes "parse_experimental_manifest P (JObj d) = Inr m"
  shows "fields_wf d m"
proof -
  obtain d' where "JObj d = JObj d'" and names: "keys_within d' experimental_fields"
      "keys_include d' (filter (\<lambda>f. f \<notin> set experimental_optional) experimental_fields)"
    and id: "get_or_null ''extension_id'' d' = JStr (bm_bundle_id m)"
      "get_or_null ''extension_version'' d' = JStr (bm_bundle_version m)"
    and schema: "mf_schema d' = Inr (bm_schema_version m)"
    and dependencies: "mf_extension_dependencies P (get_default ''requires_extensions'' (JArr []) d') = Inr (bm_requires_extensions m)"
    and claims: "mf_resource_claims (get_default ''resource_claims'' (JArr []) d') = Inr (bm_resource_claims m)"
    by (rule parse_experimental_parts [OF assms])
  then have d: "d' = d" by simp
  have "bm_requires_extensions m = []" if "''requires_extensions'' \<notin> set (map fst d)"
    using dependencies unfolding d get_default_absent [OF that] by (simp add: mf_extension_dependencies_def mf_list_def must_def)
  moreover have "bm_resource_claims m = []" if "''resource_claims'' \<notin> set (map fst d)"
    using claims unfolding d get_default_absent [OF that] by (simp add: mf_resource_claims_def mf_list_def must_def)
  moreover have "set (map fst d) \<subseteq> {''schema_version'', ''extension_id'', ''extension_version'', ''kind'', ''host'', ''runtime'',
      ''lifecycle_owner'', ''protocols'', ''implementation'', ''requires_services'', ''components'', ''activation'',
      ''requires_extensions'', ''resource_claims''}"
    using names(1) unfolding d keys_within_def experimental_fields_def by (rule subset_trans) auto
  moreover have "{''schema_version'', ''extension_id'', ''extension_version'', ''kind'', ''host'', ''runtime'',
      ''lifecycle_owner'', ''protocols'', ''implementation'', ''requires_services''} \<subseteq> set (map fst d)"
    using names(2) unfolding d keys_include_def experimental_fields_def experimental_optional_def
    by (simp del: set_map)
  moreover have "map_of d ''extension_id'' = Some (JStr (bm_bundle_id m))"
      "map_of d ''extension_version'' = Some (JStr (bm_bundle_version m))"
    using id unfolding d get_or_null_Str by simp_all
  moreover note mf_schema_fields [OF schema, unfolded d get_or_null_Str]
  ultimately show ?thesis
    unfolding fields_wf_def Let_def by (simp only: if_False simp_thms) blast
qed

lemma parse_manifest_fields: "parse_manifest P v = Inr m \<Longrightarrow> \<exists>d. v = JObj d \<and> fields_wf d m"
  by (auto simp: parse_manifest_def ebind_Inr_iff mf_iffs Let_def split: if_splits
      dest: parse_legacy_fields parse_experimental_fields)

lemma parse_manifest_wf: "parse_manifest P v = Inr m \<Longrightarrow> manifest_wf P m"
  by (auto elim: parse_manifest_cases dest: parse_legacy_wf parse_experimental_wf)

text \<open>
  A manifest whose schema version is an array or an object is refused with the \<open>TypeError\<close> of the set
  lookup, and not with \<open>ManifestError\<close>.
\<close>

lemma unhashable_schema_type_error:
  "parse_manifest P (JObj [(''schema_version'', JArr vs)]) = Inl ManifestTypeError"
  by (simp add: parse_manifest_def mf_object_def get_or_null_def)

text \<open>Entry points that are no array, object or string are not refused but iterated over.\<close>

lemma entry_points_type_error:
  "mf_activation (JObj [(''entry_points'', JInt n)]) = Inl ManifestTypeError"
  by (simp add: mf_activation_def mf_object_def keys_within_def must_def get_default_def py_iter_def)

subsection \<open>An example\<close>

text \<open>Every string is a version and a specifier set, and every version is in every set.\<close>

definition any_pep440 :: "(string, string) pep440" where
  "any_pep440 = \<lparr>pk_version = Some, pk_version_str = (\<lambda>v. v), pk_local = (\<lambda>_. None), pk_specifiers = Some,
     pk_specifiers_str = (\<lambda>s. s), pk_specifier_versions = (\<lambda>s. [s]), pk_contains = (\<lambda>s v. True)\<rparr>"

definition ex_component :: bundle_component where
  "ex_component = \<lparr>bc_component_id = ''sched'', bc_contracts = [''vllm.scheduler-class.v1''],
     bc_execution_planes = [''scheduler''], bc_isolation = ''trusted_in_process'',
     bc_implementation_ref = ''pkg.sched:S'', bc_permissions = []\<rparr>"

definition ex_component_json :: json where
  "ex_component_json = JObj [(''component_id'', JStr ''sched''), (''contracts'', JArr [JStr ''vllm.scheduler-class.v1'']),
     (''execution_planes'', JArr [JStr ''scheduler'']), (''isolation'', JStr ''trusted_in_process''),
     (''implementation_ref'', JStr ''pkg.sched:S'')]"

definition ex_manifest_json :: "string \<Rightarrow> json list \<Rightarrow> json list \<Rightarrow> json" where
  "ex_manifest_json i dependencies claims = JObj [(''schema_version'', JStr ''0.3''), (''extension_id'', JStr i),
     (''extension_version'', JStr ''1''), (''kind'', JStr ''scheduler_policy''),
     (''host'', JObj [(''provider'', JStr ''vllm''), (''name'', JStr ''vllm''), (''version_range'', JStr ''1''), (''api_range'', JStr ''1'')]),
     (''runtime'', JObj [(''type'', JStr ''python''), (''process_scope'', JStr ''vllm_processes''), (''isolation'', JStr ''trusted_in_process'')]),
     (''lifecycle_owner'', JStr ''vllm''), (''protocols'', JArr []),
     (''implementation'', JArr [JObj [(''type'', JStr ''python_module''), (''module'', JStr ''pkg.sched''), (''object'', JStr ''S''),
        (''status'', JStr ''active'')]]),
     (''requires_services'', JArr []), (''requires_extensions'', JArr dependencies),
     (''resource_claims'', JArr claims), (''components'', JArr [ex_component_json])]"

definition ex_manifest :: "string \<Rightarrow> required_extension list \<Rightarrow> bundle_claim list \<Rightarrow> bundle_manifest" where
  "ex_manifest i dependencies claims = \<lparr>bm_bundle_id = i, bm_bundle_version = ''1'', bm_host_api_range = ''>=0'',
     bm_components = [ex_component], bm_activation = no_activation, bm_schema_version = ''0.3'',
     bm_kind = ''scheduler_policy'',
     bm_host = \<lparr>hs_provider = ''vllm'', hs_name = ''vllm'', hs_version_range = ''1'', hs_api_range = Some ''1''\<rparr>,
     bm_runtime = \<lparr>ru_type = ''python'', ru_process_scope = ''vllm_processes'', ru_isolation = ''trusted_in_process''\<rparr>,
     bm_lifecycle_owner = ''vllm'', bm_protocols = [],
     bm_implementation = [\<lparr>ic_type = ''python_module'', ic_attributes =
        [(''module'', JStr ''pkg.sched''), (''object'', JStr ''S''), (''status'', JStr ''active'')]\<rparr>],
     bm_requires_services = [], bm_requires_extensions = dependencies, bm_resource_claims = claims,
     bm_experimental = True\<rparr>"

definition ex_claim :: bundle_claim where
  "ex_claim = \<lparr>bk_resource = ''vllm.process-carrier.scheduler'', bk_scope = ''vllm-process-tree'', bk_mode = ''exclusive''\<rparr>"

definition ex_claim_json :: json where
  "ex_claim_json = JObj [(''resource'', JStr ''vllm.process-carrier.scheduler''), (''scope'', JStr ''vllm-process-tree''),
     (''mode'', JStr ''exclusive'')]"

lemma ex_component_parsed: "mf_component ex_component_json = Inr ex_component"
  by code_simp

lemma ex_claim_parsed: "mf_resource_claim ex_claim_json = Inr ex_claim"
  by code_simp

lemma ex_manifest_parsed:
  "parse_manifest any_pep440 (ex_manifest_json ''a'' [] [ex_claim_json]) = Inr (ex_manifest ''a'' [] [ex_claim])"
  by code_simp

subsection \<open>The property\<close>

text \<open>
  C18. \<open>parse_manifest\<close> returns only well-formed manifests, whatever JSON value it is given.  The value is
  an object with the fields its schema needs and no other; \<^verbatim>\<open>0.2-experimental\<close> has neither extension
  dependencies nor resource claims; schema, identifier and version of the manifest are those of the object.
  The identifiers match their regular expressions, the version and every declared range are valid PEP 440
  texts, components, dependencies and resource claims are known and unique; and the manifest either
  is of schema 1.0 with the defaults of that schema, components and a range that has the host API version,
  or of an experimental schema with a known kind, owner, runtime and carriers.
\<close>

theorem parse_manifest_sound:
  "parse_manifest P v = Inr m \<Longrightarrow> manifest_wf P m \<and> (\<exists>d. v = JObj d \<and> fields_wf d m)"
  using parse_manifest_wf parse_manifest_fields by blast

theorem parse_manifest_sound_witness:
  "parse_manifest any_pep440 (ex_manifest_json ''a'' [] [ex_claim_json]) = Inr (ex_manifest ''a'' [] [ex_claim])
   \<and> manifest_wf any_pep440 (ex_manifest ''a'' [] [ex_claim])
   \<and> (\<exists>d. ex_manifest_json ''a'' [] [ex_claim_json] = JObj d \<and> fields_wf d (ex_manifest ''a'' [] [ex_claim]))"
  by (rule conjI [OF ex_manifest_parsed parse_manifest_sound [OF ex_manifest_parsed]])

end
