(* ===== verification/Bundle_Discovery.thy ===== *)
theory Bundle_Discovery
  imports Bundle_Manifest
begin

section \<open>Discovery of installed bundles (\<^verbatim>\<open>discovery.py\<close>)\<close>

text \<open>
  \<open>discover_bundles\<close> and \<open>discover_bundle_inventory\<close> over the entry points of the installed
  distributions.  An entry point carries what the environment answers about it: its distribution, the
  result of \<open>_manifest_path\<close> (the path of the only manifest of its module), of \<open>_is_editable\<close> and of
  \<open>_entry_point_target_is_packaged\<close>, which look at the files of the distribution and at its
  \<^verbatim>\<open>direct_url.json\<close>; the parameter \<open>files\<close> says of a path whether it is a regular file and what
  bytes it has.  The environment does not change during a call.  The texts of errors are left out.
\<close>

subsection \<open>Data\<close>

datatype discovery_reason =
    DuplicateUnverified string
  | DuplicateRegistrations string
  | NotInstalled "string list"
  | NoDistribution string
  | NoDistributionName string
  | InvalidManifest string
  | RegistrationMismatch string string
  | UninstalledEntryPoints string
  | DanglingEntryPoints string
  | NoManifestPath string
  | InvalidDirectUrl

text \<open>
  The other refusals of the planning and of the commands: conflicts between plans with the extensions
  in conflict, providers, dependencies, stored state, and the merging of environments and options.
\<close>

datatype value_reason =
    ResourceConflict string string string string
  | FieldConflict string string string string
  | EmptyClaimPath
  | ClaimConflict string string "string list"
  | InvalidRequirement
  | ConstraintConflict "string list"
  | RequirementUnmet "string list"
  | UnknownProvider string
  | DuplicateProvider string
  | ProviderFailed string
  | ProviderMismatch string string
  | UnsupportedManifest
  | ForbiddenMutation
  | InventedClaims
  | ProviderRefusal string
  | ProcessOwners "string list"
  | MissingDependency string string
  | IncompatibleDependency string string
  | DependencyCycle "string list"
  | HasDependents string "string list"
  | CannotEnable string
  | NoStoredState string
  | StillEnabled string
  | NotAnObject string
  | PluginConflict string string string
  | EnvironmentConflict string
  | InvalidEnvironment string
  | ConfigConflict "string list"
  | InvalidOption string

text \<open>\<open>DiscoveryError\<close> and \<open>ManifestError\<close> are subclasses of \<open>ValueError\<close>.\<close>

datatype ext_exn = ExtDiscoveryError discovery_reason | ExtValueError value_reason | ExtTypeError | ExtOSError

record distribution =
  ds_name :: "string option"
  ds_version :: string

record entry_point =
  ep_name :: string
  ep_group :: string
  ep_value :: string
  ep_dist :: "distribution option"
  ep_manifest_path :: "ext_exn + string"
  ep_editable :: "ext_exn + bool"
  ep_packaged :: "ext_exn + bool"

record installed_bundle =
  ib_bundle_id :: string
  ib_distribution_name :: string
  ib_distribution_version :: string
  ib_manifest_path :: string
  ib_manifest :: bundle_manifest
  ib_entry_points :: "entry_point list"

definition entry_point_group :: string where
  "entry_point_group = ''vllm_hust.extension_bundles''"

type_synonym file_view = "string \<Rightarrow> bool \<times> string option"

subsection \<open>One registration per bundle\<close>

text \<open>\<open>_manifest_path(registration).read_bytes()\<close>, with both exceptions converted.\<close>

definition registration_bytes :: "file_view \<Rightarrow> string \<Rightarrow> entry_point \<Rightarrow> ext_exn + string" where
  "registration_bytes files bundle_id registration = (case ep_manifest_path registration of
     Inr path \<Rightarrow> (case snd (files path) of
       Some content \<Rightarrow> Inr content
     | None \<Rightarrow> Inl (ExtDiscoveryError (DuplicateUnverified bundle_id)))
   | Inl (ExtDiscoveryError _) \<Rightarrow> Inl (ExtDiscoveryError (DuplicateUnverified bundle_id))
   | Inl ExtOSError \<Rightarrow> Inl (ExtDiscoveryError (DuplicateUnverified bundle_id))
   | Inl e \<Rightarrow> Inl e)"

definition dist_name_key :: "entry_point \<Rightarrow> string" where
  "dist_name_key item = (case ep_dist item of
     None \<Rightarrow> [] | Some d \<Rightarrow> (case ds_name d of None \<Rightarrow> [] | Some n \<Rightarrow> n))"

text \<open>The sort key of a registration: wheels before editable installs, then by name.\<close>

definition keyed :: "entry_point \<Rightarrow> ext_exn + (bool \<times> string) \<times> entry_point" where
  "keyed item = ebind (ep_editable item) (\<lambda>editable. Inr ((editable, dist_name_key item), item))"

definition choose_registration :: "file_view \<Rightarrow> string \<Rightarrow> entry_point list \<Rightarrow> ext_exn + entry_point" where
  "choose_registration files bundle_id items =
     (if length items = 1 then Inr (hd items)
      else
        ebind (emap (registration_bytes files bundle_id) items) (\<lambda>contents.
        ebind (check (card (set contents) = 1) (ExtDiscoveryError (DuplicateRegistrations bundle_id))) (\<lambda>_.
        ebind (emap keyed items) (\<lambda>ranked.
        Inr (snd (hd (sort_key fst ranked)))))))"

text \<open>
  The dict \<open>candidates\<close>: the registrations of every wanted name, in the order of first occurrence.
\<close>

definition candidate_names :: "string list option \<Rightarrow> entry_point list \<Rightarrow> string list" where
  "candidate_names wanted discovered = rev (remdups (rev
     (map ep_name (filter (\<lambda>e. case wanted of None \<Rightarrow> True | Some ids \<Rightarrow> ep_name e \<in> set ids) discovered))))"

definition registrations_of :: "string \<Rightarrow> entry_point list \<Rightarrow> entry_point list" where
  "registrations_of bundle_id discovered = filter (\<lambda>e. ep_name e = bundle_id) discovered"

definition choose_candidate ::
  "file_view \<Rightarrow> entry_point list \<Rightarrow> string \<Rightarrow> ext_exn + string \<times> entry_point" where
  "choose_candidate files discovered bundle_id =
     ebind (choose_registration files bundle_id (registrations_of bundle_id discovered)) (\<lambda>r. Inr (bundle_id, r))"

subsection \<open>Loading a bundle\<close>

text \<open>\<open>load_manifest(manifest_path)\<close> with \<open>ManifestError\<close> converted.\<close>

definition load_bundle_manifest ::
  "('v, 's) pep440 \<Rightarrow> file_view \<Rightarrow> string \<Rightarrow> string \<Rightarrow> ext_exn + bundle_manifest" where
  "load_bundle_manifest P files bundle_id path = (case load_manifest P (fst (files path)) (snd (files path)) of
     Inr m \<Rightarrow> Inr m
   | Inl ManifestError \<Rightarrow> Inl (ExtDiscoveryError (InvalidManifest bundle_id))
   | Inl ManifestTypeError \<Rightarrow> Inl ExtTypeError)"

definition related_entry_points :: "string \<Rightarrow> entry_point list \<Rightarrow> entry_point list" where
  "related_entry_points name every = filter (\<lambda>e. (case ep_dist e of None \<Rightarrow> False | Some d \<Rightarrow> ds_name d = Some name)
     \<and> ep_group e \<noteq> entry_point_group) every"

definition declared_entry_points :: "bundle_manifest \<Rightarrow> (string \<times> string) list" where
  "declared_entry_points m = map (\<lambda>a. (ae_group a, ae_name a)) (ba_entry_points (bm_activation m))"

definition load_bundle ::
  "('v, 's) pep440 \<Rightarrow> file_view \<Rightarrow> entry_point list \<Rightarrow> string \<Rightarrow> entry_point \<Rightarrow> ext_exn + installed_bundle" where
  "load_bundle P files every bundle_id registration = (case ep_dist registration of
     None \<Rightarrow> Inl (ExtDiscoveryError (NoDistribution bundle_id))
   | Some distribution \<Rightarrow> (case ds_name distribution of
       None \<Rightarrow> Inl (ExtDiscoveryError (NoDistributionName bundle_id))
     | Some name \<Rightarrow>
         ebind (check (name \<noteq> []) (ExtDiscoveryError (NoDistributionName bundle_id))) (\<lambda>_.
         ebind (ep_manifest_path registration) (\<lambda>path.
         ebind (load_bundle_manifest P files bundle_id path) (\<lambda>manifest.
         ebind (check (bm_bundle_id manifest = bundle_id)
           (ExtDiscoveryError (RegistrationMismatch bundle_id (bm_bundle_id manifest)))) (\<lambda>_.
         let related = related_entry_points name every;
             declared = declared_entry_points manifest in
         ebind (check (set declared \<subseteq> set (map (\<lambda>e. (ep_group e, ep_name e)) related))
           (ExtDiscoveryError (UninstalledEntryPoints bundle_id))) (\<lambda>_.
         ebind (emap ep_packaged (filter (\<lambda>e. (ep_group e, ep_name e) \<in> set declared) related)) (\<lambda>packaged.
         ebind (check (list_all (\<lambda>b. b) packaged) (ExtDiscoveryError (DanglingEntryPoints bundle_id))) (\<lambda>_.
         Inr \<lparr>ib_bundle_id = bundle_id, ib_distribution_name = name, ib_distribution_version = ds_version distribution,
              ib_manifest_path = path, ib_manifest = manifest, ib_entry_points = related\<rparr>)))))))))"

text \<open>
  \<open>discover_bundles(selected, registrations, all_entry_points)\<close>: the result has the order of
  \<open>selected\<close>, or of the identifiers.
\<close>

definition discover_bundles ::
  "('v, 's) pep440 \<Rightarrow> file_view \<Rightarrow> entry_point list \<Rightarrow> entry_point list \<Rightarrow> string list option
     \<Rightarrow> ext_exn + installed_bundle list" where
  "discover_bundles P files discovered every wanted =
     (let names = candidate_names wanted discovered in
      ebind (emap (choose_candidate files discovered) names) (\<lambda>candidates.
      ebind (check (case wanted of None \<Rightarrow> True | Some ids \<Rightarrow> set ids \<subseteq> set names)
        (ExtDiscoveryError (NotInstalled (sort (remdups (filter (\<lambda>i. i \<notin> set names) (case wanted of None \<Rightarrow> [] | Some ids \<Rightarrow> ids))))))) (\<lambda>_.
      ebind (emap (\<lambda>(bundle_id, r). load_bundle P files every bundle_id r) candidates) (\<lambda>bundles.
      let loaded = map_of (zip names bundles);
          order = (case wanted of None \<Rightarrow> sort names | Some ids \<Rightarrow> ids) in
      Inr (map (\<lambda>i. the (loaded i)) order)))))"

text \<open>
  \<open>discover_bundle_inventory\<close>: every registered name on its own; the second list has the names whose
  discovery failed with a \<open>DiscoveryError\<close> or an \<open>OSError\<close>.  Another exception ends the inventory.
\<close>

fun inventory_loop ::
  "(string \<Rightarrow> ext_exn + installed_bundle list) \<Rightarrow> string list
     \<Rightarrow> ext_exn + installed_bundle list \<times> string list" where
  "inventory_loop discover [] = Inr ([], [])"
| "inventory_loop discover (i # ids) = (case discover i of
     Inr found \<Rightarrow> ebind (inventory_loop discover ids) (\<lambda>(bundles, diagnostics). Inr (found @ bundles, diagnostics))
   | Inl (ExtDiscoveryError _) \<Rightarrow> ebind (inventory_loop discover ids) (\<lambda>(bundles, diagnostics). Inr (bundles, i # diagnostics))
   | Inl ExtOSError \<Rightarrow> ebind (inventory_loop discover ids) (\<lambda>(bundles, diagnostics). Inr (bundles, i # diagnostics))
   | Inl e \<Rightarrow> Inl e)"

definition discover_bundle_inventory ::
  "('v, 's) pep440 \<Rightarrow> file_view \<Rightarrow> entry_point list \<Rightarrow> entry_point list
     \<Rightarrow> ext_exn + installed_bundle list \<times> string list" where
  "discover_bundle_inventory P files discovered every =
     inventory_loop (\<lambda>i. discover_bundles P files discovered every (Some [i])) (sort (remdups (map ep_name discovered)))"

subsection \<open>Every bundle is found on its own\<close>

definition bundle_at ::
  "('v, 's) pep440 \<Rightarrow> file_view \<Rightarrow> entry_point list \<Rightarrow> entry_point list \<Rightarrow> string \<Rightarrow> ext_exn + installed_bundle" where
  "bundle_at P files discovered every i =
     ebind (choose_registration files i (registrations_of i discovered)) (\<lambda>r. load_bundle P files every i r)"

lemma candidate_names_set:
  "set (candidate_names (Some ids) discovered) = set ids \<inter> set (map ep_name discovered)"
  by (auto simp: candidate_names_def)

lemma candidate_names_distinct: "distinct (candidate_names wanted discovered)"
  by (simp add: candidate_names_def)

lemma load_bundle_id: "load_bundle P files every i r = Inr b \<Longrightarrow> ib_bundle_id b = i \<and> bm_bundle_id (ib_manifest b) = i"
  by (auto simp: load_bundle_def ebind_Inr_iff Let_def split: option.splits)

lemma load_bundle_manifest_wf:
  "load_bundle_manifest P files i path = Inr m \<Longrightarrow> manifest_wf P m"
  by (auto simp: load_bundle_manifest_def load_manifest_def dest: parse_manifest_wf
      split: sum.splits manifest_exn.splits if_splits option.splits)

lemma load_bundle_wf: "load_bundle P files every i r = Inr b \<Longrightarrow> manifest_wf P (ib_manifest b)"
  by (auto simp: load_bundle_def ebind_Inr_iff Let_def dest: load_bundle_manifest_wf split: option.splits)

lemma bundle_at_id:
  "bundle_at P files discovered every i = Inr b \<Longrightarrow> ib_bundle_id b = i \<and> bm_bundle_id (ib_manifest b) = i"
  by (auto simp: bundle_at_def ebind_Inr_iff dest: load_bundle_id)

lemma bundle_at_wf: "bundle_at P files discovered every i = Inr b \<Longrightarrow> manifest_wf P (ib_manifest b)"
  by (auto simp: bundle_at_def ebind_Inr_iff dest: load_bundle_wf)

lemma load_candidates:
  "(\<exists>cs. emap (choose_candidate files discovered) names = Inr cs
      \<and> emap (\<lambda>(i, r). load_bundle P files every i r) cs = Inr bs)
    \<longleftrightarrow> emap (bundle_at P files discovered every) names = Inr bs"
proof -
  have "(\<lambda>i b. bundle_at P files discovered every i = Inr b) =
      (\<lambda>i c. choose_candidate files discovered i = Inr c) OO (\<lambda>c b. (case c of (i, r) \<Rightarrow> load_bundle P files every i r) = Inr b)"
    by (intro ext) (auto simp: bundle_at_def choose_candidate_def ebind_Inr_iff)
  then show ?thesis by (simp add: emap_Inr_iff list.rel_compp relcompp_apply)
qed

lemma map_of_zip_emap:
  assumes "emap f names = Inr bs" and "i \<in> set names"
  shows "\<exists>b. map_of (zip names bs) i = Some b \<and> f i = Inr b"
proof -
  from assms(1) have all: "list_all2 (\<lambda>x y. f x = Inr y) names bs" by (simp add: emap_Inr_iff)
  then have "length names = length bs" by (rule list_all2_lengthD)
  with assms(2) obtain b where b: "map_of (zip names bs) i = Some b"
    by (metis map_of_zip_is_Some)
  then have "(i, b) \<in> set (zip names bs)" by (rule map_of_SomeD)
  with all have "f i = Inr b" by (auto simp: list_all2_iff)
  with b show ?thesis by simp
qed

lemma discover_selected_iff:
  "discover_bundles P files discovered every (Some ids) = Inr bs \<longleftrightarrow>
     set ids \<subseteq> set (map ep_name discovered) \<and> list_all2 (\<lambda>i b. bundle_at P files discovered every i = Inr b) ids bs"
    (is "?discover = Inr bs \<longleftrightarrow> ?registered \<and> list_all2 ?at ids bs")
proof -
  let ?names = "candidate_names (Some ids) discovered"
  have names: "set ?names = set ids \<inter> set (map ep_name discovered)" by (rule candidate_names_set)
  have run: "?discover = Inr bs \<longleftrightarrow> set ids \<subseteq> set ?names \<and>
      (\<exists>found. emap (bundle_at P files discovered every) ?names = Inr found
         \<and> bs = map (\<lambda>i. the (map_of (zip ?names found) i)) ids)"
    by (auto simp: discover_bundles_def Let_def ebind_Inr_iff load_candidates [symmetric])
  have picked: "map (\<lambda>i. the (map_of (zip ?names found) i)) ids = cs \<longleftrightarrow> list_all2 ?at ids cs"
    if "emap (bundle_at P files discovered every) ?names = Inr found" "set ids \<subseteq> set ?names" for found cs
    using map_of_zip_emap [OF that(1)] that(2)
    by (auto simp: list_all2_conv_all_nth list_eq_iff_nth_eq subset_iff) (metis nth_mem option.sel sum.inject(2))+
  have found: "\<exists>found. emap (bundle_at P files discovered every) ?names = Inr found" if all: "list_all2 ?at ids bs"
  proof (cases "emap (bundle_at P files discovered every) ?names")
    case (Inl e)
    then obtain i e' where i: "i \<in> set ids" and e': "bundle_at P files discovered every i = Inl e'"
      using names by (blast dest: emap_Inl_iff [THEN iffD1, OF exI])
    from i all obtain b where "bundle_at P files discovered every i = Inr b"
      by (fastforce simp: list_all2_conv_all_nth in_set_conv_nth)
    with e' show ?thesis by simp
  qed simp
  show ?thesis
  proof
    assume "?discover = Inr bs"
    with run obtain found where sub: "set ids \<subseteq> set ?names"
      and f: "emap (bundle_at P files discovered every) ?names = Inr found"
      and bs: "bs = map (\<lambda>i. the (map_of (zip ?names found) i)) ids" by blast
    from picked [OF f sub, of bs] bs have "list_all2 ?at ids bs" by simp
    moreover from sub names have ?registered by (simp del: set_map)
    ultimately show "?registered \<and> list_all2 ?at ids bs" by blast
  next
    assume r: "?registered \<and> list_all2 ?at ids bs"
    then have sub: "set ids \<subseteq> set ?names" using names by (simp del: set_map)
    from r found obtain all where f: "emap (bundle_at P files discovered every) ?names = Inr all" by blast
    from picked [OF f sub, of bs] r have "bs = map (\<lambda>i. the (map_of (zip ?names all) i)) ids" by simp
    with sub f show "?discover = Inr bs" unfolding run by blast
  qed
qed

subsection \<open>The inventory\<close>

definition tolerated :: "ext_exn \<Rightarrow> bool" where
  "tolerated e = (case e of ExtDiscoveryError _ \<Rightarrow> True | ExtOSError \<Rightarrow> True | _ \<Rightarrow> False)"

lemma inventory_loop_failed:
  "f i = Inl e \<Longrightarrow> inventory_loop f (i # ids) =
     (if tolerated e then ebind (inventory_loop f ids) (\<lambda>(bundles, diagnostics). Inr (bundles, i # diagnostics)) else Inl e)"
  by (cases e) (simp_all add: tolerated_def)

lemma inventory_loop_found:
  "f i = Inr found \<Longrightarrow> inventory_loop f (i # ids) =
     ebind (inventory_loop f ids) (\<lambda>(bundles, diagnostics). Inr (found @ bundles, diagnostics))"
  by simp

lemma inventory_loop_iff:
  "inventory_loop f ids = Inr (bundles, diagnostics) \<longleftrightarrow>
     (\<forall>i \<in> set ids. case f i of Inl e \<Rightarrow> tolerated e | Inr _ \<Rightarrow> True)
     \<and> bundles = concat (map (\<lambda>i. case f i of Inr bs \<Rightarrow> bs | Inl _ \<Rightarrow> []) ids)
     \<and> diagnostics = filter (\<lambda>i. case f i of Inl e \<Rightarrow> True | Inr _ \<Rightarrow> False) ids"
proof (induction ids arbitrary: bundles diagnostics)
  case Nil
  then show ?case by auto
next
  case (Cons i ids)
  show ?case
  proof (cases "f i")
    case (Inl e)
    show ?thesis unfolding inventory_loop_failed [of f i, OF Inl]
      by (auto simp: ebind_Inr_iff Cons.IH Inl simp del: inventory_loop.simps)
  next
    case (Inr bs)
    show ?thesis unfolding inventory_loop_found [of f i, OF Inr]
      by (auto simp: ebind_Inr_iff Cons.IH Inr simp del: inventory_loop.simps)
  qed
qed

lemma discover_one_iff:
  "i \<in> set (map ep_name discovered) \<Longrightarrow>
   discover_bundles P files discovered every (Some [i]) = Inr bs \<longleftrightarrow>
     (\<exists>b. bundle_at P files discovered every i = Inr b \<and> bs = [b])"
  by (auto simp: discover_selected_iff list_all2_Cons1)

text \<open>
  A registration with an unhashable schema version ends the inventory of all the others with a
  \<open>TypeError\<close>, although the inventory is meant to tolerate a broken distribution.
\<close>

lemma inventory_hidden_by_type_error:
  assumes "discover_bundles P files discovered every (Some [i]) = Inl ExtTypeError" and "i \<in> set (map ep_name discovered)"
  shows "\<nexists>r. discover_bundle_inventory P files discovered every = Inr r"
proof
  assume "\<exists>r. discover_bundle_inventory P files discovered every = Inr r"
  then obtain bundles diagnostics where "discover_bundle_inventory P files discovered every = Inr (bundles, diagnostics)"
    by auto
  with assms have "tolerated ExtTypeError" by (fastforce simp: discover_bundle_inventory_def inventory_loop_iff)
  then show False by (simp add: tolerated_def)
qed

lemma unhashable_schema_escapes:
  assumes "ep_dist r = Some d" and "ds_name d = Some n" and "n \<noteq> []" and "ep_manifest_path r = Inr path"
    and "files path = (True, Some b)" and "json_loads b = Some (JObj [(''schema_version'', JArr vs)])"
  shows "load_bundle P files every i r = Inl ExtTypeError"
  by (simp add: load_bundle_def assms load_bundle_manifest_def load_manifest_def unhashable_schema_type_error)

lemma inventory_accounts:
  assumes "discover_bundle_inventory P files discovered every = Inr (bundles, diagnostics)"
  shows "mset (map ib_bundle_id bundles) + mset diagnostics = mset (sort (remdups (map ep_name discovered)))"
    and "b \<in> set bundles \<Longrightarrow> discover_bundles P files discovered every (Some [ib_bundle_id b]) = Inr [b]"
    and "i \<in> set diagnostics \<Longrightarrow> \<exists>e. discover_bundles P files discovered every (Some [i]) = Inl e \<and> tolerated e"
proof -
  let ?f = "\<lambda>i. discover_bundles P files discovered every (Some [i])"
  let ?found = "\<lambda>i. case ?f i of Inr bs \<Rightarrow> bs | Inl _ \<Rightarrow> []"
  let ?names = "sort (remdups (map ep_name discovered))"
  from assms have ok: "\<forall>i \<in> set ?names. case ?f i of Inl e \<Rightarrow> tolerated e | Inr _ \<Rightarrow> True"
    and bundles: "bundles = concat (map ?found ?names)"
    and diagnostics: "diagnostics = filter (\<lambda>i. case ?f i of Inl e \<Rightarrow> True | Inr _ \<Rightarrow> False) ?names"
    unfolding discover_bundle_inventory_def inventory_loop_iff by blast+
  have found: "bs = [b] \<and> ib_bundle_id b = i" if "i \<in> set ?names" "?f i = Inr bs" "b \<in> set bs" for i bs b
    using that by (auto simp: discover_one_iff dest: bundle_at_id)
  have one: "\<exists>b. bs = [b] \<and> ib_bundle_id b = i" if "i \<in> set ?names" "?f i = Inr bs" for i bs
    using that by (auto simp: discover_one_iff dest: bundle_at_id)
  have "mset (map ib_bundle_id (concat (map ?found ids)))
      + mset (filter (\<lambda>i. case ?f i of Inl e \<Rightarrow> True | Inr _ \<Rightarrow> False) ids) = mset ids"
    if "set ids \<subseteq> set ?names" for ids
    using that
  proof (induction ids)
    case (Cons i ids)
    then show ?case using one [of i] by (cases "?f i") fastforce+
  qed simp
  from this [OF subset_refl] show "mset (map ib_bundle_id bundles) + mset diagnostics = mset ?names"
    unfolding bundles diagnostics .
  show "?f (ib_bundle_id b) = Inr [b]" if "b \<in> set bundles"
  proof -
    from that obtain i where i: "i \<in> set ?names" "b \<in> set (?found i)"
      unfolding bundles by auto
    then obtain bs where "?f i = Inr bs" "b \<in> set bs" by (cases "?f i") simp_all
    with i found [of i bs b] show ?thesis by auto
  qed
  show "\<exists>e. ?f i = Inl e \<and> tolerated e" if "i \<in> set diagnostics"
    using that ok unfolding diagnostics by (auto split: sum.splits)
qed

subsection \<open>An installation\<close>

text \<open>
  Two distributions with one bundle each, \<open>b\<close> requiring \<open>a\<close>, and a third registration without a
  distribution.
\<close>

definition ex_dependency :: required_extension where
  "ex_dependency = \<lparr>rx_extension_id = ''a'', rx_version_range = ''1''\<rparr>"

definition ex_dependency_json :: json where
  "ex_dependency_json = JObj [(''extension_id'', JStr ''a''), (''version_range'', JStr ''1'')]"

definition ex_files :: file_view where
  "ex_files path = (True, Some (canonical_bytes
     (if path = ''a'' then ex_manifest_json ''a'' [] [ex_claim_json] else ex_manifest_json ''b'' [ex_dependency_json] [])))"

definition ex_entry :: "string \<Rightarrow> entry_point" where
  "ex_entry name = \<lparr>ep_name = name, ep_group = entry_point_group, ep_value = ''pkg'',
     ep_dist = (if name = ''c'' then None else Some \<lparr>ds_name = Some name, ds_version = ''1''\<rparr>),
     ep_manifest_path = Inr name, ep_editable = Inr False, ep_packaged = Inr True\<rparr>"

definition ex_installed :: "string \<Rightarrow> bundle_manifest \<Rightarrow> installed_bundle" where
  "ex_installed i m = \<lparr>ib_bundle_id = i, ib_distribution_name = i, ib_distribution_version = ''1'', ib_manifest_path = i,
     ib_manifest = m, ib_entry_points = []\<rparr>"

definition ex_a :: installed_bundle where
  "ex_a = ex_installed ''a'' (ex_manifest ''a'' [] [ex_claim])"

definition ex_b :: installed_bundle where
  "ex_b = ex_installed ''b'' (ex_manifest ''b'' [ex_dependency] [])"

lemma ex_sorted_parsed:
  "parse_manifest any_pep440 (jsort (ex_manifest_json ''a'' [] [ex_claim_json])) = Inr (ex_manifest ''a'' [] [ex_claim])"
  "parse_manifest any_pep440 (jsort (ex_manifest_json ''b'' [ex_dependency_json] [])) = Inr (ex_manifest ''b'' [ex_dependency] [])"
  by code_simp+

lemma ex_json_wf:
  "json_wf (ex_manifest_json ''a'' [] [ex_claim_json])" "json_wf (ex_manifest_json ''b'' [ex_dependency_json] [])"
  by code_simp+

lemma ex_loaded:
  "load_bundle_manifest any_pep440 ex_files ''a'' ''a'' = Inr (ex_manifest ''a'' [] [ex_claim])"
  "load_bundle_manifest any_pep440 ex_files ''b'' ''b'' = Inr (ex_manifest ''b'' [ex_dependency] [])"
  unfolding load_bundle_manifest_def load_manifest_def ex_files_def
  by (simp_all add: json_loads_canonical_bytes [OF ex_json_wf(1)] json_loads_canonical_bytes [OF ex_json_wf(2)] ex_sorted_parsed del: jsort.simps)

abbreviation ex_registrations :: "entry_point list" where
  "ex_registrations \<equiv> [ex_entry ''b'', ex_entry ''a'', ex_entry ''c'']"

lemma ex_bundle_at:
  "bundle_at any_pep440 ex_files ex_registrations ex_registrations ''a'' = Inr ex_a"
  "bundle_at any_pep440 ex_files ex_registrations ex_registrations ''b'' = Inr ex_b"
  "bundle_at any_pep440 ex_files ex_registrations ex_registrations ''c'' = Inl (ExtDiscoveryError (NoDistribution ''c''))"
  unfolding bundle_at_def load_bundle_def
  by (simp_all add: registrations_of_def ex_entry_def choose_registration_def ex_loaded related_entry_points_def
      Let_def ex_a_def ex_b_def ex_installed_def declared_entry_points_def ex_manifest_def no_activation_def)


subsection \<open>The property\<close>

text \<open>
  C20. The inventory loses no registration: every registered name appears exactly once, as a bundle that
  strict discovery of that name alone returns, or as a diagnostic, and then strict discovery of that
  name fails with a \<open>DiscoveryError\<close> or an \<open>OSError\<close>.
\<close>

theorem inventory_accounts_for_all:
  assumes "discover_bundle_inventory P files discovered every = Inr (bundles, diagnostics)"
  shows "mset (map ib_bundle_id bundles) + mset diagnostics = mset (sort (remdups (map ep_name discovered)))
    \<and> (\<forall>b \<in> set bundles. discover_bundles P files discovered every (Some [ib_bundle_id b]) = Inr [b])
    \<and> (\<forall>i \<in> set diagnostics. \<exists>e. discover_bundles P files discovered every (Some [i]) = Inl e \<and> tolerated e)"
  using inventory_accounts [OF assms] by blast

lemma ex_discover:
  "discover_bundles any_pep440 ex_files ex_registrations ex_registrations (Some [''a'']) = Inr [ex_a]"
  "discover_bundles any_pep440 ex_files ex_registrations ex_registrations (Some [''b'']) = Inr [ex_b]"
  by (simp_all add: discover_selected_iff ex_bundle_at del: set_simps) (simp_all add: ex_entry_def)

lemma ex_discover_failed:
  "discover_bundles any_pep440 ex_files ex_registrations ex_registrations (Some [''c'']) = Inl (ExtDiscoveryError (NoDistribution ''c''))"
  by (simp add: discover_bundles_def candidate_names_def choose_candidate_def registrations_of_def choose_registration_def
      ex_entry_def load_bundle_def)

lemma ex_inventory:
  "discover_bundle_inventory any_pep440 ex_files ex_registrations ex_registrations = Inr ([ex_a, ex_b], [''c''])"
proof -
  have "sort (remdups (map ep_name ex_registrations)) = [''a'', ''b'', ''c'']"
    by (simp add: ex_entry_def less_list_code)
  then show ?thesis unfolding discover_bundle_inventory_def by (simp add: ex_discover ex_discover_failed)
qed

theorem inventory_accounts_for_all_witness:
  "mset (map ib_bundle_id [ex_a, ex_b]) + mset [''c''] = mset (sort (remdups (map ep_name ex_registrations)))
   \<and> discover_bundles any_pep440 ex_files ex_registrations ex_registrations (Some [ib_bundle_id ex_a]) = Inr [ex_a]"
  using inventory_accounts_for_all [OF ex_inventory] by simp

end
