(* ===== verification/Extension_Plans.thy ===== *)
theory Extension_Plans
  imports Bundle_Discovery
begin

section \<open>Plans of extensions and their conflicts (\<^verbatim>\<open>core.py\<close>, \<^verbatim>\<open>providers/base.py\<close>)\<close>

text \<open>
  The dataclasses of a provider's plan; \<open>reject_conflicting_plans\<close> and
  \<open>reject_configuration_requirements\<close>, which decide whether a set of plans may be launched together;
  \<open>plan_for\<close> and \<open>status_for\<close>, which call the host provider of a bundle.  A host provider is a record
  of functions: the providers of the package and of third parties implement the protocol
  \<open>HostProvider\<close>.  A path of a claim is a list of strings; a setting of a configuration is a JSON
  value, of which \<open>type(value) is int\<close> holds for \<open>JInt\<close> only.  The main result says which plans are
  accepted, without the order of the loops.
\<close>

subsection \<open>Data\<close>

record plan_action =
  pa_operation :: string
  pa_target :: string
  pa_lifecycle_owner :: string
  pa_mutating :: bool
  pa_details :: "(string \<times> json) list"

record config_claim =
  cl_path :: "string list"
  cl_value :: json

record configuration_requirement =
  cq_path :: "string list"
  cq_minimum :: json
  cq_maximum :: json

record provider_plan =
  pp_extension_id :: string
  pp_provider :: string
  pp_actions :: "plan_action list"
  pp_generated_config :: "(string \<times> json) list"
  pp_warnings :: "string list"
  pp_resource_claims :: "bundle_claim list"
  pp_config_claims :: "config_claim list option"
  pp_configuration_requirements :: "configuration_requirement list"

record provider_check =
  pc_compatible :: "bool option"
  pc_configured :: bool
  pc_reachable :: "bool option"
  pc_healthy :: "bool option"
  pc_degraded :: bool
  pc_evidence :: "string list"

record host_provider =
  hp_name :: string
  hp_supports :: "bundle_manifest \<Rightarrow> bool"
  hp_plan :: "bundle_manifest \<Rightarrow> (string \<times> json) list \<Rightarrow> bool \<Rightarrow> ext_exn + provider_plan"
  hp_check :: "bundle_manifest \<Rightarrow> (string \<times> json) list \<Rightarrow> ext_exn + provider_check"

abbreviation refuse :: "value_reason \<Rightarrow> ext_exn + 'a" where
  "refuse r \<equiv> Inl (ExtValueError r)"

subsection \<open>Resource claims\<close>

text \<open>
  The dict \<open>resources\<close> maps a scope and a resource to the last claimant and its mode.
\<close>

type_synonym claim_table = "((string \<times> string) \<times> string \<times> string) list"

definition add_resource :: "string \<Rightarrow> bundle_claim \<Rightarrow> claim_table \<Rightarrow> ext_exn + claim_table" where
  "add_resource owner claim resources =
     (let key = (bk_scope claim, bk_resource claim);
          updated = dict_set key (owner, bk_mode claim) resources in
      case map_of resources key of
        None \<Rightarrow> Inr updated
      | Some (previous, mode) \<Rightarrow>
          if mode = ''exclusive'' \<or> bk_mode claim = ''exclusive''
          then refuse (ResourceConflict previous owner (bk_scope claim) (bk_resource claim))
          else Inr updated)"

text \<open>The claims of all plans with their owners, in the order of the two loops.\<close>

definition owned_claims :: "provider_plan list \<Rightarrow> (string \<times> bundle_claim) list" where
  "owned_claims plans = concat (map (\<lambda>p. map (\<lambda>c. (pp_extension_id p, c)) (pp_resource_claims p)) plans)"

fun add_resources :: "claim_table \<Rightarrow> (string \<times> bundle_claim) list \<Rightarrow> ext_exn + claim_table" where
  "add_resources resources [] = Inr resources"
| "add_resources resources ((owner, claim) # cs) =
     ebind (add_resource owner claim resources) (\<lambda>updated. add_resources updated cs)"

definition reject_resources :: "provider_plan list \<Rightarrow> ext_exn + unit" where
  "reject_resources plans = ebind (add_resources [] (owned_claims plans)) (\<lambda>_. Inr ())"

subsection \<open>Whole fields of plans without a projection\<close>

text \<open>
  The first common key with different values; Python's order of a set of keys is not specified and
  decides only which conflict is reported.
\<close>

definition differing_key :: "provider_plan \<Rightarrow> provider_plan \<Rightarrow> string option" where
  "differing_key plan other = map_option fst (List.find (\<lambda>(k, v). case map_of (pp_generated_config other) k of
     None \<Rightarrow> False | Some w \<Rightarrow> \<not> py_eq v w) (pp_generated_config plan))"

definition compare_fields :: "provider_plan \<Rightarrow> provider_plan \<Rightarrow> ext_exn + unit" where
  "compare_fields plan other =
     (if pp_provider plan \<noteq> pp_provider other then Inr ()
      else if pp_config_claims plan \<noteq> None \<and> pp_config_claims other \<noteq> None then Inr ()
      else (case differing_key plan other of
        None \<Rightarrow> Inr ()
      | Some key \<Rightarrow> refuse (FieldConflict (pp_extension_id other) (pp_extension_id plan) (pp_provider plan) key)))"

fun reject_fields :: "provider_plan list \<Rightarrow> provider_plan list \<Rightarrow> ext_exn + unit" where
  "reject_fields before [] = Inr ()"
| "reject_fields before (plan # plans) =
     ebind (emap (compare_fields plan) before) (\<lambda>_. reject_fields (before @ [plan]) plans)"

subsection \<open>Configuration claims\<close>

definition projected_claims :: "provider_plan \<Rightarrow> config_claim list" where
  "projected_claims plan = (case pp_config_claims plan of
     Some claims \<Rightarrow> claims
   | None \<Rightarrow> map (\<lambda>(key, v). \<lparr>cl_path = [key], cl_value = v\<rparr>) (pp_generated_config plan))"

definition claim_key :: "provider_plan \<Rightarrow> config_claim \<Rightarrow> string list" where
  "claim_key plan c = pp_provider plan # cl_path c"

definition path_ok :: "string list \<Rightarrow> bool" where
  "path_ok path \<longleftrightarrow> path \<noteq> [] \<and> list_all (\<lambda>segment. segment \<noteq> []) path"

type_synonym config_table = "(string list \<times> string \<times> json) list"

definition add_config :: "provider_plan \<Rightarrow> config_claim \<Rightarrow> config_table \<Rightarrow> ext_exn + config_table" where
  "add_config plan c claims =
     (let key = claim_key plan c;
          updated = dict_set key (pp_extension_id plan, cl_value c) claims in
      if \<not> path_ok (cl_path c) then refuse EmptyClaimPath
      else (case map_of claims key of
        None \<Rightarrow> Inr updated
      | Some (previous, v) \<Rightarrow>
          if \<not> py_eq v (cl_value c) then refuse (ClaimConflict previous (pp_extension_id plan) key)
          else Inr updated))"

definition owned_config :: "provider_plan list \<Rightarrow> (provider_plan \<times> config_claim) list" where
  "owned_config plans = concat (map (\<lambda>p. map (Pair p) (projected_claims p)) plans)"

fun add_configs :: "config_table \<Rightarrow> (provider_plan \<times> config_claim) list \<Rightarrow> ext_exn + config_table" where
  "add_configs claims [] = Inr claims"
| "add_configs claims ((plan, c) # cs) =
     ebind (add_config plan c claims) (\<lambda>updated. add_configs updated cs)"

definition reject_claims :: "provider_plan list \<Rightarrow> ext_exn + unit" where
  "reject_claims plans = ebind (add_configs [] (owned_config plans)) (\<lambda>_. Inr ())"

subsection \<open>Configuration requirements\<close>

text \<open>
  A requirement as a row: the key, the owner and the interval, \<open>None\<close> for no upper bound.
\<close>

type_synonym requirement_row = "string list \<times> string \<times> int \<times> int option"

definition requirement_row :: "provider_plan \<Rightarrow> configuration_requirement \<Rightarrow> ext_exn + requirement_row" where
  "requirement_row plan q =
     (if \<not> path_ok (cq_path q) then refuse InvalidRequirement
      else (case (cq_minimum q, cq_maximum q) of
        (JInt low, JNull) \<Rightarrow>
          if low < 1 then refuse InvalidRequirement
          else Inr (pp_provider plan # cq_path q, pp_extension_id plan, low, None)
      | (JInt low, JInt high) \<Rightarrow>
          if low < 1 \<or> high < low then refuse InvalidRequirement
          else Inr (pp_provider plan # cq_path q, pp_extension_id plan, low, Some high)
      | _ \<Rightarrow> refuse InvalidRequirement))"

definition requirement_rows :: "provider_plan list \<Rightarrow> ext_exn + requirement_row list" where
  "requirement_rows plans = emap (\<lambda>(p, q). requirement_row p q)
     (concat (map (\<lambda>p. map (Pair p) (pp_configuration_requirements p)) plans))"

definition row_low :: "requirement_row \<Rightarrow> int" where
  "row_low r = fst (snd (snd r))"

definition row_high :: "requirement_row \<Rightarrow> int option" where
  "row_high r = snd (snd (snd r))"

text \<open>The rows of one key are checked against each other and against the actual value.\<close>

definition check_key ::
  "(string list \<times> json) list option \<Rightarrow> requirement_row list \<Rightarrow> string list \<Rightarrow> ext_exn + unit" where
  "check_key configuration_values rows key =
     (let grouped = filter (\<lambda>r. fst r = key) rows;
          low = Max (set (map row_low grouped));
          bounded = List.map_filter row_high grouped;
          high = (if bounded = [] then None else Some (Min (set bounded))) in
      ebind (check (case high of None \<Rightarrow> True | Some h \<Rightarrow> low \<le> h) (ExtValueError (ConstraintConflict key))) (\<lambda>_.
      case configuration_values of
        None \<Rightarrow> Inr ()
      | Some values \<Rightarrow> (case map_of values key of
          Some (JInt v) \<Rightarrow>
            check (low \<le> v \<and> (case high of None \<Rightarrow> True | Some h \<Rightarrow> v \<le> h)) (ExtValueError (RequirementUnmet key))
        | _ \<Rightarrow> refuse (RequirementUnmet key))))"

definition reject_configuration_requirements ::
  "provider_plan list \<Rightarrow> (string list \<times> json) list option \<Rightarrow> ext_exn + unit" where
  "reject_configuration_requirements plans configuration_values =
     ebind (requirement_rows plans) (\<lambda>rows.
     ebind (emap (check_key configuration_values rows) (sort (remdups (map fst rows)))) (\<lambda>_.
     Inr ()))"

definition reject_conflicting_plans ::
  "provider_plan list \<Rightarrow> (string list \<times> json) list option \<Rightarrow> ext_exn + unit" where
  "reject_conflicting_plans plans configuration_values =
     ebind (reject_resources plans) (\<lambda>_.
     ebind (reject_fields [] plans) (\<lambda>_.
     ebind (reject_claims plans) (\<lambda>_.
     reject_configuration_requirements plans configuration_values)))"

subsection \<open>When plans are compatible\<close>

text \<open>
  Two claims clash when they are for the same resource in the same scope and one is exclusive.
\<close>

definition claims_clash :: "bundle_claim \<Rightarrow> bundle_claim \<Rightarrow> bool" where
  "claims_clash c d \<longleftrightarrow> bk_scope c = bk_scope d \<and> bk_resource c = bk_resource d
     \<and> (bk_mode c = ''exclusive'' \<or> bk_mode d = ''exclusive'')"

definition resources_compatible :: "provider_plan list \<Rightarrow> bool" where
  "resources_compatible plans \<longleftrightarrow> sorted_wrt (\<lambda>a b. \<not> claims_clash (snd a) (snd b)) (owned_claims plans)"

definition fields_agree :: "provider_plan \<Rightarrow> provider_plan \<Rightarrow> bool" where
  "fields_agree p q \<longleftrightarrow> pp_provider p = pp_provider q \<and> (pp_config_claims p = None \<or> pp_config_claims q = None) \<longrightarrow>
     (\<forall>k v w. (k, v) \<in> set (pp_generated_config q) \<longrightarrow> map_of (pp_generated_config p) k = Some w \<longrightarrow> py_eq v w)"

definition config_agree :: "provider_plan \<times> config_claim \<Rightarrow> provider_plan \<times> config_claim \<Rightarrow> bool" where
  "config_agree a b \<longleftrightarrow> (claim_key (fst a) (snd a) = claim_key (fst b) (snd b) \<longrightarrow> py_eq (cl_value (snd a)) (cl_value (snd b)))"

definition claims_compatible :: "provider_plan list \<Rightarrow> bool" where
  "claims_compatible plans \<longleftrightarrow> list_all (\<lambda>a. path_ok (cl_path (snd a))) (owned_config plans)
     \<and> sorted_wrt config_agree (owned_config plans)"

text \<open>A requirement is a nonempty interval of positive integers; a key must have a common value.\<close>

definition requirement_valid :: "configuration_requirement \<Rightarrow> bool" where
  "requirement_valid q \<longleftrightarrow> path_ok (cq_path q) \<and> (\<exists>low. cq_minimum q = JInt low \<and> 1 \<le> low
     \<and> (cq_maximum q = JNull \<or> (\<exists>high. cq_maximum q = JInt high \<and> low \<le> high)))"

definition admits :: "configuration_requirement \<Rightarrow> int \<Rightarrow> bool" where
  "admits q n \<longleftrightarrow> (\<exists>low. cq_minimum q = JInt low \<and> low \<le> n) \<and> (\<forall>high. cq_maximum q = JInt high \<longrightarrow> n \<le> high)"

definition owned_requirements :: "provider_plan list \<Rightarrow> (provider_plan \<times> configuration_requirement) list" where
  "owned_requirements plans = concat (map (\<lambda>p. map (Pair p) (pp_configuration_requirements p)) plans)"

definition requirement_key :: "provider_plan \<times> configuration_requirement \<Rightarrow> string list" where
  "requirement_key a = pp_provider (fst a) # cq_path (snd a)"

definition requirements_met :: "provider_plan list \<Rightarrow> (string list \<times> json) list option \<Rightarrow> bool" where
  "requirements_met plans configuration_values \<longleftrightarrow>
     (\<forall>a \<in> set (owned_requirements plans). requirement_valid (snd a))
     \<and> (\<forall>key \<in> requirement_key ` set (owned_requirements plans). \<exists>n.
          (\<forall>a \<in> set (owned_requirements plans). requirement_key a = key \<longrightarrow> admits (snd a) n)
          \<and> (case configuration_values of None \<Rightarrow> True | Some vs \<Rightarrow> map_of vs key = Some (JInt n)))"

subsection \<open>The loops decide it\<close>

definition clear_of :: "claim_table \<Rightarrow> bundle_claim \<Rightarrow> bool" where
  "clear_of resources c = (case map_of resources (bk_scope c, bk_resource c) of
     None \<Rightarrow> True | Some (_, mode) \<Rightarrow> mode \<noteq> ''exclusive'' \<and> bk_mode c \<noteq> ''exclusive'')"

lemma add_resource_iff:
  "add_resource owner c resources = Inr t \<longleftrightarrow>
     clear_of resources c \<and> t = dict_set (bk_scope c, bk_resource c) (owner, bk_mode c) resources"
  by (auto simp: add_resource_def clear_of_def Let_def split: option.splits)

lemma clear_of_dict_set:
  "clear_of resources c \<Longrightarrow>
   clear_of (dict_set (bk_scope c, bk_resource c) (owner, bk_mode c) resources) d \<longleftrightarrow>
     (if bk_scope c = bk_scope d \<and> bk_resource c = bk_resource d then \<not> claims_clash c d else clear_of resources d)"
  by (auto simp: clear_of_def claims_clash_def split: option.splits)

lemma clear_of_trans:
  "clear_of resources c \<Longrightarrow> bk_scope c = bk_scope d \<Longrightarrow> bk_resource c = bk_resource d \<Longrightarrow> \<not> claims_clash c d \<Longrightarrow>
   clear_of resources d"
  by (auto simp: clear_of_def claims_clash_def split: option.splits)

lemma add_resources_iff:
  "(\<exists>t. add_resources resources cs = Inr t) \<longleftrightarrow>
     sorted_wrt (\<lambda>a b. \<not> claims_clash (snd a) (snd b)) cs \<and> (\<forall>a \<in> set cs. clear_of resources (snd a))"
proof (induction cs arbitrary: resources)
  case Nil
  then show ?case by simp
next
  case (Cons a cs)
  obtain owner c where a: "a = (owner, c)" by (cases a)
  let ?t = "dict_set (bk_scope c, bk_resource c) (owner, bk_mode c) resources"
  have step: "(\<exists>t. add_resources resources (a # cs) = Inr t) \<longleftrightarrow>
      clear_of resources c \<and> (\<exists>t. add_resources ?t cs = Inr t)"
    by (simp add: a ebind_Inr_iff add_resource_iff)
  have "clear_of ?t (snd b) \<longleftrightarrow> \<not> claims_clash c (snd b) \<and> clear_of resources (snd b)" if "clear_of resources c" for b
    using clear_of_dict_set [OF that, of owner "snd b"] clear_of_trans [OF that, of "snd b"]
    by (auto simp: claims_clash_def)
  then show ?case unfolding step Cons.IH by (simp add: a) blast
qed

lemma reject_resources_iff: "reject_resources plans = Inr () \<longleftrightarrow> resources_compatible plans"
  using add_resources_iff [of "[]" "owned_claims plans"]
  by (auto simp: reject_resources_def ebind_Inr_iff resources_compatible_def clear_of_def)

lemma differing_key_None:
  "differing_key plan other = None \<longleftrightarrow>
     (\<forall>k v w. (k, v) \<in> set (pp_generated_config plan) \<longrightarrow> map_of (pp_generated_config other) k = Some w \<longrightarrow> py_eq v w)"
  by (fastforce simp: differing_key_def find_None_iff split: option.splits)

lemma compare_fields_iff: "compare_fields plan other = Inr () \<longleftrightarrow> fields_agree other plan"
  unfolding compare_fields_def fields_agree_def differing_key_None [symmetric]
  by (cases "differing_key plan other") auto

lemma emap_accepts_iff: "(\<exists>us. emap f xs = Inr us) \<longleftrightarrow> (\<forall>x \<in> set xs. \<exists>u. f x = Inr u)"
  by (induction xs) (auto simp: ebind_Inr_iff)

lemma reject_fields_iff:
  "reject_fields before plans = Inr () \<longleftrightarrow>
     sorted_wrt fields_agree plans \<and> (\<forall>p \<in> set plans. \<forall>q \<in> set before. fields_agree q p)"
proof (induction plans arbitrary: before)
  case Nil
  then show ?case by simp
next
  case (Cons p plans)
  have "reject_fields before (p # plans) = Inr () \<longleftrightarrow>
      (\<exists>us. emap (compare_fields p) before = Inr us) \<and> reject_fields (before @ [p]) plans = Inr ()"
    by (auto simp: ebind_Inr_iff)
  then show ?case by (auto simp: Cons.IH emap_accepts_iff compare_fields_iff)
qed

definition agrees_with :: "config_table \<Rightarrow> provider_plan \<times> config_claim \<Rightarrow> bool" where
  "agrees_with claims a = (case map_of claims (claim_key (fst a) (snd a)) of
     None \<Rightarrow> True | Some (_, v) \<Rightarrow> py_eq v (cl_value (snd a)))"

lemma add_config_iff:
  "add_config plan c claims = Inr t \<longleftrightarrow>
     path_ok (cl_path c) \<and> agrees_with claims (plan, c)
     \<and> t = dict_set (claim_key plan c) (pp_extension_id plan, cl_value c) claims"
  by (auto simp: add_config_def agrees_with_def Let_def split: option.splits)

lemma agrees_with_dict_set:
  assumes "agrees_with claims (plan, c)"
  shows "agrees_with (dict_set (claim_key plan c) (owner, cl_value c) claims) b \<longleftrightarrow>
     config_agree (plan, c) b \<and> agrees_with claims b"
  using assms by (auto simp: agrees_with_def config_agree_def py_eq_def split: option.splits)

lemma add_configs_iff:
  "(\<exists>t. add_configs claims cs = Inr t) \<longleftrightarrow>
     list_all (\<lambda>a. path_ok (cl_path (snd a))) cs \<and> sorted_wrt config_agree cs \<and> (\<forall>a \<in> set cs. agrees_with claims a)"
proof (induction cs arbitrary: claims)
  case Nil
  then show ?case by simp
next
  case (Cons a cs)
  obtain plan c where a: "a = (plan, c)" by (cases a)
  let ?t = "dict_set (claim_key plan c) (pp_extension_id plan, cl_value c) claims"
  have step: "(\<exists>t. add_configs claims (a # cs) = Inr t) \<longleftrightarrow>
      path_ok (cl_path c) \<and> agrees_with claims (plan, c) \<and> (\<exists>t. add_configs ?t cs = Inr t)"
    by (simp add: a ebind_Inr_iff add_config_iff)
  have "agrees_with claims (plan, c) \<Longrightarrow> agrees_with ?t b \<longleftrightarrow> config_agree (plan, c) b \<and> agrees_with claims b" for b
    by (rule agrees_with_dict_set)
  then show ?case unfolding step Cons.IH by (simp add: a) blast
qed

lemma reject_claims_iff: "reject_claims plans = Inr () \<longleftrightarrow> claims_compatible plans"
  using add_configs_iff [of "[]" "owned_config plans"]
  by (auto simp: reject_claims_def ebind_Inr_iff claims_compatible_def agrees_with_def)

text \<open>Rows and requirements.\<close>

definition row_admits :: "requirement_row \<Rightarrow> int \<Rightarrow> bool" where
  "row_admits r n \<longleftrightarrow> row_low r \<le> n \<and> (\<forall>h. row_high r = Some h \<longrightarrow> n \<le> h)"

lemma requirement_row_iff:
  "(\<exists>r. requirement_row p q = Inr r) \<longleftrightarrow> requirement_valid q"
  by (auto simp: requirement_row_def requirement_valid_def split: json.splits)

lemma requirement_row_admits:
  "requirement_row p q = Inr r \<Longrightarrow> fst r = requirement_key (p, q) \<and> (row_admits r n \<longleftrightarrow> admits q n)"
  by (auto simp: requirement_row_def requirement_key_def row_admits_def row_low_def row_high_def admits_def
      split: json.splits if_splits)

lemma check_key_iff:
  assumes "key \<in> set (map fst rows)"
  shows "check_key vals rows key = Inr () \<longleftrightarrow> (\<exists>n. (\<forall>r \<in> set rows. fst r = key \<longrightarrow> row_admits r n)
     \<and> (case vals of None \<Rightarrow> True | Some vs \<Rightarrow> map_of vs key = Some (JInt n)))"
proof -
  define grouped where "grouped = filter (\<lambda>r. fst r = key) rows"
  define low where "low = Max (set (map row_low grouped))"
  define bounded where "bounded = List.map_filter row_high grouped"
  define high where "high = (if bounded = [] then None else Some (Min (set bounded)))"
  have "grouped \<noteq> []" using assms by (auto simp: grouped_def filter_empty_conv)
  then have low: "low \<le> n \<longleftrightarrow> (\<forall>r \<in> set grouped. row_low r \<le> n)" for n
    by (simp add: low_def)
  have bounded: "set bounded = {h. \<exists>r \<in> set grouped. row_high r = Some h}"
    by (force simp: bounded_def List.map_filter_def)
  have "(case high of None \<Rightarrow> True | Some h \<Rightarrow> n \<le> h) \<longleftrightarrow> (\<forall>h \<in> set bounded. n \<le> h)" for n
    by (cases "bounded = []") (simp_all add: high_def)
  then have high: "(case high of None \<Rightarrow> True | Some h \<Rightarrow> n \<le> h) \<longleftrightarrow>
      (\<forall>r \<in> set grouped. \<forall>h. row_high r = Some h \<longrightarrow> n \<le> h)" for n
    unfolding bounded by blast
  have admit: "low \<le> n \<and> (case high of None \<Rightarrow> True | Some h \<Rightarrow> n \<le> h) \<longleftrightarrow>
      (\<forall>r \<in> set rows. fst r = key \<longrightarrow> row_admits r n)" for n
    unfolding low high by (auto simp: grouped_def row_admits_def)
  have unfolded: "check_key vals rows key =
      ebind (check (case high of None \<Rightarrow> True | Some h \<Rightarrow> low \<le> h) (ExtValueError (ConstraintConflict key))) (\<lambda>_.
      case vals of
        None \<Rightarrow> Inr ()
      | Some values \<Rightarrow> (case map_of values key of
          Some (JInt v) \<Rightarrow>
            check (low \<le> v \<and> (case high of None \<Rightarrow> True | Some h \<Rightarrow> v \<le> h)) (ExtValueError (RequirementUnmet key))
        | _ \<Rightarrow> refuse (RequirementUnmet key)))"
    unfolding check_key_def Let_def grouped_def low_def bounded_def high_def ..
  have least: "(case high of None \<Rightarrow> True | Some h \<Rightarrow> low \<le> h)" if "low \<le> n" "case high of None \<Rightarrow> True | Some h \<Rightarrow> n \<le> h" for n
    using that by (auto split: option.splits)
  show ?thesis unfolding unfolded admit [symmetric]
    using least by (auto simp: ebind_Inr_iff split: option.splits json.splits)
qed

lemma requirement_rows_list:
  "requirement_rows plans = Inr rows \<longleftrightarrow>
     list_all2 (\<lambda>a r. requirement_row (fst a) (snd a) = Inr r) (owned_requirements plans) rows"
  unfolding requirement_rows_def owned_requirements_def emap_Inr_iff by (simp add: case_prod_beta)

lemma list_all2_target: "list_all2 R xs ys \<Longrightarrow> x \<in> set xs \<Longrightarrow> \<exists>y \<in> set ys. R x y"
  by (induction rule: list_all2_induct) auto

lemma list_all2_source: "list_all2 R xs ys \<Longrightarrow> y \<in> set ys \<Longrightarrow> \<exists>x \<in> set xs. R x y"
  by (induction rule: list_all2_induct) auto

lemma rows_keys:
  assumes "requirement_rows plans = Inr rows"
  shows "fst ` set rows = requirement_key ` set (owned_requirements plans)"
    and "(\<forall>r \<in> set rows. fst r = key \<longrightarrow> row_admits r n) \<longleftrightarrow>
      (\<forall>a \<in> set (owned_requirements plans). requirement_key a = key \<longrightarrow> admits (snd a) n)"
proof -
  let ?same = "\<lambda>a r n. fst r = requirement_key a \<and> (row_admits r n \<longleftrightarrow> admits (snd a) n)"
  from assms have all: "list_all2 (\<lambda>a r. requirement_row (fst a) (snd a) = Inr r) (owned_requirements plans) rows"
    by (simp add: requirement_rows_list)
  have row: "?same a r n" if "requirement_row (fst a) (snd a) = Inr r" for a r n
    using requirement_row_admits [OF that] by simp
  have to: "\<exists>r \<in> set rows. ?same a r n" if "a \<in> set (owned_requirements plans)" for a n
    using list_all2_target [OF all that] row by blast
  have of_row: "\<exists>a \<in> set (owned_requirements plans). ?same a r n" if "r \<in> set rows" for r n
    using list_all2_source [OF all that] row by blast
  have "fst r \<in> requirement_key ` set (owned_requirements plans)" if "r \<in> set rows" for r
    using of_row [OF that] by blast
  moreover have "requirement_key a \<in> fst ` set rows" if "a \<in> set (owned_requirements plans)" for a
    using to [OF that] by (metis imageI)
  ultimately show "fst ` set rows = requirement_key ` set (owned_requirements plans)" by blast
  show "(\<forall>r \<in> set rows. fst r = key \<longrightarrow> row_admits r n) \<longleftrightarrow>
      (\<forall>a \<in> set (owned_requirements plans). requirement_key a = key \<longrightarrow> admits (snd a) n)"
    using to [of _ n] of_row [of _ n] by (intro iffI ballI impI) fastforce+
qed

lemma reject_requirements_iff:
  "reject_configuration_requirements plans vals = Inr () \<longleftrightarrow> requirements_met plans vals"
proof (cases "requirement_rows plans")
  case (Inl e)
  then have "\<exists>e. emap (\<lambda>(p, q). requirement_row p q) (owned_requirements plans) = Inl e"
    by (simp add: requirement_rows_def owned_requirements_def)
  then have "\<exists>a \<in> set (owned_requirements plans). \<exists>e. requirement_row (fst a) (snd a) = Inl e"
    unfolding emap_Inl_iff by (simp add: case_prod_beta)
  then obtain a where "a \<in> set (owned_requirements plans)" "\<not> requirement_valid (snd a)"
    using requirement_row_iff by (metis sum.distinct(1))
  with Inl show ?thesis by (auto simp: reject_configuration_requirements_def requirements_met_def)
next
  case (Inr rows)
  then have "\<forall>a \<in> set (owned_requirements plans). \<exists>r. requirement_row (fst a) (snd a) = Inr r"
    unfolding requirement_rows_list by (blast dest: list_all2_target)
  then have valid: "\<forall>a \<in> set (owned_requirements plans). requirement_valid (snd a)"
    by (simp only: requirement_row_iff)
  have "reject_configuration_requirements plans vals = Inr () \<longleftrightarrow>
      (\<forall>key \<in> fst ` set rows. check_key vals rows key = Inr ())"
    using emap_accepts_iff [of "check_key vals rows" "sort (remdups (map fst rows))"]
    by (simp add: reject_configuration_requirements_def Inr ebind_Inr_iff)
  also have "\<dots> \<longleftrightarrow> (\<forall>key \<in> fst ` set rows. \<exists>n. (\<forall>r \<in> set rows. fst r = key \<longrightarrow> row_admits r n)
      \<and> (case vals of None \<Rightarrow> True | Some vs \<Rightarrow> map_of vs key = Some (JInt n)))"
    by (rule ball_cong [OF refl], rule check_key_iff) simp
  also have "\<dots> \<longleftrightarrow> requirements_met plans vals"
    unfolding requirements_met_def rows_keys [OF Inr] using valid by simp
  finally show ?thesis .
qed

lemma reject_conflicting_plans_compatible:
  "reject_conflicting_plans plans vals = Inr () \<longleftrightarrow>
     resources_compatible plans \<and> sorted_wrt fields_agree plans \<and> claims_compatible plans \<and> requirements_met plans vals"
  by (simp add: reject_conflicting_plans_def ebind_Inr_iff reject_resources_iff reject_fields_iff reject_claims_iff
      reject_requirements_iff)

subsection \<open>Host providers\<close>

text \<open>
  \<open>provider_for(name, include_external)\<close>: the built-in providers by name and the entry points of
  other distributions with what loading them gives.
\<close>

definition load_external_provider :: "string \<Rightarrow> ext_exn + host_provider \<Rightarrow> ext_exn + host_provider" where
  "load_external_provider name loaded = (case loaded of
     Inl _ \<Rightarrow> refuse (ProviderFailed name)
   | Inr provider \<Rightarrow>
       if hp_name provider \<noteq> name then refuse (ProviderMismatch name (hp_name provider)) else Inr provider)"

definition provider_for ::
  "(string \<times> host_provider) list \<Rightarrow> (string \<times> (ext_exn + host_provider)) list \<Rightarrow> bool \<Rightarrow> string
     \<Rightarrow> ext_exn + host_provider" where
  "provider_for builtins external include_external name =
     (if \<not> include_external then
        (case map_of builtins name of None \<Rightarrow> refuse (UnknownProvider name) | Some p \<Rightarrow> Inr p)
      else
        let found = filter (\<lambda>e. fst e = name) external in
        case map_of builtins name of
          Some p \<Rightarrow> if found \<noteq> [] then refuse (DuplicateProvider name) else Inr p
        | None \<Rightarrow>
            if length found > 1 then refuse (DuplicateProvider name)
            else (case found of
              [] \<Rightarrow> refuse (UnknownProvider name)
            | e # _ \<Rightarrow> load_external_provider name (snd e)))"

subsection \<open>\<open>plan_for\<close> and \<open>status_for\<close>\<close>

definition bundle_blocker :: "bundle_manifest \<Rightarrow> ext_exn + string option" where
  "bundle_blocker m = (case activation_blocker m of Inr b \<Rightarrow> Inr b | Inl _ \<Rightarrow> Inl ExtTypeError)"

definition inspect_plan :: "string \<Rightarrow> bundle_manifest \<Rightarrow> string \<Rightarrow> provider_plan" where
  "inspect_plan bundle_id manifest blocker =
     \<lparr>pp_extension_id = bundle_id, pp_provider = hs_provider (bm_host manifest),
      pp_actions = [\<lparr>pa_operation = ''inspect_only'', pa_target = bundle_id,
        pa_lifecycle_owner = bm_lifecycle_owner manifest, pa_mutating = False, pa_details = [(''enabled'', JBool False)]\<rparr>],
      pp_generated_config = [], pp_warnings = [blocker], pp_resource_claims = bm_resource_claims manifest,
      pp_config_claims = None, pp_configuration_requirements = []\<rparr>"

record ext_config =
  xc_enabled :: bool
  xc_configuration :: "(string \<times> json) list"

definition plan_for ::
  "(string \<Rightarrow> ext_exn + host_provider) \<Rightarrow> installed_bundle \<Rightarrow> ext_config \<Rightarrow> ext_exn + provider_plan" where
  "plan_for provider_of bundle extension =
     (let manifest = ib_manifest bundle in
      ebind (bundle_blocker manifest) (\<lambda>blocker. case blocker of
        Some text \<Rightarrow> Inr (inspect_plan (ib_bundle_id bundle) manifest text)
      | None \<Rightarrow>
          ebind (provider_of (hs_provider (bm_host manifest))) (\<lambda>provider.
          ebind (check (hp_supports provider manifest) (ExtValueError UnsupportedManifest)) (\<lambda>_.
          ebind (hp_plan provider manifest (xc_configuration extension) (xc_enabled extension)) (\<lambda>plan.
          ebind (check (\<not> list_ex pa_mutating (pp_actions plan)) (ExtValueError ForbiddenMutation)) (\<lambda>_.
          ebind (check (pp_resource_claims plan = [] \<or> pp_resource_claims plan = bm_resource_claims manifest)
            (ExtValueError InventedClaims)) (\<lambda>_.
          Inr (plan\<lparr>pp_resource_claims := bm_resource_claims manifest\<rparr>))))))))"

datatype lifecycle_state = INSTALLED | DISCOVERED | COMPATIBLE | CONFIGURED | ENABLED | RUNTIME_EFFECTIVE
  | REACHABLE | HEALTHY | DEGRADED | INCOMPATIBLE

datatype status_evidence = StatusText string | StatusError ext_exn

record extension_status =
  xs_extension_id :: string
  xs_provider :: string
  xs_states :: "lifecycle_state list"
  xs_evidence :: "status_evidence list"

definition checked ::
  "(string \<Rightarrow> ext_exn + host_provider) \<Rightarrow> installed_bundle \<Rightarrow> ext_config \<Rightarrow> ext_exn + host_provider \<times> provider_check" where
  "checked provider_of bundle extension =
     (let manifest = ib_manifest bundle in
      ebind (provider_of (hs_provider (bm_host manifest))) (\<lambda>provider.
      ebind (check (hp_supports provider manifest) (ExtValueError UnsupportedManifest)) (\<lambda>_.
      ebind (hp_check provider manifest (xc_configuration extension)) (\<lambda>c.
      Inr (provider, c)))))"

text \<open>The states of a check; \<open>effective\<close> is what \<open>runtime_effective_evidence(bundle)\<close> returns.\<close>

definition check_states :: "provider_check \<Rightarrow> bool \<Rightarrow> string option \<Rightarrow> lifecycle_state list" where
  "check_states c enabled effective =
     [INSTALLED, DISCOVERED]
     @ (case pc_compatible c of Some True \<Rightarrow> [COMPATIBLE] | Some False \<Rightarrow> [INCOMPATIBLE] | None \<Rightarrow> [])
     @ (if pc_configured c then [CONFIGURED] else [])
     @ (if enabled then ENABLED # (if effective \<noteq> None then [RUNTIME_EFFECTIVE] else []) else [])
     @ (if pc_reachable c = Some True then [REACHABLE] else [])
     @ (if pc_healthy c = Some True then [HEALTHY] else [])
     @ (if pc_degraded c \<or> pc_reachable c = Some False \<or> pc_healthy c = Some False then [DEGRADED] else [])"

definition status_for ::
  "(string \<Rightarrow> ext_exn + host_provider) \<Rightarrow> string option \<Rightarrow> installed_bundle \<Rightarrow> ext_config \<Rightarrow> ext_exn + extension_status" where
  "status_for provider_of effective bundle extension =
     (let manifest = ib_manifest bundle;
          failed = (\<lambda>e. Inr \<lparr>xs_extension_id = ib_bundle_id bundle, xs_provider = hs_provider (bm_host manifest),
            xs_states = [INSTALLED, DISCOVERED, INCOMPATIBLE], xs_evidence = [StatusError e]\<rparr>) in
      case checked provider_of bundle extension of
        Inl (ExtValueError r) \<Rightarrow> failed (ExtValueError r)
      | Inl (ExtDiscoveryError r) \<Rightarrow> failed (ExtDiscoveryError r)
      | Inl e \<Rightarrow> Inl e
      | Inr (provider, c) \<Rightarrow>
          ebind (bundle_blocker manifest) (\<lambda>blocker.
          let c' = (case blocker of None \<Rightarrow> c
                | Some text \<Rightarrow> c\<lparr>pc_degraded := True, pc_evidence := pc_evidence c @ [text]\<rparr>);
              runtime = (if xc_enabled extension then (case effective of None \<Rightarrow> [] | Some t \<Rightarrow> [t]) else []) in
          Inr \<lparr>xs_extension_id = ib_bundle_id bundle, xs_provider = hp_name provider,
               xs_states = check_states c' (xc_enabled extension) effective,
               xs_evidence = map StatusText (pc_evidence c' @ runtime)\<rparr>))"

text \<open>A plan never mutates, and claims the resources its manifest declares.\<close>

lemma inspect_plan_harmless:
  "\<not> list_ex pa_mutating (pp_actions (inspect_plan i m t))" "pp_resource_claims (inspect_plan i m t) = bm_resource_claims m"
  by (simp_all add: inspect_plan_def)

lemma plan_for_cases:
  assumes "plan_for provider_of bundle extension = Inr plan"
  shows "(\<exists>t. plan = inspect_plan (ib_bundle_id bundle) (ib_manifest bundle) t)
    \<or> (\<exists>p. \<not> list_ex pa_mutating (pp_actions p) \<and> plan = p\<lparr>pp_resource_claims := bm_resource_claims (ib_manifest bundle)\<rparr>)"
proof -
  from assms obtain blocker where blocker: "bundle_blocker (ib_manifest bundle) = Inr blocker"
    unfolding plan_for_def Let_def ebind_Inr_iff by (elim exE conjE)
  show ?thesis
  proof (cases blocker)
    case None
    with assms blocker show ?thesis
      by (simp only: plan_for_def Let_def ebind_simps option.case ebind_Inr_iff check_Inr_iff sum.inject) blast
  next
    case (Some t)
    with assms blocker show ?thesis by (simp add: plan_for_def Let_def) blast
  qed
qed

lemma plan_for_sound:
  assumes "plan_for provider_of bundle extension = Inr plan"
  shows "\<not> list_ex pa_mutating (pp_actions plan)" and "pp_resource_claims plan = bm_resource_claims (ib_manifest bundle)"
  using plan_for_cases [OF assms] inspect_plan_harmless by (elim disjE exE conjE; simp)+

text \<open>The runtime state is never inferred from the saved intent to enable.\<close>

lemma check_states_effective: "RUNTIME_EFFECTIVE \<in> set (check_states c enabled effective) \<Longrightarrow> enabled \<and> effective \<noteq> None"
  by (auto simp: check_states_def split: option.splits if_splits bool.splits)

lemma status_for_states:
  assumes "status_for provider_of effective bundle extension = Inr st"
  shows "xs_states st = [INSTALLED, DISCOVERED, INCOMPATIBLE]
    \<or> (\<exists>c. xs_states st = check_states c (xc_enabled extension) effective)"
proof (cases "checked provider_of bundle extension")
  case (Inl e)
  with assms show ?thesis by (cases e) (auto simp: status_for_def Let_def)
next
  case (Inr pc)
  obtain provider c where pc: "pc = (provider, c)" by (cases pc)
  from assms Inr pc show ?thesis
    by (simp add: status_for_def Let_def) (auto simp only: ebind_Inr_iff sum.inject extension_status.select_convs)
qed

lemma status_runtime_effective:
  "status_for provider_of effective bundle extension = Inr st \<Longrightarrow> RUNTIME_EFFECTIVE \<in> set (xs_states st) \<Longrightarrow>
   xc_enabled extension \<and> effective \<noteq> None"
  by (drule status_for_states) (auto dest: check_states_effective)

subsection \<open>The property\<close>

text \<open>
  C16. \<open>reject_conflicting_plans\<close> accepts exactly the compatible plans, whatever the dicts of its loops
  remember: no two resource claims, also of one plan, are for the same resource in the same scope with
  one of them exclusive; two plans of a provider of which one has no projection agree on their common
  fields; claims of the same setting have equal values; and the required intervals of every setting are
  nonempty, positive and have a common integer, which is the actual value where values are given.
\<close>

theorem reject_conflicting_plans_iff:
  "reject_conflicting_plans plans configuration_values = Inr () \<longleftrightarrow>
     resources_compatible plans \<and> sorted_wrt fields_agree plans \<and> claims_compatible plans
     \<and> requirements_met plans configuration_values"
  by (rule reject_conflicting_plans_compatible)

end
