(* ===== verification/Bundle_Commands.thy ===== *)
theory Bundle_Commands
  imports Extension_Plans
begin

section \<open>User configuration and the commands on it (\<^verbatim>\<open>config.py\<close>, \<^verbatim>\<open>cli.py\<close>)\<close>

text \<open>
  The stored configuration of extensions with its JSON form; the checks of the command line on a
  selection of bundles (dependencies, process ownership, resource ownership, removal); and the commands
  \<open>enable\<close>, \<open>disable\<close>, \<open>forget\<close> and \<open>configure\<close> as steps on the stored configuration, for a fixed
  installation that \<open>discover_bundles\<close> reads.  The depth-first search for dependency cycles is proved
  to accept exactly the acyclic graphs.  The invariant of the steps is what the documentation promises:
  the enabled bundles have their dependencies enabled at versions in range, without a cycle, at most one
  of them owns the process tree, and their resource claims do not clash.
\<close>

subsection \<open>\<open>config.py\<close>\<close>

type_synonym user_config = "(string \<times> ext_config) list"

definition default_extension :: ext_config where
  "default_extension = \<lparr>xc_enabled = False, xc_configuration = []\<rparr>"

definition uc_enabled :: "user_config \<Rightarrow> string list" where
  "uc_enabled cfg = map fst (filter (\<lambda>e. xc_enabled (snd e)) cfg)"

definition uc_extension :: "user_config \<Rightarrow> string \<Rightarrow> ext_config" where
  "uc_extension cfg i = (case map_of cfg i of None \<Rightarrow> default_extension | Some e \<Rightarrow> e)"

definition with_extension :: "user_config \<Rightarrow> string \<Rightarrow> ext_config \<Rightarrow> user_config" where
  "with_extension cfg i e = dict_set i e cfg"

definition without_extension :: "user_config \<Rightarrow> string \<Rightarrow> user_config" where
  "without_extension cfg i = filter (\<lambda>e. fst e \<noteq> i) cfg"

definition parse_extension_config :: "string \<Rightarrow> json \<Rightarrow> ext_exn + ext_config" where
  "parse_extension_config i v = (case v of
     JObj d \<Rightarrow>
       ebind (check (set (map fst d) \<subseteq> {''enabled'', ''configuration''}) (ExtValueError (NotAnObject i))) (\<lambda>_.
       ebind (case get_default ''enabled'' (JBool False) d of JBool b \<Rightarrow> Inr b | _ \<Rightarrow> refuse (NotAnObject i)) (\<lambda>enabled.
       ebind (case get_default ''configuration'' (JObj []) d of JObj c \<Rightarrow> Inr c | _ \<Rightarrow> refuse (NotAnObject i)) (\<lambda>configuration.
       Inr \<lparr>xc_enabled = enabled, xc_configuration = configuration\<rparr>)))
   | _ \<Rightarrow> refuse (NotAnObject i))"

text \<open>\<open>{item: ExtensionConfig(enabled=True) for item in enabled}\<close> of the legacy schema 1.\<close>

fun legacy_extensions :: "string list \<Rightarrow> user_config \<Rightarrow> user_config" where
  "legacy_extensions [] cfg = cfg"
| "legacy_extensions (i # is) cfg = legacy_extensions is (dict_set i \<lparr>xc_enabled = True, xc_configuration = []\<rparr> cfg)"

definition legacy_names :: "json \<Rightarrow> ext_exn + string list" where
  "legacy_names v = (case v of
     JArr vs \<Rightarrow> emap (\<lambda>x. case x of JStr s \<Rightarrow> Inr s | _ \<Rightarrow> refuse (NotAnObject ''enabled'')) vs
   | _ \<Rightarrow> refuse (NotAnObject ''enabled''))"

text \<open>
  \<open>load_config\<close> after \<open>json.loads\<close>; \<open>None\<close> when the file does not exist.  \<open>==\<close> of the schema version is
  \<open>py_eq\<close>: \<open>True\<close> is schema 1.
\<close>

definition load_config :: "json option \<Rightarrow> ext_exn + user_config" where
  "load_config stored = (case stored of
     None \<Rightarrow> Inr []
   | Some (JObj d) \<Rightarrow>
       (let schema = get_or_null ''schema_version'' d in
        if py_eq schema (JInt 1) then
          ebind (legacy_names (get_default ''enabled'' (JArr []) d)) (\<lambda>names. Inr (legacy_extensions names []))
        else if \<not> py_eq schema (JInt 2) then refuse (NotAnObject ''schema_version'')
        else (case get_default ''extensions'' (JObj []) d of
          JObj raw \<Rightarrow> emap (\<lambda>(i, v). ebind (parse_extension_config i v) (\<lambda>e. Inr (i, e))) raw
        | _ \<Rightarrow> refuse (NotAnObject ''extensions'')))
   | Some _ \<Rightarrow> refuse (NotAnObject ''config''))"

text \<open>The value \<open>save_config\<close> writes, with sorted extensions; \<open>json.dump\<close> sorts the keys of every object.\<close>

definition config_payload :: "user_config \<Rightarrow> json" where
  "config_payload cfg = JObj [(''schema_version'', JInt 2), (''extensions'', JObj (map (\<lambda>(i, e). (i, JObj
     [(''enabled'', JBool (xc_enabled e)), (''configuration'', JObj (xc_configuration e))])) (sort_key fst cfg)))]"

subsection \<open>Dependency cycles\<close>

text \<open>
  \<open>visit\<close> of the ids in turn: \<open>visiting\<close> is the path of the recursion, \<open>visited\<close> what is finished.
\<close>

type_synonym dependency_edges = "(string \<times> string list) list"

definition edges_of :: "dependency_edges \<Rightarrow> string \<Rightarrow> string list" where
  "edges_of edges i = (case map_of edges i of None \<Rightarrow> [] | Some ds \<Rightarrow> ds)"

function (sequential) visit_all ::
  "dependency_edges \<Rightarrow> string list \<Rightarrow> string list \<Rightarrow> string list \<Rightarrow> string list + string list" where
  "visit_all edges visiting visited [] = Inr visited"
| "visit_all edges visiting visited (i # is) =
     (if i \<in> set visiting then Inl (dropWhile (\<lambda>v. v \<noteq> i) visiting @ [i])
      else if i \<in> set visited then visit_all edges visiting visited is
      else (case visit_all edges (visiting @ [i]) visited (edges_of edges i) of
        Inl cycle \<Rightarrow> Inl cycle
      | Inr finished \<Rightarrow> visit_all edges visiting (finished @ [i]) is))"
  by pat_completeness auto

termination
proof (relation "inv_image (less_than <*lex*> less_than)
    (\<lambda>(edges, visiting, visited, is). (card (set (map fst edges) - set visiting), length is))", goal_cases)
  case 1
  then show ?case by auto
next
  case (2 edges visiting visited i "is")
  then show ?case by simp
next
  case (3 edges visiting visited i "is")
  show ?case
  proof (cases "i \<in> set (map fst edges)")
    case True
    with 3 have "set (map fst edges) - set (visiting @ [i]) \<subset> set (map fst edges) - set visiting" by auto
    then show ?thesis by (simp add: psubset_card_mono del: set_map)
  next
    case False
    then have "map_of edges i = None" by (simp add: map_of_eq_None_iff)
    then have "edges_of edges i = []" by (simp add: edges_of_def)
    moreover from False have "set (map fst edges) - set (visiting @ [i]) = set (map fst edges) - set visiting" by auto
    ultimately show ?thesis by (simp del: set_map)
  qed
next
  case (4 edges visiting visited i "is" finished)
  then show ?case by simp
qed

subsection \<open>Checks of a selection\<close>

definition dependency_ids :: "installed_bundle \<Rightarrow> string list" where
  "dependency_ids b = map rx_extension_id (bm_requires_extensions (ib_manifest b))"

text \<open>\<open>selected\<close> and \<open>edges\<close>: dicts by bundle id.\<close>

definition selected_bundles :: "installed_bundle list \<Rightarrow> (string \<times> installed_bundle) list" where
  "selected_bundles bundles = fold (\<lambda>b d. dict_set (ib_bundle_id b) b d) bundles []"

definition bundle_edges :: "installed_bundle list \<Rightarrow> dependency_edges" where
  "bundle_edges bundles = fold (\<lambda>b d. dict_set (ib_bundle_id b) (dependency_ids b) d) bundles []"

text \<open>
  \<open>Version(...)\<close> and \<open>SpecifierSet(...)\<close> raise a \<open>ValueError\<close> on an invalid text; the manifests of
  discovered bundles have none.
\<close>

definition version_in :: "('v, 's) pep440 \<Rightarrow> string \<Rightarrow> string \<Rightarrow> ext_exn + bool" where
  "version_in P version range_text = (case pk_version P version of
     None \<Rightarrow> refuse (NotAnObject version)
   | Some v \<Rightarrow> (case pk_specifiers P range_text of
       None \<Rightarrow> refuse (NotAnObject range_text)
     | Some r \<Rightarrow> Inr (pk_contains P r v)))"

definition check_dependency ::
  "('v, 's) pep440 \<Rightarrow> (string \<times> installed_bundle) list \<Rightarrow> installed_bundle \<Rightarrow> required_extension \<Rightarrow> ext_exn + unit" where
  "check_dependency P selected b d = (case map_of selected (rx_extension_id d) of
     None \<Rightarrow> refuse (MissingDependency (ib_bundle_id b) (rx_extension_id d))
   | Some required \<Rightarrow>
       ebind (version_in P (bm_bundle_version (ib_manifest required)) (rx_version_range d)) (\<lambda>ok.
       check ok (ExtValueError (IncompatibleDependency (ib_bundle_id b) (rx_extension_id d)))))"

definition check_bundle_dependencies ::
  "('v, 's) pep440 \<Rightarrow> (string \<times> installed_bundle) list \<Rightarrow> installed_bundle \<Rightarrow> ext_exn + unit" where
  "check_bundle_dependencies P selected b =
     ebind (emap (check_dependency P selected b) (bm_requires_extensions (ib_manifest b))) (\<lambda>_. Inr ())"

definition validate_dependencies :: "('v, 's) pep440 \<Rightarrow> installed_bundle list \<Rightarrow> ext_exn + unit" where
  "validate_dependencies P bundles =
     ebind (emap (check_bundle_dependencies P (selected_bundles bundles)) bundles) (\<lambda>_.
     let edges = bundle_edges bundles in
     case visit_all edges [] [] (sort (map fst edges)) of
       Inl cycle \<Rightarrow> refuse (DependencyCycle cycle)
     | Inr _ \<Rightarrow> Inr ())"

definition process_owner :: "bundle_manifest \<Rightarrow> bool" where
  "process_owner m \<longleftrightarrow> hs_provider (bm_host m) = ''stateaxis'' \<and> ru_process_scope (bm_runtime m) = ''stateaxis_processes''
     \<and> ru_isolation (bm_runtime m) = ''trusted_in_process''"

definition process_owners :: "installed_bundle list \<Rightarrow> string list" where
  "process_owners bundles = map ib_bundle_id (filter (\<lambda>b. process_owner (ib_manifest b)) bundles)"

definition validate_process_ownership :: "installed_bundle list \<Rightarrow> ext_exn + unit" where
  "validate_process_ownership bundles =
     check (length (process_owners bundles) \<le> 1) (ExtValueError (ProcessOwners (sort (process_owners bundles))))"

definition ownership_plan :: "installed_bundle \<Rightarrow> provider_plan" where
  "ownership_plan b = \<lparr>pp_extension_id = ib_bundle_id b, pp_provider = hs_provider (bm_host (ib_manifest b)),
     pp_actions = [], pp_generated_config = [], pp_warnings = [],
     pp_resource_claims = bm_resource_claims (ib_manifest b), pp_config_claims = None,
     pp_configuration_requirements = []\<rparr>"

definition validate_resource_ownership :: "installed_bundle list \<Rightarrow> ext_exn + unit" where
  "validate_resource_ownership bundles = reject_conflicting_plans (map ownership_plan bundles) None"

definition removal_dependents :: "string \<Rightarrow> installed_bundle list \<Rightarrow> string list" where
  "removal_dependents i bundles = sort (map ib_bundle_id
     (filter (\<lambda>b. ib_bundle_id b \<noteq> i \<and> i \<in> set (dependency_ids b)) bundles))"

definition validate_removal :: "string \<Rightarrow> installed_bundle list \<Rightarrow> ext_exn + unit" where
  "validate_removal i bundles =
     check (removal_dependents i bundles = []) (ExtValueError (HasDependents i (removal_dependents i bundles)))"

subsection \<open>The commands\<close>

text \<open>An installation: what \<open>discover_bundles\<close> reads.\<close>

record ('v, 's) installation =
  in_versions :: "('v, 's) pep440"
  in_files :: file_view
  in_registrations :: "entry_point list"
  in_entry_points :: "entry_point list"

definition discover_in :: "('v, 's) installation \<Rightarrow> string list \<Rightarrow> ext_exn + installed_bundle list" where
  "discover_in I ids = discover_bundles (in_versions I) (in_files I) (in_registrations I) (in_entry_points I) (Some ids)"

text \<open>\<open>discover_bundles(config.enabled) if config.enabled else ()\<close>\<close>

definition discover_enabled :: "('v, 's) installation \<Rightarrow> user_config \<Rightarrow> ext_exn + installed_bundle list" where
  "discover_enabled I cfg = (if uc_enabled cfg = [] then Inr [] else discover_in I (uc_enabled cfg))"

definition cmd_enable :: "('v, 's) installation \<Rightarrow> string \<Rightarrow> user_config \<Rightarrow> ext_exn + user_config" where
  "cmd_enable I i cfg =
     ebind (discover_in I [i]) (\<lambda>bundles.
     ebind (bundle_blocker (ib_manifest (hd bundles))) (\<lambda>blocker.
     ebind (check (blocker = None) (ExtValueError (CannotEnable i))) (\<lambda>_.
     ebind (discover_in I (sort (remdups (i # uc_enabled cfg)))) (\<lambda>prospective.
     ebind (validate_dependencies (in_versions I) prospective) (\<lambda>_.
     ebind (validate_process_ownership prospective) (\<lambda>_.
     ebind (validate_resource_ownership prospective) (\<lambda>_.
     Inr (with_extension cfg i \<lparr>xc_enabled = True, xc_configuration = xc_configuration (uc_extension cfg i)\<rparr>))))))))"

definition cmd_disable :: "('v, 's) installation \<Rightarrow> string \<Rightarrow> user_config \<Rightarrow> ext_exn + user_config" where
  "cmd_disable I i cfg =
     ebind (discover_enabled I cfg) (\<lambda>enabled_bundles.
     ebind (validate_removal i enabled_bundles) (\<lambda>_.
     Inr (with_extension cfg i \<lparr>xc_enabled = False, xc_configuration = xc_configuration (uc_extension cfg i)\<rparr>)))"

definition cmd_forget :: "('v, 's) installation \<Rightarrow> string \<Rightarrow> user_config \<Rightarrow> ext_exn + user_config" where
  "cmd_forget I i cfg = (case map_of cfg i of
     None \<Rightarrow> refuse (NoStoredState i)
   | Some stored \<Rightarrow>
       ebind (check (\<not> xc_enabled stored) (ExtValueError (StillEnabled i))) (\<lambda>_.
       ebind (discover_enabled I cfg) (\<lambda>enabled_bundles.
       ebind (validate_removal i enabled_bundles) (\<lambda>_.
       Inr (without_extension cfg i)))))"

definition cmd_configure :: "('v, 's) installation \<Rightarrow> string \<Rightarrow> json \<Rightarrow> user_config \<Rightarrow> ext_exn + user_config" where
  "cmd_configure I i given cfg =
     ebind (discover_in I [i]) (\<lambda>_.
     case given of
       JObj configuration \<Rightarrow>
         Inr (with_extension cfg i \<lparr>xc_enabled = xc_enabled (uc_extension cfg i), xc_configuration = configuration\<rparr>)
     | _ \<Rightarrow> refuse (NotAnObject i))"

datatype command = Enable string | Disable string | Forget string | Configure string json

fun run_command :: "('v, 's) installation \<Rightarrow> command \<Rightarrow> user_config \<Rightarrow> ext_exn + user_config" where
  "run_command I (Enable i) cfg = cmd_enable I i cfg"
| "run_command I (Disable i) cfg = cmd_disable I i cfg"
| "run_command I (Forget i) cfg = cmd_forget I i cfg"
| "run_command I (Configure i v) cfg = cmd_configure I i v cfg"

text \<open>
  A command on the stored value: it is loaded, and what \<open>save_config\<close> writes is stored when the command
  succeeds; a command that raises leaves the file alone.
\<close>

definition execute :: "('v, 's) installation \<Rightarrow> command \<Rightarrow> json option \<Rightarrow> json option" where
  "execute I c stored = (case ebind (load_config stored) (run_command I c) of
     Inl e \<Rightarrow> stored
   | Inr cfg \<Rightarrow> Some (jsort (config_payload cfg)))"

inductive stored_reachable :: "('v, 's) installation \<Rightarrow> json option \<Rightarrow> bool" for I where
  fresh: "stored_reachable I None"
| command: "stored_reachable I stored \<Longrightarrow> stored_reachable I (execute I c stored)"

subsection \<open>The search accepts exactly the acyclic graphs\<close>

definition edge_rel :: "dependency_edges \<Rightarrow> (string \<times> string) set" where
  "edge_rel edges = {(i, d). d \<in> set (edges_of edges i)}"

text \<open>The latest finished first: every element has its successors among the ones after it.\<close>

fun finish_order :: "dependency_edges \<Rightarrow> string list \<Rightarrow> bool" where
  "finish_order edges [] \<longleftrightarrow> True"
| "finish_order edges (i # vs) \<longleftrightarrow> set (edges_of edges i) \<subseteq> set vs \<and> finish_order edges vs"

lemma visit_all_finishes:
  "visit_all edges visiting visited is = Inr vs \<Longrightarrow> finish_order edges (rev visited) \<Longrightarrow>
     finish_order edges (rev vs) \<and> set is \<subseteq> set vs \<and> set visited \<subseteq> set vs"
proof (induction edges visiting visited "is" arbitrary: vs rule: visit_all.induct)
  case (1 edges visiting visited)
  then show ?case by simp
next
  case (2 edges visiting visited i "is")
  show ?case
  proof (cases "i \<in> set visited")
    case True
    with 2 show ?thesis by (auto split: if_splits)
  next
    case False
    from "2.prems"(1) have "i \<notin> set visiting" by (auto split: if_splits)
    with "2.prems"(1) False obtain finished
      where inner: "visit_all edges (visiting @ [i]) visited (edges_of edges i) = Inr finished"
        and outer: "visit_all edges visiting (finished @ [i]) is = Inr vs"
      by (auto split: sum.splits)
    have one: "finish_order edges (rev finished) \<and> set (edges_of edges i) \<subseteq> set finished \<and> set visited \<subseteq> set finished"
      using "2.IH"(2) [OF \<open>i \<notin> set visiting\<close> False inner "2.prems"(2)] .
    then have "finish_order edges (rev (finished @ [i]))" by simp
    from "2.IH"(3) [OF \<open>i \<notin> set visiting\<close> False inner outer this] one show ?thesis by auto
  qed
qed

lemma finish_order_closed: "finish_order edges vs \<Longrightarrow> (x, y) \<in> edge_rel edges \<Longrightarrow> x \<in> set vs \<Longrightarrow> y \<in> set vs"
  by (induction vs) (auto simp: edge_rel_def)

lemma finish_order_reach:
  assumes "finish_order edges vs" and "(x, y) \<in> (edge_rel edges)\<^sup>+" and "x \<in> set vs"
  shows "y \<in> set vs"
  using assms(2,3) by (induction rule: trancl_induct) (auto intro: finish_order_closed [OF assms(1)])

lemma finish_order_acyclic: "finish_order edges vs \<Longrightarrow> x \<in> set vs \<Longrightarrow> (x, x) \<notin> (edge_rel edges)\<^sup>+"
proof (induction vs)
  case Nil
  then show ?case by simp
next
  case (Cons i vs)
  show ?case
  proof (cases "x \<in> set vs")
    case True
    with Cons show ?thesis by simp
  next
    case False
    with Cons.prems have x: "x = i" by simp
    show ?thesis
    proof
      assume "(x, x) \<in> (edge_rel edges)\<^sup>+"
      then obtain y where y: "(x, y) \<in> edge_rel edges" and again: "y = x \<or> (y, x) \<in> (edge_rel edges)\<^sup>+"
        by (auto elim: converse_tranclE)
      from y x Cons.prems have "y \<in> set vs" by (auto simp: edge_rel_def)
      with again Cons.prems have "x \<in> set vs" by (auto intro: finish_order_reach)
      with False show False ..
    qed
  qed
qed

lemma visit_all_cycle:
  "visit_all edges visiting visited is = Inl c \<Longrightarrow>
   (\<forall>v \<in> set visiting. \<forall>i \<in> set is. (v, i) \<in> (edge_rel edges)\<^sup>+) \<Longrightarrow> \<exists>x. (x, x) \<in> (edge_rel edges)\<^sup>+"
proof (induction edges visiting visited "is" arbitrary: c rule: visit_all.induct)
  case (1 edges visiting visited)
  then show ?case by simp
next
  case (2 edges visiting visited i "is")
  show ?case
  proof (cases "i \<in> set visiting")
    case True
    with "2.prems"(2) show ?thesis by auto
  next
    case out: False
    show ?thesis
    proof (cases "i \<in> set visited")
      case True
      with 2 out show ?thesis by simp
    next
      case False
      show ?thesis
      proof (cases "visit_all edges (visiting @ [i]) visited (edges_of edges i)")
        case (Inl c')
        have "\<forall>v \<in> set (visiting @ [i]). \<forall>d \<in> set (edges_of edges i). (v, d) \<in> (edge_rel edges)\<^sup>+"
          using "2.prems"(2) by (auto simp: edge_rel_def intro: trancl_into_trancl)
        then show ?thesis by (rule "2.IH"(2) [OF out False Inl])
      next
        case (Inr finished)
        with "2.prems"(1) out False have "visit_all edges visiting (finished @ [i]) is = Inl c" by simp
        with "2.IH"(3) [OF out False Inr] "2.prems"(2) show ?thesis by simp
      qed
    qed
  qed
qed

lemma visit_all_iff:
  "(\<exists>vs. visit_all edges [] [] (sort (map fst edges)) = Inr vs) \<longleftrightarrow> acyclic (edge_rel edges)"
proof
  assume "\<exists>vs. visit_all edges [] [] (sort (map fst edges)) = Inr vs"
  then obtain vs where "visit_all edges [] [] (sort (map fst edges)) = Inr vs" ..
  from visit_all_finishes [OF this] have vs: "finish_order edges (rev vs)" "fst ` set edges \<subseteq> set (rev vs)" by simp_all
  show "acyclic (edge_rel edges)"
  proof (rule acyclicI, intro allI notI)
    fix x assume cycle: "(x, x) \<in> (edge_rel edges)\<^sup>+"
    then obtain y where "(x, y) \<in> edge_rel edges" by (auto elim: converse_tranclE)
    then have "map_of edges x \<noteq> None" by (cases "map_of edges x") (auto simp: edge_rel_def edges_of_def)
    then have "x \<in> fst ` set edges" by (simp add: map_of_eq_None_iff)
    with vs(2) have "x \<in> set (rev vs)" by blast
    from finish_order_acyclic [OF vs(1) this] cycle show False ..
  qed
next
  assume acyc: "acyclic (edge_rel edges)"
  show "\<exists>vs. visit_all edges [] [] (sort (map fst edges)) = Inr vs"
  proof (cases "visit_all edges [] [] (sort (map fst edges))")
    case (Inl c)
    from visit_all_cycle [OF Inl] acyc show ?thesis by (simp add: acyclic_def)
  qed simp
qed

subsection \<open>Storing a configuration and loading it\<close>

text \<open>What a configuration is after it was stored: sorted, with sorted keys in the settings.\<close>

definition stored_extension :: "ext_config \<Rightarrow> ext_config" where
  "stored_extension e = \<lparr>xc_enabled = xc_enabled e, xc_configuration = sorted_pairs (xc_configuration e)\<rparr>"

definition stored_config :: "user_config \<Rightarrow> user_config" where
  "stored_config cfg = map (\<lambda>(i, e). (i, stored_extension e)) (sort_key fst cfg)"

definition extension_payload :: "ext_config \<Rightarrow> (string \<times> json) list" where
  "extension_payload e = [(''enabled'', JBool (xc_enabled e)), (''configuration'', JObj (xc_configuration e))]"

lemma parse_stored_extension:
  "parse_extension_config i (jsort (JObj (extension_payload e))) = Inr (stored_extension e)"
proof -
  let ?d = "extension_payload e"
  have keys: "distinct (map fst ?d)" "set (map fst ?d) = {''enabled'', ''configuration''}"
    by (auto simp: extension_payload_def)
  have at: "map_of (sorted_pairs ?d) k = map_option jsort (map_of ?d k)" for k
    by (rule map_of_sorted_pairs [OF keys(1)])
  have "get_default ''enabled'' v (sorted_pairs ?d) = JBool (xc_enabled e)"
    "get_default ''configuration'' v (sorted_pairs ?d) = JObj (sorted_pairs (xc_configuration e))" for v
    unfolding get_default_def at by (simp_all add: extension_payload_def sorted_pairs_def)
  moreover have "set (map fst (sorted_pairs ?d)) = {''enabled'', ''configuration''}"
    using keys(2) by (simp add: sorted_pairs_def image_image)
  moreover have "jsort (JObj ?d) = JObj (sorted_pairs ?d)" by (simp add: sorted_pairs_def)
  ultimately show ?thesis by (simp add: parse_extension_config_def stored_extension_def del: jsort.simps set_map)
qed

definition extension_rows :: "user_config \<Rightarrow> (string \<times> json) list" where
  "extension_rows cfg = map (\<lambda>(i, e). (i, JObj (extension_payload e))) (sort_key fst cfg)"

lemma config_payload_rows: "config_payload cfg = JObj [(''schema_version'', JInt 2), (''extensions'', JObj (extension_rows cfg))]"
  by (simp add: config_payload_def extension_rows_def extension_payload_def)

lemma sorted_map_fst_sort_key: "sorted (map fst (sort_key fst cfg))"
  by simp

lemma sorted_extension_rows:
  "sorted_pairs (extension_rows cfg) = map (\<lambda>(i, e). (i, jsort (JObj (extension_payload e)))) (sort_key fst cfg)"
proof -
  let ?rows = "map (\<lambda>(i, e). (i, jsort (JObj (extension_payload e)))) (sort_key fst cfg)"
  have "map fst ?rows = map fst (sort_key fst cfg)" by (simp add: case_prod_beta comp_def)
  then have "sorted (map fst ?rows)" by (simp del: map_map)
  then have "sort_key fst ?rows = ?rows" by (rule sort_key_id_if_sorted)
  moreover have "map (\<lambda>kv. (fst kv, jsort (snd kv))) (extension_rows cfg) = ?rows"
    by (simp add: extension_rows_def case_prod_beta comp_def del: jsort.simps)
  ultimately show ?thesis by (simp add: sorted_pairs_def del: jsort.simps)
qed

lemma load_stored_config: "load_config (Some (jsort (config_payload cfg))) = Inr (stored_config cfg)"
proof -
  let ?d = "[(''schema_version'', JInt 2), (''extensions'', JObj (extension_rows cfg))]"
  have at: "map_of (sorted_pairs ?d) k = map_option jsort (map_of ?d k)" for k
    by (rule map_of_sorted_pairs) simp
  have schema: "get_or_null ''schema_version'' (sorted_pairs ?d) = JInt 2"
    unfolding get_or_null_def at by simp
  have rows: "get_default ''extensions'' (JObj []) (sorted_pairs ?d) = JObj (sorted_pairs (extension_rows cfg))"
    unfolding get_default_def at by (simp add: jsort_JObj del: jsort.simps)
  have "emap (\<lambda>(i, v). ebind (parse_extension_config i v) (\<lambda>e. Inr (i, e))) (sorted_pairs (extension_rows cfg))
      = Inr (stored_config cfg)"
    unfolding sorted_extension_rows stored_config_def emap_Inr_iff
    by (simp add: list_all2_map1 list_all2_map2 list_all2_same case_prod_beta parse_stored_extension del: jsort.simps)
  then show ?thesis
    unfolding config_payload_rows jsort_JObj by (simp add: load_config_def schema rows Let_def py_eq_def)
qed

lemma stored_config_enabled: "uc_enabled (stored_config cfg) = map fst (filter (\<lambda>e. xc_enabled (snd e)) (sort_key fst cfg))"
  by (simp add: uc_enabled_def stored_config_def filter_map comp_def case_prod_beta stored_extension_def)

lemma stored_enabled_set: "set (uc_enabled (stored_config cfg)) = set (uc_enabled cfg)"
  by (simp only: stored_config_enabled) (simp add: uc_enabled_def)

lemma stored_config_keys: "distinct (map fst (stored_config cfg)) \<longleftrightarrow> distinct (map fst cfg)"
proof -
  have "map fst (stored_config cfg) = map fst (sort_key fst cfg)"
    by (simp add: stored_config_def comp_def case_prod_beta)
  moreover have "mset (map fst (sort_key fst cfg)) = mset (map fst cfg)" by simp
  ultimately show ?thesis by (metis mset_eq_imp_distinct_iff)
qed

subsection \<open>What the checks of a selection accept\<close>

lemma map_of_fold_by:
  "map_of (fold (\<lambda>b d. dict_set (f b) (g b) d) bs d) = map_of (rev (map (\<lambda>b. (f b, g b)) bs) @ d)"
  by (induction bs arbitrary: d) (auto simp: fun_eq_iff map_add_def split: option.splits)

lemma map_of_by_id:
  assumes "distinct (map ib_bundle_id bs)"
  shows "map_of (fold (\<lambda>b d. dict_set (ib_bundle_id b) (g b) d) bs []) i = Some v
     \<longleftrightarrow> (\<exists>b \<in> set bs. ib_bundle_id b = i \<and> v = g b)"
proof -
  have "distinct (map fst (rev (map (\<lambda>b. (ib_bundle_id b, g b)) bs)))"
    using assms by (simp add: comp_def rev_map [symmetric] del: distinct_map)
  then show ?thesis by (auto simp: map_of_fold_by map_of_eq_Some_iff)
qed

definition bundle_graph :: "installed_bundle list \<Rightarrow> (string \<times> string) set" where
  "bundle_graph bs = {(i, d). \<exists>b \<in> set bs. ib_bundle_id b = i \<and> d \<in> set (dependency_ids b)}"

lemma edge_rel_bundle_edges:
  assumes "distinct (map ib_bundle_id bs)"
  shows "edge_rel (bundle_edges bs) = bundle_graph bs"
proof -
  have "map_of (bundle_edges bs) i = Some v \<longleftrightarrow> (\<exists>b \<in> set bs. ib_bundle_id b = i \<and> v = dependency_ids b)" for i v
    unfolding bundle_edges_def by (rule map_of_by_id [OF assms])
  moreover have "d \<in> set (edges_of e i) \<longleftrightarrow> (\<exists>v. map_of e i = Some v \<and> d \<in> set v)" for e i d
    by (cases "map_of e i") (simp_all add: edges_of_def)
  ultimately show ?thesis unfolding edge_rel_def bundle_graph_def by auto
qed

lemma map_of_selected:
  assumes "distinct (map ib_bundle_id bs)"
  shows "map_of (selected_bundles bs) i = Some b \<longleftrightarrow> b \<in> set bs \<and> ib_bundle_id b = i"
  unfolding selected_bundles_def map_of_by_id [OF assms, of "\<lambda>b. b"] by blast

text \<open>A dependency is satisfied by a selected bundle whose version is in the range.\<close>

definition dependency_met :: "('v, 's) pep440 \<Rightarrow> installed_bundle list \<Rightarrow> required_extension \<Rightarrow> bool" where
  "dependency_met P bs d \<longleftrightarrow> (\<exists>b \<in> set bs. ib_bundle_id b = rx_extension_id d
     \<and> version_in P (bm_bundle_version (ib_manifest b)) (rx_version_range d) = Inr True)"

lemma check_dependency_iff:
  assumes "distinct (map ib_bundle_id bs)"
  shows "check_dependency P (selected_bundles bs) b d = Inr () \<longleftrightarrow> dependency_met P bs d"
proof (cases "map_of (selected_bundles bs) (rx_extension_id d)")
  case None
  with map_of_selected [OF assms, of "rx_extension_id d"] show ?thesis
    by (auto simp: check_dependency_def dependency_met_def)
next
  case (Some required)
  with map_of_selected [OF assms, of "rx_extension_id d"]
  have "b' \<in> set bs \<and> ib_bundle_id b' = rx_extension_id d \<longleftrightarrow> b' = required" for b' by (metis option.inject)
  then have "dependency_met P bs d \<longleftrightarrow> version_in P (bm_bundle_version (ib_manifest required)) (rx_version_range d) = Inr True"
    unfolding dependency_met_def by (metis (no_types))
  with Some show ?thesis by (auto simp: check_dependency_def ebind_Inr_iff)
qed

lemma check_bundle_dependencies_iff:
  assumes "distinct (map ib_bundle_id bs)"
  shows "check_bundle_dependencies P (selected_bundles bs) b = Inr () \<longleftrightarrow>
     (\<forall>d \<in> set (bm_requires_extensions (ib_manifest b)). dependency_met P bs d)"
proof -
  have "check_bundle_dependencies P (selected_bundles bs) b = Inr () \<longleftrightarrow>
      (\<exists>us. emap (check_dependency P (selected_bundles bs) b) (bm_requires_extensions (ib_manifest b)) = Inr us)"
    by (auto simp: check_bundle_dependencies_def ebind_Inr_iff)
  then show ?thesis by (simp add: emap_accepts_iff check_dependency_iff [OF assms])
qed

lemma validate_dependencies_accepts:
  assumes "distinct (map ib_bundle_id bs)"
  shows "validate_dependencies P bs = Inr () \<longleftrightarrow>
     (\<forall>b \<in> set bs. \<forall>d \<in> set (bm_requires_extensions (ib_manifest b)). dependency_met P bs d) \<and> acyclic (bundle_graph bs)"
proof -
  have deps: "(\<exists>us. emap (check_bundle_dependencies P (selected_bundles bs)) bs = Inr us) \<longleftrightarrow>
      (\<forall>b \<in> set bs. \<forall>d \<in> set (bm_requires_extensions (ib_manifest b)). dependency_met P bs d)"
    by (simp add: emap_accepts_iff check_bundle_dependencies_iff [OF assms])
  have search: "(case visit_all e [] [] is of Inl c \<Rightarrow> refuse (DependencyCycle c) | Inr _ \<Rightarrow> Inr ()) = Inr ()
      \<longleftrightarrow> (\<exists>vs. visit_all e [] [] is = Inr vs)" for e "is"
    by (simp split: sum.splits)
  show ?thesis
    unfolding validate_dependencies_def Let_def ebind_Inr_iff search visit_all_iff edge_rel_bundle_edges [OF assms]
      deps [symmetric] by blast
qed

lemma process_ownership_unique:
  assumes "validate_process_ownership bs = Inr ()" and "b \<in> set bs" "process_owner (ib_manifest b)"
    and "b' \<in> set bs" "process_owner (ib_manifest b')"
  shows "b = b'"
proof -
  let ?owners = "filter (\<lambda>b. process_owner (ib_manifest b)) bs"
  from assms have "length ?owners \<le> 1" "b \<in> set ?owners" "b' \<in> set ?owners"
    by (simp_all add: validate_process_ownership_def process_owners_def)
  then show ?thesis by (cases ?owners) auto
qed

text \<open>Resources of different bundles.\<close>

definition claims_of :: "installed_bundle \<Rightarrow> bundle_claim list" where
  "claims_of b = bm_resource_claims (ib_manifest b)"

definition claims_free :: "bundle_claim list \<Rightarrow> bundle_claim list \<Rightarrow> bool" where
  "claims_free cs ds \<longleftrightarrow> (\<forall>c \<in> set cs. \<forall>d \<in> set ds. \<not> claims_clash c d)"

lemma claims_free_sym: "claims_free cs ds \<Longrightarrow> claims_free ds cs"
  by (auto simp: claims_free_def claims_clash_def)

lemma owned_claims_Cons:
  "owned_claims (map ownership_plan (b # bs)) =
     map (\<lambda>c. (ib_bundle_id b, c)) (claims_of b) @ owned_claims (map ownership_plan bs)"
  by (simp add: owned_claims_def ownership_plan_def claims_of_def)

lemma owned_claims_set: "snd ` set (owned_claims (map ownership_plan bs)) = (\<Union>b \<in> set bs. set (claims_of b))"
  by (induction bs) (auto simp: owned_claims_def ownership_plan_def claims_of_def image_Un image_image)

lemma resources_compatible_bundles:
  "resources_compatible (map ownership_plan bs) \<longleftrightarrow>
     list_all (\<lambda>b. sorted_wrt (\<lambda>c d. \<not> claims_clash c d) (claims_of b)) bs
     \<and> sorted_wrt (\<lambda>b b'. claims_free (claims_of b) (claims_of b')) bs"
proof (induction bs)
  case Nil
  then show ?case by (simp add: resources_compatible_def owned_claims_def)
next
  case (Cons b bs)
  have "(\<forall>a \<in> set (owned_claims (map ownership_plan bs)). \<not> claims_clash c (snd a)) \<longleftrightarrow>
      (\<forall>d \<in> snd ` set (owned_claims (map ownership_plan bs)). \<not> claims_clash c d)" for c
    by simp
  then have "(\<forall>a \<in> set (owned_claims (map ownership_plan bs)). \<not> claims_clash c (snd a)) \<longleftrightarrow>
      (\<forall>b' \<in> set bs. \<forall>d \<in> set (claims_of b'). \<not> claims_clash c d)" for c
    unfolding owned_claims_set by blast
  then show ?case
    using Cons unfolding resources_compatible_def owned_claims_Cons
    by (simp add: sorted_wrt_append sorted_wrt_map claims_free_def) blast
qed

lemma validate_resource_ownership_iff:
  "validate_resource_ownership bs = Inr () \<longleftrightarrow> resources_compatible (map ownership_plan bs)"
proof -
  have "sorted_wrt fields_agree (map ownership_plan bs)"
    by (simp add: sorted_wrt_map fields_agree_def ownership_plan_def sorted_wrt_true)
  moreover have "owned_config (map ownership_plan bs) = []" "owned_requirements (map ownership_plan bs) = []"
    by (induction bs) (simp_all add: owned_config_def owned_requirements_def projected_claims_def ownership_plan_def)
  then have "claims_compatible (map ownership_plan bs)" "requirements_met (map ownership_plan bs) None"
    by (simp_all add: claims_compatible_def requirements_met_def)
  ultimately show ?thesis by (simp add: validate_resource_ownership_def reject_conflicting_plans_compatible)
qed

lemma sorted_wrt_sym:
  assumes "sorted_wrt R xs" and "x \<in> set xs" "y \<in> set xs" "x \<noteq> y" and "\<And>x y. R x y \<Longrightarrow> R y x"
  shows "R x y"
proof -
  have "R x y \<or> R y x" using assms(1-4) by (induction xs) auto
  with assms(5) show ?thesis by blast
qed

lemma no_dependents:
  "validate_removal i bs = Inr () \<longleftrightarrow> (\<forall>b \<in> set bs. ib_bundle_id b \<noteq> i \<longrightarrow> i \<notin> set (dependency_ids b))"
proof -
  have "removal_dependents i bs = [] \<longleftrightarrow> filter (\<lambda>b. ib_bundle_id b \<noteq> i \<and> i \<in> set (dependency_ids b)) bs = []"
    unfolding removal_dependents_def sort_key_empty_iff map_is_Nil_conv ..
  then show ?thesis by (auto simp: validate_removal_def filter_empty_conv)
qed

subsection \<open>The invariant of the stored configuration\<close>

abbreviation bundle_in :: "('v, 's) installation \<Rightarrow> string \<Rightarrow> ext_exn + installed_bundle" where
  "bundle_in I \<equiv> bundle_at (in_versions I) (in_files I) (in_registrations I) (in_entry_points I)"

text \<open>The graph of the dependencies of a set of bundles of an installation.\<close>

definition enabled_graph :: "('v, 's) installation \<Rightarrow> string set \<Rightarrow> (string \<times> string) set" where
  "enabled_graph I E = {(i, d). i \<in> E \<and> (\<exists>b. bundle_in I i = Inr b \<and> d \<in> set (dependency_ids b))}"

text \<open>
  A selection is sound: every bundle is found, its dependencies are selected at a version in range, there
  is no cycle, at most one process owner, and no clash of resource claims.
\<close>

definition dependencies_closed :: "('v, 's) installation \<Rightarrow> string set \<Rightarrow> bool" where
  "dependencies_closed I E \<longleftrightarrow> (\<forall>i \<in> E. \<exists>b. bundle_in I i = Inr b \<and>
     (\<forall>d \<in> set (bm_requires_extensions (ib_manifest b)). rx_extension_id d \<in> E \<and>
       (\<exists>r. bundle_in I (rx_extension_id d) = Inr r
         \<and> version_in (in_versions I) (bm_bundle_version (ib_manifest r)) (rx_version_range d) = Inr True)))"

definition one_process_owner :: "('v, 's) installation \<Rightarrow> string set \<Rightarrow> bool" where
  "one_process_owner I E \<longleftrightarrow> (\<forall>i \<in> E. \<forall>j \<in> E. \<forall>b b'. bundle_in I i = Inr b \<longrightarrow> bundle_in I j = Inr b' \<longrightarrow>
     process_owner (ib_manifest b) \<longrightarrow> process_owner (ib_manifest b') \<longrightarrow> i = j)"

definition claims_exclusive :: "('v, 's) installation \<Rightarrow> string set \<Rightarrow> bool" where
  "claims_exclusive I E \<longleftrightarrow>
     (\<forall>i \<in> E. \<forall>b. bundle_in I i = Inr b \<longrightarrow> sorted_wrt (\<lambda>c d. \<not> claims_clash c d) (claims_of b))
     \<and> (\<forall>i \<in> E. \<forall>j \<in> E. \<forall>b b'. bundle_in I i = Inr b \<longrightarrow> bundle_in I j = Inr b' \<longrightarrow> i \<noteq> j \<longrightarrow>
         claims_free (claims_of b) (claims_of b'))"

definition selection_sound :: "('v, 's) installation \<Rightarrow> string set \<Rightarrow> bool" where
  "selection_sound I E \<longleftrightarrow> dependencies_closed I E \<and> acyclic (enabled_graph I E) \<and> one_process_owner I E \<and> claims_exclusive I E"

lemma discover_in_iff:
  "discover_in I ids = Inr bs \<longleftrightarrow>
     set ids \<subseteq> set (map ep_name (in_registrations I)) \<and> list_all2 (\<lambda>i b. bundle_in I i = Inr b) ids bs"
  unfolding discover_in_def by (rule discover_selected_iff)

lemma discovered_ids: "list_all2 (\<lambda>i b. bundle_in I i = Inr b) ids bs \<Longrightarrow> map ib_bundle_id bs = ids"
  by (induction rule: list_all2_induct) (auto dest: bundle_at_id)

lemma discovered_set:
  assumes "list_all2 (\<lambda>i b. bundle_in I i = Inr b) ids bs"
  shows "b \<in> set bs \<longleftrightarrow> ib_bundle_id b \<in> set ids \<and> bundle_in I (ib_bundle_id b) = Inr b"
proof
  assume "b \<in> set bs"
  from list_all2_source [OF assms this] obtain i where "i \<in> set ids" "bundle_in I i = Inr b" by blast
  then show "ib_bundle_id b \<in> set ids \<and> bundle_in I (ib_bundle_id b) = Inr b" by (auto dest: bundle_at_id)
next
  assume "ib_bundle_id b \<in> set ids \<and> bundle_in I (ib_bundle_id b) = Inr b"
  with list_all2_target [OF assms, of "ib_bundle_id b"] show "b \<in> set bs" by auto
qed

lemma discovered_at:
  assumes "list_all2 (\<lambda>i b. bundle_in I i = Inr b) ids bs" and "i \<in> set ids" and "bundle_in I i = Inr b"
  shows "b \<in> set bs" and "ib_bundle_id b = i"
  using discovered_set [OF assms(1), of b] assms(2,3) bundle_at_id by force+

text \<open>The validators accept only sound selections.\<close>

lemma validated_dependencies_closed:
  assumes found: "list_all2 (\<lambda>i b. bundle_in I i = Inr b) ids bs"
    and met: "\<forall>b \<in> set bs. \<forall>d \<in> set (bm_requires_extensions (ib_manifest b)). dependency_met (in_versions I) bs d"
  shows "dependencies_closed I (set ids)"
  unfolding dependencies_closed_def
proof
  fix i assume i: "i \<in> set ids"
  from list_all2_target [OF found i] obtain b where b: "b \<in> set bs" "bundle_in I i = Inr b" by blast
  have "rx_extension_id d \<in> set ids \<and> (\<exists>r. bundle_in I (rx_extension_id d) = Inr r
       \<and> version_in (in_versions I) (bm_bundle_version (ib_manifest r)) (rx_version_range d) = Inr True)"
    if "d \<in> set (bm_requires_extensions (ib_manifest b))" for d
  proof -
    from met b(1) that have "dependency_met (in_versions I) bs d" by blast
    then obtain r where r: "r \<in> set bs" "ib_bundle_id r = rx_extension_id d"
        "version_in (in_versions I) (bm_bundle_version (ib_manifest r)) (rx_version_range d) = Inr True"
      unfolding dependency_met_def by blast
    from discovered_set [OF found, of r] r show ?thesis by auto
  qed
  with b(2) show "\<exists>b. bundle_in I i = Inr b \<and> (\<forall>d \<in> set (bm_requires_extensions (ib_manifest b)). rx_extension_id d \<in> set ids \<and>
     (\<exists>r. bundle_in I (rx_extension_id d) = Inr r
       \<and> version_in (in_versions I) (bm_bundle_version (ib_manifest r)) (rx_version_range d) = Inr True))" by blast
qed

lemma validated_claims_exclusive:
  assumes found: "list_all2 (\<lambda>i b. bundle_in I i = Inr b) ids bs"
    and resources: "validate_resource_ownership bs = Inr ()"
  shows "claims_exclusive I (set ids)"
  unfolding claims_exclusive_def
proof (intro conjI ballI allI impI)
  from resources have own: "\<forall>b \<in> set bs. sorted_wrt (\<lambda>c d. \<not> claims_clash c d) (claims_of b)"
    and pairs: "sorted_wrt (\<lambda>b b'. claims_free (claims_of b) (claims_of b')) bs"
    by (simp_all add: validate_resource_ownership_iff resources_compatible_bundles list_all_iff)
  show "sorted_wrt (\<lambda>c d. \<not> claims_clash c d) (claims_of b)" if "i \<in> set ids" "bundle_in I i = Inr b" for i b
    using own discovered_at(1) [OF found that] by blast
  show "claims_free (claims_of b) (claims_of b')"
    if "i \<in> set ids" "j \<in> set ids" "bundle_in I i = Inr b" "bundle_in I j = Inr b'" "i \<noteq> j" for i j b b'
  proof (rule sorted_wrt_sym [OF pairs])
    show "b \<in> set bs" "b' \<in> set bs" using discovered_at(1) [OF found] that by blast+
    show "b \<noteq> b'" using discovered_at(2) [OF found] that by blast
  qed (rule claims_free_sym)
qed

lemma validated_one_owner:
  assumes found: "list_all2 (\<lambda>i b. bundle_in I i = Inr b) ids bs" and owner: "validate_process_ownership bs = Inr ()"
  shows "one_process_owner I (set ids)"
  unfolding one_process_owner_def
proof (intro ballI allI impI)
  fix i j b b'
  assume i: "i \<in> set ids" "bundle_in I i = Inr b" and j: "j \<in> set ids" "bundle_in I j = Inr b'"
    and "process_owner (ib_manifest b)" "process_owner (ib_manifest b')"
  with process_ownership_unique [OF owner] discovered_at(1) [OF found] have "b = b'" by blast
  with discovered_at(2) [OF found i] discovered_at(2) [OF found j] show "i = j" by simp
qed

lemma validated_selection_sound:
  assumes found: "list_all2 (\<lambda>i b. bundle_in I i = Inr b) ids bs" and dist: "distinct ids"
    and deps: "validate_dependencies (in_versions I) bs = Inr ()"
    and owner: "validate_process_ownership bs = Inr ()"
    and resources: "validate_resource_ownership bs = Inr ()"
  shows "selection_sound I (set ids)"
proof -
  have ids: "distinct (map ib_bundle_id bs)" using discovered_ids [OF found] dist by simp
  note accepted = validate_dependencies_accepts [OF ids, THEN iffD1, OF deps]
  have "enabled_graph I (set ids) \<subseteq> bundle_graph bs"
    unfolding enabled_graph_def bundle_graph_def using discovered_at [OF found] by blast
  with accepted have "acyclic (enabled_graph I (set ids))" by (blast intro: acyclic_subset)
  with validated_dependencies_closed [OF found] accepted validated_claims_exclusive [OF found resources]
    validated_one_owner [OF found owner] show ?thesis by (simp add: selection_sound_def)
qed

lemma uc_enabled_set:
  "distinct (map fst cfg) \<Longrightarrow> i \<in> set (uc_enabled cfg) \<longleftrightarrow> (\<exists>e. map_of cfg i = Some e \<and> xc_enabled e)"
  by (auto simp: uc_enabled_def map_of_eq_Some_iff) force

lemma enabled_with_extension:
  assumes "distinct (map fst cfg)"
  shows "set (uc_enabled (with_extension cfg i e)) =
     (if xc_enabled e then insert i (set (uc_enabled cfg)) else set (uc_enabled cfg) - {i})"
proof -
  have "distinct (map fst (with_extension cfg i e))" using assms by (simp add: with_extension_def distinct_dict_set)
  from uc_enabled_set [OF this] uc_enabled_set [OF assms] show ?thesis
    by (auto simp: with_extension_def split: if_splits)
qed

lemma enabled_configured:
  assumes "distinct (map fst cfg)"
  shows "set (uc_enabled (with_extension cfg i \<lparr>xc_enabled = xc_enabled (uc_extension cfg i), xc_configuration = c\<rparr>))
     = set (uc_enabled cfg)"
  using uc_enabled_set [OF assms, of i]
  by (auto simp: enabled_with_extension [OF assms] uc_extension_def default_extension_def split: option.splits if_splits)

lemma enabled_without:
  assumes "map_of cfg i = Some e" and "\<not> xc_enabled e" and "distinct (map fst cfg)"
  shows "set (uc_enabled (without_extension cfg i)) = set (uc_enabled cfg)"
proof -
  have "(i, x) \<in> set cfg \<Longrightarrow> x = e" for x using assms(1,3) by (simp add: map_of_eq_Some_iff)
  with assms(2) show ?thesis by (force simp: uc_enabled_def without_extension_def)
qed

text \<open>A subset that keeps its dependencies is sound.\<close>

lemma selection_sound_subset:
  assumes "selection_sound I E" and "F \<subseteq> E" and "dependencies_closed I F"
  shows "selection_sound I F"
proof -
  have "enabled_graph I F \<subseteq> enabled_graph I E" using assms(2) by (auto simp: enabled_graph_def)
  with assms(1) have "acyclic (enabled_graph I F)" by (auto simp: selection_sound_def intro: acyclic_subset)
  moreover from assms(1,2) have "one_process_owner I F" "claims_exclusive I F"
    unfolding selection_sound_def one_process_owner_def claims_exclusive_def by blast+
  ultimately show ?thesis using assms(3) by (simp add: selection_sound_def)
qed

lemma removal_keeps_closed:
  assumes "dependencies_closed I E" and "\<forall>j \<in> E. \<forall>b. bundle_in I j = Inr b \<longrightarrow> j \<noteq> i \<longrightarrow> i \<notin> set (dependency_ids b)"
  shows "dependencies_closed I (E - {i})"
  unfolding dependencies_closed_def
proof
  fix j assume j: "j \<in> E - {i}"
  with assms(1) obtain b where b: "bundle_in I j = Inr b"
    and deps: "\<forall>d \<in> set (bm_requires_extensions (ib_manifest b)). rx_extension_id d \<in> E \<and>
       (\<exists>r. bundle_in I (rx_extension_id d) = Inr r
         \<and> version_in (in_versions I) (bm_bundle_version (ib_manifest r)) (rx_version_range d) = Inr True)"
    unfolding dependencies_closed_def by blast
  from assms(2) j b have "i \<notin> rx_extension_id ` set (bm_requires_extensions (ib_manifest b))"
    by (auto simp: dependency_ids_def)
  with b deps show "\<exists>b. bundle_in I j = Inr b \<and> (\<forall>d \<in> set (bm_requires_extensions (ib_manifest b)).
      rx_extension_id d \<in> E - {i} \<and> (\<exists>r. bundle_in I (rx_extension_id d) = Inr r
         \<and> version_in (in_versions I) (bm_bundle_version (ib_manifest r)) (rx_version_range d) = Inr True))"
    by (intro exI [of _ b]) blast
qed

definition config_sound :: "('v, 's) installation \<Rightarrow> user_config \<Rightarrow> bool" where
  "config_sound I cfg \<longleftrightarrow> distinct (map fst cfg) \<and> selection_sound I (set (uc_enabled cfg))"

lemma enable_sound:
  assumes "cmd_enable I i cfg = Inr cfg'" and "config_sound I cfg"
  shows "config_sound I cfg'"
proof -
  let ?ids = "sort (remdups (i # uc_enabled cfg))"
  from assms(1) obtain bs e where found: "discover_in I ?ids = Inr bs"
    and checks: "validate_dependencies (in_versions I) bs = Inr ()" "validate_process_ownership bs = Inr ()"
      "validate_resource_ownership bs = Inr ()"
    and cfg': "cfg' = with_extension cfg i e" "xc_enabled e"
    by (auto simp: cmd_enable_def ebind_Inr_iff)
  have "selection_sound I (set ?ids)"
    by (rule validated_selection_sound [OF _ _ checks]) (use found in \<open>simp_all add: discover_in_iff\<close>)
  moreover have "set ?ids = insert i (set (uc_enabled cfg))" by (simp del: remdups.simps)
  ultimately have "selection_sound I (insert i (set (uc_enabled cfg)))" by simp
  with assms(2) cfg' show ?thesis
    by (simp add: config_sound_def enabled_with_extension with_extension_def distinct_dict_set
        enabled_with_extension [unfolded with_extension_def])
qed

lemma no_dependents_enabled:
  assumes "discover_enabled I cfg = Inr bs" and "validate_removal i bs = Inr ()"
    and "j \<in> set (uc_enabled cfg)" and "bundle_in I j = Inr b" and "j \<noteq> i"
  shows "i \<notin> set (dependency_ids b)"
proof -
  from assms(1,3) have "list_all2 (\<lambda>i b. bundle_in I i = Inr b) (uc_enabled cfg) bs"
    by (auto simp: discover_enabled_def discover_in_iff split: if_splits)
  from discovered_at [OF this assms(3,4)] assms(2,5) show ?thesis by (simp add: no_dependents)
qed

lemma disable_sound:
  assumes "cmd_disable I i cfg = Inr cfg'" and "config_sound I cfg"
  shows "config_sound I cfg'"
proof -
  from assms(1) obtain bs e where found: "discover_enabled I cfg = Inr bs" and removal: "validate_removal i bs = Inr ()"
    and cfg': "cfg' = with_extension cfg i e" "\<not> xc_enabled e"
    by (auto simp: cmd_disable_def ebind_Inr_iff)
  from assms(2) have sound: "selection_sound I (set (uc_enabled cfg))" and dist: "distinct (map fst cfg)"
    by (simp_all add: config_sound_def)
  have "dependencies_closed I (set (uc_enabled cfg) - {i})"
    by (rule removal_keeps_closed) (use sound no_dependents_enabled [OF found removal] in \<open>auto simp: selection_sound_def\<close>)
  with sound have "selection_sound I (set (uc_enabled cfg) - {i})" by (auto intro: selection_sound_subset)
  with dist cfg' show ?thesis
    by (simp add: config_sound_def enabled_with_extension with_extension_def distinct_dict_set
        enabled_with_extension [unfolded with_extension_def])
qed

lemma forget_sound:
  assumes "cmd_forget I i cfg = Inr cfg'" and "config_sound I cfg"
  shows "config_sound I cfg'"
proof -
  from assms(1) obtain e where "map_of cfg i = Some e" "\<not> xc_enabled e" "cfg' = without_extension cfg i"
    by (auto simp: cmd_forget_def ebind_Inr_iff split: option.splits)
  with assms(2) show ?thesis
    by (simp add: config_sound_def enabled_without) (auto simp: without_extension_def distinct_map_filter)
qed

lemma configure_sound:
  assumes "cmd_configure I i v cfg = Inr cfg'" and "config_sound I cfg"
  shows "config_sound I cfg'"
proof -
  from assms(1) obtain c where "cfg' = with_extension cfg i \<lparr>xc_enabled = xc_enabled (uc_extension cfg i), xc_configuration = c\<rparr>"
    by (cases v) (auto simp: cmd_configure_def ebind_Inr_iff)
  with assms(2) show ?thesis
    by (simp add: config_sound_def enabled_configured) (simp add: with_extension_def distinct_dict_set)
qed

lemma command_sound: "run_command I c cfg = Inr cfg' \<Longrightarrow> config_sound I cfg \<Longrightarrow> config_sound I cfg'"
  by (cases c) (auto intro: enable_sound disable_sound forget_sound configure_sound)

lemma no_config_sound: "config_sound I []"
  by (simp add: config_sound_def uc_enabled_def selection_sound_def dependencies_closed_def enabled_graph_def
      acyclic_def one_process_owner_def claims_exclusive_def)

lemma stored_config_sound: "config_sound I (stored_config cfg) \<longleftrightarrow> config_sound I cfg"
  by (simp add: config_sound_def stored_enabled_set stored_config_keys)

lemma stored_sound:
  "stored_reachable I stored \<Longrightarrow> \<exists>cfg. load_config stored = Inr cfg \<and> config_sound I cfg"
proof (induction rule: stored_reachable.induct)
  case fresh
  show ?case by (simp add: load_config_def no_config_sound)
next
  case (command stored c)
  then obtain cfg where cfg: "load_config stored = Inr cfg" "config_sound I cfg" by blast
  show ?case
  proof (cases "run_command I c cfg")
    case (Inl e)
    with cfg show ?thesis by (simp add: execute_def)
  next
    case (Inr cfg')
    with cfg have "config_sound I (stored_config cfg')" by (simp add: stored_config_sound command_sound)
    with cfg Inr show ?thesis by (simp add: execute_def load_stored_config del: jsort.simps)
  qed
qed

subsection \<open>An example\<close>

definition ex_installation :: "(string, string) installation" where
  "ex_installation = \<lparr>in_versions = any_pep440, in_files = ex_files, in_registrations = ex_registrations,
     in_entry_points = ex_registrations\<rparr>"

lemma ex_bundle_in:
  "bundle_in ex_installation ''a'' = Inr ex_a" "bundle_in ex_installation ''b'' = Inr ex_b"
  by (simp_all only: ex_installation_def installation.select_convs ex_bundle_at)

lemma ex_discover_in:
  "discover_in ex_installation [''a''] = Inr [ex_a]" "discover_in ex_installation [''b''] = Inr [ex_b]"
  "discover_in ex_installation [''a'', ''b''] = Inr [ex_a, ex_b]"
proof -
  have names: "set (map ep_name (in_registrations ex_installation)) = {''b'', ''a'', ''c''}"
    by (simp add: ex_installation_def ex_entry_def)
  show "discover_in ex_installation [''a''] = Inr [ex_a]" "discover_in ex_installation [''b''] = Inr [ex_b]"
    "discover_in ex_installation [''a'', ''b''] = Inr [ex_a, ex_b]"
    unfolding discover_in_iff names by (simp_all add: ex_bundle_in)
qed

lemma ex_bundle_checks:
  "validate_dependencies any_pep440 [ex_a] = Inr ()" "validate_dependencies any_pep440 [ex_a, ex_b] = Inr ()"
  "validate_dependencies any_pep440 [ex_b] = refuse (MissingDependency ''b'' ''a'')"
  "validate_process_ownership [ex_a] = Inr ()" "validate_process_ownership [ex_a, ex_b] = Inr ()"
  "validate_resource_ownership [ex_a] = Inr ()" "validate_resource_ownership [ex_a, ex_b] = Inr ()"
  "bundle_blocker (ib_manifest ex_a) = Inr None" "bundle_blocker (ib_manifest ex_b) = Inr None"
  "validate_removal ''a'' [ex_a, ex_b] = refuse (HasDependents ''a'' [''b''])"
  by code_simp+

definition ex_on :: ext_config where
  "ex_on = \<lparr>xc_enabled = True, xc_configuration = []\<rparr>"

lemma ex_enable_a: "run_command ex_installation (Enable ''a'') [] = Inr [(''a'', ex_on)]"
  by (simp add: cmd_enable_def uc_enabled_def ex_discover_in ex_bundle_checks ex_installation_def [THEN arg_cong, of in_versions]
      with_extension_def ex_on_def uc_extension_def default_extension_def)

lemma ex_enable_b: "run_command ex_installation (Enable ''b'') [(''a'', ex_on)] = Inr [(''a'', ex_on), (''b'', ex_on)]"
proof -
  have "sort (remdups (''b'' # uc_enabled [(''a'', ex_on)])) = [''a'', ''b'']"
    by (simp add: uc_enabled_def ex_on_def less_list_code)
  then show ?thesis
    by (simp add: cmd_enable_def ex_discover_in ex_bundle_checks ex_installation_def [THEN arg_cong, of in_versions]
        with_extension_def ex_on_def uc_extension_def default_extension_def del: remdups.simps)
qed

text \<open>\<open>b\<close> cannot be enabled before \<open>a\<close>, and \<open>a\<close> not disabled before \<open>b\<close>.\<close>

lemma ex_refused:
  "run_command ex_installation (Enable ''b'') [] = refuse (MissingDependency ''b'' ''a'')"
  "run_command ex_installation (Disable ''a'') [(''a'', ex_on), (''b'', ex_on)] = refuse (HasDependents ''a'' [''b''])"
  by (simp_all add: cmd_enable_def cmd_disable_def discover_enabled_def uc_enabled_def ex_on_def ex_discover_in ex_bundle_checks
      ex_installation_def [THEN arg_cong, of in_versions])

definition ex_stored :: "json option" where
  "ex_stored = execute ex_installation (Enable ''b'') (execute ex_installation (Enable ''a'') None)"

lemma stored_ex_config: "stored_config [(''a'', ex_on)] = [(''a'', ex_on)]"
  "stored_config [(''a'', ex_on), (''b'', ex_on)] = [(''a'', ex_on), (''b'', ex_on)]"
  by (simp_all add: stored_config_def stored_extension_def ex_on_def sorted_pairs_def less_list_code)

lemma ex_stored_loaded: "load_config ex_stored = Inr [(''a'', ex_on), (''b'', ex_on)]"
proof -
  have "execute ex_installation (Enable ''a'') None = Some (jsort (config_payload [(''a'', ex_on)]))"
    by (simp add: execute_def load_config_def ex_enable_a del: jsort.simps run_command.simps)
  then have stored: "ex_stored = Some (jsort (config_payload [(''a'', ex_on), (''b'', ex_on)]))"
    by (simp add: ex_stored_def execute_def load_stored_config stored_ex_config ex_enable_b del: jsort.simps run_command.simps)
  show ?thesis unfolding stored load_stored_config stored_ex_config ..
qed

lemma ex_stored_reachable: "stored_reachable ex_installation ex_stored"
  unfolding ex_stored_def by (intro stored_reachable.intros)

subsection \<open>The properties\<close>

text \<open>
  C10. Whatever sequence of \<open>enable\<close>, \<open>disable\<close>, \<open>forget\<close> and \<open>configure\<close> is run, with any identifiers and
  settings, from an empty configuration and with the configuration stored as JSON and loaded again
  between two commands: the stored configuration loads, and its enabled bundles are a sound selection
  (every dependency is enabled at a version in range, no dependency cycle, at most one owner of the
  process tree, no clash of resource claims).
\<close>

theorem enabled_selection_sound:
  assumes "stored_reachable I stored"
  shows "\<exists>cfg. load_config stored = Inr cfg \<and> selection_sound I (set (uc_enabled cfg))"
  using stored_sound [OF assms] by (auto simp: config_sound_def)

theorem enabled_selection_sound_witness:
  "stored_reachable ex_installation ex_stored \<and> load_config ex_stored = Inr [(''a'', ex_on), (''b'', ex_on)]
   \<and> selection_sound ex_installation {''a'', ''b''}"
proof -
  have "uc_enabled [(''a'', ex_on), (''b'', ex_on)] = [''a'', ''b'']" by (simp add: uc_enabled_def ex_on_def)
  then show ?thesis
    using enabled_selection_sound [OF ex_stored_reachable] ex_stored_reachable by (auto simp: ex_stored_loaded)
qed

text \<open>
  C19. \<open>_validate_extension_dependencies\<close> always returns, and accepts exactly the selections in which
  every dependency is met by a selected bundle and the graph of the dependencies is acyclic.
\<close>

theorem validate_dependencies_iff:
  assumes "distinct (map ib_bundle_id bundles)"
  shows "validate_dependencies P bundles = Inr () \<longleftrightarrow>
     (\<forall>b \<in> set bundles. \<forall>d \<in> set (bm_requires_extensions (ib_manifest b)). dependency_met P bundles d)
     \<and> acyclic (bundle_graph bundles)"
  by (rule validate_dependencies_accepts [OF assms])

theorem validate_dependencies_iff_witness:
  "distinct (map ib_bundle_id [ex_a, ex_b]) \<and> acyclic (bundle_graph [ex_a, ex_b]) \<and> dependency_met any_pep440 [ex_a, ex_b] ex_dependency"
proof -
  have ids: "distinct (map ib_bundle_id [ex_a, ex_b])" by (simp add: ex_a_def ex_b_def ex_installed_def)
  have deps: "ex_dependency \<in> set (bm_requires_extensions (ib_manifest ex_b))"
    by (simp add: ex_b_def ex_installed_def ex_manifest_def)
  show ?thesis using validate_dependencies_iff [OF ids, of any_pep440] ex_bundle_checks(2) ids deps
    by (auto simp del: distinct_map list.map)
qed

end
