(* ===== verification/Runtime_Evidence.thy ===== *)
theory Runtime_Evidence
  imports Extension_Plans Host_Evidence
begin

section \<open>Runtime evidence (\<^verbatim>\<open>runtime_evidence.py\<close>)\<close>

text \<open>
  The Manager binds every launch to its declared modules in a journal; the processes of the launch append
  what they completed; \<open>runtime_effective_evidence\<close> reads the journal back and decides whether an
  extension is effective now.  The world is the record \<open>evidence_world\<close>: \<open>os.environ\<close>, the bytes of the
  file at \<open>evidence_path()\<close> (\<open>None\<close> when it is absent), the name of the host and, for every process
  number, the text of its \<^verbatim>\<open>/proc\<close> entry.  Appending may fail or be cut short, as the argument
  \<open>append_outcome\<close> says.  Lines with fractions or exponents are no values of the model.  Texts of errors
  are left out.
\<close>

subsection \<open>State and constants\<close>

datatype evidence_exn = EvidenceValueError | EvidenceTypeError | EvidenceAttributeError | EvidenceOSError

record evidence_world =
  ew_environ :: "(string \<times> string) list"
  ew_journal :: "string option"
  ew_hostname :: string
  ew_proc_stat :: "int \<Rightarrow> string option"

datatype append_outcome = AppendWhole | AppendShort nat | AppendFails

type_synonym 'a evidence = "(evidence_exn, evidence_world, 'a) py"

definition plugin_evidence_schema :: string where
  "plugin_evidence_schema = ''vllm-hust-plugin-evidence/0.1''"

definition evidence_sink :: string where
  "evidence_sink = ''vllm_hust_ext.runtime_evidence:record_event''"

definition evidence_path_env :: string where
  "evidence_path_env = ''VLLM_HUST_EXT_EVIDENCE_PATH''"

definition module_binding_env :: string where
  "module_binding_env = ''VLLM_HUST_EXT_MODULE_BINDING''"

definition module_schema :: string where
  "module_schema = ''vllm-hust-module-evidence/0.1''"

definition launch_schema :: string where
  "launch_schema = ''vllm-hust-module-launch/0.1''"

definition module_roles :: "(string \<times> string) list" where
  "module_roles = [(''vllm.scheduler-class.v1'', ''scheduler''), (''vllm.worker-class.v1'', ''worker''),
     (''vllm.batch-admission-policy.v1'', ''admission'')]"

definition class_contracts :: "string list" where
  "class_contracts = [''vllm.scheduler-class.v1'', ''vllm.worker-class.v1'']"

definition evidence_environment :: "string list" where
  "evidence_environment = [''VLLM_ECPA_EVIDENCE_SINK'', ''VLLM_ECPA_EVIDENCE_STRICT'', ''VLLM_ECPA_PLAN_ID'',
     ''VLLM_ECPA_LAUNCH_ID'', evidence_path_env]"

definition owned_evidence_environment :: "string list" where
  "owned_evidence_environment = evidence_environment @ [module_binding_env]"

definition max_read_bytes :: nat where
  "max_read_bytes = 1024 * 1024"

subsection \<open>Processes\<close>

text \<open>\<open>str.split()\<close>, and the text after the last closing parenthesis: \<open>raw[raw.rfind(")") + 1:]\<close>.\<close>

fun split_words :: "string \<Rightarrow> string \<Rightarrow> string list" where
  "split_words word [] = (if word = [] then [] else [rev word])"
| "split_words word (c # s) =
     (if is_space c then (if word = [] then split_words [] s else rev word # split_words [] s)
      else split_words (c # word) s)"

definition after_comm :: "string \<Rightarrow> string" where
  "after_comm raw = rev (takeWhile (\<lambda>c. c \<noteq> CHR '')'') (rev raw))"

definition start_identity :: "(int \<Rightarrow> string option) \<Rightarrow> int \<Rightarrow> string option" where
  "start_identity proc_stat pid = (case proc_stat pid of
     None \<Rightarrow> None
   | Some raw \<Rightarrow>
       let fields_after_comm = split_words [] (after_comm raw) in
       if length fields_after_comm \<le> 19 \<or> hd fields_after_comm \<in> {''Z'', ''X''} then None
       else
         let start_ticks = fields_after_comm ! 19 in
         case py_int start_ticks of
           None \<Rightarrow> None
         | Some _ \<Rightarrow> Some (''pid:'' @ int_str pid @ '':start_ticks:'' @ start_ticks))"

definition process_is_current :: "evidence_world \<Rightarrow> json \<Rightarrow> bool" where
  "process_is_current w process = (case process of
     JObj d \<Rightarrow> (case got d ''pid'' of
        JInt pid \<Rightarrow> 0 < pid \<and> got d ''host'' = JStr (ew_hostname w) \<and>
          (case got d ''start_identity'' of
             JStr s \<Rightarrow> s \<noteq> [] \<and> Some s = start_identity (ew_proc_stat w) pid
           | _ \<Rightarrow> False)
      | _ \<Rightarrow> False)
   | _ \<Rightarrow> False)"

definition process_value :: "string \<Rightarrow> int \<Rightarrow> string \<Rightarrow> json" where
  "process_value host pid identity = JObj [(''host'', JStr host), (''pid'', JInt pid), (''start_identity'', JStr identity)]"

text \<open>\<open>_own_process()\<close> of the process \<open>pid\<close>.\<close>

definition own_process :: "int \<Rightarrow> json evidence" where
  "own_process pid = bind (gets (\<lambda>w. (ew_hostname w, start_identity (ew_proc_stat w) pid))) (\<lambda>(host, identity).
     case identity of
       None \<Rightarrow> raise EvidenceValueError
     | Some i \<Rightarrow> ret (process_value host pid i))"

subsection \<open>The journal\<close>

definition record_line :: "json \<Rightarrow> string" where
  "record_line event = utf8_encode (json_dumps True event) @ [CHR 10]"

definition append_record :: "append_outcome \<Rightarrow> json \<Rightarrow> unit evidence" where
  "append_record result event =
     (let encoded = record_line event;
          write = (\<lambda>n. modify (\<lambda>w. w\<lparr>ew_journal := Some ((case ew_journal w of None \<Rightarrow> [] | Some b \<Rightarrow> b) @ take n encoded)\<rparr>)) in
      case result of
        AppendWhole \<Rightarrow> write (length encoded)
      | AppendShort n \<Rightarrow> andthen (write n) (require (length encoded \<le> n) EvidenceOSError)
      | AppendFails \<Rightarrow> raise EvidenceOSError)"

text \<open>\<open>stream.readlines()\<close> of a binary file: lines end with a line feed.\<close>

fun lines_from :: "string \<Rightarrow> string \<Rightarrow> string list" where
  "lines_from line [] = (if line = [] then [] else [rev line])"
| "lines_from line (c # s) = (if c = CHR 10 then rev (c # line) # lines_from [] s else lines_from (c # line) s)"

text \<open>At most the last MiB of the journal, without the line it starts in.\<close>

definition tail_lines :: "string \<Rightarrow> string list" where
  "tail_lines bytes =
     (let size = length bytes; lines = lines_from [] (drop (size - max_read_bytes) bytes) in
      if max_read_bytes < size then tl lines else lines)"

definition journal_lines :: "evidence_world \<Rightarrow> string list" where
  "journal_lines w = (case ew_journal w of None \<Rightarrow> [] | Some bytes \<Rightarrow> tail_lines bytes)"

text \<open>\<open>_require_bound_event\<close>, and the loop of \<open>_events\<close>: a line that is no object has no method \<open>get\<close>.\<close>

definition bound_event :: "(string \<times> json) list \<Rightarrow> bool" where
  "bound_event event \<longleftrightarrow>
     got event ''schema'' = JStr plugin_evidence_schema \<and> got event ''binding_status'' = JStr ''bound''
   \<and> non_empty_str (got event ''plan_id'') \<and> non_empty_str (got event ''launch_id'')
   \<and> (case got event ''process'' of
        JObj process \<Rightarrow> non_empty_str (got process ''host'') \<and> (case got process ''pid'' of JInt _ \<Rightarrow> True | _ \<Rightarrow> False)
          \<and> non_empty_str (got process ''start_identity'')
      | _ \<Rightarrow> False)"

fun bound_events :: "string list \<Rightarrow> evidence_exn + (string \<times> json) list list" where
  "bound_events [] = Inr []"
| "bound_events (line # lines) = (case json_loads line of
     None \<Rightarrow> bound_events lines
   | Some (JObj event) \<Rightarrow>
       (if bound_event event then ebind (bound_events lines) (\<lambda>es. Inr (event # es)) else bound_events lines)
   | Some _ \<Rightarrow> Inl EvidenceAttributeError)"

definition record_event :: "append_outcome \<Rightarrow> json \<Rightarrow> unit evidence" where
  "record_event result event = (case event of
     JObj d \<Rightarrow> andthen (require (bound_event d) EvidenceValueError) (append_record result event)
   | _ \<Rightarrow> raise EvidenceTypeError)"

text \<open>\<open>item.get("schema") in {...}\<close> raises a \<open>TypeError\<close> when the value is a list or a dict.\<close>

definition schema_known :: "(string \<times> json) list \<Rightarrow> evidence_exn + bool" where
  "schema_known item = (case got item ''schema'' of
     JStr s \<Rightarrow> Inr (s = module_schema \<or> s = launch_schema)
   | JArr _ \<Rightarrow> Inl EvidenceTypeError
   | JObj _ \<Rightarrow> Inl EvidenceTypeError
   | _ \<Rightarrow> Inr False)"

fun records_of :: "string list \<Rightarrow> evidence_exn + (string \<times> json) list list" where
  "records_of [] = Inr []"
| "records_of (line # lines) = (case json_loads line of
     Some (JObj item) \<Rightarrow> ebind (schema_known item) (\<lambda>known.
       ebind (records_of lines) (\<lambda>items. Inr (if known then item # items else items)))
   | _ \<Rightarrow> records_of lines)"

definition module_records :: "evidence_world \<Rightarrow> evidence_exn + (string \<times> json) list list" where
  "module_records w = records_of (journal_lines w)"

subsection \<open>Components and bindings\<close>

record module_component =
  mk_extension_id :: string
  mk_extension_version :: string
  mk_manifest_sha256 :: string
  mk_component_id :: string
  mk_contract :: string
  mk_implementation_ref :: string
  mk_role :: string

definition component_dict :: "module_component \<Rightarrow> json" where
  "component_dict c = JObj [(''extension_id'', JStr (mk_extension_id c)), (''extension_version'', JStr (mk_extension_version c)),
     (''manifest_sha256'', JStr (mk_manifest_sha256 c)), (''component_id'', JStr (mk_component_id c)),
     (''contract'', JStr (mk_contract c)), (''implementation_ref'', JStr (mk_implementation_ref c)), (''role'', JStr (mk_role c))]"

text \<open>The references of the active modules; a \<open>python_module\<close> carrier has strings as attributes (\<open>carrier_wf\<close>).\<close>

definition active_references :: "bundle_manifest \<Rightarrow> string list" where
  "active_references m = concat (map (\<lambda>carrier.
     (case (got (ic_attributes carrier) ''module'', got (ic_attributes carrier) ''object'') of
        (JStr module, JStr obj) \<Rightarrow>
          if ic_type carrier = ''python_module'' \<and> got (ic_attributes carrier) ''status'' = JStr ''active''
          then [module @ '':'' @ obj] else []
      | _ \<Rightarrow> [])) (bm_implementation m))"

definition selected_contracts :: "bundle_component \<Rightarrow> string list" where
  "selected_contracts c = filter (\<lambda>k. k \<in> set (bc_contracts c)) (map fst module_roles)"

definition module_component_of ::
  "installed_bundle \<Rightarrow> string \<Rightarrow> bundle_component \<Rightarrow> evidence_exn + module_component list" where
  "module_component_of bundle manifest_sha c = (case selected_contracts c of
     [] \<Rightarrow> Inr []
   | [contract] \<Rightarrow>
       if bc_implementation_ref c \<in> set (active_references (ib_manifest bundle)) then
         Inr [\<lparr>mk_extension_id = ib_bundle_id bundle, mk_extension_version = bm_bundle_version (ib_manifest bundle),
               mk_manifest_sha256 = manifest_sha, mk_component_id = bc_component_id c, mk_contract = contract,
               mk_implementation_ref = bc_implementation_ref c, mk_role = the (map_of module_roles contract)\<rparr>]
       else Inl EvidenceValueError
   | _ \<Rightarrow> Inl EvidenceValueError)"

definition module_components ::
  "(string \<Rightarrow> string) \<Rightarrow> file_view \<Rightarrow> installed_bundle \<Rightarrow> evidence_exn + module_component list" where
  "module_components sha files bundle =
     (let components = bm_components (ib_manifest bundle) in
      if \<not> list_ex (\<lambda>c. list_ex (\<lambda>k. k \<in> set class_contracts) (bc_contracts c)) components then Inr []
      else (case snd (files (ib_manifest_path bundle)) of
          None \<Rightarrow> Inl EvidenceOSError
        | Some raw \<Rightarrow> ebind (emap (module_component_of bundle (sha raw)) components) (\<lambda>cs. Inr (concat cs))))"

definition evidence_digest :: "(string \<Rightarrow> string) \<Rightarrow> json \<Rightarrow> string" where
  "evidence_digest sha v = sha (utf8_encode (json_dumps True v))"

definition binding_fields :: "string list" where
  "binding_fields = [''schema'', ''plan_id'', ''launch_id'', ''manager_process'', ''components'', ''binding_digest'']"

definition module_component_fields :: "string list" where
  "module_component_fields = [''extension_id'', ''extension_version'', ''manifest_sha256'', ''component_id'', ''contract'',
     ''implementation_ref'', ''role'']"

definition component_valid :: "json \<Rightarrow> bool" where
  "component_valid v = (case v of
     JObj item \<Rightarrow> keys_are item module_component_fields \<and> list_all (\<lambda>kv. non_empty_str (snd kv)) item
       \<and> (case got item ''contract'' of
            JStr k \<Rightarrow> (case map_of module_roles k of None \<Rightarrow> False | Some role \<Rightarrow> got item ''role'' = JStr role)
          | _ \<Rightarrow> False)
   | _ \<Rightarrow> False)"

definition without :: "string \<Rightarrow> (string \<times> json) list \<Rightarrow> (string \<times> json) list" where
  "without k d = filter (\<lambda>kv. fst kv \<noteq> k) d"

definition json_items :: "json \<Rightarrow> json list" where
  "json_items v = (case v of JArr vs \<Rightarrow> vs | _ \<Rightarrow> [])"

definition valid_binding :: "(string \<Rightarrow> string) \<Rightarrow> evidence_world \<Rightarrow> (string \<times> json) list \<Rightarrow> bool" where
  "valid_binding sha w binding \<longleftrightarrow>
     keys_are binding binding_fields \<and> got binding ''schema'' = JStr launch_schema
   \<and> list_all (\<lambda>k. non_empty_str (got binding k)) [''plan_id'', ''launch_id'', ''binding_digest'']
   \<and> json_items (got binding ''components'') \<noteq> [] \<and> list_all component_valid (json_items (got binding ''components''))
   \<and> got binding ''binding_digest'' = JStr (evidence_digest sha (JObj (without ''binding_digest'' binding)))
   \<and> process_is_current w (got binding ''manager_process'')"

subsection \<open>Launching and emitting\<close>

text \<open>
  \<open>launch_environment(bundles)\<close> in the process \<open>pid\<close>: \<open>launch\<close> is the fresh \<open>uuid4\<close>, \<open>path\<close> the text of
  \<open>evidence_path()\<close>, and \<open>semantic\<close> the native plan of a validated semantic launch, when one is given.
\<close>

definition plan_material :: "installed_bundle list \<Rightarrow> string" where
  "plan_material bundles = utf8_encode (json_dumps True (JArr (map (\<lambda>b.
     JArr [JStr (ib_bundle_id b), JStr (bm_bundle_version (ib_manifest b)), JStr (ib_manifest_path b)])
     (sort_key ib_bundle_id bundles))))"

definition launch_binding ::
  "(string \<Rightarrow> string) \<Rightarrow> string \<Rightarrow> string \<Rightarrow> json \<Rightarrow> module_component list \<Rightarrow> (string \<times> json) list" where
  "launch_binding sha plan launch manager components =
     (let binding = [(''schema'', JStr launch_schema), (''plan_id'', JStr plan), (''launch_id'', JStr launch),
            (''manager_process'', manager),
            (''components'', JArr (map component_dict (sort_key (\<lambda>c. (mk_extension_id c, mk_component_id c)) components)))] in
      binding @ [(''binding_digest'', JStr (evidence_digest sha (JObj binding)))])"

definition launch_environment ::
  "(string \<Rightarrow> string) \<Rightarrow> file_view \<Rightarrow> int \<Rightarrow> string \<Rightarrow> string \<Rightarrow> append_outcome \<Rightarrow> (evidence_exn + string) option \<Rightarrow>
   installed_bundle list \<Rightarrow> (string \<times> string) list evidence" where
  "launch_environment sha files pid launch path result semantic bundles =
     bind (gets (\<lambda>w. filter (\<lambda>name. name \<in> set (map fst (ew_environ w))) owned_evidence_environment)) (\<lambda>conflicts.
     andthen (require (conflicts = []) EvidenceValueError)
     (bind (lift_result (case semantic of None \<Rightarrow> Inr (sha (plan_material bundles)) | Some r \<Rightarrow> r)) (\<lambda>native_plan_id.
      let environment = [(''VLLM_ECPA_EVIDENCE_SINK'', evidence_sink), (''VLLM_ECPA_EVIDENCE_STRICT'', ''1''),
            (''VLLM_ECPA_PLAN_ID'', native_plan_id), (''VLLM_ECPA_LAUNCH_ID'', launch), (evidence_path_env, path)] in
      bind (lift_result (emap (module_components sha files) bundles)) (\<lambda>groups.
      let components = concat groups in
      if components = [] then ret environment
      else bind (own_process pid) (\<lambda>manager.
        let binding = launch_binding sha native_plan_id launch manager components in
        andthen (append_record result (JObj binding))
        (ret (environment @ [(module_binding_env, evidence_digest sha (JObj (without ''binding_digest'' binding)))])))))))"

text \<open>\<open>_bound_launch()\<close>: the last binding of the journal with the digest of the environment.\<close>

definition bound_launch :: "(string \<Rightarrow> string) \<Rightarrow> (string \<times> json) list evidence" where
  "bound_launch sha = bind (gets (\<lambda>w. (map_of (ew_environ w), w))) (\<lambda>(environ, w).
     andthen (require (list_all (\<lambda>name. environ name \<noteq> None \<and> environ name \<noteq> Some []) owned_evidence_environment) EvidenceValueError)
     (andthen (require (environ ''VLLM_ECPA_EVIDENCE_SINK'' = Some evidence_sink \<and> environ ''VLLM_ECPA_EVIDENCE_STRICT'' = Some ''1'')
        EvidenceValueError)
     (bind (lift_result (module_records w)) (\<lambda>records.
      case find (\<lambda>binding. Some (got binding ''binding_digest'') = map_option JStr (environ module_binding_env)
                   \<and> got binding ''schema'' = JStr launch_schema) (rev records) of
        None \<Rightarrow> raise EvidenceValueError
      | Some binding \<Rightarrow>
          andthen (require (valid_binding sha w binding
              \<and> Some (got binding ''plan_id'') = map_option JStr (environ ''VLLM_ECPA_PLAN_ID'')
              \<and> Some (got binding ''launch_id'') = map_option JStr (environ ''VLLM_ECPA_LAUNCH_ID'')) EvidenceValueError)
          (ret binding)))))"

definition module_event :: "(string \<times> json) list \<Rightarrow> json \<Rightarrow> json \<Rightarrow> int \<Rightarrow> int \<Rightarrow> int \<Rightarrow> json" where
  "module_event binding component process now requests tokens =
     JObj [(''schema'', JStr module_schema), (''event'', JStr ''effective''), (''observation_kind'', JStr ''runtime_effective''),
       (''plan_id'', got binding ''plan_id''), (''launch_id'', got binding ''launch_id''),
       (''binding_digest'', got binding ''binding_digest''), (''component'', component), (''process'', process),
       (''observed_at_ns'', JInt now), (''request_count'', JInt requests), (''output_token_count'', JInt tokens)]"

definition component_matches :: "string \<Rightarrow> string \<Rightarrow> json \<Rightarrow> bool" where
  "component_matches reference role v = (case v of
     JObj item \<Rightarrow> got item ''implementation_ref'' = JStr reference \<and> got item ''role'' = JStr role
   | _ \<Rightarrow> False)"

text \<open>
  \<open>emit_module_effective\<close> in the process \<open>pid\<close> for the class \<open>reference\<close>; \<open>loaded\<close> says whether the name of
  the class still leads to it in \<open>sys.modules\<close>.
\<close>

definition emit_module_effective ::
  "(string \<Rightarrow> string) \<Rightarrow> int \<Rightarrow> int \<Rightarrow> append_outcome \<Rightarrow> string \<Rightarrow> bool \<Rightarrow> string \<Rightarrow> int \<Rightarrow> int \<Rightarrow> unit evidence" where
  "emit_module_effective sha pid now result reference loaded role request_count output_token_count =
     andthen (require (role \<in> set (map snd module_roles)) EvidenceValueError)
     (andthen (require (0 < request_count \<and> 0 < output_token_count) EvidenceValueError)
     (bind (bound_launch sha) (\<lambda>binding.
      andthen (require loaded EvidenceValueError)
      (let candidates = filter (component_matches reference role) (json_items (got binding ''components'')) in
       andthen (require (length candidates = 1) EvidenceValueError)
       (bind (own_process pid) (\<lambda>process.
        append_record result (module_event binding (hd candidates) process now request_count output_token_count)))))))"

subsection \<open>Reading the evidence back\<close>

text \<open>What is returned; the code formats it as a text.\<close>

datatype runtime_evidence =
    HostObserver string int json
  | ModuleEvidence string nat "int list"

text \<open>\<open>a == b\<close> for two dicts of strings: the order of the keys does not count.\<close>

definition same_dict :: "json \<Rightarrow> json \<Rightarrow> bool" where
  "same_dict a b \<longleftrightarrow> jsort a = jsort b"

definition component_key :: "json \<Rightarrow> string" where
  "component_key v = (case v of JObj item \<Rightarrow> (case got item ''component_id'' of JStr s \<Rightarrow> s | _ \<Rightarrow> []) | _ \<Rightarrow> [])"

definition of_extension :: "string \<Rightarrow> json \<Rightarrow> bool" where
  "of_extension i v = (case v of JObj item \<Rightarrow> got item ''extension_id'' = JStr i | _ \<Rightarrow> False)"

definition latest_binding :: "string \<Rightarrow> (string \<times> json) list list \<Rightarrow> (string \<times> json) list option" where
  "latest_binding i records = find (\<lambda>item. got item ''schema'' = JStr launch_schema
     \<and> list_ex (of_extension i) (json_items (got item ''components''))) (rev records)"

definition module_event_fields :: "string list" where
  "module_event_fields = [''schema'', ''event'', ''observation_kind'', ''plan_id'', ''launch_id'', ''binding_digest'', ''component'',
     ''process'', ''observed_at_ns'', ''request_count'', ''output_token_count'']"

definition positive_int :: "json \<Rightarrow> bool" where
  "positive_int v = (case v of JInt i \<Rightarrow> 0 < i | _ \<Rightarrow> False)"

text \<open>An event of the binding about the extension, and when it counts.\<close>

definition about :: "string \<Rightarrow> (string \<times> json) list \<Rightarrow> (string \<times> json) list \<Rightarrow> bool" where
  "about i binding event \<longleftrightarrow> got event ''schema'' = JStr module_schema
     \<and> got event ''binding_digest'' = got binding ''binding_digest'' \<and> of_extension i (got event ''component'')"

definition live_event :: "evidence_world \<Rightarrow> (string \<times> json) list \<Rightarrow> json list \<Rightarrow> (string \<times> json) list \<Rightarrow> bool" where
  "live_event w binding selected event \<longleftrightarrow>
     keys_are event module_event_fields \<and> got event ''event'' = JStr ''effective''
   \<and> got event ''observation_kind'' = JStr ''runtime_effective''
   \<and> got event ''plan_id'' = got binding ''plan_id'' \<and> got event ''launch_id'' = got binding ''launch_id''
   \<and> list_ex (same_dict (got event ''component'')) selected
   \<and> list_all (\<lambda>k. positive_int (got event k)) [''observed_at_ns'', ''request_count'', ''output_token_count'']
   \<and> process_is_current w (got event ''process'')"

definition event_pid :: "(string \<times> json) list \<Rightarrow> int" where
  "event_pid event = (case got event ''process'' of JObj d \<Rightarrow> (case got d ''pid'' of JInt pid \<Rightarrow> pid | _ \<Rightarrow> 0) | _ \<Rightarrow> 0)"

definition json_str :: "json \<Rightarrow> string" where
  "json_str v = (case v of JStr s \<Rightarrow> s | _ \<Rightarrow> [])"

text \<open>
  \<open>_module_effective_evidence(bundle)\<close>: the loop returns \<open>None\<close> at the first event of the binding about the
  extension that does not count.
\<close>

definition module_effective_evidence ::
  "(string \<Rightarrow> string) \<Rightarrow> file_view \<Rightarrow> evidence_world \<Rightarrow> installed_bundle \<Rightarrow> evidence_exn + runtime_evidence option" where
  "module_effective_evidence sha files w bundle =
     ebind (module_components sha files bundle) (\<lambda>expected.
     ebind (module_records w) (\<lambda>records.
     case latest_binding (ib_bundle_id bundle) records of
       None \<Rightarrow> Inr None
     | Some binding \<Rightarrow>
         if \<not> valid_binding sha w binding then Inr None
         else
           let selected = filter (of_extension (ib_bundle_id bundle)) (json_items (got binding ''components'')) in
           if \<not> list_all2 same_dict (sort_key component_key selected) (map component_dict (sort_key mk_component_id expected))
           then Inr None
           else
             let events = filter (about (ib_bundle_id bundle) binding) records in
             if \<not> list_all (live_event w binding selected) events then Inr None
             else if set (map (\<lambda>e. component_key (got e ''component'')) events) \<noteq> set (map mk_component_id expected) then Inr None
             else Inr (Some (ModuleEvidence (json_str (got binding ''launch_id''))
                    (card (set (map (\<lambda>e. component_key (got e ''component'')) events)))
                    (sorted_list_of_set (set (map event_pid events)))))))"

definition bundle_entry_points :: "bundle_manifest \<Rightarrow> (json \<times> json) list" where
  "bundle_entry_points m =
     map (\<lambda>c. (got (ic_attributes c) ''group'', got (ic_attributes c) ''name''))
       (filter (\<lambda>c. ic_type c = ''python_entry_point'') (bm_implementation m))
     @ map (\<lambda>e. (JStr (ae_group e), JStr (ae_name e))) (ba_entry_points (bm_activation m))"

text \<open>The test of the loop over \<open>reversed(_events())\<close>; a group or name without a hash makes the lookup raise.\<close>

definition json_hashable :: "json \<Rightarrow> bool" where
  "json_hashable v = (case v of JArr _ \<Rightarrow> False | JObj _ \<Rightarrow> False | _ \<Rightarrow> True)"

definition observes :: "evidence_world \<Rightarrow> (json \<times> json) list \<Rightarrow> (string \<times> json) list \<Rightarrow> evidence_exn + bool" where
  "observes w entry_points event =
     (if got event ''event'' \<noteq> JStr ''effective'' \<or> got event ''observation_kind'' \<noteq> JStr ''runtime_effective'' then Inr False
      else (case got event ''entry_point'' of
          JObj e \<Rightarrow>
            if \<not> (json_hashable (got e ''group'') \<and> json_hashable (got e ''name'')) then Inl EvidenceTypeError
            else Inr (list_ex (\<lambda>(group, name). py_eq (got e ''group'') group \<and> py_eq (got e ''name'') name) entry_points
              \<and> process_is_current w (got event ''process''))
        | _ \<Rightarrow> Inr False))"

fun first_observed :: "evidence_world \<Rightarrow> (json \<times> json) list \<Rightarrow> (string \<times> json) list list \<Rightarrow> evidence_exn + runtime_evidence option" where
  "first_observed w entry_points [] = Inr None"
| "first_observed w entry_points (event # events) =
     ebind (observes w entry_points event) (\<lambda>b.
     if b then Inr (Some (HostObserver (json_str (got event ''launch_id'')) (event_pid event) (got event ''event_id'')))
     else first_observed w entry_points events)"

definition runtime_effective_evidence ::
  "(string \<Rightarrow> string) \<Rightarrow> file_view \<Rightarrow> evidence_world \<Rightarrow> installed_bundle \<Rightarrow> evidence_exn + runtime_evidence option" where
  "runtime_effective_evidence sha files w bundle =
     ebind (module_components sha files bundle) (\<lambda>components.
     if components \<noteq> [] then module_effective_evidence sha files w bundle
     else ebind (check (list_all (\<lambda>(group, name). json_hashable group \<and> json_hashable name)
         (bundle_entry_points (ib_manifest bundle))) EvidenceTypeError) (\<lambda>_.
       ebind (bound_events (journal_lines w)) (\<lambda>events.
       first_observed w (bundle_entry_points (ib_manifest bundle)) (rev events))))"

text \<open>
  \<open>status_for\<close> with its call of \<open>runtime_effective_evidence\<close>, which is made for an enabled extension whose
  check succeeded; \<open>shown\<close> formats the evidence.
\<close>

datatype status_exn = StatusFails ext_exn | EvidenceFails evidence_exn

definition status_of ::
  "(string \<Rightarrow> string) \<Rightarrow> file_view \<Rightarrow> evidence_world \<Rightarrow> (runtime_evidence \<Rightarrow> string) \<Rightarrow> (string \<Rightarrow> ext_exn + host_provider) \<Rightarrow>
   installed_bundle \<Rightarrow> ext_config \<Rightarrow> status_exn + extension_status" where
  "status_of sha files w shown provider_of bundle extension =
     (let status = (\<lambda>effective. case status_for provider_of effective bundle extension of
            Inl e \<Rightarrow> Inl (StatusFails e) | Inr st \<Rightarrow> Inr st) in
      case (checked provider_of bundle extension, bundle_blocker (ib_manifest bundle)) of
        (Inr _, Inr _) \<Rightarrow>
          if xc_enabled extension then
            (case runtime_effective_evidence sha files w bundle of
               Inl e \<Rightarrow> Inl (EvidenceFails e)
             | Inr evidence \<Rightarrow> status (map_option shown evidence))
          else status None
      | _ \<Rightarrow> status None)"

subsection \<open>What evidence means\<close>

lemma sort_key_mset: "mset (map f (sort_key g xs)) = mset (map f xs)"
  by simp

text \<open>The components a binding has for an extension are the declared ones.\<close>

definition binds_components :: "string \<Rightarrow> (string \<times> json) list \<Rightarrow> module_component list \<Rightarrow> bool" where
  "binds_components i binding cs \<longleftrightarrow>
     mset (map jsort (filter (of_extension i) (json_items (got binding ''components'')))) = mset (map (\<lambda>c. jsort (component_dict c)) cs)"

lemma same_components:
  assumes "list_all2 same_dict (sort_key component_key selected) (map component_dict (sort_key mk_component_id cs))"
  shows "mset (map jsort selected) = mset (map (\<lambda>c. jsort (component_dict c)) cs)"
proof -
  have "map jsort (sort_key component_key selected) = map jsort (map component_dict (sort_key mk_component_id cs))"
    using assms by (simp add: same_dict_def list_all2_conv_all_nth list_eq_iff_nth_eq del: jsort.simps)
  then have "mset (map jsort (sort_key component_key selected)) = mset (map (\<lambda>c. jsort (component_dict c)) (sort_key mk_component_id cs))"
    by (simp add: comp_def del: jsort.simps mset_map)
  then show ?thesis unfolding sort_key_mset .
qed

text \<open>
  The evidence is the last binding of the extension: it is valid, binds what the manifest declares now,
  every event about the extension counts, and every declared component has one.
\<close>

definition evidence_holds ::
  "(string \<Rightarrow> string) \<Rightarrow> evidence_world \<Rightarrow> string \<Rightarrow> module_component list \<Rightarrow> (string \<times> json) list list \<Rightarrow> (string \<times> json) list \<Rightarrow> bool" where
  "evidence_holds sha w i cs records binding \<longleftrightarrow>
     latest_binding i records = Some binding \<and> valid_binding sha w binding \<and> binds_components i binding cs
   \<and> list_all (\<lambda>e. about i binding e \<longrightarrow>
        live_event w binding (filter (of_extension i) (json_items (got binding ''components''))) e) records
   \<and> list_all (\<lambda>c. list_ex (\<lambda>e. about i binding e \<and> component_key (got e ''component'') = mk_component_id c) records) cs"

lemma module_evidence_Some:
  assumes "module_effective_evidence sha files w bundle = Inr (Some ev)" and "module_components sha files bundle = Inr cs"
  obtains records binding where "module_records w = Inr records" "evidence_holds sha w (ib_bundle_id bundle) cs records binding"
proof -
  let ?i = "ib_bundle_id bundle"
  from assms obtain records where records: "module_records w = Inr records"
    unfolding module_effective_evidence_def ebind_Inr_iff by (elim exE conjE)
  from assms records obtain binding where binding: "latest_binding ?i records = Some binding"
    by (simp add: module_effective_evidence_def split: option.splits)
  let ?selected = "filter (of_extension ?i) (json_items (got binding ''components''))"
  let ?events = "filter (about ?i binding) records"
  have valid: "valid_binding sha w binding"
    and same: "list_all2 same_dict (sort_key component_key ?selected) (map component_dict (sort_key mk_component_id cs))"
    and live: "list_all (live_event w binding ?selected) ?events"
    and seen: "set (map (\<lambda>e. component_key (got e ''component'')) ?events) = set (map mk_component_id cs)"
    using assms records binding unfolding module_effective_evidence_def
    by (simp_all only: ebind_simps option.case Let_def split: if_splits) simp_all
  have "\<exists>e \<in> set records. about ?i binding e \<and> component_key (got e ''component'') = mk_component_id c" if "c \<in> set cs" for c
  proof -
    have "mk_component_id c \<in> set (map (\<lambda>e. component_key (got e ''component'')) ?events)"
      using that unfolding seen by simp
    then show ?thesis by auto
  qed
  with live have "evidence_holds sha w ?i cs records binding"
    unfolding evidence_holds_def binds_components_def
    using binding valid same_components [OF same] by (auto simp: list_all_iff list_ex_iff)
  with records show ?thesis by (rule that)
qed

lemma status_of_effective:
  assumes "status_of sha files w shown provider_of bundle extension = Inr st" and "RUNTIME_EFFECTIVE \<in> set (xs_states st)"
  shows "xc_enabled extension \<and> (\<exists>ev. runtime_effective_evidence sha files w bundle = Inr (Some ev))"
proof -
  have none: "status_for provider_of None bundle extension \<noteq> Inr st"
    using status_runtime_effective [OF _ assms(2)] by blast
  then obtain evidence where enabled: "xc_enabled extension" and evidence: "runtime_effective_evidence sha files w bundle = Inr evidence"
      and status: "status_for provider_of (map_option shown evidence) bundle extension = Inr st"
    using assms(1) by (auto simp: status_of_def Let_def split: sum.splits if_splits)
  with none show ?thesis by (cases evidence) auto
qed

subsection \<open>Appended records are read back\<close>

definition journal_bytes :: "evidence_world \<Rightarrow> string" where
  "journal_bytes w = (case ew_journal w of None \<Rightarrow> [] | Some b \<Rightarrow> b)"

text \<open>A journal without a partial last line, and its records.\<close>

definition journal_holds :: "evidence_world \<Rightarrow> (string \<times> json) list list \<Rightarrow> bool" where
  "journal_holds w records \<longleftrightarrow> (journal_bytes w = [] \<or> last (journal_bytes w) = CHR 10)
     \<and> records_of (lines_from [] (journal_bytes w)) = Inr records"

lemma lines_from_complete: "lines_from line (b @ CHR 10 # s) = lines_from line (b @ [CHR 10]) @ lines_from [] s"
  by (induction b arbitrary: line) simp_all

lemma lines_from_line: "printable s \<Longrightarrow> lines_from line (s @ [CHR 10]) = [rev line @ s @ [CHR 10]]"
proof (induction s arbitrary: line)
  case (Cons c s)
  then have "c \<noteq> CHR 10" by (auto simp: code_def)
  with Cons show ?case by simp
qed simp

lemma lines_from_record: "lines_from [] (record_line v) = [record_line v]"
  unfolding record_line_def json_dumps_def by (simp add: lines_from_line printable_utf8 printable_jprint)

lemma lines_from_append:
  assumes "b = [] \<or> last b = CHR 10"
  shows "lines_from [] (b @ s) = lines_from [] b @ lines_from [] s"
proof (cases b rule: rev_cases)
  case (snoc r c)
  with assms have "b = r @ [CHR 10]" by simp
  then show ?thesis using lines_from_complete [of "[]" r s] by simp
qed simp

lemma records_of_append:
  "records_of (xs @ ys) = ebind (records_of xs) (\<lambda>a. ebind (records_of ys) (\<lambda>b. Inr (a @ b)))"
proof (induction xs)
  case Nil
  then show ?case by (cases "records_of ys") simp_all
next
  case (Cons x xs)
  show ?case
  proof (cases "\<exists>item. json_loads x = Some (JObj item)")
    case True
    then obtain item where item: "json_loads x = Some (JObj item)" by blast
    then show ?thesis using Cons by (cases "schema_known item"; cases "records_of xs"; cases "records_of ys") simp_all
  next
    case False
    then show ?thesis using Cons by (auto split: option.splits json.splits)
  qed
qed

lemma got_sorted: "distinct (map fst d) \<Longrightarrow> got (sorted_pairs d) k = jsort (got d k)"
  by (simp add: got_def map_of_sorted_pairs split: option.splits)

lemma records_of_record:
  assumes "json_wf (JObj d)" and "got d ''schema'' = JStr s" and "s = module_schema \<or> s = launch_schema"
  shows "records_of [record_line (JObj d)] = Inr [sorted_pairs d]"
proof -
  have d: "distinct (map fst d)" using assms(1) by simp
  have "json_loads (record_line (JObj d)) = Some (JObj (sorted_pairs d))"
    unfolding record_line_def json_loads_dumps_line [OF assms(1)] jsort_JObj ..
  moreover have "schema_known (sorted_pairs d) = Inr True"
    using assms(2,3) by (simp add: schema_known_def got_sorted [OF d])
  ultimately show ?thesis by simp
qed

definition after_record :: "evidence_world \<Rightarrow> json \<Rightarrow> evidence_world" where
  "after_record w v = w\<lparr>ew_journal := Some (journal_bytes w @ record_line v)\<rparr>"

lemma append_record_whole: "append_record AppendWhole v w = (Inr (), after_record w v)"
  by (simp add: append_record_def Let_def modify_def after_record_def journal_bytes_def)

lemma after_record_sel [simp]:
  "ew_environ (after_record w v) = ew_environ w" "ew_hostname (after_record w v) = ew_hostname w"
  "ew_proc_stat (after_record w v) = ew_proc_stat w" "journal_bytes (after_record w v) = journal_bytes w @ record_line v"
  by (simp_all add: after_record_def journal_bytes_def)

lemma journal_bytes_environ: "journal_bytes (w\<lparr>ew_environ := e\<rparr>) = journal_bytes w"
  by (simp add: journal_bytes_def)

lemma journal_holds_append:
  assumes "journal_holds w records" and "records_of [record_line (JObj d)] = Inr [r]"
  shows "journal_holds (after_record w (JObj d)) (records @ [r])"
proof -
  have "last (record_line (JObj d)) = CHR 10" by (simp add: record_line_def)
  moreover have "record_line (JObj d) \<noteq> []" by (simp add: record_line_def)
  ultimately show ?thesis
    using assms unfolding journal_holds_def after_record_sel
    by (simp only: lines_from_append lines_from_record records_of_append ebind_simps last_appendR) simp
qed

lemma module_records_holds:
  assumes "journal_holds w records" and "length (journal_bytes w) \<le> max_read_bytes"
  shows "module_records w = Inr records"
proof -
  have "journal_lines w = lines_from [] (journal_bytes w)"
    using assms(2) by (auto simp: journal_lines_def journal_bytes_def tail_lines_def Let_def split: option.splits)
  then show ?thesis using assms(1) by (simp add: module_records_def journal_holds_def)
qed

subsection \<open>The binding of a launch\<close>

lemma jsort_component:
  "jsort (component_dict c) = JObj [(''component_id'', JStr (mk_component_id c)), (''contract'', JStr (mk_contract c)),
     (''extension_id'', JStr (mk_extension_id c)), (''extension_version'', JStr (mk_extension_version c)),
     (''implementation_ref'', JStr (mk_implementation_ref c)), (''manifest_sha256'', JStr (mk_manifest_sha256 c)),
     (''role'', JStr (mk_role c))]"
  by (simp add: component_dict_def less_list_code less_eq_list_code)

lemma jsort_process: "jsort (process_value h p i) = process_value h p i"
  by (simp add: process_value_def less_list_code less_eq_list_code)

text \<open>A component with texts in all its fields, and the role of its contract.\<close>

definition component_named :: "module_component \<Rightarrow> bool" where
  "component_named c \<longleftrightarrow> mk_extension_id c \<noteq> [] \<and> mk_extension_version c \<noteq> [] \<and> mk_manifest_sha256 c \<noteq> []
     \<and> mk_component_id c \<noteq> [] \<and> mk_implementation_ref c \<noteq> [] \<and> map_of module_roles (mk_contract c) = Some (mk_role c)"

lemma component_valid_sorted: "component_valid (jsort (component_dict c)) \<longleftrightarrow> component_named c"
proof -
  obtain d where d: "component_dict c = JObj d" by (simp add: component_dict_def)
  have "map fst d = module_component_fields" using d by (auto simp: component_dict_def module_component_fields_def)
  then have keys: "keys_are (sorted_pairs d) module_component_fields"
    by (metis keys_are_def keys_sorted_pairs list.set_map)
  have sorted: "sorted_pairs d = [(''component_id'', JStr (mk_component_id c)), (''contract'', JStr (mk_contract c)),
     (''extension_id'', JStr (mk_extension_id c)), (''extension_version'', JStr (mk_extension_version c)),
     (''implementation_ref'', JStr (mk_implementation_ref c)), (''manifest_sha256'', JStr (mk_manifest_sha256 c)),
     (''role'', JStr (mk_role c))]"
    using jsort_component [of c] unfolding d jsort_JObj json.inject .
  have got: "got (sorted_pairs d) ''contract'' = JStr (mk_contract c)" "got (sorted_pairs d) ''role'' = JStr (mk_role c)"
    unfolding sorted by (simp_all add: got_def)
  have contract: "mk_contract c \<noteq> []" if "map_of module_roles (mk_contract c) = Some r" for r
    using that by (auto simp: module_roles_def)
  have role: "mk_role c \<noteq> []" if "map_of module_roles (mk_contract c) = Some (mk_role c)"
    using that map_of_SomeD [OF that] by (auto simp: module_roles_def)
  have all: "list_all (\<lambda>kv. non_empty_str (snd kv)) (sorted_pairs d) \<longleftrightarrow>
      mk_component_id c \<noteq> [] \<and> mk_contract c \<noteq> [] \<and> mk_extension_id c \<noteq> [] \<and> mk_extension_version c \<noteq> []
    \<and> mk_implementation_ref c \<noteq> [] \<and> mk_manifest_sha256 c \<noteq> [] \<and> mk_role c \<noteq> []"
    unfolding sorted by (simp add: non_empty_str_def)
  show ?thesis
    unfolding d jsort_JObj component_valid_def json.case got all component_named_def using keys contract role
    by (cases "map_of module_roles (mk_contract c)") auto
qed

lemma component_sorted_sel:
  "component_key (jsort (component_dict c)) = mk_component_id c"
  "of_extension i (jsort (component_dict c)) \<longleftrightarrow> mk_extension_id c = i"
  "component_matches r role (jsort (component_dict c)) \<longleftrightarrow> mk_implementation_ref c = r \<and> mk_role c = role"
  unfolding jsort_component by (simp_all add: component_key_def of_extension_def component_matches_def got_def)

lemma json_wf_component: "json_wf (component_dict c)"
  by (simp add: component_dict_def)

lemma json_wf_process: "json_wf (process_value h p i)"
  by (simp add: process_value_def)

text \<open>The components of a bundle.\<close>

definition bundle_named :: "installed_bundle \<Rightarrow> bool" where
  "bundle_named b \<longleftrightarrow> ib_bundle_id b \<noteq> [] \<and> bm_bundle_version (ib_manifest b) \<noteq> []
     \<and> list_all (\<lambda>c. bc_component_id c \<noteq> [] \<and> bc_implementation_ref c \<noteq> []) (bm_components (ib_manifest b))"

lemma module_component_of_facts:
  assumes "module_component_of b h c = Inr ms" and "m \<in> set ms"
  shows "mk_extension_id m = ib_bundle_id b" "mk_extension_version m = bm_bundle_version (ib_manifest b)" "mk_manifest_sha256 m = h"
    "mk_component_id m = bc_component_id c" "mk_implementation_ref m = bc_implementation_ref c"
    "map_of module_roles (mk_contract m) = Some (mk_role m)"
proof -
  from assms obtain k where k: "selected_contracts c = [k]"
    by (auto simp: module_component_of_def split: list.splits if_splits)
  then have "k \<in> set (selected_contracts c)" by simp
  then have "k \<in> set (map fst module_roles)" unfolding selected_contracts_def by simp
  then have "map_of module_roles k \<noteq> None" by (simp add: map_of_eq_None_iff)
  with k assms show "mk_extension_id m = ib_bundle_id b" "mk_extension_version m = bm_bundle_version (ib_manifest b)"
    "mk_manifest_sha256 m = h" "mk_component_id m = bc_component_id c" "mk_implementation_ref m = bc_implementation_ref c"
    "map_of module_roles (mk_contract m) = Some (mk_role m)"
    by (auto simp: module_component_of_def split: if_splits)
qed

lemma module_components_facts:
  assumes "module_components sha files b = Inr cs" and "m \<in> set cs"
  shows "mk_extension_id m = ib_bundle_id b" and "bundle_named b \<Longrightarrow> \<forall>raw. sha raw \<noteq> [] \<Longrightarrow> component_named m"
proof -
  from assms obtain raw groups where "emap (module_component_of b (sha raw)) (bm_components (ib_manifest b)) = Inr groups"
      and "cs = concat groups"
    by (auto simp: module_components_def Let_def ebind_Inr_iff split: if_splits option.splits)
  with assms(2) obtain c ms where c: "c \<in> set (bm_components (ib_manifest b))" "module_component_of b (sha raw) c = Inr ms" "m \<in> set ms"
    by (auto elim: emap_set)
  note facts = module_component_of_facts [OF c(2,3)]
  show "mk_extension_id m = ib_bundle_id b" by (rule facts)
  show "component_named m" if "bundle_named b" "\<forall>raw. sha raw \<noteq> []"
    using that c(1) facts by (simp add: component_named_def bundle_named_def list_all_iff)
qed

lemma components_of_bundle:
  assumes "emap (module_components sha files) bundles = Inr groups" and "distinct (map ib_bundle_id bundles)"
    and "b \<in> set bundles" and "module_components sha files b = Inr cs"
  shows "filter (\<lambda>c. mk_extension_id c = ib_bundle_id b) (concat groups) = cs"
proof -
  have none: "filter (\<lambda>c. mk_extension_id c = i) (concat groups) = []"
    if "emap (module_components sha files) bundles = Inr groups" "i \<notin> set (map ib_bundle_id bundles)" for i bundles groups
    using that by (induction bundles arbitrary: groups) (fastforce simp: ebind_Inr_iff filter_empty_conv dest: module_components_facts(1))+
  show ?thesis using assms
  proof (induction bundles arbitrary: groups)
    case (Cons a bundles)
    then obtain as rest where as: "module_components sha files a = Inr as" and rest: "emap (module_components sha files) bundles = Inr rest"
        and groups: "groups = as # rest"
      by (auto simp: ebind_Inr_iff)
    show ?case
    proof (cases "ib_bundle_id a = ib_bundle_id b")
      case True
      with Cons.prems have "b = a" by auto
      with as Cons.prems(4) have cs: "cs = as" by simp
      have "filter (\<lambda>c. mk_extension_id c = ib_bundle_id b) (concat rest) = []"
        using none [OF rest, of "ib_bundle_id b"] Cons.prems(2) True by auto
      moreover have "filter (\<lambda>c. mk_extension_id c = ib_bundle_id b) as = as"
        using module_components_facts(1) [OF as] True by (simp add: filter_id_conv)
      ultimately show ?thesis by (simp add: groups cs)
    next
      case False
      then have "filter (\<lambda>c. mk_extension_id c = ib_bundle_id b) as = []"
        using module_components_facts(1) [OF as] by (simp add: filter_empty_conv)
      with Cons.IH [OF rest] Cons.prems False groups show ?thesis by auto
    qed
  qed simp
qed

lemma without_sorted: "without k (sorted_pairs d) = sorted_pairs (without k d)"
  by (simp add: without_def sorted_pairs_def filter_sort filter_map comp_def)

lemma evidence_digest_sorted: "evidence_digest sha (JObj (sorted_pairs d)) = evidence_digest sha (JObj d)"
  unfolding evidence_digest_def json_dumps_def jsort_JObj [symmetric] jsort_idem ..

lemma launch_binding_sel:
  "got (launch_binding sha plan launch manager cs) ''schema'' = JStr launch_schema"
  "got (launch_binding sha plan launch manager cs) ''plan_id'' = JStr plan"
  "got (launch_binding sha plan launch manager cs) ''launch_id'' = JStr launch"
  "got (launch_binding sha plan launch manager cs) ''manager_process'' = manager"
  "got (launch_binding sha plan launch manager cs) ''components'' =
     JArr (map component_dict (sort_key (\<lambda>c. (mk_extension_id c, mk_component_id c)) cs))"
  "got (launch_binding sha plan launch manager cs) ''binding_digest'' =
     JStr (evidence_digest sha (JObj (without ''binding_digest'' (launch_binding sha plan launch manager cs))))"
  "map fst (launch_binding sha plan launch manager cs) = binding_fields"
  by (simp_all add: launch_binding_def Let_def got_def without_def binding_fields_def)

lemma launch_binding_wf:
  assumes "json_wf manager"
  shows "json_wf (JObj (launch_binding sha plan launch manager cs))"
  using assms by (simp add: launch_binding_def Let_def list_all_iff json_wf_component)

text \<open>The binding as the journal returns it.\<close>

definition bound :: "(string \<Rightarrow> string) \<Rightarrow> string \<Rightarrow> string \<Rightarrow> json \<Rightarrow> module_component list \<Rightarrow> (string \<times> json) list" where
  "bound sha plan launch manager cs = sorted_pairs (launch_binding sha plan launch manager cs)"

lemma bound_sel:
  "got (bound sha plan launch manager cs) ''schema'' = JStr launch_schema"
  "got (bound sha plan launch manager cs) ''plan_id'' = JStr plan"
  "got (bound sha plan launch manager cs) ''launch_id'' = JStr launch"
  "got (bound sha plan launch manager cs) ''manager_process'' = jsort manager"
  "json_items (got (bound sha plan launch manager cs) ''components'') =
     map (\<lambda>c. jsort (component_dict c)) (sort_key (\<lambda>c. (mk_extension_id c, mk_component_id c)) cs)"
  "got (bound sha plan launch manager cs) ''binding_digest'' =
     JStr (evidence_digest sha (JObj (without ''binding_digest'' (launch_binding sha plan launch manager cs))))"
proof -
  have d: "distinct (map fst (launch_binding sha plan launch manager cs))"
    by (simp add: launch_binding_sel binding_fields_def)
  show "got (bound sha plan launch manager cs) ''schema'' = JStr launch_schema"
    "got (bound sha plan launch manager cs) ''plan_id'' = JStr plan" "got (bound sha plan launch manager cs) ''launch_id'' = JStr launch"
    "got (bound sha plan launch manager cs) ''manager_process'' = jsort manager"
    "got (bound sha plan launch manager cs) ''binding_digest'' =
     JStr (evidence_digest sha (JObj (without ''binding_digest'' (launch_binding sha plan launch manager cs))))"
    "json_items (got (bound sha plan launch manager cs) ''components'') =
     map (\<lambda>c. jsort (component_dict c)) (sort_key (\<lambda>c. (mk_extension_id c, mk_component_id c)) cs)"
    unfolding bound_def got_sorted [OF d] launch_binding_sel by (simp_all add: json_items_def comp_def del: jsort.simps(2))
qed

lemma bound_valid:
  assumes "process_is_current w manager" "jsort manager = manager" "plan \<noteq> []" "launch \<noteq> []" "\<forall>raw. sha raw \<noteq> []"
    and "cs \<noteq> []" "list_all component_named cs"
  shows "valid_binding sha w (bound sha plan launch manager cs)"
proof -
  have "keys_are (bound sha plan launch manager cs) binding_fields"
    by (metis bound_def keys_are_def keys_sorted_pairs launch_binding_sel(7) list.set_map)
  moreover have "evidence_digest sha (JObj (without ''binding_digest'' (launch_binding sha plan launch manager cs)))
      = evidence_digest sha (JObj (without ''binding_digest'' (bound sha plan launch manager cs)))"
    unfolding bound_def without_sorted evidence_digest_sorted ..
  moreover have "evidence_digest sha v \<noteq> []" for v using assms(5) by (simp add: evidence_digest_def)
  moreover have "sort_key (\<lambda>c. (mk_extension_id c, mk_component_id c)) cs \<noteq> []"
    using assms(6) by (metis mset_sort mset_zero_iff)
  moreover have "list_all component_valid (map (\<lambda>c. jsort (component_dict c)) (sort_key (\<lambda>c. (mk_extension_id c, mk_component_id c)) cs))"
    using assms(7) by (simp add: list_all_iff component_valid_sorted del: jsort.simps)
  ultimately show ?thesis
    using assms(1-4) unfolding valid_binding_def list.pred_inject bound_sel by (simp add: non_empty_str_def del: jsort.simps)
qed

lemma latest_bound:
  assumes "list_all (\<lambda>e. got e ''schema'' = JStr module_schema) events" and "c \<in> set cs" "mk_extension_id c = i"
  shows "latest_binding i (records @ bound sha plan launch manager cs # events) = Some (bound sha plan launch manager cs)"
proof -
  have "launch_schema \<noteq> module_schema" by (simp add: launch_schema_def module_schema_def)
  then have "find (\<lambda>item. got item ''schema'' = JStr launch_schema \<and> P item) (rev events @ b # rest) = find (\<lambda>item. got item ''schema'' = JStr launch_schema \<and> P item) (b # rest)"
    for P b rest using assms(1) by (induction events rule: rev_induct) (auto simp: list_all_iff)
  moreover have "list_ex (of_extension i) (map (\<lambda>c. jsort (component_dict c)) (sort_key (\<lambda>c. (mk_extension_id c, mk_component_id c)) cs))"
    using assms(2,3) by (auto simp: list_ex_iff component_sorted_sel simp del: jsort.simps)
  ultimately show ?thesis by (simp add: latest_binding_def bound_sel)
qed

subsection \<open>Emissions\<close>

text \<open>One call of \<open>emit_module_effective\<close>, and a sequence of them by processes that live on.\<close>

record emission =
  em_pid :: int
  em_observed_at :: int
  em_reference :: string
  em_role :: string
  em_requests :: int
  em_tokens :: int

definition emit_one :: "(string \<Rightarrow> string) \<Rightarrow> emission \<Rightarrow> unit evidence" where
  "emit_one sha x = emit_module_effective sha (em_pid x) (em_observed_at x) AppendWhole (em_reference x) True (em_role x)
     (em_requests x) (em_tokens x)"

fun emit_list :: "(string \<Rightarrow> string) \<Rightarrow> emission list \<Rightarrow> unit evidence" where
  "emit_list sha [] = ret ()"
| "emit_list sha (x # xs) = andthen (emit_one sha x) (emit_list sha xs)"

definition emitted :: "evidence_world \<Rightarrow> (string \<times> json) list \<Rightarrow> emission \<Rightarrow> (string \<times> json) list \<Rightarrow> bool" where
  "emitted w binding x e \<longleftrightarrow> (\<exists>component identity.
     filter (component_matches (em_reference x) (em_role x)) (json_items (got binding ''components'')) = [component]
   \<and> start_identity (ew_proc_stat w) (em_pid x) = Some identity \<and> 0 < em_requests x \<and> 0 < em_tokens x
   \<and> (\<exists>d. module_event binding component (process_value (ew_hostname w) (em_pid x) identity) (em_observed_at x) (em_requests x) (em_tokens x)
         = JObj d \<and> e = sorted_pairs d))"

lemma own_process_Inr: "own_process pid w = (Inr v, w') \<longleftrightarrow>
  (\<exists>i. start_identity (ew_proc_stat w) pid = Some i \<and> v = process_value (ew_hostname w) pid i) \<and> w' = w"
  by (auto simp: own_process_def py_defs split: option.splits)

lemma bound_launch_Inr:
  assumes "bound_launch sha w = (Inr binding, w')" and "module_records w = Inr (records @ b # events)"
    and "map_of (ew_environ w) module_binding_env = Some digest" "got b ''schema'' = JStr launch_schema" "got b ''binding_digest'' = JStr digest"
    and "list_all (\<lambda>e. got e ''schema'' = JStr module_schema) events"
  shows "binding = b \<and> w' = w"
proof -
  have "launch_schema \<noteq> module_schema" by (simp add: launch_schema_def module_schema_def)
  then have "find (\<lambda>item. P item \<and> got item ''schema'' = JStr launch_schema) (rev events @ c # rest) = find (\<lambda>item. P item \<and> got item ''schema'' = JStr launch_schema) (c # rest)"
    for P c rest using assms(6) by (induction events rule: rev_induct) (auto simp: list_all_iff)
  then have found: "find (\<lambda>item. Some (got item ''binding_digest'') = map_option JStr (map_of (ew_environ w) module_binding_env)
       \<and> got item ''schema'' = JStr launch_schema) (rev (records @ b # events)) = Some b"
    using assms(3-5) by simp
  have "\<exists>r. module_records w = Inr r \<and> binding = the (find (\<lambda>item. Some (got item ''binding_digest'') = map_option JStr (map_of (ew_environ w) module_binding_env)
       \<and> got item ''schema'' = JStr launch_schema) (rev r)) \<and> w' = w"
    using assms(1) unfolding bound_launch_def
    by (auto simp: bind_Inr_iff andthen_Inr_iff gets_def lift_result_def ret_def raise_def split: option.splits)
  with assms(2) found show ?thesis by auto
qed

lemma emit_one_Inr:
  assumes "emit_one sha x w = (Inr (), w')" and "module_records w = Inr (records @ b # events)"
    and "map_of (ew_environ w) module_binding_env = Some digest" "got b ''schema'' = JStr launch_schema" "got b ''binding_digest'' = JStr digest"
    and "list_all (\<lambda>e. got e ''schema'' = JStr module_schema) events"
  obtains component identity where
    "filter (component_matches (em_reference x) (em_role x)) (json_items (got b ''components'')) = [component]"
    "start_identity (ew_proc_stat w) (em_pid x) = Some identity" "0 < em_requests x" "0 < em_tokens x"
    "w' = after_record w (module_event b component (process_value (ew_hostname w) (em_pid x) identity) (em_observed_at x)
            (em_requests x) (em_tokens x))"
proof -
  from assms(1) obtain binding w1 where launch: "bound_launch sha w = (Inr binding, w1)"
      and rest: "0 < em_requests x" "0 < em_tokens x"
        "length (filter (component_matches (em_reference x) (em_role x)) (json_items (got binding ''components''))) = 1"
        "\<exists>p. own_process (em_pid x) w1 = (Inr p, w1) \<and>
           append_record AppendWhole (module_event binding (hd (filter (component_matches (em_reference x) (em_role x)) (json_items (got binding ''components'')))) p
             (em_observed_at x) (em_requests x) (em_tokens x)) w1 = (Inr (), w')"
    unfolding emit_one_def emit_module_effective_def Let_def
    by (auto simp: bind_Inr_iff andthen_Inr_iff own_process_Inr)
  have b: "binding = b" "w1 = w" using bound_launch_Inr [OF launch assms(2-6)] by simp_all
  obtain component where c: "filter (component_matches (em_reference x) (em_role x)) (json_items (got b ''components'')) = [component]"
    using rest(3) unfolding b by (auto simp: length_Suc_conv)
  from rest(4) obtain i where "start_identity (ew_proc_stat w) (em_pid x) = Some i"
      "w' = after_record w (module_event b component (process_value (ew_hostname w) (em_pid x) i) (em_observed_at x) (em_requests x) (em_tokens x))"
    unfolding b c by (auto simp: own_process_Inr append_record_whole)
  with c rest show ?thesis by (intro that) simp_all
qed

lemma module_event_record:
  assumes "json_wf component" "json_wf process" "json_wf (got b ''plan_id'')" "json_wf (got b ''launch_id'')" "json_wf (got b ''binding_digest'')"
  obtains d where "module_event b component process now requests tokens = JObj d" "json_wf (JObj d)"
    "records_of [record_line (JObj d)] = Inr [sorted_pairs d]" "map fst d = module_event_fields"
    "\<And>k. got (sorted_pairs d) k = jsort (got d k)"
proof -
  let ?d = "[(''schema'', JStr module_schema), (''event'', JStr ''effective''), (''observation_kind'', JStr ''runtime_effective''),
       (''plan_id'', got b ''plan_id''), (''launch_id'', got b ''launch_id''),
       (''binding_digest'', got b ''binding_digest''), (''component'', component), (''process'', process),
       (''observed_at_ns'', JInt now), (''request_count'', JInt requests), (''output_token_count'', JInt tokens)]"
  have wf: "json_wf (JObj ?d)" using assms by simp
  have "got ?d ''schema'' = JStr module_schema" by (simp add: got_def)
  from records_of_record [OF wf this] have "records_of [record_line (JObj ?d)] = Inr [sorted_pairs ?d]" by simp
  moreover have "distinct (map fst ?d)" by simp
  note got_sorted [OF this]
  moreover have "map fst ?d = module_event_fields" by (simp add: module_event_fields_def)
  ultimately show ?thesis using wf by (intro that [of ?d]) (simp_all add: module_event_def del: json_wf.simps records_of.simps)
qed

lemma emit_one_grows:
  assumes "emit_one sha x w = (Inr (), w')"
  shows "length (journal_bytes w) \<le> length (journal_bytes w')"
proof -
  have same: "w1 = w" if "bound_launch sha w = (Inr binding, w1)" for binding w1
    using that unfolding bound_launch_def
    by (auto simp: bind_Inr_iff andthen_Inr_iff gets_def lift_result_def ret_def raise_def split: option.splits)
  from assms obtain v where "append_record AppendWhole v w = (Inr (), w')"
    unfolding emit_one_def emit_module_effective_def Let_def
    by (auto simp: bind_Inr_iff andthen_Inr_iff own_process_Inr dest!: same)
  then show ?thesis by (simp add: append_record_whole) (metis after_record_sel(4) le_add1 length_append)
qed

lemma emit_list_grows: "emit_list sha xs w = (Inr (), w') \<Longrightarrow> length (journal_bytes w) \<le> length (journal_bytes w')"
  by (induction xs arbitrary: w) (auto simp: andthen_Inr_iff ret_def dest!: emit_one_grows intro: le_trans)

definition binding_wf :: "(string \<times> json) list \<Rightarrow> bool" where
  "binding_wf b \<longleftrightarrow> got b ''schema'' = JStr launch_schema
     \<and> list_all (\<lambda>k. json_wf (got b k)) [''plan_id'', ''launch_id'', ''binding_digest'']
     \<and> list_all json_wf (json_items (got b ''components''))"

lemma emit_list_run:
  assumes "emit_list sha xs w = (Inr (), w')" and "journal_holds w (records @ b # events)"
    and "map_of (ew_environ w) module_binding_env = Some digest" "got b ''binding_digest'' = JStr digest" "binding_wf b"
    and "list_all (\<lambda>e. got e ''schema'' = JStr module_schema) events" and "length (journal_bytes w') \<le> max_read_bytes"
  shows "\<exists>new. journal_holds w' (records @ b # events @ new) \<and> list_all2 (emitted w b) xs new
     \<and> list_all (\<lambda>e. got e ''schema'' = JStr module_schema) new
     \<and> ew_hostname w' = ew_hostname w \<and> ew_proc_stat w' = ew_proc_stat w"
  using assms
proof (induction xs arbitrary: w events)
  case Nil
  then have "w' = w" by (simp add: ret_def)
  with Nil show ?case by (intro exI [of _ "[]"]) simp
next
  case (Cons x xs)
  from Cons.prems(1) obtain u where one: "emit_one sha x w = (Inr (), u)" and rest: "emit_list sha xs u = (Inr (), w')"
    by (auto simp: andthen_Inr_iff)
  have "length (journal_bytes w) \<le> max_read_bytes"
    using emit_one_grows [OF one] emit_list_grows [OF rest] Cons.prems(7) by simp
  from module_records_holds [OF Cons.prems(2) this]
  have records: "module_records w = Inr (records @ b # events)" .
  have schema: "got b ''schema'' = JStr launch_schema" using Cons.prems(5) by (simp add: binding_wf_def)
  from emit_one_Inr [OF one records Cons.prems(3) schema Cons.prems(4,6)] obtain component identity where
    c: "filter (component_matches (em_reference x) (em_role x)) (json_items (got b ''components'')) = [component]"
    and i: "start_identity (ew_proc_stat w) (em_pid x) = Some identity" and positive: "0 < em_requests x" "0 < em_tokens x"
    and u: "u = after_record w (module_event b component (process_value (ew_hostname w) (em_pid x) identity) (em_observed_at x)
            (em_requests x) (em_tokens x))" .
  have "component \<in> set (filter (component_matches (em_reference x) (em_role x)) (json_items (got b ''components'')))"
    unfolding c by simp
  then have "component \<in> set (json_items (got b ''components''))" by simp
  then have wf: "json_wf component" "json_wf (got b ''plan_id'')" "json_wf (got b ''launch_id'')" "json_wf (got b ''binding_digest'')"
    using Cons.prems(5) by (simp_all add: binding_wf_def list_all_iff)
  obtain d where d: "module_event b component (process_value (ew_hostname w) (em_pid x) identity)
        (em_observed_at x) (em_requests x) (em_tokens x) = JObj d"
      "records_of [record_line (JObj d)] = Inr [sorted_pairs d]" "\<And>k. got (sorted_pairs d) k = jsort (got d k)"
    using module_event_record [OF wf(1) json_wf_process wf(2-4)] by metis
  have "got d ''schema'' = JStr module_schema" using d(1) by (auto simp: module_event_def got_def)
  then have module: "got (sorted_pairs d) ''schema'' = JStr module_schema" by (simp add: d(3))
  have u': "u = after_record w (JObj d)" using u d(1) by simp
  have "journal_holds u (records @ b # events @ [sorted_pairs d])"
    using journal_holds_append [OF Cons.prems(2) d(2)] u' by simp
  from Cons.IH [OF rest, of "events @ [sorted_pairs d]"] this module Cons.prems(3-7) obtain new where new:
    "journal_holds w' (records @ b # events @ sorted_pairs d # new)" "list_all2 (emitted u b) xs new"
    "list_all (\<lambda>e. got e ''schema'' = JStr module_schema) new" "ew_hostname w' = ew_hostname u" "ew_proc_stat w' = ew_proc_stat u"
    by (auto simp: u')
  have "emitted w b x (sorted_pairs d)" unfolding emitted_def using c i positive d(1) by blast
  moreover have "emitted u b = emitted w b" by (simp add: fun_eq_iff emitted_def u')
  ultimately show ?case using new module by (intro exI [of _ "sorted_pairs d # new"]) (simp add: u')
qed

text \<open>What the journal returns for an emission under a binding.\<close>

lemma emitted_sel:
  assumes "emitted w (bound sha plan launch manager cs) x e"
  obtains c identity where "c \<in> set cs" "mk_implementation_ref c = em_reference x" "mk_role c = em_role x"
    "start_identity (ew_proc_stat w) (em_pid x) = Some identity" "0 < em_requests x" "0 < em_tokens x"
    "keys_are e module_event_fields" "got e ''schema'' = JStr module_schema" "got e ''event'' = JStr ''effective''"
    "got e ''observation_kind'' = JStr ''runtime_effective''" "got e ''plan_id'' = JStr plan" "got e ''launch_id'' = JStr launch"
    "got e ''binding_digest'' = got (bound sha plan launch manager cs) ''binding_digest''"
    "got e ''component'' = jsort (component_dict c)"
    "got e ''process'' = process_value (ew_hostname w) (em_pid x) identity" "got e ''observed_at_ns'' = JInt (em_observed_at x)"
    "got e ''request_count'' = JInt (em_requests x)" "got e ''output_token_count'' = JInt (em_tokens x)"
    "\<And>c'. c' \<in> set cs \<Longrightarrow> mk_implementation_ref c' = em_reference x \<Longrightarrow> mk_role c' = em_role x \<Longrightarrow> jsort (component_dict c') = jsort (component_dict c)"
proof -
  let ?b = "bound sha plan launch manager cs" and ?m = "component_matches (em_reference x) (em_role x)"
  from assms obtain component identity d where
    one: "filter ?m (json_items (got ?b ''components'')) = [component]"
    and i: "start_identity (ew_proc_stat w) (em_pid x) = Some identity" "0 < em_requests x" "0 < em_tokens x"
    and d: "module_event ?b component (process_value (ew_hostname w) (em_pid x) identity) (em_observed_at x) (em_requests x) (em_tokens x) = JObj d"
    and e: "e = sorted_pairs d"
    unfolding emitted_def by blast
  have fields: "map fst d = module_event_fields" using d by (auto simp: module_event_def module_event_fields_def)
  then have "distinct (map fst d)" by (simp add: module_event_fields_def)
  note got = got_sorted [OF this, folded e]
  have "component \<in> set (filter ?m (json_items (got ?b ''components'')))" unfolding one by simp
  then obtain c where c: "c \<in> set cs" "component = jsort (component_dict c)" "?m component"
    unfolding bound_sel by auto
  then have ref: "mk_implementation_ref c = em_reference x" "mk_role c = em_role x" by (simp_all only: component_sorted_sel)
  have unique: "jsort (component_dict c') = jsort (component_dict c)"
    if "c' \<in> set cs" "mk_implementation_ref c' = em_reference x" "mk_role c' = em_role x" for c'
  proof -
    have "jsort (component_dict c') \<in> set (filter ?m (json_items (got ?b ''components'')))"
      unfolding bound_sel using that by (simp add: component_sorted_sel del: jsort.simps)
    then show ?thesis unfolding one c by simp
  qed
  have keys: "keys_are e module_event_fields" by (metis e fields keys_are_def keys_sorted_pairs list.set_map)
  have d': "got d ''schema'' = JStr module_schema" "got d ''event'' = JStr ''effective''" "got d ''observation_kind'' = JStr ''runtime_effective''"
    "got d ''plan_id'' = got ?b ''plan_id''" "got d ''launch_id'' = got ?b ''launch_id''" "got d ''binding_digest'' = got ?b ''binding_digest''"
    "got d ''component'' = component" "got d ''process'' = process_value (ew_hostname w) (em_pid x) identity"
    "got d ''observed_at_ns'' = JInt (em_observed_at x)" "got d ''request_count'' = JInt (em_requests x)" "got d ''output_token_count'' = JInt (em_tokens x)"
    using d unfolding module_event_def json.inject by (auto simp: got_def)
  show ?thesis
    by (rule that [OF c(1) ref i keys]) (simp_all add: got d' bound_sel c(2) jsort_process unique del: jsort.simps)
qed

lemma emitted_component:
  assumes "emitted w (bound sha plan launch manager cs) x e" and "c \<in> set cs" "em_reference x = mk_implementation_ref c" "em_role x = mk_role c"
  shows "got e ''component'' = jsort (component_dict c)" "got e ''schema'' = JStr module_schema"
    "got e ''binding_digest'' = got (bound sha plan launch manager cs) ''binding_digest''"
proof -
  obtain c' where c': "got e ''component'' = jsort (component_dict c')"
      "\<And>d. d \<in> set cs \<Longrightarrow> mk_implementation_ref d = em_reference x \<Longrightarrow> mk_role d = em_role x \<Longrightarrow> jsort (component_dict d) = jsort (component_dict c')"
    and fields: "got e ''schema'' = JStr module_schema" "got e ''binding_digest'' = got (bound sha plan launch manager cs) ''binding_digest''"
    by (rule emitted_sel [OF assms(1)]) (rule that)
  show "got e ''component'' = jsort (component_dict c)" unfolding c'(1) by (rule c'(2) [symmetric]) (simp_all add: assms)
  show "got e ''schema'' = JStr module_schema" "got e ''binding_digest'' = got (bound sha plan launch manager cs) ''binding_digest''"
    by (rule fields)+
qed

lemma emitted_live:
  assumes "emitted w (bound sha plan launch manager cs) x e" and "0 < em_pid x" "0 < em_observed_at x"
    and "about i (bound sha plan launch manager cs) e"
  shows "live_event w (bound sha plan launch manager cs)
     (filter (of_extension i) (json_items (got (bound sha plan launch manager cs) ''components''))) e"
proof -
  obtain c identity where c: "c \<in> set cs" and identity: "start_identity (ew_proc_stat w) (em_pid x) = Some identity"
    and positive: "0 < em_requests x" "0 < em_tokens x" and keys: "keys_are e module_event_fields"
    and e: "got e ''event'' = JStr ''effective''"
    "got e ''observation_kind'' = JStr ''runtime_effective''" "got e ''plan_id'' = JStr plan" "got e ''launch_id'' = JStr launch"
    "got e ''component'' = jsort (component_dict c)"
    "got e ''process'' = process_value (ew_hostname w) (em_pid x) identity" "got e ''observed_at_ns'' = JInt (em_observed_at x)"
    "got e ''request_count'' = JInt (em_requests x)" "got e ''output_token_count'' = JInt (em_tokens x)"
    by (rule emitted_sel [OF assms(1)]) (rule that)
  have "identity \<noteq> []" using identity by (auto simp: start_identity_def Let_def split: option.splits if_splits)
  with identity assms(2) have current: "process_is_current w (process_value (ew_hostname w) (em_pid x) identity)"
    by (simp add: process_is_current_def process_value_def got_def)
  have "mk_extension_id c = i" using assms(4) by (simp add: about_def e component_sorted_sel del: jsort.simps)
  then have "list_ex (same_dict (jsort (component_dict c)))
      (filter (of_extension i) (json_items (got (bound sha plan launch manager cs) ''components'')))"
    using c unfolding bound_sel list_ex_iff
    by (intro bexI [of _ "jsort (component_dict c)"]) (simp_all add: same_dict_def component_sorted_sel del: jsort.simps)
  then show ?thesis
    using keys positive assms(3) current unfolding live_event_def list.pred_inject e bound_sel
    by (simp add: positive_int_def del: jsort.simps)
qed

subsection \<open>From a launch to its evidence\<close>

lemma sort_key_of_map: "sort_key g (map f xs) = map f (sort_key (\<lambda>x. g (f x)) xs)"
proof -
  have insort: "insort_key g (f x) (map f ys) = map f (insort_key (\<lambda>x. g (f x)) x ys)" for x ys
    by (induction ys) simp_all
  show ?thesis by (induction xs) (simp_all add: insort)
qed

lemma bound_selected:
  assumes "filter (\<lambda>c. mk_extension_id c = i) all = cs"
  shows "filter (of_extension i) (json_items (got (bound sha plan launch manager all) ''components''))
     = map (\<lambda>c. jsort (component_dict c)) (sort_key (\<lambda>c. (mk_extension_id c, mk_component_id c)) cs)"
  unfolding bound_sel filter_map comp_def component_sorted_sel filter_sort assms ..

lemma bound_same:
  assumes "distinct (map mk_component_id cs)"
  shows "list_all2 same_dict
     (sort_key component_key (map (\<lambda>c. jsort (component_dict c)) (sort_key (\<lambda>c. (mk_extension_id c, mk_component_id c)) cs)))
     (map component_dict (sort_key mk_component_id cs))"
proof -
  have "sort_key mk_component_id (sort_key (\<lambda>c. (mk_extension_id c, mk_component_id c)) cs) = sort_key mk_component_id cs"
    using assms by (intro sort_key_perm_unique) (simp_all add: distinct_map)
  then have "sort_key component_key (map (\<lambda>c. jsort (component_dict c)) (sort_key (\<lambda>c. (mk_extension_id c, mk_component_id c)) cs))
      = map (\<lambda>c. jsort (component_dict c)) (sort_key mk_component_id cs)"
    unfolding sort_key_of_map component_sorted_sel by simp
  then show ?thesis by (simp add: list_all2_map1 list_all2_map2 list.rel_refl same_dict_def del: jsort.simps)
qed

text \<open>What the journal holds once a launch was bound and components were emitted gives evidence.\<close>

lemma evidence_of_emissions:
  assumes records: "module_records w = Inr (records @ b # events)" and b: "b = bound sha plan launch manager all"
    and valid: "valid_binding sha w b"
    and components: "module_components sha files bundle = Inr cs" "cs \<noteq> []" "distinct (map mk_component_id cs)"
      "filter (\<lambda>c. mk_extension_id c = ib_bundle_id bundle) all = cs"
    and fresh: "list_all (\<lambda>r. got r ''binding_digest'' \<noteq> got b ''binding_digest'') records"
    and emitted: "list_all2 (emitted w b) xs events" and stamps: "list_all (\<lambda>x. 0 < em_pid x \<and> 0 < em_observed_at x) xs"
    and covered: "list_all (\<lambda>c. list_ex (\<lambda>x. em_reference x = mk_implementation_ref c \<and> em_role x = mk_role c) xs) cs"
  shows "\<exists>pids. runtime_effective_evidence sha files w bundle = Inr (Some (ModuleEvidence launch (length cs) pids))"
proof -
  let ?i = "ib_bundle_id bundle" and ?f = "\<lambda>c. jsort (component_dict c)"
  let ?selected = "filter (of_extension ?i) (json_items (got b ''components''))" and ?key = "\<lambda>e. component_key (got e ''component'')"
  obtain c0 where c0: "c0 \<in> set all" "mk_extension_id c0 = ?i" using components(2,4) by (metis (mono_tags) filter_empty_conv)
  have each: "\<exists>x \<in> set xs. emitted w b x e" if "e \<in> set events" for e
    using emitted that by (induction rule: list_all2_induct) auto
  have schemas: "list_all (\<lambda>e. got e ''schema'' = JStr module_schema) events"
    unfolding list_all_iff using each by (auto simp: b elim: emitted_sel)
  have latest: "latest_binding ?i (records @ b # events) = Some b"
    unfolding b by (rule latest_bound [OF schemas c0])
  have same: "list_all2 same_dict (sort_key component_key ?selected) (map component_dict (sort_key mk_component_id cs))"
    unfolding b bound_selected [OF components(4)] by (rule bound_same [OF components(3)])
  have "launch_schema \<noteq> module_schema" by (simp add: launch_schema_def module_schema_def)
  then have events: "filter (about ?i b) (records @ b # events) = filter (about ?i b) events"
    using fresh by (auto simp: about_def list_all_iff filter_empty_conv b bound_sel(1))
  have live: "list_all (live_event w b ?selected) (filter (about ?i b) events)"
    unfolding list_all_iff using each stamps emitted_live by (fastforce simp: b list_all_iff)
  have "set (map ?key (filter (about ?i b) events)) = set (map mk_component_id cs)"
  proof
    show "set (map ?key (filter (about ?i b) events)) \<subseteq> set (map mk_component_id cs)"
    proof
      fix k assume "k \<in> set (map ?key (filter (about ?i b) events))"
      then obtain e where e: "e \<in> set events" "about ?i b e" "k = ?key e" by auto
      from each [OF e(1)] obtain x where "emitted w b x e" ..
      then obtain c where c: "c \<in> set all" "got e ''component'' = ?f c" unfolding b by (rule emitted_sel)
      with e(2) have "mk_extension_id c = ?i" by (simp add: about_def component_sorted_sel del: jsort.simps)
      with c(1) components(4) have "c \<in> set cs" by auto
      then show "k \<in> set (map mk_component_id cs)" by (simp add: e(3) c(2) component_sorted_sel del: jsort.simps)
    qed
    show "set (map mk_component_id cs) \<subseteq> set (map ?key (filter (about ?i b) events))"
    proof
      fix k assume "k \<in> set (map mk_component_id cs)"
      then obtain c where c: "c \<in> set cs" "k = mk_component_id c" by auto
      then obtain x where x: "x \<in> set xs" "em_reference x = mk_implementation_ref c" "em_role x = mk_role c"
        using covered by (auto simp: list_all_iff list_ex_iff)
      from emitted x(1) obtain e where e: "e \<in> set events" "emitted w b x e"
        by (induction rule: list_all2_induct) auto
      have "c \<in> set all" "mk_extension_id c = ?i" using c(1) components(4) by auto
      note e' = emitted_component [OF e(2) [unfolded b] \<open>c \<in> set all\<close> x(2,3), folded b]
      have "about ?i b e" "?key e = k"
        using \<open>mk_extension_id c = ?i\<close> c(2) e' by (simp_all add: about_def component_sorted_sel del: jsort.simps)
      with e(1) show "k \<in> set (map ?key (filter (about ?i b) events))" by auto
    qed
  qed
  note seen = this
  have card: "card (set (map mk_component_id cs)) = length cs"
    using distinct_card [OF components(3)] by simp
  have launch: "json_str (got b ''launch_id'') = launch" by (simp add: b bound_sel json_str_def)
  have "module_effective_evidence sha files w bundle
      = Inr (Some (ModuleEvidence launch (length cs) (sorted_list_of_set (set (map event_pid (filter (about ?i b) events))))))"
    unfolding module_effective_evidence_def components(1) records ebind_simps latest option.case Let_def events
    using valid same live seen by (simp only: card launch if_True if_False not_True_eq_False not_not simp_thms)
  then show ?thesis using components(1,2) by (simp add: runtime_effective_evidence_def)
qed

lemma launch_environment_Inr:
  assumes "launch_environment sha files pid launch path AppendWhole None bundles w = (Inr environment, w1)"
    and "emap (module_components sha files) bundles = Inr groups" and "concat groups \<noteq> []"
  obtains identity binding where "start_identity (ew_proc_stat w) pid = Some identity"
    "binding = launch_binding sha (sha (plan_material bundles)) launch (process_value (ew_hostname w) pid identity) (concat groups)"
    "w1 = after_record w (JObj binding)"
    "map_of environment module_binding_env = Some (evidence_digest sha (JObj (without ''binding_digest'' binding)))"
  using assms unfolding launch_environment_def
  by (auto simp: bind_Inr_iff andthen_Inr_iff gets_def lift_result_def ret_def own_process_Inr append_record_whole Let_def
      module_binding_env_def evidence_path_env_def simp del: concat_eq_Nil_conv Nil_eq_concat_conv)

lemma launched_evidence:
  assumes launched: "launch_environment sha files pid launch path AppendWhole None bundles w = (Inr environment, w1)" and manager: "0 < pid"
    and emissions: "emit_list sha xs (w1\<lparr>ew_environ := environment @ ew_environ w1\<rparr>) = (Inr (), w2)"
    and journal: "journal_holds w records" "length (journal_bytes w2) \<le> max_read_bytes"
    and bundles: "distinct (map ib_bundle_id bundles)" "list_all bundle_named bundles" "bundle \<in> set bundles"
    and components: "module_components sha files bundle = Inr cs" "cs \<noteq> []" "distinct (map mk_component_id cs)"
    and texts: "\<forall>raw. sha raw \<noteq> []" "launch \<noteq> []"
    and fresh: "list_all (\<lambda>r. Some (got r ''binding_digest'') \<noteq> map_option JStr (map_of environment module_binding_env)) records"
    and stamps: "list_all (\<lambda>x. 0 < em_pid x \<and> 0 < em_observed_at x) xs"
    and covered: "list_all (\<lambda>c. list_ex (\<lambda>x. em_reference x = mk_implementation_ref c \<and> em_role x = mk_role c) xs) cs"
  shows "\<exists>pids. runtime_effective_evidence sha files w2 bundle = Inr (Some (ModuleEvidence launch (length cs) pids))"
proof -
  from launched obtain groups where groups: "emap (module_components sha files) bundles = Inr groups"
    unfolding launch_environment_def Let_def
    by (auto simp: bind_Inr_iff andthen_Inr_iff gets_def lift_result_def)
  have own: "filter (\<lambda>c. mk_extension_id c = ib_bundle_id bundle) (concat groups) = cs"
    by (rule components_of_bundle [OF groups bundles(1,3) components(1)])
  with components(2) have "concat groups \<noteq> []" by (metis filter.simps(1))
  from launch_environment_Inr [OF launched groups this] obtain identity binding where
    identity: "start_identity (ew_proc_stat w) pid = Some identity"
    and binding: "binding = launch_binding sha (sha (plan_material bundles)) launch (process_value (ew_hostname w) pid identity) (concat groups)"
    and w1: "w1 = after_record w (JObj binding)"
    and digest: "map_of environment module_binding_env = Some (evidence_digest sha (JObj (without ''binding_digest'' binding)))" .
  let ?b = "bound sha (sha (plan_material bundles)) launch (process_value (ew_hostname w) pid identity) (concat groups)"
  let ?host = "w1\<lparr>ew_environ := environment @ ew_environ w1\<rparr>"
  have b: "?b = sorted_pairs binding" by (simp add: bound_def binding)
  have wf: "json_wf (JObj binding)" unfolding binding by (rule launch_binding_wf [OF json_wf_process])
  have written: "records_of [record_line (JObj binding)] = Inr [?b]"
    unfolding b by (rule records_of_record [OF wf, of launch_schema]) (simp_all add: binding launch_binding_sel)
  have holds: "journal_holds ?host (records @ ?b # [])"
    using journal_holds_append [OF journal(1) written] by (simp add: w1 journal_holds_def journal_bytes_def)
  have "list_all json_wf (json_items (got ?b ''components''))" unfolding bound_sel by (simp add: list_all_iff json_wf_component del: jsort.simps)
  then have "binding_wf ?b" by (simp add: binding_wf_def bound_sel)
  from emit_list_run [OF emissions holds _ _ this _ journal(2)] digest obtain events where
    after: "journal_holds w2 (records @ ?b # events)" and emitted: "list_all2 (emitted ?host ?b) xs events"
    and w2: "ew_hostname w2 = ew_hostname w" "ew_proc_stat w2 = ew_proc_stat w"
    by (auto simp: bound_sel binding w1)
  have "emitted ?host ?b = emitted w2 ?b" by (simp add: fun_eq_iff emitted_def w1 w2)
  note emitted = emitted [unfolded this]
  have "identity \<noteq> []" using identity by (auto simp: start_identity_def Let_def split: option.splits if_splits)
  with identity manager have current: "process_is_current w2 (process_value (ew_hostname w) pid identity)"
    by (simp add: process_is_current_def process_value_def got_def w2)
  have named: "list_all component_named (concat groups)"
    unfolding list_all_iff
  proof
    fix c assume "c \<in> set (concat groups)"
    then obtain ds where "ds \<in> set groups" "c \<in> set ds" by auto
    moreover from emap_set [OF groups this(1)] obtain a where "a \<in> set bundles" "module_components sha files a = Inr ds" .
    ultimately show "component_named c" using bundles(2) texts(1) module_components_facts(2) by (auto simp: list_all_iff)
  qed
  have valid: "valid_binding sha w2 ?b"
    by (rule bound_valid [OF current jsort_process _ texts(2,1) \<open>concat groups \<noteq> []\<close> named]) (simp add: texts(1))
  have new: "list_all (\<lambda>r. got r ''binding_digest'' \<noteq> got ?b ''binding_digest'') records"
    using fresh by (simp add: digest bound_sel binding)
  show ?thesis
    by (rule evidence_of_emissions [OF module_records_holds [OF after journal(2)] refl valid components own new emitted stamps covered])
qed

subsection \<open>A launch\<close>

text \<open>The bundle \<open>a\<close> is launched by process 5; process 6 emits for its scheduler.\<close>

definition mx_sha :: "string \<Rightarrow> string" where
  "mx_sha raw = ''ab''"

definition mx_proc :: string where
  "mx_proc = ''5 (py) S 0 0 0 0 0 0 0 0 0 0 0 0 0 0 0 0 0 0 7 9''"

definition mx_world :: evidence_world where
  "mx_world = \<lparr>ew_environ = [], ew_journal = None, ew_hostname = ''h'', ew_proc_stat = (\<lambda>_. Some mx_proc)\<rparr>"

definition mx_module :: module_component where
  "mx_module = \<lparr>mk_extension_id = ''a'', mk_extension_version = ''1'', mk_manifest_sha256 = ''ab'', mk_component_id = ''sched'',
     mk_contract = ''vllm.scheduler-class.v1'', mk_implementation_ref = ''pkg.sched:S'', mk_role = ''scheduler''\<rparr>"

definition mx_emission :: emission where
  "mx_emission = \<lparr>em_pid = 6, em_observed_at = 1, em_reference = ''pkg.sched:S'', em_role = ''scheduler'', em_requests = 1, em_tokens = 2\<rparr>"

abbreviation mx_manager :: json where
  "mx_manager \<equiv> process_value ''h'' 5 ''pid:5:start_ticks:7''"

abbreviation mx_bound :: "(string \<times> json) list" where
  "mx_bound \<equiv> bound mx_sha ''ab'' ''L'' mx_manager [mx_module]"

definition mx_launched :: evidence_world where
  "mx_launched = after_record mx_world (JObj (launch_binding mx_sha ''ab'' ''L'' mx_manager [mx_module]))"

definition mx_environment :: "(string \<times> string) list" where
  "mx_environment = [(''VLLM_ECPA_EVIDENCE_SINK'', evidence_sink), (''VLLM_ECPA_EVIDENCE_STRICT'', ''1''),
     (''VLLM_ECPA_PLAN_ID'', ''ab''), (''VLLM_ECPA_LAUNCH_ID'', ''L''), (evidence_path_env, ''/e''), (module_binding_env, ''ab'')]"

definition mx_emitted :: evidence_world where
  "mx_emitted = after_record (mx_launched\<lparr>ew_environ := mx_environment @ ew_environ mx_launched\<rparr>)
     (module_event mx_bound (jsort (component_dict mx_module)) (process_value ''h'' 6 ''pid:6:start_ticks:7'') 1 1 2)"

lemma mx_identities: "start_identity (\<lambda>_. Some mx_proc) 5 = Some ''pid:5:start_ticks:7''"
    "start_identity (\<lambda>_. Some mx_proc) 6 = Some ''pid:6:start_ticks:7''"
  by code_simp+

lemma mx_module_of: "module_component_of ex_a ''ab'' ex_component = Inr [mx_module]"
  by code_simp

lemma mx_components: "module_components mx_sha ex_files ex_a = Inr [mx_module]"
proof -
  have "bm_components (ib_manifest ex_a) = [ex_component]" "ib_manifest_path ex_a = ''a''"
    by (simp_all add: ex_a_def ex_installed_def ex_manifest_def)
  moreover have "list_ex (\<lambda>k. k \<in> set class_contracts) (bc_contracts ex_component)"
    by (simp add: ex_component_def class_contracts_def)
  ultimately show ?thesis
    unfolding module_components_def Let_def by (simp add: ex_files_def mx_sha_def mx_module_of)
qed

lemma mx_launch:
  "launch_environment mx_sha ex_files 5 ''L'' ''/e'' AppendWhole None [ex_a] mx_world = (Inr mx_environment, mx_launched)"
  by (simp add: launch_environment_def bind_def gets_def andthen_def require_def ret_def lift_result_def Let_def mx_components
      own_process_def append_record_whole mx_identities mx_world_def mx_sha_def evidence_digest_def mx_environment_def mx_launched_def)

text \<open>A bound of the length of a record.\<close>

fun json_size :: "json \<Rightarrow> nat" where
  "json_size (JInt i) = length (int_str i)"
| "json_size (JStr s) = 6 * length s + 2"
| "json_size (JArr vs) = 2 + sum_list (map (\<lambda>v. 1 + json_size v) vs)"
| "json_size (JObj kvs) = 2 + sum_list (map (\<lambda>kv. 4 + 6 * length (fst kv) + json_size (snd kv)) kvs)"
| "json_size _ = 5"

lemma length_esc_char: "length (esc_char ea c) \<le> 6"
  by (simp add: esc_char_def)

lemma length_quote: "length (quote ea s) \<le> 6 * length s + 2"
proof (induction s)
  case (Cons c s)
  then show ?case using length_esc_char [of ea c] by (simp add: quote_def)
qed (simp add: quote_def)

lemma length_join: "length (py_join '','' xs) \<le> sum_list (map (\<lambda>x. 1 + length x) xs)"
  by (induction "'',''" xs rule: py_join.induct) simp_all

lemma length_jprint: "length (jprint ea v) \<le> json_size v"
proof (induction v)
  case (JArr vs)
  have "sum_list (map (\<lambda>x. 1 + length x) (map (jprint ea) vs)) \<le> sum_list (map (\<lambda>v. 1 + json_size v) vs)"
    unfolding list.map_comp comp_def by (rule sum_list_mono) (use JArr in simp)
  then show ?case using length_join [of "map (jprint ea) vs"] by simp
next
  case (JObj kvs)
  let ?p = "\<lambda>kv. quote ea (fst kv) @ '':'' @ jprint ea (snd kv)"
  have "1 + length (?p kv) \<le> 4 + 6 * length (fst kv) + json_size (snd kv)" if "kv \<in> set kvs" for kv
  proof -
    have "length (jprint ea (snd kv)) \<le> json_size (snd kv)" using JObj that by (cases kv) auto
    then show ?thesis using length_quote [of ea "fst kv"] by simp
  qed
  then have "sum_list (map (\<lambda>x. 1 + length x) (map ?p kvs)) \<le> sum_list (map (\<lambda>kv. 4 + 6 * length (fst kv) + json_size (snd kv)) kvs)"
    unfolding list.map_comp comp_def by (rule sum_list_mono)
  then show ?case using length_join [of "map ?p kvs"] by simp
next
  case (JStr s)
  then show ?case using length_quote [of ea s] by simp
qed simp_all

lemma json_size_jsort: "json_size (jsort v) = json_size v"
proof (induction v)
  case (JArr vs)
  then have "map (\<lambda>v. 1 + json_size v) (map jsort vs) = map (\<lambda>v. 1 + json_size v) vs" by simp
  then show ?case unfolding jsort.simps json_size.simps by (simp only:)
next
  case (JObj kvs)
  let ?g = "\<lambda>kv. 4 + 6 * length (fst kv) + json_size (snd kv)" and ?f = "\<lambda>kv. (fst kv, jsort (snd kv))"
  have same: "map ?g (map ?f kvs) = map ?g kvs" using JObj by auto
  have "mset (map ?g (sorted_pairs kvs)) = mset (map ?g (map ?f kvs))"
    unfolding sorted_pairs_def by (rule sort_key_mset)
  then have "mset (map ?g (sorted_pairs kvs)) = mset (map ?g kvs)" unfolding same .
  from arg_cong [OF this, of sum_mset] have "sum_list (map ?g (sorted_pairs kvs)) = sum_list (map ?g kvs)"
    unfolding sum_mset_sum_list .
  then show ?case unfolding jsort_JObj json_size.simps by simp
qed simp_all

lemma length_record_line: "length (record_line v) \<le> 2 * json_size v + 1"
proof -
  have "length (utf8_encode s) \<le> 2 * length s" for s
    by (induction s) (simp_all add: utf8_encode_def utf8_char_def)
  from this [of "jprint True (jsort v)"] length_jprint [of True "jsort v"] show ?thesis
    by (simp add: record_line_def json_dumps_def json_size_jsort)
qed

lemma mx_sizes:
  "json_size (JObj (launch_binding mx_sha ''ab'' ''L'' mx_manager [mx_module])) \<le> 9000"
  "json_size (module_event mx_bound (jsort (component_dict mx_module)) (process_value ''h'' 6 ''pid:6:start_ticks:7'') 1 1 2) \<le> 9000"
proof -
  have ints: "length (int_str 1) \<le> 1" "length (int_str 2) \<le> 1" "length (int_str 5) \<le> 1" "length (int_str 6) \<le> 1" by code_simp+
  have "json_size (component_dict mx_module) \<le> 3000" "json_size mx_manager \<le> 1000" "json_size (process_value ''h'' 6 ''pid:6:start_ticks:7'') \<le> 1000"
    using ints by (simp_all add: component_dict_def mx_module_def process_value_def)
  then show "json_size (JObj (launch_binding mx_sha ''ab'' ''L'' mx_manager [mx_module])) \<le> 9000"
    "json_size (module_event mx_bound (jsort (component_dict mx_module)) (process_value ''h'' 6 ''pid:6:start_ticks:7'') 1 1 2) \<le> 9000"
    using ints by (simp_all add: launch_binding_def Let_def launch_schema_def module_schema_def module_event_def bound_sel json_size_jsort
      evidence_digest_def mx_sha_def del: jsort.simps)
qed

lemma mx_bytes:
  "journal_bytes mx_launched = record_line (JObj (launch_binding mx_sha ''ab'' ''L'' mx_manager [mx_module]))"
  "length (journal_bytes mx_launched) \<le> max_read_bytes" "length (journal_bytes mx_emitted) \<le> max_read_bytes"
proof -
  have "journal_bytes mx_world = []" by (simp add: mx_world_def journal_bytes_def)
  then show b: "journal_bytes mx_launched = record_line (JObj (launch_binding mx_sha ''ab'' ''L'' mx_manager [mx_module]))"
    by (simp add: mx_launched_def)
  show "length (journal_bytes mx_launched) \<le> max_read_bytes" unfolding b using mx_sizes(1) length_record_line [of "JObj (launch_binding mx_sha ''ab'' ''L'' mx_manager [mx_module])"] by (simp add: max_read_bytes_def)
  have "journal_bytes mx_emitted = journal_bytes mx_launched
      @ record_line (module_event mx_bound (jsort (component_dict mx_module)) (process_value ''h'' 6 ''pid:6:start_ticks:7'') 1 1 2)"
    unfolding mx_emitted_def after_record_sel journal_bytes_environ ..
  then show "length (journal_bytes mx_emitted) \<le> max_read_bytes" unfolding b
    using mx_sizes length_record_line [of "JObj (launch_binding mx_sha ''ab'' ''L'' mx_manager [mx_module])"]
      length_record_line [of "module_event mx_bound (jsort (component_dict mx_module)) (process_value ''h'' 6 ''pid:6:start_ticks:7'') 1 1 2"]
    by (simp add: max_read_bytes_def del: jsort.simps json_size.simps)
qed

lemma mx_holds: "journal_holds mx_world []" "journal_holds mx_launched [mx_bound]"
proof -
  show w: "journal_holds mx_world []" by (simp add: journal_holds_def mx_world_def journal_bytes_def)
  have "records_of [record_line (JObj (launch_binding mx_sha ''ab'' ''L'' mx_manager [mx_module]))] = Inr [mx_bound]"
    unfolding bound_def by (rule records_of_record [OF launch_binding_wf [OF json_wf_process], where s = launch_schema]) (simp_all add: launch_binding_sel)
  from journal_holds_append [OF w this] show "journal_holds mx_launched [mx_bound]" by (simp add: mx_launched_def)
qed

lemma mx_named: "component_named mx_module" "bundle_named ex_a"
  by code_simp+

lemma mx_bound_launch:
  "bound_launch mx_sha (mx_launched\<lparr>ew_environ := mx_environment @ ew_environ mx_launched\<rparr>)
     = (Inr mx_bound, mx_launched\<lparr>ew_environ := mx_environment @ ew_environ mx_launched\<rparr>)"
proof -
  let ?w = "mx_launched\<lparr>ew_environ := mx_environment @ ew_environ mx_launched\<rparr>"
  have "journal_holds ?w [mx_bound]" "length (journal_bytes ?w) \<le> max_read_bytes"
    using mx_holds(2) mx_bytes(2) by (simp_all add: journal_holds_def journal_bytes_def)
  then have records: "module_records ?w = Inr [mx_bound]" by (rule module_records_holds)
  have "process_is_current ?w mx_manager"
    by (simp add: process_is_current_def process_value_def got_def mx_launched_def mx_world_def mx_identities)
  then have valid: "valid_binding mx_sha ?w mx_bound"
    by (rule bound_valid [OF _ jsort_process]) (simp_all add: mx_sha_def mx_named)
  have env: "map_of (ew_environ ?w) ''VLLM_ECPA_EVIDENCE_SINK'' = Some evidence_sink" "map_of (ew_environ ?w) ''VLLM_ECPA_EVIDENCE_STRICT'' = Some ''1''"
    "map_of (ew_environ ?w) ''VLLM_ECPA_PLAN_ID'' = Some ''ab''" "map_of (ew_environ ?w) ''VLLM_ECPA_LAUNCH_ID'' = Some ''L''"
    "map_of (ew_environ ?w) evidence_path_env = Some ''/e''" "map_of (ew_environ ?w) module_binding_env = Some ''ab''"
    by (simp_all add: mx_environment_def evidence_path_env_def module_binding_env_def)
  have "evidence_sink \<noteq> []" by (simp add: evidence_sink_def)
  then have owned: "list_all (\<lambda>name. map_of (ew_environ ?w) name \<noteq> None \<and> map_of (ew_environ ?w) name \<noteq> Some []) owned_evidence_environment"
    by (simp only: owned_evidence_environment_def evidence_environment_def append.simps list.pred_inject env) simp
  have digest: "evidence_digest mx_sha v = ''ab''" for v by (simp add: evidence_digest_def mx_sha_def)
  show ?thesis
    using records valid owned
    unfolding bound_launch_def bind_def gets_def andthen_def require_def ret_def lift_result_def prod.case sum.case env
    by (simp add: digest bound_sel)
qed

lemma mx_emit:
  "emit_list mx_sha [mx_emission] (mx_launched\<lparr>ew_environ := mx_environment @ ew_environ mx_launched\<rparr>) = (Inr (), mx_emitted)"
proof -
  let ?w = "mx_launched\<lparr>ew_environ := mx_environment @ ew_environ mx_launched\<rparr>"
  have candidates: "filter (component_matches ''pkg.sched:S'' ''scheduler'') (json_items (got mx_bound ''components'')) = [jsort (component_dict mx_module)]"
    unfolding bound_sel by (simp add: component_sorted_sel mx_module_def del: jsort.simps)
  have own: "own_process 6 ?w = (Inr (process_value ''h'' 6 ''pid:6:start_ticks:7''), ?w)"
    by (simp add: own_process_def bind_def gets_def ret_def mx_launched_def mx_world_def mx_identities)
  have "''scheduler'' \<in> set (map snd module_roles)" by (simp add: module_roles_def)
  then show ?thesis
    unfolding emit_list.simps emit_one_def mx_emission_def emit_module_effective_def
    by (simp add: bind_def andthen_def require_def ret_def mx_bound_launch candidates own append_record_whole mx_emitted_def Let_def
        del: jsort.simps set_map)
qed

subsection \<open>The journal can stop the reader\<close>

text \<open>
  A line that is JSON but not an object, and an object whose schema is a list or a dict, are not skipped:
  the exceptions they cause are not among those the loops catch.
\<close>

lemma non_object_line_raises:
  "json_loads line = Some v \<Longrightarrow> \<forall>d. v \<noteq> JObj d \<Longrightarrow> bound_events (line # lines) = Inl EvidenceAttributeError"
  by (cases v) auto

lemma unhashable_record_raises:
  "json_loads line = Some (JObj d) \<Longrightarrow> got d ''schema'' = JArr vs \<Longrightarrow> records_of (line # lines) = Inl EvidenceTypeError"
  by (simp add: schema_known_def)

subsection \<open>What live evidence is, read off the world\<close>

text \<open>
  The definitions of this section do not use the checks of the code.  A process value is alive when the
  host is this one and the process table has, under its number, a process that is neither a zombie nor
  dead and that started at the ticks its identity names (the first and the twentieth word after the
  command).
\<close>

definition alive_process :: "evidence_world \<Rightarrow> json \<Rightarrow> bool" where
  "alive_process w p \<longleftrightarrow> (\<exists>d pid raw. p = JObj d \<and> got d ''pid'' = JInt pid \<and> 0 < pid
     \<and> got d ''host'' = JStr (ew_hostname w) \<and> ew_proc_stat w pid = Some raw
     \<and> (let words = split_words [] (after_comm raw) in
          19 < length words \<and> hd words \<noteq> ''Z'' \<and> hd words \<noteq> ''X''
        \<and> got d ''start_identity'' = JStr (''pid:'' @ int_str pid @ '':start_ticks:'' @ words ! 19)))"

text \<open>A launch record that names the extension.\<close>

definition launches :: "string \<Rightarrow> (string \<times> json) list \<Rightarrow> bool" where
  "launches i r \<longleftrightarrow> got r ''schema'' = JStr ''vllm-hust-module-launch/0.1'' \<and>
     (\<exists>vs d. got r ''components'' = JArr vs \<and> JObj d \<in> set vs \<and> got d ''extension_id'' = JStr i)"

text \<open>
  The launch record binds exactly the declared components of the extension: six fields, the digest of the
  other five, a plan and a launch, a Manager that is alive.
\<close>

definition bound_to ::
  "(string \<Rightarrow> string) \<Rightarrow> evidence_world \<Rightarrow> string \<Rightarrow> module_component list \<Rightarrow> (string \<times> json) list \<Rightarrow> bool" where
  "bound_to sha w i cs b \<longleftrightarrow>
     set (map fst b) = {''schema'', ''plan_id'', ''launch_id'', ''manager_process'', ''components'', ''binding_digest''}
   \<and> got b ''binding_digest'' =
       JStr (sha (utf8_encode (json_dumps True (JObj (filter (\<lambda>kv. fst kv \<noteq> ''binding_digest'') b)))))
   \<and> (\<exists>plan launch. plan \<noteq> [] \<and> launch \<noteq> [] \<and> got b ''plan_id'' = JStr plan \<and> got b ''launch_id'' = JStr launch)
   \<and> alive_process w (got b ''manager_process'')
   \<and> (\<exists>vs. got b ''components'' = JArr vs \<and>
        mset (map jsort (filter (\<lambda>v. \<exists>d. v = JObj d \<and> got d ''extension_id'' = JStr i) vs)) =
          mset (map (\<lambda>c. jsort (component_dict c)) cs))"

text \<open>An event record of the launch about the extension, and one that reports finished work.\<close>

definition event_of_launch :: "string \<Rightarrow> (string \<times> json) list \<Rightarrow> (string \<times> json) list \<Rightarrow> bool" where
  "event_of_launch i b e \<longleftrightarrow> got e ''schema'' = JStr ''vllm-hust-module-evidence/0.1''
     \<and> got e ''binding_digest'' = got b ''binding_digest''
     \<and> (\<exists>d. got e ''component'' = JObj d \<and> got d ''extension_id'' = JStr i)"

definition reports_work ::
  "evidence_world \<Rightarrow> module_component list \<Rightarrow> (string \<times> json) list \<Rightarrow> (string \<times> json) list \<Rightarrow> bool" where
  "reports_work w cs b e \<longleftrightarrow>
     set (map fst e) = {''schema'', ''event'', ''observation_kind'', ''plan_id'', ''launch_id'', ''binding_digest'', ''component'',
       ''process'', ''observed_at_ns'', ''request_count'', ''output_token_count''}
   \<and> got e ''event'' = JStr ''effective'' \<and> got e ''observation_kind'' = JStr ''runtime_effective''
   \<and> got e ''plan_id'' = got b ''plan_id'' \<and> got e ''launch_id'' = got b ''launch_id''
   \<and> (\<exists>c \<in> set cs. jsort (got e ''component'') = jsort (component_dict c))
   \<and> (\<exists>ns requests tokens. got e ''observed_at_ns'' = JInt ns \<and> got e ''request_count'' = JInt requests
        \<and> got e ''output_token_count'' = JInt tokens \<and> 0 < ns \<and> 0 < requests \<and> 0 < tokens)
   \<and> alive_process w (got e ''process'')"

lemma process_is_current_alive: "process_is_current w p \<Longrightarrow> alive_process w p"
  by (auto simp: process_is_current_def alive_process_def start_identity_def Let_def
      split: json.splits option.splits if_splits)

lemma of_extension_iff: "of_extension i v \<longleftrightarrow> (\<exists>d. v = JObj d \<and> got d ''extension_id'' = JStr i)"
  by (auto simp: of_extension_def split: json.splits)

lemma find_Some_split:
  "find P xs = Some x \<Longrightarrow> \<exists>us vs. xs = us @ x # vs \<and> P x \<and> (\<forall>u \<in> set us. \<not> P u)"
proof (induction xs)
  case (Cons y ys)
  show ?case
  proof (cases "P y")
    case True
    with Cons.prems have "y # ys = [] @ x # ys \<and> P x \<and> (\<forall>u \<in> set []. \<not> P u)" by simp
    then show ?thesis by blast
  next
    case False
    with Cons obtain us vs where "ys = us @ x # vs" "P x" "\<forall>u \<in> set us. \<not> P u" by auto
    with False show ?thesis by (intro exI [of _ "y # us"] exI [of _ vs]) simp
  qed
qed simp

lemma launches_iff:
  "got r ''schema'' = JStr launch_schema \<and> list_ex (of_extension i) (json_items (got r ''components'')) \<longleftrightarrow> launches i r"
  by (cases "got r ''components''")
    (auto simp: launches_def launch_schema_def json_items_def list_ex_iff of_extension_iff)

lemma latest_binding_split:
  assumes "latest_binding i records = Some b"
  shows "\<exists>earlier later. records = earlier @ b # later \<and> launches i b \<and> (\<forall>r \<in> set later. \<not> launches i r)"
proof -
  have "find (launches i) (rev records) = Some b"
    using assms unfolding latest_binding_def launches_iff .
  from find_Some_split [OF this] obtain us vs where "rev records = us @ b # vs" and b: "launches i b" "\<forall>u \<in> set us. \<not> launches i u" by blast
  then have "rev (rev records) = rev vs @ b # rev us" by (simp del: rev_rev_ident)
  then have "records = rev vs @ b # rev us" by (simp only: rev_rev_ident)
  with b show ?thesis by (intro exI [of _ "rev vs"] exI [of _ "rev us"]) simp
qed

lemma jsort_obj_cases: "jsort v = jsort (component_dict c) \<Longrightarrow> \<exists>d. v = JObj d"
  by (cases v) (simp_all add: component_dict_def)

lemma component_key_sorted:
  assumes "jsort v = jsort (component_dict c)"
  shows "component_key v = mk_component_id c"
proof -
  from jsort_obj_cases [OF assms] obtain d where v: "v = JObj d" by blast
  have "json_wf v" using assms json_wf_component json_wf_jsort by metis
  then have "got (sorted_pairs d) ''component_id'' = jsort (got d ''component_id'')"
    by (intro got_sorted) (simp add: v)
  moreover have "component_key (JObj (sorted_pairs d)) = mk_component_id c"
    using assms v component_sorted_sel(1) by (simp only: jsort_JObj)
  ultimately have "(case jsort (got d ''component_id'') of JStr s \<Rightarrow> s | _ \<Rightarrow> []) = mk_component_id c"
    by (simp add: component_key_def)
  then show ?thesis
    by (cases "got d ''component_id''") (simp_all add: v component_key_def)
qed

text \<open>The code's checks imply what the definitions above say.\<close>

lemma valid_binding_bound_to:
  assumes "valid_binding sha w b" and "binds_components i b cs"
  shows "bound_to sha w i cs b"
proof -
  from assms(1) obtain plan launch where "got b ''plan_id'' = JStr plan" "plan \<noteq> []" "got b ''launch_id'' = JStr launch" "launch \<noteq> []"
    by (auto simp: valid_binding_def non_empty_str_def split: json.splits)
  moreover from assms(1) obtain vs where vs: "got b ''components'' = JArr vs"
    by (auto simp: valid_binding_def json_items_def split: json.splits)
  moreover have "mset (map jsort (filter (\<lambda>v. \<exists>d. v = JObj d \<and> got d ''extension_id'' = JStr i) vs)) =
          mset (map (\<lambda>c. jsort (component_dict c)) cs)"
    using assms(2) vs by (simp add: binds_components_def json_items_def of_extension_iff [abs_def] del: jsort.simps)
  ultimately show ?thesis
    using assms(1)
    by (auto simp: bound_to_def valid_binding_def keys_are_def binding_fields_def without_def evidence_digest_def
        process_is_current_alive)
qed

lemma live_event_reports_work:
  assumes "live_event w b (filter (of_extension i) (json_items (got b ''components''))) e" and "binds_components i b cs"
  shows "reports_work w cs b e"
proof -
  let ?selected = "filter (of_extension i) (json_items (got b ''components''))"
  from assms(1) obtain v where "v \<in> set ?selected" "jsort (got e ''component'') = jsort v"
    unfolding live_event_def list_ex_iff same_dict_def by blast
  moreover have "set_mset (mset (map jsort ?selected)) = set_mset (mset (map (\<lambda>c. jsort (component_dict c)) cs))"
    using assms(2) unfolding binds_components_def by (rule arg_cong)
  ultimately have "\<exists>c \<in> set cs. jsort (got e ''component'') = jsort (component_dict c)"
    unfolding set_mset_mset set_map image_def by blast
  moreover obtain at_ns requests tokens where "got e ''observed_at_ns'' = JInt at_ns" "got e ''request_count'' = JInt requests"
      "got e ''output_token_count'' = JInt tokens" "0 < at_ns" "0 < requests" "0 < tokens"
    using assms(1) by (auto simp: live_event_def positive_int_def split: json.splits)
  ultimately show ?thesis
    using assms(1)
    by (auto simp: reports_work_def live_event_def keys_are_def module_event_fields_def process_is_current_alive
        simp del: jsort.simps)
qed

lemma about_iff: "about i b e \<longleftrightarrow> event_of_launch i b e"
  by (simp add: about_def event_of_launch_def of_extension_iff module_schema_def)

lemma evidence_holds_means:
  assumes "evidence_holds sha w i cs records b"
  shows "(\<exists>earlier later. records = earlier @ b # later \<and> launches i b \<and> (\<forall>r \<in> set later. \<not> launches i r))
    \<and> bound_to sha w i cs b
    \<and> (\<forall>e \<in> set records. event_of_launch i b e \<longrightarrow> reports_work w cs b e)
    \<and> (\<forall>c \<in> set cs. \<exists>e \<in> set records. event_of_launch i b e \<and>
         (\<exists>c' \<in> set cs. mk_component_id c' = mk_component_id c \<and> jsort (got e ''component'') = jsort (component_dict c')))"
proof -
  let ?live = "live_event w b (filter (of_extension i) (json_items (got b ''components'')))"
  from assms have b: "latest_binding i records = Some b" "valid_binding sha w b" "binds_components i b cs"
    and all: "\<forall>e \<in> set records. event_of_launch i b e \<longrightarrow> ?live e"
    and seen: "\<forall>c \<in> set cs. \<exists>e \<in> set records. event_of_launch i b e \<and> component_key (got e ''component'') = mk_component_id c"
    unfolding evidence_holds_def about_iff list_all_iff list_ex_iff by simp_all
  have live: "reports_work w cs b e" if "e \<in> set records" "event_of_launch i b e" for e
    by (rule live_event_reports_work [OF _ b(3)]) (use all that in blast)
  have "\<exists>e \<in> set records. event_of_launch i b e \<and>
      (\<exists>c' \<in> set cs. mk_component_id c' = mk_component_id c \<and> jsort (got e ''component'') = jsort (component_dict c'))"
    if c: "c \<in> set cs" for c
  proof -
    from seen c obtain e where e: "e \<in> set records" "event_of_launch i b e"
        "component_key (got e ''component'') = mk_component_id c" by blast
    from live [OF e(1,2)] obtain c' where "c' \<in> set cs" "jsort (got e ''component'') = jsort (component_dict c')"
      unfolding reports_work_def by blast
    moreover from this(2) e(3) have "mk_component_id c' = mk_component_id c"
      using component_key_sorted by simp
    ultimately show ?thesis using e(1,2) by blast
  qed
  then show ?thesis
    using latest_binding_split [OF b(1)] valid_binding_bound_to [OF b(2,3)] live by (intro conjI ballI impI)
qed

subsection \<open>The properties\<close>

text \<open>
  C5. Runtime evidence is live and complete.  When the status of a bundle with module components says
  that it is effective at run time, it is enabled, and the last launch record that names it, among those
  read from the last 1 MiB of the journal, has the right digest, a Manager that is alive and exactly the
  components the manifest declares now.  Every event of that launch about the extension reports finished work: it has the fields of an effective event of
  this plan and launch, is about a declared component, counts requests and tokens, and its process is alive,
  in the process table under its number with the start it recorded.  And every declared component has an
  event.  One event of a process that is gone, or of other work, thus means no evidence at all.
\<close>

theorem runtime_effective_sound:
  assumes "status_of sha files w shown provider_of bundle extension = Inr st" and "RUNTIME_EFFECTIVE \<in> set (xs_states st)"
    and "module_components sha files bundle = Inr cs" and "cs \<noteq> []"
  shows "xc_enabled extension \<and> (\<exists>earlier b later. module_records w = Inr (earlier @ b # later)
    \<and> launches (ib_bundle_id bundle) b \<and> (\<forall>r \<in> set later. \<not> launches (ib_bundle_id bundle) r)
    \<and> bound_to sha w (ib_bundle_id bundle) cs b
    \<and> (\<forall>e \<in> set (earlier @ b # later). event_of_launch (ib_bundle_id bundle) b e \<longrightarrow> reports_work w cs b e)
    \<and> (\<forall>c \<in> set cs. \<exists>e \<in> set (earlier @ b # later). event_of_launch (ib_bundle_id bundle) b e \<and>
         (\<exists>c' \<in> set cs. mk_component_id c' = mk_component_id c \<and> jsort (got e ''component'') = jsort (component_dict c'))))"
proof -
  from status_of_effective [OF assms(1,2)] obtain ev where enabled: "xc_enabled extension"
      and "runtime_effective_evidence sha files w bundle = Inr (Some ev)" by blast
  then have "module_effective_evidence sha files w bundle = Inr (Some ev)"
    using assms(3,4) by (simp add: runtime_effective_evidence_def)
  then obtain records b where records: "module_records w = Inr records" "evidence_holds sha w (ib_bundle_id bundle) cs records b"
    using assms(3) by (rule module_evidence_Some)
  from evidence_holds_means [OF records(2)] enabled records(1) show ?thesis by blast
qed

text \<open>
  C25. A launch is observed.  Let the Manager bind a launch for bundles with distinct ids and non-empty
  names, and let the processes of the launch then emit, all with positive numbers and at positive times, for
  every declared module of one of the bundles, which has modules and distinct component ids.  If the journal
  before was complete (no partial last line, every line readable), the journal after is within the read limit of
  1 MiB, the digest of the new binding is that of no earlier record, and nothing else is appended, the reader
  returns the evidence of that launch, with all components of the bundle.  The processes live, since the process
  table is that of the launch; digests and launch ids are not empty.
\<close>

theorem launched_evidence_returned:
  assumes "launch_environment sha files pid launch path AppendWhole None bundles w = (Inr environment, w1)" and "0 < pid"
    and "emit_list sha xs (w1\<lparr>ew_environ := environment @ ew_environ w1\<rparr>) = (Inr (), w2)"
    and "journal_holds w records" and "length (journal_bytes w2) \<le> max_read_bytes"
    and "distinct (map ib_bundle_id bundles)" and "list_all bundle_named bundles" and "bundle \<in> set bundles"
    and "module_components sha files bundle = Inr cs" and "cs \<noteq> []" and "distinct (map mk_component_id cs)"
    and "\<forall>raw. sha raw \<noteq> []" and "launch \<noteq> []"
    and "list_all (\<lambda>r. Some (got r ''binding_digest'') \<noteq> map_option JStr (map_of environment module_binding_env)) records"
    and "list_all (\<lambda>x. 0 < em_pid x \<and> 0 < em_observed_at x) xs"
    and "list_all (\<lambda>c. list_ex (\<lambda>x. em_reference x = mk_implementation_ref c \<and> em_role x = mk_role c) xs) cs"
  shows "\<exists>pids. runtime_effective_evidence sha files w2 bundle = Inr (Some (ModuleEvidence launch (length cs) pids))"
  by (rule launched_evidence [OF assms])

theorem launched_evidence_returned_witness:
  "\<exists>pids. runtime_effective_evidence mx_sha ex_files mx_emitted ex_a = Inr (Some (ModuleEvidence ''L'' (length [mx_module]) pids))"
  by (rule launched_evidence_returned [OF mx_launch _ mx_emit mx_holds(1) mx_bytes(3) _ _ _ mx_components])
    (simp_all add: mx_named mx_sha_def mx_emission_def mx_module_def)

lemma mx_effective: "\<exists>pids. runtime_effective_evidence mx_sha ex_files mx_emitted ex_a = Inr (Some (ModuleEvidence ''L'' (length [mx_module]) pids))"
  by (rule launched_evidence [OF mx_launch _ mx_emit mx_holds(1) mx_bytes(3) _ _ _ mx_components])
    (simp_all add: mx_named mx_sha_def mx_emission_def mx_module_def)

definition mx_check :: provider_check where
  "mx_check = \<lparr>pc_compatible = Some True, pc_configured = True, pc_reachable = None, pc_healthy = None, pc_degraded = False, pc_evidence = []\<rparr>"

definition mx_provider :: host_provider where
  "mx_provider = \<lparr>hp_name = ''vllm'', hp_supports = (\<lambda>_. True), hp_plan = (\<lambda>_ _ _. Inl ExtTypeError), hp_check = (\<lambda>_ _. Inr mx_check)\<rparr>"

definition mx_extension :: ext_config where
  "mx_extension = \<lparr>xc_enabled = True, xc_configuration = []\<rparr>"

lemma mx_status:
  "\<exists>st. status_of mx_sha ex_files mx_emitted (\<lambda>_. []) (\<lambda>_. Inr mx_provider) ex_a mx_extension = Inr st \<and> RUNTIME_EFFECTIVE \<in> set (xs_states st)"
proof -
  obtain pids where evidence: "runtime_effective_evidence mx_sha ex_files mx_emitted ex_a = Inr (Some (ModuleEvidence ''L'' (length [mx_module]) pids))"
    using mx_effective by blast
  have blocker: "bundle_blocker (ib_manifest ex_a) = Inr None" by code_simp
  have enabled: "xc_enabled mx_extension" by (simp add: mx_extension_def)
  have check: "checked (\<lambda>_. Inr mx_provider) ex_a mx_extension = Inr (mx_provider, mx_check)"
    by (simp add: checked_def Let_def mx_provider_def)
  show ?thesis
    by (simp add: status_of_def Let_def check blocker enabled evidence status_for_def check_states_def mx_check_def)
qed

theorem runtime_effective_sound_witness:
  "\<exists>st. status_of mx_sha ex_files mx_emitted (\<lambda>_. []) (\<lambda>_. Inr mx_provider) ex_a mx_extension = Inr st
     \<and> xc_enabled mx_extension \<and> (\<exists>earlier b later. module_records mx_emitted = Inr (earlier @ b # later)
     \<and> (\<exists>e \<in> set (earlier @ b # later). event_of_launch (ib_bundle_id ex_a) b e \<and> reports_work mx_emitted [mx_module] b e))"
proof -
  obtain st where st: "status_of mx_sha ex_files mx_emitted (\<lambda>_. []) (\<lambda>_. Inr mx_provider) ex_a mx_extension = Inr st"
    "RUNTIME_EFFECTIVE \<in> set (xs_states st)" using mx_status by blast
  from runtime_effective_sound [OF st mx_components] st(1) show ?thesis by fastforce
qed

end
