(* ===== verification/Semantic_Launch.thy ===== *)
theory Semantic_Launch
  imports Semantic_Obligations Bundle_Discovery
begin

section \<open>Semantic launches (\<^verbatim>\<open>semantic_runtime_binding.py\<close>)\<close>

text \<open>
  Before a semantic launch the Manager recomputes everything the launch specification names: the identities of the
  installed distributions from their actual bytes, the contracts, the execution plan and its binding.  The world
  is the record \<open>launch_view\<close>: the private files (\<open>path_view\<close> of \<open>Plan_Artifact\<close>), the installed
  distributions with the files they list, and the manifests; it does not change during a call.  Texts
  of errors are left out; exceptions of the plan artifacts, the contract compiler and the semantic
  compiler pass through.
\<close>

subsection \<open>Private artifacts\<close>

datatype launch_exn = LaunchValueError | LaunchTypeError | LaunchOSError | LaunchAttributeError | LaunchNotFound
  | LaunchSemantic semantic_exn

text \<open>A file a distribution lists: a regular file, not a symbolic link; its bytes; whether it is the manifest of the bundle.\<close>

record payload_file =
  py_relative :: string
  py_regular :: bool
  py_content :: "string option"
  py_manifest :: bool

record installed_distribution =
  dn_name :: string
  dn_version :: string
  dn_direct_url :: "string option"
  dn_files :: "payload_file list"

record launch_view =
  lv_euid :: int
  lv_paths :: "string \<Rightarrow> path_view"
  lv_distribution :: "string \<Rightarrow> installed_distribution option"
  lv_manifest :: "string \<Rightarrow> string option"

definition launch_spec_schema :: string where
  "launch_spec_schema = ''ecpa-native-semantic-launch-spec/v1''"

definition launch_spec_fields :: "string list" where
  "launch_spec_fields = [''schema'', ''base_plan'', ''plan'', ''binding'', ''contracts'', ''plugin_map'', ''enabled_bundles'',
     ''execution_plan_id'', ''native_plan_id'', ''controller_instance'', ''candidate_generation'', ''membership_epoch'']"

definition context_env :: "string list" where
  "context_env = [''ECPA_SEMANTIC_LAUNCH_SPEC'', ''ECPA_SEMANTIC_EXECUTION_PLAN_ID'', ''ECPA_SEMANTIC_CONTROLLER_INSTANCE'',
     ''ECPA_SEMANTIC_CANDIDATE_GENERATION'', ''ECPA_SEMANTIC_MEMBERSHIP_EPOCH'']"

definition launch_from :: "('e \<Rightarrow> semantic_exn) \<Rightarrow> 'e + 'a \<Rightarrow> launch_exn + 'a" where
  "launch_from f r = (case r of Inl e \<Rightarrow> Inl (LaunchSemantic (f e)) | Inr x \<Rightarrow> Inr x)"

text \<open>\<open>json.loads(raw, object_pairs_hook=_unique)\<close>\<close>

definition launch_unique :: "(string \<times> json) list \<Rightarrow> launch_exn + json" where
  "launch_unique pairs = (if has_duplicates (map fst pairs) then Inl LaunchValueError else Inr (JObj pairs))"

definition loads_launch :: "string \<Rightarrow> launch_exn + json" where
  "loads_launch raw = (case utf8_decode raw of
     None \<Rightarrow> Inl LaunchValueError
   | Some s \<Rightarrow> loads_text LaunchValueError launch_unique s)"

definition private_bytes :: "launch_view \<Rightarrow> string \<Rightarrow> launch_exn + string" where
  "private_bytes v path =
     (let p = lv_paths v path in
      ebind (check (pv_absolute p \<and> pv_resolved p = Some path \<and> \<not> pv_symlink p) LaunchValueError) (\<lambda>_.
      ebind (demand LaunchOSError (pv_open p)) (\<lambda>f.
      ebind (check (s_isreg (of_mode f) \<and> of_uid f = lv_euid v \<and> s_imode (of_mode f) AND 63 = 0) LaunchValueError) (\<lambda>_.
      Inr (of_bytes f)))))"

definition reference_dict :: "string \<Rightarrow> string \<Rightarrow> json" where
  "reference_dict path digest = JObj [(''path'', JStr path), (''sha256'', JStr digest)]"

definition artifact_reference :: "(string \<Rightarrow> string) \<Rightarrow> launch_view \<Rightarrow> string \<Rightarrow> launch_exn + json" where
  "artifact_reference sha v path = ebind (private_bytes v path) (\<lambda>raw. Inr (reference_dict path (sha raw)))"

definition referenced :: "(string \<Rightarrow> string) \<Rightarrow> launch_view \<Rightarrow> json \<Rightarrow> launch_exn + string" where
  "referenced sha v value = (case value of
     JObj d \<Rightarrow>
       ebind (check (set (map fst d) = {''path'', ''sha256''}) LaunchValueError) (\<lambda>_.
       case map_of d ''path'' of
         Some (JStr path) \<Rightarrow> ebind (private_bytes v path) (\<lambda>raw.
           ebind (check (map_of d ''sha256'' = Some (JStr (sha raw))) LaunchValueError) (\<lambda>_. Inr raw))
       | _ \<Rightarrow> Inl LaunchTypeError)
   | _ \<Rightarrow> Inl LaunchValueError)"

subsection \<open>Installed payloads\<close>

record bundle_snapshot =
  sn_bundle_id :: string
  sn_distribution_name :: string
  sn_distribution_version :: string
  sn_manifest_sha256 :: string
  sn_files :: "(string \<times> string \<times> nat) list"

definition snapshot_dict :: "bundle_snapshot \<Rightarrow> json" where
  "snapshot_dict s = JObj [(''bundle_id'', JStr (sn_bundle_id s)), (''distribution_name'', JStr (sn_distribution_name s)),
     (''distribution_version'', JStr (sn_distribution_version s)), (''manifest_sha256'', JStr (sn_manifest_sha256 s)),
     (''files'', JArr (map (\<lambda>(path, digest, size).
        JObj [(''path'', JStr path), (''sha256'', JStr digest), (''size'', JInt (int size))]) (sn_files s)))]"

text \<open>\<open>json.loads(direct).get("dir_info", {}).get("editable")\<close>\<close>

definition editable_install :: "string option \<Rightarrow> launch_exn + bool" where
  "editable_install direct = (case direct of
     None \<Rightarrow> Inr False
   | Some [] \<Rightarrow> Inr False
   | Some text \<Rightarrow> (case loads_text LaunchValueError (\<lambda>kvs. Inr (JObj (dict_of kvs))) text of
       Inl e \<Rightarrow> Inl e
     | Inr (JObj d) \<Rightarrow> (case get_default ''dir_info'' (JObj []) d of
           JObj info \<Rightarrow> Inr (py_bool (get_or_null ''editable'' info))
         | _ \<Rightarrow> Inl LaunchAttributeError)
     | Inr _ \<Rightarrow> Inl LaunchAttributeError))"

definition path_parts :: "string \<Rightarrow> string list" where
  "path_parts path = filter (\<lambda>part. part \<noteq> [] \<and> part \<noteq> ''.'') (split_on CHR ''/'' path)"

definition path_name :: "string \<Rightarrow> string" where
  "path_name path = (case rev (path_parts path) of [] \<Rightarrow> [] | name # _ \<Rightarrow> name)"

text \<open>Bytecode, caches, console wrappers outside the tree and mutable receipts are no payload.\<close>

definition outside_payload :: "string \<Rightarrow> bool" where
  "outside_payload relative \<longleftrightarrow>
     ''..'' \<in> set (path_parts relative) \<or> ''__pycache__'' \<in> set (path_parts relative)
   \<or> suffix ''.pyc'' relative \<or> suffix ''.pyo'' relative
   \<or> list_ex (suffix ''.dist-info'') (path_parts relative)
       \<and> path_name relative \<in> {''RECORD'', ''INSTALLER'', ''direct_url.json'', ''REQUESTED''}"

definition payload_row :: "(string \<Rightarrow> string) \<Rightarrow> payload_file \<Rightarrow> launch_exn + (string \<times> string \<times> nat) \<times> bool" where
  "payload_row sha f =
     ebind (check (py_regular f) LaunchValueError) (\<lambda>_.
     ebind (demand LaunchOSError (py_content f)) (\<lambda>raw.
     Inr ((py_relative f, sha raw, length raw), py_manifest f)))"

definition installed_bundle_snapshot ::
  "(string \<Rightarrow> string) \<Rightarrow> launch_view \<Rightarrow> installed_bundle \<Rightarrow> launch_exn + bundle_snapshot" where
  "installed_bundle_snapshot sha v bundle =
     ebind (demand LaunchNotFound (lv_distribution v (ib_distribution_name bundle))) (\<lambda>dist.
     ebind (check (dn_name dist = ib_distribution_name bundle \<and> dn_version dist = ib_distribution_version bundle) LaunchValueError) (\<lambda>_.
     ebind (editable_install (dn_direct_url dist)) (\<lambda>editable.
     ebind (check (\<not> editable) LaunchValueError) (\<lambda>_.
     ebind (demand LaunchOSError (lv_manifest v (ib_manifest_path bundle))) (\<lambda>raw_manifest.
     ebind (emap (payload_row sha) (filter (\<lambda>f. \<not> outside_payload (py_relative f)) (dn_files dist))) (\<lambda>found.
     let rows = sort_key fst (map fst found) in
     ebind (check (rows \<noteq> [] \<and> \<not> has_duplicates (map fst rows) \<and> list_ex snd found) LaunchValueError) (\<lambda>_.
     Inr \<lparr>sn_bundle_id = ib_bundle_id bundle, sn_distribution_name = dn_name dist, sn_distribution_version = dn_version dist,
          sn_manifest_sha256 = sha raw_manifest, sn_files = rows\<rparr>)))))))"

text \<open>\<open>s.rpartition(".")\<close>, \<open>None\<close> without a separator, and \<open>s.rsplit(":", 1)[-1]\<close>.\<close>

definition rpartition_dot :: "string \<Rightarrow> (string \<times> string) option" where
  "rpartition_dot s = (case dropWhile (\<lambda>c. c \<noteq> CHR ''.'') (rev s) of
     [] \<Rightarrow> None
   | _ # r \<Rightarrow> Some (rev r, rev (takeWhile (\<lambda>c. c \<noteq> CHR ''.'') (rev s))))"

definition after_colon :: "string \<Rightarrow> string" where
  "after_colon s = rev (takeWhile (\<lambda>c. c \<noteq> CHR '':'') (rev s))"

definition plugin_identity_from_snapshot :: "(string \<Rightarrow> string) \<Rightarrow> bundle_snapshot \<Rightarrow> launch_exn + plugin_identity" where
  "plugin_identity_from_snapshot sha s = (case rpartition_dot (sn_bundle_id s) of
     None \<Rightarrow> Inl LaunchValueError
   | Some (namespace, name) \<Rightarrow> Inr \<lparr>pi_namespace = namespace, pi_name = name, pi_version = sn_distribution_version s,
        pi_artifact_sha256 = sha (canonical_bytes (snapshot_dict s))\<rparr>)"

definition installed_plugin_identities ::
  "(string \<Rightarrow> string) \<Rightarrow> launch_view \<Rightarrow> installed_bundle list \<Rightarrow> launch_exn + plugin_identity list \<times> bundle_snapshot list" where
  "installed_plugin_identities sha v bundles =
     (let ordered = sort_key ib_bundle_id bundles in
      ebind (check (ordered \<noteq> [] \<and> \<not> has_duplicates (map ib_bundle_id ordered)) LaunchValueError) (\<lambda>_.
      ebind (emap (installed_bundle_snapshot sha v) ordered) (\<lambda>snapshots.
      ebind (emap (plugin_identity_from_snapshot sha) snapshots) (\<lambda>plugins. Inr (plugins, snapshots)))))"

subsection \<open>The launch specification\<close>

text \<open>
  \<open>plan != expected\<close> compares the rendered inputs of the predecessor as Python compares JSON values; all
  other fields are texts and numbers.
\<close>

definition same_plan :: "plan \<Rightarrow> plan \<Rightarrow> bool" where
  "same_plan p q \<longleftrightarrow> p\<lparr>pl_predecessor := pl_predecessor q\<rparr> = q
     \<and> ps_generation (pl_predecessor p) = ps_generation (pl_predecessor q)
     \<and> ps_plan_id (pl_predecessor p) = ps_plan_id (pl_predecessor q)
     \<and> py_eq (JObj (ps_rendered_inputs (pl_predecessor p))) (JObj (ps_rendered_inputs (pl_predecessor q)))"

text \<open>\<open>actual_mapping.get(key) != value\<close> for the mapping of a launch: a null is equal to a missing key.\<close>

definition actual_mapping :: "(string \<Rightarrow> string) \<Rightarrow> bundle_snapshot list \<Rightarrow> plugin_identity list \<Rightarrow> string \<rightharpoonup> string" where
  "actual_mapping sha snapshots plugins = map_of (zip (map sn_bundle_id snapshots) (map (plugin_id sha) plugins))"

definition mapping_agrees :: "(string \<rightharpoonup> string) \<Rightarrow> (string \<times> json) list \<Rightarrow> bool" where
  "mapping_agrees actual mapping \<longleftrightarrow> mapping \<noteq> [] \<and> list_all (\<lambda>(k, x). case actual k of
     None \<Rightarrow> x = JNull | Some i \<Rightarrow> x = JStr i) mapping"

text \<open>A null that remains is no plugin of the plan: the semantic compiler refuses it with a \<open>ValueError\<close>.\<close>

definition mapping_strings :: "(string \<times> json) list \<Rightarrow> launch_exn + (string \<times> string) list" where
  "mapping_strings mapping = emap (\<lambda>(k, x). case x of JStr i \<Rightarrow> Inr (k, i) | _ \<Rightarrow> Inl LaunchValueError) mapping"

definition launch_object :: "json \<Rightarrow> launch_exn + (string \<times> json) list" where
  "launch_object value = (case value of
     JObj spec \<Rightarrow>
       if keys_are spec launch_spec_fields \<and> get_or_null ''schema'' spec = JStr launch_spec_schema then Inr spec
       else Inl LaunchValueError
   | _ \<Rightarrow> Inl LaunchValueError)"

definition launch_mapping :: "json \<Rightarrow> launch_exn + (string \<times> json) list" where
  "launch_mapping value = (case value of JObj d \<Rightarrow> Inr d | _ \<Rightarrow> Inl LaunchValueError)"

definition launch_list :: "json \<Rightarrow> launch_exn + json list" where
  "launch_list value = (case value of JArr vs \<Rightarrow> if vs = [] then Inl LaunchValueError else Inr vs | _ \<Rightarrow> Inl LaunchValueError)"

definition controller_ok :: "json \<Rightarrow> bool" where
  "controller_ok value = (case value of
     JStr s \<Rightarrow> prefix ''controller:'' s \<and> s \<noteq> ''controller:'' \<and> \<not> list_ex is_space s | _ \<Rightarrow> False)"

definition generation_ok :: "int \<Rightarrow> json \<Rightarrow> bool" where
  "generation_ok least value = (case value of JInt i \<Rightarrow> least \<le> i | _ \<Rightarrow> False)"

text \<open>The identities of the plan and of the launch, the last checks.\<close>

definition launch_identities :: "(string \<Rightarrow> string) \<Rightarrow> (string \<times> json) list \<Rightarrow> plan \<Rightarrow> bool" where
  "launch_identities sha spec p \<longleftrightarrow>
     get_or_null ''execution_plan_id'' spec = JStr (plan_id sha p)
   \<and> get_or_null ''native_plan_id'' spec = JStr (after_colon (plan_id sha p))
   \<and> lower_digest (after_colon (plan_id sha p))
   \<and> controller_ok (get_or_null ''controller_instance'' spec)
   \<and> generation_ok 1 (get_or_null ''candidate_generation'' spec)
   \<and> generation_ok 0 (get_or_null ''membership_epoch'' spec)"

definition launch_contract ::
  "(string \<Rightarrow> string) \<Rightarrow> ('v, 's) pep440 \<Rightarrow> launch_view \<Rightarrow> json \<Rightarrow> launch_exn + extension_contract" where
  "launch_contract sha P v ref =
     ebind (referenced sha v ref) (\<lambda>raw.
     ebind (loads_launch raw) (\<lambda>value. launch_from FromCompiler (parse_contract sha P value)))"

definition validate_semantic_launch_spec ::
  "(string \<Rightarrow> string) \<Rightarrow> ('v, 's) pep440 \<Rightarrow> launch_view \<Rightarrow> string \<Rightarrow> installed_bundle list \<Rightarrow> launch_exn + (string \<times> json) list" where
  "validate_semantic_launch_spec sha P v path bundles =
     ebind (private_bytes v path) (\<lambda>raw.
     ebind (loads_launch raw) (\<lambda>value.
     ebind (launch_object value) (\<lambda>spec.
     ebind (installed_plugin_identities sha v bundles) (\<lambda>(plugins, snapshots).
     ebind (check (py_eq (get_or_null ''enabled_bundles'' spec) (JArr (map snapshot_dict snapshots))) LaunchValueError) (\<lambda>_.
     ebind (referenced sha v (get_or_null ''base_plan'' spec)) (\<lambda>base_raw.
     ebind (launch_from FromArtifact (parse_plan_artifact sha base_raw)) (\<lambda>base.
     ebind (referenced sha v (get_or_null ''plan'' spec)) (\<lambda>plan_raw.
     ebind (launch_from FromArtifact (parse_plan_artifact sha plan_raw)) (\<lambda>p.
     ebind (referenced sha v (get_or_null ''binding'' spec)) (\<lambda>binding_raw.
     ebind (loads_launch binding_raw) (\<lambda>binding.
     ebind (check (set (pl_plugins base) = set plugins \<and> length (pl_plugins base) = length plugins) LaunchValueError) (\<lambda>_.
     ebind (launch_list (get_or_null ''contracts'' spec)) (\<lambda>refs.
     ebind (emap (launch_contract sha P v) refs) (\<lambda>contracts.
     ebind (referenced sha v (get_or_null ''plugin_map'' spec)) (\<lambda>map_raw.
     ebind (loads_launch map_raw) (\<lambda>map_value.
     ebind (launch_mapping map_value) (\<lambda>mapping.
     ebind (check (mapping_agrees (actual_mapping sha snapshots plugins) mapping) LaunchValueError) (\<lambda>_.
     ebind (launch_from FromCompiler (compile_contracts P contracts
              (JStr (hc_runtime (pl_host base))) (JStr (hc_version (pl_host base))) None)) (\<lambda>compiled.
     ebind (mapping_strings mapping) (\<lambda>extension_plugin_ids.
     ebind (launch_from id (compile_native_semantic_plan sha P base compiled extension_plugin_ids [0, 1])) (\<lambda>(expected, expected_binding).
     ebind (check (same_plan p expected \<and> py_eq binding expected_binding) LaunchValueError) (\<lambda>_.
     ebind (check (launch_identities sha spec p) LaunchValueError) (\<lambda>_.
     Inr spec)))))))))))))))))))))))"

text \<open>\<open>semantic_context_environment\<close> and \<open>make_semantic_launch_spec\<close>.\<close>

definition semantic_context_environment ::
  "(string \<times> string) list \<Rightarrow> string \<Rightarrow> (string \<times> json) list \<Rightarrow> launch_exn + (string \<times> string) list" where
  "semantic_context_environment environ spec_path spec =
     ebind (check (list_all (\<lambda>k. k \<notin> set context_env) (map fst environ)) LaunchValueError) (\<lambda>_.
     case (get_or_null ''execution_plan_id'' spec, get_or_null ''controller_instance'' spec,
           get_or_null ''candidate_generation'' spec, get_or_null ''membership_epoch'' spec) of
       (JStr plan, JStr controller, JInt generation, JInt epoch) \<Rightarrow>
         Inr [(''ECPA_SEMANTIC_LAUNCH_SPEC'', spec_path), (''ECPA_SEMANTIC_EXECUTION_PLAN_ID'', plan),
              (''ECPA_SEMANTIC_CONTROLLER_INSTANCE'', controller), (''ECPA_SEMANTIC_CANDIDATE_GENERATION'', int_str generation),
              (''ECPA_SEMANTIC_MEMBERSHIP_EPOCH'', int_str epoch)]
     | _ \<Rightarrow> Inl LaunchTypeError)"

definition make_semantic_launch_spec ::
  "(string \<Rightarrow> string) \<Rightarrow> launch_view \<Rightarrow> installed_bundle list \<Rightarrow> string \<Rightarrow> string \<Rightarrow> string \<Rightarrow> string list \<Rightarrow> string \<Rightarrow>
   string \<Rightarrow> int \<Rightarrow> int \<Rightarrow> launch_exn + (string \<times> json) list" where
  "make_semantic_launch_spec sha v bundles base_plan_path plan_path binding_path contract_paths plugin_map_path
     controller_instance candidate_generation membership_epoch =
     ebind (installed_plugin_identities sha v bundles) (\<lambda>(_, snapshots).
     ebind (private_bytes v plan_path) (\<lambda>plan_raw.
     ebind (launch_from FromArtifact (parse_plan_artifact sha plan_raw)) (\<lambda>p.
     ebind (artifact_reference sha v base_plan_path) (\<lambda>base_ref.
     ebind (artifact_reference sha v plan_path) (\<lambda>plan_ref.
     ebind (artifact_reference sha v binding_path) (\<lambda>binding_ref.
     ebind (emap (artifact_reference sha v) contract_paths) (\<lambda>contract_refs.
     ebind (artifact_reference sha v plugin_map_path) (\<lambda>map_ref.
     Inr [(''schema'', JStr launch_spec_schema), (''base_plan'', base_ref), (''plan'', plan_ref), (''binding'', binding_ref),
          (''contracts'', JArr contract_refs), (''plugin_map'', map_ref),
          (''enabled_bundles'', JArr (map snapshot_dict snapshots)), (''execution_plan_id'', JStr (plan_id sha p)),
          (''native_plan_id'', JStr (after_colon (plan_id sha p))), (''controller_instance'', JStr controller_instance),
          (''candidate_generation'', JInt candidate_generation), (''membership_epoch'', JInt membership_epoch)]))))))))"

subsection \<open>What a validated specification is\<close>

lemma launch_from_Inr_iff [simp]: "launch_from f r = Inr x \<longleftrightarrow> r = Inr x"
  by (cases r) (simp_all add: launch_from_def)

text \<open>The identity of an installed distribution, computed from its actual bytes.\<close>

definition installed_as :: "(string \<Rightarrow> string) \<Rightarrow> launch_view \<Rightarrow> installed_bundle \<Rightarrow> plugin_identity \<Rightarrow> bool" where
  "installed_as sha v b q \<longleftrightarrow> (\<exists>s. installed_bundle_snapshot sha v b = Inr s \<and> plugin_identity_from_snapshot sha s = Inr q)"

lemma snapshot_bundle: "installed_bundle_snapshot sha v b = Inr s \<Longrightarrow> sn_bundle_id s = ib_bundle_id b"
  unfolding installed_bundle_snapshot_def ebind_Inr_iff Let_def by (elim exE conjE) auto

lemma installed_identities:
  assumes "installed_plugin_identities sha v bundles = Inr (plugins, snapshots)"
  shows "list_all2 (installed_as sha v) (sort_key ib_bundle_id bundles) plugins"
    and "map sn_bundle_id snapshots = map ib_bundle_id (sort_key ib_bundle_id bundles)"
    and "distinct (map ib_bundle_id (sort_key ib_bundle_id bundles))" and "length plugins = length snapshots"
proof -
  have s: "list_all2 (\<lambda>b s. installed_bundle_snapshot sha v b = Inr s) (sort_key ib_bundle_id bundles) snapshots"
    and q: "list_all2 (\<lambda>s q. plugin_identity_from_snapshot sha s = Inr q) snapshots plugins"
    and "distinct (map ib_bundle_id (sort_key ib_bundle_id bundles))"
    using assms unfolding installed_plugin_identities_def Let_def ebind_Inr_iff emap_Inr_iff by auto
  then show "distinct (map ib_bundle_id (sort_key ib_bundle_id bundles))" by simp
  show "length plugins = length snapshots" using q by (simp add: list_all2_lengthD)
  show "list_all2 (installed_as sha v) (sort_key ib_bundle_id bundles) plugins"
    by (rule list_all2_trans [OF _ s q]) (auto simp: installed_as_def)
  show "map sn_bundle_id snapshots = map ib_bundle_id (sort_key ib_bundle_id bundles)"
    using s by (induction rule: list_all2_induct) (simp_all add: snapshot_bundle)
qed

lemma installed_plugins:
  assumes "installed_plugin_identities sha v bundles = Inr (plugins, snapshots)"
  shows "set plugins = {q. \<exists>b \<in> set bundles. installed_as sha v b q}"
proof
  note all = installed_identities(1) [OF assms]
  show "set plugins \<subseteq> {q. \<exists>b \<in> set bundles. installed_as sha v b q}"
  proof
    fix q assume "q \<in> set plugins"
    with all obtain b where "b \<in> set (sort_key ib_bundle_id bundles)" "installed_as sha v b q"
      by (metis (no_types, lifting) in_set_conv_nth list_all2_conv_all_nth)
    then show "q \<in> {q. \<exists>b \<in> set bundles. installed_as sha v b q}" by auto
  qed
  show "{q. \<exists>b \<in> set bundles. installed_as sha v b q} \<subseteq> set plugins"
  proof
    fix q assume "q \<in> {q. \<exists>b \<in> set bundles. installed_as sha v b q}"
    then obtain b where b: "b \<in> set (sort_key ib_bundle_id bundles)" "installed_as sha v b q" by auto
    with all obtain q' where "q' \<in> set plugins" "installed_as sha v b q'"
      by (metis (no_types, lifting) in_set_conv_nth list_all2_conv_all_nth)
    then show "q \<in> set plugins" using b(2) by (auto simp: installed_as_def)
  qed
qed

text \<open>The mapping names enabled bundles with the identities of what is installed.\<close>

lemma actual_mapping_Some:
  assumes "installed_plugin_identities sha v bundles = Inr (plugins, snapshots)"
  shows "actual_mapping sha snapshots plugins i = Some k \<longleftrightarrow>
    (\<exists>b \<in> set bundles. ib_bundle_id b = i \<and> (\<exists>q. installed_as sha v b q \<and> k = plugin_id sha q))"
proof -
  let ?ordered = "sort_key ib_bundle_id bundles"
  note all = installed_identities [OF assms]
  have len: "length (map ib_bundle_id ?ordered) = length (map (plugin_id sha) plugins)"
    using list_all2_lengthD [OF all(1)] by simp
  have "actual_mapping sha snapshots plugins i = Some k \<longleftrightarrow>
      (\<exists>n < length ?ordered. ib_bundle_id (?ordered ! n) = i \<and> plugin_id sha (plugins ! n) = k)"
    using map_of_zip_nth [OF len all(3)] map_of_zip_is_None [OF len]
    unfolding actual_mapping_def all(2) by (auto simp: map_of_zip_nth in_set_zip dest!: map_of_SomeD) (use len in auto)
  also have "\<dots> \<longleftrightarrow> (\<exists>b \<in> set ?ordered. ib_bundle_id b = i \<and> (\<exists>q. installed_as sha v b q \<and> k = plugin_id sha q))"
  proof -
    have "installed_as sha v (?ordered ! n) q \<longleftrightarrow> q = plugins ! n" if "n < length ?ordered" for n q
      using all(1) that by (auto simp: list_all2_conv_all_nth installed_as_def)
    then show ?thesis unfolding Bex_def in_set_conv_nth by (auto simp del: set_sort)
  qed
  finally show ?thesis by simp
qed

lemma mapping_strings_agree:
  assumes "mapping_strings mapping = Inr ids" and "mapping_agrees actual mapping"
  shows "\<forall>(i, k) \<in> set ids. actual i = Some k"
proof -
  have "actual (fst y) = Some (snd y)" if "y \<in> set ids" for y
  proof -
    from emap_set [OF assms(1) [unfolded mapping_strings_def] that] obtain x where x: "x \<in> set mapping"
        "(case x of (k, x) \<Rightarrow> case x of JStr i \<Rightarrow> Inr (k, i) | _ \<Rightarrow> Inl LaunchValueError) = Inr y" .
    obtain k s where "x = (k, JStr s)" "y = (k, s)" using x(2) by (cases x; cases "snd x") auto
    with x(1) assms(2) show ?thesis by (auto simp: mapping_agrees_def list_all_iff split: option.splits)
  qed
  then show ?thesis by auto
qed

text \<open>The contracts and the plugin map that a specification names, read from its files.\<close>

definition names_contracts ::
  "(string \<Rightarrow> string) \<Rightarrow> ('v, 's) pep440 \<Rightarrow> launch_view \<Rightarrow> (string \<times> json) list \<Rightarrow> extension_contract list \<Rightarrow> bool" where
  "names_contracts sha P v spec contracts \<longleftrightarrow> (\<exists>refs. get_or_null ''contracts'' spec = JArr refs \<and> refs \<noteq> []
     \<and> list_all2 (\<lambda>r c. \<exists>raw x. referenced sha v r = Inr raw \<and> loads_launch raw = Inr x \<and> parse_contract sha P x = Inr c)
         refs contracts)"

definition names_mapping ::
  "(string \<Rightarrow> string) \<Rightarrow> launch_view \<Rightarrow> (string \<times> json) list \<Rightarrow> (string \<times> string) list \<Rightarrow> bool" where
  "names_mapping sha v spec mapping \<longleftrightarrow> mapping \<noteq> [] \<and> (\<exists>raw. referenced sha v (get_or_null ''plugin_map'' spec) = Inr raw
     \<and> loads_launch raw = Inr (JObj (map (\<lambda>(i, k). (i, JStr k)) mapping)))"

lemma mapping_strings_map: "mapping_strings d = Inr ids \<Longrightarrow> d = map (\<lambda>(i, k). (i, JStr k)) ids"
  unfolding mapping_strings_def
  by (induction d arbitrary: ids) (auto simp: ebind_Inr_iff split: json.splits)

lemma named_contracts:
  assumes "launch_list (get_or_null ''contracts'' spec) = Inr refs" and "emap (launch_contract sha P v) refs = Inr contracts"
  shows "names_contracts sha P v spec contracts"
proof -
  have "list_all2 (\<lambda>r c. \<exists>raw x. referenced sha v r = Inr raw \<and> loads_launch raw = Inr x \<and> parse_contract sha P x = Inr c) refs contracts"
    using assms(2) unfolding emap_Inr_iff by (rule list_all2_mono) (auto simp: launch_contract_def ebind_Inr_iff)
  with assms(1) show ?thesis
    by (auto simp: names_contracts_def launch_list_def split: json.splits if_splits)
qed

text \<open>The steps of a successful validation.\<close>

lemma validated_steps:
  assumes "validate_semantic_launch_spec sha P v path bundles = Inr spec"
  obtains plugins snapshots base p binding d ids contracts compiled expected expected_binding raw binding_raw where
    "private_bytes v path = Inr raw" "loads_launch raw = Inr (JObj spec)" "keys_are spec launch_spec_fields"
    "get_or_null ''schema'' spec = JStr launch_spec_schema"
    "installed_plugin_identities sha v bundles = Inr (plugins, snapshots)"
    "py_eq (get_or_null ''enabled_bundles'' spec) (JArr (map snapshot_dict snapshots))"
    "referenced sha v (get_or_null ''base_plan'' spec) = Inr (plan_artifact_bytes sha base)" "json_wf (plan_dict base)"
    "referenced sha v (get_or_null ''plan'' spec) = Inr (plan_artifact_bytes sha p)"
    "referenced sha v (get_or_null ''binding'' spec) = Inr binding_raw" "loads_launch binding_raw = Inr binding"
    "set (pl_plugins base) = set plugins" "length (pl_plugins base) = length plugins"
    "names_contracts sha P v spec contracts"
    "names_mapping sha v spec ids"
    "mapping_agrees (actual_mapping sha snapshots plugins) d" "mapping_strings d = Inr ids"
    "compile_contracts P contracts (JStr (hc_runtime (pl_host base))) (JStr (hc_version (pl_host base))) None = Inr compiled"
    "compile_native_semantic_plan sha P base compiled ids [0, 1] = Inr (expected, expected_binding)"
    "same_plan p expected" "py_eq binding expected_binding" "launch_identities sha spec p"
proof -
  from assms obtain raw x spec' where "private_bytes v path = Inr raw" "loads_launch raw = Inr x" "launch_object x = Inr spec'"
    unfolding validate_semantic_launch_spec_def ebind_Inr_iff by (elim exE conjE)
  note first = this
  from assms obtain plugins snapshots base_raw base plan_raw p binding_raw binding refs contracts map_raw x_map d ids compiled
      expected expected_binding where steps: "spec' = spec"
    "installed_plugin_identities sha v bundles = Inr (plugins, snapshots)"
    "py_eq (get_or_null ''enabled_bundles'' spec) (JArr (map snapshot_dict snapshots))"
    "referenced sha v (get_or_null ''base_plan'' spec) = Inr base_raw" "parse_plan_artifact sha base_raw = Inr base"
    "referenced sha v (get_or_null ''plan'' spec) = Inr plan_raw" "parse_plan_artifact sha plan_raw = Inr p"
    "referenced sha v (get_or_null ''binding'' spec) = Inr binding_raw" "loads_launch binding_raw = Inr binding"
    "set (pl_plugins base) = set plugins" "length (pl_plugins base) = length plugins"
    "launch_list (get_or_null ''contracts'' spec) = Inr refs" "emap (launch_contract sha P v) refs = Inr contracts"
    "referenced sha v (get_or_null ''plugin_map'' spec) = Inr map_raw" "loads_launch map_raw = Inr x_map" "launch_mapping x_map = Inr d"
    "mapping_agrees (actual_mapping sha snapshots plugins) d" "mapping_strings d = Inr ids"
    "compile_contracts P contracts (JStr (hc_runtime (pl_host base))) (JStr (hc_version (pl_host base))) None = Inr compiled"
    "compile_native_semantic_plan sha P base compiled ids [0, 1] = Inr (expected, expected_binding)"
    "same_plan p expected" "py_eq binding expected_binding" "launch_identities sha spec p"
    unfolding validate_semantic_launch_spec_def
    by (simp only: first ebind_simps ebind_Inr_iff check_Inr_iff launch_from_Inr_iff id_apply split_paired_Ex prod.case sum.inject) blast
  have "base_raw = plan_artifact_bytes sha base" "json_wf (plan_dict base)" "plan_raw = plan_artifact_bytes sha p"
    using steps(5,7) by (simp_all add: parse_iff)
  moreover have "x = JObj spec" "keys_are spec launch_spec_fields" "get_or_null ''schema'' spec = JStr launch_spec_schema"
    using first(3) steps(1) by (auto simp: launch_object_def split: json.splits if_splits)
  moreover have "x_map = JObj d" using steps(16) by (simp add: launch_mapping_def split: json.splits)
  then have "names_mapping sha v spec ids"
    using steps(14,15,17) mapping_strings_map [OF steps(18)]
    by (auto simp: names_mapping_def mapping_agrees_def)
  moreover note named_contracts [OF steps(12,13)]
  ultimately show ?thesis using steps first(1,2)
    by (intro that [of raw plugins snapshots base p binding_raw binding contracts ids d compiled expected expected_binding]) simp_all
qed

subsection \<open>A specification that was made is valid\<close>

lemma keeps_launch_unique: "keeps_dicts launch_unique"
  by (simp add: keeps_dicts_def launch_unique_def)

lemma loads_launch_written:
  assumes "json_wf v"
  shows "loads_launch (canonical_bytes v) = Inr (jsort v)" "loads_launch (canonical_bytes v @ [CHR 10]) = Inr (jsort v)"
proof -
  let ?t = "jprint False (jsort v)"
  have wf: "json_wf (jsort v)" using assms by simp
  show "loads_launch (canonical_bytes v) = Inr (jsort v)"
    by (simp add: loads_launch_def canonical_bytes_def json_dumps_def loads_text_jprint [OF keeps_launch_unique wf])
  have "no_digit [CHR 10]" by (simp add: no_digit_def is_digit_def code_def)
  then have "pval LaunchValueError launch_unique (Suc (2 * length (?t @ [CHR 10]))) (?t @ [CHR 10]) = Inr (jsort v, [CHR 10])"
    using wf by (intro reads_backD pval_jprint keeps_launch_unique) simp_all
  then have "loads_text LaunchValueError launch_unique (?t @ [CHR 10]) = Inr (jsort v)" unfolding loads_text_def by simp
  then show "loads_launch (canonical_bytes v @ [CHR 10]) = Inr (jsort v)"
    by (simp add: loads_launch_def canonical_bytes_def json_dumps_def utf8_decode_newline)
qed

text \<open>The two readers of the compilers' inputs differ in their errors only.\<close>

definition success :: "'e + 'a \<Rightarrow> 'a option" where
  "success r = (case r of Inl _ \<Rightarrow> None | Inr x \<Rightarrow> Some x)"

lemma success_simps [simp]: "success (Inl e) = None" "success (Inr x) = Some x"
  by (simp_all add: success_def)

lemma success_push [simp]:
  "success (if b then r else r') = (if b then success r else success r')"
  "success (case x of (a, c) \<Rightarrow> g a c) = (case x of (a, c) \<Rightarrow> success (g a c))"
  "success (case xs of [] \<Rightarrow> r | y # ys \<Rightarrow> h y ys) = (case xs of [] \<Rightarrow> success r | y # ys \<Rightarrow> success (h y ys))"
  by (simp_all split: prod.split list.split)

lemma success_ebind: "success (ebind m f) = Option.bind (success m) (\<lambda>x. success (f x))"
  by (cases m) simp_all

lemma success_demand: "success (demand e x) = x"
  by (cases x) simp_all

lemma pval_success:
  fixes hook :: "(string \<times> json) list \<Rightarrow> 'e + json" and hook' :: "(string \<times> json) list \<Rightarrow> 'f + json"
  assumes "\<And>kvs. success (hook kvs) = success (hook' kvs)"
  shows "success (pval e hook f s) = success (pval e' hook' f s)"
    and "success (parr e hook f s) = success (parr e' hook' f s)"
    and "success (pobj e hook f s) = success (pobj e' hook' f s)"
proof (induction f arbitrary: s)
  case (Suc f)
  {
    case 1
    then show ?case by (simp add: success_ebind success_demand Suc assms cong: list.case_cong prod.case_cong if_cong)
  next
    case 2
    then show ?case by (simp add: success_ebind success_demand Suc assms cong: list.case_cong prod.case_cong if_cong)
  next
    case 3
    then show ?case by (simp add: success_ebind success_demand Suc assms cong: list.case_cong prod.case_cong if_cong)
  }
qed simp_all

lemma loads_unique_launch:
  assumes "loads_unique raw = Inr x"
  shows "loads_launch raw = Inr x"
proof -
  have hooks: "success (unique_object kvs) = success (launch_unique kvs)" for kvs
    by (simp add: unique_object_def launch_unique_def)
  have "success (loads_text InputDecodeError unique_object s) = success (loads_text LaunchValueError launch_unique s)" for s
    unfolding loads_text_def by (simp add: success_ebind pval_success(1) [OF hooks, where e = InputDecodeError and e' = LaunchValueError]
      del: pval.simps cong: prod.case_cong if_cong)
  then have "success (loads_unique raw) = success (loads_launch raw)"
    by (simp add: loads_unique_def loads_launch_def split: option.split)
  then show ?thesis using assms by (simp add: success_def split: sum.splits)
qed

lemma reference_read:
  assumes "artifact_reference sha v path = Inr ref"
  shows "jsort ref = ref" "json_wf ref" "\<exists>raw. private_bytes v path = Inr raw \<and> referenced sha v ref = Inr raw"
proof -
  from assms obtain raw where raw: "private_bytes v path = Inr raw" "ref = reference_dict path (sha raw)"
    by (auto simp: artifact_reference_def ebind_Inr_iff)
  then show "jsort ref = ref" "json_wf ref" by (simp_all add: reference_dict_def less_list_code less_eq_list_code)
  show "\<exists>raw. private_bytes v path = Inr raw \<and> referenced sha v ref = Inr raw"
    using raw by (simp add: referenced_def reference_dict_def)
qed

lemma references_read:
  assumes "emap (artifact_reference sha v) paths = Inr refs" and "emap (private_bytes v) paths = Inr files"
  shows "map jsort refs = refs" "list_all json_wf refs" "emap (referenced sha v) refs = Inr files"
proof -
  have "map jsort refs = refs \<and> list_all json_wf refs \<and> emap (referenced sha v) refs = Inr files"
    using assms
  proof (induction paths arbitrary: refs files)
    case (Cons path paths)
    then obtain ref rest raw more where ref: "artifact_reference sha v path = Inr ref" "emap (artifact_reference sha v) paths = Inr rest" "refs = ref # rest"
        and raw: "private_bytes v path = Inr raw" "emap (private_bytes v) paths = Inr more" "files = raw # more"
      by (auto simp: ebind_Inr_iff)
    with Cons.IH [OF ref(2) raw(2)] reference_read [OF ref(1)] show ?case by auto
  qed simp
  then show "map jsort refs = refs" "list_all json_wf refs" "emap (referenced sha v) refs = Inr files" by simp_all
qed

lemma json_wf_snapshot: "json_wf (snapshot_dict s)"
  by (auto simp: snapshot_dict_def list_all_iff)

lemma launch_contracts_read:
  assumes "emap (referenced sha v) refs = Inr files"
    and "emap (\<lambda>raw. ebind (loads_unique raw) (\<lambda>x. from_error FromCompiler (parse_contract sha P x))) files = Inr contracts"
  shows "emap (launch_contract sha P v) refs = Inr contracts"
  using assms
proof (induction refs arbitrary: files contracts)
  case (Cons ref refs)
  then obtain raw more x c cs where "referenced sha v ref = Inr raw" "emap (referenced sha v) refs = Inr more" "files = raw # more"
      "loads_unique raw = Inr x" "parse_contract sha P x = Inr c"
      "emap (\<lambda>raw. ebind (loads_unique raw) (\<lambda>x. from_error FromCompiler (parse_contract sha P x))) more = Inr cs" "contracts = c # cs"
    by (auto simp: ebind_Inr_iff from_error_Inr_iff)
  then show ?case using Cons.IH [of more cs] loads_unique_launch [of raw x]
    by (simp add: launch_contract_def launch_from_def)
qed simp

lemma plugin_map_read:
  assumes "plugin_map x = Inr mapping"
  obtains d where "x = JObj d" "mapping_strings d = Inr mapping" "map fst d = map fst mapping" "list_all2 (\<lambda>(k, x) (k', i). k = k' \<and> x = JStr i) d mapping"
proof -
  from assms obtain d where d: "x = JObj d" by (cases x) (simp_all add: plugin_map_def Let_def)
  have "list_all2 (\<lambda>(k, x) (k', i). k = k' \<and> x = JStr i) d mapping"
    using assms unfolding d plugin_map_def Let_def json.case emap_Inr_iff
    by (rule list_all2_mono) (auto split: json.splits)
  moreover from this have "mapping_strings d = Inr mapping"
    unfolding mapping_strings_def emap_Inr_iff by (rule list_all2_mono) auto
  moreover have "map fst d = map fst mapping"
    using calculation(1) by (induction rule: list_all2_induct) auto
  ultimately show ?thesis using d by (intro that)
qed

lemma plan_id_suffix:
  assumes "\<forall>raw. lower_digest (sha raw)"
  shows "lower_digest (after_colon (plan_id sha p))"
proof -
  let ?h = "sha (canonical_bytes (plan_dict p))"
  have h: "lower_digest ?h" using assms by blast
  have "CHR '':'' \<notin> set ''0123456789abcdef''" by simp
  then have "\<forall>c \<in> set (rev ?h). c \<noteq> CHR '':''" using h unfolding lower_digest_def list_all_iff by fastforce
  then have "takeWhile (\<lambda>c. c \<noteq> CHR '':'') (rev ?h @ CHR '':'' # r) = rev ?h" for r
    by (subst takeWhile_append2) auto
  moreover have "rev (plan_id sha p) = rev ?h @ CHR '':'' # rev ''plan:sha256''" by (simp add: plan_id_def content_id_def)
  ultimately have "after_colon (plan_id sha p) = ?h" unfolding after_colon_def by simp
  with h show ?thesis by simp
qed

lemma semantic_binding_wf:
  assumes "semantic_binding sha base compiled mapping ordinals b = Inr n"
  shows "json_wf (snd n)"
proof -
  have dict: "json_wf (obligation_binding_dict b)" by (simp add: obligation_binding_dict_def jopt_int_def split: option.split)
  from assms obtain contract plugin where "snd n = JObj (semantic_material sha base compiled b contract plugin ordinals
      @ [(''obligation_id'', JStr (content_id sha ''semantic-obligation''
            (JObj (semantic_material sha base compiled b contract plugin ordinals))))])"
    unfolding semantic_binding_def ebind_Inr_iff Let_def sum.inject by (elim exE conjE) (hypsubst, unfold snd_conv, blast)
  then show ?thesis using dict by (simp add: semantic_material_def list_all_iff)
qed

lemma compiled_binding:
  assumes "compile_native_semantic_plan sha P base compiled mapping ordinals = Inr (p, binding)"
  shows "json_wf binding" and "fst ` set mapping \<noteq> {}" and "pl_predecessor p = pl_predecessor base"
proof -
  from assms obtain new where new: "emap (semantic_binding sha base compiled mapping ordinals)
       (filter (\<lambda>b. bo_event b = semantic_event) (cl_obligation_bindings compiled)) = Inr new"
    "filter (\<lambda>b. bo_event b = semantic_event) (cl_obligation_bindings compiled) \<noteq> []"
    "set (map fst mapping) = set (map bo_extension_id (filter (\<lambda>b. bo_event b = semantic_event) (cl_obligation_bindings compiled)))"
    "p = base\<lparr>pl_obligations := pl_obligations base @ map fst new\<rparr>"
    "\<exists>fields. binding = JObj (fields @ [(''bindings'', JArr (map snd new)), (''scope'', JStr semantic_scope), (''formal_producer_registration'', JBool False)])
       \<and> list_all (\<lambda>kv. json_wf (snd kv)) fields \<and> distinct (map fst (fields @ [(''bindings'', JNull), (''scope'', JNull), (''formal_producer_registration'', JNull)]))"
    unfolding compile_native_semantic_plan_def ebind_Inr_iff check_Inr_iff Let_def sum.inject prod.inject
    by (elim exE conjE) fastforce
  have "list_all json_wf (map snd new)"
    unfolding list_all_iff using emap_all [OF new(1), of "\<lambda>n. json_wf (snd n)"] semantic_binding_wf by auto
  then show "json_wf binding" using new(5) by auto
  show "fst ` set mapping \<noteq> {}" using new(2,3) by (metis image_is_empty list.set_map set_empty)
  show "pl_predecessor p = pl_predecessor base" unfolding new(4) by simp
qed

definition made_fields ::
  "json \<Rightarrow> json \<Rightarrow> json \<Rightarrow> json list \<Rightarrow> json \<Rightarrow> bundle_snapshot list \<Rightarrow> string \<Rightarrow> string \<Rightarrow> string \<Rightarrow> int \<Rightarrow> int \<Rightarrow> (string \<times> json) list" where
  "made_fields base_ref plan_ref binding_ref contract_refs map_ref snapshots plan native controller generation epoch =
     [(''schema'', JStr launch_spec_schema), (''base_plan'', base_ref), (''plan'', plan_ref), (''binding'', binding_ref),
      (''contracts'', JArr contract_refs), (''plugin_map'', map_ref),
      (''enabled_bundles'', JArr (map snapshot_dict snapshots)), (''execution_plan_id'', JStr plan),
      (''native_plan_id'', JStr native), (''controller_instance'', JStr controller),
      (''candidate_generation'', JInt generation), (''membership_epoch'', JInt epoch)]"

lemma get_sorted: "distinct (map fst d) \<Longrightarrow> get_or_null k (sorted_pairs d) = jsort (get_or_null k d)"
  by (simp add: get_or_null_def map_of_sorted_pairs split: option.splits)

lemma made_object:
  assumes "spec = made_fields base_ref plan_ref binding_ref contract_refs map_ref snapshots plan native controller generation epoch"
    and "json_wf base_ref" "json_wf plan_ref" "json_wf binding_ref" "list_all json_wf contract_refs" "json_wf map_ref"
  shows "json_wf (JObj spec)" and "launch_object (JObj (sorted_pairs spec)) = Inr (sorted_pairs spec)"
    and "\<And>k. get_or_null k (sorted_pairs spec) = jsort (get_or_null k spec)"
proof -
  have keys: "map fst spec = launch_spec_fields" by (simp add: assms(1) made_fields_def launch_spec_fields_def)
  then have d: "distinct (map fst spec)" by (simp add: launch_spec_fields_def)
  show get: "get_or_null k (sorted_pairs spec) = jsort (get_or_null k spec)" for k by (rule get_sorted [OF d])
  have "list_all (\<lambda>kv. json_wf (snd kv)) spec"
    using assms by (simp add: made_fields_def list_all_iff json_wf_snapshot)
  then show "json_wf (JObj spec)" using d by simp
  have "keys_are (sorted_pairs spec) launch_spec_fields" by (metis keys keys_are_def keys_sorted_pairs list.set_map)
  moreover have "get_or_null ''schema'' (sorted_pairs spec) = JStr launch_spec_schema"
    unfolding get by (simp add: assms(1) made_fields_def get_or_null_def)
  ultimately show "launch_object (JObj (sorted_pairs spec)) = Inr (sorted_pairs spec)" by (simp add: launch_object_def)
qed

lemma made_gets:
  assumes "spec = made_fields base_ref plan_ref binding_ref contract_refs map_ref snapshots plan native controller generation epoch"
  shows "get_or_null ''base_plan'' spec = base_ref" "get_or_null ''plan'' spec = plan_ref" "get_or_null ''binding'' spec = binding_ref"
    "get_or_null ''contracts'' spec = JArr contract_refs" "get_or_null ''plugin_map'' spec = map_ref"
    "get_or_null ''enabled_bundles'' spec = JArr (map snapshot_dict snapshots)" "get_or_null ''execution_plan_id'' spec = JStr plan"
    "get_or_null ''native_plan_id'' spec = JStr native" "get_or_null ''controller_instance'' spec = JStr controller"
    "get_or_null ''candidate_generation'' spec = JInt generation" "get_or_null ''membership_epoch'' spec = JInt epoch"
  by (simp_all add: assms made_fields_def get_or_null_def)

text \<open>The contracts, the mapping and both plans of a specification whose artifacts were compiled from them.\<close>

lemma compiled_artifacts:
  assumes "compile_artifact_bytes sha P base files map_file = Inr (plan_raw, binding_raw)"
    and "plan_ok sha base" "json_wf (plan_dict base)" "\<forall>raw. lower_digest (sha raw)"
  obtains contracts x mapping compiled p binding where
    "emap (\<lambda>raw. ebind (loads_unique raw) (\<lambda>x. from_error FromCompiler (parse_contract sha P x))) files = Inr contracts"
    "loads_unique map_file = Inr x" "plugin_map x = Inr mapping"
    "compile_contracts P contracts (JStr (hc_runtime (pl_host base))) (JStr (hc_version (pl_host base))) None = Inr compiled"
    "compile_native_semantic_plan sha P base compiled mapping [0, 1] = Inr (p, binding)"
    "parse_plan_artifact sha plan_raw = Inr p" "loads_launch binding_raw = Inr (jsort binding)" "json_wf binding" "mapping \<noteq> []"
proof -
  from assms(1) obtain contracts x mapping compiled p binding where steps:
    "emap (\<lambda>raw. ebind (loads_unique raw) (\<lambda>x. from_error FromCompiler (parse_contract sha P x))) files = Inr contracts"
    "loads_unique map_file = Inr x" "plugin_map x = Inr mapping"
    "compile_contracts P contracts (JStr (hc_runtime (pl_host base))) (JStr (hc_version (pl_host base))) None = Inr compiled"
    "compile_native_semantic_plan sha P base compiled mapping [0, 1] = Inr (p, binding)"
    "plan_raw = plan_artifact_bytes sha p" "binding_raw = canonical_bytes binding @ [CHR 10]"
    unfolding compile_artifact_bytes_def ebind_Inr_iff from_error_Inr_iff split_paired_Ex prod.case sum.inject prod.inject by blast
  note facts = compiled_binding [OF steps(5)]
  have "\<forall>raw. token (sha raw)" using assms(4) lower_digest_token by blast
  with steps(5) assms(3) have "parse_plan_artifact sha (plan_artifact_bytes sha p) = Inr (plan_sorted p)"
    by (rule semantic_plan_steps)
  moreover have "plan_sorted p = p"
    using assms(2) facts(3) by (simp add: plan_sorted_def plan_ok_def predecessor_ok_sorted)
  ultimately have "parse_plan_artifact sha plan_raw = Inr p" by (simp add: steps(6))
  moreover have "loads_launch binding_raw = Inr (jsort binding)"
    unfolding steps(7) by (rule loads_launch_written(2) [OF facts(1)])
  moreover have "mapping \<noteq> []" using facts(2) by auto
  ultimately show ?thesis using steps facts(1) by (intro that) 
qed

lemma made_spec:
  assumes "make_semantic_launch_spec sha v bundles bp pp ip cps mp controller generation epoch = Inr spec"
  obtains plugins snapshots plan_raw p base_ref plan_ref binding_ref contract_refs map_ref where
    "installed_plugin_identities sha v bundles = Inr (plugins, snapshots)" "private_bytes v pp = Inr plan_raw"
    "parse_plan_artifact sha plan_raw = Inr p" "artifact_reference sha v bp = Inr base_ref" "artifact_reference sha v pp = Inr plan_ref"
    "artifact_reference sha v ip = Inr binding_ref" "emap (artifact_reference sha v) cps = Inr contract_refs"
    "artifact_reference sha v mp = Inr map_ref"
    "spec = made_fields base_ref plan_ref binding_ref contract_refs map_ref snapshots (plan_id sha p) (after_colon (plan_id sha p)) controller generation epoch"
  using assms
  unfolding make_semantic_launch_spec_def ebind_Inr_iff launch_from_Inr_iff split_paired_Ex prod.case sum.inject made_fields_def [symmetric]
  by (elim exE conjE) (rule that, (assumption | erule sym)+)

lemma plan_of_installed:
  assumes "installed_plugin_identities sha v bundles = Inr (plugins, snapshots)"
    and "set (pl_plugins base) = {q. \<exists>b \<in> set bundles. installed_as sha v b q}" and "length (pl_plugins base) = length bundles"
  shows "set (pl_plugins base) = set plugins \<and> length (pl_plugins base) = length plugins"
  using assms installed_plugins [OF assms(1)] list_all2_lengthD [OF installed_identities(1) [OF assms(1)]] by simp

lemma mapping_installed:
  assumes "installed_plugin_identities sha v bundles = Inr (plugins, snapshots)" and "plugin_map x = Inr mapping" and "mapping \<noteq> []"
    and "\<forall>(i, k) \<in> set mapping. \<exists>b \<in> set bundles. ib_bundle_id b = i \<and> (\<exists>q. installed_as sha v b q \<and> k = plugin_id sha q)"
  shows "\<exists>d. x = JObj d \<and> mapping_strings d = Inr mapping \<and> mapping_agrees (actual_mapping sha snapshots plugins) d"
proof -
  from assms(2) obtain d where d: "x = JObj d" "mapping_strings d = Inr mapping" "list_all2 (\<lambda>(k, x) (k', i). k = k' \<and> x = JStr i) d mapping"
    by (rule plugin_map_read)
  have "d \<noteq> []" using d(3) assms(3) by auto
  moreover have "list_all (\<lambda>(k, x). case actual_mapping sha snapshots plugins k of None \<Rightarrow> x = JNull | Some i \<Rightarrow> x = JStr i) d"
    using d(3) assms(4)
  proof (induction rule: list_all2_induct)
    case (Cons y ys z zs)
    obtain k i where "y = (k, JStr i)" "z = (k, i)" using Cons(1) by auto
    moreover from this Cons.prems have "actual_mapping sha snapshots plugins k = Some i"
      unfolding actual_mapping_Some [OF assms(1)] by auto
    ultimately show ?case using Cons by simp
  qed simp
  ultimately show ?thesis using d by (auto simp: mapping_agrees_def)
qed

lemma made_spec_valid:
  assumes made: "make_semantic_launch_spec sha v bundles bp pp ip cps mp controller generation epoch = Inr spec"
    and base: "private_bytes v bp = Inr (plan_artifact_bytes sha base)" "plan_ok sha base" "json_wf (plan_dict base)"
    and inputs: "emap (private_bytes v) cps = Inr files" "cps \<noteq> []" "private_bytes v mp = Inr map_file"
    and compiled: "compile_artifact_bytes sha P base files map_file = Inr (plan_raw, binding_raw)"
    and outputs: "private_bytes v pp = Inr plan_raw" "private_bytes v ip = Inr binding_raw"
    and plugins: "set (pl_plugins base) = {q. \<exists>b \<in> set bundles. installed_as sha v b q}" "length (pl_plugins base) = length bundles"
    and mapping: "ebind (loads_unique map_file) plugin_map = Inr mapping"
      "\<forall>(i, k) \<in> set mapping. \<exists>b \<in> set bundles. ib_bundle_id b = i \<and> (\<exists>q. installed_as sha v b q \<and> k = plugin_id sha q)"
    and launch: "controller_ok (JStr controller)" "1 \<le> generation" "0 \<le> epoch" and digests: "\<forall>raw. lower_digest (sha raw)"
    and written: "private_bytes v path = Inr (canonical_bytes (JObj spec))"
  shows "validate_semantic_launch_spec sha P v path bundles = Inr (sorted_pairs spec)"
proof -
  from made obtain plugins snapshots raw p base_ref plan_ref binding_ref contract_refs map_ref where
    installed: "installed_plugin_identities sha v bundles = Inr (plugins, snapshots)" and "private_bytes v pp = Inr raw" "parse_plan_artifact sha raw = Inr p"
    and refs: "artifact_reference sha v bp = Inr base_ref" "artifact_reference sha v pp = Inr plan_ref"
    "artifact_reference sha v ip = Inr binding_ref" "emap (artifact_reference sha v) cps = Inr contract_refs"
    "artifact_reference sha v mp = Inr map_ref"
    and spec: "spec = made_fields base_ref plan_ref binding_ref contract_refs map_ref snapshots (plan_id sha p) (after_colon (plan_id sha p)) controller generation epoch"
    by (rule made_spec)
  then have p: "parse_plan_artifact sha plan_raw = Inr p" using outputs(1) by simp
  from compiled base(2,3) digests obtain contracts x map_ids contract_plan q binding where parts:
    "emap (\<lambda>raw. ebind (loads_unique raw) (\<lambda>x. from_error FromCompiler (parse_contract sha P x))) files = Inr contracts"
    "loads_unique map_file = Inr x" "plugin_map x = Inr map_ids"
    "compile_contracts P contracts (JStr (hc_runtime (pl_host base))) (JStr (hc_version (pl_host base))) None = Inr contract_plan"
    "compile_native_semantic_plan sha P base contract_plan map_ids [0, 1] = Inr (q, binding)"
    "parse_plan_artifact sha plan_raw = Inr q" "loads_launch binding_raw = Inr (jsort binding)" "json_wf binding" "map_ids \<noteq> []"
    by (rule compiled_artifacts)
  have q: "q = p" using parts(6) p by simp
  have ids: "map_ids = mapping" using mapping(1) parts(2,3) by simp
  obtain d where d: "x = JObj d" "mapping_strings d = Inr map_ids" "mapping_agrees (actual_mapping sha snapshots plugins) d"
    using mapping_installed [OF installed parts(3,9)] mapping(2) unfolding ids by blast
  note read = references_read [OF refs(4) inputs(1)]
  have one: "referenced sha v base_ref = Inr (plan_artifact_bytes sha base)" "referenced sha v plan_ref = Inr plan_raw"
      "referenced sha v binding_ref = Inr binding_raw" "referenced sha v map_ref = Inr map_file"
    using reference_read(3) [OF refs(1)] reference_read(3) [OF refs(2)] reference_read(3) [OF refs(3)] reference_read(3) [OF refs(5)]
      base(1) outputs inputs(3) by auto
  note sorted = reference_read(1) [OF refs(1)] reference_read(1) [OF refs(2)] reference_read(1) [OF refs(3)] reference_read(1) [OF refs(5)]
  note object = made_object [OF spec reference_read(2) [OF refs(1)] reference_read(2) [OF refs(2)] reference_read(2) [OF refs(3)] read(2)
      reference_read(2) [OF refs(5)]]
  note gets = made_gets [OF spec]
  have refs_sorted: "get_or_null ''base_plan'' (sorted_pairs spec) = base_ref" "get_or_null ''plan'' (sorted_pairs spec) = plan_ref"
      "get_or_null ''binding'' (sorted_pairs spec) = binding_ref" "get_or_null ''plugin_map'' (sorted_pairs spec) = map_ref"
      "get_or_null ''contracts'' (sorted_pairs spec) = JArr contract_refs"
    unfolding object(3) gets by (simp_all add: sorted read(1))
  have "json_wf (JArr (map snapshot_dict snapshots))" by (simp add: list_all_iff json_wf_snapshot)
  then have enabled: "py_eq (get_or_null ''enabled_bundles'' (sorted_pairs spec)) (JArr (map snapshot_dict snapshots))"
    unfolding object(3) gets py_eq_def by (rule eq_norm_jsort)
  have "contract_refs \<noteq> []" using emap_length [OF refs(4)] inputs(2) by auto
  then have list: "launch_list (JArr contract_refs) = Inr contract_refs" by (simp add: launch_list_def)
  have identities: "launch_identities sha (sorted_pairs spec) p"
    using launch plan_id_suffix [OF digests] unfolding launch_identities_def object(3) gets by (simp add: generation_ok_def)
  have same: "same_plan p p \<and> py_eq (jsort binding) binding" using eq_norm_jsort [OF parts(8)] by (simp add: same_plan_def py_eq_def)
  have base_parsed: "parse_plan_artifact sha (plan_artifact_bytes sha base) = Inr base" using base by (simp add: parse_iff)
  have object_read: "loads_launch (canonical_bytes (JObj spec)) = Inr (JObj (sorted_pairs spec))"
    using loads_launch_written(1) [OF object(1)] unfolding jsort_JObj .
  show ?thesis
    unfolding validate_semantic_launch_spec_def
    using plan_of_installed [OF installed plugins] enabled d(3) same identities
    by (simp only: written object_read object(2) installed ebind_simps prod.case check_simps refs_sorted one base_parsed p parts(4,7) parts(5) [unfolded q]
        loads_unique_launch [OF parts(2)] simp_thms launch_from_def sum.case list launch_contracts_read [OF read(3) parts(1)] launch_mapping_def json.case d(1,2) id_apply)
qed

subsection \<open>A launch\<close>

text \<open>
  One installed distribution, \<open>b.kv\<close>, whose contract has a native obligation.  The artifacts of the launch
  are at six paths.
\<close>

definition lx_native_json :: json where
  "lx_native_json = JObj [(''schema'', JStr ''ecpa-manifest/0.1-draft''), (''id'', JStr ''b.kv''), (''version'', JStr ''1.0''),
     (''host'', JObj [(''runtime'', JStr ''vllm''), (''version'', JStr ''1'')]),
     (''capabilities'', JObj [(''provides'', ex_capability_json), (''requires'', JArr [])]), (''resources'', JArr []),
     (''process_obligations'', JArr [JObj [(''role'', JStr ''worker''), (''event'', JStr semantic_event), (''completion'', JStr ''all''),
        (''authority'', JStr ''runtime''), (''capability_direction'', JStr ''provides''), (''capability'', JStr ''kv.store'')]]),
     (''rollback'', JObj [(''manager_owned'', JArr []), (''external_operator_owned'', JArr [])]),
     (''authority'', JObj [(''provider'', JArr []), (''runtime'', JArr [JObj [(''role'', JStr ''worker''), (''event'', JStr semantic_event),
        (''capability_direction'', JStr ''provides''), (''capability'', JStr ''kv.store'')]]), (''external'', JArr [])])]"

definition lx_plugin :: plugin_identity where
  "lx_plugin = \<lparr>pi_namespace = ''b'', pi_name = ''kv'', pi_version = ''1.0'', pi_artifact_sha256 = ex_hash\<rparr>"

abbreviation lx_base :: plan where
  "lx_base \<equiv> ex_plan\<lparr>pl_plugins := [lx_plugin]\<rparr>"

definition lx_bundle :: installed_bundle where
  "lx_bundle = (ex_installed ''b.kv'' (ex_manifest ''b.kv'' [] []))\<lparr>ib_distribution_version := ''1.0''\<rparr>"

definition lx_distribution :: installed_distribution where
  "lx_distribution = \<lparr>dn_name = ''b.kv'', dn_version = ''1.0'', dn_direct_url = None,
     dn_files = [\<lparr>py_relative = ''kv/manifest.json'', py_regular = True, py_content = Some ''x'', py_manifest = True\<rparr>,
                 \<lparr>py_relative = ''kv/__pycache__/a.pyc'', py_regular = False, py_content = None, py_manifest = False\<rparr>]\<rparr>"

definition lx_map :: json where
  "lx_map = JObj [(''b.kv'', JStr (plugin_id sem_sha lx_plugin))]"

definition lx_view :: "(string \<times> string) list \<Rightarrow> launch_view" where
  "lx_view files = \<lparr>lv_euid = 7,
     lv_paths = (\<lambda>path. \<lparr>pv_absolute = True, pv_symlink = False, pv_resolved = Some path,
        pv_open = map_option (\<lambda>b. \<lparr>of_mode = 33152, of_uid = 7, of_bytes = b\<rparr>) (map_of files path)\<rparr>),
     lv_distribution = (\<lambda>name. if name = ''b.kv'' then Some lx_distribution else None),
     lv_manifest = (\<lambda>path. Some ''x'')\<rparr>"

lemma lx_native_parsed: "parse_contract sem_sha ex_pep440 (jsort lx_native_json) = Inr ex_native"
  by code_simp

lemma lx_native_wf: "json_wf lx_native_json"
  by code_simp

lemma lx_private: "map_of files path = Some b \<Longrightarrow> private_bytes (lx_view files) path = Inr b"
  by (simp add: private_bytes_def lx_view_def s_isreg_def s_imode_def)

lemma lx_snapshot: "installed_bundle_snapshot sem_sha (lx_view files) lx_bundle =
  Inr \<lparr>sn_bundle_id = ''b.kv'', sn_distribution_name = ''b.kv'', sn_distribution_version = ''1.0'', sn_manifest_sha256 = ex_hash,
       sn_files = [(''kv/manifest.json'', ex_hash, 1)]\<rparr>"
proof -
  have "\<not> outside_payload ''kv/manifest.json''" "outside_payload ''kv/__pycache__/a.pyc''" by code_simp+
  then show ?thesis
    by (simp add: installed_bundle_snapshot_def lx_view_def lx_bundle_def ex_installed_def lx_distribution_def editable_install_def
        payload_row_def sem_sha_def Let_def)
qed

lemma lx_identities: "\<exists>s. installed_plugin_identities sem_sha (lx_view files) [lx_bundle] = Inr ([lx_plugin], [s])"
  and lx_installed: "installed_as sem_sha (lx_view files) lx_bundle q \<longleftrightarrow> q = lx_plugin"
proof -
  have "rpartition_dot ''b.kv'' = Some (''b'', ''kv'')" by code_simp
  then show "\<exists>s. installed_plugin_identities sem_sha (lx_view files) [lx_bundle] = Inr ([lx_plugin], [s])"
    "installed_as sem_sha (lx_view files) lx_bundle q \<longleftrightarrow> q = lx_plugin"
    by (auto simp: installed_plugin_identities_def installed_as_def lx_snapshot plugin_identity_from_snapshot_def lx_plugin_def sem_sha_def Let_def)
qed

lemma lx_base_ok: "plan_ok sem_sha lx_base" "json_wf (plan_dict lx_base)"
proof -
  have "token ''b''" by (simp add: token_def is_space_def code_def)
  then have "plugin_ok lx_plugin" by (simp add: lx_plugin_def plugin_ok_def sem_tokens ex_hash_digest)
  then show "plan_ok sem_sha lx_base" using ex_plan_ok(1) by (simp add: plan_ok_def)
  show "json_wf (plan_dict lx_base)" using ex_plan_ok(2) by (simp add: json_wf_plan)
qed

lemma lx_loads: "json_wf v \<Longrightarrow> loads_unique (canonical_bytes v) = Inr (jsort v)"
  by (simp add: loads_unique_def canonical_bytes_def json_dumps_def
      loads_text_jprint [of unique_object] keeps_dicts_def unique_object_def)

lemma lx_compiled: "\<exists>plan_raw binding_raw. compile_artifact_bytes sem_sha ex_pep440 lx_base [canonical_bytes lx_native_json] (canonical_bytes lx_map)
    = Inr (plan_raw, binding_raw)"
proof -
  have parsed: "parse_plan_artifact sem_sha (plan_artifact_bytes sem_sha lx_base) = Inr lx_base"
    using lx_base_ok by (simp add: parse_iff)
  then obtain p binding where native: "compile_native_semantic_plan sem_sha ex_pep440 lx_base ex_native_plan
      [(''b.kv'', plugin_id sem_sha lx_plugin)] [0, 1] = Inr (p, binding)"
    using native_compiled [of lx_plugin] by (auto simp: lx_plugin_def)
  have "loads_unique (canonical_bytes lx_map) = Inr lx_map" by (simp add: lx_loads lx_map_def)
  moreover have "plugin_map lx_map = Inr [(''b.kv'', plugin_id sem_sha lx_plugin)]" by (simp add: plugin_map_def lx_map_def)
  moreover have "hc_runtime (pl_host lx_base) = ''vllm''" "hc_version (pl_host lx_base) = ''1''" by (simp_all add: ex_plan_def ex_host_def)
  ultimately show ?thesis
    using native ex_native_compiled
    by (simp add: compile_artifact_bytes_def lx_loads [OF lx_native_wf] lx_native_parsed from_error_def del: jsort.simps)
qed

subsection \<open>The properties\<close>

text \<open>
  C14. What a validated launch specification guarantees: it is the object of the private file, with the
  fields of its schema; the plan to launch is, as Python compares plans, the base plan with the native
  obligations that the contracts compile to, all the contract files the specification names, each parsed,
  compiled together for the host of the base plan; each obligation is linked, by the plugin map file the
  specification names, to a plugin of the base plan; the binding file is what that compilation gives; the
  plugins of the base plan are exactly the enabled bundles, each with the identity computed from the
  bytes that are installed; every provider of the plugin map is such a bundle; and the identities the host
  receives are those of this plan.
\<close>

theorem launch_spec_sound:
  assumes "validate_semantic_launch_spec sha P v path bundles = Inr spec" and "\<forall>raw. token (sha raw)"
  shows "\<exists>base p contracts compiled mapping new expected_binding.
     ebind (private_bytes v path) loads_launch = Inr (JObj spec) \<and> set (map fst spec) = set launch_spec_fields
   \<and> referenced sha v (get_or_null ''base_plan'' spec) = Inr (plan_artifact_bytes sha base)
   \<and> referenced sha v (get_or_null ''plan'' spec) = Inr (plan_artifact_bytes sha p)
   \<and> set (pl_plugins base) = {q. \<exists>b \<in> set bundles. installed_as sha v b q}
   \<and> names_contracts sha P v spec contracts \<and> names_mapping sha v spec mapping
   \<and> compile_contracts P contracts (JStr (hc_runtime (pl_host base))) (JStr (hc_version (pl_host base))) None = Inr compiled
   \<and> new \<noteq> [] \<and> same_plan p (base\<lparr>pl_obligations := pl_obligations base @ new\<rparr>)
   \<and> list_all2 (linked sha base compiled mapping) (filter (\<lambda>b. bo_event b = semantic_event) (cl_obligation_bindings compiled)) new
   \<and> compile_native_semantic_plan sha P base compiled mapping [0, 1]
       = Inr (base\<lparr>pl_obligations := pl_obligations base @ new\<rparr>, expected_binding)
   \<and> (\<exists>binding. ebind (referenced sha v (get_or_null ''binding'' spec)) loads_launch = Inr binding \<and> py_eq binding expected_binding)
   \<and> (\<forall>(i, k) \<in> set mapping. \<exists>b \<in> set bundles. ib_bundle_id b = i \<and> (\<exists>q. installed_as sha v b q \<and> k = plugin_id sha q))
   \<and> launch_identities sha spec p"
proof -
  from assms(1) obtain plugins snapshots base p binding d ids contracts compiled expected expected_binding raw binding_raw where steps:
    "private_bytes v path = Inr raw" "loads_launch raw = Inr (JObj spec)" "keys_are spec launch_spec_fields"
    "get_or_null ''schema'' spec = JStr launch_spec_schema"
    "installed_plugin_identities sha v bundles = Inr (plugins, snapshots)"
    "py_eq (get_or_null ''enabled_bundles'' spec) (JArr (map snapshot_dict snapshots))"
    "referenced sha v (get_or_null ''base_plan'' spec) = Inr (plan_artifact_bytes sha base)" "json_wf (plan_dict base)"
    "referenced sha v (get_or_null ''plan'' spec) = Inr (plan_artifact_bytes sha p)"
    "referenced sha v (get_or_null ''binding'' spec) = Inr binding_raw" "loads_launch binding_raw = Inr binding"
    "set (pl_plugins base) = set plugins" "length (pl_plugins base) = length plugins"
    "names_contracts sha P v spec contracts"
    "names_mapping sha v spec ids"
    "mapping_agrees (actual_mapping sha snapshots plugins) d" "mapping_strings d = Inr ids"
    "compile_contracts P contracts (JStr (hc_runtime (pl_host base))) (JStr (hc_version (pl_host base))) None = Inr compiled"
    "compile_native_semantic_plan sha P base compiled ids [0, 1] = Inr (expected, expected_binding)"
    "same_plan p expected" "py_eq binding expected_binding" "launch_identities sha spec p"
    by (rule validated_steps)
  from steps(19,8) assms(2) obtain new where new: "new \<noteq> []" "expected = base\<lparr>pl_obligations := pl_obligations base @ new\<rparr>"
    "list_all2 (linked sha base compiled ids) (filter (\<lambda>b. bo_event b = semantic_event) (cl_obligation_bindings compiled)) new"
    by (rule semantic_plan_steps)
  have "\<forall>(i, k) \<in> set ids. \<exists>b \<in> set bundles. ib_bundle_id b = i \<and> (\<exists>q. installed_as sha v b q \<and> k = plugin_id sha q)"
    using mapping_strings_agree [OF steps(17,16)] unfolding actual_mapping_Some [OF steps(5)] .
  then show ?thesis
    using steps(1-3,7,9-11,14,15,18-22) new steps(12) installed_plugins [OF steps(5)]
    by (intro exI [of _ base] exI [of _ p] exI [of _ contracts] exI [of _ compiled] exI [of _ ids] exI [of _ new]
        exI [of _ expected_binding]) (simp add: keys_are_def)
qed


lemma lx_made:
  assumes "parse_plan_artifact sem_sha plan_raw = Inr p" and "map_of files ''/p'' = Some plan_raw"
    and "map_of files ''/b'' = Some b" "map_of files ''/i'' = Some i" "map_of files ''/c'' = Some c" "map_of files ''/m'' = Some m"
  shows "make_semantic_launch_spec sem_sha (lx_view files) [lx_bundle] ''/b'' ''/p'' ''/i'' [''/c''] ''/m'' ''controller:k'' 1 0
    = Inr (made_fields (reference_dict ''/b'' ex_hash) (reference_dict ''/p'' ex_hash) (reference_dict ''/i'' ex_hash) [reference_dict ''/c'' ex_hash]
        (reference_dict ''/m'' ex_hash) (snd (case installed_plugin_identities sem_sha (lx_view []) [lx_bundle] of Inr r \<Rightarrow> r))
        (''plan:sha256:'' @ ex_hash) (after_colon (''plan:sha256:'' @ ex_hash)) ''controller:k'' 1 0)"
proof -
  have "installed_plugin_identities sem_sha (lx_view files) [lx_bundle] = installed_plugin_identities sem_sha (lx_view []) [lx_bundle]"
    by (simp add: installed_plugin_identities_def lx_snapshot)
  moreover obtain s where "installed_plugin_identities sem_sha (lx_view []) [lx_bundle] = Inr ([lx_plugin], [s])" using lx_identities by blast
  ultimately show ?thesis
    using assms by (simp add: make_semantic_launch_spec_def artifact_reference_def lx_private launch_from_def made_fields_def sem_sha_def
        plan_id_def content_id_def)
qed

lemma lx_valid_files:
  obtains files spec plan_raw binding_raw where
    "make_semantic_launch_spec sem_sha (lx_view files) [lx_bundle] ''/b'' ''/p'' ''/i'' [''/c''] ''/m'' ''controller:k'' 1 0 = Inr spec"
    "compile_artifact_bytes sem_sha ex_pep440 lx_base [canonical_bytes lx_native_json] (canonical_bytes lx_map) = Inr (plan_raw, binding_raw)"
    "map_of files ''/b'' = Some (plan_artifact_bytes sem_sha lx_base)" "map_of files ''/p'' = Some plan_raw" "map_of files ''/i'' = Some binding_raw"
    "map_of files ''/c'' = Some (canonical_bytes lx_native_json)" "map_of files ''/m'' = Some (canonical_bytes lx_map)"
    "map_of files ''/s'' = Some (canonical_bytes (JObj spec))"
proof -
  obtain plan_raw binding_raw where compiled: "compile_artifact_bytes sem_sha ex_pep440 lx_base [canonical_bytes lx_native_json] (canonical_bytes lx_map)
    = Inr (plan_raw, binding_raw)" using lx_compiled by blast
  have digests: "\<forall>raw. lower_digest (sem_sha raw)" using ex_hash_digest by (simp add: sem_sha_def)
  obtain p where p: "parse_plan_artifact sem_sha plan_raw = Inr p"
    by (rule compiled_artifacts [OF compiled lx_base_ok digests]) (rule that)
  let ?fs = "[(''/b'', plan_artifact_bytes sem_sha lx_base), (''/p'', plan_raw), (''/i'', binding_raw), (''/c'', canonical_bytes lx_native_json),
     (''/m'', canonical_bytes lx_map)]"
  obtain spec where "\<And>r. make_semantic_launch_spec sem_sha (lx_view (?fs @ r)) [lx_bundle] ''/b'' ''/p'' ''/i'' [''/c''] ''/m'' ''controller:k'' 1 0 = Inr spec"
    using lx_made [OF p] by simp
  then show ?thesis using compiled by (intro that [of "?fs @ [(''/s'', canonical_bytes (JObj spec))]" spec plan_raw binding_raw]) simp_all
qed

lemma lx_mapping: "ebind (loads_unique (canonical_bytes lx_map)) plugin_map = Inr [(''b.kv'', plugin_id sem_sha lx_plugin)]"
proof -
  have "loads_unique (canonical_bytes lx_map) = Inr lx_map" by (simp add: lx_loads lx_map_def)
  then show ?thesis by (simp add: plugin_map_def lx_map_def)
qed

lemma lx_validates:
  assumes "make_semantic_launch_spec sem_sha (lx_view files) [lx_bundle] ''/b'' ''/p'' ''/i'' [''/c''] ''/m'' ''controller:k'' 1 0 = Inr spec"
    "compile_artifact_bytes sem_sha ex_pep440 lx_base [canonical_bytes lx_native_json] (canonical_bytes lx_map) = Inr (plan_raw, binding_raw)"
    "map_of files ''/b'' = Some (plan_artifact_bytes sem_sha lx_base)" "map_of files ''/p'' = Some plan_raw" "map_of files ''/i'' = Some binding_raw"
    "map_of files ''/c'' = Some (canonical_bytes lx_native_json)" "map_of files ''/m'' = Some (canonical_bytes lx_map)"
    "map_of files ''/s'' = Some (canonical_bytes (JObj spec))"
  shows "validate_semantic_launch_spec sem_sha ex_pep440 (lx_view files) ''/s'' [lx_bundle] = Inr (sorted_pairs spec)"
  by (rule made_spec_valid [OF assms(1) lx_private [OF assms(3)] lx_base_ok _ _ lx_private [OF assms(7)] assms(2) lx_private [OF assms(4)]
        lx_private [OF assms(5)] _ _ lx_mapping _ _ _ _ _ lx_private [OF assms(8)]])
    (simp_all add: lx_private [OF assms(6)] lx_installed, simp_all add: lx_bundle_def ex_installed_def controller_ok_def is_space_def code_def
      sem_sha_def ex_hash_digest)


theorem launch_spec_sound_witness:
  "\<exists>files spec base p contracts. validate_semantic_launch_spec sem_sha ex_pep440 (lx_view files) ''/s'' [lx_bundle] = Inr spec
    \<and> referenced sem_sha (lx_view files) (get_or_null ''base_plan'' spec) = Inr (plan_artifact_bytes sem_sha base)
    \<and> referenced sem_sha (lx_view files) (get_or_null ''plan'' spec) = Inr (plan_artifact_bytes sem_sha p)
    \<and> set (pl_plugins base) = {lx_plugin} \<and> names_contracts sem_sha ex_pep440 (lx_view files) spec contracts
    \<and> launch_identities sem_sha spec p"
proof -
  obtain files spec plan_raw binding_raw where f:
    "make_semantic_launch_spec sem_sha (lx_view files) [lx_bundle] ''/b'' ''/p'' ''/i'' [''/c''] ''/m'' ''controller:k'' 1 0 = Inr spec"
    "compile_artifact_bytes sem_sha ex_pep440 lx_base [canonical_bytes lx_native_json] (canonical_bytes lx_map) = Inr (plan_raw, binding_raw)"
    "map_of files ''/b'' = Some (plan_artifact_bytes sem_sha lx_base)" "map_of files ''/p'' = Some plan_raw" "map_of files ''/i'' = Some binding_raw"
    "map_of files ''/c'' = Some (canonical_bytes lx_native_json)" "map_of files ''/m'' = Some (canonical_bytes lx_map)"
    "map_of files ''/s'' = Some (canonical_bytes (JObj spec))"
    by (rule lx_valid_files)
  have valid: "validate_semantic_launch_spec sem_sha ex_pep440 (lx_view files) ''/s'' [lx_bundle] = Inr (sorted_pairs spec)"
    by (rule lx_validates [OF f])
  have "\<forall>raw. token (sem_sha raw)" using sem_tokens by simp
  from launch_spec_sound [OF valid this] obtain base p contracts where
    "referenced sem_sha (lx_view files) (get_or_null ''base_plan'' (sorted_pairs spec)) = Inr (plan_artifact_bytes sem_sha base)"
    "referenced sem_sha (lx_view files) (get_or_null ''plan'' (sorted_pairs spec)) = Inr (plan_artifact_bytes sem_sha p)"
    "set (pl_plugins base) = {q. \<exists>b \<in> set [lx_bundle]. installed_as sem_sha (lx_view files) b q}"
    "names_contracts sem_sha ex_pep440 (lx_view files) (sorted_pairs spec) contracts"
    "launch_identities sem_sha (sorted_pairs spec) p" by (elim exE conjE)
  with valid show ?thesis by (intro exI [of _ files] exI [of _ "sorted_pairs spec"] exI [of _ base] exI [of _ p] exI [of _ contracts]) (simp add: lx_installed)
qed

end
