(* ===== verification/Spec2Isabelle.thy ===== *)
theory Spec2Isabelle
  imports Gate_Oracle Gate_Authority Signed_Evidence Semantic_Obligations Event_Sink_Safety Bundle_Commands Runtime_Evidence Semantic_Launch
begin

section \<open>The vLLM-HUST Extension Manager: a verification library\<close>

text \<open>
  \<^bold>\<open>The program.\<close>  The package \<^verbatim>\<open>src/src/vllm_hust_ext\<close> activates plugins of an inference host.  Contracts
  of plugins are compiled to a plan (\<^verbatim>\<open>contract_compiler.py\<close>); a durable coordinator takes an activation
  of a plan through prepare, launch, observe and commit with a write-ahead journal in SQLite
  (\<^verbatim>\<open>durable_coordinator.py\<close>); commit opens the exposure gate, which switches the traffic from a
  predecessor to a candidate generation with a log of intents and receipts (\<^verbatim>\<open>exposure_gate.py\<close>);
  \<^verbatim>\<open>ecpa_model.py\<close> defines the shared data, the content identities and an in-memory reference model.
  A compiled plan travels as a file (\<^verbatim>\<open>plan_artifact.py\<close>) and may carry the obligations of a native
  adapter (\<^verbatim>\<open>semantic_obligations.py\<close>).  At run time the host appends the events it observed to private
  journals (\<^verbatim>\<open>host_event_sink.py\<close>), an event is checked and translated to an attestation statement
  (\<^verbatim>\<open>host_evidence.py\<close>), and signed statements (\<^verbatim>\<open>attestation/\<close>) are the evidence on which the
  coordinator commits.  Around this core, plugins are installed as bundles with a static manifest
  (\<^verbatim>\<open>manifest.py\<close>), discovered among the installed distributions (\<^verbatim>\<open>discovery.py\<close>), enabled, configured
  and disabled by commands (\<^verbatim>\<open>cli.py\<close>) that keep the user's intent in a file (\<^verbatim>\<open>config.py\<close>), and planned
  for a launch by host providers whose plans must not conflict (\<^verbatim>\<open>core.py\<close>).  A launch leaves a binding in
  a journal of runtime evidence, to which the processes of the host append what they loaded, and the status
  of a bundle is derived from it (\<^verbatim>\<open>runtime_evidence.py\<close>); a semantic launch is checked against the bytes that are
  installed (\<^verbatim>\<open>semantic_runtime_binding.py\<close>).

  \<^bold>\<open>Conventions.\<close>  Python values that come from JSON are the datatype \<open>json\<close>; dicts are association
  lists in insertion order; \<open>int\<close> is HOL's \<open>int\<close>; exceptions are values of a sum type.  A method that
  mutates an object is a function of the state monad \<open>('x, 's, 'a) py\<close> of \<open>Prelude\<close>, which returns the
  state also when it raises; a transaction (\<open>with connection:\<close>) restores the database part when its
  body raises.  The hash is a parameter \<open>sha\<close>: no property assumes that it is injective (where an
  identity must bind, the alternative is an explicit collision), only, where needed, that it returns
  64 hexadecimal digits.  Every
  recursion is structural or has a termination proof, but for the scanner of \<open>json.loads\<close>, which has
  fuel: \<open>loads_text\<close> gives twice the length of the text plus one, and \<open>pval_fuel\<close> proves that more fuel
  never changes the result.

  \<^bold>\<open>Theories, in the order of the imports.\<close>

  \<^item> \<open>Prelude\<close>: the exception monad \<open>py\<close> with its backward rules (\<open>pwp\<close>), the error monad of sums, lists.
  \<^item> \<open>Json\<close>: JSON values, \<open>json.dumps(sort_keys=True, separators=(",", ":"))\<close>, \<open>json.loads\<close> with white
    space and \<open>object_pairs_hook\<close>, and that loading what was dumped gives the value with sorted keys.
  \<^item> \<open>ECPA_Model\<close> (\<^verbatim>\<open>ecpa_model.py\<close>): the dataclasses, \<open>canonical_bytes\<close>, \<open>content_id\<close>, \<open>make_plan\<close> and all
    methods of \<open>ReferenceModel\<close>; effective activations have evidence, commits, nonces, claims.
  \<^item> \<open>Gate_Base\<close>, \<open>Exposure_Gate\<close> (\<^verbatim>\<open>exposure_gate.py\<close>): the tables of the gate, \<open>_ALLOWED\<close>, \<open>_transition\<close>,
    \<open>_append\<close>, the traffic authority protocol as the record \<open>adapter\<close> with the deterministic authority as
    an instance; then \<open>stage\<close>, \<open>close\<close>, \<open>open\<close>, \<open>drain\<close>, \<open>observe\<close>, \<open>rollback\<close>, \<open>fail_close\<close>,
    \<open>reconcile\<close>, \<open>export_trace\<close>, \<open>evaluate_trace\<close>.
  \<^item> \<open>Gate_Run\<close>, \<open>Gate_Invariant\<close>: a concrete run; the step relation \<open>gate_step\<close> (calls, crashes,
    restarts, any adapter behaviour), its invariant, and that the log replays, is append-only and final.
  \<^item> \<open>Gate_Oracle\<close>, \<open>Gate_Authority\<close>: reachable gates satisfy the offline oracle up to the pairing rules;
    what open, close, rollback and reconcile establish of the traffic.
  \<^item> \<open>Coordinator_Store\<close>, \<open>Coordinator\<close> (\<^verbatim>\<open>durable_coordinator.py\<close>): the tables and \<open>TRANSITIONS\<close>, the host,
    verifier, traffic and external protocols as the record \<open>services\<close>, and every method of
    \<open>ActivationCoordinator\<close> with its transactions and fault points.
  \<^item> \<open>Coordinator_Invariant\<close>, \<open>Coordinator_Run\<close>, \<open>Coordinator_Safety\<close>: backward rules per method, the step
    relation \<open>co_step\<close> (calls with any arguments, services and faults; crashes with restart), the
    invariant of the store; a concrete run; journal, generation, evidence, rollback and recovery.
  \<^item> \<open>Plan_Json\<close>: a plan written to the store and read back.
  \<^item> \<open>Plan_Artifact\<close> (\<^verbatim>\<open>plan_artifact.py\<close>): the value of a plan file, its parser with every check and
    message, \<open>read_plan_artifact\<close>, and that exactly the written forms of well-formed plans are read.
  \<^item> \<open>Base64url\<close>, \<open>Attestation\<close> (\<^verbatim>\<open>attestation/model.py\<close>, \<^verbatim>\<open>attestation/profile.py\<close>): statements, strict JSON,
    envelopes, trust store, \<open>sign\<close>, \<open>verify\<close>, \<open>SignedAttestationVerifier\<close>.  The packages \<open>jcs\<close> and
    \<open>cryptography\<close> are the parameter record \<open>jws_lib\<close>, with what is relied on in \<open>jcs_ok\<close> and \<open>key_pair\<close>.
  \<^item> \<open>Attestation_Verify\<close>: exactly which envelopes verify, and that signed ones do.  \<open>Signed_Evidence\<close>: the
    coordinator with this verifier, and the signatures behind every commit.
  \<^item> \<open>Contract_Parser\<close>, \<open>Contract_Compiler\<close> (\<^verbatim>\<open>contract_compiler.py\<close>): \<open>parse_contract_taxonomy\<close>,
    \<open>parse_contract\<close>; the passes of \<open>compile_contracts\<close>.  PEP 440 versions and specifier sets
    are the parameter record \<open>pep440\<close>, with the documented behaviour named in \<open>pep440_ok\<close>.
  \<^item> \<open>Contract_Order\<close>: the locale \<open>min_queue\<close> of the operations of \<open>heapq\<close>, interpreted on the queue of the
    model, and the order loop against the specification \<open>greedy\<close>.
  \<^item> \<open>Contract_Example\<close>, \<open>Contract_Plan\<close>, \<open>Contract_Resources\<close>, \<open>Contract_Parsed\<close>, \<open>Contract_Determinism\<close>:
    two contracts compiled; providers first and cycles; resource ownership; well-formedness of what is
    parsed and that only planning errors are raised; independence of the order of the input.

  \<^item> \<open>Semantic_Obligations\<close> (\<^verbatim>\<open>semantic_obligations.py\<close>): \<open>compile_native_semantic_plan\<close> and the bytes
    \<open>compile_artifacts\<close> writes; the plan refines the contract it is compiled from.
  \<^item> \<open>Host_Evidence\<close> (\<^verbatim>\<open>host_evidence.py\<close>): \<open>parse_host_event\<close>, \<open>translate_invocation\<close>; what the event
    identity binds, and the bounds of a translated statement.
  \<^item> \<open>Event_Sink\<close>, \<open>Event_Sink_Safety\<close> (\<^verbatim>\<open>host_event_sink.py\<close>): the inodes, directories and system calls
    the sink uses as the record \<open>host_os\<close>, in which every call may fail, a write may be short and other
    processes may act between two calls as its script says; \<open>append_event\<close>, \<open>read_events\<close>,
    \<open>snapshot_journal\<close>, \<open>quarantine_journal\<close>, \<open>restore_quarantined_journal\<close>; quarantine moves all or
    nothing, reads are bounded, and restore undoes quarantine.

  \<^item> \<open>Bundle_Manifest\<close> (\<^verbatim>\<open>manifest.py\<close>): manifests of both schemas from JSON, \<open>load_manifest\<close>,
    \<open>activation_blocker\<close>; what every parsed manifest satisfies.
  \<^item> \<open>Bundle_Discovery\<close> (\<^verbatim>\<open>discovery.py\<close>): strict discovery, which finds every bundle on its own
    (\<open>discover_selected_iff\<close>), and the tolerant inventory, which loses no registration.
  \<^item> \<open>Extension_Plans\<close> (\<^verbatim>\<open>core.py\<close>, \<^verbatim>\<open>providers/base.py\<close>): plans and checks of host providers, \<open>plan_for\<close>,
    \<open>status_for\<close>; exactly which plans may be launched together.
  \<^item> \<open>Bundle_Commands\<close> (\<^verbatim>\<open>config.py\<close>, \<^verbatim>\<open>cli.py\<close>): the stored configuration and its JSON, the checks of a
    selection with the depth-first search for cycles, the commands, and the invariant of the selection.
  \<^item> \<open>Runtime_Evidence\<close> (\<^verbatim>\<open>runtime_evidence.py\<close>, \<^verbatim>\<open>status_for\<close> of \<^verbatim>\<open>core.py\<close>): the world of environment, journal and
    processes; the launch binding, the events of modules, and when a bundle counts as effective.
  \<^item> \<open>Semantic_Launch\<close> (\<^verbatim>\<open>semantic_runtime_binding.py\<close>): snapshots of installed distributions, the identities
    of their plugins, and the launch specification, which is validated exactly as it was made.

  \<^bold>\<open>Not modelled.\<close>  Texts of error messages, but for \<open>Plan_Artifact\<close>, \<open>Host_Evidence\<close>, \<open>Event_Sink\<close>
  and \<open>Semantic_Obligations\<close>, which keep them; SQL itself (tables are lists with the constraints the
  code relies on); the migration of older databases; concurrency inside one process (the code holds
  one connection and one lock, so operations are atomic up to their fault points, at which a crash
  may occur); the limit of 4300 digits of Python's \<open>int\<close>; the file locks other processes hold and what
  survives a power failure before \<open>fsync\<close>.  Of the package: argument parsing and printing, the search
  of a distribution's files for its manifest, \<^verbatim>\<open>/proc\<close> readers, process supervision and providers that
  render files, which are input and output; profiles, catalogs, quarantine transactions and the file
  output of \<open>compile_artifacts\<close>.  Experiments,
  paper scripts and tools outside the package measure the program and are not part of it.
\<close>

end
